(* ===== verification/SdqpPrelude.thy ===== *)
theory SdqpPrelude
  imports Main "HOL-Library.AList" "HOL-Library.List_Lexorder" "HOL-Library.Char_ord"
begin

text \<open>
  Shared vocabulary of the development: the model types for time, identifiers and results,
  the standard-library operations of Rust that several components use (string trimming and
  splitting, decimal rendering and parsing, ordered maps, first-match updates), and the
  lemmas about them that the component theories rely on.

  Conventions.  A Rust \<open>String\<close> is a HOL \<open>string\<close>, a list of code points in the range
  U+0000 to U+00FF; white space is Rust's \<open>char::is_whitespace\<close> on that range.
  \<open>Result<T, E>\<close> is \<open>'e + 'a\<close> with \<open>Inl\<close> the error.  A \<open>DateTime<Utc>\<close> is an \<open>int\<close>
  counting nanoseconds from the epoch; calls to \<open>Utc::now()\<close> and \<open>Ulid::new()\<close> are
  arguments of the model.  A \<open>HashMap\<close> is an association list with distinct keys, read
  with \<open>map_of\<close> and written with \<open>AList.update\<close> and \<open>AList.delete\<close>; its iteration order
  is the list's, and no theorem depends on it.
\<close>

named_theorems sdqp_defs "definitions of small accessors and predicates, unfolded by default"

type_synonym time = int

definition seconds_ns :: "int \<Rightarrow> time" where
  "seconds_ns s = s * 1000000000"

definition minutes_ns :: "int \<Rightarrow> time" where
  "minutes_ns m = m * 60 * 1000000000"

definition hours_ns :: "int \<Rightarrow> time" where
  "hours_ns h = h * 3600 * 1000000000"

definition days_ns :: "int \<Rightarrow> time" where
  "days_ns d = d * 86400 * 1000000000"

subsection \<open>Results\<close>

definition res_bind :: "'e + 'a \<Rightarrow> ('a \<Rightarrow> 'e + 'b) \<Rightarrow> 'e + 'b" where
  "res_bind r f = (case r of Inl e \<Rightarrow> Inl e | Inr a \<Rightarrow> f a)"

lemma res_bind_simps [simp]:
  "res_bind (Inl e) f = Inl e"
  "res_bind (Inr a) f = f a"
  by (simp_all add: res_bind_def)

lemma res_bind_eq_Inr:
  "res_bind r f = Inr b \<longleftrightarrow> (\<exists>a. r = Inr a \<and> f a = Inr b)"
  by (cases r) simp_all

lemma res_bind_eq_Inl:
  "res_bind r f = Inl e \<longleftrightarrow> r = Inl e \<or> (\<exists>a. r = Inr a \<and> f a = Inl e)"
  by (cases r) simp_all

definition res_of_option :: "'e \<Rightarrow> 'a option \<Rightarrow> 'e + 'a" where
  "res_of_option e x = (case x of None \<Rightarrow> Inl e | Some a \<Rightarrow> Inr a)"

lemma res_of_option_simps [simp]:
  "res_of_option e None = Inl e"
  "res_of_option e (Some a) = Inr a"
  by (simp_all add: res_of_option_def)

text \<open>\<open>iter.map(f).collect::<Result<Vec<_>, _>>()\<close> stops at the first error.\<close>

fun res_map_list :: "('a \<Rightarrow> 'e + 'b) \<Rightarrow> 'a list \<Rightarrow> 'e + 'b list" where
  "res_map_list f [] = Inr []"
| "res_map_list f (x # xs) =
     res_bind (f x) (\<lambda>y. res_bind (res_map_list f xs) (\<lambda>ys. Inr (y # ys)))"

lemma res_map_list_Inr:
  "res_map_list f xs = Inr ys \<longleftrightarrow> list_all2 (\<lambda>x y. f x = Inr y) xs ys"
proof (induction xs arbitrary: ys)
  case Nil
  then show ?case by auto
next
  case (Cons x xs)
  then show ?case
    by (cases ys) (auto simp: res_bind_eq_Inr)
qed

lemma res_map_list_length: "res_map_list f xs = Inr ys \<Longrightarrow> length ys = length xs"
  by (auto simp: res_map_list_Inr dest: list_all2_lengthD)

lemma res_map_list_total:
  "(\<And>x. x \<in> set xs \<Longrightarrow> f x = Inr (g x)) \<Longrightarrow> res_map_list f xs = Inr (map g xs)"
  by (induction xs) auto

text \<open>The same where a step may panic, which is \<open>None\<close>.\<close>

definition panic_bind :: "('e + 'a) option \<Rightarrow> ('a \<Rightarrow> ('e + 'b) option) \<Rightarrow> ('e + 'b) option" where
  "panic_bind r f = (case r of None \<Rightarrow> None | Some (Inl e) \<Rightarrow> Some (Inl e) | Some (Inr a) \<Rightarrow> f a)"

lemma panic_bind_simps [simp]:
  "panic_bind None f = None"
  "panic_bind (Some (Inl e)) f = Some (Inl e)"
  "panic_bind (Some (Inr a)) f = f a"
  by (simp_all add: panic_bind_def)

lemma panic_bind_Inr:
  "panic_bind r f = Some (Inr b) \<longleftrightarrow> (\<exists>a. r = Some (Inr a) \<and> f a = Some (Inr b))"
  by (auto simp: panic_bind_def split: option.splits sum.splits)

fun panic_map_list :: "('a \<Rightarrow> ('e + 'b) option) \<Rightarrow> 'a list \<Rightarrow> ('e + 'b list) option" where
  "panic_map_list f [] = Some (Inr [])"
| "panic_map_list f (x # xs) =
     panic_bind (f x) (\<lambda>y. panic_bind (panic_map_list f xs) (\<lambda>ys. Some (Inr (y # ys))))"

lemma panic_map_list_Inr:
  "panic_map_list f xs = Some (Inr ys) \<longleftrightarrow> list_all2 (\<lambda>x y. f x = Some (Inr y)) xs ys"
proof (induction xs arbitrary: ys)
  case Nil
  then show ?case by auto
next
  case (Cons x xs)
  then show ?case by (cases ys) (auto simp: panic_bind_Inr)
qed

lemma panic_map_list_total:
  "(\<And>x. x \<in> set xs \<Longrightarrow> f x = Some (Inr (g x))) \<Longrightarrow> panic_map_list f xs = Some (Inr (map g xs))"
  by (induction xs) auto

text \<open>\<open>x.unwrap_or(d)\<close>.\<close>

definition option_or :: "'a option \<Rightarrow> 'a \<Rightarrow> 'a" where
  "option_or x d = (case x of Some a \<Rightarrow> a | None \<Rightarrow> d)"

text \<open>\<open>x.or(y)\<close>.\<close>

definition or_else :: "'a option \<Rightarrow> 'a option \<Rightarrow> 'a option" where
  "or_else x y = (case x of None \<Rightarrow> y | Some a \<Rightarrow> Some a)"

subsection \<open>Sequences\<close>

text \<open>\<open>slice.get(i)\<close>: the element of an index in range; \<open>slice[i]\<close> panics exactly at \<open>None\<close>.\<close>

definition nth_opt :: "'a list \<Rightarrow> nat \<Rightarrow> 'a option" where
  "nth_opt xs i = (if i < length xs then Some (xs ! i) else None)"

lemma nth_opt_Some_iff: "nth_opt xs i = Some x \<longleftrightarrow> i < length xs \<and> x = xs ! i"
  by (auto simp: nth_opt_def)

lemma nth_opt_None_iff: "nth_opt xs i = None \<longleftrightarrow> length xs \<le> i"
  by (auto simp: nth_opt_def)

text \<open>\<open>iter.find_map(f)\<close>, \<open>iter.position(p)\<close>, and the mutation of the first match.\<close>

fun find_map :: "('a \<Rightarrow> 'b option) \<Rightarrow> 'a list \<Rightarrow> 'b option" where
  "find_map f [] = None"
| "find_map f (x # xs) = (case f x of Some y \<Rightarrow> Some y | None \<Rightarrow> find_map f xs)"

fun position :: "('a \<Rightarrow> bool) \<Rightarrow> 'a list \<Rightarrow> nat option" where
  "position p [] = None"
| "position p (x # xs) = (if p x then Some 0 else map_option Suc (position p xs))"

lemma position_Some_nth: "position p xs = Some i \<Longrightarrow> i < length xs \<and> p (xs ! i)"
  by (induction xs arbitrary: i) (auto split: if_splits)

lemma position_None: "position p xs = None \<longleftrightarrow> (\<forall>x \<in> set xs. \<not> p x)"
  by (induction xs) auto

fun update_first :: "('a \<Rightarrow> bool) \<Rightarrow> ('a \<Rightarrow> 'a) \<Rightarrow> 'a list \<Rightarrow> 'a list" where
  "update_first p f [] = []"
| "update_first p f (x # xs) = (if p x then f x # xs else x # update_first p f xs)"

lemma length_update_first [simp]: "length (update_first p f xs) = length xs"
  by (induction xs) auto

lemma update_first_none: "\<forall>x \<in> set xs. \<not> p x \<Longrightarrow> update_first p f xs = xs"
  by (induction xs) auto

lemma map_update_first: "(\<And>x. g (f x) = g x) \<Longrightarrow> map g (update_first p f xs) = map g xs"
  by (induction xs) auto

lemma find_update_first:
  assumes "\<And>x. p (f x) = p x"
  shows "find p (update_first p f xs) = map_option f (find p xs)"
  using assms by (induction xs) auto

lemma find_Some_mem: "find p xs = Some x \<Longrightarrow> x \<in> set xs \<and> p x"
  by (auto simp: find_Some_iff)

text \<open>\<open>push_unique\<close> of the directory and \<open>Vec::push\<close> guarded by a membership test.\<close>

definition push_unique :: "'a list \<Rightarrow> 'a \<Rightarrow> 'a list" where
  "push_unique xs x = (if x \<in> set xs then xs else xs @ [x])"

lemma set_push_unique [simp]: "set (push_unique xs x) = insert x (set xs)"
  by (auto simp: push_unique_def)

lemma distinct_push_unique [simp]: "distinct (push_unique xs x) = distinct xs"
  by (simp add: push_unique_def)

lemma foldl_push_unique:
  "set (foldl push_unique xs ys) = set xs \<union> set ys \<and> (distinct xs \<longrightarrow> distinct (foldl push_unique xs ys))"
  by (induction ys arbitrary: xs) auto

lemma foldl_push_unique_known: "set ys \<subseteq> set xs \<Longrightarrow> foldl push_unique xs ys = xs"
  by (induction ys) (auto simp: push_unique_def)

lemma foldl_push_unique_id: "distinct xs \<Longrightarrow> foldl push_unique [] xs = xs"
  by (induction xs rule: rev_induct) (auto simp: push_unique_def)

subsection \<open>Ordered maps\<close>

text \<open>
  A \<open>BTreeMap\<close> is an association list sorted strictly by key;
  \<open>bt_upsert k f\<close> is \<open>entry(k)\<close> followed by an update that sees the old value, if any.
\<close>

fun bt_upsert :: "'k::linorder \<Rightarrow> ('v option \<Rightarrow> 'v) \<Rightarrow> ('k \<times> 'v) list \<Rightarrow> ('k \<times> 'v) list" where
  "bt_upsert k f [] = [(k, f None)]"
| "bt_upsert k f (p # m) =
     (if k < fst p then (k, f None) # p # m
      else if k = fst p then (k, f (Some (snd p))) # m
      else p # bt_upsert k f m)"

definition bt_ok :: "('k::linorder \<times> 'v) list \<Rightarrow> bool" where
  "bt_ok m = sorted_wrt (<) (map fst m)"

lemma bt_ok_Nil [simp]: "bt_ok []"
  by (simp add: bt_ok_def)

lemma fst_set_bt_upsert: "fst ` set (bt_upsert k f m) = insert k (fst ` set m)"
  by (induction m) auto

lemma bt_ok_upsert: "bt_ok m \<Longrightarrow> bt_ok (bt_upsert k f m)"
proof (induction m)
  case (Cons p m)
  have "k' \<in> insert k (fst ` set m)" if "k' \<in> fst ` set (bt_upsert k f m)" for k'
    using that by (simp add: fst_set_bt_upsert)
  with Cons show ?case
    by (fastforce simp: bt_ok_def)
qed (simp add: bt_ok_def)

lemma map_of_bt_upsert:
  "bt_ok m \<Longrightarrow> map_of (bt_upsert k f m) = (map_of m)(k \<mapsto> f (map_of m k))"
proof (induction m)
  case (Cons p m)
  have gt: "k < fst p \<Longrightarrow> map_of (p # m) k = None"
    using Cons.prems by (fastforce simp: bt_ok_def map_of_eq_None_iff)
  from Cons gt show ?case
    by (cases p) (auto simp: bt_ok_def fun_eq_iff)
qed simp

lemma bt_ok_distinct: "bt_ok m \<Longrightarrow> distinct (map fst m)"
  by (simp add: bt_ok_def strict_sorted_iff)

text \<open>A \<open>BTreeSet\<close> is a strictly sorted list.\<close>

fun bts_insert :: "'a::linorder \<Rightarrow> 'a list \<Rightarrow> 'a list" where
  "bts_insert x [] = [x]"
| "bts_insert x (y # ys) = (if x < y then x # y # ys else if x = y then y # ys else y # bts_insert x ys)"

definition bts_of :: "'a::linorder list \<Rightarrow> 'a list" where
  "bts_of xs = foldl (\<lambda>s x. bts_insert x s) [] xs"

lemma set_bts_insert [simp]: "set (bts_insert x s) = insert x (set s)"
  by (induction s) auto

lemma sorted_bts_insert: "sorted_wrt (<) s \<Longrightarrow> sorted_wrt (<) (bts_insert x s)"
  by (induction s) auto

lemma foldl_bts_insert:
  "set (foldl (\<lambda>s x. bts_insert x s) s xs) = set s \<union> set xs
   \<and> (sorted_wrt (<) s \<longrightarrow> sorted_wrt (<) (foldl (\<lambda>s x. bts_insert x s) s xs))"
  by (induction xs arbitrary: s) (auto simp: sorted_bts_insert)

lemma set_bts_of [simp]: "set (bts_of xs) = set xs"
  by (simp add: bts_of_def foldl_bts_insert)

lemma sorted_bts_of: "sorted_wrt (<) (bts_of xs)"
  by (simp add: bts_of_def foldl_bts_insert)

lemma bts_unique:
  fixes xs :: "'a::linorder list"
  shows "sorted_wrt (<) xs \<Longrightarrow> sorted_wrt (<) ys \<Longrightarrow> set xs = set ys \<Longrightarrow> xs = ys"
  by (metis sorted_distinct_set_unique strict_sorted_iff)

lemma bts_of_cong: "set xs = set ys \<Longrightarrow> bts_of xs = bts_of ys"
  by (rule bts_unique) (simp_all add: sorted_bts_of)

lemma bts_of_bts_of [simp]: "bts_of (bts_of xs) = bts_of xs"
  by (rule bts_of_cong) simp

end
