(* ===== verification/RustStrings.thy ===== *)
theory RustStrings
  imports SdqpPrelude
begin

text \<open>
  The string operations of Rust's standard library that the components use: \<open>trim\<close>,
  \<open>split\<close>, \<open>join\<close>, \<open>starts_with\<close>, \<open>replace\<close> of one character, ASCII case folding, decimal
  rendering of \<open>usize\<close> and its \<open>parse::<usize>()\<close>, with the facts about them that the
  components rest on: trimming is idempotent, splitting inverts joining, parsing inverts
  rendering.
\<close>

definition code_of :: "char \<Rightarrow> nat" where
  "code_of c = of_char c"

lemma code_of_inj [simp]: "code_of c = code_of d \<longleftrightarrow> c = d"
  by (simp add: code_of_def)

lemma code_of_bound: "code_of c < 256"
  by (simp add: code_of_def)

subsection \<open>White space and trimming\<close>

definition is_ws :: "char \<Rightarrow> bool" where
  "is_ws c = (code_of c \<in> {9, 10, 11, 12, 13, 32, 133, 160})"

definition trim_start :: "string \<Rightarrow> string" where
  "trim_start s = dropWhile is_ws s"

definition trim :: "string \<Rightarrow> string" where
  "trim s = rev (trim_start (rev (trim_start s)))"

lemma trim_start_empty_iff: "trim_start s = [] \<longleftrightarrow> (\<forall>c \<in> set s. is_ws c)"
  by (simp add: trim_start_def dropWhile_eq_Nil_conv)

lemma trim_empty_iff: "trim s = [] \<longleftrightarrow> (\<forall>c \<in> set s. is_ws c)"
proof -
  have "trim s = [] \<longleftrightarrow> (\<forall>c \<in> set (trim_start s). is_ws c)"
    by (simp add: trim_def trim_start_empty_iff)
  also have "\<dots> \<longleftrightarrow> trim_start s = []"
  proof (cases "trim_start s")
    case (Cons c r)
    then have "\<not> is_ws c"
      by (simp add: trim_start_def dropWhile_eq_Cons_conv)
    with Cons show ?thesis by simp
  qed simp
  finally show ?thesis by (simp add: trim_start_empty_iff)
qed

lemma trim_Nil [simp]: "trim [] = []"
  by (simp add: trim_empty_iff)

lemma trim_id:
  assumes "s = [] \<or> (\<not> is_ws (hd s) \<and> \<not> is_ws (last s))"
  shows "trim s = s"
proof (cases "s = []")
  case False
  with assms have "trim_start s = s" "trim_start (rev s) = rev s"
    by (auto simp: trim_start_def dropWhile_eq_self_iff hd_rev)
  then show ?thesis by (simp add: trim_def)
qed simp

lemma trim_ends:
  assumes "trim s \<noteq> []"
  shows "\<not> is_ws (hd (trim s)) \<and> \<not> is_ws (last (trim s))"
proof -
  let ?t = "trim_start s"
  have ne: "trim_start (rev ?t) \<noteq> []"
    using assms by (simp add: trim_def)
  then have tne: "?t \<noteq> []"
    by (metis dropWhile.simps(1) rev.simps(1) trim_start_def)
  have hd_t: "\<not> is_ws (hd ?t)"
    using tne by (simp add: trim_start_def hd_dropWhile)
  have lst: "\<not> is_ws (last (trim s))"
    using ne unfolding trim_def trim_start_def [of "rev ?t"]
    by (simp add: last_rev hd_dropWhile)
  have "last (trim_start (rev ?t)) = last (rev ?t)"
    using ne unfolding trim_start_def by (metis last_appendR takeWhile_dropWhile_id)
  then have "hd (trim s) = hd ?t"
    using ne tne by (simp add: trim_def hd_rev last_rev)
  with hd_t lst show ?thesis by simp
qed

lemma trim_idem [simp]: "trim (trim s) = trim s"
  by (rule trim_id) (use trim_ends in blast)

subsection \<open>ASCII classes and case\<close>

definition is_ascii_digit :: "char \<Rightarrow> bool" where
  "is_ascii_digit c = (48 \<le> code_of c \<and> code_of c \<le> 57)"

definition is_ascii_alphanumeric :: "char \<Rightarrow> bool" where
  "is_ascii_alphanumeric c =
     (is_ascii_digit c \<or> (65 \<le> code_of c \<and> code_of c \<le> 90)
      \<or> (97 \<le> code_of c \<and> code_of c \<le> 122))"

definition to_ascii_lowercase_char :: "char \<Rightarrow> char" where
  "to_ascii_lowercase_char c =
     (if 65 \<le> code_of c \<and> code_of c \<le> 90 then char_of (code_of c + 32) else c)"

definition to_ascii_lowercase :: "string \<Rightarrow> string" where
  "to_ascii_lowercase s = map to_ascii_lowercase_char s"

definition eq_ignore_ascii_case :: "string \<Rightarrow> string \<Rightarrow> bool" where
  "eq_ignore_ascii_case a b = (to_ascii_lowercase a = to_ascii_lowercase b)"

subsection \<open>Splitting and joining\<close>

text \<open>\<open>s.split(c)\<close> and \<open>parts.join(sep)\<close>; splitting never returns an empty list.\<close>

fun split_on :: "char \<Rightarrow> string \<Rightarrow> string list" where
  "split_on c [] = [[]]"
| "split_on c (x # xs) =
     (if x = c then [] # split_on c xs
      else (case split_on c xs of [] \<Rightarrow> [[x]] | p # ps \<Rightarrow> (x # p) # ps))"

fun join :: "string \<Rightarrow> string list \<Rightarrow> string" where
  "join sep [] = []"
| "join sep [x] = x"
| "join sep (x # y # ys) = x @ sep @ join sep (y # ys)"

lemma split_on_nonempty [simp]: "split_on c s \<noteq> []"
  by (induction s) (auto split: list.splits)

lemma split_on_no_sep: "c \<notin> set s \<Longrightarrow> split_on c s = [s]"
  by (induction s) auto

lemma split_on_append:
  "c \<notin> set p \<Longrightarrow> split_on c (p @ c # s) = p # split_on c s"
  by (induction p) auto

lemma split_on_parts: "p \<in> set (split_on c s) \<Longrightarrow> c \<notin> set p"
  by (induction s arbitrary: p) (auto split: list.splits if_splits)

lemma join_Cons: "join sep (x # xs) = (if xs = [] then x else x @ sep @ join sep xs)"
  by (cases xs) simp_all

lemma join_split_on: "join [c] (split_on c s) = s"
proof (induction s)
  case (Cons x s)
  obtain p ps where "split_on c s = p # ps" by (cases "split_on c s") simp_all
  with Cons show ?case by (cases ps) auto
qed simp

lemma split_on_join:
  "ps \<noteq> [] \<Longrightarrow> (\<And>p. p \<in> set ps \<Longrightarrow> c \<notin> set p) \<Longrightarrow> split_on c (join [c] ps) = ps"
proof (induction ps)
  case (Cons p ps)
  then show ?case
    by (cases "ps = []") (auto simp: join_Cons split_on_no_sep split_on_append)
qed simp

lemma join_inj:
  assumes eq: "join [c] ps = join [c] qs" and ps: "ps \<noteq> []" and qs: "qs \<noteq> []"
    and sep: "\<And>p. p \<in> set ps \<Longrightarrow> c \<notin> set p" "\<And>p. p \<in> set qs \<Longrightarrow> c \<notin> set p"
  shows "ps = qs"
proof -
  have "ps = split_on c (join [c] ps)"
    by (rule split_on_join [OF ps sep(1), symmetric])
  also have "\<dots> = split_on c (join [c] qs)"
    by (simp only: eq)
  also have "\<dots> = qs"
    by (rule split_on_join [OF qs sep(2)])
  finally show ?thesis .
qed

lemma append_sep_inj:
  "c \<notin> set a \<Longrightarrow> c \<notin> set b \<Longrightarrow> a @ c # r = b @ c # t \<Longrightarrow> a = b \<and> r = t"
proof (induction a arbitrary: b)
  case Nil
  then show ?case by (cases b) auto
next
  case (Cons x a)
  then show ?case by (cases b) auto
qed

text \<open>A longer separator also separates when its first character occurs in no part.\<close>

lemma join_sep_inj:
  assumes "join (c # s) ps = join (c # s) qs"
    and "\<forall>p \<in> set ps. p \<noteq> [] \<and> c \<notin> set p" and "\<forall>q \<in> set qs. q \<noteq> [] \<and> c \<notin> set q"
  shows "ps = qs"
  using assms
proof (induction ps arbitrary: qs)
  case Nil
  then show ?case by (cases qs) (auto simp: join_Cons split: if_splits)
next
  case (Cons p ps)
  from Cons.prems obtain q qs' where qs: "qs = q # qs'"
    by (cases qs) (auto simp: join_Cons split: if_splits)
  have eq: "(if ps = [] then p else p @ c # s @ join (c # s) ps)
      = (if qs' = [] then q else q @ c # s @ join (c # s) qs')"
    using Cons.prems(1) by (simp only: qs join_Cons append_Cons)
  have no: "c \<notin> set p" "c \<notin> set q" using Cons.prems(2,3) qs by auto
  show ?case
  proof (cases "ps = []")
    case True
    then have "qs' = []" using eq no by (auto split: if_splits)
    with True eq qs show ?thesis by simp
  next
    case False
    then have ne: "qs' \<noteq> []" using eq no by (auto split: if_splits)
    from append_sep_inj [OF no, of "s @ join (c # s) ps" "s @ join (c # s) qs'"] eq False ne
    have "p = q" and "join (c # s) ps = join (c # s) qs'" by auto
    moreover from this Cons.IH Cons.prems(2,3) qs have "ps = qs'" by simp
    ultimately show ?thesis using qs by simp
  qed
qed

definition starts_with :: "string \<Rightarrow> string \<Rightarrow> bool" where
  "starts_with s p = (take (length p) s = p)"

definition str_contains :: "string \<Rightarrow> string \<Rightarrow> bool" where
  "str_contains s p = list_ex (\<lambda>k. starts_with (drop k s) p) [0..<Suc (length s)]"

lemma starts_with_append [simp]: "starts_with (p @ s) p"
  by (simp add: starts_with_def)

lemma starts_with_iff: "starts_with s p \<longleftrightarrow> (\<exists>r. s = p @ r)"
  by (metis append_eq_conv_conj append_take_drop_id starts_with_def)

text \<open>\<open>s.replace(c, r)\<close> for a one-character pattern.\<close>

definition replace_char :: "char \<Rightarrow> string \<Rightarrow> string \<Rightarrow> string" where
  "replace_char c r s = concat (map (\<lambda>x. if x = c then r else [x]) s)"

text \<open>\<open>s.replace(p, r)\<close> for a non-empty pattern: the leftmost occurrence first, without overlap.\<close>

function str_replace :: "string \<Rightarrow> string \<Rightarrow> string \<Rightarrow> string" where
  "str_replace p r s =
     (case s of [] \<Rightarrow> []
      | c # cs \<Rightarrow> if p \<noteq> [] \<and> starts_with s p then r @ str_replace p r (drop (length p) s)
                  else c # str_replace p r cs)"
  by pat_completeness auto
termination
  by (relation "measure (\<lambda>(p, r, s). length s)") auto

declare str_replace.simps [simp del]

lemma str_replace_Nil [simp]: "str_replace p r [] = []"
  by (subst str_replace.simps) simp

lemma str_replace_head:
  "p \<noteq> [] \<Longrightarrow> str_replace p r (p @ s) = r @ str_replace p r s"
  by (cases p; subst str_replace.simps) (auto simp: starts_with_def)

lemma str_replace_no_start: "hd p \<notin> set s \<Longrightarrow> str_replace p r s = s"
proof (induction s)
  case (Cons c s)
  then have "\<not> (p \<noteq> [] \<and> starts_with (c # s) p)"
    by (cases p) (auto simp: starts_with_iff)
  with Cons show ?case by (subst str_replace.simps) auto
qed simp

text \<open>
  \<open>s.lines()\<close>: the parts between line feeds, a carriage return before a line feed removed, and
  no empty line after the last line feed.
\<close>

definition strip_cr :: "string \<Rightarrow> string" where
  "strip_cr s = (if s \<noteq> [] \<and> last s = CHR 0x0D then butlast s else s)"

definition str_lines :: "string \<Rightarrow> string list" where
  "str_lines s =
     (let ps = split_on (CHR 0x0A) s in
      map strip_cr (butlast ps) @ (if last ps = [] then [] else [last ps]))"

text \<open>
  Lengths and prefixes of a \<open>str\<close> are counted in bytes of its UTF-8 encoding; a slice that ends
  inside a character is \<open>None\<close> here, and a panic where the code indexes with the range.
\<close>

definition utf8_width :: "char \<Rightarrow> nat" where
  "utf8_width c = (if code_of c < 128 then 1 else 2)"

definition utf8_len :: "string \<Rightarrow> nat" where
  "utf8_len s = sum_list (map utf8_width s)"

fun utf8_prefix :: "nat \<Rightarrow> string \<Rightarrow> string option" where
  "utf8_prefix n [] = (if n = 0 then Some [] else None)"
| "utf8_prefix n (c # cs) =
     (if n = 0 then Some []
      else if n < utf8_width c then None
      else map_option (Cons c) (utf8_prefix (n - utf8_width c) cs))"

subsection \<open>Decimal numbers\<close>

definition digit_char :: "nat \<Rightarrow> char" where
  "digit_char d = char_of (48 + d)"

lemma code_of_digit_char: "d < 10 \<Longrightarrow> code_of (digit_char d) = 48 + d"
  by (simp add: code_of_def digit_char_def)

text \<open>\<open>Display\<close> of an unsigned integer: decimal digits without leading zeros.\<close>

fun show_nat :: "nat \<Rightarrow> string" where
  "show_nat n = (if n < 10 then [digit_char n] else show_nat (n div 10) @ [digit_char (n mod 10)])"

declare show_nat.simps [simp del]

lemma show_nat_digits: "c \<in> set (show_nat n) \<Longrightarrow> is_ascii_digit c"
proof (induction n arbitrary: c rule: show_nat.induct)
  case (1 n)
  show ?case
    using "1.IH" "1.prems"
    by (subst (asm) show_nat.simps)
      (auto simp: is_ascii_digit_def code_of_digit_char split: if_splits)
qed

lemma show_nat_nonempty [simp]: "show_nat n \<noteq> []"
  by (subst show_nat.simps) simp

definition digits_value :: "string \<Rightarrow> nat" where
  "digits_value s = foldl (\<lambda>a c. a * 10 + (code_of c - 48)) 0 s"

text \<open>
  \<open>s.parse()\<close> of an unsigned type with the greatest value \<open>m\<close>: an optional plus sign, at least
  one digit, and no overflow.  A \<open>usize\<close> has 64 bits.
\<close>

definition parse_unsigned :: "nat \<Rightarrow> string \<Rightarrow> nat option" where
  "parse_unsigned m s =
     (let d = (case s of c # r \<Rightarrow> (if c = CHR ''+'' then r else s) | [] \<Rightarrow> []) in
      if d = [] \<or> \<not> list_all is_ascii_digit d then None
      else if digits_value d \<le> m then Some (digits_value d) else None)"

definition usize_max :: nat where
  "usize_max = 2 ^ 64 - 1"

definition parse_usize :: "string \<Rightarrow> nat option" where
  "parse_usize s = parse_unsigned usize_max s"

lemma digits_value_snoc: "digits_value (s @ [c]) = digits_value s * 10 + (code_of c - 48)"
  by (simp add: digits_value_def)

lemma digits_value_show_nat [simp]: "digits_value (show_nat n) = n"
proof (induction n rule: show_nat.induct)
  case (1 n)
  show ?case
  proof (cases "n < 10")
    case True
    then show ?thesis
      by (subst show_nat.simps) (simp add: digits_value_def code_of_digit_char)
  next
    case False
    with 1 show ?thesis
      by (subst show_nat.simps) (simp add: digits_value_snoc code_of_digit_char)
  qed
qed

lemma show_nat_inj [simp]: "show_nat m = show_nat n \<longleftrightarrow> m = n"
  by (metis digits_value_show_nat)

lemma parse_unsigned_show_nat: "n \<le> m \<Longrightarrow> parse_unsigned m (show_nat n) = Some n"
proof -
  assume n: "n \<le> m"
  have all: "list_all is_ascii_digit (show_nat n)"
    by (simp add: list_all_iff show_nat_digits)
  obtain c r where cr: "show_nat n = c # r"
    by (cases "show_nat n") simp_all
  have "is_ascii_digit c"
    using all cr by simp
  then have "c \<noteq> CHR ''+''"
    by (auto simp: is_ascii_digit_def code_of_def)
  then have "(case show_nat n of c # r \<Rightarrow> (if c = CHR ''+'' then r else show_nat n) | [] \<Rightarrow> [])
      = show_nat n"
    by (simp add: cr)
  with all n show ?thesis
    unfolding parse_unsigned_def Let_def by (simp only: digits_value_show_nat) simp
qed

lemma parse_unsigned_bound: "parse_unsigned m s = Some n \<Longrightarrow> n \<le> m"
  by (auto simp: parse_unsigned_def Let_def split: if_splits)

lemma parse_show_nat: "n \<le> usize_max \<Longrightarrow> parse_usize (show_nat n) = Some n"
  by (simp add: parse_usize_def parse_unsigned_show_nat)

lemma parse_usize_bound: "parse_usize s = Some n \<Longrightarrow> n \<le> usize_max"
  by (auto simp: parse_usize_def dest: parse_unsigned_bound)

subsection \<open>Prefixes and the last separator\<close>

definition strip_prefix :: "string \<Rightarrow> string \<Rightarrow> string option" where
  "strip_prefix s p = (if starts_with s p then Some (drop (length p) s) else None)"

lemma strip_prefix_append [simp]: "strip_prefix (p @ s) p = Some s"
  by (simp add: strip_prefix_def)

text \<open>\<open>s.rsplit_once(c)\<close>: what is before and after the last \<open>c\<close>.\<close>

text \<open>\<open>split_once\<close>: around the first separator.\<close>

definition split_once :: "char \<Rightarrow> string \<Rightarrow> (string \<times> string) option" where
  "split_once c s =
     (if c \<in> set s then Some (takeWhile (\<lambda>x. x \<noteq> c) s, tl (dropWhile (\<lambda>x. x \<noteq> c) s)) else None)"

lemma split_once_append:
  assumes "c \<notin> set a"
  shows "split_once c (a @ c # b) = Some (a, b)"
proof -
  have "takeWhile (\<lambda>x. x \<noteq> c) (a @ c # b) = a @ takeWhile (\<lambda>x. x \<noteq> c) (c # b)"
    by (rule takeWhile_append2) (use assms in auto)
  moreover have "dropWhile (\<lambda>x. x \<noteq> c) (a @ c # b) = dropWhile (\<lambda>x. x \<noteq> c) (c # b)"
    by (rule dropWhile_append2) (use assms in auto)
  ultimately show ?thesis by (simp add: split_once_def)
qed

lemma split_once_Some:
  assumes "split_once c s = Some (a, b)"
  shows "s = a @ c # b \<and> c \<notin> set a"
proof -
  from assms have "c \<in> set s" by (simp add: split_once_def split: if_splits)
  then obtain ys zs where s: "s = ys @ c # zs" "c \<notin> set ys" by (auto dest: split_list_first)
  with split_once_append [of c ys zs] assms show ?thesis by simp
qed

definition rsplit_once :: "char \<Rightarrow> string \<Rightarrow> (string \<times> string) option" where
  "rsplit_once c s =
     (let after = rev (takeWhile (\<lambda>x. x \<noteq> c) (rev s)) in
      if c \<in> set s then Some (take (length s - Suc (length after)) s, after) else None)"

lemma rsplit_once_append:
  assumes "c \<notin> set b"
  shows "rsplit_once c (a @ c # b) = Some (a, b)"
proof -
  have "takeWhile (\<lambda>x. x \<noteq> c) (rev (a @ c # b)) = rev b"
    using assms by (subst rev_append, simp, subst takeWhile_append2) auto
  then show ?thesis by (simp add: rsplit_once_def)
qed

definition trim_end_matches :: "char \<Rightarrow> string \<Rightarrow> string" where
  "trim_end_matches c s = rev (dropWhile (\<lambda>x. x = c) (rev s))"

definition trim_start_matches :: "char \<Rightarrow> string \<Rightarrow> string" where
  "trim_start_matches c s = dropWhile (\<lambda>x. x = c) s"

subsection \<open>Containment\<close>

lemma str_contains_split:
  assumes "str_contains s p"
  shows "\<exists>a b. s = a @ p @ b"
proof -
  obtain k where "take (length p) (drop k s) = p"
    using assms by (auto simp: str_contains_def starts_with_def list_ex_iff)
  then have "s = take k s @ p @ drop (length p) (drop k s)"
    by (metis append_take_drop_id)
  then show ?thesis by blast
qed

lemma str_contains_infix: "str_contains (a @ p @ b) p"
  by (auto simp: str_contains_def list_ex_iff starts_with_def intro!: bexI [of _ "length a"])

lemma str_contains_append: "str_contains s (p @ q) \<Longrightarrow> str_contains s p"
  using str_contains_split [of s "p @ q"] str_contains_infix [of _ p] by auto

end
