(* ===== verification/CoreModel.thy ===== *)
theory CoreModel
  imports RustStrings
begin

text \<open>
  The shared vocabulary of the platform, crate \<open>sdqp-core\<close>: validated identifiers
  (\<open>ids.rs\<close>), field selectors, filter conditions, condition groups and bounded pagination
  (\<open>query.rs\<close>), the request context with its scope key (\<open>context.rs\<close>) and the error type
  (\<open>error.rs\<close>).  The main fact is about the scope key, which the query service compares to
  decide whether a stored task belongs to the caller: it separates scopes whose identifiers
  contain no slash.
\<close>

subsection \<open>Errors and identifiers\<close>

datatype core_error =
    EmptyIdentifier
  | EmptyFieldSelector
  | InvalidPageSize nat

datatype tenant_id = TenantId (tenant_str: string)
datatype project_id = ProjectId (project_str: string)
datatype user_id = UserId (user_str: string)

text \<open>The macro \<open>impl_id_type\<close> generates the same constructor check for each type.\<close>

definition id_new :: "(string \<Rightarrow> 'i) \<Rightarrow> string \<Rightarrow> core_error + 'i" where
  "id_new mk v = (if trim v = [] then Inl EmptyIdentifier else Inr (mk v))"

datatype field_selector = FieldSelector (fs_str: string)

definition field_selector_new :: "string \<Rightarrow> core_error + field_selector" where
  "field_selector_new v =
     (if trim v = [] then Inl EmptyFieldSelector else Inr (FieldSelector v))"

subsection \<open>Filters and pagination\<close>

datatype filter_operator = OpEq | OpNeq | OpGt | OpLt | OpLike | OpIn

text \<open>The derived \<open>Debug\<close> label of the operator.\<close>

fun operator_label :: "filter_operator \<Rightarrow> string" where
  "operator_label OpEq = ''Eq''"
| "operator_label OpNeq = ''Neq''"
| "operator_label OpGt = ''Gt''"
| "operator_label OpLt = ''Lt''"
| "operator_label OpLike = ''Like''"
| "operator_label OpIn = ''In''"

record filter_condition =
  fc_field :: string
  fc_operator :: filter_operator
  fc_value :: string

record filter_condition_group =
  fcg_conditions :: "filter_condition list"

definition condition_group_new :: "filter_condition list \<Rightarrow> filter_condition_group" where
  "condition_group_new cs = \<lparr>fcg_conditions = cs\<rparr>"

definition condition_group_is_empty :: "filter_condition_group \<Rightarrow> bool" where
  "condition_group_is_empty g = (fcg_conditions g = [])"

lemma condition_group_new_conditions [simp]:
  "fcg_conditions (condition_group_new cs) = cs"
  by (simp add: condition_group_new_def)

record pagination =
  page_size :: nat
  page_cursor :: "string option"

definition max_page_size :: nat where
  "max_page_size = 500"

definition pagination_bounded :: "nat \<Rightarrow> string option \<Rightarrow> core_error + pagination" where
  "pagination_bounded n c =
     (if \<not> (1 \<le> n \<and> n \<le> max_page_size) then Inl (InvalidPageSize max_page_size)
      else Inr \<lparr>page_size = n, page_cursor = c\<rparr>)"

lemma pagination_bounded_Inr:
  "pagination_bounded n c = Inr p \<Longrightarrow> 1 \<le> page_size p \<and> page_size p \<le> 500"
  by (auto simp: pagination_bounded_def max_page_size_def split: if_splits)

subsection \<open>The request context and its scope key\<close>

record request_context =
  rc_request_id :: string
  rc_tenant_id :: tenant_id
  rc_project_id :: "project_id option"
  rc_user_id :: user_id
  rc_issued_at :: time

definition request_context_new ::
  "string \<Rightarrow> time \<Rightarrow> tenant_id \<Rightarrow> user_id \<Rightarrow> request_context" where
  "request_context_new ulid now t u =
     \<lparr>rc_request_id = ulid, rc_tenant_id = t, rc_project_id = None,
      rc_user_id = u, rc_issued_at = now\<rparr>"

definition with_project :: "request_context \<Rightarrow> project_id \<Rightarrow> request_context" where
  "with_project c p = c\<lparr>rc_project_id := Some p\<rparr>"

definition project_scope_key :: "request_context \<Rightarrow> string" where
  "project_scope_key c =
     (case rc_project_id c of
        Some p \<Rightarrow> tenant_str (rc_tenant_id c) @ ''/'' @ project_str p @ ''/'' @ user_str (rc_user_id c)
      | None \<Rightarrow> tenant_str (rc_tenant_id c) @ ''/-/'' @ user_str (rc_user_id c))"

text \<open>The scope a context stands for, and the contexts whose key can be split again.\<close>

definition scope_of :: "request_context \<Rightarrow> tenant_id \<times> project_id option \<times> user_id" where
  "scope_of c = (rc_tenant_id c, rc_project_id c, rc_user_id c)"

definition scope_segments :: "request_context \<Rightarrow> string list" where
  "scope_segments c =
     [tenant_str (rc_tenant_id c),
      (case rc_project_id c of Some p \<Rightarrow> project_str p | None \<Rightarrow> ''-''),
      user_str (rc_user_id c)]"

definition slash_free :: "request_context \<Rightarrow> bool" where
  "slash_free c =
     ((\<forall>s \<in> set (scope_segments c). CHR ''/'' \<notin> set s)
      \<and> rc_project_id c \<noteq> Some (ProjectId ''-''))"

lemma project_scope_key_join: "project_scope_key c = join ''/'' (scope_segments c)"
  by (simp add: project_scope_key_def scope_segments_def split: option.splits)

lemma scope_segments_inj:
  assumes "scope_segments c = scope_segments d" and "slash_free c" and "slash_free d"
  shows "scope_of c = scope_of d"
proof -
  have "rc_project_id c = rc_project_id d"
    using assms
    by (cases "rc_project_id c"; cases "rc_project_id d")
      (auto simp: scope_segments_def slash_free_def project_id.expand intro: project_id.expand)
  moreover have "rc_tenant_id c = rc_tenant_id d" "rc_user_id c = rc_user_id d"
    using assms(1) by (simp_all add: scope_segments_def tenant_id.expand user_id.expand)
  ultimately show ?thesis by (simp add: scope_of_def)
qed

lemma scope_key_separates:
  assumes "project_scope_key c = project_scope_key d" and "slash_free c" and "slash_free d"
  shows "scope_of c = scope_of d"
proof -
  have "scope_segments c = scope_segments d"
  proof (rule join_inj [where c = "CHR ''/''"])
    show "join ''/'' (scope_segments c) = join ''/'' (scope_segments d)"
      using assms(1) by (simp add: project_scope_key_join)
  qed (use assms(2,3) in \<open>auto simp: slash_free_def scope_segments_def\<close>)
  then show ?thesis using assms(2,3) by (rule scope_segments_inj)
qed

subsection \<open>Properties\<close>

text \<open>
  Scope keys separate scopes.  Two request contexts with the same scope key have the same
  tenant, project and user, when no identifier contains a slash and no project is named \<open>-\<close>.
\<close>

lemma scope_keys_separate:
  assumes "project_scope_key c = project_scope_key d" and "slash_free c" and "slash_free d"
  shows "scope_of c = scope_of d"
  using assms by (rule scope_key_separates)

lemma scope_keys_separate_witness:
  "scope_of (request_context_new ''r1'' 0 (TenantId ''t'') (UserId ''u''))
     = scope_of (request_context_new ''r2'' 9 (TenantId ''t'') (UserId ''u''))"
  by (rule scope_keys_separate)
    (simp_all add: project_scope_key_def request_context_new_def slash_free_def scope_segments_def)

text \<open>
  Slashes break the scope key.  Identifiers are only trimmed when they are built, so two
  valid contexts of different tenants and projects share one scope key.
\<close>

lemma scope_key_collision:
  "\<exists>t1 t2 p1 p2 u.
     id_new TenantId ''a'' = Inr t1 \<and> id_new ProjectId ''b/c'' = Inr p1 \<and>
     id_new TenantId ''a/b'' = Inr t2 \<and> id_new ProjectId ''c'' = Inr p2 \<and>
     project_scope_key (with_project (request_context_new ''r'' 0 t1 u) p1)
       = project_scope_key (with_project (request_context_new ''r'' 0 t2 u) p2) \<and>
     scope_of (with_project (request_context_new ''r'' 0 t1 u) p1)
       \<noteq> scope_of (with_project (request_context_new ''r'' 0 t2 u) p2)"
  by (intro exI [of _ "TenantId ''a''"] exI [of _ "TenantId ''a/b''"] exI [of _ "ProjectId ''b/c''"]
      exI [of _ "ProjectId ''c''"] exI [of _ "UserId ''u''"]) code_simp

end
