(* ===== verification/Permission.thy ===== *)
theory Permission
  imports CoreModel
begin

text \<open>
  The permission engine's data model (\<open>model.rs\<close>), the merge of several grants into one
  (\<open>merge.rs\<close>) and its error type.  The merge takes the union of fields with deny-wins, the
  disjunction of conditions as condition groups, and the intersection of validity windows;
  the lemmas characterise each of the three on the grants that went in, and say precisely
  where a single active grant, which the code returns as it is, behaves differently.
\<close>

subsection \<open>Grants\<close>

record field_permission =
  fp_field_name :: string
  fp_denied :: bool

record org_binding =
  ob_department_id :: string
  ob_manager_id :: "string option"

datatype grant_status =
    GsPending | GsActive | GsSuspended | GsExpired | GsRevoked | GsDenied

record permission_grant =
  g_grant_id :: string
  g_applicant_user_id :: string
  g_project_id :: string
  g_data_source_id :: string
  g_fields :: "field_permission list"
  g_conditions :: "filter_condition list"
  g_condition_groups :: "filter_condition_group list"
  g_valid_from :: time
  g_valid_until :: time
  g_org_binding :: org_binding
  g_status :: grant_status

record grant_lifecycle =
  gl_valid_from :: time
  gl_valid_until :: time
  gl_org_binding :: org_binding
  gl_status :: grant_status

text \<open>\<open>PermissionGrant::active\<close> reads the clock twice.\<close>

definition grant_active ::
  "string \<Rightarrow> time \<Rightarrow> time \<Rightarrow> string \<Rightarrow> string \<Rightarrow> string \<Rightarrow> field_permission list
     \<Rightarrow> filter_condition list \<Rightarrow> permission_grant" where
  "grant_active ulid now1 now2 user project source fs cs =
     \<lparr>g_grant_id = ulid, g_applicant_user_id = user, g_project_id = project,
      g_data_source_id = source, g_fields = fs, g_conditions = cs,
      g_condition_groups = [], g_valid_from = now1, g_valid_until = now2 + hours_ns 8,
      g_org_binding = \<lparr>ob_department_id = ''dept-default'', ob_manager_id = None\<rparr>,
      g_status = GsActive\<rparr>"

definition grant_new ::
  "string \<Rightarrow> string \<Rightarrow> string \<Rightarrow> string \<Rightarrow> field_permission list
     \<Rightarrow> filter_condition list \<Rightarrow> grant_lifecycle \<Rightarrow> permission_grant" where
  "grant_new ulid user project source fs cs lc =
     \<lparr>g_grant_id = ulid, g_applicant_user_id = user, g_project_id = project,
      g_data_source_id = source, g_fields = fs, g_conditions = cs,
      g_condition_groups = [], g_valid_from = gl_valid_from lc,
      g_valid_until = gl_valid_until lc, g_org_binding = gl_org_binding lc,
      g_status = gl_status lc\<rparr>"

definition condition_count :: "permission_grant \<Rightarrow> nat" where
  "condition_count g =
     length (g_conditions g)
       + sum_list (map (\<lambda>grp. length (fcg_conditions grp)) (g_condition_groups g))"

subsection \<open>Merging: condition groups and their signatures\<close>

definition expanded_condition_groups :: "permission_grant \<Rightarrow> filter_condition_group list" where
  "expanded_condition_groups g =
     (if g_condition_groups g = [] then [condition_group_new (g_conditions g)]
      else map (\<lambda>grp. condition_group_new (g_conditions g @ fcg_conditions grp))
             (g_condition_groups g))"

definition condition_signature :: "filter_condition \<Rightarrow> string" where
  "condition_signature c =
     fc_field c @ ''::'' @ operator_label (fc_operator c) @ ''::'' @ fc_value c"

definition group_signature :: "filter_condition_group \<Rightarrow> string" where
  "group_signature grp = join ''&&'' (map condition_signature (fcg_conditions grp))"

subsection \<open>Merging: the loop over the active grants\<close>

record merge_state =
  ms_field_map :: "(string \<times> bool) list"
  ms_groups :: "filter_condition_group list"
  ms_seen :: "string set"

definition merge_field :: "merge_state \<Rightarrow> field_permission \<Rightarrow> merge_state" where
  "merge_field st f =
     st\<lparr>ms_field_map :=
          bt_upsert (fp_field_name f)
            (\<lambda>old. (case old of None \<Rightarrow> False | Some d \<Rightarrow> d) \<or> fp_denied f) (ms_field_map st)\<rparr>"

definition merge_group :: "merge_state \<Rightarrow> filter_condition_group \<Rightarrow> merge_state" where
  "merge_group st grp =
     (let sg = group_signature grp in
      if sg \<in> ms_seen st then st
      else st\<lparr>ms_seen := insert sg (ms_seen st), ms_groups := ms_groups st @ [grp]\<rparr>)"

definition merge_grant_into :: "merge_state \<Rightarrow> permission_grant \<Rightarrow> merge_state" where
  "merge_grant_into st g =
     foldl merge_group (foldl merge_field st (g_fields g)) (expanded_condition_groups g)"

definition merge_state_init :: merge_state where
  "merge_state_init = \<lparr>ms_field_map = [], ms_groups = [], ms_seen = {}\<rparr>"

definition active_grants :: "permission_grant list \<Rightarrow> permission_grant list" where
  "active_grants gs = filter (\<lambda>g. g_status g = GsActive) gs"

definition merge_grants :: "permission_grant list \<Rightarrow> permission_grant option" where
  "merge_grants gs =
     (let active = active_grants gs in
      case active of
        [] \<Rightarrow> None
      | first # rest \<Rightarrow>
          if length active = 1 then Some first
          else
            let valid_from = Max (set (map g_valid_from active));
                valid_until = Min (set (map g_valid_until active)) in
            if valid_from > valid_until then None
            else
              let st = foldl merge_grant_into merge_state_init active in
              Some (first\<lparr>g_fields := map (\<lambda>(n, d). \<lparr>fp_field_name = n, fp_denied = d\<rparr>)
                                        (ms_field_map st),
                          g_conditions := [],
                          g_condition_groups := ms_groups st,
                          g_valid_from := valid_from,
                          g_valid_until := valid_until\<rparr>))"

subsection \<open>What a grant authorises\<close>

text \<open>
  The test the query guard makes for one field, the denial it is weighed against, and the
  validity window.
\<close>

definition field_authorized :: "permission_grant \<Rightarrow> string \<Rightarrow> bool" where
  "field_authorized g n = (\<exists>f \<in> set (g_fields g). fp_field_name f = n \<and> \<not> fp_denied f)"

definition field_denied :: "permission_grant \<Rightarrow> string \<Rightarrow> bool" where
  "field_denied g n = (\<exists>f \<in> set (g_fields g). fp_field_name f = n \<and> fp_denied f)"

definition in_window :: "permission_grant \<Rightarrow> time \<Rightarrow> bool" where
  "in_window g t = (g_valid_from g \<le> t \<and> t \<le> g_valid_until g)"

subsection \<open>The field map after the loop\<close>

definition upd_field :: "(string \<times> bool) list \<Rightarrow> field_permission \<Rightarrow> (string \<times> bool) list" where
  "upd_field m f =
     bt_upsert (fp_field_name f)
       (\<lambda>old. (case old of None \<Rightarrow> False | Some d \<Rightarrow> d) \<or> fp_denied f) m"

lemma merge_field_components [simp]:
  "ms_field_map (merge_field st f) = upd_field (ms_field_map st) f"
  "ms_groups (merge_field st f) = ms_groups st"
  "ms_seen (merge_field st f) = ms_seen st"
  by (simp_all add: merge_field_def upd_field_def)

lemma foldl_merge_field_components [simp]:
  "ms_field_map (foldl merge_field st fs) = foldl upd_field (ms_field_map st) fs"
  "ms_groups (foldl merge_field st fs) = ms_groups st"
  "ms_seen (foldl merge_field st fs) = ms_seen st"
  by (induction fs arbitrary: st) simp_all

lemma merge_group_field_map [simp]:
  "ms_field_map (merge_group st grp) = ms_field_map st"
  by (simp add: merge_group_def Let_def)

lemma foldl_merge_group_field_map [simp]:
  "ms_field_map (foldl merge_group st grps) = ms_field_map st"
  by (induction grps arbitrary: st) simp_all

lemma merged_field_map:
  "ms_field_map (foldl merge_grant_into st gs)
     = foldl upd_field (ms_field_map st) (concat (map g_fields gs))"
  by (induction gs arbitrary: st) (simp_all add: merge_grant_into_def)

lemma bt_ok_foldl_upd_field: "bt_ok m \<Longrightarrow> bt_ok (foldl upd_field m fs)"
  by (induction fs arbitrary: m) (simp_all add: upd_field_def bt_ok_upsert)

lemma map_of_foldl_upd_field:
  assumes "bt_ok m"
  shows "map_of (foldl upd_field m fs) n =
    (if map_of m n = None \<and> (\<forall>f \<in> set fs. fp_field_name f \<noteq> n) then None
     else Some (map_of m n = Some True \<or> (\<exists>f \<in> set fs. fp_field_name f = n \<and> fp_denied f)))"
  using assms
proof (induction fs arbitrary: m)
  case Nil
  then show ?case by (cases "map_of m n") auto
next
  case (Cons f fs)
  have ok: "bt_ok (upd_field m f)"
    using Cons.prems by (simp add: upd_field_def bt_ok_upsert)
  have upd: "map_of (upd_field m f) =
      (map_of m)(fp_field_name f \<mapsto> (map_of m (fp_field_name f) = Some True \<or> fp_denied f))"
    using Cons.prems
    by (auto simp: upd_field_def map_of_bt_upsert fun_eq_iff split: option.splits)
  show ?case
    by (simp add: Cons.IH [OF ok] upd)
qed

lemma mem_merged_fields:
  "(n, d) \<in> set (foldl upd_field [] fs) \<longleftrightarrow>
     (\<exists>f \<in> set fs. fp_field_name f = n) \<and> d = (\<exists>f \<in> set fs. fp_field_name f = n \<and> fp_denied f)"
proof -
  have ok: "bt_ok (foldl upd_field [] fs)"
    by (rule bt_ok_foldl_upd_field) simp
  have "(n, d) \<in> set (foldl upd_field [] fs) \<longleftrightarrow> map_of (foldl upd_field [] fs) n = Some d"
    using bt_ok_distinct [OF ok] by (simp add: map_of_eq_Some_iff)
  then show ?thesis
    by (auto simp: map_of_foldl_upd_field)
qed

subsection \<open>The condition groups after the loop\<close>

text \<open>The groups of the merged grant, kept once per signature, in order of appearance.\<close>

definition groups_inv :: "merge_state \<Rightarrow> bool" where
  "groups_inv st =
     (ms_seen st = group_signature ` set (ms_groups st)
      \<and> distinct (map group_signature (ms_groups st)))"

lemma groups_inv_init [simp]: "groups_inv merge_state_init"
  by (simp add: groups_inv_def merge_state_init_def)

lemma merge_field_groups_inv [simp]: "groups_inv (foldl merge_field st fs) = groups_inv st"
  by (simp add: groups_inv_def)

lemma merge_group_groups_inv: "groups_inv st \<Longrightarrow> groups_inv (merge_group st grp)"
  by (auto simp: groups_inv_def merge_group_def Let_def)

lemma foldl_merge_group_groups_inv: "groups_inv st \<Longrightarrow> groups_inv (foldl merge_group st grps)"
  by (induction grps arbitrary: st) (simp_all add: merge_group_groups_inv)

lemma foldl_merge_group_groups:
  assumes "groups_inv st"
  shows "set (ms_groups (foldl merge_group st grps)) \<subseteq> set (ms_groups st) \<union> set grps
    \<and> group_signature ` set (ms_groups (foldl merge_group st grps))
        = group_signature ` (set (ms_groups st) \<union> set grps)"
  using assms
proof (induction grps arbitrary: st)
  case (Cons grp grps)
  have inv: "groups_inv (merge_group st grp)"
    using Cons.prems by (rule merge_group_groups_inv)
  have sub: "set (ms_groups (merge_group st grp)) \<subseteq> insert grp (set (ms_groups st))"
    by (auto simp: merge_group_def Let_def)
  have sig: "group_signature ` set (ms_groups (merge_group st grp))
      = insert (group_signature grp) (group_signature ` set (ms_groups st))"
    using Cons.prems by (auto simp: merge_group_def Let_def groups_inv_def)
  from Cons.IH [OF inv] sub sig show ?case
    by (auto simp: image_Un)
qed simp

definition all_groups :: "permission_grant list \<Rightarrow> filter_condition_group list" where
  "all_groups gs = concat (map expanded_condition_groups gs)"

lemma all_groups_simps [simp]:
  "all_groups [] = []"
  "all_groups (g # gs) = expanded_condition_groups g @ all_groups gs"
  by (simp_all add: all_groups_def)

lemma merged_groups:
  assumes "groups_inv st"
  shows "groups_inv (foldl merge_grant_into st gs)
    \<and> set (ms_groups (foldl merge_grant_into st gs)) \<subseteq> set (ms_groups st) \<union> set (all_groups gs)
    \<and> group_signature ` set (ms_groups (foldl merge_grant_into st gs))
        = group_signature ` (set (ms_groups st) \<union> set (all_groups gs))"
  using assms
proof (induction gs arbitrary: st)
  case (Cons g gs)
  have inv0: "groups_inv (foldl merge_field st (g_fields g))"
    using Cons.prems by simp
  have inv: "groups_inv (merge_grant_into st g)"
    unfolding merge_grant_into_def using inv0 by (rule foldl_merge_group_groups_inv)
  have step: "set (ms_groups (merge_grant_into st g))
        \<subseteq> set (ms_groups st) \<union> set (expanded_condition_groups g)"
      "group_signature ` set (ms_groups (merge_grant_into st g))
        = group_signature ` (set (ms_groups st) \<union> set (expanded_condition_groups g))"
    using foldl_merge_group_groups [OF inv0] by (auto simp: merge_grant_into_def)
  from Cons.IH [OF inv] step show ?case
    by (auto simp: image_Un)
qed simp

lemma expanded_condition_groups_nonempty [simp]: "expanded_condition_groups g \<noteq> []"
  by (simp add: expanded_condition_groups_def)

subsection \<open>The merged grant\<close>

lemma mem_active_grants [simp]:
  "g \<in> set (active_grants gs) \<longleftrightarrow> g \<in> set gs \<and> g_status g = GsActive"
  by (auto simp: active_grants_def)

lemma merge_grants_none: "active_grants gs = [] \<Longrightarrow> merge_grants gs = None"
  by (simp add: merge_grants_def)

lemma merge_grants_single: "active_grants gs = [g] \<Longrightarrow> merge_grants gs = Some g"
  by (simp add: merge_grants_def)

text \<open>The window bounds and the final loop state, as functions of the active grants.\<close>

definition merged_from :: "permission_grant list \<Rightarrow> time" where
  "merged_from as = Max (g_valid_from ` set as)"

definition merged_until :: "permission_grant list \<Rightarrow> time" where
  "merged_until as = Min (g_valid_until ` set as)"

definition merged_state :: "permission_grant list \<Rightarrow> merge_state" where
  "merged_state as = foldl merge_grant_into merge_state_init as"

lemma merge_grants_many:
  assumes "active_grants gs = g1 # g2 # rest"
  shows "merge_grants gs =
    (if merged_from (active_grants gs) > merged_until (active_grants gs) then None
     else Some (g1\<lparr>g_fields := map (\<lambda>(n, d). \<lparr>fp_field_name = n, fp_denied = d\<rparr>)
                                  (ms_field_map (merged_state (active_grants gs))),
                   g_conditions := [],
                   g_condition_groups := ms_groups (merged_state (active_grants gs)),
                   g_valid_from := merged_from (active_grants gs),
                   g_valid_until := merged_until (active_grants gs)\<rparr>))"
  using assms
  by (simp add: merge_grants_def merged_from_def merged_until_def merged_state_def Let_def)

lemma merge_grants_manyE:
  assumes "active_grants gs = g1 # g2 # rest" and "merge_grants gs = Some m"
  shows "merged_from (active_grants gs) \<le> merged_until (active_grants gs)
    \<and> m = g1\<lparr>g_fields := map (\<lambda>(n, d). \<lparr>fp_field_name = n, fp_denied = d\<rparr>)
                          (ms_field_map (merged_state (active_grants gs))),
             g_conditions := [],
             g_condition_groups := ms_groups (merged_state (active_grants gs)),
             g_valid_from := merged_from (active_grants gs),
             g_valid_until := merged_until (active_grants gs)\<rparr>"
  using assms(2) unfolding merge_grants_many [OF assms(1)]
  by (simp split: if_splits)

text \<open>Everything the merged grant says, for two or more active grants.\<close>

lemma merge_grants_manyD:
  assumes act: "active_grants gs = g1 # g2 # rest" and m: "merge_grants gs = Some m"
  shows merge_many_fields:
      "(f \<in> set (g_fields m)) =
         ((\<exists>f' \<in> set (concat (map g_fields (active_grants gs))). fp_field_name f' = fp_field_name f)
          \<and> fp_denied f = (\<exists>g \<in> set (active_grants gs). field_denied g (fp_field_name f)))"
    and merge_many_conditions: "g_conditions m = []"
    and merge_many_groups_sub: "set (g_condition_groups m) \<subseteq> set (all_groups (active_grants gs))"
    and merge_many_groups_sig:
      "group_signature ` set (g_condition_groups m)
         = group_signature ` set (all_groups (active_grants gs))"
    and merge_many_groups_distinct: "distinct (map group_signature (g_condition_groups m))"
    and merge_many_from: "g_valid_from m = Max (g_valid_from ` set (active_grants gs))"
    and merge_many_until: "g_valid_until m = Min (g_valid_until ` set (active_grants gs))"
    and merge_many_window: "g_valid_from m \<le> g_valid_until m"
    and merge_many_status: "g_status m = GsActive"
    and merge_many_ids: "g_grant_id m = g_grant_id g1" "g_project_id m = g_project_id g1"
      "g_applicant_user_id m = g_applicant_user_id g1" "g_data_source_id m = g_data_source_id g1"
proof -
  let ?st = "merged_state (active_grants gs)"
  have g1: "g_status g1 = GsActive"
    using mem_active_grants [of g1 gs] act by simp
  note mg = merge_grants_manyE [OF act m]
  have fm: "ms_field_map ?st = foldl upd_field [] (concat (map g_fields (active_grants gs)))"
    by (simp add: merged_state_def merged_field_map merge_state_init_def)
  have "f \<in> set (g_fields m) \<longleftrightarrow> (fp_field_name f, fp_denied f) \<in> set (ms_field_map ?st)"
    using mg by force
  then show "(f \<in> set (g_fields m)) =
         ((\<exists>f' \<in> set (concat (map g_fields (active_grants gs))). fp_field_name f' = fp_field_name f)
          \<and> fp_denied f = (\<exists>g \<in> set (active_grants gs). field_denied g (fp_field_name f)))"
    unfolding fm mem_merged_fields by (auto simp: field_denied_def)
  have grp: "groups_inv ?st \<and> set (ms_groups ?st) \<subseteq> set (all_groups (active_grants gs))
    \<and> group_signature ` set (ms_groups ?st) = group_signature ` set (all_groups (active_grants gs))"
    using merged_groups [OF groups_inv_init, of "active_grants gs"]
    by (simp add: merged_state_def merge_state_init_def)
  then show "set (g_condition_groups m) \<subseteq> set (all_groups (active_grants gs))"
    and "group_signature ` set (g_condition_groups m)
         = group_signature ` set (all_groups (active_grants gs))"
    and "distinct (map group_signature (g_condition_groups m))"
    using mg by (simp_all add: groups_inv_def)
  show "g_conditions m = []"
    and "g_valid_from m = Max (g_valid_from ` set (active_grants gs))"
    and "g_valid_until m = Min (g_valid_until ` set (active_grants gs))"
    and "g_valid_from m \<le> g_valid_until m"
    and "g_status m = GsActive"
    and "g_grant_id m = g_grant_id g1" and "g_project_id m = g_project_id g1"
    and "g_applicant_user_id m = g_applicant_user_id g1"
    and "g_data_source_id m = g_data_source_id g1"
    using mg g1 by (simp_all add: merged_from_def merged_until_def)
qed

text \<open>The three shapes of the input: no active grant, one, or several.\<close>

lemma active_grants_cases:
  obtains (none) "active_grants gs = []"
    | (single) g where "active_grants gs = [g]"
    | (many) g1 g2 rest where "active_grants gs = g1 # g2 # rest"
  by (cases "active_grants gs" rule: list.exhaust; metis list.exhaust)

lemma two_active_grants:
  assumes "2 \<le> length (active_grants gs)"
  obtains g1 g2 rest where "active_grants gs = g1 # g2 # rest"
  using assms by (cases rule: active_grants_cases [of gs]) auto

lemma merge_many_authorized:
  assumes "2 \<le> length (active_grants gs)" and "merge_grants gs = Some m"
  shows "field_authorized m n \<longleftrightarrow>
    (\<exists>g \<in> set (active_grants gs). field_authorized g n)
    \<and> (\<forall>g \<in> set (active_grants gs). \<not> field_denied g n)"
proof -
  obtain g1 g2 rest where act: "active_grants gs = g1 # g2 # rest"
    using assms(1) by (rule two_active_grants)
  have "field_authorized m n \<longleftrightarrow> \<lparr>fp_field_name = n, fp_denied = False\<rparr> \<in> set (g_fields m)"
    unfolding field_authorized_def
    by (metis (full_types) field_permission.surjective field_permission.select_convs old.unit.exhaust)
  also have "\<dots> \<longleftrightarrow>
      (\<exists>f' \<in> set (concat (map g_fields (active_grants gs))). fp_field_name f' = n)
      \<and> \<not> (\<exists>g \<in> set (active_grants gs). field_denied g n)"
    using merge_many_fields [OF act assms(2), of "\<lparr>fp_field_name = n, fp_denied = False\<rparr>"] by simp
  also have "\<dots> \<longleftrightarrow> (\<exists>g \<in> set (active_grants gs). field_authorized g n)
      \<and> (\<forall>g \<in> set (active_grants gs). \<not> field_denied g n)"
    by (fastforce simp: field_authorized_def field_denied_def)
  finally show ?thesis .
qed

lemma merge_authorized_sound:
  assumes "merge_grants gs = Some m" and "field_authorized m n"
  shows "\<exists>g \<in> set (active_grants gs). field_authorized g n"
proof (cases rule: active_grants_cases [of gs])
  case none
  with assms(1) show ?thesis by (simp add: merge_grants_none)
next
  case (single g)
  with assms have "m = g" by (simp add: merge_grants_single)
  with single assms(2) show ?thesis by simp
next
  case (many g1 g2 rest)
  then have "2 \<le> length (active_grants gs)" by simp
  from merge_many_authorized [OF this assms(1)] assms(2) show ?thesis by blast
qed

lemma merge_in_window:
  assumes "merge_grants gs = Some m"
  shows "in_window m t \<longleftrightarrow> (\<forall>g \<in> set (active_grants gs). in_window g t)"
proof (cases rule: active_grants_cases [of gs])
  case none
  with assms show ?thesis by (simp add: merge_grants_none)
next
  case (single g)
  with assms have "m = g" by (simp add: merge_grants_single)
  with single show ?thesis by simp
next
  case (many g1 g2 rest)
  let ?A = "set (active_grants gs)"
  have ne: "g_valid_from ` ?A \<noteq> {}" "g_valid_until ` ?A \<noteq> {}"
    using many by (auto simp del: mem_active_grants)
  have "in_window m t \<longleftrightarrow> Max (g_valid_from ` ?A) \<le> t \<and> t \<le> Min (g_valid_until ` ?A)"
    using merge_many_from [OF many assms] merge_many_until [OF many assms]
    by (simp add: in_window_def del: mem_active_grants)
  also have "\<dots> \<longleftrightarrow> (\<forall>g \<in> ?A. in_window g t)"
    using ne by (auto simp: in_window_def simp del: mem_active_grants)
  finally show ?thesis .
qed

lemma merge_many_none_iff:
  assumes "2 \<le> length (active_grants gs)"
  shows "merge_grants gs = None \<longleftrightarrow> \<not> (\<exists>t. \<forall>g \<in> set (active_grants gs). in_window g t)"
proof -
  obtain g1 g2 rest where act: "active_grants gs = g1 # g2 # rest"
    using assms by (rule two_active_grants)
  let ?A = "set (active_grants gs)"
  have ne: "?A \<noteq> {}" and fin: "finite ?A"
    using act by (auto simp del: mem_active_grants)
  have "merge_grants gs = None \<longleftrightarrow> Min (g_valid_until ` ?A) < Max (g_valid_from ` ?A)"
    unfolding merge_grants_many [OF act] by (simp add: merged_from_def merged_until_def not_le)
  also have "\<dots> \<longleftrightarrow> \<not> (\<exists>t. \<forall>g \<in> ?A. in_window g t)"
  proof -
    have "(\<forall>g \<in> ?A. in_window g t) \<longleftrightarrow>
        Max (g_valid_from ` ?A) \<le> t \<and> t \<le> Min (g_valid_until ` ?A)" for t
      using ne fin by (auto simp: in_window_def simp del: mem_active_grants)
    then show ?thesis by (meson dual_order.trans linorder_not_less order_refl)
  qed
  finally show ?thesis .
qed

subsection \<open>Properties\<close>

text \<open>Two active grants of one user, and the same two with windows that do not meet.\<close>

definition sample_grant :: "string \<Rightarrow> time \<Rightarrow> field_permission list \<Rightarrow> filter_condition list \<Rightarrow> permission_grant" where
  "sample_grant ulid at fs cs =
     grant_active ulid at at ''user-a'' ''project-alpha'' ''datasource-rest'' fs cs"

definition allow_field :: "string \<Rightarrow> field_permission" where
  "allow_field n = \<lparr>fp_field_name = n, fp_denied = False\<rparr>"

definition deny_field :: "string \<Rightarrow> field_permission" where
  "deny_field n = \<lparr>fp_field_name = n, fp_denied = True\<rparr>"

definition sample_grants :: "permission_grant list" where
  "sample_grants =
     [sample_grant ''g1'' 0 [allow_field ''name'', allow_field ''salary'']
        [\<lparr>fc_field = ''region'', fc_operator = OpEq, fc_value = ''eu''\<rparr>],
      sample_grant ''g2'' 5 [deny_field ''salary'']
        [\<lparr>fc_field = ''region'', fc_operator = OpEq, fc_value = ''us''\<rparr>]]"

lemmas sample_simps = sample_grants_def sample_grant_def allow_field_def deny_field_def grant_active_def

lemma sample_active: "active_grants sample_grants = sample_grants"
  by (simp add: active_grants_def sample_simps)

lemma sample_merges: "\<exists>m. merge_grants sample_grants = Some m"
  by (simp add: merge_grants_def sample_active)
    (simp add: sample_simps hours_ns_def Let_def)

text \<open>
  C2. Deny wins.  When two or more active grants merge, the merged grant authorises a field
  exactly if some active grant authorises it and no active grant denies it, wherever the
  denial stands in the list.
\<close>

theorem merge_deny_wins:
  assumes "2 \<le> length (active_grants gs)" and "merge_grants gs = Some m"
  shows "field_authorized m n \<longleftrightarrow>
    (\<exists>g \<in> set (active_grants gs). field_authorized g n)
    \<and> (\<forall>g \<in> set (active_grants gs). \<not> field_denied g n)"
  using assms by (rule merge_many_authorized)

lemma merge_deny_wins_witness:
  "\<exists>m. merge_grants sample_grants = Some m \<and> field_authorized m ''name''
     \<and> \<not> field_authorized m ''salary''"
proof -
  obtain m where m: "merge_grants sample_grants = Some m" using sample_merges by blast
  have "2 \<le> length (active_grants sample_grants)" by (simp add: sample_active) (simp add: sample_simps)
  from merge_deny_wins [OF this m, of "''name''"] merge_deny_wins [OF this m, of "''salary''"] m
  show ?thesis
    by (auto simp: sample_active) (auto simp: sample_simps field_authorized_def field_denied_def)
qed

text \<open>
  Windows intersect.  The merged grant is valid at an instant exactly if every active
  grant is; and the merge of two or more active grants fails exactly if no instant lies in
  all their windows.
\<close>

lemma merge_window_intersection:
  "(\<forall>m. merge_grants gs = Some m \<longrightarrow>
      (\<forall>t. in_window m t \<longleftrightarrow> (\<forall>g \<in> set (active_grants gs). in_window g t)))
   \<and> (2 \<le> length (active_grants gs) \<longrightarrow>
      (merge_grants gs = None \<longleftrightarrow> \<not> (\<exists>t. \<forall>g \<in> set (active_grants gs). in_window g t)))"
  using merge_in_window merge_many_none_iff by blast

lemma merge_window_intersection_witness:
  "\<exists>m. merge_grants sample_grants = Some m \<and> \<not> in_window m 4 \<and> in_window m 5"
proof -
  obtain m where m: "merge_grants sample_grants = Some m" using sample_merges by blast
  have window: "in_window m t \<longleftrightarrow> (\<forall>g \<in> set (active_grants sample_grants). in_window g t)" for t
    using merge_window_intersection [of sample_grants] m by blast
  have "\<not> in_window m 4 \<and> in_window m 5"
    unfolding window sample_active by (simp add: sample_simps in_window_def hours_ns_def)
  with m show ?thesis by blast
qed

text \<open>
  A lone active grant is not normalised.  \<open>merge_grants\<close> returns a single active grant as
  it is, so a grant that lists a field both as allowed and as denied authorises the field; the
  same grant registered twice merges to one that denies it.
\<close>

lemma merge_single_grant_skips_deny_wins:
  "\<exists>g m. g_status g = GsActive \<and> field_denied g ''salary'' \<and>
     merge_grants [g] = Some g \<and> field_authorized g ''salary'' \<and>
     merge_grants [g, g] = Some m \<and> \<not> field_authorized m ''salary''"
proof -
  define g where "g = sample_grant ''g1'' 0 [allow_field ''salary'', deny_field ''salary''] []"
  have act: "active_grants [g] = [g]" "active_grants [g, g] = [g, g]" and st: "g_status g = GsActive"
    by (simp_all add: g_def active_grants_def sample_simps)
  have "in_window g 0" by (simp add: g_def sample_simps in_window_def hours_ns_def)
  then obtain m where m: "merge_grants [g, g] = Some m"
    using merge_many_none_iff [of "[g, g]"] act by fastforce
  have denied: "field_denied g ''salary''" and auth: "field_authorized g ''salary''"
    by (simp_all add: g_def sample_simps field_denied_def field_authorized_def)
  have "\<not> field_authorized m ''salary''"
    using merge_many_authorized [OF _ m, of "''salary''"] act denied by simp
  with st denied auth m merge_grants_single [OF act(1)] show ?thesis by blast
qed

end
