(* ===== verification/LikeMatcher.thy ===== *)
theory LikeMatcher
  imports CoreModel
begin

text \<open>
  The \<open>LIKE\<close> matcher of the residual filter, \<open>like_matches\<close> in \<open>adapters.rs\<close>: a dynamic
  programme over a table of prefixes.  The specification is the language of a pattern, in
  which \<open>%\<close> stands for any string and \<open>_\<close> for any one character; the table computes
  membership in it for every prefix of the value.
\<close>

subsection \<open>The table\<close>

text \<open>
  The table \<open>dp\<close> is computed row by row, one row per pattern character; within a row each
  cell reads the cell above (\<open>up\<close>), the one above to the left (\<open>diag\<close>) and the one to the
  left.
\<close>

fun like_cells :: "char \<Rightarrow> bool \<Rightarrow> bool list \<Rightarrow> bool \<Rightarrow> string \<Rightarrow> bool list" where
  "like_cells p diag (up # ups) left (v # vs) =
     (let cell = (if p = CHR ''%'' then up \<or> left
                  else if p = CHR ''_'' then diag
                  else diag \<and> p = v) in
      cell # like_cells p up ups cell vs)"
| "like_cells p diag ups left vs = []"

definition like_row :: "char \<Rightarrow> bool list \<Rightarrow> string \<Rightarrow> bool list" where
  "like_row p prev value =
     (case prev of [] \<Rightarrow> []
      | d # ups \<Rightarrow> (let first = (p = CHR ''%'' \<and> d) in first # like_cells p d ups first value))"

definition like_matches :: "string \<Rightarrow> string \<Rightarrow> bool" where
  "like_matches value pattern =
     last (foldl (\<lambda>row p. like_row p row value)
             (True # replicate (length value) False) pattern)"

subsection \<open>The language of a pattern\<close>

definition char_lang :: "char \<Rightarrow> string set" where
  "char_lang p =
     (if p = CHR ''%'' then UNIV else if p = CHR ''_'' then {[c] | c. True} else {[p]})"

fun like_lang :: "string \<Rightarrow> string set" where
  "like_lang [] = {[]}"
| "like_lang (p # ps) = {u @ w | u w. u \<in> char_lang p \<and> w \<in> like_lang ps}"

lemma like_lang_append: "like_lang (ps @ qs) = {u @ w | u w. u \<in> like_lang ps \<and> w \<in> like_lang qs}"
proof (induction ps)
  case (Cons p ps)
  show ?case
    unfolding append_Cons like_lang.simps Cons.IH by (auto; metis append.assoc)
qed simp

lemma like_lang_snoc:
  "w \<in> like_lang (ps @ [p]) \<longleftrightarrow> (\<exists>u x. w = u @ x \<and> u \<in> like_lang ps \<and> x \<in> char_lang p)"
  unfolding like_lang_append by auto

text \<open>The recurrences that the cells of one table row satisfy.\<close>

lemma like_lang_snoc_Nil:
  "[] \<in> like_lang (ps @ [p]) \<longleftrightarrow> p = CHR ''%'' \<and> [] \<in> like_lang ps"
  by (auto simp: like_lang_snoc char_lang_def)

lemma prefix_of_snoc: "(\<exists>x. w @ [c] = u @ x) \<longleftrightarrow> u = w @ [c] \<or> (\<exists>x. w = u @ x)"
proof
  assume "\<exists>x. w @ [c] = u @ x"
  then obtain x where "w @ [c] = u @ x" ..
  then show "u = w @ [c] \<or> (\<exists>x. w = u @ x)"
    by (cases x rule: rev_cases) auto
qed auto

lemma like_lang_snoc_percent:
  "w @ [c] \<in> like_lang (ps @ [CHR ''%'']) \<longleftrightarrow>
     w @ [c] \<in> like_lang ps \<or> w \<in> like_lang (ps @ [CHR ''%''])"
proof -
  have "w @ [c] \<in> like_lang (ps @ [CHR ''%'']) \<longleftrightarrow> (\<exists>u. (\<exists>x. w @ [c] = u @ x) \<and> u \<in> like_lang ps)"
    by (auto simp: like_lang_snoc char_lang_def)
  also have "\<dots> \<longleftrightarrow> w @ [c] \<in> like_lang ps \<or> (\<exists>u x. w = u @ x \<and> u \<in> like_lang ps)"
    unfolding prefix_of_snoc by blast
  also have "(\<exists>u x. w = u @ x \<and> u \<in> like_lang ps) \<longleftrightarrow> w \<in> like_lang (ps @ [CHR ''%''])"
    by (simp add: like_lang_snoc char_lang_def)
  finally show ?thesis .
qed

lemma like_lang_snoc_underscore:
  "w @ [c] \<in> like_lang (ps @ [CHR ''_'']) \<longleftrightarrow> w \<in> like_lang ps"
  by (auto simp: like_lang_snoc char_lang_def)

lemma like_lang_snoc_char:
  assumes "p \<noteq> CHR ''%''" and "p \<noteq> CHR ''_''"
  shows "w @ [c] \<in> like_lang (ps @ [p]) \<longleftrightarrow> w \<in> like_lang ps \<and> p = c"
  using assms by (auto simp: like_lang_snoc char_lang_def)

subsection \<open>The table computes the language\<close>

definition prefix_row :: "string \<Rightarrow> string \<Rightarrow> bool list" where
  "prefix_row value ps = map (\<lambda>j. take j value \<in> like_lang ps) [0..<Suc (length value)]"

lemma like_cells_prefixes:
  assumes "k \<le> length value"
  shows "like_cells p (take k value \<in> like_lang ps)
           (map (\<lambda>j. take j value \<in> like_lang ps) [Suc k..<Suc (length value)])
           (take k value \<in> like_lang (ps @ [p])) (drop k value)
         = map (\<lambda>j. take j value \<in> like_lang (ps @ [p])) [Suc k..<Suc (length value)]"
  using assms
proof (induction "length value - k" arbitrary: k)
  case 0
  then show ?case by simp
next
  case (Suc n)
  then have k: "k < length value" by simp
  then have upt: "[Suc k..<Suc (length value)] = Suc k # [Suc (Suc k)..<Suc (length value)]"
    by (simp add: upt_rec)
  have drop: "drop k value = value ! k # drop (Suc k) value"
    using k by (simp add: Cons_nth_drop_Suc)
  have take: "take (Suc k) value = take k value @ [value ! k]"
    using k by (simp add: take_Suc_conv_app_nth)
  have cell: "(if p = CHR ''%'' then take (Suc k) value \<in> like_lang ps \<or> take k value \<in> like_lang (ps @ [p])
               else if p = CHR ''_'' then take k value \<in> like_lang ps
               else take k value \<in> like_lang ps \<and> p = value ! k)
      = (take (Suc k) value \<in> like_lang (ps @ [p]))"
    unfolding take
    by (simp add: like_lang_snoc_percent like_lang_snoc_underscore like_lang_snoc_char)
  have "n = length value - Suc k" using Suc.hyps(2) by simp
  from Suc.hyps(1) [OF this] k
  have IH: "like_cells p (take (Suc k) value \<in> like_lang ps)
           (map (\<lambda>j. take j value \<in> like_lang ps) [Suc (Suc k)..<Suc (length value)])
           (take (Suc k) value \<in> like_lang (ps @ [p])) (drop (Suc k) value)
         = map (\<lambda>j. take j value \<in> like_lang (ps @ [p])) [Suc (Suc k)..<Suc (length value)]"
    by simp
  show ?case
    unfolding upt drop list.map like_cells.simps Let_def cell IH ..
qed

lemma like_row_prefixes: "like_row p (prefix_row value ps) value = prefix_row value (ps @ [p])"
proof -
  have upt: "[0..<Suc (length value)] = 0 # [Suc 0..<Suc (length value)]"
    by (simp add: upt_rec)
  have first: "(p = CHR ''%'' \<and> take 0 value \<in> like_lang ps) = (take 0 value \<in> like_lang (ps @ [p]))"
    by (simp add: like_lang_snoc_Nil)
  show ?thesis
    unfolding prefix_row_def upt list.map like_row_def list.case Let_def first
    using like_cells_prefixes [of 0 "value" p ps] by simp
qed

lemma foldl_like_row_prefixes:
  "foldl (\<lambda>row p. like_row p row value) (prefix_row value ps) qs = prefix_row value (ps @ qs)"
  by (induction qs arbitrary: ps) (simp_all add: like_row_prefixes)

lemma prefix_row_Nil: "prefix_row value [] = True # replicate (length value) False"
  by (rule nth_equalityI) (auto simp: prefix_row_def nth_Cons simp del: upt_Suc split: nat.splits)

lemma like_matches_iff_lang: "like_matches value pattern \<longleftrightarrow> value \<in> like_lang pattern"
proof -
  have "like_matches value pattern = last (prefix_row value pattern)"
    unfolding like_matches_def prefix_row_Nil [symmetric] foldl_like_row_prefixes by simp
  then show ?thesis by (simp add: prefix_row_def)
qed

subsection \<open>Property\<close>

text \<open>
  C10. The dynamic-programming matcher is exact.  \<open>like_matches\<close> accepts a value exactly if the
  value belongs to the language of the pattern, in which \<open>%\<close> stands for any string, \<open>_\<close> for
  any one character and every other character for itself.
\<close>

theorem like_matches_exact: "like_matches value pattern \<longleftrightarrow> value \<in> like_lang pattern"
  by (rule like_matches_iff_lang)

end
