(* ===== verification/QueryPlan.thy ===== *)
theory QueryPlan
  imports LikeMatcher "HOL-Library.Multiset"
begin

text \<open>
  The query path of crate \<open>sdqp-datasource-adapter\<close>: the unified query and the pushdown plan
  (\<open>traits.rs\<close>), and the filter closure around every adapter call (\<open>adapters.rs\<close>): the
  execution query, the evaluation of conditions on result rows, the \<open>LIKE\<close> matcher,
  projection and pagination.  The adapter itself, which talks to an external source, is a
  parameter of \<open>execute_planned_query\<close>; nothing is assumed about what it returns, so the
  facts about the rows handed back hold whatever the source does.
  \<open>parse::<f64>()\<close> with \<open>partial_cmp\<close> is the parameter \<open>fcmp\<close> (\<open>None\<close> when one side does
  not parse): the IEEE-754 reading of decimals is not modelled.
\<close>

subsection \<open>Queries, capabilities and the pushdown plan\<close>

datatype source_type = Rest | Rpc | Hive | Rdbms

datatype execution_mode = ExecAsync | ExecSnapshot

datatype pushdown_operator = PushEq | PushGt | PushLt | PushIn | PushLike

datatype logical_operator = LogicalAnd | LogicalOr | LogicalNot

record unified_query =
  uq_fields :: "field_selector list"
  uq_conditions :: "filter_condition list"
  uq_condition_groups :: "filter_condition_group list"
  uq_pagination :: "pagination option"
  uq_timeout_secs :: nat
  uq_execution_mode :: execution_mode

definition unified_query_new :: "field_selector list \<Rightarrow> unified_query" where
  "unified_query_new fs =
     \<lparr>uq_fields = fs, uq_conditions = [], uq_condition_groups = [], uq_pagination = None,
      uq_timeout_secs = 30, uq_execution_mode = ExecAsync\<rparr>"

record source_capabilities =
  sc_operators :: "pushdown_operator list"
  sc_logical_operators :: "logical_operator list"
  sc_field_projection :: bool
  sc_pagination :: bool

definition rest_defaults :: source_capabilities where
  "rest_defaults = \<lparr>sc_operators = [PushEq, PushIn], sc_logical_operators = [LogicalAnd],
     sc_field_projection = True, sc_pagination = True\<rparr>"

definition rpc_defaults :: source_capabilities where
  "rpc_defaults = \<lparr>sc_operators = [PushEq, PushIn, PushLike], sc_logical_operators = [LogicalAnd],
     sc_field_projection = True, sc_pagination = True\<rparr>"

definition sql_defaults :: source_capabilities where
  "sql_defaults = \<lparr>sc_operators = [PushEq, PushGt, PushLt, PushIn, PushLike],
     sc_logical_operators = [LogicalAnd], sc_field_projection = True, sc_pagination = True\<rparr>"

fun capabilities_for_source :: "source_type \<Rightarrow> source_capabilities" where
  "capabilities_for_source Rest = rest_defaults"
| "capabilities_for_source Rpc = rpc_defaults"
| "capabilities_for_source Hive = sql_defaults"
| "capabilities_for_source Rdbms = sql_defaults"

fun pushable :: "source_capabilities \<Rightarrow> filter_operator \<Rightarrow> bool" where
  "pushable caps OpEq = List.member (sc_operators caps) PushEq"
| "pushable caps OpGt = List.member (sc_operators caps) PushGt"
| "pushable caps OpLt = List.member (sc_operators caps) PushLt"
| "pushable caps OpLike = List.member (sc_operators caps) PushLike"
| "pushable caps OpIn = List.member (sc_operators caps) PushIn"
| "pushable caps OpNeq = False"

record query_execution_plan =
  qp_query :: unified_query
  qp_pushed :: "filter_condition list"
  qp_residual :: "filter_condition list"
  qp_residual_groups :: "filter_condition_group list"

fun split_conditions ::
  "source_capabilities \<Rightarrow> filter_condition list \<Rightarrow> filter_condition list \<times> filter_condition list" where
  "split_conditions caps [] = ([], [])"
| "split_conditions caps (c # cs) =
     (let (pushed, residual) = split_conditions caps cs in
      if pushable caps (fc_operator c) then (c # pushed, residual) else (pushed, c # residual))"

definition build_execution_plan ::
  "source_capabilities \<Rightarrow> unified_query \<Rightarrow> query_execution_plan" where
  "build_execution_plan caps q =
     (let (pushed, residual) = split_conditions caps (uq_conditions q);
          planned = q\<lparr>uq_conditions := pushed, uq_condition_groups := []\<rparr>;
          planned = (if \<not> sc_pagination caps then planned\<lparr>uq_pagination := None\<rparr> else planned) in
      \<lparr>qp_query = planned, qp_pushed = pushed, qp_residual = residual,
       qp_residual_groups = uq_condition_groups q\<rparr>)"

subsection \<open>Result rows\<close>

record field_query_result =
  fqr_field :: string
  fqr_value :: string

datatype query_status = QueryCompleted

record query_result =
  qr_task_id :: string
  qr_rows :: "field_query_result list list"
  qr_status :: query_status

text \<open>Collecting a row into a \<open>HashMap\<close>: the last value of a repeated field wins.\<close>

definition row_values :: "field_query_result list \<Rightarrow> string \<Rightarrow> string option" where
  "row_values row = map_of (rev (map (\<lambda>f. (fqr_field f, fqr_value f)) row))"

subsection \<open>Comparing values\<close>

datatype ordering = OrdLess | OrdEqual | OrdGreater

definition cmp :: "'a::linorder \<Rightarrow> 'a \<Rightarrow> ordering" where
  "cmp a b = (if a < b then OrdLess else if a = b then OrdEqual else OrdGreater)"

text \<open>\<open>parse::<i128>()\<close>: an optional sign, at least one digit, no overflow.\<close>

definition parse_i128 :: "string \<Rightarrow> int option" where
  "parse_i128 s =
     (let neg = (case s of c # _ \<Rightarrow> c = CHR ''-'' | [] \<Rightarrow> False);
          d = (case s of c # r \<Rightarrow> (if c = CHR ''-'' \<or> c = CHR ''+'' then r else s) | [] \<Rightarrow> []);
          v = (if neg then - int (digits_value d) else int (digits_value d)) in
      if d = [] \<or> \<not> list_all is_ascii_digit d then None
      else if - (2 ^ 127) \<le> v \<and> v < 2 ^ 127 then Some v else None)"

type_synonym float_cmp = "string \<Rightarrow> string \<Rightarrow> ordering option option"

definition compare_values :: "float_cmp \<Rightarrow> string \<Rightarrow> string \<Rightarrow> ordering option" where
  "compare_values fcmp l r =
     (case (parse_i128 l, parse_i128 r) of
        (Some a, Some b) \<Rightarrow> Some (cmp a b)
      | _ \<Rightarrow> (case fcmp l r of Some o' \<Rightarrow> o' | None \<Rightarrow> Some (cmp l r)))"

subsection \<open>Conditions on rows\<close>

definition in_list_matches :: "string \<Rightarrow> string \<Rightarrow> bool" where
  "in_list_matches candidate value =
     list_ex (\<lambda>v. v \<noteq> [] \<and> candidate = v) (map trim (split_on (CHR '','') value))"

definition condition_matches ::
  "float_cmp \<Rightarrow> (string \<Rightarrow> string option) \<Rightarrow> filter_condition \<Rightarrow> bool" where
  "condition_matches fcmp values c =
     (case values (fc_field c) of
        None \<Rightarrow> False
      | Some candidate \<Rightarrow>
          (case fc_operator c of
             OpEq \<Rightarrow> candidate = fc_value c
           | OpNeq \<Rightarrow> candidate \<noteq> fc_value c
           | OpGt \<Rightarrow> compare_values fcmp candidate (fc_value c) = Some OrdGreater
           | OpLt \<Rightarrow> compare_values fcmp candidate (fc_value c) = Some OrdLess
           | OpLike \<Rightarrow> like_matches candidate (fc_value c)
           | OpIn \<Rightarrow> in_list_matches candidate (fc_value c)))"

definition row_matches_conditions ::
  "float_cmp \<Rightarrow> field_query_result list \<Rightarrow> filter_condition list \<Rightarrow> bool" where
  "row_matches_conditions fcmp row cs = list_all (condition_matches fcmp (row_values row)) cs"

definition row_matches_query_filters ::
  "float_cmp \<Rightarrow> field_query_result list \<Rightarrow> unified_query \<Rightarrow> bool" where
  "row_matches_query_filters fcmp row q =
     (if \<not> row_matches_conditions fcmp row (uq_conditions q) then False
      else if uq_condition_groups q = [] then True
      else list_ex (\<lambda>g. condition_group_is_empty g
                        \<or> row_matches_conditions fcmp row (fcg_conditions g))
             (uq_condition_groups q))"

subsection \<open>The filter closure around an adapter call\<close>

definition all_query_conditions ::
  "filter_condition list \<Rightarrow> filter_condition_group list \<Rightarrow> filter_condition list" where
  "all_query_conditions cs groups = cs @ concat (map fcg_conditions groups)"

text \<open>The error of \<open>FieldSelector::new\<close>, as the string its \<open>Display\<close> gives.\<close>

fun core_error_text :: "core_error \<Rightarrow> string" where
  "core_error_text EmptyIdentifier = ''identifier cannot be empty''"
| "core_error_text EmptyFieldSelector = ''field selector cannot be empty''"
| "core_error_text (InvalidPageSize m) = ''page size must be between 1 and '' @ show_nat m"

definition map_err :: "('e \<Rightarrow> 'f) \<Rightarrow> 'e + 'a \<Rightarrow> 'f + 'a" where
  "map_err f r = (case r of Inl e \<Rightarrow> Inl (f e) | Inr a \<Rightarrow> Inr a)"

fun expand_loop ::
  "field_selector list \<Rightarrow> string set \<Rightarrow> filter_condition list \<Rightarrow> string + field_selector list" where
  "expand_loop expanded seen [] = Inr expanded"
| "expand_loop expanded seen (c # cs) =
     (if fc_field c \<in> seen then expand_loop expanded seen cs
      else res_bind (map_err core_error_text (field_selector_new (fc_field c)))
             (\<lambda>f. expand_loop (expanded @ [f]) (insert (fc_field c) seen) cs))"

definition expand_fields_for_filter_closure ::
  "field_selector list \<Rightarrow> filter_condition list \<Rightarrow> filter_condition_group list
     \<Rightarrow> string + field_selector list" where
  "expand_fields_for_filter_closure fs cs groups =
     expand_loop fs (fs_str ` set fs) (all_query_conditions cs groups)"

definition build_execution_query ::
  "unified_query \<Rightarrow> query_execution_plan \<Rightarrow> string + unified_query" where
  "build_execution_query orig plan =
     res_bind (expand_fields_for_filter_closure (uq_fields orig) (uq_conditions orig)
                 (uq_condition_groups orig))
       (\<lambda>fs. Inr ((qp_query plan)\<lparr>uq_fields := fs, uq_condition_groups := [],
                                  uq_pagination := None\<rparr>))"

definition project_result_row ::
  "field_query_result list \<Rightarrow> field_selector list \<Rightarrow> field_query_result list" where
  "project_result_row row requested =
     map (\<lambda>f. \<lparr>fqr_field = fs_str f,
               fqr_value = (case row_values row (fs_str f) of Some v \<Rightarrow> v | None \<Rightarrow> ''NULL'')\<rparr>)
       requested"

definition paginate_rows :: "'r list \<Rightarrow> pagination option \<Rightarrow> 'r list" where
  "paginate_rows rows p =
     (case p of None \<Rightarrow> rows
      | Some pg \<Rightarrow>
          let offset = (case page_cursor pg of None \<Rightarrow> 0
                        | Some c \<Rightarrow> (case parse_usize c of None \<Rightarrow> 0 | Some n \<Rightarrow> n)) in
          take (page_size pg) (drop offset rows))"

definition finalize_query_result ::
  "float_cmp \<Rightarrow> unified_query \<Rightarrow> query_result \<Rightarrow> query_result" where
  "finalize_query_result fcmp orig result =
     (let filtered = map (\<lambda>row. project_result_row row (uq_fields orig))
                       (filter (\<lambda>row. row_matches_query_filters fcmp row orig) (qr_rows result)) in
      result\<lparr>qr_rows := paginate_rows filtered (uq_pagination orig)\<rparr>)"

definition execute_planned_query ::
  "float_cmp \<Rightarrow> source_capabilities \<Rightarrow> (unified_query \<Rightarrow> string + query_result)
     \<Rightarrow> unified_query \<Rightarrow> string + query_result" where
  "execute_planned_query fcmp caps adapter q =
     (let plan = build_execution_plan caps q in
      res_bind (build_execution_query q plan)
        (\<lambda>eq. res_bind (adapter eq) (\<lambda>result. Inr (finalize_query_result fcmp q result))))"

subsection \<open>The plan splits the conditions\<close>

lemma split_conditions_filter:
  "split_conditions caps cs =
     (filter (\<lambda>c. pushable caps (fc_operator c)) cs,
      filter (\<lambda>c. \<not> pushable caps (fc_operator c)) cs)"
  by (induction cs) (auto simp: Let_def)

lemma build_execution_plan_parts [simp]:
  "qp_pushed (build_execution_plan caps q)
     = filter (\<lambda>c. pushable caps (fc_operator c)) (uq_conditions q)"
  "qp_residual (build_execution_plan caps q)
     = filter (\<lambda>c. \<not> pushable caps (fc_operator c)) (uq_conditions q)"
  "qp_residual_groups (build_execution_plan caps q) = uq_condition_groups q"
  "uq_conditions (qp_query (build_execution_plan caps q))
     = filter (\<lambda>c. pushable caps (fc_operator c)) (uq_conditions q)"
  "uq_condition_groups (qp_query (build_execution_plan caps q)) = []"
  by (simp_all add: build_execution_plan_def split_conditions_filter Let_def)

lemma row_matches_conditions_split:
  "row_matches_conditions fcmp row cs \<longleftrightarrow>
     row_matches_conditions fcmp row (filter p cs)
     \<and> row_matches_conditions fcmp row (filter (\<lambda>c. \<not> p c) cs)"
  by (auto simp: row_matches_conditions_def list_all_iff)

lemma row_matches_conditions_append [simp]:
  "row_matches_conditions fcmp row (cs @ ds) \<longleftrightarrow>
     row_matches_conditions fcmp row cs \<and> row_matches_conditions fcmp row ds"
  by (simp add: row_matches_conditions_def)

lemma row_matches_conditions_Nil [simp]: "row_matches_conditions fcmp row []"
  by (simp add: row_matches_conditions_def)

lemma row_matches_query_filters_iff:
  "row_matches_query_filters fcmp row q \<longleftrightarrow>
     row_matches_conditions fcmp row (uq_conditions q)
     \<and> (uq_condition_groups q = []
        \<or> (\<exists>g \<in> set (uq_condition_groups q). row_matches_conditions fcmp row (fcg_conditions g)))"
proof -
  have "condition_group_is_empty g \<or> row_matches_conditions fcmp row (fcg_conditions g)
      \<longleftrightarrow> row_matches_conditions fcmp row (fcg_conditions g)" for g
    by (auto simp: condition_group_is_empty_def)
  then show ?thesis by (simp add: row_matches_query_filters_def list_ex_iff)
qed

subsection \<open>The expanded field list\<close>

lemma set_all_query_conditions:
  "set (all_query_conditions cs groups) = set cs \<union> (\<Union>g \<in> set groups. set (fcg_conditions g))"
  by (simp add: all_query_conditions_def)

lemma field_selector_new_Inr: "field_selector_new v = Inr f \<longleftrightarrow> trim v \<noteq> [] \<and> f = FieldSelector v"
  by (auto simp: field_selector_new_def)

lemma expand_loop_Inr:
  assumes "expand_loop expanded seen cs = Inr es"
  shows "\<exists>extra. es = expanded @ extra \<and> distinct (map fs_str extra)
    \<and> fs_str ` set extra = fc_field ` set cs - seen
    \<and> (\<forall>f \<in> set extra. trim (fs_str f) \<noteq> [])"
  using assms
proof (induction cs arbitrary: expanded seen)
  case (Cons c cs)
  show ?case
  proof (cases "fc_field c \<in> seen")
    case True
    with Cons show ?thesis by auto
  next
    case False
    then have ne: "trim (fc_field c) \<noteq> []"
      and rest: "expand_loop (expanded @ [FieldSelector (fc_field c)]) (insert (fc_field c) seen) cs = Inr es"
      using Cons.prems by (auto simp: field_selector_new_def map_err_def split: if_splits)
    from Cons.IH [OF rest] obtain extra where
      "es = (expanded @ [FieldSelector (fc_field c)]) @ extra" "distinct (map fs_str extra)"
      "fs_str ` set extra = fc_field ` set cs - insert (fc_field c) seen"
      "\<forall>f \<in> set extra. trim (fs_str f) \<noteq> []" by blast
    then have "es = expanded @ (FieldSelector (fc_field c) # extra)
        \<and> distinct (map fs_str (FieldSelector (fc_field c) # extra))
        \<and> fs_str ` set (FieldSelector (fc_field c) # extra) = fc_field ` set (c # cs) - seen
        \<and> (\<forall>f \<in> set (FieldSelector (fc_field c) # extra). trim (fs_str f) \<noteq> [])"
      using False ne by auto
    then show ?thesis by blast
  qed
qed auto

lemma expand_loop_Inl:
  "(\<exists>e. expand_loop expanded seen cs = Inl e) \<longleftrightarrow>
     (\<exists>c \<in> set cs. trim (fc_field c) = [] \<and> fc_field c \<notin> seen)"
proof (induction cs arbitrary: expanded seen)
  case (Cons c cs)
  then show ?case
    by (cases "fc_field c \<in> seen") (auto simp: field_selector_new_def map_err_def)
qed simp

lemma expand_fields_covers:
  assumes "expand_fields_for_filter_closure fs cs groups = Inr es"
  shows "\<exists>extra. es = fs @ extra \<and> distinct (map fs_str extra)
    \<and> fs_str ` set extra = fc_field ` set (all_query_conditions cs groups) - fs_str ` set fs"
  using expand_loop_Inr [OF assms [unfolded expand_fields_for_filter_closure_def]] by blast

lemma expand_fields_set:
  assumes "expand_fields_for_filter_closure fs cs groups = Inr es"
  shows "fs_str ` set es = fs_str ` set fs \<union> fc_field ` set (all_query_conditions cs groups)"
proof -
  from expand_fields_covers [OF assms] obtain extra where
    "es = fs @ extra" "fs_str ` set extra
      = fc_field ` set (all_query_conditions cs groups) - fs_str ` set fs" by blast
  then show ?thesis by (simp add: image_Un)
qed

subsection \<open>Projection\<close>

lemma map_of_tabulate:
  "map_of (map (\<lambda>x. (h x, g (h x))) xs) n = (if n \<in> h ` set xs then Some (g n) else None)"
  by (induction xs) auto

definition projected_value :: "field_query_result list \<Rightarrow> string \<Rightarrow> string" where
  "projected_value row n = (case row_values row n of Some v \<Rightarrow> v | None \<Rightarrow> ''NULL'')"

lemma project_result_row_alt:
  "project_result_row row fs =
     map (\<lambda>f. \<lparr>fqr_field = fs_str f, fqr_value = projected_value row (fs_str f)\<rparr>) fs"
  by (simp add: project_result_row_def projected_value_def)

lemma project_result_row_fields: "map fqr_field (project_result_row row fs) = map fs_str fs"
  by (simp add: project_result_row_def)

lemma row_values_project:
  "row_values (project_result_row row es) n =
     (if n \<in> fs_str ` set es then Some (projected_value row n) else None)"
  using map_of_tabulate [of fs_str "projected_value row" "rev es" n]
  by (simp add: row_values_def project_result_row_alt rev_map [symmetric] comp_def)

lemma projected_value_project:
  "n \<in> fs_str ` set es \<Longrightarrow> projected_value (project_result_row row es) n = projected_value row n"
  by (simp add: projected_value_def [of "project_result_row row es"] row_values_project)

lemma project_project:
  assumes "fs_str ` set fs \<subseteq> fs_str ` set es"
  shows "project_result_row (project_result_row row es) fs = project_result_row row fs"
proof -
  have "projected_value (project_result_row row es) (fs_str f) = projected_value row (fs_str f)"
    if "f \<in> set fs" for f
    using that assms by (intro projected_value_project) auto
  then show ?thesis
    by (simp add: project_result_row_alt [of _ fs])
qed

lemma condition_matches_cong:
  "v (fc_field c) = w (fc_field c) \<Longrightarrow> condition_matches fcmp v c = condition_matches fcmp w c"
  by (simp add: condition_matches_def)

lemma row_matches_conditions_project:
  assumes "fc_field ` set cs \<subseteq> fs_str ` set es"
    and "\<forall>c \<in> set cs. row_values row (fc_field c) \<noteq> None"
  shows "row_matches_conditions fcmp (project_result_row row es) cs
    = row_matches_conditions fcmp row cs"
proof -
  have "condition_matches fcmp (row_values (project_result_row row es)) c
      = condition_matches fcmp (row_values row) c" if "c \<in> set cs" for c
  proof (rule condition_matches_cong)
    have "fc_field c \<in> fs_str ` set es" using assms(1) that by auto
    moreover obtain v where "row_values row (fc_field c) = Some v"
      using assms(2) \<open>c \<in> set cs\<close> by blast
    ultimately show "row_values (project_result_row row es) (fc_field c) = row_values row (fc_field c)"
      by (simp add: row_values_project projected_value_def)
  qed
  then show ?thesis by (simp add: row_matches_conditions_def list_all_iff)
qed

subsection \<open>Pages\<close>

lemma paginate_rows_subset: "set (paginate_rows rows p) \<subseteq> set rows"
  by (auto simp: paginate_rows_def Let_def split: option.splits dest: in_set_takeD in_set_dropD)

lemma paginate_rows_length: "length (paginate_rows rows (Some pg)) \<le> page_size pg"
  by (simp add: paginate_rows_def Let_def)

definition nth_page :: "nat \<Rightarrow> 'r list \<Rightarrow> nat \<Rightarrow> 'r list" where
  "nth_page psz rows k =
     paginate_rows rows (Some \<lparr>page_size = psz, page_cursor = Some (show_nat (k * psz))\<rparr>)"

lemma nth_page_eq:
  "k * psz \<le> usize_max \<Longrightarrow> nth_page psz rows k = take psz (drop (k * psz) rows)"
  by (simp add: nth_page_def paginate_rows_def parse_show_nat)

lemma nth_pages_concat:
  "n * psz \<le> usize_max \<Longrightarrow> concat (map (nth_page psz rows) [0..<n]) = take (n * psz) rows"
proof (induction n)
  case (Suc n)
  then have le: "n * psz \<le> usize_max" by simp
  have "concat (map (nth_page psz rows) [0..<Suc n])
      = take (n * psz) rows @ take psz (drop (n * psz) rows)"
    using Suc.IH [OF le] nth_page_eq [OF le] by simp
  then show ?case by (metis add.commute mult_Suc take_add)
qed simp

subsection \<open>What a planned query hands back\<close>

lemma execute_planned_query_Inr:
  assumes "execute_planned_query fcmp caps adapter q = Inr res"
  shows "\<exists>es eq up. expand_fields_for_filter_closure (uq_fields q) (uq_conditions q)
              (uq_condition_groups q) = Inr es
    \<and> eq = (qp_query (build_execution_plan caps q))\<lparr>uq_fields := es, uq_condition_groups := [],
              uq_pagination := None\<rparr>
    \<and> adapter eq = Inr up \<and> res = finalize_query_result fcmp q up"
  using assms
  by (auto simp: execute_planned_query_def build_execution_query_def Let_def res_bind_eq_Inr)

lemma finalize_rows_sound:
  assumes "r \<in> set (qr_rows (finalize_query_result fcmp q up))"
  shows "\<exists>row \<in> set (qr_rows up). row_matches_query_filters fcmp row q
    \<and> r = project_result_row row (uq_fields q)"
  using assms paginate_rows_subset
  by (fastforce simp: finalize_query_result_def Let_def)

text \<open>
  A source that does what the adapter trait documents: it returns, for every row of its
  table that satisfies the conditions it was handed, the values of the requested fields.
\<close>

definition honest_source ::
  "float_cmp \<Rightarrow> field_query_result list list \<Rightarrow> (unified_query \<Rightarrow> string + query_result) \<Rightarrow> bool" where
  "honest_source fcmp table adapter =
     (\<forall>q. \<exists>tid. adapter q = Inr
        \<lparr>qr_task_id = tid,
         qr_rows = map (\<lambda>row. project_result_row row (uq_fields q))
                     (filter (\<lambda>row. row_matches_conditions fcmp row (uq_conditions q)) table),
         qr_status = QueryCompleted\<rparr>)"

definition has_condition_fields :: "unified_query \<Rightarrow> field_query_result list \<Rightarrow> bool" where
  "has_condition_fields q row =
     (\<forall>c \<in> set (all_query_conditions (uq_conditions q) (uq_condition_groups q)).
        row_values row (fc_field c) \<noteq> None)"

lemma row_matches_query_filters_project:
  assumes "has_condition_fields q row"
    and "fc_field ` set (all_query_conditions (uq_conditions q) (uq_condition_groups q))
           \<subseteq> fs_str ` set es"
  shows "row_matches_query_filters fcmp (project_result_row row es) q
    = row_matches_query_filters fcmp row q"
proof -
  have "row_matches_conditions fcmp (project_result_row row es) cs = row_matches_conditions fcmp row cs"
    if "set cs \<subseteq> set (all_query_conditions (uq_conditions q) (uq_condition_groups q))" for cs
  proof (rule row_matches_conditions_project)
    show "fc_field ` set cs \<subseteq> fs_str ` set es"
      using image_mono [OF that] assms(2) by (rule subset_trans)
    show "\<forall>c \<in> set cs. row_values row (fc_field c) \<noteq> None"
      using that assms(1) by (auto simp: has_condition_fields_def)
  qed
  moreover have "set (fcg_conditions g)
      \<subseteq> set (all_query_conditions (uq_conditions q) (uq_condition_groups q))"
    if "g \<in> set (uq_condition_groups q)" for g
    using that by (auto simp: set_all_query_conditions)
  moreover have "set (uq_conditions q)
      \<subseteq> set (all_query_conditions (uq_conditions q) (uq_condition_groups q))"
    by (simp add: set_all_query_conditions)
  ultimately show ?thesis
    unfolding row_matches_query_filters_iff by (simp cong: bex_cong)
qed

lemma planned_query_complete:
  assumes hon: "honest_source fcmp table adapter"
    and es: "expand_fields_for_filter_closure (uq_fields q) (uq_conditions q)
               (uq_condition_groups q) = Inr es"
    and rows: "\<forall>row \<in> set table. has_condition_fields q row"
  shows "\<exists>tid. execute_planned_query fcmp caps adapter q = Inr
    \<lparr>qr_task_id = tid,
     qr_rows = paginate_rows
       (map (\<lambda>row. project_result_row row (uq_fields q))
          (filter (\<lambda>row. row_matches_query_filters fcmp row q) table)) (uq_pagination q),
     qr_status = QueryCompleted\<rparr>"
proof -
  let ?plan = "build_execution_plan caps q"
  let ?eq = "(qp_query ?plan)\<lparr>uq_fields := es, uq_condition_groups := [], uq_pagination := None\<rparr>"
  let ?push = "filter (\<lambda>c. pushable caps (fc_operator c)) (uq_conditions q)"
  from hon obtain tid where up: "adapter ?eq = Inr
     \<lparr>qr_task_id = tid,
      qr_rows = map (\<lambda>row. project_result_row row es)
                  (filter (\<lambda>row. row_matches_conditions fcmp row ?push) table),
      qr_status = QueryCompleted\<rparr>"
    using hon [unfolded honest_source_def, rule_format, of ?eq] by auto
  have names: "fs_str ` set es = fs_str ` set (uq_fields q)
      \<union> fc_field ` set (all_query_conditions (uq_conditions q) (uq_condition_groups q))"
    using es by (rule expand_fields_set)
  have keep: "row_matches_query_filters fcmp (project_result_row row es) q
      = row_matches_query_filters fcmp row q" if "row \<in> set table" for row
    using that rows names by (intro row_matches_query_filters_project) auto
  have push: "row_matches_conditions fcmp row ?push" if "row_matches_query_filters fcmp row q" for row
    using that row_matches_conditions_split [of fcmp row "uq_conditions q"]
    by (auto simp: row_matches_query_filters_iff)
  have proj: "project_result_row (project_result_row row es) (uq_fields q)
      = project_result_row row (uq_fields q)" for row
    using names by (intro project_project) auto
  let ?keep = "\<lambda>row. row_matches_query_filters fcmp row q"
  have filtered: "filter (\<lambda>row. ?keep (project_result_row row es))
        (filter (\<lambda>row. row_matches_conditions fcmp row ?push) table) = filter ?keep table"
    unfolding filter_filter using keep push by (intro filter_cong) auto
  have "map (\<lambda>row. project_result_row row (uq_fields q))
          (filter ?keep
            (map (\<lambda>row. project_result_row row es)
              (filter (\<lambda>row. row_matches_conditions fcmp row ?push) table)))
      = map (\<lambda>row. project_result_row row (uq_fields q)) (filter ?keep table)"
    by (simp add: filter_map comp_def proj filtered del: filter_filter)
  then show ?thesis
    by (simp add: execute_planned_query_def build_execution_query_def Let_def es up
        finalize_query_result_def)
qed

subsection \<open>Properties\<close>

text \<open>A table of two rows behind a source that evaluates what it is handed.\<close>

definition no_floats :: float_cmp where
  "no_floats l r = None"

definition sample_table :: "field_query_result list list" where
  "sample_table =
     [[\<lparr>fqr_field = ''name'', fqr_value = ''ada''\<rparr>, \<lparr>fqr_field = ''region'', fqr_value = ''eu''\<rparr>],
      [\<lparr>fqr_field = ''name'', fqr_value = ''bob''\<rparr>, \<lparr>fqr_field = ''region'', fqr_value = ''us''\<rparr>]]"

definition sample_source :: "unified_query \<Rightarrow> string + query_result" where
  "sample_source q = Inr
     \<lparr>qr_task_id = ''t'',
      qr_rows = map (\<lambda>row. project_result_row row (uq_fields q))
                  (filter (\<lambda>row. row_matches_conditions no_floats row (uq_conditions q)) sample_table),
      qr_status = QueryCompleted\<rparr>"

definition sample_query :: unified_query where
  "sample_query = (unified_query_new [FieldSelector ''name''])
     \<lparr>uq_conditions := [\<lparr>fc_field = ''region'', fc_operator = OpNeq, fc_value = ''us''\<rparr>]\<rparr>"

lemma sample_source_honest: "honest_source no_floats sample_table sample_source"
  by (simp add: honest_source_def sample_source_def)

lemma sample_expands:
  "expand_fields_for_filter_closure (uq_fields sample_query) (uq_conditions sample_query)
     (uq_condition_groups sample_query) = Inr [FieldSelector ''name'', FieldSelector ''region'']"
  by code_simp

text \<open>
  C9. The filter closure computes the query.  Against a source that evaluates the conditions
  it is handed and projects to the fields it is asked for, over a table in which every row holds
  every field that a condition of the query names (a row without one would be filled with
  \<open>NULL\<close>, which a residual condition may match), planning (pushing a part of the
  conditions down, widening the projection, filtering the rest, projecting back, paginating
  last) returns what evaluating the whole query on the table returns, whatever the
  capabilities of the source.
\<close>

theorem planned_query_equals_direct:
  assumes "honest_source fcmp table adapter"
    and "expand_fields_for_filter_closure (uq_fields q) (uq_conditions q)
           (uq_condition_groups q) = Inr es"
    and "\<forall>row \<in> set table. has_condition_fields q row"
  shows "\<exists>tid. execute_planned_query fcmp caps adapter q = Inr
    \<lparr>qr_task_id = tid,
     qr_rows = paginate_rows
       (map (\<lambda>row. project_result_row row (uq_fields q))
          (filter (\<lambda>row. row_matches_query_filters fcmp row q) table)) (uq_pagination q),
     qr_status = QueryCompleted\<rparr>"
  using assms by (rule planned_query_complete)

lemma planned_query_equals_direct_witness:
  "\<exists>tid. execute_planned_query no_floats sql_defaults sample_source sample_query = Inr
    \<lparr>qr_task_id = tid, qr_rows = [[\<lparr>fqr_field = ''name'', fqr_value = ''ada''\<rparr>]],
     qr_status = QueryCompleted\<rparr>"
proof -
  have "\<forall>row \<in> set sample_table. has_condition_fields sample_query row"
    by (simp add: sample_table_def sample_query_def unified_query_new_def has_condition_fields_def
        all_query_conditions_def row_values_def)
  from planned_query_equals_direct [OF sample_source_honest sample_expands this, of sql_defaults]
  show ?thesis
    by (simp add: sample_table_def sample_query_def unified_query_new_def paginate_rows_def
        row_matches_query_filters_def row_matches_conditions_def condition_matches_def
        row_values_def project_result_row_def)
qed

text \<open>
  Pages partition the result.  Reading consecutive pages of one size, with the offsets
  written as decimal cursors, gives every row once and in order, as far as the pages reach.
\<close>

lemma pages_partition_result:
  assumes "n * psz \<le> usize_max"
  shows "concat (map (\<lambda>k. paginate_rows rows
             (Some \<lparr>page_size = psz, page_cursor = Some (show_nat (k * psz))\<rparr>)) [0..<n])
         = take (n * psz) rows"
  using nth_pages_concat [OF assms, of rows] by (simp add: nth_page_def [abs_def])

lemma pages_partition_result_witness:
  "concat (map (\<lambda>k. paginate_rows [10, 20, 30 :: nat]
             (Some \<lparr>page_size = 2, page_cursor = Some (show_nat (k * 2))\<rparr>)) [0..<2])
         = [10, 20, 30]"
  by (subst pages_partition_result) (simp_all add: usize_max_def)

end
