(* ===== verification/QueryGuard.thy ===== *)
theory QueryGuard
  imports Permission QueryPlan
begin

text \<open>
  The query-time enforcement of a grant, \<open>guard.rs\<close>, and what it guarantees together with
  the merge and the filter closure: which rows a grant admits, that a merged grant admits a
  row exactly when one of the grants behind it does (as long as the signatures that
  de-duplicate the groups do not collide), and that a guarded query hands back only rows and
  columns that active grants cover.
\<close>

subsection \<open>The guard\<close>

datatype guard_error = InactiveGrant | UnauthorizedField string

fun guard_fields :: "permission_grant \<Rightarrow> field_selector list \<Rightarrow> guard_error + unit" where
  "guard_fields g [] = Inr ()"
| "guard_fields g (r # rs) =
     (if \<not> list_ex (\<lambda>f. fp_field_name f = fs_str r \<and> \<not> fp_denied f) (g_fields g)
      then Inl (UnauthorizedField (fs_str r))
      else guard_fields g rs)"

definition apply_grant_to_query ::
  "permission_grant \<Rightarrow> field_selector list \<Rightarrow> guard_error + unified_query" where
  "apply_grant_to_query g requested =
     (if g_status g \<noteq> GsActive then Inl InactiveGrant
      else res_bind (guard_fields g requested)
        (\<lambda>_. Inr ((unified_query_new requested)
                   \<lparr>uq_conditions := g_conditions g, uq_condition_groups := g_condition_groups g\<rparr>)))"

text \<open>The guard stops at the first requested field that the grant does not authorise.\<close>

definition first_unauthorized :: "permission_grant \<Rightarrow> field_selector list \<Rightarrow> field_selector option" where
  "first_unauthorized g rs = find (\<lambda>r. \<not> field_authorized g (fs_str r)) rs"

lemma guard_fields_eq:
  "guard_fields g rs =
     (case first_unauthorized g rs of None \<Rightarrow> Inr () | Some r \<Rightarrow> Inl (UnauthorizedField (fs_str r)))"
  by (induction rs) (auto simp: first_unauthorized_def field_authorized_def list_ex_iff)

lemma first_unauthorized_None:
  "first_unauthorized g rs = None \<longleftrightarrow> (\<forall>r \<in> set rs. field_authorized g (fs_str r))"
  by (auto simp: first_unauthorized_def find_None_iff)

lemma guard_fields_Inr: "guard_fields g rs = Inr () \<longleftrightarrow> (\<forall>r \<in> set rs. field_authorized g (fs_str r))"
  by (simp add: guard_fields_eq first_unauthorized_None [symmetric] split: option.splits)

lemma apply_grant_to_query_Inr:
  "apply_grant_to_query g rs = Inr q \<longleftrightarrow>
     g_status g = GsActive \<and> (\<forall>r \<in> set rs. field_authorized g (fs_str r))
     \<and> q = (unified_query_new rs)
            \<lparr>uq_conditions := g_conditions g, uq_condition_groups := g_condition_groups g\<rparr>"
  by (auto simp: apply_grant_to_query_def res_bind_eq_Inr guard_fields_Inr)

subsection \<open>The rows a grant admits\<close>

definition row_in_grant :: "float_cmp \<Rightarrow> permission_grant \<Rightarrow> field_query_result list \<Rightarrow> bool" where
  "row_in_grant fcmp g row =
     (row_matches_conditions fcmp row (g_conditions g)
      \<and> (g_condition_groups g = []
         \<or> (\<exists>grp \<in> set (g_condition_groups g). row_matches_conditions fcmp row (fcg_conditions grp))))"

lemma guarded_query_rows:
  "apply_grant_to_query g rs = Inr q \<Longrightarrow>
     row_matches_query_filters fcmp row q = row_in_grant fcmp g row"
  by (simp add: apply_grant_to_query_Inr row_matches_query_filters_iff row_in_grant_def)

lemma guarded_query_fields: "apply_grant_to_query g rs = Inr q \<Longrightarrow> uq_fields q = rs"
  by (simp add: apply_grant_to_query_Inr unified_query_new_def)

lemma row_in_grant_expanded:
  "row_in_grant fcmp g row \<longleftrightarrow>
     (\<exists>grp \<in> set (expanded_condition_groups g). row_matches_conditions fcmp row (fcg_conditions grp))"
  by (auto simp: row_in_grant_def expanded_condition_groups_def)

lemma row_in_some_grant_expanded:
  "(\<exists>g \<in> set gs. row_in_grant fcmp g row) \<longleftrightarrow>
     (\<exists>grp \<in> set (all_groups gs). row_matches_conditions fcmp row (fcg_conditions grp))"
  by (auto simp: row_in_grant_expanded all_groups_def)

lemma merged_rows_sound:
  assumes m: "merge_grants gs = Some m" and row: "row_in_grant fcmp m row"
  shows "\<exists>g \<in> set (active_grants gs). row_in_grant fcmp g row"
proof (cases rule: active_grants_cases [of gs])
  case none
  with m show ?thesis by (simp add: merge_grants_none)
next
  case (single g)
  with m row show ?thesis by (simp add: merge_grants_single del: mem_active_grants)
next
  case (many g1 g2 rest)
  have "g_condition_groups m \<noteq> []"
    using merge_many_groups_sig [OF many m] many by auto
  with row obtain grp where "grp \<in> set (g_condition_groups m)"
      "row_matches_conditions fcmp row (fcg_conditions grp)"
    by (auto simp: row_in_grant_def)
  with merge_many_groups_sub [OF many m] show ?thesis
    unfolding row_in_some_grant_expanded by blast
qed

subsection \<open>Signatures\<close>

text \<open>Conditions whose signature can be read back.\<close>

definition plain_condition :: "filter_condition \<Rightarrow> bool" where
  "plain_condition c =
     (CHR '':'' \<notin> set (fc_field c) \<and> CHR ''&'' \<notin> set (fc_field c) \<and> CHR ''&'' \<notin> set (fc_value c))"

definition plain_grant :: "permission_grant \<Rightarrow> bool" where
  "plain_grant g =
     (\<forall>grp \<in> set (expanded_condition_groups g). \<forall>c \<in> set (fcg_conditions grp). plain_condition c)"

lemma operator_label_plain: "CHR '':'' \<notin> set (operator_label p)" "CHR ''&'' \<notin> set (operator_label p)"
  by (cases p; simp)+

lemma operator_label_inj: "operator_label p = operator_label q \<Longrightarrow> p = q"
  by (cases p; cases q; simp)

lemma condition_signature_inj:
  assumes "condition_signature c = condition_signature d" and "plain_condition c" and "plain_condition d"
  shows "c = d"
proof -
  have fc: "fc_field c = fc_field d"
    and rest: "CHR '':'' # operator_label (fc_operator c) @ ''::'' @ fc_value c
      = CHR '':'' # operator_label (fc_operator d) @ ''::'' @ fc_value d"
    using assms append_sep_inj [of "CHR '':''" "fc_field c" "fc_field d"]
    by (auto simp: condition_signature_def plain_condition_def)
  from rest have "operator_label (fc_operator c) = operator_label (fc_operator d)"
    and val: "fc_value c = fc_value d"
    using append_sep_inj [OF operator_label_plain(1) operator_label_plain(1)] by auto
  with fc show ?thesis by (simp add: operator_label_inj)
qed

lemma group_signature_inj:
  assumes "group_signature a = group_signature b"
    and a: "\<forall>c \<in> set (fcg_conditions a). plain_condition c"
    and b: "\<forall>c \<in> set (fcg_conditions b). plain_condition c"
  shows "a = b"
proof -
  have plain: "p \<noteq> [] \<and> CHR ''&'' \<notin> set p"
    if "p = condition_signature c" "plain_condition c" for p c
    using that by (auto simp: condition_signature_def plain_condition_def operator_label_plain)
  have "map condition_signature (fcg_conditions a) = map condition_signature (fcg_conditions b)"
    using assms(1) unfolding group_signature_def
    by (rule join_sep_inj) (use plain a b in auto)
  moreover have "inj_on condition_signature (set (fcg_conditions a) \<union> set (fcg_conditions b))"
    by (rule inj_onI) (use a b condition_signature_inj in auto)
  ultimately have "fcg_conditions a = fcg_conditions b"
    by (simp add: inj_on_map_eq_map)
  then show ?thesis by (cases a; cases b) simp
qed

lemma merged_rows_complete:
  assumes m: "merge_grants gs = Some m"
    and plain: "\<forall>g \<in> set (active_grants gs). plain_grant g"
    and row: "\<exists>g \<in> set (active_grants gs). row_in_grant fcmp g row"
  shows "row_in_grant fcmp m row"
proof (cases rule: active_grants_cases [of gs])
  case none
  with m show ?thesis by (simp add: merge_grants_none)
next
  case (single g)
  with m row show ?thesis by (simp add: merge_grants_single del: mem_active_grants)
next
  case (many g1 g2 rest)
  from row obtain grp where grp: "grp \<in> set (all_groups (active_grants gs))"
      "row_matches_conditions fcmp row (fcg_conditions grp)"
    unfolding row_in_some_grant_expanded by blast
  then obtain kept where kept: "kept \<in> set (g_condition_groups m)"
      "group_signature kept = group_signature grp"
    using merge_many_groups_sig [OF many m] by (metis imageE imageI)
  have pl: "\<forall>c \<in> set (fcg_conditions x). plain_condition c" if "x \<in> set (all_groups (active_grants gs))" for x
    using that plain by (auto simp: all_groups_def plain_grant_def)
  have "kept = grp"
    using kept merge_many_groups_sub [OF many m] grp(1) pl by (intro group_signature_inj) blast+
  with kept grp(2) merge_many_conditions [OF many m] show ?thesis
    by (auto simp: row_in_grant_def)
qed

subsection \<open>Properties\<close>

text \<open>
  The guard's verdict.  A grant that is not active is refused; otherwise the first
  requested field that the grant does not authorise is named; otherwise the query carries the
  requested fields and exactly the grant's conditions and groups.
\<close>

lemma guard_verdict:
  "apply_grant_to_query g requested =
     (if g_status g \<noteq> GsActive then Inl InactiveGrant
      else case find (\<lambda>r. \<not> field_authorized g (fs_str r)) requested of
             Some r \<Rightarrow> Inl (UnauthorizedField (fs_str r))
           | None \<Rightarrow> Inr ((unified_query_new requested)
               \<lparr>uq_conditions := g_conditions g, uq_condition_groups := g_condition_groups g\<rparr>))"
  by (simp add: apply_grant_to_query_def guard_fields_eq first_unauthorized_def split: option.splits)

text \<open>
  C3. Merging is a disjunction of rows.  When no name of a condition field contains a colon or
  an ampersand and no condition value an ampersand, a row passes the filters of the merged
  grant exactly if it passes those of at least one active grant.
\<close>

theorem merged_grant_admits_union:
  assumes "merge_grants gs = Some m" and "\<forall>g \<in> set (active_grants gs). plain_grant g"
  shows "row_in_grant fcmp m row \<longleftrightarrow> (\<exists>g \<in> set (active_grants gs). row_in_grant fcmp g row)"
  using merged_rows_sound [OF assms(1)] merged_rows_complete [OF assms] by blast

lemma merged_grant_admits_union_witness:
  "\<exists>m. merge_grants sample_grants = Some m
     \<and> row_in_grant no_floats m [\<lparr>fqr_field = ''region'', fqr_value = ''us''\<rparr>]
     \<and> \<not> row_in_grant no_floats m [\<lparr>fqr_field = ''region'', fqr_value = ''cn''\<rparr>]"
proof -
  obtain m where m: "merge_grants sample_grants = Some m" using sample_merges by blast
  have plain: "\<forall>g \<in> set (active_grants sample_grants). plain_grant g"
    by (simp only: sample_active)
      (simp add: sample_simps plain_grant_def plain_condition_def expanded_condition_groups_def)
  have rows: "row_in_grant no_floats m row \<longleftrightarrow>
      (\<exists>g \<in> set (active_grants sample_grants). row_in_grant no_floats g row)" for row
    by (rule merged_grant_admits_union [OF m plain])
  have "row_in_grant no_floats m [\<lparr>fqr_field = ''region'', fqr_value = ''us''\<rparr>]
     \<and> \<not> row_in_grant no_floats m [\<lparr>fqr_field = ''region'', fqr_value = ''cn''\<rparr>]"
    unfolding rows sample_active
    by (simp add: sample_simps row_in_grant_def row_matches_conditions_def condition_matches_def
        row_values_def)
  with m show ?thesis by blast
qed

text \<open>
  Colliding signatures lose a group.  The signature that de-duplicates condition groups
  joins conditions with \<open>&&\<close> and their parts with \<open>::\<close> without escaping, so two active grants
  exist whose merge admits none of the rows that the second grant admits.
\<close>

lemma signature_collision_drops_group:
  "\<exists>gs g m row. g \<in> set (active_grants gs) \<and> merge_grants gs = Some m \<and>
     row_in_grant no_floats g row \<and> \<not> row_in_grant no_floats m row"
proof -
  let ?c1 = "[\<lparr>fc_field = ''a'', fc_operator = OpEq, fc_value = ''1&&b::Eq::2''\<rparr>]"
  let ?c2 = "[\<lparr>fc_field = ''a'', fc_operator = OpEq, fc_value = ''1''\<rparr>,
              \<lparr>fc_field = ''b'', fc_operator = OpEq, fc_value = ''2''\<rparr>]"
  let ?row = "[\<lparr>fqr_field = ''a'', fqr_value = ''1''\<rparr>, \<lparr>fqr_field = ''b'', fqr_value = ''2''\<rparr>]"
  define g1 g2 where "g1 = sample_grant ''g1'' 0 [] ?c1" and "g2 = sample_grant ''g2'' 0 [] ?c2"
  have act: "active_grants [g1, g2] = [g1, g2]"
    by (simp add: g1_def g2_def active_grants_def sample_simps)
  have "in_window g1 0 \<and> in_window g2 0"
    by (simp add: g1_def g2_def sample_simps in_window_def hours_ns_def)
  then obtain m where m: "merge_grants [g1, g2] = Some m"
    using merge_many_none_iff [of "[g1, g2]"] act by fastforce
  have groups: "g_condition_groups m = [condition_group_new ?c1]"
    using m unfolding merge_grants_many [OF act] act
    by (auto simp: merged_state_def merge_state_init_def merge_grant_into_def merge_group_def
        expanded_condition_groups_def g1_def g2_def sample_simps group_signature_def
        condition_signature_def merge_field_def Let_def split: if_splits)
  have in2: "row_in_grant no_floats g2 ?row"
    by (simp add: g2_def sample_simps row_in_grant_def row_matches_conditions_def
        condition_matches_def row_values_def)
  have "\<not> row_in_grant no_floats m ?row"
    by (simp add: row_in_grant_def groups row_matches_conditions_def condition_matches_def
        row_values_def)
  with act m in2 show ?thesis
    by (intro exI [of _ "[g1, g2]"] exI [of _ g2] exI [of _ m] exI [of _ ?row]) simp
qed

text \<open>
  The guard does not look at the validity window: moving both bounds of a grant anywhere
  changes nothing in the verdict, so a grant whose window has elapsed is enforced only through
  the status that a sweep sets later.
\<close>

lemma guard_ignores_validity_window:
  "apply_grant_to_query (g\<lparr>g_valid_from := from, g_valid_until := until\<rparr>) requested
     = apply_grant_to_query g requested"
proof -
  have "guard_fields (g\<lparr>g_valid_from := from, g_valid_until := until\<rparr>) requested
      = guard_fields g requested"
    by (induction requested) simp_all
  then show ?thesis by (simp add: apply_grant_to_query_def)
qed

end
