(* ===== verification/GrantLifecycle.thy ===== *)
theory GrantLifecycle
  imports Permission
begin

text \<open>
  The life of a grant: the eligibility rule and the lifecycle scheduler (\<open>lifecycle.rs\<close>) and
  the registry that stores applications and grants (\<open>service.rs\<close>).  The scheduler decides on
  a transition for one grant and one trigger; the registry applies it, and also changes the
  status of many grants at once.  The bulk operations share one contract, the locale
  \<open>grant_sweep\<close>; the registry's runs are a step relation, for which closed grants stay closed.
\<close>

subsection \<open>Eligibility\<close>

datatype employment_state = EsActive | EsDeparted | EsMissing

fun employment_label :: "employment_state \<Rightarrow> string" where
  "employment_label EsActive = ''Active''"
| "employment_label EsDeparted = ''Departed''"
| "employment_label EsMissing = ''Missing''"

definition employment_is_active :: "employment_state \<Rightarrow> bool" where
  "employment_is_active e = (e = EsActive)"

record applicant_profile =
  ap_user_id :: string
  ap_department_id :: "string option"
  ap_manager_id :: "string option"
  ap_roles :: "string list"
  ap_employment :: employment_state

definition applicant_profile_missing :: "string \<Rightarrow> string list \<Rightarrow> applicant_profile" where
  "applicant_profile_missing user roles =
     \<lparr>ap_user_id = user, ap_department_id = None, ap_manager_id = None, ap_roles = roles,
      ap_employment = EsMissing\<rparr>"

record eligibility_rule =
  er_rule_id :: string
  er_project_id :: string
  er_allowed_department_ids :: "string set"
  er_allowed_user_ids :: "string set"
  er_allowed_role_names :: "string set"
  er_require_active_hr_record :: bool

definition active_hr_only :: "string \<Rightarrow> eligibility_rule" where
  "active_hr_only project =
     \<lparr>er_rule_id = ''eligibility-'' @ project @ ''-active-hr'', er_project_id = project,
      er_allowed_department_ids = {}, er_allowed_user_ids = {}, er_allowed_role_names = {},
      er_require_active_hr_record = True\<rparr>"

record eligibility_decision =
  ed_eligible :: bool
  ed_matched_by :: "string option"
  ed_reason :: string

definition decision_allowed :: "string \<Rightarrow> eligibility_decision" where
  "decision_allowed m =
     \<lparr>ed_eligible = True, ed_matched_by = Some m, ed_reason = ''matched by '' @ m\<rparr>"

definition decision_denied :: "string \<Rightarrow> eligibility_decision" where
  "decision_denied r = \<lparr>ed_eligible = False, ed_matched_by = None, ed_reason = r\<rparr>"

definition rule_evaluate :: "eligibility_rule \<Rightarrow> applicant_profile \<Rightarrow> eligibility_decision" where
  "rule_evaluate r p =
     (if er_require_active_hr_record r \<and> \<not> employment_is_active (ap_employment p) then
        decision_denied (''applicant HR state is '' @ employment_label (ap_employment p))
      else if \<not> (er_allowed_department_ids r \<noteq> {} \<or> er_allowed_user_ids r \<noteq> {}
                 \<or> er_allowed_role_names r \<noteq> {}) then
        decision_allowed ''active_hr_record''
      else if ap_user_id p \<in> er_allowed_user_ids r then decision_allowed ''user''
      else if (case ap_department_id p of Some d \<Rightarrow> d \<in> er_allowed_department_ids r | None \<Rightarrow> False)
        then decision_allowed ''department''
      else if list_ex (\<lambda>role. role \<in> er_allowed_role_names r) (ap_roles p)
        then decision_allowed ''role''
      else decision_denied ''applicant does not match project eligibility rule'')"

subsection \<open>The lifecycle scheduler\<close>

datatype lifecycle_trigger =
    SchedulerTick | HrSync | AuditAnomaly | AuditCleared | AuditConfirmedCompromise
  | ProjectFrozen | ProjectResumed | ProjectClosed

fun trigger_label :: "lifecycle_trigger \<Rightarrow> string" where
  "trigger_label SchedulerTick = ''scheduler_tick''"
| "trigger_label HrSync = ''hr_sync''"
| "trigger_label AuditAnomaly = ''audit_anomaly''"
| "trigger_label AuditCleared = ''audit_cleared''"
| "trigger_label AuditConfirmedCompromise = ''audit_confirmed_compromise''"
| "trigger_label ProjectFrozen = ''project_frozen''"
| "trigger_label ProjectResumed = ''project_resumed''"
| "trigger_label ProjectClosed = ''project_closed''"

record lifecycle_transition =
  lt_transition_id :: string
  lt_grant_id :: string
  lt_applicant_user_id :: string
  lt_project_id :: string
  lt_data_source_id :: string
  lt_from_status :: grant_status
  lt_to_status :: grant_status
  lt_trigger :: lifecycle_trigger
  lt_reason :: string
  lt_effective_at :: time
  lt_source_event_id :: "string option"

definition with_source_event :: "lifecycle_transition \<Rightarrow> string \<Rightarrow> lifecycle_transition" where
  "with_source_event t e = t\<lparr>lt_source_event_id := Some e\<rparr>"

definition org_binding_matches :: "permission_grant \<Rightarrow> applicant_profile \<Rightarrow> bool" where
  "org_binding_matches g p =
     (ap_department_id p = Some (ob_department_id (g_org_binding g))
      \<and> ap_manager_id p = ob_manager_id (g_org_binding g))"

definition transition ::
  "string \<Rightarrow> permission_grant \<Rightarrow> grant_status \<Rightarrow> lifecycle_trigger \<Rightarrow> string \<Rightarrow> time
     \<Rightarrow> lifecycle_transition option" where
  "transition ulid g to trigger reason at =
     (if g_status g = to then None
      else Some \<lparr>lt_transition_id = ulid, lt_grant_id = g_grant_id g,
                 lt_applicant_user_id = g_applicant_user_id g, lt_project_id = g_project_id g,
                 lt_data_source_id = g_data_source_id g, lt_from_status = g_status g,
                 lt_to_status = to, lt_trigger = trigger, lt_reason = reason,
                 lt_effective_at = at, lt_source_event_id = None\<rparr>)"

definition evaluate_hr ::
  "string \<Rightarrow> permission_grant \<Rightarrow> applicant_profile \<Rightarrow> eligibility_rule \<Rightarrow> time
     \<Rightarrow> lifecycle_transition option" where
  "evaluate_hr ulid g p r now =
     (if \<not> employment_is_active (ap_employment p) then
        transition ulid g GsRevoked HrSync ''applicant is no longer active in HR'' now
      else if \<not> org_binding_matches g p then
        transition ulid g GsRevoked HrSync ''HR binding no longer matches grant snapshot'' now
      else
        let decision = rule_evaluate r p in
        if \<not> ed_eligible decision \<and> g_status g = GsActive then
          transition ulid g GsSuspended HrSync
            (''applicant eligibility lost: '' @ ed_reason decision) now
        else None)"

definition evaluate_grant ::
  "string \<Rightarrow> permission_grant \<Rightarrow> applicant_profile \<Rightarrow> eligibility_rule \<Rightarrow> time
     \<Rightarrow> lifecycle_trigger \<Rightarrow> lifecycle_transition option" where
  "evaluate_grant ulid g p r now trigger =
     (if \<not> (g_status g = GsActive \<or> g_status g = GsSuspended) then None
      else if g_valid_until g \<le> now then
        transition ulid g GsExpired SchedulerTick ''grant validity window elapsed'' now
      else case trigger of
        AuditAnomaly \<Rightarrow>
          transition ulid g GsSuspended trigger ''audit anomaly requires investigation'' now
      | AuditConfirmedCompromise \<Rightarrow>
          transition ulid g GsRevoked trigger ''audit investigation confirmed misuse'' now
      | AuditCleared \<Rightarrow>
          (if g_status g \<noteq> GsSuspended then None
           else if \<not> org_binding_matches g p then
             transition ulid g GsRevoked HrSync ''HR binding no longer matches grant snapshot'' now
           else if ed_eligible (rule_evaluate r p) then
             transition ulid g GsActive trigger
               ''audit investigation cleared and applicant remains eligible'' now
           else None)
      | ProjectFrozen \<Rightarrow>
          transition ulid g GsSuspended trigger ''project lifecycle is frozen'' now
      | ProjectResumed \<Rightarrow>
          (if g_status g \<noteq> GsSuspended then None
           else if org_binding_matches g p \<and> ed_eligible (rule_evaluate r p) then
             transition ulid g GsActive trigger
               ''project resumed and applicant remains eligible'' now
           else None)
      | ProjectClosed \<Rightarrow>
          transition ulid g GsRevoked trigger ''project lifecycle closed'' now
      | HrSync \<Rightarrow> evaluate_hr ulid g p r now
      | SchedulerTick \<Rightarrow> evaluate_hr ulid g p r now)"

subsection \<open>The registry\<close>

record permission_application =
  pa_application_id :: string
  pa_applicant_user_id :: string
  pa_project_id :: string
  pa_data_source_id :: string
  pa_requested_fields :: "string list"
  pa_status :: grant_status
  pa_approval_instance_id :: "string option"
  pa_merged_into_application_id :: "string option"

definition merge_key :: "permission_application \<Rightarrow> string" where
  "merge_key a =
     pa_applicant_user_id a @ ''::'' @ pa_project_id a @ ''::'' @ pa_data_source_id a
       @ ''::'' @ join ''|'' (sort (pa_requested_fields a))"

record permission_registry =
  pr_applications :: "(string \<times> permission_application) list"
  pr_grants :: "permission_grant list"

definition registry_default :: permission_registry where
  "registry_default = \<lparr>pr_applications = [], pr_grants = []\<rparr>"

definition submit_application ::
  "string \<Rightarrow> permission_registry \<Rightarrow> string \<Rightarrow> string \<Rightarrow> string \<Rightarrow> string list
     \<Rightarrow> permission_registry \<times> permission_application" where
  "submit_application ulid reg user project source fs =
     (let a = \<lparr>pa_application_id = ulid, pa_applicant_user_id = user, pa_project_id = project,
               pa_data_source_id = source, pa_requested_fields = fs, pa_status = GsPending,
               pa_approval_instance_id = None, pa_merged_into_application_id = None\<rparr> in
      (reg\<lparr>pr_applications := AList.update ulid a (pr_applications reg)\<rparr>, a))"

definition restore_application ::
  "permission_registry \<Rightarrow> permission_application \<Rightarrow> permission_registry" where
  "restore_application reg a =
     reg\<lparr>pr_applications := AList.update (pa_application_id a) a (pr_applications reg)\<rparr>"

definition register_grant :: "permission_registry \<Rightarrow> permission_grant \<Rightarrow> permission_registry" where
  "register_grant reg g = reg\<lparr>pr_grants := pr_grants reg @ [g]\<rparr>"

definition lifecycle_grants :: "permission_registry \<Rightarrow> permission_grant list" where
  "lifecycle_grants reg =
     filter (\<lambda>g. g_status g = GsActive \<or> g_status g = GsSuspended) (pr_grants reg)"

definition get_grant :: "permission_registry \<Rightarrow> string \<Rightarrow> permission_grant option" where
  "get_grant reg gid = find (\<lambda>g. g_grant_id g = gid) (pr_grants reg)"

definition apply_lifecycle_transition ::
  "permission_registry \<Rightarrow> lifecycle_transition \<Rightarrow> permission_registry \<times> bool" where
  "apply_lifecycle_transition reg t =
     (case find (\<lambda>g. g_grant_id g = lt_grant_id t) (pr_grants reg) of
        None \<Rightarrow> (reg, False)
      | Some g \<Rightarrow>
          if g_status g \<noteq> lt_from_status t then (reg, False)
          else (reg\<lparr>pr_grants := update_first (\<lambda>g. g_grant_id g = lt_grant_id t)
                                  (\<lambda>g. g\<lparr>g_status := lt_to_status t\<rparr>) (pr_grants reg)\<rparr>, True))"

definition is_none_or :: "('a \<Rightarrow> bool) \<Rightarrow> 'a option \<Rightarrow> bool" where
  "is_none_or p x = (case x of None \<Rightarrow> True | Some a \<Rightarrow> p a)"

definition list_grants ::
  "permission_registry \<Rightarrow> string \<Rightarrow> string option \<Rightarrow> string option \<Rightarrow> permission_grant list" where
  "list_grants reg user project source =
     filter (\<lambda>g. g_applicant_user_id g = user
               \<and> is_none_or (\<lambda>p. g_project_id g = p) project
               \<and> is_none_or (\<lambda>d. g_data_source_id g = d) source) (pr_grants reg)"

definition get_application :: "permission_registry \<Rightarrow> string \<Rightarrow> permission_application option" where
  "get_application reg aid = map_of (pr_applications reg) aid"

definition activate_application ::
  "string \<Rightarrow> time \<Rightarrow> time \<Rightarrow> permission_registry \<Rightarrow> string \<Rightarrow> field_permission list
     \<Rightarrow> filter_condition list \<Rightarrow> permission_registry \<times> permission_grant option" where
  "activate_application ulid now1 now2 reg aid fs cs =
     (case map_of (pr_applications reg) aid of
        None \<Rightarrow> (reg, None)
      | Some a \<Rightarrow>
          let g = grant_active ulid now1 now2 (pa_applicant_user_id a) (pa_project_id a)
                    (pa_data_source_id a) fs cs in
          (reg\<lparr>pr_applications := AList.update aid (a\<lparr>pa_status := GsActive\<rparr>) (pr_applications reg),
               pr_grants := pr_grants reg @ [g]\<rparr>, Some g))"

definition activate_application_with_grant ::
  "permission_registry \<Rightarrow> string \<Rightarrow> permission_grant \<Rightarrow> string option
     \<Rightarrow> permission_registry \<times> permission_grant option" where
  "activate_application_with_grant reg aid g inst =
     (case map_of (pr_applications reg) aid of
        None \<Rightarrow> (reg, None)
      | Some a \<Rightarrow>
          (reg\<lparr>pr_applications := AList.update aid
                  (a\<lparr>pa_status := GsActive, pa_approval_instance_id := inst\<rparr>) (pr_applications reg),
               pr_grants := pr_grants reg @ [g]\<rparr>, Some g))"

definition merged_active_grant ::
  "permission_registry \<Rightarrow> string \<Rightarrow> string \<Rightarrow> string \<Rightarrow> permission_grant option" where
  "merged_active_grant reg user project source =
     merge_grants (filter (\<lambda>g. g_applicant_user_id g = user \<and> g_project_id g = project
                             \<and> g_data_source_id g = source \<and> g_status g = GsActive) (pr_grants reg))"

definition application_count :: "permission_registry \<Rightarrow> nat" where
  "application_count reg = length (pr_applications reg)"

definition active_grant_count :: "permission_registry \<Rightarrow> string \<Rightarrow> string option \<Rightarrow> nat" where
  "active_grant_count reg user project =
     length (filter (\<lambda>g. g_applicant_user_id g = user
                       \<and> is_none_or (\<lambda>p. g_project_id g = p) project
                       \<and> g_status g = GsActive) (pr_grants reg))"

text \<open>
  The bulk operations walk over the grants, set the status of those that pass their test and
  count them.
\<close>

fun sweep_loop ::
  "(permission_grant \<Rightarrow> bool) \<Rightarrow> grant_status \<Rightarrow> permission_grant list \<Rightarrow> nat
     \<Rightarrow> permission_grant list \<times> nat" where
  "sweep_loop test target [] n = ([], n)"
| "sweep_loop test target (g # gs) n =
     (if test g then
        (let (gs', n') = sweep_loop test target gs (Suc n) in (g\<lparr>g_status := target\<rparr> # gs', n'))
      else
        (let (gs', n') = sweep_loop test target gs n in (g # gs', n')))"

definition sweep ::
  "(permission_grant \<Rightarrow> bool) \<Rightarrow> grant_status \<Rightarrow> permission_registry \<Rightarrow> permission_registry \<times> nat" where
  "sweep test target reg =
     (let (gs, n) = sweep_loop test target (pr_grants reg) 0 in (reg\<lparr>pr_grants := gs\<rparr>, n))"

definition revoke_grants_for_user ::
  "permission_registry \<Rightarrow> string \<Rightarrow> string option \<Rightarrow> permission_registry \<times> nat" where
  "revoke_grants_for_user reg user project =
     sweep (\<lambda>g. g_applicant_user_id g = user \<and> is_none_or (\<lambda>p. g_project_id g = p) project
              \<and> g_status g = GsActive) GsRevoked reg"

definition suspend_grants_for_user ::
  "permission_registry \<Rightarrow> string \<Rightarrow> string option \<Rightarrow> permission_registry \<times> nat" where
  "suspend_grants_for_user reg user project =
     sweep (\<lambda>g. g_applicant_user_id g = user \<and> is_none_or (\<lambda>p. g_project_id g = p) project
              \<and> g_status g = GsActive) GsSuspended reg"

definition suspend_grants_for_project ::
  "permission_registry \<Rightarrow> string \<Rightarrow> permission_registry \<times> nat" where
  "suspend_grants_for_project reg project =
     sweep (\<lambda>g. g_project_id g = project \<and> g_status g = GsActive) GsSuspended reg"

definition resume_grants_for_project ::
  "permission_registry \<Rightarrow> string \<Rightarrow> permission_registry \<times> nat" where
  "resume_grants_for_project reg project =
     sweep (\<lambda>g. g_project_id g = project \<and> g_status g = GsSuspended) GsActive reg"

definition expire_grants :: "permission_registry \<Rightarrow> time \<Rightarrow> permission_registry \<times> nat" where
  "expire_grants reg now =
     sweep (\<lambda>g. g_status g = GsActive \<and> g_valid_until g \<le> now) GsExpired reg"

definition revoke_grants_for_project ::
  "permission_registry \<Rightarrow> string \<Rightarrow> permission_registry \<times> nat" where
  "revoke_grants_for_project reg project =
     sweep (\<lambda>g. g_project_id g = project \<and> (g_status g = GsActive \<or> g_status g = GsSuspended))
       GsRevoked reg"

subsection \<open>What an eligibility decision means\<close>

lemma decision_simps [simp]:
  "ed_eligible (decision_allowed m)" "\<not> ed_eligible (decision_denied r)"
  by (simp_all add: decision_allowed_def decision_denied_def)

definition selector_matches :: "eligibility_rule \<Rightarrow> applicant_profile \<Rightarrow> bool" where
  "selector_matches r p =
     (ap_user_id p \<in> er_allowed_user_ids r
      \<or> (\<exists>d. ap_department_id p = Some d \<and> d \<in> er_allowed_department_ids r)
      \<or> (\<exists>role \<in> set (ap_roles p). role \<in> er_allowed_role_names r))"

lemma rule_evaluate_eligible:
  "ed_eligible (rule_evaluate r p) \<longleftrightarrow>
     (er_require_active_hr_record r \<longrightarrow> ap_employment p = EsActive)
     \<and> ((er_allowed_department_ids r = {} \<and> er_allowed_user_ids r = {} \<and> er_allowed_role_names r = {})
        \<or> selector_matches r p)"
  by (auto simp: rule_evaluate_def employment_is_active_def selector_matches_def list_ex_iff
      split: option.splits)

subsection \<open>What the scheduler decides\<close>

definition open_status :: "grant_status \<Rightarrow> bool" where
  "open_status s = (s = GsActive \<or> s = GsSuspended)"

lemma transition_Some:
  "transition ulid g to trig reason at = Some t \<longleftrightarrow>
     g_status g \<noteq> to
     \<and> t = \<lparr>lt_transition_id = ulid, lt_grant_id = g_grant_id g,
            lt_applicant_user_id = g_applicant_user_id g, lt_project_id = g_project_id g,
            lt_data_source_id = g_data_source_id g, lt_from_status = g_status g,
            lt_to_status = to, lt_trigger = trig, lt_reason = reason,
            lt_effective_at = at, lt_source_event_id = None\<rparr>"
  by (auto simp: transition_def)

lemma transition_None: "transition ulid g to trig reason at = None \<longleftrightarrow> g_status g = to"
  by (simp add: transition_def)

lemma evaluate_grant_Some_basic:
  assumes "evaluate_grant ulid g p r now trig = Some t"
  shows "open_status (g_status g) \<and> lt_from_status t = g_status g \<and> lt_to_status t \<noteq> g_status g
    \<and> lt_grant_id t = g_grant_id g \<and> lt_effective_at t = now"
  using assms
  by (auto simp: evaluate_grant_def evaluate_hr_def open_status_def transition_Some Let_def
      split: if_splits lifecycle_trigger.splits)

text \<open>The target status as a decision table.\<close>

definition decided_status ::
  "permission_grant \<Rightarrow> applicant_profile \<Rightarrow> eligibility_rule \<Rightarrow> time \<Rightarrow> lifecycle_trigger
     \<Rightarrow> grant_status" where
  "decided_status g p r now trig =
     (if \<not> open_status (g_status g) then g_status g
      else if g_valid_until g \<le> now then GsExpired
      else if trig \<in> {AuditAnomaly, ProjectFrozen} then GsSuspended
      else if trig \<in> {AuditConfirmedCompromise, ProjectClosed} then GsRevoked
      else if trig \<in> {HrSync, SchedulerTick} then
        (if ap_employment p \<noteq> EsActive \<or> \<not> org_binding_matches g p then GsRevoked
         else if ed_eligible (rule_evaluate r p) then g_status g else GsSuspended)
      else if g_status g = GsActive then GsActive
      else if org_binding_matches g p \<and> ed_eligible (rule_evaluate r p) then GsActive
      else if trig = AuditCleared \<and> \<not> org_binding_matches g p then GsRevoked
      else GsSuspended)"

definition status_after ::
  "permission_grant \<Rightarrow> lifecycle_transition option \<Rightarrow> grant_status" where
  "status_after g t = (case t of None \<Rightarrow> g_status g | Some t \<Rightarrow> lt_to_status t)"

lemma status_after_transition [simp]: "status_after g (transition ulid g to trig reason at) = to"
  by (simp add: status_after_def transition_def)

lemma status_after_None [simp]: "status_after g None = g_status g"
  by (simp add: status_after_def)

lemma evaluate_grant_decides:
  "status_after g (evaluate_grant ulid g p r now trig) = decided_status g p r now trig"
proof (cases "open_status (g_status g) \<and> \<not> g_valid_until g \<le> now")
  case False
  then show ?thesis
    by (auto simp: evaluate_grant_def decided_status_def open_status_def)
next
  case True
  then show ?thesis
    by (cases trig)
      (auto simp: evaluate_grant_def evaluate_hr_def decided_status_def open_status_def
        employment_is_active_def Let_def)
qed

subsection \<open>The contract of the bulk operations\<close>

lemma sweep_loop_eq:
  "sweep_loop test target gs n =
     (map (\<lambda>g. if test g then g\<lparr>g_status := target\<rparr> else g) gs, n + length (filter test gs))"
  by (induction gs arbitrary: n) auto

lemma sweep_eq:
  "sweep test target reg =
     (reg\<lparr>pr_grants := map (\<lambda>g. if test g then g\<lparr>g_status := target\<rparr> else g) (pr_grants reg)\<rparr>,
      length (filter test (pr_grants reg)))"
  by (simp add: sweep_def sweep_loop_eq)

text \<open>
  A bulk operation with arguments \<open>'a\<close>: it sets the status of exactly the grants its test
  selects, the test reads the status, and no grant it has set is selected again.
\<close>

locale grant_sweep =
  fixes test :: "'a \<Rightarrow> permission_grant \<Rightarrow> bool"
    and target :: grant_status
    and operation :: "'a \<Rightarrow> permission_registry \<Rightarrow> permission_registry \<times> nat"
  assumes grants_after: "pr_grants (fst (operation a reg)) =
      map (\<lambda>g. if test a g then g\<lparr>g_status := target\<rparr> else g) (pr_grants reg)"
    and applications_kept: "pr_applications (fst (operation a reg)) = pr_applications reg"
    and count_before: "snd (operation a reg) = length (filter (test a) (pr_grants reg))"
    and selects_open: "test a g \<Longrightarrow> open_status (g_status g)"
    and settled: "\<not> test a (g\<lparr>g_status := target\<rparr>)"
begin

lemma none_selected_after: "\<forall>g \<in> set (pr_grants (fst (operation a reg))). \<not> test a g"
  by (auto simp: grants_after settled)

lemma count_after: "snd (operation a (fst (operation a reg))) = 0"
  using none_selected_after [of a reg] by (simp add: count_before filter_empty_conv)

lemma idempotent: "pr_grants (fst (operation a (fst (operation a reg)))) = pr_grants (fst (operation a reg))"
  using none_selected_after [of a reg] by (simp add: grants_after [of a "fst (operation a reg)"] map_idI)

lemma length_kept: "length (pr_grants (fst (operation a reg))) = length (pr_grants reg)"
  by (simp add: grants_after)

lemma ids_kept: "map g_grant_id (pr_grants (fst (operation a reg))) = map g_grant_id (pr_grants reg)"
  by (simp add: grants_after)

lemma closed_kept:
  assumes "i < length (pr_grants reg)" and "\<not> open_status (g_status (pr_grants reg ! i))"
  shows "pr_grants (fst (operation a reg)) ! i = pr_grants reg ! i"
  using assms selects_open by (auto simp: grants_after)

lemma selected_set:
  assumes "i < length (pr_grants reg)"
  shows "g_status (pr_grants (fst (operation a reg)) ! i) =
    (if test a (pr_grants reg ! i) then target else g_status (pr_grants reg ! i))"
  using assms by (simp add: grants_after)

lemma selected_count:
  "length (filter (\<lambda>g. g_status g = target) (pr_grants (fst (operation a reg)))) =
     length (filter (\<lambda>g. g_status g = target \<and> \<not> test a g) (pr_grants reg)) + snd (operation a reg)"
proof -
  have "length (filter (\<lambda>g. g_status g = target)
          (map (\<lambda>g. if test a g then g\<lparr>g_status := target\<rparr> else g) gs))
      = length (filter (\<lambda>g. g_status g = target \<and> \<not> test a g) gs) + length (filter (test a) gs)" for gs
    by (induction gs) auto
  then show ?thesis by (simp add: grants_after count_before)
qed

end

definition user_scope :: "string \<times> string option \<Rightarrow> permission_grant \<Rightarrow> bool" where
  "user_scope a g = (g_applicant_user_id g = fst a \<and> is_none_or (\<lambda>p. g_project_id g = p) (snd a)
     \<and> g_status g = GsActive)"

interpretation revoke_user: grant_sweep user_scope GsRevoked
  "\<lambda>a reg. revoke_grants_for_user reg (fst a) (snd a)"
  by unfold_locales (auto simp: revoke_grants_for_user_def sweep_eq user_scope_def [abs_def] open_status_def)

interpretation suspend_user: grant_sweep user_scope GsSuspended
  "\<lambda>a reg. suspend_grants_for_user reg (fst a) (snd a)"
  by unfold_locales (auto simp: suspend_grants_for_user_def sweep_eq user_scope_def [abs_def] open_status_def)

interpretation suspend_project: grant_sweep
  "\<lambda>project g. g_project_id g = project \<and> g_status g = GsActive" GsSuspended
  "\<lambda>project reg. suspend_grants_for_project reg project"
  by unfold_locales (auto simp: suspend_grants_for_project_def sweep_eq open_status_def)

interpretation resume_project: grant_sweep
  "\<lambda>project g. g_project_id g = project \<and> g_status g = GsSuspended" GsActive
  "\<lambda>project reg. resume_grants_for_project reg project"
  by unfold_locales (auto simp: resume_grants_for_project_def sweep_eq open_status_def)

interpretation expire: grant_sweep
  "\<lambda>now g. g_status g = GsActive \<and> g_valid_until g \<le> now" GsExpired
  "\<lambda>now reg. expire_grants reg now"
  by unfold_locales (auto simp: expire_grants_def sweep_eq open_status_def)

interpretation revoke_project: grant_sweep
  "\<lambda>project g. g_project_id g = project \<and> (g_status g = GsActive \<or> g_status g = GsSuspended)"
  GsRevoked "\<lambda>project reg. revoke_grants_for_project reg project"
  by unfold_locales (auto simp: revoke_grants_for_project_def sweep_eq open_status_def)

subsection \<open>Runs of the registry\<close>

text \<open>
  One step is one call of a registry operation; a lifecycle transition is applied only when
  the scheduler issued it for a grant of the registry, for whatever profile, rule, time and
  trigger it was given.
\<close>

inductive registry_step :: "permission_registry \<Rightarrow> permission_registry \<Rightarrow> bool" where
  step_submit:
    "registry_step reg (fst (submit_application ulid reg user project source fs))"
| step_restore: "registry_step reg (restore_application reg a)"
| step_register: "registry_step reg (register_grant reg g)"
| step_transition:
    "g \<in> set (pr_grants reg) \<Longrightarrow> evaluate_grant ulid g p r now trig = Some t \<Longrightarrow>
     registry_step reg (fst (apply_lifecycle_transition reg t))"
| step_activate: "registry_step reg (fst (activate_application ulid now1 now2 reg aid fs cs))"
| step_activate_with: "registry_step reg (fst (activate_application_with_grant reg aid g inst))"
| step_revoke_user: "registry_step reg (fst (revoke_grants_for_user reg user project))"
| step_suspend_user: "registry_step reg (fst (suspend_grants_for_user reg user project))"
| step_suspend_project: "registry_step reg (fst (suspend_grants_for_project reg project))"
| step_resume_project: "registry_step reg (fst (resume_grants_for_project reg project))"
| step_expire: "registry_step reg (fst (expire_grants reg now))"
| step_revoke_project: "registry_step reg (fst (revoke_grants_for_project reg project))"

inductive registry_run :: "permission_registry \<Rightarrow> permission_registry \<Rightarrow> bool" where
  run_refl: "registry_run reg reg"
| run_step: "registry_run reg reg' \<Longrightarrow> registry_step reg' reg'' \<Longrightarrow> registry_run reg reg''"

text \<open>What no step changes: closed grants at their place, and everything but the status.\<close>

definition grant_identity :: "permission_grant \<Rightarrow> permission_grant" where
  "grant_identity g = g\<lparr>g_status := GsPending\<rparr>"

definition grants_evolve :: "permission_registry \<Rightarrow> permission_registry \<Rightarrow> bool" where
  "grants_evolve reg reg' =
     (\<forall>i < length (pr_grants reg).
        i < length (pr_grants reg')
        \<and> grant_identity (pr_grants reg' ! i) = grant_identity (pr_grants reg ! i)
        \<and> (\<not> open_status (g_status (pr_grants reg ! i)) \<longrightarrow> pr_grants reg' ! i = pr_grants reg ! i))"

lemma grants_evolve_refl [simp]: "grants_evolve reg reg"
  by (simp add: grants_evolve_def)

lemma grants_evolve_trans:
  "grants_evolve a b \<Longrightarrow> grants_evolve b c \<Longrightarrow> grants_evolve a c"
  unfolding grants_evolve_def by metis

lemma grants_evolve_append:
  "pr_grants reg' = pr_grants reg @ gs \<Longrightarrow> grants_evolve reg reg'"
  by (simp add: grants_evolve_def nth_append)

lemma grants_evolve_map:
  assumes "pr_grants reg' = map (\<lambda>g. if test g then g\<lparr>g_status := target\<rparr> else g) (pr_grants reg)"
    and "\<And>g. test g \<Longrightarrow> open_status (g_status g)"
  shows "grants_evolve reg reg'"
  using assms by (auto simp: grants_evolve_def grant_identity_def)

lemma update_first_nth:
  assumes "i < length xs"
  shows "update_first p f xs ! i = xs ! i
    \<or> (find p xs = Some (xs ! i) \<and> update_first p f xs ! i = f (xs ! i))"
  using assms
proof (induction xs arbitrary: i)
  case (Cons x xs)
  then show ?case by (cases i) auto
qed simp

lemma apply_transition_evolves:
  assumes "open_status (lt_from_status t)"
  shows "grants_evolve reg (fst (apply_lifecycle_transition reg t))"
proof (cases "find (\<lambda>g. g_grant_id g = lt_grant_id t) (pr_grants reg)")
  case None
  then show ?thesis by (simp add: apply_lifecycle_transition_def)
next
  case (Some g)
  show ?thesis
  proof (cases "g_status g = lt_from_status t")
    case False
    with Some show ?thesis by (simp add: apply_lifecycle_transition_def)
  next
    case True
    let ?p = "\<lambda>g. g_grant_id g = lt_grant_id t" and ?f = "\<lambda>g. g\<lparr>g_status := lt_to_status t\<rparr>"
    have "pr_grants (fst (apply_lifecycle_transition reg t)) = update_first ?p ?f (pr_grants reg)"
      using Some True by (simp add: apply_lifecycle_transition_def)
    then show ?thesis
      using update_first_nth [of _ "pr_grants reg" ?p ?f] Some True assms
      by (fastforce simp: grants_evolve_def grant_identity_def)
  qed
qed

lemma registry_step_evolves: "registry_step reg reg' \<Longrightarrow> grants_evolve reg reg'"
proof (induction rule: registry_step.induct)
  case (step_transition g reg ulid p r now trig t)
  then show ?case
    using evaluate_grant_Some_basic [OF step_transition(2)]
    by (intro apply_transition_evolves) simp
next
  case (step_activate reg ulid now1 now2 aid fs cs)
  show ?case
    by (cases "map_of (pr_applications reg) aid")
      (auto simp: activate_application_def Let_def intro: grants_evolve_append)
next
  case (step_activate_with reg aid g inst)
  show ?case
    by (cases "map_of (pr_applications reg) aid")
      (auto simp: activate_application_with_grant_def intro: grants_evolve_append)
next
  case (step_revoke_user reg user project)
  show ?case
    by (rule grants_evolve_map [OF revoke_user.grants_after
          [where a = "(user, project)" and reg = reg, unfolded fst_conv snd_conv]
          revoke_user.selects_open])
next
  case (step_suspend_user reg user project)
  show ?case
    by (rule grants_evolve_map [OF suspend_user.grants_after
          [where a = "(user, project)" and reg = reg, unfolded fst_conv snd_conv]
          suspend_user.selects_open])
next
  case (step_suspend_project reg project)
  show ?case
    by (rule grants_evolve_map [OF suspend_project.grants_after suspend_project.selects_open])
next
  case (step_resume_project reg project)
  show ?case
    by (rule grants_evolve_map [OF resume_project.grants_after resume_project.selects_open])
next
  case (step_expire reg now)
  show ?case
    by (rule grants_evolve_map [OF expire.grants_after expire.selects_open])
next
  case (step_revoke_project reg project)
  show ?case
    by (rule grants_evolve_map [OF revoke_project.grants_after revoke_project.selects_open])
qed (auto simp: submit_application_def restore_application_def register_grant_def Let_def
    intro: grants_evolve_append)

lemma registry_run_evolves: "registry_run reg reg' \<Longrightarrow> grants_evolve reg reg'"
  by (induction rule: registry_run.induct) (auto intro: grants_evolve_trans registry_step_evolves)

subsection \<open>Properties\<close>

text \<open>
  The scheduler's decision table.  For every grant, profile, rule, time and trigger, the
  status the scheduler's answer leads to is the one of \<open>decided_status\<close>: expiry first, then
  audit and project triggers, then the HR checks; and closed grants are left alone.
\<close>

lemma scheduler_decision_table:
  "status_after g (evaluate_grant ulid g p r now trig) = decided_status g p r now trig"
  by (rule evaluate_grant_decides)

text \<open>
  What it takes to become active again.  When the scheduler moves a grant to active, the
  grant was suspended and not yet expired, the trigger was the clearance of the audit or the
  resumption of the project, the organisational binding still matches and the eligibility
  rule admits the applicant.
\<close>

lemma scheduler_reactivation_conditions:
  assumes "evaluate_grant ulid g p r now trig = Some t" and "lt_to_status t = GsActive"
  shows "g_status g = GsSuspended \<and> now < g_valid_until g \<and> trig \<in> {AuditCleared, ProjectResumed} \<and>
    org_binding_matches g p \<and> ed_eligible (rule_evaluate r p)"
  using assms
  by (auto simp: evaluate_grant_def evaluate_hr_def transition_Some Let_def
      split: if_splits lifecycle_trigger.splits)

definition sample_profile :: applicant_profile where
  "sample_profile = \<lparr>ap_user_id = ''user-a'', ap_department_id = Some ''dept-default'',
     ap_manager_id = None, ap_roles = [], ap_employment = EsActive\<rparr>"

lemma scheduler_reactivation_conditions_witness:
  "ed_eligible (rule_evaluate (active_hr_only ''project-alpha'') sample_profile)"
proof -
  let ?g = "(sample_grant ''g1'' 0 [] [])\<lparr>g_status := GsSuspended\<rparr>"
  obtain t where "evaluate_grant ''t1'' ?g sample_profile (active_hr_only ''project-alpha'') 1 AuditCleared
      = Some t" and "lt_to_status t = GsActive"
    by (simp add: evaluate_grant_def sample_simps hours_ns_def org_binding_matches_def
        sample_profile_def rule_evaluate_def active_hr_only_def employment_is_active_def
        transition_def)
  from scheduler_reactivation_conditions [OF this] show ?thesis by simp
qed

text \<open>
  C32. Closed grants are final, and a grant keeps its identity.  Over any sequence of registry
  operations, a grant that is expired, revoked or denied stays at its place unchanged, and no
  operation changes anything of a grant but its status.
\<close>

theorem closed_grants_final:
  assumes "registry_run reg reg'" and "i < length (pr_grants reg)"
  shows "i < length (pr_grants reg') \<and>
    (pr_grants reg' ! i)\<lparr>g_status := GsPending\<rparr> = (pr_grants reg ! i)\<lparr>g_status := GsPending\<rparr> \<and>
    (g_status (pr_grants reg ! i) \<notin> {GsActive, GsSuspended} \<longrightarrow>
       pr_grants reg' ! i = pr_grants reg ! i)"
  using registry_run_evolves [OF assms(1)] assms(2)
  by (auto simp: grants_evolve_def grant_identity_def open_status_def)

lemma closed_grants_final_witness:
  "pr_grants (fst (resume_grants_for_project
      (register_grant registry_default ((sample_grant ''g1'' 0 [] [])\<lparr>g_status := GsRevoked\<rparr>))
      ''project-alpha'')) ! 0 = (sample_grant ''g1'' 0 [] [])\<lparr>g_status := GsRevoked\<rparr>"
proof -
  let ?g = "(sample_grant ''g1'' 0 [] [])\<lparr>g_status := GsRevoked\<rparr>"
  let ?reg = "register_grant registry_default ?g"
  have "registry_run ?reg (fst (resume_grants_for_project ?reg ''project-alpha''))"
    by (rule run_step [OF run_refl step_resume_project])
  from closed_grants_final [OF this, of 0] show ?thesis
    by (simp add: register_grant_def registry_default_def)
qed

text \<open>
  Closing a project leaves nothing open.  After \<open>revoke_grants_for_project\<close> no grant of
  the project is active or suspended, the grants of other projects are untouched, the number
  returned is the number of grants it closed, and a second call closes none.
\<close>

lemma project_revocation_complete:
  "(\<forall>g \<in> set (pr_grants (fst (revoke_grants_for_project reg project))).
      g_project_id g = project \<longrightarrow> g_status g \<notin> {GsActive, GsSuspended})
   \<and> filter (\<lambda>g. g_project_id g \<noteq> project) (pr_grants (fst (revoke_grants_for_project reg project)))
       = filter (\<lambda>g. g_project_id g \<noteq> project) (pr_grants reg)
   \<and> snd (revoke_grants_for_project reg project)
       = length (filter (\<lambda>g. g_project_id g = project) (lifecycle_grants reg))
   \<and> snd (revoke_grants_for_project (fst (revoke_grants_for_project reg project)) project) = 0"
proof (intro conjI)
  show "\<forall>g \<in> set (pr_grants (fst (revoke_grants_for_project reg project))).
      g_project_id g = project \<longrightarrow> g_status g \<notin> {GsActive, GsSuspended}"
    using revoke_project.none_selected_after [where a = project and reg = reg] by auto
  have "filter (\<lambda>g. g_project_id g \<noteq> project) (map (\<lambda>g. if g_project_id g = project \<and>
          (g_status g = GsActive \<or> g_status g = GsSuspended) then g\<lparr>g_status := GsRevoked\<rparr> else g) gs)
      = filter (\<lambda>g. g_project_id g \<noteq> project) gs" for gs
    by (induction gs) auto
  then show "filter (\<lambda>g. g_project_id g \<noteq> project)
        (pr_grants (fst (revoke_grants_for_project reg project)))
       = filter (\<lambda>g. g_project_id g \<noteq> project) (pr_grants reg)"
    unfolding revoke_project.grants_after .
  show "snd (revoke_grants_for_project reg project)
       = length (filter (\<lambda>g. g_project_id g = project) (lifecycle_grants reg))"
    by (simp add: revoke_project.count_before lifecycle_grants_def conj_commute)
  show "snd (revoke_grants_for_project (fst (revoke_grants_for_project reg project)) project) = 0"
    by (rule revoke_project.count_after)
qed

lemma project_revocation_complete_witness:
  "map g_status (pr_grants (fst (revoke_grants_for_project
     (register_grant registry_default (sample_grant ''g1'' 0 [] [])) ''project-alpha'')))
     = [GsRevoked]
   \<and> snd (revoke_grants_for_project
     (register_grant registry_default (sample_grant ''g1'' 0 [] [])) ''project-alpha'') = 1"
  using project_revocation_complete
    [of "register_grant registry_default (sample_grant ''g1'' 0 [] [])" "''project-alpha''"]
  by (simp add: revoke_project.grants_after register_grant_def registry_default_def sample_simps
      lifecycle_grants_def)

text \<open>
  Resuming a project forgets why a grant was suspended.  A grant suspended because of an
  audit anomaly, for an applicant whose active grants were then revoked on departure, is
  active again after \<open>resume_grants_for_project\<close>: revocation by user skips suspended grants,
  and the resumption asks neither for the audit's clearance nor for eligibility.
\<close>

lemma project_resume_reactivates_audited_grant:
  assumes "g \<in> set (pr_grants reg)" and "g_status g = GsSuspended"
    and "reg1 = fst (revoke_grants_for_user reg (g_applicant_user_id g) None)"
    and "reg2 = fst (resume_grants_for_project reg1 (g_project_id g))"
  shows "g\<lparr>g_status := GsActive\<rparr> \<in> set (pr_grants reg2)"
proof -
  have "g \<in> set (pr_grants reg1)"
    using assms(1,2) revoke_user.grants_after [where a = "(g_applicant_user_id g, None)" and reg = reg]
    by (auto simp: assms(3) user_scope_def image_iff)
  then show ?thesis
    using assms(2) by (auto simp: assms(4) resume_project.grants_after image_iff)
qed

lemma project_resume_reactivates_audited_grant_witness:
  "sample_grant ''g1'' 0 [] [] \<in> set (pr_grants (fst (resume_grants_for_project
      (fst (revoke_grants_for_user
         (register_grant registry_default ((sample_grant ''g1'' 0 [] [])\<lparr>g_status := GsSuspended\<rparr>))
         ''user-a'' None)) ''project-alpha'')))"
  using project_resume_reactivates_audited_grant
    [where g = "(sample_grant ''g1'' 0 [] [])\<lparr>g_status := GsSuspended\<rparr>"
      and reg = "register_grant registry_default ((sample_grant ''g1'' 0 [] [])\<lparr>g_status := GsSuspended\<rparr>)",
      OF _ _ refl refl]
  by (simp add: register_grant_def registry_default_def sample_simps)

end
