(* ===== verification/StateMachines.thy ===== *)
theory StateMachines
  imports SdqpPrelude
begin

text \<open>
  The contract shared by the components that guard a lifecycle with a table of allowed
  transitions: a move to an allowed state succeeds and lands there, any other move is an
  error and leaves the state as it was.  A phase that no allowed move lowers makes the late
  phases absorbing.  The components interpret the locales on their own transition functions.
\<close>

fun moves :: "('s \<Rightarrow> 's \<Rightarrow> 'e + 's) \<Rightarrow> 's \<Rightarrow> 's list \<Rightarrow> 's" where
  "moves move s [] = s"
| "moves move s (t # ts) =
     (case move s t of Inl e \<Rightarrow> moves move s ts | Inr s' \<Rightarrow> moves move s' ts)"

locale guarded_machine =
  fixes allowed :: "'s \<Rightarrow> 's \<Rightarrow> bool"
    and move :: "'s \<Rightarrow> 's \<Rightarrow> 'e + 's"
  assumes move_allowed: "allowed s t \<Longrightarrow> move s t = Inr t"
    and move_refused: "\<not> allowed s t \<Longrightarrow> \<exists>e. move s t = Inl e"
begin

lemma move_Inr_iff: "move s t = Inr u \<longleftrightarrow> allowed s t \<and> u = t"
  using move_allowed move_refused by (metis Inl_Inr_False sum.inject(2))

lemma moves_Cons: "moves move s (t # ts) = moves move (if allowed s t then t else s) ts"
  using move_allowed [of s t] move_refused [of s t] by (auto split: sum.splits)

lemma moves_reachable: "allowed\<^sup>*\<^sup>* s (moves move s ts)"
proof (induction ts arbitrary: s)
  case (Cons t ts)
  show ?case
  proof (cases "allowed s t")
    case True
    from this Cons.IH [of t] have "allowed\<^sup>*\<^sup>* s (moves move t ts)"
      by (rule converse_rtranclp_into_rtranclp)
    with True show ?thesis by (simp only: moves_Cons if_True)
  next
    case False
    with Cons.IH [of s] show ?thesis by (simp only: moves_Cons if_False)
  qed
qed simp

lemma reachable_by_moves: "allowed\<^sup>*\<^sup>* s t \<Longrightarrow> \<exists>ts. moves move s ts = t"
proof (induction rule: converse_rtranclp_induct)
  case base
  have "moves move t [] = t" by simp
  then show ?case ..
next
  case (step s u)
  then obtain ts where "moves move u ts = t" by blast
  with step(1) have "moves move s (u # ts) = t" by (simp only: moves_Cons if_True)
  then show ?case ..
qed

end

locale phased_machine = guarded_machine +
  fixes phase :: "'s \<Rightarrow> nat"
  assumes phase_mono: "allowed s t \<Longrightarrow> phase s \<le> phase t"
begin

lemma moves_phase: "phase s \<le> phase (moves move s ts)"
proof (induction ts arbitrary: s)
  case (Cons t ts)
  have "phase s \<le> phase (if allowed s t then t else s)"
    using phase_mono by simp
  also have "\<dots> \<le> phase (moves move (if allowed s t then t else s) ts)"
    by (rule Cons.IH)
  finally show ?case by (simp only: moves_Cons)
qed simp

lemma last_phase_absorbs:
  assumes "\<And>t. phase s \<le> phase t \<Longrightarrow> allowed s t \<Longrightarrow> t = s"
  shows "moves move s ts = s"
proof (induction ts)
  case (Cons t ts)
  have "(if allowed s t then t else s) = s"
    using assms [of t] phase_mono [of s t] by auto
  with Cons show ?case by (simp only: moves_Cons)
qed simp

end

end
