(* ===== verification/TenantIsolation.thy ===== *)
theory TenantIsolation
  imports CoreModel StateMachines
begin

text \<open>
  Crate \<open>sdqp-tenant-isolation\<close>: project and tenant contexts with their object-store
  namespace (\<open>context.rs\<close>), the request guard (\<open>guard.rs\<close>) and the project lifecycle
  (\<open>lifecycle.rs\<close>).  Namespaces of different projects are disjoint for identifiers without a
  slash; the guard admits exactly the requests scoped to a live project; the lifecycle is a
  phased machine in which deletion is final.
\<close>

subsection \<open>The project lifecycle\<close>

datatype project_state = PsCreated | PsActive | PsFrozen | PsArchived | PsDeleted

definition can_accept_new_permissions :: "project_state \<Rightarrow> bool" where
  "can_accept_new_permissions s = (s = PsCreated \<or> s = PsActive)"

definition can_export :: "project_state \<Rightarrow> bool" where
  "can_export s = (s = PsActive)"

definition is_read_only :: "project_state \<Rightarrow> bool" where
  "is_read_only s = (s = PsFrozen)"

definition is_externally_visible :: "project_state \<Rightarrow> bool" where
  "is_externally_visible s = (s \<noteq> PsDeleted)"

datatype lifecycle_error = InvalidTransition project_state project_state

fun project_transition_allowed :: "project_state \<Rightarrow> project_state \<Rightarrow> bool" where
  "project_transition_allowed PsCreated PsActive = True"
| "project_transition_allowed PsCreated PsDeleted = True"
| "project_transition_allowed PsActive PsFrozen = True"
| "project_transition_allowed PsActive PsArchived = True"
| "project_transition_allowed PsActive PsDeleted = True"
| "project_transition_allowed PsFrozen PsActive = True"
| "project_transition_allowed PsFrozen PsArchived = True"
| "project_transition_allowed PsFrozen PsDeleted = True"
| "project_transition_allowed PsArchived PsDeleted = True"
| "project_transition_allowed current target = (current = target)"

text \<open>\<open>ProjectLifecycle\<close> is its state; \<open>transition_to\<close> returns the new state or the error.\<close>

definition transition_to :: "project_state \<Rightarrow> project_state \<Rightarrow> lifecycle_error + project_state" where
  "transition_to s next' =
     (if \<not> project_transition_allowed s next' then Inl (InvalidTransition s next') else Inr next')"

fun project_phase :: "project_state \<Rightarrow> nat" where
  "project_phase PsCreated = 0"
| "project_phase PsActive = 1"
| "project_phase PsFrozen = 1"
| "project_phase PsArchived = 2"
| "project_phase PsDeleted = 3"

interpretation project_machine: phased_machine project_transition_allowed transition_to project_phase
proof unfold_locales
  fix s t
  show "project_transition_allowed s t \<Longrightarrow> project_phase s \<le> project_phase t"
    by (cases s; cases t; simp)
qed (auto simp: transition_to_def)

subsection \<open>Namespaces and project contexts\<close>

record object_namespace =
  ns_object_bucket :: string
  ns_key_prefix :: string

definition namespace_for_project :: "string \<Rightarrow> tenant_id \<Rightarrow> project_id \<Rightarrow> object_namespace" where
  "namespace_for_project bucket t p =
     \<lparr>ns_object_bucket = bucket,
      ns_key_prefix = ''snapshots/'' @ tenant_str t @ ''/'' @ project_str p @ ''/''\<rparr>"

definition contains_key :: "object_namespace \<Rightarrow> string \<Rightarrow> string \<Rightarrow> bool" where
  "contains_key ns bucket key = (ns_object_bucket ns = bucket \<and> starts_with key (ns_key_prefix ns))"

record project_context =
  pc_tenant_id :: tenant_id
  pc_project_id :: project_id
  pc_state :: project_state
  pc_object_namespace :: object_namespace
  pc_created_by_user_id :: "string option"
  pc_deletion_reason :: "string option"

definition project_new_with_namespace ::
  "tenant_id \<Rightarrow> project_id \<Rightarrow> project_state \<Rightarrow> object_namespace \<Rightarrow> project_context" where
  "project_new_with_namespace t p st ns =
     \<lparr>pc_tenant_id = t, pc_project_id = p, pc_state = st, pc_object_namespace = ns,
      pc_created_by_user_id = None, pc_deletion_reason = None\<rparr>"

definition project_new :: "tenant_id \<Rightarrow> project_id \<Rightarrow> project_state \<Rightarrow> project_context" where
  "project_new t p st =
     project_new_with_namespace t p st (namespace_for_project ''sdqp-snapshots'' t p)"

definition with_object_bucket :: "project_context \<Rightarrow> string \<Rightarrow> project_context" where
  "with_object_bucket c bucket =
     c\<lparr>pc_object_namespace := namespace_for_project bucket (pc_tenant_id c) (pc_project_id c)\<rparr>"

definition with_created_by :: "project_context \<Rightarrow> string \<Rightarrow> project_context" where
  "with_created_by c u = c\<lparr>pc_created_by_user_id := Some u\<rparr>"

definition mark_deleted :: "project_context \<Rightarrow> string \<Rightarrow> project_context" where
  "mark_deleted c reason = c\<lparr>pc_state := PsDeleted, pc_deletion_reason := Some reason\<rparr>"

definition owns_object_key :: "project_context \<Rightarrow> string \<Rightarrow> string \<Rightarrow> bool" where
  "owns_object_key c bucket key = contains_key (pc_object_namespace c) bucket key"

definition matches_request :: "project_context \<Rightarrow> request_context \<Rightarrow> bool" where
  "matches_request c r =
     (rc_tenant_id r = pc_tenant_id c
      \<and> (case rc_project_id r of Some p \<Rightarrow> p = pc_project_id c | None \<Rightarrow> False))"

subsection \<open>The request guard\<close>

datatype isolation_error = ProjectInvisible | ScopeMismatch | ProjectUnavailable

definition assert_request_in_project ::
  "request_context \<Rightarrow> project_context \<Rightarrow> isolation_error + unit" where
  "assert_request_in_project r c =
     (if rc_tenant_id r \<noteq> pc_tenant_id c then Inl ProjectInvisible
      else if (case rc_project_id r of Some p \<Rightarrow> p \<noteq> pc_project_id c | None \<Rightarrow> True)
        then Inl ScopeMismatch
      else if pc_state c = PsArchived \<or> pc_state c = PsDeleted then Inl ProjectUnavailable
      else Inr ())"

lemma assert_request_Inr:
  "assert_request_in_project r c = Inr () \<longleftrightarrow>
     matches_request c r \<and> pc_state c \<noteq> PsArchived \<and> pc_state c \<noteq> PsDeleted"
  by (auto simp: assert_request_in_project_def matches_request_def split: option.splits)

subsection \<open>Disjoint namespaces\<close>

definition slash_free_project :: "tenant_id \<Rightarrow> project_id \<Rightarrow> bool" where
  "slash_free_project t p = (CHR ''/'' \<notin> set (tenant_str t) \<and> CHR ''/'' \<notin> set (project_str p))"

lemma namespace_prefix_inj:
  assumes key: "starts_with key (ns_key_prefix (namespace_for_project b t p))"
      "starts_with key (ns_key_prefix (namespace_for_project b' t' p'))"
    and free: "slash_free_project t p" "slash_free_project t' p'"
  shows "t = t' \<and> p = p'"
proof -
  obtain r where r: "key = ''snapshots/'' @ tenant_str t @ ''/'' @ project_str p @ ''/'' @ r"
    using key(1) by (auto simp: starts_with_iff namespace_for_project_def)
  obtain r' where r': "key = ''snapshots/'' @ tenant_str t' @ ''/'' @ project_str p' @ ''/'' @ r'"
    using key(2) by (auto simp: starts_with_iff namespace_for_project_def)
  from r r'
 have "tenant_str t @ CHR ''/'' # project_str p @ CHR ''/'' # r
      = tenant_str t' @ CHR ''/'' # project_str p' @ CHR ''/'' # r'"
    by simp
  then have "tenant_str t = tenant_str t'"
    and "project_str p @ CHR ''/'' # r = project_str p' @ CHR ''/'' # r'"
    using free append_sep_inj [of "CHR ''/''" "tenant_str t" "tenant_str t'"]
    by (auto simp: slash_free_project_def)
  then have "project_str p = project_str p'"
    using free append_sep_inj [of "CHR ''/''" "project_str p" "project_str p'"]
    by (auto simp: slash_free_project_def)
  with \<open>tenant_str t = tenant_str t'\<close> show ?thesis
    by (simp add: tenant_id.expand project_id.expand)
qed

subsection \<open>Properties\<close>

text \<open>
  The isolation guard.  A request is admitted exactly if it names the tenant and the
  project of the context and the project is neither archived nor deleted, and the three
  refusals come in the order tenant, project, state.
\<close>

lemma isolation_guard_exact:
  "assert_request_in_project r c =
     (if rc_tenant_id r \<noteq> pc_tenant_id c then Inl ProjectInvisible
      else if rc_project_id r \<noteq> Some (pc_project_id c) then Inl ScopeMismatch
      else if pc_state c \<in> {PsArchived, PsDeleted} then Inl ProjectUnavailable
      else Inr ())"
  by (auto simp: assert_request_in_project_def split: option.splits)

text \<open>
  The project lifecycle only moves forward.  Whatever states are requested, in whatever
  order, the state reached is one the transition table reaches, its phase is not lower than
  before, and a deleted project stays deleted.
\<close>

lemma project_lifecycle_forward:
  "project_transition_allowed\<^sup>*\<^sup>* s (moves transition_to s ts)
   \<and> project_phase s \<le> project_phase (moves transition_to s ts)
   \<and> moves transition_to PsDeleted ts = PsDeleted"
proof (intro conjI)
  show "project_transition_allowed\<^sup>*\<^sup>* s (moves transition_to s ts)"
    by (rule project_machine.moves_reachable)
  show "project_phase s \<le> project_phase (moves transition_to s ts)"
    by (rule project_machine.moves_phase)
  show "moves transition_to PsDeleted ts = PsDeleted"
  proof (rule project_machine.last_phase_absorbs)
    show "project_transition_allowed PsDeleted t \<Longrightarrow> t = PsDeleted" for t
      by (cases t) simp_all
  qed
qed

text \<open>
  Namespaces of different projects are disjoint.  No object key belongs to the namespaces
  of two different projects of one bucket, when tenant and project identifiers contain no
  slash.
\<close>

lemma namespaces_disjoint:
  assumes "owns_object_key (project_new t p st) bucket key"
    and "owns_object_key (project_new t' p' st') bucket key"
    and "slash_free_project t p" and "slash_free_project t' p'"
  shows "t = t' \<and> p = p'"
  using assms
  by (intro namespace_prefix_inj [of key "''sdqp-snapshots''" t p "''sdqp-snapshots''"])
    (auto simp: owns_object_key_def contains_key_def project_new_def project_new_with_namespace_def
      namespace_for_project_def)

lemma namespaces_disjoint_witness:
  "\<not> owns_object_key (project_new (TenantId ''t'') (ProjectId ''q'') PsActive) ''sdqp-snapshots''
       ''snapshots/t/p/s1''"
proof
  assume other: "owns_object_key (project_new (TenantId ''t'') (ProjectId ''q'') PsActive)
      ''sdqp-snapshots'' ''snapshots/t/p/s1''"
  have "owns_object_key (project_new (TenantId ''t'') (ProjectId ''p'') PsActive)
      ''sdqp-snapshots'' ''snapshots/t/p/s1''"
    by (simp add: owns_object_key_def contains_key_def project_new_def
        project_new_with_namespace_def namespace_for_project_def starts_with_def)
  from namespaces_disjoint [OF this other] show False by (simp add: slash_free_project_def)
qed

end
