(* ===== verification/OrgDirectory.thy ===== *)
theory OrgDirectory
  imports RustStrings "HOL-Library.Product_Lexorder"
begin

text \<open>
  The organisation directory of crate \<open>sdqp-hr-integration\<close>: users and approver profiles,
  HR events and their idempotent application, the sync orchestrator and the event listener,
  and the routing of an approval request to an approver who is available.  The connector of
  a provider is a parameter: the snapshot it returns and the events it returns for a cursor.

  The routing loop of \<open>route_approver\<close> climbs at most \<open>max_manager_hops\<close> managers; that
  bound is its termination measure.
\<close>

subsection \<open>Users, profiles, policies and routes\<close>

datatype sync_source =
    Feishu | FeishuMock | Workday | WorkdayMock | SapSuccessFactors | SapSuccessFactorsMock
  | Ldap | LdapMock | CsvFallback

definition is_mock_adapter :: "sync_source \<Rightarrow> bool" where
  "is_mock_adapter s = (s \<in> {FeishuMock, WorkdayMock, SapSuccessFactorsMock, LdapMock})"

datatype employment_status = EmploymentActive | EmploymentDeparted

datatype approver_availability = ApproverAvailable | ApproverUnavailable

record approver_profile =
  apv_availability :: approver_availability
  apv_delegate_user_id :: "string option"

definition approver_profile_default :: approver_profile where
  "approver_profile_default = \<lparr>apv_availability = ApproverAvailable, apv_delegate_user_id = None\<rparr>"

record org_user =
  ou_user_id :: string
  ou_department_id :: string
  ou_manager_id :: "string option"
  ou_status :: employment_status
  ou_approver_profile :: "approver_profile option"

record resolution_policy =
  rp_system_fallback_user_id :: string
  rp_escalation_user_ids :: "string list"
  rp_max_manager_hops :: nat
  rp_allow_delegation :: bool

definition default_system_fallback :: string where
  "default_system_fallback = ''user-sysadmin''"

definition resolution_policy_default :: resolution_policy where
  "resolution_policy_default =
     \<lparr>rp_system_fallback_user_id = default_system_fallback, rp_escalation_user_ids = [],
      rp_max_manager_hops = 16, rp_allow_delegation = True\<rparr>"

definition policy_with_system_fallback :: "string \<Rightarrow> resolution_policy" where
  "policy_with_system_fallback u = resolution_policy_default\<lparr>rp_system_fallback_user_id := u\<rparr>"

definition policy_normalized :: "resolution_policy \<Rightarrow> resolution_policy" where
  "policy_normalized p =
     (let fb = trim (rp_system_fallback_user_id p) in
      p\<lparr>rp_system_fallback_user_id := (if fb = [] then default_system_fallback else fb),
        rp_escalation_user_ids :=
          filter (\<lambda>u. u \<noteq> []) (map trim (rp_escalation_user_ids p))\<rparr>)"

datatype route_kind =
    RouteDirect | RouteDelegated | RouteEscalatedToManager | RouteEscalatedToConfiguredTarget
  | RouteSystemFallback

record approver_route =
  ar_requested_user_id :: string
  ar_resolved_user_id :: string
  ar_route_kind :: route_kind
  ar_delegated_from :: "string option"
  ar_escalation_target :: "string option"
  ar_used_system_fallback :: bool
  ar_traversed_user_ids :: "string list"
  ar_unavailable_user_ids :: "string list"

datatype hr_error =
    UserNotFound string
  | InvalidCsvRow string
  | InvalidProviderConfig string
  | InvalidProviderResponse string

subsection \<open>Events\<close>

datatype hr_event_type = Onboard | Transfer | Departure | ManagerChange

record hr_event =
  he_event_id :: string
  he_user_id :: string
  he_event_type :: hr_event_type
  he_department_id :: "string option"
  he_manager_id :: "string option"
  he_approver_profile :: "approver_profile option"
  he_occurred_at :: time

datatype revocation_reason = RevokeTransfer | RevokeDeparture

record revocation_command =
  rv_user_id :: string
  rv_project_id :: "string option"
  rv_reason :: revocation_reason

subsection \<open>The directory and its queries\<close>

record org_directory =
  od_users :: "(string \<times> org_user) list"
  od_approver_profiles :: "(string \<times> approver_profile) list"
  od_processed_events :: "string set"

definition directory_default :: org_directory where
  "directory_default = \<lparr>od_users = [], od_approver_profiles = [], od_processed_events = {}\<rparr>"

definition get_user :: "org_directory \<Rightarrow> string \<Rightarrow> org_user option" where
  "get_user d u = map_of (od_users d) u"

definition approver_profile_of :: "org_directory \<Rightarrow> string \<Rightarrow> approver_profile option" where
  "approver_profile_of d u = map_of (od_approver_profiles d) u"

definition has_processed_event :: "org_directory \<Rightarrow> string \<Rightarrow> bool" where
  "has_processed_event d e = (e \<in> od_processed_events d)"

definition current_profile_for_user :: "org_directory \<Rightarrow> string \<Rightarrow> approver_profile" where
  "current_profile_for_user d u =
     (case approver_profile_of d u of
        Some p \<Rightarrow> p
      | None \<Rightarrow>
          (case get_user d u of
             Some usr \<Rightarrow> (case ou_approver_profile usr of Some p \<Rightarrow> p
                          | None \<Rightarrow> approver_profile_default)
           | None \<Rightarrow> approver_profile_default))"

definition is_approver_available :: "org_directory \<Rightarrow> string \<Rightarrow> bool" where
  "is_approver_available d u =
     (case get_user d u of
        None \<Rightarrow> False
      | Some usr \<Rightarrow>
          if ou_status usr \<noteq> EmploymentActive then False
          else apv_availability (current_profile_for_user d u) = ApproverAvailable)"

definition resolve_manager :: "org_directory \<Rightarrow> string \<Rightarrow> hr_error + string" where
  "resolve_manager d u =
     (case get_user d u of
        None \<Rightarrow> Inl (UserNotFound u)
      | Some usr \<Rightarrow> res_of_option (UserNotFound (''manager:'' @ u)) (ou_manager_id usr))"

subsection \<open>Updates\<close>

definition sync_profile_for_user ::
  "org_directory \<Rightarrow> string \<Rightarrow> approver_profile option \<Rightarrow> org_directory" where
  "sync_profile_for_user d u explicit =
     (let p = (case explicit of Some p \<Rightarrow> p | None \<Rightarrow> current_profile_for_user d u);
          d1 = d\<lparr>od_approver_profiles := AList.update u p (od_approver_profiles d)\<rparr> in
      case get_user d1 u of
        None \<Rightarrow> d1
      | Some usr \<Rightarrow>
          d1\<lparr>od_users := AList.update u (usr\<lparr>ou_approver_profile := Some p\<rparr>) (od_users d1)\<rparr>)"

definition put_user :: "org_directory \<Rightarrow> string \<Rightarrow> org_user \<Rightarrow> org_directory" where
  "put_user d u usr = d\<lparr>od_users := AList.update u usr (od_users d)\<rparr>"

fun sync_users :: "org_directory \<Rightarrow> org_user list \<Rightarrow> org_directory" where
  "sync_users d [] = d"
| "sync_users d (usr # us) =
     sync_users (sync_profile_for_user (put_user d (ou_user_id usr) usr) (ou_user_id usr)
                   (ou_approver_profile usr)) us"

definition sync_snapshot ::
  "org_directory \<Rightarrow> sync_source \<Rightarrow> org_user list \<Rightarrow> org_directory \<times> nat" where
  "sync_snapshot d src us = (let d' = sync_users d us in (d', length (od_users d')))"

definition set_approver_availability ::
  "org_directory \<Rightarrow> string \<Rightarrow> approver_availability \<Rightarrow> org_directory \<times> (hr_error + unit)" where
  "set_approver_availability d u a =
     (if get_user d u = None then (d, Inl (UserNotFound u))
      else let p = (current_profile_for_user d u)\<lparr>apv_availability := a\<rparr> in
        (sync_profile_for_user d u (Some p), Inr ()))"

definition set_approver_delegate ::
  "org_directory \<Rightarrow> string \<Rightarrow> string option \<Rightarrow> org_directory \<times> (hr_error + unit)" where
  "set_approver_delegate d u delegate =
     (if get_user d u = None then (d, Inl (UserNotFound u))
      else case delegate of
        Some t \<Rightarrow>
          (if get_user d t = None then (d, Inl (UserNotFound t))
           else (sync_profile_for_user d u
                   (Some ((current_profile_for_user d u)\<lparr>apv_delegate_user_id := delegate\<rparr>)), Inr ()))
      | None \<Rightarrow>
          (sync_profile_for_user d u
             (Some ((current_profile_for_user d u)\<lparr>apv_delegate_user_id := delegate\<rparr>)), Inr ()))"

text \<open>
  \<open>apply_event\<close> records the event identifier first and only then looks the user up, so the
  directory it leaves behind on \<open>UserNotFound\<close> already knows the event.
\<close>

definition apply_event ::
  "org_directory \<Rightarrow> hr_event \<Rightarrow> org_directory \<times> (hr_error + revocation_command list)" where
  "apply_event d e =
     (if he_event_id e \<in> od_processed_events d then (d, Inr [])
      else
        let d1 = d\<lparr>od_processed_events := insert (he_event_id e) (od_processed_events d)\<rparr>;
            u = he_user_id e in
        case he_event_type e of
          Onboard \<Rightarrow>
            (let dept = (case he_department_id e of Some x \<Rightarrow> x | None \<Rightarrow> ''dept-default'');
                 d2 = put_user d1 u
                        \<lparr>ou_user_id = u, ou_department_id = dept, ou_manager_id = he_manager_id e,
                         ou_status = EmploymentActive,
                         ou_approver_profile = he_approver_profile e\<rparr> in
             (sync_profile_for_user d2 u (he_approver_profile e), Inr []))
        | Transfer \<Rightarrow>
            (case get_user d1 u of
               None \<Rightarrow> (d1, Inl (UserNotFound u))
             | Some usr \<Rightarrow>
                 let usr1 = (case he_department_id e of
                               Some x \<Rightarrow> usr\<lparr>ou_department_id := x\<rparr> | None \<Rightarrow> usr);
                     usr2 = (if he_manager_id e \<noteq> None
                             then usr1\<lparr>ou_manager_id := he_manager_id e\<rparr> else usr1);
                     uid = ou_user_id usr2 in
                 (sync_profile_for_user (put_user d1 u usr2) uid (he_approver_profile e),
                  Inr [\<lparr>rv_user_id = uid, rv_project_id = None, rv_reason = RevokeTransfer\<rparr>]))
        | Departure \<Rightarrow>
            (case get_user d1 u of
               None \<Rightarrow> (d1, Inl (UserNotFound u))
             | Some usr \<Rightarrow>
                 let usr1 = usr\<lparr>ou_status := EmploymentDeparted\<rparr>;
                     uid = ou_user_id usr1 in
                 (sync_profile_for_user (put_user d1 u usr1) uid (he_approver_profile e),
                  Inr [\<lparr>rv_user_id = uid, rv_project_id = None, rv_reason = RevokeDeparture\<rparr>]))
        | ManagerChange \<Rightarrow>
            (case get_user d1 u of
               None \<Rightarrow> (d1, Inl (UserNotFound u))
             | Some usr \<Rightarrow>
                 let usr1 = usr\<lparr>ou_manager_id := he_manager_id e\<rparr>;
                     uid = ou_user_id usr1 in
                 (sync_profile_for_user (put_user d1 u usr1) uid (he_approver_profile e), Inr [])))"

subsection \<open>Routing to an approver\<close>

definition fallback_approver_route ::
  "string \<Rightarrow> string \<Rightarrow> string list \<Rightarrow> string list \<Rightarrow> approver_route" where
  "fallback_approver_route requested fb traversed unavailable =
     \<lparr>ar_requested_user_id = requested, ar_resolved_user_id = fb,
      ar_route_kind = RouteSystemFallback, ar_delegated_from = None,
      ar_escalation_target = Some fb, ar_used_system_fallback = True,
      ar_traversed_user_ids = push_unique traversed fb,
      ar_unavailable_user_ids = unavailable\<rparr>"

text \<open>The delegate of a user, with the two trails as they are left behind.\<close>

definition available_delegate_route ::
  "org_directory \<Rightarrow> string \<Rightarrow> string \<Rightarrow> string option \<Rightarrow> string list \<Rightarrow> string list
     \<Rightarrow> approver_route option \<times> string list \<times> string list" where
  "available_delegate_route d requested from_user esc traversed unavailable =
     (case approver_profile_of d from_user of
        None \<Rightarrow> (None, traversed, unavailable)
      | Some p \<Rightarrow>
          (case apv_delegate_user_id p of
             None \<Rightarrow> (None, traversed, unavailable)
           | Some t \<Rightarrow>
               if t = from_user \<or> get_user d t = None then (None, traversed, unavailable)
               else
                 let traversed' = push_unique traversed t in
                 if is_approver_available d t then
                   (Some \<lparr>ar_requested_user_id = requested, ar_resolved_user_id = t,
                          ar_route_kind = RouteDelegated, ar_delegated_from = Some from_user,
                          ar_escalation_target = esc, ar_used_system_fallback = False,
                          ar_traversed_user_ids = traversed',
                          ar_unavailable_user_ids = unavailable\<rparr>, traversed', unavailable)
                 else (None, traversed', push_unique unavailable t)))"

text \<open>The loop over the management chain: a route, an error, or the trails after \<open>break\<close>.\<close>

datatype chain_outcome =
    ChainRoute approver_route
  | ChainBreak "string list" "string list"

function (sequential) route_chain ::
  "org_directory \<Rightarrow> resolution_policy \<Rightarrow> string \<Rightarrow> string \<Rightarrow> string set \<Rightarrow> string list \<Rightarrow> string list
     \<Rightarrow> bool \<Rightarrow> string option \<Rightarrow> nat \<Rightarrow> hr_error + chain_outcome" where
  "route_chain d pol requested current visited traversed unavailable allow_direct esc hops =
     (if current \<in> visited then
        Inr (ChainRoute (fallback_approver_route requested (rp_system_fallback_user_id pol)
               traversed unavailable))
      else
        let visited' = insert current visited in
        case get_user d current of
          None \<Rightarrow> Inl (UserNotFound current)
        | Some usr \<Rightarrow>
            if allow_direct \<and> is_approver_available d current then
              Inr (ChainRoute
                \<lparr>ar_requested_user_id = requested, ar_resolved_user_id = current,
                 ar_route_kind = (if current = requested then RouteDirect
                                  else RouteEscalatedToManager),
                 ar_delegated_from = None, ar_escalation_target = esc,
                 ar_used_system_fallback = False, ar_traversed_user_ids = traversed,
                 ar_unavailable_user_ids = unavailable\<rparr>)
            else
              let unavailable' = push_unique unavailable current;
                  (route, traversed', unavailable'') =
                    (if rp_allow_delegation pol
                     then available_delegate_route d requested current esc traversed unavailable'
                     else (None, traversed, unavailable')) in
              case route of
                Some r \<Rightarrow> Inr (ChainRoute r)
              | None \<Rightarrow>
                  (case (if hops < rp_max_manager_hops pol then ou_manager_id usr else None) of
                     Some m \<Rightarrow>
                       route_chain d pol requested m visited' (push_unique traversed' m)
                         unavailable'' True (Some m) (Suc hops)
                   | None \<Rightarrow> Inr (ChainBreak traversed' unavailable'')))"
  by pat_completeness auto
termination
  by (relation "measure (\<lambda>(d, pol, _, _, _, _, _, _, _, hops). rp_max_manager_hops pol - hops)")
    (auto split: if_splits)

declare route_chain.simps [simp del]

text \<open>The loop over the configured escalation targets.\<close>

fun route_targets ::
  "org_directory \<Rightarrow> resolution_policy \<Rightarrow> string \<Rightarrow> string list \<Rightarrow> string list \<Rightarrow> string list
     \<Rightarrow> approver_route" where
  "route_targets d pol requested [] traversed unavailable =
     fallback_approver_route requested (rp_system_fallback_user_id pol) traversed unavailable"
| "route_targets d pol requested (t # ts) traversed unavailable =
     (if t = requested then route_targets d pol requested ts traversed unavailable
      else
        let traversed1 = push_unique traversed t in
        if is_approver_available d t then
          \<lparr>ar_requested_user_id = requested, ar_resolved_user_id = t,
           ar_route_kind = RouteEscalatedToConfiguredTarget, ar_delegated_from = None,
           ar_escalation_target = Some t, ar_used_system_fallback = False,
           ar_traversed_user_ids = traversed1, ar_unavailable_user_ids = unavailable\<rparr>
        else
          let unavailable1 = push_unique unavailable t;
              (route, traversed2, unavailable2) =
                (if rp_allow_delegation pol
                 then available_delegate_route d requested t (Some t) traversed1 unavailable1
                 else (None, traversed1, unavailable1)) in
          case route of
            Some r \<Rightarrow> r
          | None \<Rightarrow> route_targets d pol requested ts traversed2 unavailable2)"

definition route_approver ::
  "org_directory \<Rightarrow> string \<Rightarrow> resolution_policy \<Rightarrow> bool \<Rightarrow> hr_error + approver_route" where
  "route_approver d u policy allow_direct_root =
     (let pol = policy_normalized policy in
      res_bind (route_chain d pol u u {} [u] [] allow_direct_root None 0)
        (\<lambda>outcome. case outcome of
           ChainRoute r \<Rightarrow> Inr r
         | ChainBreak traversed unavailable \<Rightarrow>
             Inr (route_targets d pol u (rp_escalation_user_ids pol) traversed unavailable)))"

definition resolve_effective_approver_with_policy ::
  "org_directory \<Rightarrow> string \<Rightarrow> resolution_policy \<Rightarrow> hr_error + approver_route" where
  "resolve_effective_approver_with_policy d u policy = route_approver d u policy True"

definition reroute_unavailable_approver_with_policy ::
  "org_directory \<Rightarrow> string \<Rightarrow> resolution_policy \<Rightarrow> hr_error + approver_route" where
  "reroute_unavailable_approver_with_policy d u policy = route_approver d u policy False"

subsection \<open>The sync orchestrator and the listener\<close>

record hr_sync_report =
  hs_source :: sync_source
  hs_synced_user_count :: nat
  hs_applied_event_count :: nat
  hs_revocation_commands :: "revocation_command list"
  hs_next_cursor :: "string option"

fun sync_events ::
  "org_directory \<Rightarrow> hr_event list \<Rightarrow> nat \<Rightarrow> revocation_command list \<Rightarrow> string option
     \<Rightarrow> org_directory \<times> (hr_error + nat \<times> revocation_command list \<times> string option)" where
  "sync_events d [] applied cmds cursor = (d, Inr (applied, cmds, cursor))"
| "sync_events d (e # es) applied cmds cursor =
     (let already = has_processed_event d (he_event_id e);
          (d', r) = apply_event d e in
      case r of
        Inl err \<Rightarrow> (d', Inl err)
      | Inr commands \<Rightarrow>
          sync_events d' es (if \<not> already then Suc applied else applied) (cmds @ commands)
            (Some (he_event_id e)))"

text \<open>
  The connector is its snapshot result and its poll function.  The directory is returned with
  the result, because it keeps what was applied before an error.
\<close>

definition sync_connector ::
  "org_directory \<Rightarrow> sync_source \<Rightarrow> hr_error + org_user list
     \<Rightarrow> (string option \<Rightarrow> hr_error + hr_event list) \<Rightarrow> string option
     \<Rightarrow> org_directory \<times> (hr_error + hr_sync_report)" where
  "sync_connector d src snapshot poll cursor =
     (case snapshot of
        Inl e \<Rightarrow> (d, Inl e)
      | Inr users \<Rightarrow>
          let d1 = fst (sync_snapshot d src users) in
          case poll cursor of
            Inl e \<Rightarrow> (d1, Inl e)
          | Inr events \<Rightarrow>
              let sorted = sort_key (\<lambda>e. (he_occurred_at e, he_event_id e)) events;
                  (d2, r) = sync_events d1 sorted 0 [] cursor in
              (d2, res_bind r (\<lambda>(applied, cmds, next').
                 Inr \<lparr>hs_source = src, hs_synced_user_count = length users,
                      hs_applied_event_count = applied, hs_revocation_commands = cmds,
                      hs_next_cursor = next'\<rparr>)))"

type_synonym listener = "(sync_source \<times> string option) list"

definition listener_checkpoint :: "listener \<Rightarrow> sync_source \<Rightarrow> string option" where
  "listener_checkpoint l src = (case map_of l src of None \<Rightarrow> None | Some c \<Rightarrow> c)"

definition process_connector ::
  "listener \<Rightarrow> org_directory \<Rightarrow> sync_source \<Rightarrow> hr_error + org_user list
     \<Rightarrow> (string option \<Rightarrow> hr_error + hr_event list)
     \<Rightarrow> listener \<times> org_directory \<times> (hr_error + hr_sync_report)" where
  "process_connector l d src snapshot poll =
     (let cursor = (case map_of l src of None \<Rightarrow> None | Some c \<Rightarrow> c);
          (d', r) = sync_connector d src snapshot poll cursor in
      case r of
        Inl e \<Rightarrow> (l, d', Inl e)
      | Inr report \<Rightarrow> (AList.update src (hs_next_cursor report) l, d', Inr report))"


subsection \<open>The directory invariant\<close>

text \<open>
  Every user stands under its own identifier, every identifier once, and the profile stored in
  the user is the one of the profile table.
\<close>

definition directory_ok :: "org_directory \<Rightarrow> bool" where
  "directory_ok d =
     (distinct (map fst (od_users d)) \<and> distinct (map fst (od_approver_profiles d)) \<and>
      list_all (\<lambda>(k, usr). ou_user_id usr = k \<and> ou_approver_profile usr \<noteq> None \<and>
                  ou_approver_profile usr = map_of (od_approver_profiles d) k) (od_users d))"

lemma directory_okI:
  assumes "distinct (map fst (od_users d))" "distinct (map fst (od_approver_profiles d))"
    and "\<And>k usr. get_user d k = Some usr \<Longrightarrow>
           ou_user_id usr = k \<and> ou_approver_profile usr \<noteq> None \<and>
           ou_approver_profile usr = approver_profile_of d k"
  shows "directory_ok d"
proof -
  have "\<forall>(k, usr)\<in>set (od_users d). ou_user_id usr = k \<and> ou_approver_profile usr \<noteq> None \<and>
          ou_approver_profile usr = map_of (od_approver_profiles d) k"
    using assms(3) map_of_is_SomeI [OF assms(1)]
    unfolding get_user_def approver_profile_of_def by blast
  then show ?thesis using assms(1,2) by (simp add: directory_ok_def list_all_iff)
qed

lemma directory_okD:
  assumes "directory_ok d" "get_user d k = Some usr"
  shows "ou_user_id usr = k" "ou_approver_profile usr \<noteq> None"
    "ou_approver_profile usr = approver_profile_of d k"
proof -
  have "(k, usr) \<in> set (od_users d)"
    using assms(2) unfolding get_user_def by (rule map_of_SomeD)
  then have "ou_user_id usr = k \<and> ou_approver_profile usr \<noteq> None \<and>
               ou_approver_profile usr = approver_profile_of d k"
    using assms(1) unfolding directory_ok_def list_all_iff approver_profile_of_def by fast
  then show "ou_user_id usr = k" "ou_approver_profile usr \<noteq> None"
    "ou_approver_profile usr = approver_profile_of d k" by blast+
qed

lemma directory_ok_distinct:
  assumes "directory_ok d"
  shows "distinct (map fst (od_users d))" "distinct (map fst (od_approver_profiles d))"
  using assms by (simp_all add: directory_ok_def)

lemma get_user_put_user [simp]:
  "get_user (put_user d u usr) k = (if k = u then Some usr else get_user d k)"
  by (simp add: get_user_def put_user_def update_conv')

lemma approver_profile_of_put_user [simp]:
  "approver_profile_of (put_user d u usr) k = approver_profile_of d k"
  by (simp add: approver_profile_of_def put_user_def)

lemma processed_put_user [simp]:
  "od_processed_events (put_user d u usr) = od_processed_events d"
  by (simp add: put_user_def)

definition synced_profile ::
  "org_directory \<Rightarrow> string \<Rightarrow> approver_profile option \<Rightarrow> approver_profile" where
  "synced_profile d u explicit =
     (case explicit of Some p \<Rightarrow> p | None \<Rightarrow> current_profile_for_user d u)"

lemma get_user_sync_profile [simp]:
  "get_user (sync_profile_for_user d u ex) k =
     (if k = u then map_option (\<lambda>usr. usr\<lparr>ou_approver_profile := Some (synced_profile d u ex)\<rparr>)
                      (get_user d u)
      else get_user d k)"
  by (auto simp: sync_profile_for_user_def synced_profile_def get_user_def update_conv' Let_def
      split: option.splits)

lemma approver_profile_of_sync_profile [simp]:
  "approver_profile_of (sync_profile_for_user d u ex) k =
     (if k = u then Some (synced_profile d u ex) else approver_profile_of d k)"
  by (auto simp: sync_profile_for_user_def synced_profile_def approver_profile_of_def
      update_conv' Let_def split: option.splits)

lemma processed_sync_profile [simp]:
  "od_processed_events (sync_profile_for_user d u ex) = od_processed_events d"
  by (auto simp: sync_profile_for_user_def Let_def split: option.splits)

lemma distinct_sync_profile:
  assumes "distinct (map fst (od_users d))" "distinct (map fst (od_approver_profiles d))"
  shows "distinct (map fst (od_users (sync_profile_for_user d u ex)))"
    "distinct (map fst (od_approver_profiles (sync_profile_for_user d u ex)))"
  using assms
  by (auto simp: sync_profile_for_user_def Let_def distinct_update split: option.splits)

lemma distinct_put_user:
  assumes "distinct (map fst (od_users d))"
  shows "distinct (map fst (od_users (put_user d u usr)))"
  using assms by (simp add: put_user_def distinct_update)

lemma profiles_put_user [simp]:
  "od_approver_profiles (put_user d u usr) = od_approver_profiles d"
  by (simp add: put_user_def)

text \<open>Storing a user under its identifier and syncing its profile keeps the invariant.\<close>

lemma directory_ok_sync:
  assumes "distinct (map fst (od_users d))" "distinct (map fst (od_approver_profiles d))"
    and others: "\<And>k usr. get_user d k = Some usr \<Longrightarrow> k \<noteq> u \<Longrightarrow>
           ou_user_id usr = k \<and> ou_approver_profile usr \<noteq> None \<and>
           ou_approver_profile usr = approver_profile_of d k"
    and own: "\<And>usr. get_user d u = Some usr \<Longrightarrow> ou_user_id usr = u"
  shows "directory_ok (sync_profile_for_user d u ex)"
proof (rule directory_okI)
  fix k usr
  assume k: "get_user (sync_profile_for_user d u ex) k = Some usr"
  show "ou_user_id usr = k \<and> ou_approver_profile usr \<noteq> None \<and>
        ou_approver_profile usr = approver_profile_of (sync_profile_for_user d u ex) k"
  proof (cases "k = u")
    case True
    with k own show ?thesis by fastforce
  next
    case False
    with k have known: "get_user d k = Some usr" by simp
    have same: "approver_profile_of (sync_profile_for_user d u ex) k = approver_profile_of d k"
      using False by simp
    show ?thesis unfolding same by (rule others [OF known False])
  qed
qed (use assms(1,2) in \<open>simp_all add: distinct_sync_profile\<close>)

lemma directory_ok_put_sync:
  assumes "directory_ok d" "ou_user_id usr = u"
  shows "directory_ok (sync_profile_for_user (put_user d u usr) u ex)"
  using directory_ok_distinct [OF assms(1)] assms(2) directory_okD [OF assms(1)]
  by (intro directory_ok_sync) (simp_all add: distinct_put_user split: if_splits)

lemma directory_ok_sync_profile:
  assumes "directory_ok d"
  shows "directory_ok (sync_profile_for_user d u ex)"
  using directory_ok_distinct [OF assms] directory_okD [OF assms]
  by (intro directory_ok_sync) simp_all

lemma directory_ok_record_event:
  assumes "directory_ok d"
  shows "directory_ok (d\<lparr>od_processed_events := E\<rparr>)"
  using assms by (simp add: directory_ok_def)

lemma get_user_record_event [simp]:
  "get_user (d\<lparr>od_processed_events := E\<rparr>) k = get_user d k"
  by (simp add: get_user_def)

lemma approver_profile_of_record_event [simp]:
  "approver_profile_of (d\<lparr>od_processed_events := E\<rparr>) k = approver_profile_of d k"
  by (simp add: approver_profile_of_def)

lemma directory_ok_sync_users: "directory_ok d \<Longrightarrow> directory_ok (sync_users d us)"
  by (induction d us rule: sync_users.induct) (simp_all add: directory_ok_put_sync)

lemma directory_ok_availability:
  "directory_ok d \<Longrightarrow> directory_ok (fst (set_approver_availability d u a))"
  by (simp add: set_approver_availability_def Let_def directory_ok_sync_profile)

lemma directory_ok_delegate:
  "directory_ok d \<Longrightarrow> directory_ok (fst (set_approver_delegate d u t))"
  by (simp add: set_approver_delegate_def Let_def directory_ok_sync_profile split: option.splits)

lemma directory_ok_apply_event:
  assumes "directory_ok d"
  shows "directory_ok (fst (apply_event d e))"
proof -
  note d1 = directory_ok_record_event [OF assms]
  show ?thesis
    using assms
    by (cases "he_event_type e")
      (auto simp: apply_event_def Let_def d1 directory_okD(1) [OF assms]
        intro!: directory_ok_put_sync split: option.splits)
qed

subsection \<open>Events are applied once\<close>

lemma apply_event_processed:
  "he_event_id e \<in> od_processed_events d \<Longrightarrow> apply_event d e = (d, Inr [])"
  by (simp add: apply_event_def)

lemma apply_event_records:
  "od_processed_events (fst (apply_event d e)) = insert (he_event_id e) (od_processed_events d)"
  by (cases "he_event_type e")
    (auto simp: apply_event_def Let_def split: option.splits)

lemma apply_event_replay:
  "apply_event (fst (apply_event d e)) e = (fst (apply_event d e), Inr [])"
  by (simp add: apply_event_processed apply_event_records)

lemma apply_event_other_user:
  assumes "directory_ok d" "k \<noteq> he_user_id e"
  shows "get_user (fst (apply_event d e)) k = get_user d k"
  using assms(2)
  by (cases "he_event_type e")
    (auto simp: apply_event_def Let_def directory_okD(1) [OF assms(1)] split: option.splits)

lemma sync_events_processed:
  "od_processed_events (fst (sync_events d es n cs cur)) \<supseteq> od_processed_events d"
proof (induction d es n cs cur rule: sync_events.induct)
  case (2 d e es n cs cur)
  have rec: "od_processed_events d \<subseteq> od_processed_events (fst (apply_event d e))"
    by (auto simp: apply_event_records)
  show ?case
  proof (cases "apply_event d e")
    case (Pair d' r)
    then show ?thesis
      using 2 rec by (cases r) (fastforce simp: Let_def)+
  qed
qed simp

lemma sync_events_covers:
  assumes "snd (sync_events d es n cs cur) = Inr res"
  shows "he_event_id ` set es \<subseteq> od_processed_events (fst (sync_events d es n cs cur))"
  using assms
proof (induction d es n cs cur rule: sync_events.induct)
  case (2 d e es n cs cur)
  obtain d' r where app: "apply_event d e = (d', r)" by (cases "apply_event d e")
  with 2(2) obtain cmds where r: "r = Inr cmds" by (cases r) (auto simp: Let_def)
  have "he_event_id e \<in> od_processed_events d'"
    using apply_event_records [of d e] app by simp
  then show ?case
    using 2 app r sync_events_processed by (fastforce simp: Let_def)
qed simp

lemma sync_events_all_processed:
  assumes "he_event_id ` set es \<subseteq> od_processed_events d"
  shows "sync_events d es n cs cur =
           (d, Inr (n, cs, if es = [] then cur else Some (he_event_id (last es))))"
  using assms
  by (induction es arbitrary: cur)
    (auto simp: apply_event_processed has_processed_event_def Let_def)

lemma directory_ok_sync_events: "directory_ok d \<Longrightarrow> directory_ok (fst (sync_events d es n cs cur))"
proof (induction d es n cs cur rule: sync_events.induct)
  case (2 d e es n cs cur)
  obtain d' r where app: "apply_event d e = (d', r)" by (cases "apply_event d e")
  then have "directory_ok d'" using directory_ok_apply_event [OF 2(2), of e] by simp
  then show ?case using 2 app by (cases r) (simp_all add: Let_def)
qed simp

lemma directory_ok_sync_connector:
  assumes "directory_ok d"
  shows "directory_ok (fst (sync_connector d src snapshot poll cursor))"
proof -
  have "directory_ok (sync_users d us)" for us by (rule directory_ok_sync_users [OF assms])
  then show ?thesis
    using assms directory_ok_sync_events
    by (auto simp: sync_connector_def sync_snapshot_def Let_def case_prod_unfold split: sum.splits)
qed

subsection \<open>What a route promises\<close>

lemma push_unique_mem [simp]: "x \<in> set (push_unique xs x)"
  by simp

text \<open>
  The contract of a route for a requested user: its approver is available unless it is the
  system fallback, it was traversed, nobody is named unavailable who is available, and a
  delegated route goes to the delegate named in a profile.
\<close>

definition trail_ok :: "org_directory \<Rightarrow> string \<Rightarrow> string list \<Rightarrow> string list \<Rightarrow> bool" where
  "trail_ok d requested traversed unavailable =
     (requested \<in> set traversed \<and> distinct traversed \<and> distinct unavailable \<and>
      set unavailable \<subseteq> set traversed \<and>
      (\<forall>u\<in>set unavailable. u = requested \<or> \<not> is_approver_available d u))"

definition route_ok :: "org_directory \<Rightarrow> resolution_policy \<Rightarrow> string \<Rightarrow> approver_route \<Rightarrow> bool" where
  "route_ok d pol requested r =
     (ar_requested_user_id r = requested \<and>
      ar_resolved_user_id r \<in> set (ar_traversed_user_ids r) \<and>
      trail_ok d requested (ar_traversed_user_ids r) (ar_unavailable_user_ids r) \<and>
      (ar_used_system_fallback r \<longleftrightarrow> ar_route_kind r = RouteSystemFallback) \<and>
      (if ar_used_system_fallback r
       then ar_resolved_user_id r = rp_system_fallback_user_id pol
       else is_approver_available d (ar_resolved_user_id r)) \<and>
      (case ar_delegated_from r of
         None \<Rightarrow> ar_route_kind r \<noteq> RouteDelegated
       | Some f \<Rightarrow> ar_route_kind r = RouteDelegated \<and> rp_allow_delegation pol \<and>
           map_option apv_delegate_user_id (approver_profile_of d f)
             = Some (Some (ar_resolved_user_id r))))"

lemma fallback_route_ok:
  assumes "trail_ok d requested traversed unavailable"
  shows "route_ok d pol requested
           (fallback_approver_route requested (rp_system_fallback_user_id pol) traversed unavailable)"
  using assms by (auto simp: route_ok_def fallback_approver_route_def trail_ok_def)

lemma trail_push_traversed:
  "trail_ok d requested tr un \<Longrightarrow> trail_ok d requested (push_unique tr u) un"
  by (auto simp: trail_ok_def)

lemma trail_push_unavailable:
  "\<lbrakk> trail_ok d requested tr un; u \<in> set tr; u = requested \<or> \<not> is_approver_available d u \<rbrakk>
     \<Longrightarrow> trail_ok d requested tr (push_unique un u)"
  by (auto simp: trail_ok_def)

lemma available_delegate_route_ok:
  assumes "available_delegate_route d requested u esc tr un = (route, tr', un')"
    and "trail_ok d requested tr un" "rp_allow_delegation pol"
  shows "trail_ok d requested tr' un' \<and> set tr \<subseteq> set tr' \<and>
         (case route of None \<Rightarrow> True | Some r \<Rightarrow> route_ok d pol requested r)"
  using assms trail_push_traversed [OF assms(2)] trail_push_unavailable
  by (auto simp: available_delegate_route_def Let_def route_ok_def split: option.splits if_splits)

lemma route_chain_ok:
  assumes "route_chain d pol requested current visited tr un direct esc hops = Inr out"
    and "trail_ok d requested tr un" "current \<in> set tr"
    and "direct \<or> current = requested"
  shows "case out of ChainRoute r \<Rightarrow> route_ok d pol requested r
                   | ChainBreak tr' un' \<Rightarrow> trail_ok d requested tr' un'"
  using assms
proof (induction d pol requested current visited tr un direct esc hops rule: route_chain.induct)
  case (1 d pol requested current visited tr un direct esc hops)
  show ?case
  proof (cases "current \<in> visited")
    case True
    with 1(2,3) show ?thesis
      by (subst (asm) route_chain.simps) (auto intro: fallback_route_ok)
  next
    case fresh: False
    then obtain usr where usr: "get_user d current = Some usr"
      using 1(2) by (subst (asm) route_chain.simps) (auto simp: Let_def split: option.splits)
    show ?thesis
    proof (cases "direct \<and> is_approver_available d current")
      case True
      with 1(2-4) fresh usr show ?thesis
        by (subst (asm) route_chain.simps) (auto simp: route_ok_def Let_def)
    next
      case False
      define un' where "un' = push_unique un current"
      have un': "trail_ok d requested tr un'"
        using trail_push_unavailable [OF 1(3,4)] False 1(5) by (auto simp: un'_def)
      obtain route tr2 un2 where sel:
        "(if rp_allow_delegation pol
          then available_delegate_route d requested current esc tr un'
          else (None, tr, un')) = (route, tr2, un2)" by (metis prod_cases3)
      have trail2: "trail_ok d requested tr2 un2"
        and route: "case route of None \<Rightarrow> True | Some r \<Rightarrow> route_ok d pol requested r"
        using sel un' available_delegate_route_ok [OF _ un', of current esc route tr2 un2 pol]
        by (auto split: if_splits)
      have unfold: "Inr out =
        (case route of Some r \<Rightarrow> Inr (ChainRoute r)
         | None \<Rightarrow> (case (if hops < rp_max_manager_hops pol then ou_manager_id usr else None) of
             Some m \<Rightarrow> route_chain d pol requested m (insert current visited) (push_unique tr2 m)
                         un2 True (Some m) (Suc hops)
           | None \<Rightarrow> Inr (ChainBreak tr2 un2)))"
        using 1(2) unfolding route_chain.simps [of d pol requested current]
        by (simp only: Let_def un'_def [symmetric] sel usr fresh False if_False option.case
            prod.case simp_thms)
      show ?thesis
      proof (cases route)
        case None
        show ?thesis
        proof (cases "if hops < rp_max_manager_hops pol then ou_manager_id usr else None")
          case no_mgr: None
          then show ?thesis using unfold None trail2 by simp
        next
          case (Some m)
          have "route_chain d pol requested m (insert current visited) (push_unique tr2 m)
                  un2 True (Some m) (Suc hops) = Inr out"
            using unfold None Some by simp
          then show ?thesis
            using 1(1) [OF fresh refl usr False refl refl sel [symmetric, unfolded un'_def] refl None Some]
              trail_push_traversed [OF trail2] by simp
        qed
      qed (use unfold route in simp)
    qed
  qed
qed

lemma route_targets_ok:
  assumes "trail_ok d requested tr un"
  shows "route_ok d pol requested (route_targets d pol requested ts tr un)"
  using assms
proof (induction ts arbitrary: tr un)
  case Nil
  then show ?case by (simp add: fallback_route_ok)
next
  case (Cons t ts)
  show ?case
  proof (cases "t = requested")
    case True
    then show ?thesis using Cons by simp
  next
    case neq: False
    note tr1 = trail_push_traversed [OF Cons.prems, of t]
    show ?thesis
    proof (cases "is_approver_available d t")
      case True
      then show ?thesis using neq tr1 by (simp add: route_ok_def Let_def)
    next
      case False
      have un1: "trail_ok d requested (push_unique tr t) (push_unique un t)"
        using trail_push_unavailable [OF tr1] False by simp
      obtain route tr2 un2 where sel:
        "(if rp_allow_delegation pol
          then available_delegate_route d requested t (Some t) (push_unique tr t) (push_unique un t)
          else (None, push_unique tr t, push_unique un t)) = (route, tr2, un2)" by (metis prod_cases3)
      have "trail_ok d requested tr2 un2"
        and "case route of None \<Rightarrow> True | Some r \<Rightarrow> route_ok d pol requested r"
        using sel un1 available_delegate_route_ok [OF _ un1, of t "Some t" route tr2 un2 pol]
        by (auto split: if_splits)
      then show ?thesis using neq False sel Cons.IH [of tr2 un2]
        by (auto simp: Let_def split: option.splits)
    qed
  qed
qed

lemma route_approver_ok:
  assumes "route_approver d u policy direct = Inr r"
  shows "route_ok d (policy_normalized policy) u r"
proof -
  let ?pol = "policy_normalized policy"
  have start: "trail_ok d u [u] []" by (simp add: trail_ok_def)
  from assms obtain out where chain: "route_chain d ?pol u u {} [u] [] direct None 0 = Inr out"
    and r: "(case out of ChainRoute r' \<Rightarrow> Inr r'
             | ChainBreak tr un \<Rightarrow>
                 Inr (route_targets d ?pol u (rp_escalation_user_ids ?pol) tr un))
            = (Inr r :: hr_error + approver_route)"
    by (auto simp: route_approver_def Let_def res_bind_eq_Inr)
  from route_chain_ok [OF chain start] r route_targets_ok show ?thesis
    by (auto split: chain_outcome.splits)
qed

subsection \<open>When a route exists\<close>

definition managers_known :: "org_directory \<Rightarrow> bool" where
  "managers_known d =
     list_all (\<lambda>(k, usr). case ou_manager_id usr of None \<Rightarrow> True
                          | Some m \<Rightarrow> map_of (od_users d) m \<noteq> None) (od_users d)"

lemma managers_knownD:
  assumes "managers_known d" "get_user d u = Some usr" "ou_manager_id usr = Some m"
  shows "get_user d m \<noteq> None"
proof -
  have "(u, usr) \<in> set (od_users d)" using assms(2) map_of_SomeD by (simp add: get_user_def)
  with assms(1,3) show ?thesis by (force simp: managers_known_def list_all_iff get_user_def)
qed

lemma route_chain_error:
  assumes "route_chain d pol requested current visited tr un direct esc hops = Inl e"
  shows "\<exists>u. e = UserNotFound u \<and> get_user d u = None"
  using assms
proof (induction d pol requested current visited tr un direct esc hops rule: route_chain.induct)
  case (1 d pol requested current visited tr un direct esc hops)
  then show ?case
    by (subst (asm) (2) route_chain.simps)
      (fastforce simp: Let_def split: option.splits if_splits prod.splits)
qed

lemma route_chain_total:
  assumes "managers_known d" "get_user d current \<noteq> None"
  shows "\<exists>out. route_chain d pol requested current visited tr un direct esc hops = Inr out"
  using assms
proof (induction d pol requested current visited tr un direct esc hops rule: route_chain.induct)
  case (1 d pol requested current visited tr un direct esc hops)
  then show ?case
    by (subst route_chain.simps)
      (fastforce simp: Let_def dest: managers_knownD split: option.splits if_splits prod.splits)
qed

lemma route_approver_error:
  "route_approver d u policy direct = Inl e \<Longrightarrow> \<exists>v. e = UserNotFound v \<and> get_user d v = None"
  by (auto simp: route_approver_def Let_def res_bind_eq_Inl dest: route_chain_error
      split: chain_outcome.splits) (metis chain_outcome.exhaust)

lemma route_approver_total:
  assumes "managers_known d" "get_user d u \<noteq> None"
  shows "\<exists>r. route_approver d u policy direct = Inr r"
proof -
  let ?pol = "policy_normalized policy"
  obtain out where "route_chain d ?pol u u {} [u] [] direct None 0 = Inr out"
    using route_chain_total [OF assms] by blast
  then show ?thesis by (cases out) (simp_all add: route_approver_def Let_def)
qed

lemma route_approver_direct:
  assumes "is_approver_available d u"
  shows "route_approver d u policy True =
    Inr \<lparr>ar_requested_user_id = u, ar_resolved_user_id = u, ar_route_kind = RouteDirect,
         ar_delegated_from = None, ar_escalation_target = None, ar_used_system_fallback = False,
         ar_traversed_user_ids = [u], ar_unavailable_user_ids = []\<rparr>"
  using assms
  by (subst route_approver_def, subst route_chain.simps)
    (auto simp: Let_def is_approver_available_def split: option.splits)

lemma normalized_fallback_nonempty: "rp_system_fallback_user_id (policy_normalized p) \<noteq> []"
  by (simp add: policy_normalized_def Let_def default_system_fallback_def)

lemma available_known: "is_approver_available d u \<Longrightarrow> get_user d u \<noteq> None"
  by (auto simp: is_approver_available_def split: option.splits)

lemma route_approver_nonempty:
  assumes "route_approver d u policy direct = Inr r" "get_user d [] = None"
  shows "ar_resolved_user_id r \<noteq> []"
  using route_approver_ok [OF assms(1)] assms(2) normalized_fallback_nonempty [of policy]
    available_known [of d "[]"]
  by (auto simp: route_ok_def split: if_splits)

subsection \<open>Properties\<close>

text \<open>A directory of an applicant, a manager on leave with a delegate, and an administrator.\<close>

definition sample_user :: "string \<Rightarrow> string option \<Rightarrow> approver_profile option \<Rightarrow> org_user" where
  "sample_user u m p =
     \<lparr>ou_user_id = u, ou_department_id = ''dept-risk'', ou_manager_id = m,
      ou_status = EmploymentActive, ou_approver_profile = p\<rparr>"

definition sample_directory :: org_directory where
  "sample_directory = fst (sync_snapshot directory_default FeishuMock
     [sample_user ''user-a'' (Some ''boss'') None,
      sample_user ''boss'' None (Some \<lparr>apv_availability = ApproverUnavailable,
                                       apv_delegate_user_id = Some ''deputy''\<rparr>),
      sample_user ''deputy'' None None])"

lemma sample_directory_ok: "directory_ok sample_directory"
  unfolding sample_directory_def sync_snapshot_def Let_def fst_conv
  by (rule directory_ok_sync_users) (simp add: directory_ok_def directory_default_def)

definition sample_event :: "string \<Rightarrow> string \<Rightarrow> hr_event_type \<Rightarrow> hr_event" where
  "sample_event eid u ty =
     \<lparr>he_event_id = eid, he_user_id = u, he_event_type = ty, he_department_id = None,
      he_manager_id = None, he_approver_profile = None, he_occurred_at = 0\<rparr>"

text \<open>
  C33. A resolved approver can act.  Whatever the directory and the policy, the approver of a
  route is an active and available user or the configured system fallback, it stands on the
  recorded trail, delegation happens only when the policy allows it and only to the delegate
  of a profile, and nobody but the requested user is recorded as unavailable while available.
\<close>

theorem approver_route_sound:
  assumes "route_approver d u policy direct = Inr r"
  shows "route_ok d (policy_normalized policy) u r"
  using assms by (rule route_approver_ok)

lemma approver_route_sound_witness:
  "\<exists>r. route_approver sample_directory ''boss'' resolution_policy_default True = Inr r
     \<and> ar_resolved_user_id r = ''deputy'' \<and> is_approver_available sample_directory ''deputy''"
proof -
  let ?r = "route_approver sample_directory ''boss'' resolution_policy_default True"
  have "\<not> isl ?r" "ar_resolved_user_id (projr ?r) = ''deputy''" "\<not> ar_used_system_fallback (projr ?r)"
    by code_simp+
  moreover from this(1) have r: "?r = Inr (projr ?r)" by (simp add: sum.collapse(2))
  ultimately have "is_approver_available sample_directory ''deputy''"
    using approver_route_sound [OF r] by (simp add: route_ok_def)
  with r \<open>ar_resolved_user_id (projr ?r) = ''deputy''\<close> show ?thesis by blast
qed

text \<open>
  Routing fails only on unknown users.  An error of \<open>route_approver\<close> names a user the
  directory does not hold; when the requested user and every manager named in the directory
  are known, routing always returns a route, cycles in the management chain included.
\<close>

lemma approver_routing_total:
  "(\<forall>e. route_approver d u policy direct = Inl e \<longrightarrow> (\<exists>v. e = UserNotFound v \<and> get_user d v = None))
   \<and> (managers_known d \<longrightarrow> get_user d u \<noteq> None \<longrightarrow> (\<exists>r. route_approver d u policy direct = Inr r))"
  using route_approver_error route_approver_total by blast

lemma approver_routing_total_witness:
  "\<exists>r. route_approver sample_directory ''user-a'' resolution_policy_default False = Inr r"
proof -
  have "managers_known sample_directory" "get_user sample_directory ''user-a'' \<noteq> None" by code_simp+
  with approver_routing_total [of sample_directory "''user-a''" resolution_policy_default False]
  show ?thesis by blast
qed

text \<open>
  The directory stays consistent.  A sync of a connector, whatever it delivers and also
  when it fails half-way, keeps every user under its own identifier, identifiers unique and
  the profile of each user equal to the one in the profile table.
\<close>

lemma directory_sync_keeps_invariant:
  assumes "directory_ok d"
  shows "directory_ok (fst (snd (process_connector l d src snapshot poll)))"
proof -
  let ?cursor = "case map_of l src of None \<Rightarrow> None | Some c \<Rightarrow> c"
  obtain d' r where sync: "sync_connector d src snapshot poll ?cursor = (d', r)"
    by (cases "sync_connector d src snapshot poll ?cursor")
  then have "directory_ok d'" using directory_ok_sync_connector [OF assms] by (metis fst_conv)
  then show ?thesis by (cases r) (simp_all add: process_connector_def Let_def sync)
qed

lemma directory_sync_keeps_invariant_witness:
  "directory_ok (fst (snd (process_connector [] sample_directory WorkdayMock
     (Inr [sample_user ''user-b'' None None]) (\<lambda>_. Inr [sample_event ''e1'' ''user-a'' Departure]))))"
  by (rule directory_sync_keeps_invariant [OF sample_directory_ok])

text \<open>
  Events apply once.  When a batch of events has been applied, applying any of its events
  again, in any order, changes nothing and issues no revocation command.
\<close>

lemma events_apply_once:
  assumes "sync_events d es n cmds cursor = (d', Inr res)" and "set es' \<subseteq> set es"
  shows "\<exists>cursor''. sync_events d' es' n' cmds' cursor' = (d', Inr (n', cmds', cursor''))"
proof -
  have "he_event_id ` set es \<subseteq> od_processed_events d'"
    using sync_events_covers [of d es n cmds cursor res] assms(1) by simp
  with assms(2) have "he_event_id ` set es' \<subseteq> od_processed_events d'" by blast
  from sync_events_all_processed [OF this] show ?thesis by auto
qed

lemma events_apply_once_witness:
  "\<exists>d' cursor. sync_events d' [sample_event ''e1'' ''user-a'' Departure] 0 [] None
     = (d', Inr (0, [], cursor)) \<and> \<not> is_approver_available d' ''user-a''"
proof -
  let ?es = "[sample_event ''e1'' ''user-a'' Departure]"
  let ?d' = "fst (sync_events sample_directory ?es 0 [] None)"
  have "sync_events sample_directory ?es 0 [] None
      = (?d', Inr (1, [\<lparr>rv_user_id = ''user-a'', rv_project_id = None, rv_reason = RevokeDeparture\<rparr>],
                   Some ''e1''))"
    by code_simp
  from events_apply_once [OF this subset_refl, of 0 "[]" None]
  have "\<exists>cursor. sync_events ?d' ?es 0 [] None = (?d', Inr (0, [], cursor))" .
  moreover have "\<not> is_approver_available ?d' ''user-a''" by code_simp
  ultimately show ?thesis by blast
qed

text \<open>
  What else may happen to a directory, and which of it makes a user active again: a snapshot that
  lists the user, or an onboarding event.
\<close>

datatype directory_change =
    SnapshotArrives sync_source "org_user list"
  | EventArrives hr_event
  | AvailabilitySet string approver_availability
  | DelegateSet string "string option"

fun directory_step :: "directory_change \<Rightarrow> org_directory \<Rightarrow> org_directory" where
  "directory_step (SnapshotArrives src us) d = fst (sync_snapshot d src us)"
| "directory_step (EventArrives e) d = fst (apply_event d e)"
| "directory_step (AvailabilitySet u a) d = fst (set_approver_availability d u a)"
| "directory_step (DelegateSet u t) d = fst (set_approver_delegate d u t)"

fun reinstates :: "string \<Rightarrow> directory_change \<Rightarrow> bool" where
  "reinstates u (SnapshotArrives src us) = (u \<in> ou_user_id ` set us)"
| "reinstates u (EventArrives e) = (he_event_type e = Onboard \<and> he_user_id e = u)"
| "reinstates u _ = False"

definition departed :: "string \<Rightarrow> org_directory \<Rightarrow> bool" where
  "departed u d = (\<exists>usr. get_user d u = Some usr \<and> ou_status usr = EmploymentDeparted)"

lemma departed_sync_profile [simp]: "departed u (sync_profile_for_user d k p) = departed u d"
  by (auto simp: departed_def)

lemma departed_put_other: "k \<noteq> u \<Longrightarrow> departed u (put_user d k usr) = departed u d"
  by (simp add: departed_def)

lemma departed_sync_users: "u \<notin> ou_user_id ` set us \<Longrightarrow> departed u (sync_users d us) = departed u d"
  by (induction d us rule: sync_users.induct) (auto simp: departed_put_other)

lemma departed_step:
  assumes "departed u d" "\<not> reinstates u c"
  shows "departed u (directory_step c d)"
proof (cases c)
  case (EventArrives e)
  have "departed u (fst (apply_event d e))"
  proof (cases "he_event_id e \<in> od_processed_events d")
    case False
    then show ?thesis
      using assms EventArrives
      by (cases "he_event_type e") (auto simp: apply_event_def Let_def departed_def split: option.splits)
  qed (use assms(1) in \<open>simp add: apply_event_def\<close>)
  with EventArrives show ?thesis by simp
qed (use assms in \<open>auto simp: sync_snapshot_def Let_def departed_sync_users set_approver_availability_def
    set_approver_delegate_def split: option.splits\<close>)

lemma departed_run:
  "departed u d \<Longrightarrow> list_all (\<lambda>c. \<not> reinstates u c) cs \<Longrightarrow> departed u (fold directory_step cs d)"
  by (induction cs arbitrary: d) (auto intro: departed_step)

text \<open>
  C34. A departure takes effect.  A departure event for a known user that was not seen before
  issues exactly one revocation command for that user; and through any later snapshots, events and
  changes of availability and delegates, as long as no snapshot lists the user again and no event
  takes the user on again, no request is routed to the user except as the configured system
  fallback.  A snapshot that still lists the user does make it active again.
\<close>

theorem departure_takes_effect:
  assumes "directory_ok d" and "he_event_type e = Departure"
    and "he_event_id e \<notin> od_processed_events d" and "get_user d (he_user_id e) \<noteq> None"
    and "apply_event d e = (d', res)" and "list_all (\<lambda>c. \<not> reinstates (he_user_id e) c) changes"
  shows "res = Inr [\<lparr>rv_user_id = he_user_id e, rv_project_id = None, rv_reason = RevokeDeparture\<rparr>]
    \<and> (\<forall>v policy direct r. route_approver (fold directory_step changes d') v policy direct = Inr r
         \<longrightarrow> ar_resolved_user_id r = he_user_id e \<longrightarrow> ar_used_system_fallback r)"
proof -
  obtain usr where usr: "get_user d (he_user_id e) = Some usr" using assms(4) by blast
  have uid: "ou_user_id usr = he_user_id e" using directory_okD(1) [OF assms(1) usr] .
  have res: "res = Inr [\<lparr>rv_user_id = he_user_id e, rv_project_id = None, rv_reason = RevokeDeparture\<rparr>]"
    and "departed (he_user_id e) d'"
    using assms(2,3,5) usr uid by (auto simp: apply_event_def Let_def departed_def)
  from departed_run [OF this(2) assms(6)]
  have "\<not> is_approver_available (fold directory_step changes d') (he_user_id e)"
    by (auto simp: departed_def is_approver_available_def)
  with res show ?thesis by (auto dest!: route_approver_ok simp: route_ok_def split: if_splits)
qed

theorem departure_takes_effect_witness:
  "snd (apply_event sample_directory (sample_event ''e1'' ''deputy'' Departure))
     = Inr [\<lparr>rv_user_id = ''deputy'', rv_project_id = None, rv_reason = RevokeDeparture\<rparr>]
   \<and> \<not> (\<exists>v policy direct r. route_approver (fold directory_step
         [EventArrives (sample_event ''e2'' ''deputy'' Transfer), AvailabilitySet ''deputy'' ApproverAvailable]
         (fst (apply_event sample_directory (sample_event ''e1'' ''deputy'' Departure)))) v policy direct = Inr r
       \<and> ar_resolved_user_id r = ''deputy'' \<and> \<not> ar_used_system_fallback r)"
proof -
  let ?e = "sample_event ''e1'' ''deputy'' Departure"
  have "he_event_type ?e = Departure" "he_event_id ?e \<notin> od_processed_events sample_directory"
    "get_user sample_directory (he_user_id ?e) \<noteq> None" by code_simp+
  moreover have "list_all (\<lambda>c. \<not> reinstates (he_user_id ?e) c)
      [EventArrives (sample_event ''e2'' ''deputy'' Transfer), AvailabilitySet ''deputy'' ApproverAvailable]"
    by code_simp
  moreover have "he_user_id ?e = ''deputy''" by code_simp
  ultimately show ?thesis
    using departure_takes_effect [OF sample_directory_ok _ _ _ prod.collapse [symmetric], of ?e
        "[EventArrives (sample_event ''e2'' ''deputy'' Transfer), AvailabilitySet ''deputy'' ApproverAvailable]"] by metis
qed

text \<open>The next snapshot undoes a departure for a user it still lists.\<close>

lemma snapshot_reinstates:
  "is_approver_available (fold directory_step
     [EventArrives (sample_event ''e1'' ''deputy'' Departure),
      SnapshotArrives FeishuMock [sample_user ''deputy'' None None]] sample_directory) ''deputy''"
  by code_simp

text \<open>
  An early event is lost.  A departure, transfer or manager change for a user the
  directory does not know yet fails, but is recorded as processed: delivered again, it
  succeeds without doing anything, even after the user has been onboarded, and its
  revocation command is never issued.
\<close>

lemma early_event_is_lost:
  assumes "he_event_type e \<noteq> Onboard" and "he_event_id e \<notin> od_processed_events d"
    and "get_user d (he_user_id e) = None" and "apply_event d e = (d1, res)"
  shows "res = Inl (UserNotFound (he_user_id e)) \<and>
    apply_event (fst (apply_event d1 onboard)) e = (fst (apply_event d1 onboard), Inr [])"
proof -
  have "res = Inl (UserNotFound (he_user_id e))"
    using assms by (cases "he_event_type e") (auto simp: apply_event_def Let_def)
  moreover have "he_event_id e \<in> od_processed_events (fst (apply_event d1 onboard))"
    using apply_event_records [of d e] apply_event_records [of d1 onboard] assms(4) by simp
  ultimately show ?thesis by (simp add: apply_event_processed)
qed

lemma early_event_is_lost_witness:
  "\<exists>d. is_approver_available d ''late''
     \<and> apply_event d (sample_event ''e1'' ''late'' Departure) = (d, Inr [])"
proof -
  let ?e = "sample_event ''e1'' ''late'' Departure" and ?on = "sample_event ''e2'' ''late'' Onboard"
  let ?d1 = "fst (apply_event sample_directory ?e)"
  have "he_event_type ?e \<noteq> Onboard" "he_event_id ?e \<notin> od_processed_events sample_directory"
    "get_user sample_directory (he_user_id ?e) = None" by code_simp+
  from early_event_is_lost [OF this prod.collapse [symmetric], of ?on]
  have "apply_event (fst (apply_event ?d1 ?on)) ?e = (fst (apply_event ?d1 ?on), Inr [])" by blast
  moreover have "is_approver_available (fst (apply_event ?d1 ?on)) ''late''" by code_simp
  ultimately show ?thesis by blast
qed

end
