(* ===== verification/ApprovalEngine.thy ===== *)
theory ApprovalEngine
  imports OrgDirectory "HOL-Library.Word"
begin

text \<open>
  Crate \<open>sdqp-approval-engine\<close>: flows of approval steps, the instance that walks through them,
  and the operations \<open>approve\<close>, \<open>reject\<close>, \<open>delegate\<close> and \<open>tick_timeouts\<close>.  An operation
  mutates the instance and pushes to a notification sink, so it returns its result together
  with both, also when the result is an error.  Indexing a list out of range panics; the panic
  is the error \<open>IndexPanic\<close>.
\<close>

subsection \<open>Flows, instances and notifications\<close>

datatype approval_mode = Serial | ParallelAll | AnyOne

datatype approver_selector = SelectUser string | SelectManager

record approval_step =
  sd_step_id :: string
  sd_mode :: approval_mode
  sd_approvers :: "approver_selector list"
  sd_timeout_minutes :: int
  sd_escalation :: "approver_selector option"

record approval_flow =
  af_flow_id :: string
  af_version :: "32 word"
  af_steps :: "approval_step list"

record approval_request =
  rq_request_id :: string
  rq_applicant_user_id :: string
  rq_project_id :: string
  rq_data_source_id :: string

datatype approval_status = InstancePending | InstanceApproved | InstanceRejected

datatype step_status = StepPending | StepApproved | StepRejected | StepEscalated

record route_trace =
  rt_requested_user_id :: string
  rt_resolved_user_id :: string
  rt_route_kind :: route_kind
  rt_delegated_from :: "string option"
  rt_escalation_target :: "string option"
  rt_used_system_fallback :: bool
  rt_traversed_user_ids :: "string list"
  rt_unavailable_user_ids :: "string list"

definition trace_of_route :: "approver_route \<Rightarrow> route_trace" where
  "trace_of_route r =
     \<lparr>rt_requested_user_id = ar_requested_user_id r,
      rt_resolved_user_id = ar_resolved_user_id r,
      rt_route_kind = ar_route_kind r,
      rt_delegated_from = ar_delegated_from r,
      rt_escalation_target = ar_escalation_target r,
      rt_used_system_fallback = ar_used_system_fallback r,
      rt_traversed_user_ids = ar_traversed_user_ids r,
      rt_unavailable_user_ids = ar_unavailable_user_ids r\<rparr>"

record step_state =
  ss_step_id :: string
  ss_status :: step_status
  ss_pending_approvers :: "string list"
  ss_approved_by :: "string list"
  ss_escalation_target :: "string option"
  ss_delegated_to :: "string option"
  ss_routing :: "route_trace list"
  ss_due_at :: time

record approval_instance =
  ai_instance_id :: string
  ai_flow_id :: string
  ai_request_id :: string
  ai_current_step_index :: nat
  ai_step_states :: "step_state list"
  ai_status :: approval_status
  ai_audit_log :: "string list"

datatype notification_kind =
    ApprovalRequired | ApprovalDelegated | ApprovalEscalated | RequestApproved | RequestRejected
  | Informational

datatype notification_action = NotifyApprove | NotifyReject | NotifyDelegate

record notification_callback =
  nc_instance_id :: string
  nc_actions :: "notification_action list"

record notification =
  nt_recipient :: string
  nt_message :: string
  nt_kind :: notification_kind
  nt_step_id :: "string option"
  nt_callback :: "notification_callback option"

definition notification_informational :: "string \<Rightarrow> string \<Rightarrow> notification" where
  "notification_informational to msg =
     \<lparr>nt_recipient = to, nt_message = msg, nt_kind = Informational, nt_step_id = None,
      nt_callback = None\<rparr>"

definition decision_callback :: "string \<Rightarrow> notification_callback" where
  "decision_callback iid =
     \<lparr>nc_instance_id = iid, nc_actions = [NotifyApprove, NotifyReject, NotifyDelegate]\<rparr>"

definition notification_approval_required ::
  "string \<Rightarrow> string \<Rightarrow> string \<Rightarrow> string \<Rightarrow> notification" where
  "notification_approval_required to req step iid =
     \<lparr>nt_recipient = to,
      nt_message = ''Approval required for request '' @ req @ '' at step '' @ step,
      nt_kind = ApprovalRequired, nt_step_id = Some step,
      nt_callback = Some (decision_callback iid)\<rparr>"

definition notification_delegated ::
  "string \<Rightarrow> string \<Rightarrow> string \<Rightarrow> string \<Rightarrow> notification" where
  "notification_delegated to req step iid =
     \<lparr>nt_recipient = to, nt_message = ''Approval delegated for request '' @ req,
      nt_kind = ApprovalDelegated, nt_step_id = Some step,
      nt_callback = Some (decision_callback iid)\<rparr>"

definition notification_escalated ::
  "string \<Rightarrow> string \<Rightarrow> string \<Rightarrow> string \<Rightarrow> notification" where
  "notification_escalated to req step iid =
     \<lparr>nt_recipient = to, nt_message = ''Approval escalated for request '' @ req,
      nt_kind = ApprovalEscalated, nt_step_id = Some step,
      nt_callback = Some (decision_callback iid)\<rparr>"

definition notification_request_approved :: "string \<Rightarrow> string \<Rightarrow> notification" where
  "notification_request_approved to req =
     \<lparr>nt_recipient = to, nt_message = ''Access request '' @ req @ '' approved'',
      nt_kind = RequestApproved, nt_step_id = None, nt_callback = None\<rparr>"

definition notification_request_rejected :: "string \<Rightarrow> string \<Rightarrow> notification" where
  "notification_request_rejected to req =
     \<lparr>nt_recipient = to, nt_message = ''Access request '' @ req @ '' rejected'',
      nt_kind = RequestRejected, nt_step_id = None, nt_callback = None\<rparr>"

datatype approval_error =
    EmptyFlow
  | ApproverNotAssigned string
  | SerialOrderViolation
  | TerminalInstance
  | MissingManager
  | EmptyDelegateTarget
  | IndexPanic

type_synonym sink = "notification list"
type_synonym engine_outcome = "(approval_error + unit) \<times> approval_instance \<times> sink"

subsection \<open>Building a step\<close>

definition default_approver_policy :: resolution_policy where
  "default_approver_policy = policy_with_system_fallback ''user-sysadmin''"

definition resolve_selector_candidate ::
  "approver_selector \<Rightarrow> approval_request \<Rightarrow> org_directory \<Rightarrow> string option" where
  "resolve_selector_candidate sel req d =
     (case sel of
        SelectUser u \<Rightarrow> Some u
      | SelectManager \<Rightarrow>
          (case resolve_manager d (rq_applicant_user_id req) of Inl e \<Rightarrow> None | Inr m \<Rightarrow> Some m))"

definition missing_manager :: "hr_error + 'a \<Rightarrow> approval_error + 'a" where
  "missing_manager r = (case r of Inl e \<Rightarrow> Inl MissingManager | Inr a \<Rightarrow> Inr a)"

text \<open>The route of one selector: the closure of \<open>build_step_state\<close> and of the escalation.\<close>

definition route_selector ::
  "org_directory \<Rightarrow> approval_request \<Rightarrow> resolution_policy \<Rightarrow> approver_selector
     \<Rightarrow> approval_error + approver_route" where
  "route_selector d req pol sel =
     res_bind (res_of_option MissingManager (resolve_selector_candidate sel req d))
       (\<lambda>candidate. missing_manager (resolve_effective_approver_with_policy d candidate pol))"

definition build_step_state ::
  "approval_step \<Rightarrow> approval_request \<Rightarrow> org_directory \<Rightarrow> resolution_policy \<Rightarrow> time
     \<Rightarrow> approval_error + step_state" where
  "build_step_state step req d pol now =
     res_bind (res_map_list (route_selector d req pol) (sd_approvers step))
       (\<lambda>routes. Inr
          \<lparr>ss_step_id = sd_step_id step,
           ss_status = StepPending,
           ss_pending_approvers = map ar_resolved_user_id routes,
           ss_approved_by = [],
           ss_escalation_target = find_map ar_escalation_target routes,
           ss_delegated_to =
             find_map (\<lambda>r. map_option (\<lambda>_. ar_resolved_user_id r) (ar_delegated_from r)) routes,
           ss_routing = map trace_of_route routes,
           ss_due_at = now + minutes_ns (sd_timeout_minutes step)\<rparr>)"

definition notify_step ::
  "sink \<Rightarrow> string \<Rightarrow> step_state \<Rightarrow> approval_request \<Rightarrow> approval_step \<Rightarrow> sink" where
  "notify_step ns iid ss req step =
     ns @ map (\<lambda>a. notification_approval_required a (rq_request_id req) (sd_step_id step) iid)
            (ss_pending_approvers ss)"

subsection \<open>The operations\<close>

definition start_instance_with_policy ::
  "approval_flow \<Rightarrow> approval_request \<Rightarrow> org_directory \<Rightarrow> resolution_policy \<Rightarrow> string \<Rightarrow> time
     \<Rightarrow> sink \<Rightarrow> (approval_error + approval_instance) \<times> sink" where
  "start_instance_with_policy flow req d pol iid now ns =
     (case af_steps flow of
        [] \<Rightarrow> (Inl EmptyFlow, ns)
      | first # _ \<Rightarrow>
          (case build_step_state first req d pol now of
             Inl e \<Rightarrow> (Inl e, ns)
           | Inr ss \<Rightarrow>
               (Inr \<lparr>ai_instance_id = iid, ai_flow_id = af_flow_id flow,
                     ai_request_id = rq_request_id req, ai_current_step_index = 0,
                     ai_step_states = [ss], ai_status = InstancePending,
                     ai_audit_log =
                       [''instance-started:'' @ rq_request_id req @ '':'' @
                        show_nat (unat (af_version flow))]\<rparr>,
                notify_step ns iid ss req first)))"

definition start_instance ::
  "approval_flow \<Rightarrow> approval_request \<Rightarrow> org_directory \<Rightarrow> string \<Rightarrow> time \<Rightarrow> sink
     \<Rightarrow> (approval_error + approval_instance) \<times> sink" where
  "start_instance flow req d iid now ns =
     start_instance_with_policy flow req d default_approver_policy iid now ns"

definition log_entry :: "approval_instance \<Rightarrow> string \<Rightarrow> approval_instance" where
  "log_entry i line = i\<lparr>ai_audit_log := ai_audit_log i @ [line]\<rparr>"

definition set_step :: "approval_instance \<Rightarrow> step_state \<Rightarrow> approval_instance" where
  "set_step i ss =
     i\<lparr>ai_step_states := (ai_step_states i)[ai_current_step_index i := ss]\<rparr>"

definition advance_instance ::
  "approval_flow \<Rightarrow> approval_request \<Rightarrow> org_directory \<Rightarrow> resolution_policy \<Rightarrow> time
     \<Rightarrow> approval_instance \<Rightarrow> sink \<Rightarrow> engine_outcome" where
  "advance_instance flow req d pol now i ns =
     (let next_index = ai_current_step_index i + 1 in
      if length (af_steps flow) \<le> next_index then
        (Inr (), log_entry (i\<lparr>ai_status := InstanceApproved\<rparr>)
                   (''approval-approved:'' @ rq_request_id req), ns)
      else
        let i1 = i\<lparr>ai_current_step_index := next_index\<rparr>;
            next_step = af_steps flow ! next_index in
        case build_step_state next_step req d pol now of
          Inl e \<Rightarrow> (Inl e, i1, ns)
        | Inr ss \<Rightarrow>
            (Inr (), i1\<lparr>ai_step_states := ai_step_states i1 @ [ss]\<rparr>,
             notify_step ns (ai_instance_id i1) ss req next_step))"

text \<open>The approver leaves the pending list the way the mode says.\<close>

definition settle_approver ::
  "approval_mode \<Rightarrow> string \<Rightarrow> string list \<Rightarrow> approval_error + string list" where
  "settle_approver mode actor pending =
     (case mode of
        Serial \<Rightarrow>
          (case pending of
             [] \<Rightarrow> Inl SerialOrderViolation
           | a # rest \<Rightarrow> if a \<noteq> actor then Inl SerialOrderViolation else Inr rest)
      | ParallelAll \<Rightarrow> Inr (filter (\<lambda>a. a \<noteq> actor) pending)
      | AnyOne \<Rightarrow> Inr [])"

definition approve_with_policy ::
  "approval_flow \<Rightarrow> approval_request \<Rightarrow> org_directory \<Rightarrow> resolution_policy \<Rightarrow> string \<Rightarrow> time
     \<Rightarrow> approval_instance \<Rightarrow> sink \<Rightarrow> engine_outcome" where
  "approve_with_policy flow req d pol actor now i ns =
     (if ai_status i \<noteq> InstancePending then (Inl TerminalInstance, i, ns)
      else case nth_opt (af_steps flow) (ai_current_step_index i) of
        None \<Rightarrow> (Inl IndexPanic, i, ns)
      | Some def \<Rightarrow>
          (case nth_opt (ai_step_states i) (ai_current_step_index i) of
             None \<Rightarrow> (Inl IndexPanic, i, ns)
           | Some ss \<Rightarrow>
               if actor \<notin> set (ss_pending_approvers ss)
               then (Inl (ApproverNotAssigned actor), i, ns)
               else case settle_approver (sd_mode def) actor (ss_pending_approvers ss) of
                 Inl e \<Rightarrow> (Inl e, i, ns)
               | Inr pending \<Rightarrow>
                   let ss1 = ss\<lparr>ss_pending_approvers := pending,
                                ss_approved_by := ss_approved_by ss @ [actor]\<rparr>;
                       line = ''approval-recorded:'' @ ss_step_id ss1 @ '':'' @ actor in
                   if pending = [] then
                     advance_instance flow req d pol now
                       (log_entry (set_step i (ss1\<lparr>ss_status := StepApproved\<rparr>)) line) ns
                   else (Inr (), log_entry (set_step i ss1) line, ns)))"

definition approve ::
  "approval_flow \<Rightarrow> approval_request \<Rightarrow> org_directory \<Rightarrow> string \<Rightarrow> time
     \<Rightarrow> approval_instance \<Rightarrow> sink \<Rightarrow> engine_outcome" where
  "approve flow req d actor now i ns =
     approve_with_policy flow req d default_approver_policy actor now i ns"

definition reject :: "string \<Rightarrow> approval_instance \<Rightarrow> sink \<Rightarrow> engine_outcome" where
  "reject actor i ns =
     (if ai_status i \<noteq> InstancePending then (Inl TerminalInstance, i, ns)
      else case nth_opt (ai_step_states i) (ai_current_step_index i) of
        None \<Rightarrow> (Inl IndexPanic, i, ns)
      | Some ss \<Rightarrow>
          (Inr (),
           log_entry ((set_step i (ss\<lparr>ss_status := StepRejected\<rparr>))\<lparr>ai_status := InstanceRejected\<rparr>)
             (''approval-rejected:'' @ ss_step_id ss @ '':'' @ actor), ns))"

text \<open>
  The current step with the approver at a position replaced by the delegate, and the route
  recorded when a directory named it.
\<close>

definition redirect_step ::
  "step_state \<Rightarrow> nat \<Rightarrow> string \<Rightarrow> approver_route option \<Rightarrow> step_state" where
  "redirect_step ss p resolved routed =
     (let ss1 = ss\<lparr>ss_pending_approvers := (ss_pending_approvers ss)[p := resolved],
                   ss_delegated_to := Some resolved\<rparr>;
          ss2 = (case routed of
                   Some r \<Rightarrow>
                     if ar_escalation_target r \<noteq> None \<or> ar_used_system_fallback r
                     then ss1\<lparr>ss_escalation_target := Some resolved\<rparr> else ss1
                 | None \<Rightarrow> ss1) in
      case routed of
        Some r \<Rightarrow> ss2\<lparr>ss_routing := ss_routing ss2 @ [trace_of_route r]\<rparr>
      | None \<Rightarrow> ss2)"

text \<open>The directory is optional: without it the delegate is taken as named.\<close>

definition delegate_internal ::
  "approval_request \<Rightarrow> string \<Rightarrow> string \<Rightarrow> org_directory option \<Rightarrow> resolution_policy
     \<Rightarrow> approval_instance \<Rightarrow> sink \<Rightarrow> engine_outcome" where
  "delegate_internal req actor delegate_to directory pol i ns =
     (if ai_status i \<noteq> InstancePending then (Inl TerminalInstance, i, ns)
      else if trim delegate_to = [] then (Inl EmptyDelegateTarget, i, ns)
      else case nth_opt (ai_step_states i) (ai_current_step_index i) of
        None \<Rightarrow> (Inl IndexPanic, i, ns)
      | Some ss \<Rightarrow>
          (case position (\<lambda>a. a = actor) (ss_pending_approvers ss) of
             None \<Rightarrow> (Inl (ApproverNotAssigned actor), i, ns)
           | Some p \<Rightarrow>
               (case (case directory of
                        None \<Rightarrow> Inr None
                      | Some d \<Rightarrow>
                          map_sum id Some
                            (missing_manager
                              (resolve_effective_approver_with_policy d delegate_to pol))) of
                  Inl e \<Rightarrow> (Inl e, i, ns)
                | Inr routed \<Rightarrow>
                    let resolved = (case routed of Some r \<Rightarrow> ar_resolved_user_id r
                                    | None \<Rightarrow> delegate_to) in
                    (Inr (),
                     log_entry (set_step i (redirect_step ss p resolved routed))
                       (''approval-delegated:'' @ ss_step_id ss @ '':'' @ actor @ '':'' @
                        delegate_to @ '':'' @ resolved),
                     ns @ [notification_delegated resolved (rq_request_id req) (ss_step_id ss)
                             (ai_instance_id i)]))))"

definition delegate_without_directory ::
  "approval_request \<Rightarrow> string \<Rightarrow> string \<Rightarrow> approval_instance \<Rightarrow> sink \<Rightarrow> engine_outcome" where
  "delegate_without_directory req actor delegate_to i ns =
     delegate_internal req actor delegate_to None default_approver_policy i ns"

definition delegate_with_directory_and_policy ::
  "approval_request \<Rightarrow> string \<Rightarrow> string \<Rightarrow> org_directory \<Rightarrow> resolution_policy
     \<Rightarrow> approval_instance \<Rightarrow> sink \<Rightarrow> engine_outcome" where
  "delegate_with_directory_and_policy req actor delegate_to d pol i ns =
     delegate_internal req actor delegate_to (Some d) pol i ns"

text \<open>The approver an overdue step is handed to.\<close>

definition timeout_route ::
  "approval_step \<Rightarrow> approval_request \<Rightarrow> org_directory \<Rightarrow> resolution_policy \<Rightarrow> step_state
     \<Rightarrow> approval_error + approver_route" where
  "timeout_route def req d pol ss =
     (case sd_escalation def of
        Some sel \<Rightarrow> route_selector d req pol sel
      | None \<Rightarrow>
          (case ss_pending_approvers ss of
             [] \<Rightarrow> Inl MissingManager
           | overdue # _ \<Rightarrow>
               missing_manager (reroute_unavailable_approver_with_policy d overdue pol)))"

text \<open>An overdue step handed to its new approver.\<close>

definition escalate_step ::
  "step_state \<Rightarrow> approval_step \<Rightarrow> approver_route \<Rightarrow> time \<Rightarrow> step_state" where
  "escalate_step ss def route now =
     ss\<lparr>ss_pending_approvers := [ar_resolved_user_id route],
        ss_delegated_to :=
          map_option (\<lambda>_. ar_resolved_user_id route) (ar_delegated_from route),
        ss_escalation_target := Some (ar_resolved_user_id route),
        ss_status := StepEscalated,
        ss_due_at := now + minutes_ns (sd_timeout_minutes def),
        ss_routing := ss_routing ss @ [trace_of_route route]\<rparr>"

definition tick_timeouts_with_policy ::
  "approval_flow \<Rightarrow> approval_request \<Rightarrow> org_directory \<Rightarrow> resolution_policy \<Rightarrow> time
     \<Rightarrow> approval_instance \<Rightarrow> sink \<Rightarrow> engine_outcome" where
  "tick_timeouts_with_policy flow req d pol now i ns =
     (if ai_status i \<noteq> InstancePending then (Inl TerminalInstance, i, ns)
      else case nth_opt (af_steps flow) (ai_current_step_index i) of
        None \<Rightarrow> (Inl IndexPanic, i, ns)
      | Some def \<Rightarrow>
          (case nth_opt (ai_step_states i) (ai_current_step_index i) of
             None \<Rightarrow> (Inl IndexPanic, i, ns)
           | Some ss \<Rightarrow>
               if now < ss_due_at ss then (Inr (), i, ns)
               else case timeout_route def req d pol ss of
                 Inl e \<Rightarrow> (Inl e, i, ns)
               | Inr route \<Rightarrow>
                   if ar_resolved_user_id route \<noteq> [] then
                     (Inr (),
                      log_entry (set_step i (escalate_step ss def route now))
                        (''approval-escalated:'' @ ss_step_id ss @ '':'' @
                         ar_resolved_user_id route),
                      ns @ [notification_escalated (ar_resolved_user_id route)
                              (rq_request_id req) (ss_step_id ss) (ai_instance_id i)])
                   else
                     (Inr (),
                      log_entry ((set_step i (ss\<lparr>ss_status := StepRejected\<rparr>))
                                   \<lparr>ai_status := InstanceRejected\<rparr>)
                        (''approval-timeout-rejected:'' @ ss_step_id ss), ns)))"

definition tick_timeouts ::
  "approval_flow \<Rightarrow> approval_request \<Rightarrow> org_directory \<Rightarrow> time
     \<Rightarrow> approval_instance \<Rightarrow> sink \<Rightarrow> engine_outcome" where
  "tick_timeouts flow req d now i ns =
     tick_timeouts_with_policy flow req d default_approver_policy now i ns"

subsection \<open>The assigned approvers\<close>

text \<open>
  The interface the engine uses of the directory: a routing function whose every route ends at
  an approver with some promised quality.
\<close>

locale approver_source =
  fixes route :: "'sel \<Rightarrow> 'e + approver_route"
    and good :: "string \<Rightarrow> bool"
  assumes route_good: "route sel = Inr r \<Longrightarrow> good (ar_resolved_user_id r)"
begin

lemma assigned_good:
  assumes "res_map_list route sels = Inr routes"
  shows "list_all good (map ar_resolved_user_id routes)"
proof -
  have "list_all2 (\<lambda>x y. route x = Inr y) sels routes" using assms by (simp add: res_map_list_Inr)
  then show ?thesis by (induction rule: list_all2_induct) (auto dest: route_good)
qed

lemma assigned_length:
  "res_map_list route sels = Inr routes \<Longrightarrow> length (map ar_resolved_user_id routes) = length sels"
  by (simp add: res_map_list_length)

lemma assigned_nonempty:
  "\<lbrakk> res_map_list route sels = Inr routes; sels \<noteq> [] \<rbrakk> \<Longrightarrow> map ar_resolved_user_id routes \<noteq> []"
  by (auto dest: res_map_list_length)

end

definition acceptable_approver :: "org_directory \<Rightarrow> resolution_policy \<Rightarrow> string \<Rightarrow> bool" where
  "acceptable_approver d pol u =
     (is_approver_available d u \<or> u = rp_system_fallback_user_id (policy_normalized pol))"

lemma route_approver_acceptable:
  "route_approver d u pol direct = Inr r \<Longrightarrow> acceptable_approver d pol (ar_resolved_user_id r)"
  using route_approver_ok [of d u pol direct r]
  by (auto simp: route_ok_def acceptable_approver_def split: if_splits)

lemma missing_manager_Inr [simp]: "missing_manager r = Inr a \<longleftrightarrow> r = Inr a"
  by (auto simp: missing_manager_def split: sum.splits)

lemma missing_manager_Inl [simp]:
  "missing_manager r = Inl e \<longleftrightarrow> e = MissingManager \<and> (\<exists>x. r = Inl x)"
  by (auto simp: missing_manager_def split: sum.splits)

lemma route_selector_acceptable:
  "route_selector d req pol sel = Inr r \<Longrightarrow> acceptable_approver d pol (ar_resolved_user_id r)"
  by (auto simp: route_selector_def res_bind_eq_Inr resolve_effective_approver_with_policy_def
      intro: route_approver_acceptable)

interpretation step_routes: approver_source "route_selector d req pol" "acceptable_approver d pol"
  for d req pol
  by unfold_locales (rule route_selector_acceptable)

lemma build_step_state_assigned:
  assumes "build_step_state step req d pol now = Inr ss"
  shows "list_all (acceptable_approver d pol) (ss_pending_approvers ss)"
    and "length (ss_pending_approvers ss) = length (sd_approvers step)"
    and "ss_pending_approvers ss = map rt_resolved_user_id (ss_routing ss)"
    and "ss_step_id ss = sd_step_id step" "ss_status ss = StepPending" "ss_approved_by ss = []"
proof -
  obtain routes where routes: "res_map_list (route_selector d req pol) (sd_approvers step) = Inr routes"
    and ss: "ss_pending_approvers ss = map ar_resolved_user_id routes"
      "ss_routing ss = map trace_of_route routes"
      "ss_step_id ss = sd_step_id step" "ss_status ss = StepPending" "ss_approved_by ss = []"
    using assms by (auto simp: build_step_state_def res_bind_eq_Inr)
  show "list_all (acceptable_approver d pol) (ss_pending_approvers ss)"
    unfolding ss by (rule step_routes.assigned_good [OF routes])
  show "length (ss_pending_approvers ss) = length (sd_approvers step)"
    unfolding ss by (rule step_routes.assigned_length [OF routes])
  show "ss_pending_approvers ss = map rt_resolved_user_id (ss_routing ss)"
    by (simp add: ss trace_of_route_def)
qed (use assms in \<open>auto simp: build_step_state_def res_bind_eq_Inr\<close>)

lemma timeout_route_acceptable:
  "timeout_route def req d pol ss = Inr r \<Longrightarrow> acceptable_approver d pol (ar_resolved_user_id r)"
  by (auto simp: timeout_route_def reroute_unavailable_approver_with_policy_def
      intro: route_selector_acceptable route_approver_acceptable
      split: option.splits list.splits)

lemma acceptable_nonempty:
  "\<lbrakk> acceptable_approver d pol u; get_user d [] = None \<rbrakk> \<Longrightarrow> u \<noteq> []"
  using normalized_fallback_nonempty [of pol] available_known [of d "[]"]
  by (auto simp: acceptable_approver_def)

subsection \<open>The invariant of an instance\<close>

definition step_done :: "step_state \<Rightarrow> bool" where
  "step_done ss = (ss_status ss = StepApproved \<and> ss_pending_approvers ss = [] \<and>
     ss_approved_by ss \<noteq> [])"

definition instance_ok :: "approval_flow \<Rightarrow> approval_instance \<Rightarrow> bool" where
  "instance_ok flow i =
     (ai_step_states i \<noteq> [] \<and>
      length (ai_step_states i) = Suc (ai_current_step_index i) \<and>
      length (ai_step_states i) \<le> length (af_steps flow) \<and>
      map ss_step_id (ai_step_states i)
        = map sd_step_id (take (length (ai_step_states i)) (af_steps flow)) \<and>
      list_all step_done (butlast (ai_step_states i)) \<and>
      (case ai_status i of
         InstancePending \<Rightarrow> ss_status (last (ai_step_states i)) \<in> {StepPending, StepEscalated}
       | InstanceApproved \<Rightarrow>
           length (ai_step_states i) = length (af_steps flow) \<and> step_done (last (ai_step_states i))
       | InstanceRejected \<Rightarrow> ss_status (last (ai_step_states i)) = StepRejected))"

lemma instance_ok_current:
  assumes "instance_ok flow i"
  shows "nth_opt (ai_step_states i) (ai_current_step_index i) = Some (last (ai_step_states i))"
    and "\<exists>def. nth_opt (af_steps flow) (ai_current_step_index i) = Some def"
    and "ai_step_states (set_step i ss) = butlast (ai_step_states i) @ [ss]"
proof -
  have len: "length (ai_step_states i) = Suc (ai_current_step_index i)"
    and bound: "length (ai_step_states i) \<le> length (af_steps flow)"
    using assms by (auto simp: instance_ok_def)
  have snoc: "ai_step_states i = butlast (ai_step_states i) @ [last (ai_step_states i)]"
    using len by (metis append_butlast_last_id length_0_conv nat.distinct(1))
  have blen: "length (butlast (ai_step_states i)) = ai_current_step_index i"
    using len by simp
  show "nth_opt (ai_step_states i) (ai_current_step_index i) = Some (last (ai_step_states i))"
    using len last_conv_nth [of "ai_step_states i"] by (cases "ai_step_states i") (simp_all add: nth_opt_def)
  show "\<exists>def. nth_opt (af_steps flow) (ai_current_step_index i) = Some def"
    using len bound by (simp add: nth_opt_def)
  have "(butlast (ai_step_states i) @ [last (ai_step_states i)])[ai_current_step_index i := ss]
          = butlast (ai_step_states i) @ [ss]"
    using blen by (simp add: list_update_append)
  then show "ai_step_states (set_step i ss) = butlast (ai_step_states i) @ [ss]"
    using snoc by (simp add: set_step_def)
qed

lemma set_step_frame [simp]:
  "ai_instance_id (set_step i ss) = ai_instance_id i" "ai_flow_id (set_step i ss) = ai_flow_id i"
  "ai_request_id (set_step i ss) = ai_request_id i"
  "ai_current_step_index (set_step i ss) = ai_current_step_index i"
  "ai_status (set_step i ss) = ai_status i" "ai_audit_log (set_step i ss) = ai_audit_log i"
  "length (ai_step_states (set_step i ss)) = length (ai_step_states i)"
  by (simp_all add: set_step_def)

lemma log_entry_frame [simp]:
  "ai_instance_id (log_entry i l) = ai_instance_id i" "ai_flow_id (log_entry i l) = ai_flow_id i"
  "ai_request_id (log_entry i l) = ai_request_id i"
  "ai_current_step_index (log_entry i l) = ai_current_step_index i"
  "ai_step_states (log_entry i l) = ai_step_states i"
  "ai_status (log_entry i l) = ai_status i" "ai_audit_log (log_entry i l) = ai_audit_log i @ [l]"
  by (simp_all add: log_entry_def)

text \<open>Replacing the current step by one with the same identifier.\<close>

lemma instance_ok_set_step:
  assumes "instance_ok flow i" "ss_step_id ss = ss_step_id (last (ai_step_states i))"
    and "case st of
           InstancePending \<Rightarrow> ss_status ss \<in> {StepPending, StepEscalated}
         | InstanceApproved \<Rightarrow> length (ai_step_states i) = length (af_steps flow) \<and> step_done ss
         | InstanceRejected \<Rightarrow> ss_status ss = StepRejected"
    and "ai_step_states j = ai_step_states (set_step i ss)" "ai_status j = st"
    and "ai_current_step_index j = ai_current_step_index i"
  shows "instance_ok flow j"
proof -
  have states: "ai_step_states j = butlast (ai_step_states i) @ [ss]"
    using assms(4) instance_ok_current(3) [OF assms(1)] by simp
  have snoc: "ai_step_states i \<noteq> []" using assms(1) by (simp add: instance_ok_def)
  then have ids: "map ss_step_id (ai_step_states j) = map ss_step_id (ai_step_states i)"
    using states assms(2) by (metis append_butlast_last_id list.simps(8,9) map_append)
  then have len: "length (ai_step_states j) = length (ai_step_states i)"
    using map_eq_imp_length_eq by blast
  show ?thesis
    using assms(1,3,5,6) states ids len
    by (simp add: instance_ok_def split: approval_status.splits)
qed


lemma advance_instance_ok:
  assumes ok: "instance_ok flow i" "ai_status i = InstancePending"
    and ss: "ss_step_id ss = ss_step_id (last (ai_step_states i))" "step_done ss"
    and adv: "advance_instance flow req d pol now (log_entry (set_step i ss) line) ns = (Inr (), i', ns')"
  shows "instance_ok flow i'"
proof (cases "length (af_steps flow) \<le> ai_current_step_index i + 1")
  case True
  have "length (ai_step_states i) = length (af_steps flow)"
    using ok True by (simp add: instance_ok_def)
  then show ?thesis
    using adv True ss
    by (intro instance_ok_set_step [OF ok(1), of ss InstanceApproved])
      (auto simp: advance_instance_def Let_def)
next
  case False
  let ?n = "ai_current_step_index i + 1"
  obtain ss' where next': "build_step_state (af_steps flow ! ?n) req d pol now = Inr ss'"
    and i': "ai_step_states i' = butlast (ai_step_states i) @ [ss, ss']"
      "ai_current_step_index i' = ?n" "ai_status i' = InstancePending"
    using adv False ok instance_ok_current(3) [OF ok(1)]
    by (auto simp: advance_instance_def Let_def split: sum.splits)
  have snoc: "ai_step_states i \<noteq> []" and len: "length (ai_step_states i) = ?n"
    using ok by (simp_all add: instance_ok_def)
  have "map ss_step_id (butlast (ai_step_states i) @ [ss]) = map ss_step_id (ai_step_states i)"
    using snoc ss by (metis append_butlast_last_id list.simps(8,9) map_append)
  also have "\<dots> = map sd_step_id (take ?n (af_steps flow))"
    using ok len by (simp add: instance_ok_def)
  finally have "map ss_step_id (ai_step_states i') = map sd_step_id (take (Suc ?n) (af_steps flow))"
    using False build_step_state_assigned(4) [OF next'] by (simp add: i' take_Suc_conv_app_nth)
  moreover have "length (ai_step_states i') = Suc ?n" using len by (simp add: i')
  moreover have "ss_status ss' = StepPending" by (rule build_step_state_assigned(5) [OF next'])
  ultimately show ?thesis
    using ok ss False by (simp add: instance_ok_def i' butlast_append)
qed

lemma start_instance_ok:
  assumes "start_instance_with_policy flow req d pol iid now ns = (Inr i, ns')"
  shows "instance_ok flow i"
  using assms
  by (auto simp: start_instance_with_policy_def instance_ok_def
      dest: build_step_state_assigned(4,5) split: list.splits sum.splits)

lemma approve_cases:
  assumes "approve_with_policy flow req d pol actor now i ns = (Inr (), i', ns')"
  obtains def ss pending where
    "ai_status i = InstancePending"
    "nth_opt (af_steps flow) (ai_current_step_index i) = Some def"
    "nth_opt (ai_step_states i) (ai_current_step_index i) = Some ss"
    "actor \<in> set (ss_pending_approvers ss)"
    "settle_approver (sd_mode def) actor (ss_pending_approvers ss) = Inr pending"
    "pending \<noteq> [] \<longrightarrow> ns' = ns \<and> i' = log_entry (set_step i
       (ss\<lparr>ss_pending_approvers := pending, ss_approved_by := ss_approved_by ss @ [actor]\<rparr>))
       (''approval-recorded:'' @ ss_step_id ss @ '':'' @ actor)"
    "pending = [] \<longrightarrow> advance_instance flow req d pol now (log_entry (set_step i
       (ss\<lparr>ss_pending_approvers := [], ss_approved_by := ss_approved_by ss @ [actor],
           ss_status := StepApproved\<rparr>))
       (''approval-recorded:'' @ ss_step_id ss @ '':'' @ actor)) ns = (Inr (), i', ns')"
  using assms
  by (auto simp: approve_with_policy_def Let_def split: if_splits option.splits sum.splits)

lemma approve_ok:
  assumes "instance_ok flow i"
    and "approve_with_policy flow req d pol actor now i ns = (Inr (), i', ns')"
  shows "instance_ok flow i'"
  using assms(2)
proof (cases rule: approve_cases)
  case (1 def ss pending)
  then have ss: "ss = last (ai_step_states i)"
    using instance_ok_current(1) [OF assms(1)] by simp
  show ?thesis
  proof (cases "pending = []")
    case True
    with 1 ss show ?thesis
      by (intro advance_instance_ok [OF assms(1)]) (auto simp: step_done_def)
  next
    case False
    with 1 ss assms(1) show ?thesis
      by (intro instance_ok_set_step [OF assms(1), of "ss\<lparr>ss_pending_approvers := pending,
            ss_approved_by := ss_approved_by ss @ [actor]\<rparr>" InstancePending])
        (auto simp: instance_ok_def)
  qed
qed

lemma reject_ok:
  assumes "instance_ok flow i" "reject actor i ns = (Inr (), i', ns')"
  shows "instance_ok flow i'"
  using assms(2) instance_ok_current(1) [OF assms(1)]
  by (intro instance_ok_set_step [OF assms(1), of
        "(last (ai_step_states i))\<lparr>ss_status := StepRejected\<rparr>" InstanceRejected])
    (auto simp: reject_def split: if_splits)

lemma escalate_step_frame [simp]:
  "ss_step_id (escalate_step ss def route now) = ss_step_id ss"
  "ss_status (escalate_step ss def route now) = StepEscalated"
  "ss_pending_approvers (escalate_step ss def route now) = [ar_resolved_user_id route]"
  by (simp_all add: escalate_step_def)

lemma tick_cases:
  assumes "tick_timeouts_with_policy flow req d pol now i ns = (Inr (), i', ns')"
  obtains
    (idle) "ai_status i = InstancePending" "i' = i" "ns' = ns"
  | (escalated) def ss route line n where
      "ai_status i = InstancePending"
      "nth_opt (af_steps flow) (ai_current_step_index i) = Some def"
      "nth_opt (ai_step_states i) (ai_current_step_index i) = Some ss"
      "ss_due_at ss \<le> now" "timeout_route def req d pol ss = Inr route"
      "i' = log_entry (set_step i (escalate_step ss def route now)) line" "ns' = ns @ [n]"
  | (rejected) def ss route line where
      "ai_status i = InstancePending"
      "nth_opt (ai_step_states i) (ai_current_step_index i) = Some ss"
      "timeout_route def req d pol ss = Inr route" "ar_resolved_user_id route = []"
      "i' = log_entry ((set_step i (ss\<lparr>ss_status := StepRejected\<rparr>))
              \<lparr>ai_status := InstanceRejected\<rparr>) line" "ns' = ns"
proof -
  have pending: "ai_status i = InstancePending"
    using assms by (simp add: tick_timeouts_with_policy_def split: if_splits)
  obtain def ss where def: "nth_opt (af_steps flow) (ai_current_step_index i) = Some def"
    and ss: "nth_opt (ai_step_states i) (ai_current_step_index i) = Some ss"
    using assms pending by (simp add: tick_timeouts_with_policy_def split: option.splits)
  note tick = assms [unfolded tick_timeouts_with_policy_def def ss option.case]
  show thesis
  proof (cases "now < ss_due_at ss")
    case True
    with tick pending show thesis by (intro idle) simp_all
  next
    case False
    with tick pending obtain route where route: "timeout_route def req d pol ss = Inr route"
      by (cases "timeout_route def req d pol ss") simp_all
    show thesis
    proof (cases "ar_resolved_user_id route = []")
      case True
      with tick pending False route have
        "i' = log_entry ((set_step i (ss\<lparr>ss_status := StepRejected\<rparr>))
                \<lparr>ai_status := InstanceRejected\<rparr>) (''approval-timeout-rejected:'' @ ss_step_id ss)"
        "ns' = ns" by simp_all
      then show thesis by (rule rejected [OF pending ss route True])
    next
      case neq: False
      have "ss_due_at ss \<le> now" using False by simp
      with tick pending False route neq have
        "i' = log_entry (set_step i (escalate_step ss def route now))
           (''approval-escalated:'' @ ss_step_id ss @ '':'' @ ar_resolved_user_id route)"
        "ns' = ns @ [notification_escalated (ar_resolved_user_id route) (rq_request_id req)
                       (ss_step_id ss) (ai_instance_id i)]" by simp_all
      with \<open>ss_due_at ss \<le> now\<close> show thesis by (intro escalated [OF pending def ss _ route])
    qed
  qed
qed

lemma tick_ok:
  assumes "instance_ok flow i"
    and "tick_timeouts_with_policy flow req d pol now i ns = (Inr (), i', ns')"
  shows "instance_ok flow i'"
  using assms(2)
proof (cases rule: tick_cases)
  case (escalated def ss route line n)
  then show ?thesis
    using instance_ok_current(1) [OF assms(1)]
    by (intro instance_ok_set_step
        [OF assms(1), of "escalate_step ss def route now" InstancePending]) auto
next
  case (rejected def ss route line)
  then show ?thesis
    using instance_ok_current(1) [OF assms(1)]
    by (intro instance_ok_set_step
        [OF assms(1), of "ss\<lparr>ss_status := StepRejected\<rparr>" InstanceRejected]) auto
qed (use assms(1) in simp)

lemma redirect_step_frame [simp]:
  "ss_step_id (redirect_step ss p u routed) = ss_step_id ss"
  "ss_status (redirect_step ss p u routed) = ss_status ss"
  "ss_approved_by (redirect_step ss p u routed) = ss_approved_by ss"
  "ss_due_at (redirect_step ss p u routed) = ss_due_at ss"
  "ss_pending_approvers (redirect_step ss p u routed) = (ss_pending_approvers ss)[p := u]"
  by (auto simp: redirect_step_def Let_def split: option.splits)

lemma delegate_cases:
  assumes "delegate_internal req actor target dir pol i ns = (Inr (), i', ns')"
  obtains ss p u routed line n where
    "ai_status i = InstancePending"
    "nth_opt (ai_step_states i) (ai_current_step_index i) = Some ss"
    "position (\<lambda>a. a = actor) (ss_pending_approvers ss) = Some p"
    "i' = log_entry (set_step i (redirect_step ss p u routed)) line" "ns' = ns @ [n]"
    "case dir of None \<Rightarrow> u = target \<and> routed = None
       | Some d \<Rightarrow> \<exists>r. resolve_effective_approver_with_policy d target pol = Inr r \<and>
           routed = Some r \<and> u = ar_resolved_user_id r"
proof -
  have pending: "ai_status i = InstancePending" and nonblank: "trim target \<noteq> []"
    using assms by (simp_all add: delegate_internal_def split: if_splits)
  obtain ss where ss: "nth_opt (ai_step_states i) (ai_current_step_index i) = Some ss"
    using assms pending nonblank by (simp add: delegate_internal_def split: option.splits)
  obtain p where p: "position (\<lambda>a. a = actor) (ss_pending_approvers ss) = Some p"
    using assms pending nonblank ss by (simp add: delegate_internal_def split: option.splits)
  note del = assms [unfolded delegate_internal_def ss p option.case]
  show thesis
  proof (cases dir)
    case None
    have "i' = log_entry (set_step i (redirect_step ss p target None))
            (''approval-delegated:'' @ ss_step_id ss @ '':'' @ actor @ '':'' @ target @ '':'' @ target)"
      "ns' = ns @ [notification_delegated target (rq_request_id req) (ss_step_id ss)
                     (ai_instance_id i)]"
      using del pending nonblank None by (simp_all add: Let_def)
    then show thesis by (rule that [OF pending ss p]) (simp add: None)
  next
    case (Some d)
    with del pending nonblank obtain r
      where r: "resolve_effective_approver_with_policy d target pol = Inr r"
      by (cases "resolve_effective_approver_with_policy d target pol")
        (simp_all add: missing_manager_def)
    have "i' = log_entry (set_step i (redirect_step ss p (ar_resolved_user_id r) (Some r)))
            (''approval-delegated:'' @ ss_step_id ss @ '':'' @ actor @ '':'' @ target @ '':'' @
               ar_resolved_user_id r)"
      "ns' = ns @ [notification_delegated (ar_resolved_user_id r) (rq_request_id req)
                     (ss_step_id ss) (ai_instance_id i)]"
      using del pending nonblank Some r by (simp_all add: Let_def missing_manager_def)
    then show thesis by (rule that [OF pending ss p]) (simp add: Some r)
  qed
qed

lemma delegate_ok:
  assumes "instance_ok flow i"
    and "delegate_internal req actor target dir pol i ns = (Inr (), i', ns')"
  shows "instance_ok flow i'"
  using assms(2)
proof (cases rule: delegate_cases)
  case (1 ss p u routed line n)
  then show ?thesis
    using instance_ok_current(1) [OF assms(1)] assms(1)
    by (intro instance_ok_set_step [OF assms(1), of "redirect_step ss p u routed" InstancePending])
      (auto simp: instance_ok_def)
qed

subsection \<open>The contract of an operation, and sequences of operations\<close>

text \<open>
  What the four operations share: a terminal instance is refused and left alone, a success
  keeps the invariant, and the audit log and the notifications only grow.
\<close>

locale instance_operation =
  fixes ok :: "approval_instance \<Rightarrow> bool"
    and op :: "approval_instance \<Rightarrow> sink \<Rightarrow> engine_outcome"
  assumes terminal: "ai_status i \<noteq> InstancePending \<Longrightarrow> op i ns = (Inl TerminalInstance, i, ns)"
    and keeps_ok: "\<lbrakk> ok i; op i ns = (Inr (), i', ns') \<rbrakk> \<Longrightarrow> ok i'"
    and log_grows: "op i ns = (Inr (), i', ns') \<Longrightarrow> \<exists>l. ai_audit_log i' = ai_audit_log i @ l"
    and sink_grows: "op i ns = (Inr (), i', ns') \<Longrightarrow> \<exists>l. ns' = ns @ l"
    and frame: "op i ns = (Inr (), i', ns') \<Longrightarrow>
      ai_instance_id i' = ai_instance_id i \<and> ai_request_id i' = ai_request_id i \<and>
      ai_current_step_index i \<le> ai_current_step_index i'"

text \<open>The callers work on a copy and keep it only when the operation succeeds.\<close>

definition commit ::
  "(approval_instance \<Rightarrow> sink \<Rightarrow> engine_outcome) \<Rightarrow> approval_instance \<Rightarrow> approval_instance" where
  "commit op i = (case op i [] of (Inr _, i', _) \<Rightarrow> i' | (Inl _, _, _) \<Rightarrow> i)"

context instance_operation begin

lemma commit_cases:
  obtains "commit op i = i" | ns' where "op i [] = (Inr (), commit op i, ns')"
proof -
  obtain r j ns where op: "op i [] = (r, j, ns)" by (cases "op i []")
  show thesis
    by (cases r) (use op that in \<open>simp_all add: commit_def\<close>)
qed

lemma commit_ok: "ok i \<Longrightarrow> ok (commit op i)"
  by (rule commit_cases [of i]) (simp_all add: keeps_ok)

lemma commit_terminal: "ai_status i \<noteq> InstancePending \<Longrightarrow> commit op i = i"
  by (simp add: commit_def terminal)

lemma commit_log: "\<exists>l. ai_audit_log (commit op i) = ai_audit_log i @ l"
  by (rule commit_cases [of i]) (auto dest: log_grows)

lemma commit_frame:
  "ai_instance_id (commit op i) = ai_instance_id i \<and> ai_request_id (commit op i) = ai_request_id i \<and>
   ai_current_step_index i \<le> ai_current_step_index (commit op i)"
  by (rule commit_cases [of i]) (auto dest: frame)

end

lemma advance_grows:
  assumes "advance_instance flow req d pol now i ns = (Inr (), i', ns')"
  shows "(\<exists>l. ai_audit_log i' = ai_audit_log i @ l) \<and> (\<exists>l. ns' = ns @ l) \<and>
    ai_instance_id i' = ai_instance_id i \<and> ai_request_id i' = ai_request_id i \<and>
    ai_current_step_index i \<le> ai_current_step_index i'"
  using assms
  by (auto simp: advance_instance_def Let_def notify_step_def split: if_splits sum.splits)

lemma approve_grows:
  assumes "approve_with_policy flow req d pol actor now i ns = (Inr (), i', ns')"
  shows "(\<exists>l. ai_audit_log i' = ai_audit_log i @ l) \<and> (\<exists>l. ns' = ns @ l) \<and>
    ai_instance_id i' = ai_instance_id i \<and> ai_request_id i' = ai_request_id i \<and>
    ai_current_step_index i \<le> ai_current_step_index i'"
  using assms
proof (cases rule: approve_cases)
  case (1 def ss pending)
  show ?thesis
  proof (cases "pending = []")
    case True
    with 1 advance_grows show ?thesis by fastforce
  qed (use 1 in simp)
qed

interpretation approve_op: instance_operation "instance_ok flow"
    "approve_with_policy flow req d pol actor now"
  for flow req d pol actor now
  by unfold_locales
    (simp add: approve_with_policy_def, (auto dest: approve_grows intro: approve_ok)+)

interpretation reject_op: instance_operation "instance_ok flow" "reject actor"
  for flow actor
  by unfold_locales
    (simp add: reject_def, erule (1) reject_ok,
      (auto simp: reject_def split: if_splits option.splits)+)

interpretation delegate_op: instance_operation "instance_ok flow"
    "delegate_internal req actor target dir pol"
  for flow req actor target dir pol
  by unfold_locales
    (simp add: delegate_internal_def, erule (1) delegate_ok, (auto elim!: delegate_cases)+)

interpretation tick_op: instance_operation "instance_ok flow"
    "tick_timeouts_with_policy flow req d pol now"
  for flow req d pol now
  by unfold_locales
    (simp add: tick_timeouts_with_policy_def, erule (1) tick_ok, (auto elim!: tick_cases)+)

datatype engine_command =
    CmdApprove string | CmdReject string | CmdDelegate string string | CmdTick

definition command_op ::
  "approval_flow \<Rightarrow> approval_request \<Rightarrow> resolution_policy \<Rightarrow> org_directory \<times> time \<times> engine_command
     \<Rightarrow> approval_instance \<Rightarrow> sink \<Rightarrow> engine_outcome" where
  "command_op flow req pol c =
     (case c of (d, now, cmd) \<Rightarrow>
        (case cmd of
           CmdApprove actor \<Rightarrow> approve_with_policy flow req d pol actor now
         | CmdReject actor \<Rightarrow> reject actor
         | CmdDelegate actor target \<Rightarrow> delegate_with_directory_and_policy req actor target d pol
         | CmdTick \<Rightarrow> tick_timeouts_with_policy flow req d pol now))"

lemma delegate_eta:
  "delegate_with_directory_and_policy req actor target d pol
     = delegate_internal req actor target (Some d) pol"
  by (simp add: delegate_with_directory_and_policy_def fun_eq_iff)

interpretation command: instance_operation "instance_ok flow" "command_op flow req pol c"
  for flow req pol c
proof -
  obtain d now cmd where c: "c = (d, now, cmd)" by (cases c)
  show "instance_operation (instance_ok flow) (command_op flow req pol c)"
    by (cases cmd)
      (simp_all add: c command_op_def delegate_eta approve_op.instance_operation_axioms
        reject_op.instance_operation_axioms delegate_op.instance_operation_axioms
        tick_op.instance_operation_axioms)
qed

fun engine_run ::
  "approval_flow \<Rightarrow> approval_request \<Rightarrow> resolution_policy
     \<Rightarrow> (org_directory \<times> time \<times> engine_command) list \<Rightarrow> approval_instance \<Rightarrow> approval_instance" where
  "engine_run flow req pol [] i = i"
| "engine_run flow req pol (c # cs) i =
     engine_run flow req pol cs (commit (command_op flow req pol c) i)"

lemma engine_run_ok: "instance_ok flow i \<Longrightarrow> instance_ok flow (engine_run flow req pol cs i)"
  by (induction cs arbitrary: i) (simp_all add: command.commit_ok)

lemma engine_run_terminal: "ai_status i \<noteq> InstancePending \<Longrightarrow> engine_run flow req pol cs i = i"
  by (induction cs arbitrary: i) (simp_all add: command.commit_terminal)

lemma engine_run_log: "\<exists>l. ai_audit_log (engine_run flow req pol cs i) = ai_audit_log i @ l"
proof (induction cs arbitrary: i)
  case (Cons c cs)
  obtain l1 where "ai_audit_log (commit (command_op flow req pol c) i) = ai_audit_log i @ l1"
    using command.commit_log by blast
  moreover obtain l2 where "ai_audit_log (engine_run flow req pol (c # cs) i)
      = ai_audit_log (commit (command_op flow req pol c) i) @ l2"
    using Cons [of "commit (command_op flow req pol c) i"] by auto
  ultimately show ?case by simp
qed simp

subsection \<open>What the modes demand\<close>

text \<open>
  While nobody delegates and nothing times out, the routing of a step lists the approvers it
  was assigned.  The relation between them, the pending and the recorded approvers:
\<close>

definition assigned_approvers :: "step_state \<Rightarrow> string list" where
  "assigned_approvers ss = map rt_resolved_user_id (ss_routing ss)"

definition step_fair :: "approval_mode \<Rightarrow> step_state \<Rightarrow> bool" where
  "step_fair mode ss =
     (case mode of
        Serial \<Rightarrow> ss_approved_by ss @ ss_pending_approvers ss = assigned_approvers ss
      | ParallelAll \<Rightarrow>
          ss_pending_approvers ss
            = filter (\<lambda>a. a \<notin> set (ss_approved_by ss)) (assigned_approvers ss) \<and>
          set (ss_approved_by ss) \<subseteq> set (assigned_approvers ss) \<and> distinct (ss_approved_by ss)
      | AnyOne \<Rightarrow>
          (if ss_approved_by ss = [] then ss_pending_approvers ss = assigned_approvers ss
           else ss_pending_approvers ss = [] \<and>
             (\<exists>a\<in>set (assigned_approvers ss). ss_approved_by ss = [a])))"

text \<open>What a step that is done shows under each mode.\<close>

definition approvals_complete :: "approval_mode \<Rightarrow> step_state \<Rightarrow> bool" where
  "approvals_complete mode ss =
     (case mode of
        Serial \<Rightarrow> ss_approved_by ss = assigned_approvers ss
      | ParallelAll \<Rightarrow> set (ss_approved_by ss) = set (assigned_approvers ss) \<and>
          distinct (ss_approved_by ss)
      | AnyOne \<Rightarrow> (\<exists>a\<in>set (assigned_approvers ss). ss_approved_by ss = [a]))"

lemma step_fair_complete: "\<lbrakk> step_fair mode ss; step_done ss \<rbrakk> \<Longrightarrow> approvals_complete mode ss"
proof (cases mode)
  case ParallelAll
  assume fair: "step_fair mode ss" and "step_done ss"
  with ParallelAll have "filter (\<lambda>a. a \<notin> set (ss_approved_by ss)) (assigned_approvers ss) = []"
    by (simp add: step_fair_def step_done_def)
  with fair ParallelAll show ?thesis
    by (auto simp: step_fair_def approvals_complete_def filter_empty_conv)
qed (auto simp: step_fair_def approvals_complete_def step_done_def)

lemma assigned_approvers_update [simp]:
  "assigned_approvers (ss\<lparr>ss_pending_approvers := ps\<rparr>) = assigned_approvers ss"
  "assigned_approvers (ss\<lparr>ss_approved_by := ps\<rparr>) = assigned_approvers ss"
  "assigned_approvers (ss\<lparr>ss_status := st\<rparr>) = assigned_approvers ss"
  by (simp_all add: assigned_approvers_def)

lemma step_fair_status [simp]: "step_fair mode (ss\<lparr>ss_status := st\<rparr>) = step_fair mode ss"
  by (cases mode) (simp_all add: step_fair_def)

lemma step_fair_settle:
  assumes "step_fair mode ss" "actor \<in> set (ss_pending_approvers ss)"
    and "settle_approver mode actor (ss_pending_approvers ss) = Inr pending"
  shows "step_fair mode (ss\<lparr>ss_pending_approvers := pending,
           ss_approved_by := ss_approved_by ss @ [actor]\<rparr>)"
proof (cases mode)
  case Serial
  with assms show ?thesis
    by (auto simp: step_fair_def settle_approver_def split: list.splits if_splits)
next
  case ParallelAll
  with assms have "actor \<in> set (assigned_approvers ss)" "actor \<notin> set (ss_approved_by ss)"
    by (auto simp: step_fair_def)
  with assms ParallelAll show ?thesis
    by (auto simp: step_fair_def settle_approver_def intro: filter_cong)
next
  case AnyOne
  with assms show ?thesis by (auto simp: step_fair_def settle_approver_def split: if_splits)
qed

lemma build_step_state_fair:
  "build_step_state step req d pol now = Inr ss \<Longrightarrow> step_fair mode ss"
  using build_step_state_assigned(3,6) [of step req d pol now ss]
  by (cases mode) (simp_all add: step_fair_def assigned_approvers_def)

definition instance_fair :: "approval_flow \<Rightarrow> approval_instance \<Rightarrow> bool" where
  "instance_fair flow i =
     (\<forall>k<length (ai_step_states i). step_fair (sd_mode (af_steps flow ! k)) (ai_step_states i ! k))"

lemma instance_fair_set_step:
  assumes "instance_fair flow i" "step_fair (sd_mode (af_steps flow ! ai_current_step_index i)) ss"
  shows "instance_fair flow (set_step i ss)"
  unfolding instance_fair_def
proof (intro allI impI)
  fix k
  assume "k < length (ai_step_states (set_step i ss))"
  with assms show "step_fair (sd_mode (af_steps flow ! k)) (ai_step_states (set_step i ss) ! k)"
    by (cases "k = ai_current_step_index i") (simp_all add: instance_fair_def set_step_def)
qed

lemma instance_fair_cong:
  "ai_step_states j = ai_step_states i \<Longrightarrow> instance_fair flow j = instance_fair flow i"
  by (simp add: instance_fair_def)

lemma advance_fair:
  assumes "instance_fair flow i" "length (ai_step_states i) = Suc (ai_current_step_index i)"
    and "advance_instance flow req d pol now i ns = (Inr (), i', ns')"
  shows "instance_fair flow i'"
  using assms
  by (auto simp: advance_instance_def Let_def instance_fair_def nth_append less_Suc_eq
      split: if_splits sum.splits) (erule build_step_state_fair)

lemma approve_fair:
  assumes "instance_ok flow i" "instance_fair flow i"
    and "approve_with_policy flow req d pol actor now i ns = (Inr (), i', ns')"
  shows "instance_fair flow i'"
  using assms(3)
proof (cases rule: approve_cases)
  case (1 def ss pending)
  let ?ss = "ss\<lparr>ss_pending_approvers := pending, ss_approved_by := ss_approved_by ss @ [actor]\<rparr>"
  have len: "length (ai_step_states i) = Suc (ai_current_step_index i)"
    using assms(1) by (simp add: instance_ok_def)
  have fair: "step_fair (sd_mode def) ss" and def: "def = af_steps flow ! ai_current_step_index i"
    using assms(2) 1(2,3) by (auto simp: instance_fair_def nth_opt_Some_iff)
  note settled = step_fair_settle [OF fair 1(4,5)]
  have set: "instance_fair flow (set_step i (?ss\<lparr>ss_status := st\<rparr>))"
    "instance_fair flow (set_step i ?ss)" for st
    using settled def by (simp_all only: instance_fair_set_step [OF assms(2)] step_fair_status)
  show ?thesis
  proof (cases "pending = []")
    case True
    have "instance_fair flow (log_entry (set_step i (?ss\<lparr>ss_status := StepApproved\<rparr>)) line)" for line
      using set(1) by (subst instance_fair_cong) simp_all
    from advance_fair [OF this] 1 True len show ?thesis by simp
  next
    case False
    with 1 set(2) show ?thesis by (simp add: instance_fair_cong [of "log_entry _ _"])
  qed
qed

lemma reject_fair:
  assumes "instance_fair flow i" "reject actor i ns = (Inr (), i', ns')"
  shows "instance_fair flow i'"
proof -
  obtain ss where ss: "nth_opt (ai_step_states i) (ai_current_step_index i) = Some ss"
    and i': "ai_step_states i' = ai_step_states (set_step i (ss\<lparr>ss_status := StepRejected\<rparr>))"
    using assms(2) by (auto simp: reject_def split: if_splits option.splits)
  have "step_fair (sd_mode (af_steps flow ! ai_current_step_index i)) ss"
    using assms(1) ss by (auto simp: instance_fair_def nth_opt_Some_iff)
  then have "instance_fair flow (set_step i (ss\<lparr>ss_status := StepRejected\<rparr>))"
    by (simp only: instance_fair_set_step [OF assms(1)] step_fair_status)
  then show ?thesis unfolding instance_fair_cong [OF i'] .
qed

definition decides_only :: "org_directory \<times> time \<times> engine_command \<Rightarrow> bool" where
  "decides_only c =
     (case snd (snd c) of CmdApprove _ \<Rightarrow> True | CmdReject _ \<Rightarrow> True | _ \<Rightarrow> False)"

lemma engine_run_fair:
  assumes "instance_ok flow i" "instance_fair flow i" "list_all decides_only cs"
  shows "instance_fair flow (engine_run flow req pol cs i)"
  using assms
proof (induction cs arbitrary: i)
  case (Cons c cs)
  have "instance_fair flow (commit (command_op flow req pol c) i)"
  proof (rule command.commit_cases [of flow req pol c i])
    fix ns'
    assume "command_op flow req pol c i [] = (Inr (), commit (command_op flow req pol c) i, ns')"
    then show ?thesis
      using Cons.prems
      by (cases c; cases "snd (snd c)")
        (auto simp: command_op_def decides_only_def intro: approve_fair reject_fair)
  qed (use Cons.prems in simp)
  with Cons show ?case by (simp add: command.commit_ok)
qed simp

lemma start_instance_fair:
  assumes "start_instance_with_policy flow req d pol iid now ns = (Inr i, ns')"
  shows "instance_fair flow i"
  using assms
  by (auto simp: start_instance_with_policy_def instance_fair_def dest: build_step_state_fair
      split: list.splits sum.splits)

lemma instance_ok_approved:
  assumes "instance_ok flow i" "ai_status i = InstanceApproved"
  shows "length (ai_step_states i) = length (af_steps flow)" "list_all step_done (ai_step_states i)"
    and "map ss_step_id (ai_step_states i) = map sd_step_id (af_steps flow)"
proof -
  show "list_all step_done (ai_step_states i)"
    using assms append_butlast_last_id [of "ai_step_states i"]
      list_all_append [of step_done "butlast (ai_step_states i)" "[last (ai_step_states i)]"]
    by (simp add: instance_ok_def)
qed (use assms in \<open>simp_all add: instance_ok_def\<close>)

subsection \<open>Properties\<close>

text \<open>A flow of two steps, the second of which asks for the applicant's manager.\<close>

definition sample_step :: "string \<Rightarrow> approval_mode \<Rightarrow> approver_selector list \<Rightarrow> approval_step" where
  "sample_step sid mode sels = \<lparr>sd_step_id = sid, sd_mode = mode, sd_approvers = sels,
     sd_timeout_minutes = 30, sd_escalation = None\<rparr>"

definition sample_flow :: approval_flow where
  "sample_flow = \<lparr>af_flow_id = ''flow-a'', af_version = 1,
     af_steps = [sample_step ''s1'' Serial [SelectUser ''boss'', SelectUser ''user-a''],
                 sample_step ''s2'' AnyOne [SelectManager]]\<rparr>"

definition sample_request :: approval_request where
  "sample_request = \<lparr>rq_request_id = ''req-a'', rq_applicant_user_id = ''user-a'',
     rq_project_id = ''project-alpha'', rq_data_source_id = ''datasource-rest''\<rparr>"

definition sample_policy :: resolution_policy where
  "sample_policy = default_approver_policy"

definition sample_instance :: approval_instance where
  "sample_instance = projr (fst (start_instance_with_policy sample_flow sample_request
     sample_directory sample_policy ''i1'' 0 []))"

lemma sample_start:
  "\<exists>ns. start_instance_with_policy sample_flow sample_request sample_directory sample_policy
      ''i1'' 0 [] = (Inr sample_instance, ns)"
proof -
  let ?s = "start_instance_with_policy sample_flow sample_request sample_directory sample_policy
      ''i1'' 0 []"
  have "isl (fst ?s) = False" by code_simp
  then have "fst ?s = Inr sample_instance"
    unfolding sample_instance_def by (simp add: sum.collapse(2))
  then show ?thesis by (metis prod.collapse)
qed

lemma sample_instance_ok: "instance_ok sample_flow sample_instance"
  using sample_start start_instance_ok by blast

text \<open>
  C36. The engine keeps its invariant.  From the start of an instance, through any sequence of
  approvals, rejections, delegations and timeouts, at any times and with any directories:
  the steps entered so far are the first steps of the flow, every step but the current one is
  approved by somebody with nobody pending, an approved instance has done so for every step of
  the flow, the audit log only grows, and a terminal instance no longer changes.
\<close>

theorem engine_invariant:
  assumes "start_instance_with_policy flow req d pol iid now ns = (Inr i, ns')"
  shows "instance_ok flow (engine_run flow req pol' cs i)
    \<and> (\<exists>l. ai_audit_log (engine_run flow req pol' (cs @ cs') i)
            = ai_audit_log (engine_run flow req pol' cs i) @ l)
    \<and> (ai_status (engine_run flow req pol' cs i) \<noteq> InstancePending \<longrightarrow>
         engine_run flow req pol' (cs @ cs') i = engine_run flow req pol' cs i)"
proof -
  have app: "engine_run flow req pol' (cs @ cs') i
      = engine_run flow req pol' cs' (engine_run flow req pol' cs i)"
    by (induction cs arbitrary: i) simp_all
  show ?thesis
    unfolding app using engine_run_ok [OF start_instance_ok [OF assms]] engine_run_log
      engine_run_terminal by blast
qed

lemma engine_invariant_witness:
  "instance_ok sample_flow (engine_run sample_flow sample_request sample_policy
     [(sample_directory, 1, CmdApprove ''deputy''), (sample_directory, 2, CmdTick)] sample_instance)"
  using sample_start engine_invariant by blast

text \<open>
  C35. What an approved instance proves.  When an instance was only approved or rejected by its
  approvers and ends up approved, every step of the flow carries the approvals its mode
  demands: under \<open>Serial\<close> those of all assigned approvers in the order of assignment, under
  \<open>ParallelAll\<close> those of all assigned approvers, each once, under \<open>AnyOne\<close> that of one of them.
\<close>

theorem approved_instance_complete:
  assumes "start_instance_with_policy flow req d pol iid now ns = (Inr i, ns')"
    and "list_all decides_only cs" and "j = engine_run flow req pol cs i"
    and "ai_status j = InstanceApproved"
  shows "length (ai_step_states j) = length (af_steps flow) \<and>
    (\<forall>k < length (af_steps flow).
       ss_step_id (ai_step_states j ! k) = sd_step_id (af_steps flow ! k) \<and>
       approvals_complete (sd_mode (af_steps flow ! k)) (ai_step_states j ! k))"
proof -
  note ok = start_instance_ok [OF assms(1)]
  have "instance_ok flow j" using engine_run_ok [OF ok] by (simp add: assms(3))
  note settled = instance_ok_approved [OF this assms(4)]
  have fair: "instance_fair flow j"
    using engine_run_fair [OF ok start_instance_fair [OF assms(1)] assms(2)] by (simp add: assms(3))
  show ?thesis
  proof (intro conjI allI impI)
    fix k assume k: "k < length (af_steps flow)"
    show "ss_step_id (ai_step_states j ! k) = sd_step_id (af_steps flow ! k)"
      using k settled(1,3) by (metis nth_map)
    show "approvals_complete (sd_mode (af_steps flow ! k)) (ai_step_states j ! k)"
      using k settled(1,2) fair
      by (intro step_fair_complete) (simp_all add: instance_fair_def list_all_length)
  qed (rule settled(1))
qed

definition sample_decisions :: "(org_directory \<times> time \<times> engine_command) list" where
  "sample_decisions = [(sample_directory, 1, CmdApprove ''user-a''),
     (sample_directory, 2, CmdApprove ''deputy''), (sample_directory, 3, CmdApprove ''user-a''),
     (sample_directory, 4, CmdApprove ''deputy'')]"

lemma approved_instance_complete_witness:
  "ss_approved_by (ai_step_states (engine_run sample_flow sample_request sample_policy
     sample_decisions sample_instance) ! 0) = [''deputy'', ''user-a'']"
proof -
  let ?j = "engine_run sample_flow sample_request sample_policy sample_decisions sample_instance"
  obtain ns where start: "start_instance_with_policy sample_flow sample_request sample_directory
      sample_policy ''i1'' 0 [] = (Inr sample_instance, ns)" using sample_start by blast
  have "list_all decides_only sample_decisions" "ai_status ?j = InstanceApproved" by code_simp+
  from approved_instance_complete [OF start this(1) refl this(2)]
  have "approvals_complete Serial (ai_step_states ?j ! 0)"
    by (auto simp: sample_flow_def sample_step_def)
  moreover have "assigned_approvers (ai_step_states ?j ! 0) = [''deputy'', ''user-a'']" by code_simp
  ultimately show ?thesis by (simp add: approvals_complete_def)
qed

text \<open>
  Who may approve.  On an instance of the flow, an approval succeeds exactly if the
  instance is pending, the actor is a pending approver of the current step, under \<open>Serial\<close>
  the first one, and, when this approval completes a step that is not the last, the next step
  can be assigned.
\<close>

lemma approval_succeeds_iff:
  assumes "instance_ok flow i"
    and "def = af_steps flow ! ai_current_step_index i" and "ss = last (ai_step_states i)"
  shows "fst (approve_with_policy flow req d pol actor now i ns) = Inr () \<longleftrightarrow>
    ai_status i = InstancePending \<and> actor \<in> set (ss_pending_approvers ss) \<and>
    (sd_mode def = Serial \<longrightarrow> hd (ss_pending_approvers ss) = actor) \<and>
    (settle_approver (sd_mode def) actor (ss_pending_approvers ss) = Inr [] \<longrightarrow>
     Suc (ai_current_step_index i) < length (af_steps flow) \<longrightarrow>
       (\<exists>next'. build_step_state (af_steps flow ! Suc (ai_current_step_index i)) req d pol now
                 = Inr next'))"
proof -
  obtain def' where "nth_opt (af_steps flow) (ai_current_step_index i) = Some def'"
    using instance_ok_current(2) [OF assms(1)] by blast
  then have step: "nth_opt (af_steps flow) (ai_current_step_index i) = Some def"
    by (simp add: nth_opt_Some_iff assms(2))
  show ?thesis
    unfolding approve_with_policy_def step instance_ok_current(1) [OF assms(1)] option.case
      assms(3) [symmetric]
    by (cases "sd_mode def"; cases "ss_pending_approvers ss")
      (auto simp: settle_approver_def advance_instance_def Let_def split: sum.splits)
qed

lemma approval_succeeds_iff_witness:
  "fst (approve_with_policy sample_flow sample_request sample_directory sample_policy ''user-a'' 1
      sample_instance []) \<noteq> Inr ()"
proof -
  have "hd (ss_pending_approvers (last (ai_step_states sample_instance))) \<noteq> ''user-a''"
    "sd_mode (af_steps sample_flow ! ai_current_step_index sample_instance) = Serial"
    by code_simp+
  then show ?thesis
    by (subst approval_succeeds_iff [OF sample_instance_ok refl refl]) simp
qed

text \<open>
  Steps are handed to approvers who can act.  A started instance waits for one approver
  per selector of its first step, each available or the system fallback, and notifies exactly
  them; a timeout that changes the instance leaves one pending approver, with the same
  quality, and extends the due time by the timeout of the step.
\<close>

lemma assigned_approvers_can_act:
  "(\<forall>i ns'. start_instance_with_policy flow req d pol iid now ns = (Inr i, ns') \<longrightarrow>
      list_all (acceptable_approver d pol) (ss_pending_approvers (last (ai_step_states i))) \<and>
      length (ss_pending_approvers (last (ai_step_states i))) = length (sd_approvers (hd (af_steps flow))) \<and>
      map nt_recipient ns' = map nt_recipient ns @ ss_pending_approvers (last (ai_step_states i)))
   \<and> (\<forall>i i' ns'. instance_ok flow i \<longrightarrow> get_user d [] = None \<longrightarrow>
        tick_timeouts_with_policy flow req d pol now i ns = (Inr (), i', ns') \<longrightarrow> i' \<noteq> i \<longrightarrow>
        (\<exists>target. acceptable_approver d pol target \<and>
           ss_pending_approvers (last (ai_step_states i')) = [target] \<and>
           ss_due_at (last (ai_step_states i)) \<le> now \<and>
           ss_due_at (last (ai_step_states i')) =
             now + minutes_ns (sd_timeout_minutes (af_steps flow ! ai_current_step_index i))))"
proof (intro conjI allI impI)
  fix i ns'
  assume "start_instance_with_policy flow req d pol iid now ns = (Inr i, ns')"
  then obtain first rest ss where steps: "af_steps flow = first # rest"
    and ss: "build_step_state first req d pol now = Inr ss"
    and i: "ai_step_states i = [ss]" and ns': "ns' = notify_step ns iid ss req first"
    by (auto simp: start_instance_with_policy_def split: list.splits sum.splits)
  show "list_all (acceptable_approver d pol) (ss_pending_approvers (last (ai_step_states i)))"
    "length (ss_pending_approvers (last (ai_step_states i))) = length (sd_approvers (hd (af_steps flow)))"
    using build_step_state_assigned(1,2) [OF ss] by (simp_all add: i steps)
  show "map nt_recipient ns' = map nt_recipient ns @ ss_pending_approvers (last (ai_step_states i))"
    by (simp add: i ns' notify_step_def notification_approval_required_def comp_def)
next
  fix i i' ns'
  assume ok: "instance_ok flow i" and known: "get_user d [] = None"
    and tick: "tick_timeouts_with_policy flow req d pol now i ns = (Inr (), i', ns')" and "i' \<noteq> i"
  note cur = instance_ok_current [OF ok]
  from tick show "\<exists>target. acceptable_approver d pol target \<and>
           ss_pending_approvers (last (ai_step_states i')) = [target] \<and>
           ss_due_at (last (ai_step_states i)) \<le> now \<and>
           ss_due_at (last (ai_step_states i')) =
             now + minutes_ns (sd_timeout_minutes (af_steps flow ! ai_current_step_index i))"
  proof (cases rule: tick_cases)
    case (escalated def ss route line n)
    have "def = af_steps flow ! ai_current_step_index i"
      using escalated(2) by (simp add: nth_opt_Some_iff)
    moreover have "acceptable_approver d pol (ar_resolved_user_id route)"
      by (rule timeout_route_acceptable [OF escalated(5)])
    ultimately show ?thesis
      using escalated cur(1,3) by (auto simp: escalate_step_def)
  next
    case (rejected def ss route line)
    then show ?thesis
      using acceptable_nonempty [OF timeout_route_acceptable [OF rejected(3)] known] by simp
  qed (use \<open>i' \<noteq> i\<close> in simp)
qed

lemma assigned_approvers_can_act_witness:
  "list_all (acceptable_approver sample_directory sample_policy)
     (ss_pending_approvers (last (ai_step_states sample_instance)))"
  using sample_start assigned_approvers_can_act by blast

text \<open>
  A timeout never rejects.  With no user under the empty identifier, \<open>tick_timeouts\<close> never
  changes the status of an instance: the branch that rejects an overdue step, the automatic
  rejection the design lists among a step's actions, cannot be reached.
\<close>

lemma timeout_never_rejects:
  assumes "get_user d [] = None"
  shows "ai_status (fst (snd (tick_timeouts_with_policy flow req d pol now i ns))) = ai_status i"
proof -
  have "ar_resolved_user_id route \<noteq> []" if "timeout_route def req d pol ss = Inr route" for def ss route
    using acceptable_nonempty [OF timeout_route_acceptable [OF that] assms] .
  then show ?thesis
    by (auto simp: tick_timeouts_with_policy_def split: option.splits sum.splits)
qed

lemma timeout_never_rejects_witness:
  "ai_status (fst (snd (tick_timeouts_with_policy sample_flow sample_request sample_directory
     sample_policy (minutes_ns 60) sample_instance []))) = InstancePending"
proof -
  have "get_user sample_directory [] = None" "ai_status sample_instance = InstancePending" by code_simp+
  then show ?thesis by (simp add: timeout_never_rejects)
qed

text \<open>
  Anybody may reject.  Unlike \<open>approve\<close> and \<open>delegate\<close>, \<open>reject\<close> does not ask whether the
  actor is an approver of the step: any actor ends any pending instance, while an actor who is
  not assigned can neither approve nor delegate.
\<close>

lemma rejection_ignores_assignment:
  assumes "instance_ok flow i" and "ai_status i = InstancePending"
    and "actor \<notin> set (ss_pending_approvers (last (ai_step_states i)))" and "trim target \<noteq> []"
  shows "(\<exists>i'. reject actor i ns = (Inr (), i', ns) \<and> ai_status i' = InstanceRejected)
    \<and> approve_with_policy flow req d pol actor now i ns = (Inl (ApproverNotAssigned actor), i, ns)
    \<and> delegate_internal req actor target dir pol i ns = (Inl (ApproverNotAssigned actor), i, ns)"
proof -
  note cur = instance_ok_current(1) [OF assms(1)]
  obtain def where "nth_opt (af_steps flow) (ai_current_step_index i) = Some def"
    using instance_ok_current(2) [OF assms(1)] by blast
  moreover have "position (\<lambda>a. a = actor) (ss_pending_approvers (last (ai_step_states i))) = None"
    using assms(3) by (auto simp: position_None)
  ultimately show ?thesis
    using assms cur by (simp add: reject_def approve_with_policy_def delegate_internal_def)
qed

lemma rejection_ignores_assignment_witness:
  "\<exists>i'. reject ''stranger'' sample_instance [] = (Inr (), i', []) \<and> ai_status i' = InstanceRejected"
proof -
  have "ai_status sample_instance = InstancePending" "trim ''x'' \<noteq> []"
    "''stranger'' \<notin> set (ss_pending_approvers (last (ai_step_states sample_instance)))"
    by code_simp+
  with rejection_ignores_assignment [OF sample_instance_ok] show ?thesis by blast
qed

text \<open>
  A failed advance wedges the instance.  \<open>advance_instance\<close> moves the step index before it
  builds the next step, so when the approver of the next step cannot be resolved the mutated
  instance points past its last step, and every later operation on it panics.
\<close>

lemma failed_advance_wedges_instance:
  assumes "instance_ok flow i"
    and "approve_with_policy flow req d pol actor now i ns = (Inl MissingManager, i', ns')"
  shows "ai_current_step_index i' = length (ai_step_states i') \<and> ai_status i' = InstancePending \<and>
    fst (approve_with_policy flow req d2 pol actor2 now2 i' ns2) = Inl IndexPanic \<and>
    fst (reject actor2 i' ns2) = Inl IndexPanic \<and>
    fst (tick_timeouts_with_policy flow req d2 pol now2 i' ns2) = Inl IndexPanic"
proof -
  have len: "length (ai_step_states i) = Suc (ai_current_step_index i)"
    using assms(1) by (simp add: instance_ok_def)
  have i': "ai_current_step_index i' = Suc (ai_current_step_index i)"
    "length (ai_step_states i') = length (ai_step_states i)" "ai_status i' = InstancePending"
    using assms(2)
    by (auto simp: approve_with_policy_def settle_approver_def advance_instance_def Let_def
        split: if_splits option.splits sum.splits approval_mode.splits list.splits)
  then have "nth_opt (ai_step_states i') (ai_current_step_index i') = None"
    by (simp add: nth_opt_def len)
  with i' len show ?thesis
    by (simp add: approve_with_policy_def reject_def tick_timeouts_with_policy_def split: option.splits)
qed

definition no_manager_directory :: org_directory where
  "no_manager_directory = fst (sync_snapshot directory_default FeishuMock
     [sample_user ''user-a'' None None, sample_user ''deputy'' None None])"

lemma failed_advance_wedges_instance_witness:
  "\<exists>i i'. instance_ok sample_flow i \<and> fst (reject ''user-a'' i' []) = Inl IndexPanic \<and>
     approve_with_policy sample_flow sample_request no_manager_directory sample_policy ''user-a'' 3
       i [] = (Inl MissingManager, i', [])"
proof -
  let ?i = "engine_run sample_flow sample_request sample_policy
     [(sample_directory, 1, CmdApprove ''deputy'')] sample_instance"
  let ?r = "approve_with_policy sample_flow sample_request no_manager_directory sample_policy
      ''user-a'' 3 ?i []"
  have ok: "instance_ok sample_flow ?i" by (rule engine_run_ok [OF sample_instance_ok])
  have "fst ?r = Inl MissingManager" "snd (snd ?r) = []" by code_simp+
  then have r: "?r = (Inl MissingManager, fst (snd ?r), [])" by (metis prod.collapse)
  from failed_advance_wedges_instance [OF ok r] ok r show ?thesis by blast
qed

end
