(* ===== verification/AuditChain.thy ===== *)
theory AuditChain
  imports RustStrings "HOL-Library.Word"
begin

text \<open>
  Crate \<open>sdqp-audit\<close>: audit events and their hash (\<open>event.rs\<close>), the hash chain (\<open>chain.rs\<close>),
  checkpoints and their signers (\<open>checkpoint.rs\<close>, \<open>signer.rs\<close>) and the trail with its archive
  boundary and replicas (\<open>store.rs\<close>).

  Third-party code is a parameter, the record \<open>audit_env\<close>: the SHA-256 digest, hexadecimal
  encoding, HMAC (whose constructor may fail), the RFC 3339 rendering of a timestamp to the
  millisecond and the JSON text of the context fields.  Reading a hash back needs one
  documented fact of \<open>hex::encode\<close>: its output consists of the characters 0-9 and a-f.
\<close>

subsection \<open>Events\<close>

record actor_info =
  ac_user_id :: string
  ac_session_id :: string
  ac_ip_address :: string

record target_ref =
  tg_tenant_id :: string
  tg_project_id :: "string option"
  tg_resource_id :: string

datatype context_value =
    CvText string
  | CvBool bool
  | CvInteger int
  | CvStringList "string list"

definition i64_max :: int where
  "i64_max = 2 ^ 63 - 1"

definition context_value_of_u64 :: "64 word \<Rightarrow> context_value" where
  "context_value_of_u64 w =
     CvInteger (if uint w \<le> i64_max then uint w else i64_max)"

type_synonym context_fields = "(string \<times> context_value) list"

definition context_insert ::
  "context_fields \<Rightarrow> string \<Rightarrow> context_value \<Rightarrow> context_fields" where
  "context_insert fs k v = bt_upsert k (\<lambda>_. v) fs"

text \<open>The builder: its \<open>field\<close> calls in order.\<close>

definition context_build :: "(string \<times> context_value) list \<Rightarrow> context_fields" where
  "context_build fs = foldl (\<lambda>m (k, v). context_insert m k v) [] fs"

datatype action_type = ActQuery | ActView | ActExport | ActPermissionApply | ActLogin | ActConfigChange

fun action_as_str :: "action_type \<Rightarrow> string" where
  "action_as_str ActQuery = ''query''"
| "action_as_str ActView = ''view''"
| "action_as_str ActExport = ''export''"
| "action_as_str ActPermissionApply = ''permission_apply''"
| "action_as_str ActLogin = ''login''"
| "action_as_str ActConfigChange = ''config_change''"

fun action_debug :: "action_type \<Rightarrow> string" where
  "action_debug ActQuery = ''Query''"
| "action_debug ActView = ''View''"
| "action_debug ActExport = ''Export''"
| "action_debug ActPermissionApply = ''PermissionApply''"
| "action_debug ActLogin = ''Login''"
| "action_debug ActConfigChange = ''ConfigChange''"

definition action_parse_label :: "string \<Rightarrow> action_type option" where
  "action_parse_label label =
     (let l = to_ascii_lowercase (trim label) in
      if l = ''query'' then Some ActQuery
      else if l = ''view'' then Some ActView
      else if l = ''export'' then Some ActExport
      else if l = ''permissionapply'' \<or> l = ''permission_apply'' then Some ActPermissionApply
      else if l = ''login'' then Some ActLogin
      else if l = ''configchange'' \<or> l = ''config_change'' then Some ActConfigChange
      else None)"

datatype action_result = ResSuccess | ResFailure | ResDenied

fun result_as_str :: "action_result \<Rightarrow> string" where
  "result_as_str ResSuccess = ''success''"
| "result_as_str ResFailure = ''failure''"
| "result_as_str ResDenied = ''denied''"

fun result_debug :: "action_result \<Rightarrow> string" where
  "result_debug ResSuccess = ''Success''"
| "result_debug ResFailure = ''Failure''"
| "result_debug ResDenied = ''Denied''"

definition result_parse_label :: "string \<Rightarrow> action_result option" where
  "result_parse_label label =
     (let l = to_ascii_lowercase (trim label) in
      if l = ''success'' then Some ResSuccess
      else if l = ''failure'' then Some ResFailure
      else if l = ''denied'' then Some ResDenied
      else None)"

record audit_event =
  ev_event_id :: string
  ev_timestamp :: time
  ev_actor :: actor_info
  ev_action :: action_type
  ev_target :: target_ref
  ev_context :: string
  ev_context_fields :: context_fields
  ev_result :: action_result
  ev_data_fingerprint :: "string option"
  ev_prev_hash :: string
  ev_event_hash :: string

record audit_env =
  env_digest :: "string \<Rightarrow> string"
  env_hex :: "string \<Rightarrow> string"
  env_hmac :: "string \<Rightarrow> string \<Rightarrow> string + string"
  env_timestamp :: "time \<Rightarrow> string"
  env_json :: "context_fields \<Rightarrow> string"

definition sha256_hex :: "audit_env \<Rightarrow> string \<Rightarrow> string" where
  "sha256_hex env payload = env_hex env (env_digest env payload)"

definition option_dash :: "string option \<Rightarrow> string" where
  "option_dash x = (case x of Some s \<Rightarrow> s | None \<Rightarrow> ''-'')"

text \<open>
  The payload of \<open>compute_event_hash\<close>: its parts with a bar between them.  The hash input is the
  event without its own hash.
\<close>

definition event_parts :: "audit_env \<Rightarrow> audit_event \<Rightarrow> string list" where
  "event_parts env e =
     [ev_event_id e, env_timestamp env (ev_timestamp e), ac_user_id (ev_actor e),
      ac_session_id (ev_actor e), ac_ip_address (ev_actor e), action_debug (ev_action e),
      tg_resource_id (ev_target e), result_debug (ev_result e), ev_context e]
     @ (if ev_context_fields e = [] then [] else [env_json env (ev_context_fields e)])
     @ [option_dash (ev_data_fingerprint e), ev_prev_hash e]"

definition event_payload :: "audit_env \<Rightarrow> audit_event \<Rightarrow> string" where
  "event_payload env e = join ''|'' (event_parts env e)"

definition recompute_hash :: "audit_env \<Rightarrow> audit_event \<Rightarrow> string" where
  "recompute_hash env e = sha256_hex env (event_payload env e)"

definition verify_hash :: "audit_env \<Rightarrow> audit_event \<Rightarrow> bool" where
  "verify_hash env e = (ev_event_hash e = recompute_hash env e)"

definition event_new_with_fields ::
  "audit_env \<Rightarrow> time \<Rightarrow> string \<Rightarrow> actor_info \<Rightarrow> action_type \<Rightarrow> target_ref \<Rightarrow> string
     \<Rightarrow> context_fields \<Rightarrow> action_result \<Rightarrow> string option \<Rightarrow> string option \<Rightarrow> audit_event" where
  "event_new_with_fields env now ulid actor action target context fs result fingerprint prev =
     (let e = \<lparr>ev_event_id = ulid, ev_timestamp = now, ev_actor = actor, ev_action = action,
               ev_target = target, ev_context = context, ev_context_fields = fs,
               ev_result = result, ev_data_fingerprint = fingerprint,
               ev_prev_hash = (case prev of Some h \<Rightarrow> h | None \<Rightarrow> ''GENESIS''),
               ev_event_hash = []\<rparr> in
      e\<lparr>ev_event_hash := recompute_hash env e\<rparr>)"

definition event_new ::
  "audit_env \<Rightarrow> time \<Rightarrow> string \<Rightarrow> actor_info \<Rightarrow> action_type \<Rightarrow> target_ref \<Rightarrow> string
     \<Rightarrow> action_result \<Rightarrow> string option \<Rightarrow> string option \<Rightarrow> audit_event" where
  "event_new env now ulid actor action target context result fingerprint prev =
     event_new_with_fields env now ulid actor action target context [] result fingerprint prev"

subsection \<open>Signers\<close>

datatype signer_provider =
    ProviderLegacySha256 | ProviderMock | ProviderVault | ProviderAws | ProviderAzure
  | ProviderAliyun

datatype signer_error = UnsupportedProvider string | SignerConfiguration string

fun provider_label :: "signer_provider \<Rightarrow> string" where
  "provider_label ProviderLegacySha256 = ''legacy-sha256''"
| "provider_label ProviderMock = ''mock''"
| "provider_label ProviderVault = ''vault''"
| "provider_label ProviderAws = ''aws''"
| "provider_label ProviderAzure = ''azure''"
| "provider_label ProviderAliyun = ''aliyun''"

definition provider_parse :: "string \<Rightarrow> signer_error + signer_provider" where
  "provider_parse s =
     (let l = to_ascii_lowercase (trim s) in
      if l \<in> {''legacy'', ''legacy-sha256'', ''sha256''} then Inr ProviderLegacySha256
      else if l \<in> {''mock'', ''development''} then Inr ProviderMock
      else if l = ''vault'' then Inr ProviderVault
      else if l \<in> {''aws'', ''aws-kms''} then Inr ProviderAws
      else if l \<in> {''azure'', ''azure-key-vault'', ''azure-keyvault''} then Inr ProviderAzure
      else if l \<in> {''aliyun'', ''aliyun-kms''} then Inr ProviderAliyun
      else Inl (UnsupportedProvider l))"

record signer_config =
  cfg_provider :: signer_provider
  cfg_key_id :: string
  cfg_key_version :: "string option"

definition signer_config_default :: signer_config where
  "signer_config_default = \<lparr>cfg_provider = ProviderMock, cfg_key_id = ''sdqp-audit-checkpoint'',
     cfg_key_version = Some ''1''\<rparr>"

text \<open>The two implementations of the trait \<open>CheckpointSigner\<close>.\<close>

datatype checkpoint_signer =
    LegacySigner
  | ContractSigner signer_provider string "string option"

fun signer_provider_name :: "checkpoint_signer \<Rightarrow> string" where
  "signer_provider_name LegacySigner = ''legacy-sha256''"
| "signer_provider_name (ContractSigner p k v) = provider_label p"

fun signer_key_id :: "checkpoint_signer \<Rightarrow> string" where
  "signer_key_id LegacySigner = ''legacy-local-hash''"
| "signer_key_id (ContractSigner p k v) = k"

fun signer_key_version :: "checkpoint_signer \<Rightarrow> string option" where
  "signer_key_version LegacySigner = None"
| "signer_key_version (ContractSigner p k v) = v"

fun signer_algorithm :: "checkpoint_signer \<Rightarrow> string" where
  "signer_algorithm LegacySigner = ''sha256''"
| "signer_algorithm (ContractSigner p k v) = ''hmac-sha256''"

definition signing_key ::
  "audit_env \<Rightarrow> signer_provider \<Rightarrow> string \<Rightarrow> string option \<Rightarrow> string" where
  "signing_key env p k v =
     env_digest env (provider_label p @ ''::'' @ k @ ''::'' @
       (case v of Some x \<Rightarrow> x | None \<Rightarrow> ''1''))"

fun sign_payload :: "audit_env \<Rightarrow> checkpoint_signer \<Rightarrow> string \<Rightarrow> signer_error + string" where
  "sign_payload env LegacySigner payload = Inr (sha256_hex env payload)"
| "sign_payload env (ContractSigner p k v) payload =
     (case env_hmac env (signing_key env p k v) payload of
        Inl e \<Rightarrow> Inl (SignerConfiguration e)
      | Inr mac \<Rightarrow> Inr (env_hex env mac))"

definition verify_payload ::
  "audit_env \<Rightarrow> checkpoint_signer \<Rightarrow> string \<Rightarrow> string \<Rightarrow> signer_error + bool" where
  "verify_payload env s payload signature =
     res_bind (sign_payload env s payload) (\<lambda>x. Inr (x = signature))"

record signer_registry =
  sr_active_provider :: string
  sr_signers :: "(string \<times> checkpoint_signer) list"

definition active_signer :: "signer_registry \<Rightarrow> checkpoint_signer option" where
  "active_signer reg = map_of (sr_signers reg) (sr_active_provider reg)"

definition registry_signer :: "signer_registry \<Rightarrow> string \<Rightarrow> checkpoint_signer option" where
  "registry_signer reg p = map_of (sr_signers reg) p"

definition build_signer_registry :: "signer_config \<Rightarrow> signer_error + signer_registry" where
  "build_signer_registry cfg =
     (let contract = (\<lambda>p. (provider_label p, ContractSigner p (cfg_key_id cfg) (cfg_key_version cfg))) in
      Inr \<lparr>sr_active_provider = provider_label (cfg_provider cfg),
           sr_signers = [(provider_label ProviderLegacySha256, LegacySigner),
             contract ProviderMock, contract ProviderVault, contract ProviderAws,
             contract ProviderAzure, contract ProviderAliyun]\<rparr>)"

definition signer_from_metadata ::
  "string \<Rightarrow> string \<Rightarrow> string option \<Rightarrow> string \<Rightarrow> signer_error + checkpoint_signer" where
  "signer_from_metadata provider key_id key_version algorithm =
     (if eq_ignore_ascii_case algorithm ''sha256'' \<or> eq_ignore_ascii_case provider ''legacy-sha256''
      then Inr LegacySigner
      else res_bind (provider_parse provider) (\<lambda>p.
        Inr (ContractSigner p
          (if trim key_id = [] then ''sdqp-audit-checkpoint'' else key_id) key_version)))"

subsection \<open>Checkpoints\<close>

record audit_checkpoint =
  cp_checkpoint_id :: string
  cp_created_at :: time
  cp_event_count :: nat
  cp_last_event_hash :: string
  cp_signature :: string
  cp_signature_algorithm :: string
  cp_signer_provider :: string
  cp_signer_key_id :: string
  cp_signer_key_version :: "string option"

definition checkpoint_payload ::
  "audit_env \<Rightarrow> string \<Rightarrow> time \<Rightarrow> nat \<Rightarrow> string \<Rightarrow> string" where
  "checkpoint_payload env cid at n h =
     join ''|'' [cid, env_timestamp env at, show_nat n, h]"

definition create_checkpoint_with_signer ::
  "audit_env \<Rightarrow> time \<Rightarrow> string \<Rightarrow> nat \<Rightarrow> string \<Rightarrow> checkpoint_signer \<Rightarrow> audit_checkpoint option" where
  "create_checkpoint_with_signer env now ulid n h s =
     (case sign_payload env s (checkpoint_payload env ulid now n h) of
        Inl e \<Rightarrow> None
      | Inr signature \<Rightarrow>
          Some \<lparr>cp_checkpoint_id = ulid, cp_created_at = now, cp_event_count = n,
                cp_last_event_hash = h, cp_signature = signature,
                cp_signature_algorithm = signer_algorithm s,
                cp_signer_provider = signer_provider_name s, cp_signer_key_id = signer_key_id s,
                cp_signer_key_version = signer_key_version s\<rparr>)"

definition create_checkpoint ::
  "audit_env \<Rightarrow> time \<Rightarrow> string \<Rightarrow> audit_event list \<Rightarrow> audit_checkpoint option" where
  "create_checkpoint env now ulid events =
     (case build_signer_registry signer_config_default of
        Inl e \<Rightarrow> None
      | Inr reg \<Rightarrow>
          (case active_signer reg of
             None \<Rightarrow> None
           | Some s \<Rightarrow>
               if events = [] then None
               else create_checkpoint_with_signer env now ulid (length events)
                      (ev_event_hash (last events)) s))"

definition verify_checkpoint :: "audit_env \<Rightarrow> audit_checkpoint \<Rightarrow> bool" where
  "verify_checkpoint env c =
     (case signer_from_metadata (cp_signer_provider c) (cp_signer_key_id c)
             (cp_signer_key_version c) (cp_signature_algorithm c) of
        Inl e \<Rightarrow> False
      | Inr s \<Rightarrow>
          (case verify_payload env s
                  (checkpoint_payload env (cp_checkpoint_id c) (cp_created_at c)
                     (cp_event_count c) (cp_last_event_hash c)) (cp_signature c) of
             Inl e \<Rightarrow> False
           | Inr b \<Rightarrow> b))"

subsection \<open>The chain\<close>

text \<open>The windows of two: each later event verifies and names the hash of the one before.\<close>

fun verify_links :: "audit_env \<Rightarrow> audit_event \<Rightarrow> audit_event list \<Rightarrow> bool" where
  "verify_links env e [] = True"
| "verify_links env e (f # fs) =
     (verify_hash env f \<and> ev_prev_hash f = ev_event_hash e \<and> verify_links env f fs)"

definition verify_chain_with_anchor ::
  "audit_env \<Rightarrow> audit_event list \<Rightarrow> audit_checkpoint option \<Rightarrow> bool" where
  "verify_chain_with_anchor env events anchor =
     (if (case anchor of Some c \<Rightarrow> \<not> verify_checkpoint env c | None \<Rightarrow> False) then False
      else case events of
        [] \<Rightarrow> True
      | e # es \<Rightarrow>
          let expected = (case anchor of Some c \<Rightarrow> cp_last_event_hash c | None \<Rightarrow> ''GENESIS'') in
          if ev_prev_hash e \<noteq> expected \<or> \<not> verify_hash env e then False
          else verify_links env e es)"

definition verify_chain :: "audit_env \<Rightarrow> audit_event list \<Rightarrow> bool" where
  "verify_chain env events = verify_chain_with_anchor env events None"

subsection \<open>The trail and its replicas\<close>

record audit_trail =
  at_anchor :: "audit_checkpoint option"
  at_events :: "audit_event list"
  at_checkpoints :: "audit_checkpoint list"

definition trail_default :: audit_trail where
  "trail_default = \<lparr>at_anchor = None, at_events = [], at_checkpoints = []\<rparr>"

definition trail_from_parts :: "audit_event list \<Rightarrow> audit_checkpoint list \<Rightarrow> audit_trail" where
  "trail_from_parts es cs = \<lparr>at_anchor = None, at_events = es, at_checkpoints = cs\<rparr>"

definition trail_from_parts_with_anchor ::
  "audit_checkpoint option \<Rightarrow> audit_event list \<Rightarrow> audit_checkpoint list \<Rightarrow> audit_trail" where
  "trail_from_parts_with_anchor a es cs = \<lparr>at_anchor = a, at_events = es, at_checkpoints = cs\<rparr>"

definition anchor_offset :: "audit_checkpoint option \<Rightarrow> nat" where
  "anchor_offset a = (case a of Some c \<Rightarrow> cp_event_count c | None \<Rightarrow> 0)"

text \<open>\<open>None\<close> is the panic of \<open>expect\<close> when the signer fails.\<close>

definition append_with_signer ::
  "audit_env \<Rightarrow> time \<Rightarrow> string \<Rightarrow> audit_trail \<Rightarrow> audit_event \<Rightarrow> checkpoint_signer
     \<Rightarrow> (audit_trail \<times> audit_checkpoint) option" where
  "append_with_signer env now ulid t e s =
     (let t1 = t\<lparr>at_events := at_events t @ [e]\<rparr>;
          total = anchor_offset (at_anchor t1) + length (at_events t1) in
      case create_checkpoint_with_signer env now ulid total (ev_event_hash (last (at_events t1))) s of
        None \<Rightarrow> None
      | Some c \<Rightarrow> Some (t1\<lparr>at_checkpoints := at_checkpoints t1 @ [c]\<rparr>, c))"

definition append_event ::
  "audit_env \<Rightarrow> time \<Rightarrow> string \<Rightarrow> time \<Rightarrow> string \<Rightarrow> audit_trail \<Rightarrow> audit_event
     \<Rightarrow> (audit_trail \<times> audit_checkpoint) option" where
  "append_event env now0 ulid0 now ulid t e =
     (case create_checkpoint env now0 ulid0 [e] of
        None \<Rightarrow> None
      | Some c \<Rightarrow>
          (case signer_from_metadata (cp_signer_provider c) (cp_signer_key_id c)
                  (cp_signer_key_version c) (cp_signature_algorithm c) of
             Inl _ \<Rightarrow> None
           | Inr s \<Rightarrow> append_with_signer env now ulid t e s))"

definition latest_event_hash :: "audit_trail \<Rightarrow> string option" where
  "latest_event_hash t =
     (if at_events t \<noteq> [] then Some (ev_event_hash (last (at_events t)))
      else map_option cp_last_event_hash (at_anchor t))"

definition event_count :: "audit_trail \<Rightarrow> nat" where
  "event_count t = length (at_events t)"

definition chain_valid :: "audit_env \<Rightarrow> audit_trail \<Rightarrow> bool" where
  "chain_valid env t = verify_chain_with_anchor env (at_events t) (at_anchor t)"

definition apply_archive_boundary :: "audit_trail \<Rightarrow> audit_checkpoint \<Rightarrow> audit_trail" where
  "apply_archive_boundary t b =
     (let previous = anchor_offset (at_anchor t);
          archived = min (cp_event_count b - previous) (length (at_events t));
          archived_cps = length (takeWhile (\<lambda>c. cp_event_count c \<le> cp_event_count b)
                                   (at_checkpoints t)) in
      t\<lparr>at_events := drop archived (at_events t),
        at_checkpoints := drop archived_cps (at_checkpoints t),
        at_anchor := Some b\<rparr>)"

definition tenant_events :: "audit_trail \<Rightarrow> string \<Rightarrow> audit_event list" where
  "tenant_events t tenant = filter (\<lambda>e. tg_tenant_id (ev_target e) = tenant) (at_events t)"

definition scoped_events ::
  "audit_trail \<Rightarrow> string \<Rightarrow> string option \<Rightarrow> bool \<Rightarrow> audit_event list" where
  "scoped_events t tenant project include_projectless =
     filter (\<lambda>e. case project of
                   Some p \<Rightarrow> tg_project_id (ev_target e) = Some p
                     \<or> (include_projectless \<and> tg_project_id (ev_target e) = None)
                 | None \<Rightarrow> True)
       (filter (\<lambda>e. tg_tenant_id (ev_target e) = tenant) (at_events t))"

record audit_replica =
  rep_exported_at :: time
  rep_anchor :: "audit_checkpoint option"
  rep_events :: "audit_event list"
  rep_checkpoints :: "audit_checkpoint list"

definition export_replica :: "time \<Rightarrow> audit_trail \<Rightarrow> audit_replica" where
  "export_replica now t =
     \<lparr>rep_exported_at = now, rep_anchor = at_anchor t, rep_events = at_events t,
      rep_checkpoints = at_checkpoints t\<rparr>"

definition verify_replica :: "audit_env \<Rightarrow> audit_replica \<Rightarrow> bool" where
  "verify_replica env r =
     (verify_chain_with_anchor env (rep_events r) (rep_anchor r) \<and>
      list_all (verify_checkpoint env) (rep_checkpoints r) \<and>
      (rep_checkpoints r = [] \<or>
        (cp_event_count (last (rep_checkpoints r))
           = anchor_offset (rep_anchor r) + length (rep_events r) \<and>
         rep_events r \<noteq> [] \<and>
         cp_last_event_hash (last (rep_checkpoints r)) = ev_event_hash (last (rep_events r)))))"

subsection \<open>The contract of a signer\<close>

text \<open>The trait \<open>CheckpointSigner\<close>: verification recomputes the signature and compares.\<close>

locale payload_signer =
  fixes sign :: "string \<Rightarrow> 'e + string"
    and verify :: "string \<Rightarrow> string \<Rightarrow> 'e + bool"
  assumes verify_recomputes: "verify p sig = res_bind (sign p) (\<lambda>x. Inr (x = sig))"
begin

lemma signed_verifies: "sign p = Inr sig \<Longrightarrow> verify p sig = Inr True"
  by (simp add: verify_recomputes)

lemma verified_is_signed: "verify p sig = Inr True \<longleftrightarrow> sign p = Inr sig"
  by (cases "sign p") (auto simp: verify_recomputes)

lemma one_signature: "\<lbrakk> verify p sig = Inr True; verify p sig' = Inr True \<rbrakk> \<Longrightarrow> sig = sig'"
  by (simp add: verified_is_signed)

end

interpretation signers: payload_signer "sign_payload env s" "verify_payload env s" for env s
  by unfold_locales (simp add: verify_payload_def)

text \<open>The signers whose metadata, stored in a checkpoint, lead back to them.\<close>

fun durable_signer :: "checkpoint_signer \<Rightarrow> bool" where
  "durable_signer LegacySigner = True"
| "durable_signer (ContractSigner p k v) = (p \<noteq> ProviderLegacySha256 \<and> trim k \<noteq> [])"

lemma provider_parse_label: "provider_parse (provider_label p) = Inr p"
  by (induction p) code_simp+

lemma provider_label_not_legacy:
  "p \<noteq> ProviderLegacySha256 \<longrightarrow> \<not> eq_ignore_ascii_case (provider_label p) ''legacy-sha256''"
  by (induction p) code_simp+

lemma signer_from_own_metadata:
  assumes "durable_signer s"
  shows "signer_from_metadata (signer_provider_name s) (signer_key_id s) (signer_key_version s)
           (signer_algorithm s) = Inr s"
proof (cases s)
  case LegacySigner
  then show ?thesis by (simp add: signer_from_metadata_def eq_ignore_ascii_case_def)
next
  case (ContractSigner p k v)
  have "\<not> eq_ignore_ascii_case ''hmac-sha256'' ''sha256''" by code_simp
  then show ?thesis
    using assms ContractSigner provider_label_not_legacy [of p]
    by (simp add: signer_from_metadata_def provider_parse_label)
qed

lemma created_checkpoint_verifies:
  assumes "create_checkpoint_with_signer env now ulid n h s = Some c" and "durable_signer s"
  shows "verify_checkpoint env c \<and> cp_event_count c = n \<and> cp_last_event_hash c = h"
proof -
  obtain sig where "sign_payload env s (checkpoint_payload env ulid now n h) = Inr sig"
    using assms(1) by (auto simp: create_checkpoint_with_signer_def split: sum.splits)
  with assms(1) signers.signed_verifies [OF this] signer_from_own_metadata [OF assms(2)]
  show ?thesis by (auto simp: create_checkpoint_with_signer_def verify_checkpoint_def)
qed

subsection \<open>The chain as a recursion\<close>

fun chain_from :: "audit_env \<Rightarrow> string \<Rightarrow> audit_event list \<Rightarrow> bool" where
  "chain_from env h [] = True"
| "chain_from env h (e # es) =
     (ev_prev_hash e = h \<and> verify_hash env e \<and> chain_from env (ev_event_hash e) es)"

definition chain_start :: "audit_checkpoint option \<Rightarrow> string" where
  "chain_start a = (case a of Some c \<Rightarrow> cp_last_event_hash c | None \<Rightarrow> ''GENESIS'')"

definition anchor_ok :: "audit_env \<Rightarrow> audit_checkpoint option \<Rightarrow> bool" where
  "anchor_ok env a = (case a of Some c \<Rightarrow> verify_checkpoint env c | None \<Rightarrow> True)"

lemma verify_links_chain: "verify_links env e es = chain_from env (ev_event_hash e) es"
  by (induction es arbitrary: e) auto

lemma verify_chain_iff:
  "verify_chain_with_anchor env es a \<longleftrightarrow> anchor_ok env a \<and> chain_from env (chain_start a) es"
  by (cases es)
    (auto simp: verify_chain_with_anchor_def anchor_ok_def chain_start_def verify_links_chain Let_def
      split: option.splits)

definition last_hash :: "string \<Rightarrow> audit_event list \<Rightarrow> string" where
  "last_hash h es = (if es = [] then h else ev_event_hash (last es))"

lemma last_hash_simps [simp]:
  "last_hash h [] = h" "last_hash h (es @ [e]) = ev_event_hash e"
  "last_hash h (e # es) = last_hash (ev_event_hash e) es"
  by (simp_all add: last_hash_def)

lemma chain_from_append:
  "chain_from env h (es @ fs) \<longleftrightarrow> chain_from env h es \<and> chain_from env (last_hash h es) fs"
  by (induction es arbitrary: h) simp_all

lemma latest_event_hash_eq:
  "latest_event_hash t =
     (if at_events t = [] \<and> at_anchor t = None then None
      else Some (last_hash (chain_start (at_anchor t)) (at_events t)))"
  by (auto simp: latest_event_hash_def last_hash_def chain_start_def split: option.splits)

lemma event_new_hash [simp]:
  "verify_hash env (event_new_with_fields env now ulid actor action target context fs result fp prev)"
  by (simp add: event_new_with_fields_def verify_hash_def recompute_hash_def event_payload_def
      event_parts_def Let_def)

lemma event_new_prev [simp]:
  "ev_prev_hash (event_new_with_fields env now ulid actor action target context fs result fp prev)
     = (case prev of Some h \<Rightarrow> h | None \<Rightarrow> ''GENESIS'')"
  by (simp add: event_new_with_fields_def Let_def)

subsection \<open>Well-formed trails\<close>

text \<open>
  The chain verifies from the anchor, and there is one verified checkpoint per event, with
  its hash and the number of events up to it, archived ones included.
\<close>

definition trail_wf :: "audit_env \<Rightarrow> audit_trail \<Rightarrow> bool" where
  "trail_wf env t =
     (chain_valid env t \<and> list_all (verify_checkpoint env) (at_checkpoints t) \<and>
      map cp_event_count (at_checkpoints t)
        = [Suc (anchor_offset (at_anchor t))
             ..<Suc (anchor_offset (at_anchor t)) + length (at_events t)] \<and>
      map cp_last_event_hash (at_checkpoints t) = map ev_event_hash (at_events t))"

lemma trail_wf_default: "trail_wf env trail_default"
  by (simp add: trail_wf_def trail_default_def chain_valid_def verify_chain_iff anchor_ok_def)

lemma append_with_signer_wf:
  assumes wf: "trail_wf env t" and s: "durable_signer s" and hash: "verify_hash env e"
    and prev: "ev_prev_hash e = last_hash (chain_start (at_anchor t)) (at_events t)"
    and app: "append_with_signer env now ulid t e s = Some (t', c)"
  shows "trail_wf env t'"
proof -
  obtain c where c: "create_checkpoint_with_signer env now ulid
        (anchor_offset (at_anchor t) + Suc (length (at_events t))) (ev_event_hash e) s = Some c"
    and t': "t' = t\<lparr>at_events := at_events t @ [e], at_checkpoints := at_checkpoints t @ [c]\<rparr>"
    using app by (auto simp: append_with_signer_def Let_def split: option.splits)
  show ?thesis
    using wf hash prev created_checkpoint_verifies [OF c s]
    by (simp add: t' trail_wf_def chain_valid_def verify_chain_iff chain_from_append)
qed

lemma length_takeWhile_counts:
  "map cp_event_count cs = [a..<a + n] \<Longrightarrow>
     length (takeWhile (\<lambda>c. cp_event_count c \<le> m) cs) = min n (Suc m - a)"
proof (induction cs arbitrary: a n)
  case Nil
  then show ?case by (cases n) simp_all
next
  case (Cons c cs)
  then obtain n' where n: "n = Suc n'" by (cases n) simp_all
  have upt: "[a..<a + n] = a # [Suc a..<Suc a + n']" unfolding n by (subst upt_conv_Cons) simp_all
  with Cons.prems have c: "cp_event_count c = a" and cs: "map cp_event_count cs = [Suc a..<Suc a + n']"
    by simp_all
  from Cons.IH [OF cs] c n show ?case by auto
qed

text \<open>The place of one of the trail's own checkpoints.\<close>

lemma boundary_position:
  assumes wf: "trail_wf env t" and b: "b \<in> set (at_checkpoints t)"
  obtains k where "k < length (at_events t)" "length (at_checkpoints t) = length (at_events t)"
    "b = at_checkpoints t ! k" "cp_event_count b = anchor_offset (at_anchor t) + Suc k"
    "cp_last_event_hash b = ev_event_hash (at_events t ! k)"
    "length (takeWhile (\<lambda>c. cp_event_count c \<le> cp_event_count b) (at_checkpoints t)) = Suc k"
proof -
  let ?off = "anchor_offset (at_anchor t)" and ?n = "length (at_events t)"
  have counts: "map cp_event_count (at_checkpoints t) = [Suc ?off..<Suc ?off + ?n]"
    and hashes: "map cp_last_event_hash (at_checkpoints t) = map ev_event_hash (at_events t)"
    using wf by (simp_all add: trail_wf_def)
  have len: "length (at_checkpoints t) = ?n" using hashes map_eq_imp_length_eq by blast
  obtain k where k: "k < ?n" and bk: "b = at_checkpoints t ! k"
    using b len by (metis in_set_conv_nth)
  have count: "cp_event_count b = ?off + Suc k"
    using arg_cong [OF counts, of "\<lambda>xs. xs ! k"] k len by (simp add: bk del: upt_Suc)
  have bh: "cp_last_event_hash b = ev_event_hash (at_events t ! k)"
    using arg_cong [OF hashes, of "\<lambda>xs. xs ! k"] k len by (simp add: bk)
  have "length (takeWhile (\<lambda>c. cp_event_count c \<le> cp_event_count b) (at_checkpoints t)) = Suc k"
    using k length_takeWhile_counts [OF counts, of "cp_event_count b"]
    by (simp add: count min.absorb2)
  from that [OF k len bk count bh this] show thesis .
qed

lemma apply_archive_boundary_wf:
  assumes wf: "trail_wf env t" and b: "b \<in> set (at_checkpoints t)"
  shows "trail_wf env (apply_archive_boundary t b)"
proof -
  let ?off = "anchor_offset (at_anchor t)" and ?n = "length (at_events t)"
  have counts: "map cp_event_count (at_checkpoints t) = [Suc ?off..<Suc ?off + ?n]"
    and hashes: "map cp_last_event_hash (at_checkpoints t) = map ev_event_hash (at_events t)"
    and verified: "list_all (verify_checkpoint env) (at_checkpoints t)"
    and chain: "chain_from env (chain_start (at_anchor t)) (at_events t)"
    using wf by (simp_all add: trail_wf_def chain_valid_def verify_chain_iff)
  obtain k where k: "k < ?n" and count: "cp_event_count b = ?off + Suc k"
    and bh: "cp_last_event_hash b = ev_event_hash (at_events t ! k)"
    and tw: "length (takeWhile (\<lambda>c. cp_event_count c \<le> cp_event_count b) (at_checkpoints t)) = Suc k"
    using boundary_position [OF assms] by blast
  have vb: "verify_checkpoint env b" using verified b by (simp add: list_all_iff)
  have t': "apply_archive_boundary t b = t\<lparr>at_events := drop (Suc k) (at_events t),
      at_checkpoints := drop (Suc k) (at_checkpoints t), at_anchor := Some b\<rparr>"
    using k tw by (simp add: apply_archive_boundary_def Let_def count min.absorb1)
  have "last_hash (chain_start (at_anchor t)) (take (Suc k) (at_events t)) = cp_last_event_hash b"
    using k bh by (simp add: take_Suc_conv_app_nth)
  then have "chain_from env (cp_last_event_hash b) (drop (Suc k) (at_events t))"
    using chain chain_from_append [of env _ "take (Suc k) (at_events t)" "drop (Suc k) (at_events t)"]
    by simp
  moreover have "map cp_event_count (drop (Suc k) (at_checkpoints t))
      = [Suc (cp_event_count b)..<Suc (cp_event_count b) + length (drop (Suc k) (at_events t))]"
  proof -
    have "Suc (cp_event_count b) + length (drop (Suc k) (at_events t)) = Suc ?off + ?n"
      using k by (simp add: count)
    then show ?thesis
      unfolding drop_map [symmetric] counts by (simp only: drop_upt count) simp
  qed
  moreover have "map cp_last_event_hash (drop (Suc k) (at_checkpoints t))
      = map ev_event_hash (drop (Suc k) (at_events t))"
    unfolding drop_map [symmetric] hashes ..
  moreover have "list_all (verify_checkpoint env) (drop (Suc k) (at_checkpoints t))"
    using verified by (auto simp: list_all_iff dest: in_set_dropD)
  ultimately show ?thesis
    using k vb
    by (simp add: t' trail_wf_def chain_valid_def verify_chain_iff anchor_ok_def chain_start_def
        anchor_offset_def [of "Some b"] del: upt_Suc length_drop)
qed

lemma trail_wf_replica: "trail_wf env t \<Longrightarrow> verify_replica env (export_replica now t)"
proof -
  assume wf: "trail_wf env t"
  let ?off = "anchor_offset (at_anchor t)" and ?n = "length (at_events t)"
  have counts: "map cp_event_count (at_checkpoints t) = [Suc ?off..<Suc ?off + ?n]"
    and hashes: "map cp_last_event_hash (at_checkpoints t) = map ev_event_hash (at_events t)"
    using wf by (simp_all add: trail_wf_def)
  have len: "length (at_checkpoints t) = ?n" using hashes map_eq_imp_length_eq by blast
  have "cp_event_count (last (at_checkpoints t)) = ?off + ?n \<and>
      cp_last_event_hash (last (at_checkpoints t)) = ev_event_hash (last (at_events t)) \<and>
      at_events t \<noteq> []" if ne: "at_checkpoints t \<noteq> []"
  proof -
    have ne': "at_events t \<noteq> []" using ne len by auto
    have "last (map cp_event_count (at_checkpoints t)) = ?off + ?n"
      unfolding counts using ne' by (cases ?n) simp_all
    moreover have "last (map cp_last_event_hash (at_checkpoints t)) = last (map ev_event_hash (at_events t))"
      by (simp only: hashes)
    ultimately show ?thesis using ne ne' by (simp add: last_map)
  qed
  then show ?thesis
    using wf by (auto simp: verify_replica_def export_replica_def trail_wf_def chain_valid_def)
qed

subsection \<open>Runs of a trail\<close>

text \<open>
  One step appends a new event that was built on the latest hash, or applies the boundary of
  an archive: one of the trail's own checkpoints.
\<close>

inductive trail_step :: "audit_env \<Rightarrow> audit_trail \<Rightarrow> audit_trail \<Rightarrow> bool" for env where
  step_append:
    "\<lbrakk> durable_signer s;
       e = event_new_with_fields env now0 ulid0 actor action target context fs result fp
             (latest_event_hash t);
       append_with_signer env now ulid t e s = Some (t', c) \<rbrakk> \<Longrightarrow> trail_step env t t'"
| step_archive: "b \<in> set (at_checkpoints t) \<Longrightarrow> trail_step env t (apply_archive_boundary t b)"

inductive trail_run :: "audit_env \<Rightarrow> audit_trail \<Rightarrow> audit_trail \<Rightarrow> bool" for env where
  trail_refl: "trail_run env t t"
| trail_more: "\<lbrakk> trail_run env t t'; trail_step env t' t'' \<rbrakk> \<Longrightarrow> trail_run env t t''"

lemma trail_step_wf: "\<lbrakk> trail_step env t t'; trail_wf env t \<rbrakk> \<Longrightarrow> trail_wf env t'"
proof (induction rule: trail_step.induct)
  case (step_append s e now0 ulid0 actor action target "context" fs result fp t now ulid t' c)
  have "ev_prev_hash e = last_hash (chain_start (at_anchor t)) (at_events t)"
    by (auto simp: step_append(2) latest_event_hash_eq chain_start_def)
  moreover have "verify_hash env e" by (simp add: step_append(2))
  ultimately show ?case
    using append_with_signer_wf [OF step_append(4,1) _ _ step_append(3)] by blast
qed (simp add: apply_archive_boundary_wf)

lemma trail_run_wf: "\<lbrakk> trail_run env t t'; trail_wf env t \<rbrakk> \<Longrightarrow> trail_wf env t'"
  by (induction rule: trail_run.induct) (auto intro: trail_step_wf)

subsection \<open>Tampering\<close>

definition hex_char :: "char \<Rightarrow> bool" where
  "hex_char c = (is_ascii_digit c \<or> (97 \<le> code_of c \<and> code_of c \<le> 102))"

text \<open>What \<open>hex::encode\<close> documents: lower-case hexadecimal digits.\<close>

definition hex_text :: "audit_env \<Rightarrow> bool" where
  "hex_text env = (\<forall>bytes. list_all hex_char (env_hex env bytes))"

lemma hex_char_facts: "\<not> hex_char (CHR ''|'')" "\<not> hex_char (CHR ''G'')"
  by code_simp+

lemma sha256_hex_plain:
  assumes "hex_text env"
  shows "CHR ''|'' \<notin> set (sha256_hex env p)" and "sha256_hex env p \<noteq> ''GENESIS''"
proof -
  have hex: "list_all hex_char (sha256_hex env p)"
    using assms by (simp add: hex_text_def sha256_hex_def)
  then show "CHR ''|'' \<notin> set (sha256_hex env p)" using hex_char_facts by (auto simp: list_all_iff)
  show "sha256_hex env p \<noteq> ''GENESIS''" using hex hex_char_facts by auto
qed

lemma append_sep_inj_right:
  assumes "c \<notin> set r" "c \<notin> set t" "a @ c # r = b @ c # t"
  shows "a = b \<and> r = t"
proof -
  have "rev r @ c # rev a = rev t @ c # rev b"
    using arg_cong [OF assms(3), of rev] by simp
  from append_sep_inj [OF _ _ this] assms(1,2) show ?thesis by simp
qed

lemma event_payload_prev:
  "\<exists>front. event_payload env e = front @ CHR ''|'' # ev_prev_hash e"
proof -
  have "\<exists>front. join ''|'' (ps @ [x, y]) = front @ CHR ''|'' # y" for ps and x y :: string
  proof (induction ps)
    case (Cons p ps)
    then obtain front where "join ''|'' (ps @ [x, y]) = front @ CHR ''|'' # y" by blast
    then have "join ''|'' ((p # ps) @ [x, y]) = (p @ ''|'' @ front) @ CHR ''|'' # y"
      by (simp add: join_Cons)
    then show ?case by blast
  qed simp
  from this [of "[ev_event_id e, env_timestamp env (ev_timestamp e), ac_user_id (ev_actor e),
      ac_session_id (ev_actor e), ac_ip_address (ev_actor e), action_debug (ev_action e),
      tg_resource_id (ev_target e), result_debug (ev_result e), ev_context e]
     @ (if ev_context_fields e = [] then [] else [env_json env (ev_context_fields e)])"
      "option_dash (ev_data_fingerprint e)" "ev_prev_hash e"]
  show ?thesis by (simp add: event_payload_def event_parts_def)
qed

lemma same_payload_same_prev:
  assumes "event_payload env e = event_payload env f"
    and "CHR ''|'' \<notin> set (ev_prev_hash e)" "CHR ''|'' \<notin> set (ev_prev_hash f)"
  shows "ev_prev_hash e = ev_prev_hash f"
proof -
  obtain a b where "event_payload env e = a @ CHR ''|'' # ev_prev_hash e"
    "event_payload env f = b @ CHR ''|'' # ev_prev_hash f"
    using event_payload_prev by meson
  with assms append_sep_inj_right show ?thesis by metis
qed

text \<open>Two events that differ in their payload and share the hash: a collision of SHA-256.\<close>

definition hash_collision :: "audit_env \<Rightarrow> audit_event \<Rightarrow> audit_event \<Rightarrow> bool" where
  "hash_collision env e f =
     (event_payload env e \<noteq> event_payload env f \<and>
      sha256_hex env (event_payload env e) = sha256_hex env (event_payload env f))"

lemma last_hash_sha:
  "\<lbrakk> chain_from env h es; es \<noteq> [] \<rbrakk> \<Longrightarrow>
     last_hash h es = sha256_hex env (event_payload env (last es))"
  by (cases es rule: rev_cases)
    (simp_all add: chain_from_append verify_hash_def recompute_hash_def)

lemma chain_hash_no_bar:
  assumes "hex_text env" "chain_from env ''GENESIS'' es"
  shows "CHR ''|'' \<notin> set (last_hash ''GENESIS'' es)"
  using last_hash_sha [OF assms(2)] sha256_hex_plain(1) [OF assms(1)]
  by (cases "es = []") auto

lemma chains_agree_from:
  assumes "hex_text env" "CHR ''|'' \<notin> set h" "chain_from env h es" "chain_from env h fs"
    and "length es = length fs" "last_hash h es = last_hash h fs"
  shows "map (event_payload env) es = map (event_payload env) fs
    \<or> (\<exists>e\<in>set es. \<exists>f\<in>set fs. hash_collision env e f)"
  using assms(3-)
proof (induction es arbitrary: fs rule: rev_induct)
  case (snoc e es)
  then obtain fs' f where fs': "fs = fs' @ [f]" by (cases fs rule: rev_cases) simp_all
  have chains: "chain_from env h es" "chain_from env h fs'"
    and prevs: "ev_prev_hash e = last_hash h es" "ev_prev_hash f = last_hash h fs'"
    using snoc.prems by (simp_all add: fs' chain_from_append)
  have sha: "sha256_hex env (event_payload env e) = sha256_hex env (event_payload env f)"
    using snoc.prems last_hash_sha [OF snoc.prems(1)] last_hash_sha [OF snoc.prems(2)]
    by (simp add: fs')
  have bar: "CHR ''|'' \<notin> set (last_hash h xs)" if "chain_from env h xs" for xs
    using last_hash_sha [OF that] sha256_hex_plain(1) [OF assms(1)] assms(2)
    by (cases "xs = []") (auto simp: last_hash_def)
  show ?case
  proof (cases "event_payload env e = event_payload env f")
    case False
    with sha have "hash_collision env e f" by (simp add: hash_collision_def)
    then show ?thesis by (auto simp: fs')
  next
    case True
    have "last_hash h es = last_hash h fs'"
      using same_payload_same_prev [OF True] bar [OF chains(1)] bar [OF chains(2)] by (simp add: prevs)
    with snoc.IH [OF chains] snoc.prems(3) True show ?thesis by (auto simp: fs')
  qed
qed simp

lemma chains_agree:
  assumes "hex_text env" "chain_from env ''GENESIS'' es" "chain_from env ''GENESIS'' fs"
    and "last_hash ''GENESIS'' es = last_hash ''GENESIS'' fs"
  shows "map (event_payload env) es = map (event_payload env) fs
    \<or> (\<exists>e\<in>set es. \<exists>f\<in>set fs. hash_collision env e f)"
  using assms(2-)
proof (induction es arbitrary: fs rule: rev_induct)
  case Nil
  then show ?case
    using last_hash_sha [of env "''GENESIS''" fs] sha256_hex_plain(2) [OF assms(1)]
    by (cases "fs = []") (auto dest: sym)
next
  case (snoc e es)
  have fs: "fs \<noteq> []"
  proof
    assume "fs = []"
    with snoc.prems(3) last_hash_sha [OF snoc.prems(1)]
    have "sha256_hex env (event_payload env e) = ''GENESIS''" by simp
    with sha256_hex_plain(2) [OF assms(1)] show False by blast
  qed
  then obtain fs' f where fs': "fs = fs' @ [f]" by (metis append_butlast_last_id)
  have chains: "chain_from env ''GENESIS'' es" "chain_from env ''GENESIS'' fs'"
    and prevs: "ev_prev_hash e = last_hash ''GENESIS'' es" "ev_prev_hash f = last_hash ''GENESIS'' fs'"
    using snoc.prems by (simp_all add: fs' chain_from_append)
  have sha: "sha256_hex env (event_payload env e) = sha256_hex env (event_payload env f)"
    using snoc.prems last_hash_sha [OF snoc.prems(1)] last_hash_sha [OF snoc.prems(2) fs]
    by (simp add: fs')
  show ?case
  proof (cases "event_payload env e = event_payload env f")
    case False
    with sha have "hash_collision env e f" by (simp add: hash_collision_def)
    then show ?thesis by (auto simp: fs')
  next
    case True
    from same_payload_same_prev [OF True] chain_hash_no_bar [OF assms(1)] chains
    have "last_hash ''GENESIS'' es = last_hash ''GENESIS'' fs'" by (simp add: prevs)
    from snoc.IH [OF chains this] True show ?thesis by (auto simp: fs')
  qed
qed

subsection \<open>Properties\<close>

text \<open>An environment to evaluate in: the digest is the identity, the hexadecimal text is real.\<close>

definition hex_digit :: "nat \<Rightarrow> char" where
  "hex_digit n = (if n < 10 then digit_char n else (char_of (87 + n) :: char))"

definition sample_hex :: "string \<Rightarrow> string" where
  "sample_hex bs = concat (map (\<lambda>c. [hex_digit (code_of c div 16), hex_digit (code_of c mod 16)]) bs)"

definition sample_env :: audit_env where
  "sample_env = \<lparr>env_digest = id, env_hex = sample_hex, env_hmac = \<lambda>k m. Inr (k @ m),
     env_timestamp = \<lambda>t. show_nat (nat t), env_json = \<lambda>_. ''{}''\<rparr>"

lemma hex_digit_hex: "n < 16 \<Longrightarrow> hex_char (hex_digit n)"
  by (cases "n < 10")
    (simp_all add: hex_digit_def hex_char_def is_ascii_digit_def code_of_digit_char,
      simp add: code_of_def)

lemma sample_env_hex: "hex_text sample_env"
proof -
  have "hex_char (hex_digit (code_of c div 16)) \<and> hex_char (hex_digit (code_of c mod 16))" for c
    using code_of_bound [of c] by (intro conjI hex_digit_hex) simp_all
  then show ?thesis by (auto simp: hex_text_def sample_env_def sample_hex_def list_all_iff)
qed

definition sample_audit_event :: "string \<Rightarrow> string option \<Rightarrow> audit_event" where
  "sample_audit_event eid prev =
     event_new_with_fields sample_env 0 eid
       \<lparr>ac_user_id = ''user-a'', ac_session_id = ''s1'', ac_ip_address = ''::1''\<rparr> ActQuery
       \<lparr>tg_tenant_id = ''tenant-a'', tg_project_id = Some ''p'', tg_resource_id = ''r''\<rparr>
       ''ctx'' [] ResSuccess None prev"

definition sample_trail :: audit_trail where
  "sample_trail = fst (the (append_with_signer sample_env 1 ''c1'' trail_default
     (sample_audit_event ''e1'' None) LegacySigner))"

lemma sample_trail_appends:
  "append_with_signer sample_env 1 ''c1'' trail_default
     (event_new_with_fields sample_env 0 ''e1''
       \<lparr>ac_user_id = ''user-a'', ac_session_id = ''s1'', ac_ip_address = ''::1''\<rparr> ActQuery
       \<lparr>tg_tenant_id = ''tenant-a'', tg_project_id = Some ''p'', tg_resource_id = ''r''\<rparr>
       ''ctx'' [] ResSuccess None (latest_event_hash trail_default)) LegacySigner
     = Some (sample_trail, the_elem (set (at_checkpoints sample_trail)))"
  by (simp add: sample_trail_def sample_audit_event_def append_with_signer_def Let_def
      create_checkpoint_with_signer_def trail_default_def latest_event_hash_def)

lemma sample_trail_run: "trail_run sample_env trail_default sample_trail"
proof -
  have "trail_step sample_env trail_default sample_trail"
    by (rule step_append [OF _ refl sample_trail_appends]) simp
  then show ?thesis by (rule trail_more [OF trail_refl])
qed

text \<open>
  C37. An honest trail always verifies.  Whatever events are appended with whatever signers
  that can be found again from their metadata, and wherever the trail is cut by archives at
  its own checkpoints, the hash chain verifies from the anchor; there is one checkpoint per event,
  which verifies, carries the event's hash, and is numbered by the events up to it, archived ones
  included, without a gap; and every replica exported from the trail verifies.
\<close>

theorem honest_trail_verifies:
  assumes "trail_run env trail_default t"
  shows "chain_valid env t \<and> list_all (verify_checkpoint env) (at_checkpoints t) \<and>
    map cp_event_count (at_checkpoints t) =
      [Suc (anchor_offset (at_anchor t))..<Suc (anchor_offset (at_anchor t)) + length (at_events t)] \<and>
    map cp_last_event_hash (at_checkpoints t) = map ev_event_hash (at_events t) \<and>
    verify_replica env (export_replica now t)"
  using trail_run_wf [OF assms trail_wf_default] trail_wf_replica by (auto simp: trail_wf_def)

lemma honest_trail_verifies_witness:
  "at_events sample_trail \<noteq> [] \<and> verify_replica sample_env (export_replica 7 sample_trail)"
  using honest_trail_verifies [OF sample_trail_run, of 7]
  by (simp add: sample_trail_def append_with_signer_def Let_def create_checkpoint_with_signer_def)

text \<open>
  C38. The chain is tamper-evident.  If two histories verify from the same anchor, or both from the
  beginning, and end in the same hash, they have the same hashed payloads, event by event, and, when
  no part of any event contains a bar, also the same parts; otherwise the two histories exhibit a
  collision of SHA-256.  From an anchor the histories are taken to have the same length, which the
  count of its checkpoints shows; from the beginning this follows.
\<close>

theorem chain_tamper_evident:
  assumes "hex_text env" and "verify_chain_with_anchor env es a" and "verify_chain_with_anchor env fs a"
    and "es \<noteq> []" and "fs \<noteq> []" and "ev_event_hash (last es) = ev_event_hash (last fs)"
    and "\<And>c. a = Some c \<Longrightarrow> length es = length fs \<and> CHR ''|'' \<notin> set (cp_last_event_hash c)"
  shows "(\<exists>e\<in>set es. \<exists>f\<in>set fs. hash_collision env e f) \<or>
    (map (event_payload env) es = map (event_payload env) fs \<and>
     ((\<forall>e\<in>set es \<union> set fs. \<forall>p\<in>set (event_parts env e). CHR ''|'' \<notin> set p) \<longrightarrow>
        map (event_parts env) es = map (event_parts env) fs))"
proof -
  have chains: "chain_from env (chain_start a) es" "chain_from env (chain_start a) fs"
    using assms(2,3) by (simp_all add: verify_chain_iff)
  have agree: "map (event_payload env) es = map (event_payload env) fs
    \<or> (\<exists>e\<in>set es. \<exists>f\<in>set fs. hash_collision env e f)"
  proof (cases a)
    case None
    then show ?thesis
      using chains_agree [OF assms(1)] chains assms(4-6) by (simp add: last_hash_def chain_start_def)
  next
    case (Some c)
    then show ?thesis
      using chains_agree_from [OF assms(1) _ chains] assms(4-7) by (simp add: last_hash_def chain_start_def)
  qed
  have "map (event_parts env) es = map (event_parts env) fs"
    if eq: "map (event_payload env) es = map (event_payload env) fs"
      and bars: "\<forall>e\<in>set es \<union> set fs. \<forall>p\<in>set (event_parts env e). CHR ''|'' \<notin> set p"
  proof (rule nth_equalityI)
    show len: "length (map (event_parts env) es) = length (map (event_parts env) fs)"
      using map_eq_imp_length_eq [OF eq] by simp
    fix k assume k: "k < length (map (event_parts env) es)"
    then have mem: "es ! k \<in> set es" "fs ! k \<in> set fs" using len by simp_all
    have "event_payload env (es ! k) = event_payload env (fs ! k)"
      using arg_cong [OF eq, of "\<lambda>xs. xs ! k"] k len by simp
    then have "event_parts env (es ! k) = event_parts env (fs ! k)"
      unfolding event_payload_def
      by (rule join_inj) (use bars mem in \<open>auto simp: event_parts_def\<close>)
    then show "map (event_parts env) es ! k = map (event_parts env) fs ! k" using k len by simp
  qed
  with agree show ?thesis by blast
qed

lemma chain_tamper_evident_witness:
  "(\<exists>e. hash_collision sample_env e (sample_audit_event ''e1'' None)) \<or>
     event_payload sample_env (sample_audit_event ''e1'' None)
       = event_payload sample_env (hd (at_events sample_trail))"
proof -
  have trail: "at_events sample_trail = [sample_audit_event ''e1'' None]"
    by (simp add: sample_trail_def append_with_signer_def Let_def create_checkpoint_with_signer_def
        trail_default_def)
  have "verify_chain_with_anchor sample_env (at_events sample_trail) None"
    by (simp add: trail verify_chain_iff chain_start_def anchor_ok_def sample_audit_event_def)
  from chain_tamper_evident [OF sample_env_hex this this] show ?thesis by (auto simp: trail)
qed

definition relabel :: "(audit_event \<Rightarrow> string) \<Rightarrow> (audit_event \<Rightarrow> string option) \<Rightarrow> audit_event \<Rightarrow> audit_event" where
  "relabel ten prj e =
     e\<lparr>ev_target := (ev_target e)\<lparr>tg_tenant_id := ten e, tg_project_id := prj e\<rparr>\<rparr>"

lemma relabel_simps [simp]:
  "recompute_hash env (relabel ten prj e) = recompute_hash env e"
  "ev_event_hash (relabel ten prj e) = ev_event_hash e"
  "ev_prev_hash (relabel ten prj e) = ev_prev_hash e"
  by (simp_all add: relabel_def recompute_hash_def event_payload_def event_parts_def)

lemma chain_from_relabel: "chain_from env h (map (relabel ten prj) es) = chain_from env h es"
  by (induction es arbitrary: h) (simp_all add: verify_hash_def)

text \<open>
  The chain does not bind tenant and project.  Giving every event another tenant and
  another project changes neither the verdict on the chain nor any hash, although the tenant
  views of the trail are selected by these fields.
\<close>

lemma chain_ignores_attribution:
  "verify_chain_with_anchor env (map (relabel ten prj) es) anchor = verify_chain_with_anchor env es anchor
   \<and> tenant_events (t\<lparr>at_events := map (relabel (\<lambda>_. new_tenant) prj) es\<rparr>) new_tenant
       = map (relabel (\<lambda>_. new_tenant) prj) es"
proof
  show "verify_chain_with_anchor env (map (relabel ten prj) es) anchor = verify_chain_with_anchor env es anchor"
    by (simp add: verify_chain_iff chain_from_relabel)
  show "tenant_events (t\<lparr>at_events := map (relabel (\<lambda>_. new_tenant) prj) es\<rparr>) new_tenant
       = map (relabel (\<lambda>_. new_tenant) prj) es"
    by (auto simp: tenant_events_def relabel_def filter_id_conv)
qed

definition forged_checkpoint ::
  "audit_env \<Rightarrow> string \<Rightarrow> time \<Rightarrow> string \<Rightarrow> string \<Rightarrow> audit_event list \<Rightarrow> audit_checkpoint" where
  "forged_checkpoint env cid at provider key_id es =
     \<lparr>cp_checkpoint_id = cid, cp_created_at = at, cp_event_count = length es,
      cp_last_event_hash = ev_event_hash (last es),
      cp_signature = sha256_hex env (checkpoint_payload env cid at (length es) (ev_event_hash (last es))),
      cp_signature_algorithm = ''sha256'', cp_signer_provider = provider,
      cp_signer_key_id = key_id, cp_signer_key_version = None\<rparr>"

text \<open>
  A checkpoint can be forged without a key.  Naming the algorithm \<open>sha256\<close> in a checkpoint
  makes the verifier fall back to a plain hash, whatever provider and key the checkpoint
  names; so anybody who rewrites a history that verifies as a chain can add a checkpoint that
  makes the replica verify.
\<close>

lemma forged_checkpoint_verifies:
  assumes "verify_chain env es" and "es \<noteq> []"
  shows "verify_checkpoint env (forged_checkpoint env cid at provider key_id es) \<and>
    verify_replica env \<lparr>rep_exported_at = at, rep_anchor = None, rep_events = es,
      rep_checkpoints = [forged_checkpoint env cid at provider key_id es]\<rparr>"
proof -
  have "verify_checkpoint env (forged_checkpoint env cid at provider key_id es)"
    using signers.signed_verifies [of env LegacySigner]
    by (simp add: verify_checkpoint_def forged_checkpoint_def signer_from_metadata_def
        eq_ignore_ascii_case_def)
  then show ?thesis
    using assms by (simp add: verify_replica_def verify_chain_def anchor_offset_def forged_checkpoint_def)
qed

lemma forged_checkpoint_verifies_witness:
  "verify_checkpoint sample_env
     (forged_checkpoint sample_env ''c'' 0 ''vault'' ''prod-key'' [sample_audit_event ''forged'' None])"
proof -
  have "verify_chain sample_env [sample_audit_event ''forged'' None]"
    by (simp add: verify_chain_def verify_chain_iff chain_start_def anchor_ok_def
        sample_audit_event_def)
  from forged_checkpoint_verifies [OF this, of "''c''" 0 "''vault''" "''prod-key''"]
  show ?thesis by simp
qed

end
