(* ===== verification/AuditRetention.thy ===== *)
theory AuditRetention
  imports AuditChain StateMachines
begin

text \<open>
  The retention side of crate \<open>sdqp-audit\<close> (\<open>retention.rs\<close>): retention categories and
  deadlines, the plan of an archive and its verification, and the controlled deletion flow
  with its tombstone.  \<open>serde_json::to_vec\<close> of the tombstone and of the evidence material and
  the SHA-256 of bytes are parameters, the record \<open>deletion_env\<close>.
\<close>

subsection \<open>Categories, deadlines and archives\<close>

datatype retention_category = RcAccessLog | RcPermissionLifecycle | RcEvidence | RcSystemManagement

record retention_config =
  rcf_enabled :: bool
  rcf_archive_after_secs :: int
  rcf_access_log_secs :: int
  rcf_permission_lifecycle_secs :: int
  rcf_evidence_secs :: int
  rcf_system_management_secs :: int

definition retention_config_default :: retention_config where
  "retention_config_default =
     (let day = 24 * 60 * 60 in
      \<lparr>rcf_enabled = True, rcf_archive_after_secs = 90 * day, rcf_access_log_secs = 3 * 365 * day,
       rcf_permission_lifecycle_secs = 5 * 365 * day, rcf_evidence_secs = 10 * 365 * day,
       rcf_system_management_secs = 5 * 365 * day\<rparr>)"

definition retention_category_for_event :: "audit_event \<Rightarrow> retention_category" where
  "retention_category_for_event e =
     (let ctx = to_ascii_lowercase (ev_context e) in
      if ev_action e = ActExport \<or> str_contains ctx ''evidence''
           \<or> str_contains ctx ''controlled deletion'' \<or> str_contains ctx ''tombstone''
      then RcEvidence
      else if ev_action e = ActPermissionApply then RcPermissionLifecycle
      else if ev_action e = ActConfigChange then RcSystemManagement
      else RcAccessLog)"

definition retention_deadline :: "audit_event \<Rightarrow> retention_config \<Rightarrow> time" where
  "retention_deadline e cfg =
     (let secs = (case retention_category_for_event e of
                    RcAccessLog \<Rightarrow> rcf_access_log_secs cfg
                  | RcPermissionLifecycle \<Rightarrow> rcf_permission_lifecycle_secs cfg
                  | RcEvidence \<Rightarrow> rcf_evidence_secs cfg
                  | RcSystemManagement \<Rightarrow> rcf_system_management_secs cfg) in
      ev_timestamp e + seconds_ns (max secs 0))"

record archive_bundle =
  ab_bundle_id :: string
  ab_archived_at :: time
  ab_retain_until :: time
  ab_anchor :: "audit_checkpoint option"
  ab_boundary :: audit_checkpoint
  ab_events :: "audit_event list"
  ab_checkpoints :: "audit_checkpoint list"

record archive_plan =
  apl_bundle :: archive_bundle
  apl_event_count :: nat
  apl_checkpoint_count :: nat

definition build_archive_plan ::
  "string \<Rightarrow> audit_checkpoint option \<Rightarrow> audit_event list \<Rightarrow> audit_checkpoint list
     \<Rightarrow> retention_config \<Rightarrow> time \<Rightarrow> archive_plan option" where
  "build_archive_plan ulid anchor events checkpoints cfg now =
     (if \<not> rcf_enabled cfg \<or> events = [] \<or> checkpoints = [] then None
      else
        let cutoff = now - seconds_ns (max (rcf_archive_after_secs cfg) 0);
            previous = anchor_offset anchor in
        case find (\<lambda>c. cp_created_at c \<le> cutoff \<and> cp_event_count c > previous) (rev checkpoints) of
          None \<Rightarrow> None
        | Some boundary \<Rightarrow>
            let n = cp_event_count boundary - previous in
            if n = 0 \<or> n > length events then None
            else
              let m = length (takeWhile (\<lambda>c. cp_event_count c \<le> cp_event_count boundary) checkpoints) in
              if m = 0 then None
              else
                let archived = take n events in
                Some \<lparr>apl_bundle =
                        \<lparr>ab_bundle_id = ulid, ab_archived_at = now,
                         ab_retain_until =
                           (if archived = [] then cp_created_at boundary
                            else Max (set (map (\<lambda>e. retention_deadline e cfg) archived))),
                         ab_anchor = anchor, ab_boundary = boundary, ab_events = archived,
                         ab_checkpoints = take m checkpoints\<rparr>,
                      apl_event_count = n, apl_checkpoint_count = m\<rparr>)"

definition verify_archive_bundle :: "audit_env \<Rightarrow> archive_bundle \<Rightarrow> bool" where
  "verify_archive_bundle env b =
     (verify_chain_with_anchor env (ab_events b) (ab_anchor b) \<and>
      list_all (verify_checkpoint env) (ab_checkpoints b) \<and>
      ab_checkpoints b \<noteq> [] \<and>
      cp_checkpoint_id (last (ab_checkpoints b)) = cp_checkpoint_id (ab_boundary b))"

subsection \<open>Controlled deletion: the data\<close>

datatype deletion_subject_kind = SubjectSnapshot | SubjectProject | SubjectArchiveBundle

fun subject_kind_as_str :: "deletion_subject_kind \<Rightarrow> string" where
  "subject_kind_as_str SubjectSnapshot = ''snapshot''"
| "subject_kind_as_str SubjectProject = ''project''"
| "subject_kind_as_str SubjectArchiveBundle = ''audit_archive_bundle''"

definition subject_kind_parse_label :: "string \<Rightarrow> deletion_subject_kind option" where
  "subject_kind_parse_label v =
     (if v = ''snapshot'' then Some SubjectSnapshot
      else if v = ''project'' then Some SubjectProject
      else if v = ''audit_archive_bundle'' then Some SubjectArchiveBundle
      else None)"

datatype deletion_state =
    DsRequested | DsAuthorized | DsLogicalDeleted | DsContentPurged | DsTombstoneWritten
  | DsAuditRecorded | DsCompleted | DsRejected

fun deletion_state_as_str :: "deletion_state \<Rightarrow> string" where
  "deletion_state_as_str DsRequested = ''requested''"
| "deletion_state_as_str DsAuthorized = ''authorized''"
| "deletion_state_as_str DsLogicalDeleted = ''logical_deleted''"
| "deletion_state_as_str DsContentPurged = ''content_purged''"
| "deletion_state_as_str DsTombstoneWritten = ''tombstone_written''"
| "deletion_state_as_str DsAuditRecorded = ''audit_recorded''"
| "deletion_state_as_str DsCompleted = ''completed''"
| "deletion_state_as_str DsRejected = ''rejected''"

fun can_transition_to :: "deletion_state \<Rightarrow> deletion_state \<Rightarrow> bool" where
  "can_transition_to DsRequested DsAuthorized = True"
| "can_transition_to DsRequested DsRejected = True"
| "can_transition_to DsAuthorized DsLogicalDeleted = True"
| "can_transition_to DsAuthorized DsContentPurged = True"
| "can_transition_to DsAuthorized DsRejected = True"
| "can_transition_to DsLogicalDeleted DsTombstoneWritten = True"
| "can_transition_to DsContentPurged DsTombstoneWritten = True"
| "can_transition_to DsTombstoneWritten DsAuditRecorded = True"
| "can_transition_to DsAuditRecorded DsCompleted = True"
| "can_transition_to _ _ = False"

record deletion_subject =
  dsu_kind :: deletion_subject_kind
  dsu_tenant_id :: string
  dsu_project_id :: "string option"
  dsu_resource_id :: string
  dsu_content_fingerprint :: "string option"
  dsu_storage_fingerprint :: "string option"

record content_ref =
  cr_content_type :: string
  cr_content_id :: string
  cr_fingerprint :: "string option"
  cr_effect :: string

record chain_evidence =
  ce_captured_at :: time
  ce_event_count :: nat
  ce_latest_event_hash :: "string option"
  ce_checkpoint_id :: "string option"
  ce_checkpoint_signature :: "string option"

record deletion_transition =
  dt_from :: deletion_state
  dt_to :: deletion_state
  dt_actor_user_id :: string
  dt_at :: time
  dt_reason :: string

record tombstone =
  tb_tombstone_id :: string
  tb_created_at :: time
  tb_subject :: deletion_subject
  tb_reason :: string
  tb_requested_by_user_id :: string
  tb_requested_session_id :: string
  tb_logical_deleted_at :: "time option"
  tb_content_purged_at :: "time option"
  tb_retain_until :: time
  tb_retained_fields :: "(string \<times> string) list"
  tb_redacted_fields :: "string list"
  tb_logically_deleted_content :: "content_ref list"
  tb_purged_content :: "content_ref list"
  tb_retained_evidence :: "content_ref list"
  tb_pre_delete_chain :: chain_evidence
  tb_hash :: string

record deletion_record =
  dr_deletion_id :: string
  dr_state :: deletion_state
  dr_requested_at :: time
  dr_completed_at :: "time option"
  dr_tombstone :: tombstone
  dr_transitions :: "deletion_transition list"
  dr_post_delete_chain :: "chain_evidence option"
  dr_audit_event_hash :: "string option"
  dr_audit_checkpoint_id :: "string option"
  dr_evidence_hash :: "string option"

record evidence_material =
  em_deletion_id :: string
  em_final_state :: deletion_state
  em_tombstone_hash :: string
  em_post_delete_chain :: chain_evidence
  em_audit_event_hash :: "string option"
  em_audit_checkpoint_id :: "string option"

record deletion_env =
  den_digest :: "string \<Rightarrow> string"
  den_json_tombstone :: "tombstone \<Rightarrow> string"
  den_json_evidence :: "evidence_material \<Rightarrow> string"

subsection \<open>Controlled deletion: the flow\<close>

definition tombstone_recompute_hash :: "deletion_env \<Rightarrow> tombstone \<Rightarrow> string" where
  "tombstone_recompute_hash env t = den_digest env (den_json_tombstone env (t\<lparr>tb_hash := []\<rparr>))"

definition tombstone_refresh_hash :: "deletion_env \<Rightarrow> tombstone \<Rightarrow> tombstone" where
  "tombstone_refresh_hash env t = t\<lparr>tb_hash := tombstone_recompute_hash env t\<rparr>"

definition evidence_digest :: "deletion_env \<Rightarrow> deletion_record \<Rightarrow> chain_evidence \<Rightarrow> string" where
  "evidence_digest env r chain =
     den_digest env (den_json_evidence env
       \<lparr>em_deletion_id = dr_deletion_id r, em_final_state = dr_state r,
        em_tombstone_hash = tb_hash (dr_tombstone r), em_post_delete_chain = chain,
        em_audit_event_hash = dr_audit_event_hash r,
        em_audit_checkpoint_id = dr_audit_checkpoint_id r\<rparr>)"

definition refresh_evidence_hash :: "deletion_env \<Rightarrow> deletion_record \<Rightarrow> deletion_record" where
  "refresh_evidence_hash env r =
     r\<lparr>dr_evidence_hash := map_option (evidence_digest env r) (dr_post_delete_chain r)\<rparr>"

definition deletion_flow_new ::
  "deletion_env \<Rightarrow> string \<Rightarrow> string \<Rightarrow> deletion_subject \<Rightarrow> actor_info \<Rightarrow> string \<Rightarrow> time
     \<Rightarrow> chain_evidence \<Rightarrow> time \<Rightarrow> deletion_record" where
  "deletion_flow_new env tid did subject actor reason retain_until chain now =
     \<lparr>dr_deletion_id = did, dr_state = DsRequested, dr_requested_at = now,
      dr_completed_at = None,
      dr_tombstone = tombstone_refresh_hash env
        \<lparr>tb_tombstone_id = tid, tb_created_at = now, tb_subject = subject, tb_reason = reason,
         tb_requested_by_user_id = ac_user_id actor,
         tb_requested_session_id = ac_session_id actor, tb_logical_deleted_at = None,
         tb_content_purged_at = None, tb_retain_until = retain_until, tb_retained_fields = [],
         tb_redacted_fields = [], tb_logically_deleted_content = [], tb_purged_content = [],
         tb_retained_evidence = [], tb_pre_delete_chain = chain, tb_hash = []\<rparr>,
      dr_transitions = [], dr_post_delete_chain = None, dr_audit_event_hash = None,
      dr_audit_checkpoint_id = None, dr_evidence_hash = None\<rparr>"

definition deletion_transition_to ::
  "deletion_env \<Rightarrow> deletion_record \<Rightarrow> deletion_state \<Rightarrow> string \<Rightarrow> string \<Rightarrow> time
     \<Rightarrow> deletion_record \<times> bool" where
  "deletion_transition_to env r next' actor reason at =
     (let current = dr_state r in
      if \<not> can_transition_to current next' then (r, False)
      else
        let r1 = r\<lparr>dr_transitions := dr_transitions r @
                     [\<lparr>dt_from = current, dt_to = next', dt_actor_user_id = actor, dt_at = at,
                       dt_reason = reason\<rparr>],
                   dr_state := next'\<rparr>;
            r2 = (if next' = DsCompleted then r1\<lparr>dr_completed_at := Some at\<rparr> else r1) in
        (r2\<lparr>dr_tombstone := tombstone_refresh_hash env (dr_tombstone r2)\<rparr>, True))"

definition seal_audit_evidence ::
  "deletion_env \<Rightarrow> deletion_record \<Rightarrow> chain_evidence \<Rightarrow> string option \<Rightarrow> string option
     \<Rightarrow> deletion_record" where
  "seal_audit_evidence env r chain event_hash checkpoint_id =
     refresh_evidence_hash env
       (r\<lparr>dr_post_delete_chain := Some chain, dr_audit_event_hash := event_hash,
          dr_audit_checkpoint_id := checkpoint_id\<rparr>)"

text \<open>The loop over the recorded transitions: the state observed at the end, if none is wrong.\<close>

fun observe_transitions ::
  "deletion_state \<Rightarrow> deletion_transition list \<Rightarrow> deletion_state option" where
  "observe_transitions s [] = Some s"
| "observe_transitions s (t # ts) =
     (if dt_from t \<noteq> s \<or> \<not> can_transition_to (dt_from t) (dt_to t) then None
      else observe_transitions (dt_to t) ts)"

definition verify_deletion_record :: "deletion_env \<Rightarrow> deletion_record \<Rightarrow> bool" where
  "verify_deletion_record env r =
     (if tb_hash (dr_tombstone r) \<noteq> tombstone_recompute_hash env (dr_tombstone r) then False
      else case observe_transitions DsRequested (dr_transitions r) of
        None \<Rightarrow> False
      | Some observed \<Rightarrow>
          if dr_transitions r \<noteq> [] \<and> observed \<noteq> dr_state r then False
          else case dr_evidence_hash r of
            None \<Rightarrow> True
          | Some expected \<Rightarrow>
              (case dr_post_delete_chain r of
                 None \<Rightarrow> False
               | Some chain \<Rightarrow> expected = evidence_digest env r chain))"

subsection \<open>The states of a deletion as a phased machine\<close>

definition deletion_move :: "deletion_state \<Rightarrow> deletion_state \<Rightarrow> unit + deletion_state" where
  "deletion_move s t = (if can_transition_to s t then Inr t else Inl ())"

fun deletion_phase :: "deletion_state \<Rightarrow> nat" where
  "deletion_phase DsRequested = 0"
| "deletion_phase DsAuthorized = 1"
| "deletion_phase DsLogicalDeleted = 2"
| "deletion_phase DsContentPurged = 2"
| "deletion_phase DsTombstoneWritten = 3"
| "deletion_phase DsAuditRecorded = 4"
| "deletion_phase DsCompleted = 5"
| "deletion_phase DsRejected = 5"

lemma can_transition_phase: "can_transition_to s t \<Longrightarrow> deletion_phase s < deletion_phase t"
  by (cases s; cases t; simp)

interpretation deletion_machine: phased_machine can_transition_to deletion_move deletion_phase
  by unfold_locales (auto simp: deletion_move_def dest: can_transition_phase)

lemma transition_to_state:
  "dr_state (fst (deletion_transition_to env r next' actor reason at)) = moves deletion_move (dr_state r) [next']"
  by (simp add: deletion_transition_to_def deletion_move_def Let_def)

text \<open>
  The operations of a flow: a requested transition, and a mutation of the tombstone through
  \<open>record_mut\<close>, which leaves the stored hash behind until the next transition.
\<close>

datatype deletion_op =
    RequestTransition deletion_state string string time
  | AnnotateTombstone "tombstone \<Rightarrow> tombstone"

definition run_deletion_op :: "deletion_env \<Rightarrow> deletion_record \<Rightarrow> deletion_op \<Rightarrow> deletion_record" where
  "run_deletion_op env r op' =
     (case op' of
        RequestTransition s actor reason at \<Rightarrow> fst (deletion_transition_to env r s actor reason at)
      | AnnotateTombstone f \<Rightarrow> r\<lparr>dr_tombstone := f (dr_tombstone r)\<rparr>)"

definition run_deletion_ops :: "deletion_env \<Rightarrow> deletion_record \<Rightarrow> deletion_op list \<Rightarrow> deletion_record" where
  "run_deletion_ops env r ops = foldl (run_deletion_op env) r ops"

definition requested_states :: "deletion_op list \<Rightarrow> deletion_state list" where
  "requested_states ops =
     concat (map (\<lambda>op'. case op' of RequestTransition s _ _ _ \<Rightarrow> [s] | _ \<Rightarrow> []) ops)"

lemma run_deletion_ops_simps [simp]:
  "run_deletion_ops env r [] = r"
  "run_deletion_ops env r (op' # ops) = run_deletion_ops env (run_deletion_op env r op') ops"
  by (simp_all add: run_deletion_ops_def)

lemma moves_append: "moves mv s (ts @ us) = moves mv (moves mv s ts) us"
  by (induction ts arbitrary: s) (simp_all split: sum.splits)

lemma run_deletion_ops_state:
  "dr_state (run_deletion_ops env r ops) = moves deletion_move (dr_state r) (requested_states ops)"
proof (induction ops arbitrary: r)
  case (Cons op' ops)
  have "dr_state (run_deletion_op env r op') = moves deletion_move (dr_state r) (requested_states [op'])"
    by (cases op') (simp_all add: run_deletion_op_def requested_states_def transition_to_state)
  moreover have "requested_states (op' # ops) = requested_states [op'] @ requested_states ops"
    by (simp add: requested_states_def)
  ultimately show ?case by (simp add: Cons.IH moves_append)
qed (simp add: requested_states_def)

subsection \<open>Recorded transitions\<close>

lemma observe_append:
  "observe_transitions s (ts @ us) =
     (case observe_transitions s ts of None \<Rightarrow> None | Some s' \<Rightarrow> observe_transitions s' us)"
  by (induction ts arbitrary: s) auto

definition flow_ok :: "deletion_record \<Rightarrow> bool" where
  "flow_ok r = (observe_transitions DsRequested (dr_transitions r) = Some (dr_state r) \<and>
     dr_evidence_hash r = None)"

lemma flow_ok_new: "flow_ok (deletion_flow_new env tid did subject actor reason until chain now)"
  by (simp add: flow_ok_def deletion_flow_new_def)

lemma flow_ok_transition:
  "flow_ok r \<Longrightarrow> flow_ok (fst (deletion_transition_to env r next' actor reason at))"
  by (simp add: flow_ok_def deletion_transition_to_def Let_def observe_append)

lemma flow_ok_ops: "flow_ok r \<Longrightarrow> flow_ok (run_deletion_ops env r ops)"
proof (induction ops arbitrary: r)
  case (Cons op' ops)
  have "flow_ok (run_deletion_op env r op')"
    using Cons.prems flow_ok_transition
    by (cases op') (simp_all add: run_deletion_op_def, simp add: flow_ok_def)
  then show ?case using Cons.IH by simp
qed simp

lemma tombstone_refreshed:
  "tb_hash (tombstone_refresh_hash env t) = tombstone_recompute_hash env (tombstone_refresh_hash env t)"
  by (simp add: tombstone_refresh_hash_def tombstone_recompute_hash_def)

lemma transition_refreshes:
  "deletion_transition_to env r next' actor reason at = (r', True) \<Longrightarrow>
     tb_hash (dr_tombstone r') = tombstone_recompute_hash env (dr_tombstone r')"
  by (auto simp: deletion_transition_to_def Let_def tombstone_refreshed split: if_splits)

lemma verify_flow:
  "\<lbrakk> flow_ok r; tb_hash (dr_tombstone r) = tombstone_recompute_hash env (dr_tombstone r) \<rbrakk>
     \<Longrightarrow> verify_deletion_record env r"
  by (simp add: flow_ok_def verify_deletion_record_def)

lemma verify_sealed:
  assumes "flow_ok r" "tb_hash (dr_tombstone r) = tombstone_recompute_hash env (dr_tombstone r)"
  shows "verify_deletion_record env (seal_audit_evidence env r chain eh cid)"
  using assms
  by (simp add: flow_ok_def verify_deletion_record_def seal_audit_evidence_def
      refresh_evidence_hash_def evidence_digest_def)

text \<open>The only way to the end.\<close>

lemma observe_from_completed:
  "observe_transitions DsCompleted ts = Some DsCompleted \<Longrightarrow> map dt_to ts = []"
  by (cases ts) (auto split: if_splits)

lemma observe_from_recorded:
  "observe_transitions DsAuditRecorded ts = Some DsCompleted \<Longrightarrow> map dt_to ts = [DsCompleted]"
  by (cases ts; cases "dt_to (hd ts)") (auto dest: observe_from_completed split: if_splits)

lemma observe_from_tombstone:
  "observe_transitions DsTombstoneWritten ts = Some DsCompleted \<Longrightarrow>
     map dt_to ts = [DsAuditRecorded, DsCompleted]"
  by (cases ts; cases "dt_to (hd ts)") (auto dest: observe_from_recorded split: if_splits)

lemma observe_from_deleted:
  "s \<in> {DsLogicalDeleted, DsContentPurged} \<Longrightarrow> observe_transitions s ts = Some DsCompleted \<Longrightarrow>
     map dt_to ts = [DsTombstoneWritten, DsAuditRecorded, DsCompleted]"
  by (cases ts; cases "dt_to (hd ts)") (auto dest: observe_from_tombstone split: if_splits)

lemma observe_from_rejected: "observe_transitions DsRejected ts \<noteq> Some DsCompleted"
  by (cases ts) auto

lemma observe_from_authorized:
  "observe_transitions DsAuthorized ts = Some DsCompleted \<Longrightarrow>
     \<exists>s\<in>{DsLogicalDeleted, DsContentPurged}.
       map dt_to ts = [s, DsTombstoneWritten, DsAuditRecorded, DsCompleted]"
  by (cases ts; cases "dt_to (hd ts)")
    (auto dest: observe_from_deleted [rotated] simp: observe_from_rejected split: if_splits)

lemma observe_from_requested:
  "observe_transitions DsRequested ts = Some DsCompleted \<Longrightarrow>
     \<exists>s\<in>{DsLogicalDeleted, DsContentPurged}.
       map dt_to ts = [DsAuthorized, s, DsTombstoneWritten, DsAuditRecorded, DsCompleted]"
  by (cases ts; cases "dt_to (hd ts)")
    (auto dest: observe_from_authorized simp: observe_from_rejected split: if_splits)

lemma archive_bundle_verifies:
  assumes wf: "trail_wf env t" and c: "c \<in> set (at_checkpoints t)"
    and b: "ab_anchor b = at_anchor t" "ab_boundary b = c"
      "ab_events b = take (cp_event_count c - anchor_offset (at_anchor t)) (at_events t)"
      "ab_checkpoints b = take (length (takeWhile (\<lambda>d. cp_event_count d \<le> cp_event_count c)
         (at_checkpoints t))) (at_checkpoints t)"
  shows "verify_archive_bundle env b"
proof -
  obtain k where k: "k < length (at_events t)" "length (at_checkpoints t) = length (at_events t)"
      "c = at_checkpoints t ! k"
    and tw: "length (takeWhile (\<lambda>d. cp_event_count d \<le> cp_event_count c) (at_checkpoints t)) = Suc k"
    using boundary_position [OF wf c] by blast
  have chain: "anchor_ok env (at_anchor t)" "chain_from env (chain_start (at_anchor t)) (at_events t)"
    and verified: "list_all (verify_checkpoint env) (at_checkpoints t)"
    using wf by (simp_all add: trail_wf_def chain_valid_def verify_chain_iff)
  have "chain_from env (chain_start (at_anchor t)) (take n (at_events t))" for n
    using chain(2) chain_from_append [of env _ "take n (at_events t)" "drop n (at_events t)"] by simp
  moreover have "list_all (verify_checkpoint env) (take (Suc k) (at_checkpoints t))"
    using verified by (auto simp: list_all_iff dest: in_set_takeD)
  moreover have "take (Suc k) (at_checkpoints t) = take k (at_checkpoints t) @ [c]"
    using k by (simp add: take_Suc_conv_app_nth)
  ultimately show ?thesis
    using chain(1) by (simp add: verify_archive_bundle_def verify_chain_iff b tw)
qed

subsection \<open>Properties\<close>

text \<open>An environment, a subject and a flow to evaluate.\<close>

definition sample_denv :: deletion_env where
  "sample_denv = \<lparr>den_digest = id, den_json_tombstone = tb_tombstone_id,
     den_json_evidence = em_tombstone_hash\<rparr>"

definition sample_chain_evidence :: chain_evidence where
  "sample_chain_evidence = \<lparr>ce_captured_at = 0, ce_event_count = 1, ce_latest_event_hash = None,
     ce_checkpoint_id = None, ce_checkpoint_signature = None\<rparr>"

definition sample_deletion :: deletion_record where
  "sample_deletion = deletion_flow_new sample_denv ''t1'' ''d1''
     \<lparr>dsu_kind = SubjectSnapshot, dsu_tenant_id = ''tenant-a'', dsu_project_id = None,
      dsu_resource_id = ''snap'', dsu_content_fingerprint = None, dsu_storage_fingerprint = None\<rparr>
     \<lparr>ac_user_id = ''user-a'', ac_session_id = ''s1'', ac_ip_address = ''::1''\<rparr> ''expired'' 9
     sample_chain_evidence 0"

definition sample_deletion_ops :: "deletion_op list" where
  "sample_deletion_ops =
     map (\<lambda>s. RequestTransition s ''admin'' ''why'' 1)
       [DsAuthorized, DsContentPurged, DsTombstoneWritten, DsAuditRecorded]"

text \<open>
  A deletion flow produces evidence that verifies.  After any mixture of requested
  transitions, refused ones included, and changes to the tombstone, a successful transition
  leaves a record that verifies; sealing the audit evidence keeps it verifying; and the state
  reached never falls back to an earlier phase.
\<close>

lemma deletion_flow_evidence_verifies:
  assumes "r = run_deletion_ops env
             (deletion_flow_new env tid did subject actor reason retain_until chain now) ops"
    and "deletion_transition_to env r next' user why at = (r', True)"
  shows "verify_deletion_record env r' \<and>
    verify_deletion_record env (seal_audit_evidence env r' chain' event_hash checkpoint_id) \<and>
    deletion_phase (dr_state r') \<le> deletion_phase (dr_state (run_deletion_ops env r' ops'))"
proof (intro conjI)
  have "flow_ok r" using flow_ok_ops [OF flow_ok_new] by (simp add: assms(1))
  then have ok: "flow_ok r'" using flow_ok_transition assms(2) by (metis fst_conv)
  show "verify_deletion_record env r'"
    using ok transition_refreshes [OF assms(2)] by (rule verify_flow)
  show "verify_deletion_record env (seal_audit_evidence env r' chain' event_hash checkpoint_id)"
    using ok transition_refreshes [OF assms(2)] by (rule verify_sealed)
  show "deletion_phase (dr_state r') \<le> deletion_phase (dr_state (run_deletion_ops env r' ops'))"
    unfolding run_deletion_ops_state by (rule deletion_machine.moves_phase)
qed

lemma deletion_flow_evidence_verifies_witness:
  "verify_deletion_record sample_denv
     (fst (deletion_transition_to sample_denv
       (run_deletion_ops sample_denv sample_deletion sample_deletion_ops) DsCompleted ''admin'' ''w'' 2))"
proof -
  let ?r = "run_deletion_ops sample_denv sample_deletion sample_deletion_ops"
  have "dr_state ?r = DsAuditRecorded"
    by code_simp
  then have "snd (deletion_transition_to sample_denv ?r DsCompleted ''admin'' ''w'' 2)"
    by (simp add: deletion_transition_to_def Let_def)
  then have "deletion_transition_to sample_denv ?r DsCompleted ''admin'' ''w'' 2
      = (fst (deletion_transition_to sample_denv ?r DsCompleted ''admin'' ''w'' 2), True)"
    by (simp add: prod_eq_iff)
  from deletion_flow_evidence_verifies [OF arg_cong2 [where f = "run_deletion_ops sample_denv",
        OF sample_deletion_def refl] this]
  show ?thesis by blast
qed

text \<open>
  A completed deletion went the whole way.  A record that verifies, is completed and lists
  its transitions was authorised, deleted or purged, given a tombstone and recorded in the
  audit chain, in this order and with nothing else in between.
\<close>

lemma completed_deletion_path:
  assumes "verify_deletion_record env r" and "dr_state r = DsCompleted"
    and "dr_transitions r \<noteq> []"
  shows "\<exists>s\<in>{DsLogicalDeleted, DsContentPurged}.
    map dt_to (dr_transitions r) = [DsAuthorized, s, DsTombstoneWritten, DsAuditRecorded, DsCompleted]"
proof (rule observe_from_requested)
  show "observe_transitions DsRequested (dr_transitions r) = Some DsCompleted"
    using assms by (auto simp: verify_deletion_record_def split: if_splits option.splits)
qed

lemma completed_deletion_path_witness:
  "map dt_to (dr_transitions (fst (deletion_transition_to sample_denv
       (run_deletion_ops sample_denv sample_deletion sample_deletion_ops) DsCompleted ''admin'' ''w'' 2)))
   \<noteq> [DsAuthorized, DsCompleted]"
proof -
  let ?r = "fst (deletion_transition_to sample_denv
       (run_deletion_ops sample_denv sample_deletion sample_deletion_ops) DsCompleted ''admin'' ''w'' 2)"
  have "verify_deletion_record sample_denv ?r" "dr_state ?r = DsCompleted" "dr_transitions ?r \<noteq> []"
    by code_simp+
  from completed_deletion_path [OF this] show ?thesis by auto
qed

text \<open>
  The deletion history is not bound.  Removing the whole transition history of a record
  that verifies leaves a record that verifies: neither the tombstone hash nor the evidence
  hash covers the transitions, and the verifier accepts any state when there are none.
\<close>

lemma deletion_history_not_bound:
  assumes "verify_deletion_record env r"
  shows "verify_deletion_record env (r\<lparr>dr_transitions := []\<rparr>)"
  using assms
  by (auto simp: verify_deletion_record_def evidence_digest_def split: if_splits option.splits)

lemma deletion_history_not_bound_witness:
  "verify_deletion_record sample_denv (sample_deletion\<lparr>dr_transitions := []\<rparr>)"
proof -
  have "verify_deletion_record sample_denv sample_deletion" by code_simp
  then show ?thesis by (rule deletion_history_not_bound)
qed

text \<open>
  C39. Archiving loses nothing.  On a well-formed trail, a planned archive is bounded by a
  checkpoint of the trail that is older than the cutoff, its bundle verifies on its own and
  is retained until every archived event's deadline, and the archived events followed by
  those the trail keeps are the events of the trail; the shortened trail is well-formed again.
\<close>

theorem archive_plan_sound:
  assumes "trail_wf env t"
    and "build_archive_plan ulid (at_anchor t) (at_events t) (at_checkpoints t) cfg now = Some plan"
    and "b = apl_bundle plan" and "t' = apply_archive_boundary t (ab_boundary b)"
  shows "ab_events b @ at_events t' = at_events t \<and> ab_events b \<noteq> [] \<and>
    ab_checkpoints b @ at_checkpoints t' = at_checkpoints t \<and>
    cp_created_at (ab_boundary b) \<le> now - seconds_ns (max (rcf_archive_after_secs cfg) 0) \<and>
    (\<forall>e\<in>set (ab_events b). retention_deadline e cfg \<le> ab_retain_until b) \<and>
    verify_archive_bundle env b \<and> trail_wf env t'"
proof -
  let ?off = "anchor_offset (at_anchor t)" and ?cut = "now - seconds_ns (max (rcf_archive_after_secs cfg) 0)"
  obtain c where c: "find (\<lambda>c. cp_created_at c \<le> ?cut \<and> cp_event_count c > ?off)
        (rev (at_checkpoints t)) = Some c"
    and n: "cp_event_count c - ?off \<noteq> 0" "cp_event_count c - ?off \<le> length (at_events t)"
    and b: "b = \<lparr>ab_bundle_id = ulid, ab_archived_at = now,
        ab_retain_until = Max (set (map (\<lambda>e. retention_deadline e cfg)
          (take (cp_event_count c - ?off) (at_events t)))),
        ab_anchor = at_anchor t, ab_boundary = c,
        ab_events = take (cp_event_count c - ?off) (at_events t),
        ab_checkpoints = take (length (takeWhile (\<lambda>d. cp_event_count d \<le> cp_event_count c)
          (at_checkpoints t))) (at_checkpoints t)\<rparr>"
    using assms(2,3)
    by (auto simp: build_archive_plan_def Let_def split: if_splits option.splits)
  have mem: "c \<in> set (at_checkpoints t)" and old: "cp_created_at c \<le> ?cut"
    using find_Some_mem [OF c] by auto
  have t': "t' = t\<lparr>at_events := drop (cp_event_count c - ?off) (at_events t),
      at_checkpoints := drop (length (takeWhile (\<lambda>d. cp_event_count d \<le> cp_event_count c)
        (at_checkpoints t))) (at_checkpoints t), at_anchor := Some c\<rparr>"
    using n assms(4) by (simp add: b apply_archive_boundary_def Let_def min.absorb1)
  have ne: "take (cp_event_count c - ?off) (at_events t) \<noteq> []" using n by auto
  have counts: "map cp_event_count (at_checkpoints t) = [Suc ?off..<Suc ?off + length (at_events t)]"
    and verified: "list_all (verify_checkpoint env) (at_checkpoints t)"
    and chain: "chain_valid env t"
    using assms(1) by (simp_all add: trail_wf_def)
  have sound: "verify_archive_bundle env b"
    by (rule archive_bundle_verifies [OF assms(1) mem]) (simp_all add: b)
  have kept: "ab_events b @ at_events t' = at_events t"
      "ab_checkpoints b @ at_checkpoints t' = at_checkpoints t"
    unfolding b t' by simp_all
  have "trail_wf env t'"
    using apply_archive_boundary_wf [OF assms(1) mem] assms(4) by (simp add: b)
  then show ?thesis
    using kept ne old sound by (simp add: b)
qed

definition sample_config :: retention_config where
  "sample_config = retention_config_default\<lparr>rcf_archive_after_secs := 0\<rparr>"

lemma archive_plan_sound_witness:
  "\<exists>plan. build_archive_plan ''b1'' None (at_events sample_trail) (at_checkpoints sample_trail)
      sample_config 5 = Some plan \<and> verify_archive_bundle sample_env (apl_bundle plan)"
proof -
  have anchor: "at_anchor sample_trail = None"
    by (simp add: sample_trail_def append_with_signer_def Let_def create_checkpoint_with_signer_def
        trail_default_def)
  have "build_archive_plan ''b1'' (at_anchor sample_trail) (at_events sample_trail)
      (at_checkpoints sample_trail) sample_config 5 \<noteq> None"
    by (simp add: build_archive_plan_def sample_config_def retention_config_default_def sample_trail_def
        append_with_signer_def Let_def create_checkpoint_with_signer_def trail_default_def
        anchor_offset_def seconds_ns_def)
  then obtain plan where plan: "build_archive_plan ''b1'' (at_anchor sample_trail)
      (at_events sample_trail) (at_checkpoints sample_trail) sample_config 5 = Some plan" by blast
  have "trail_wf sample_env sample_trail"
    by (rule trail_run_wf [OF sample_trail_run trail_wf_default])
  from archive_plan_sound [OF this plan refl refl] plan show ?thesis by (auto simp: anchor)
qed

end
