(* ===== verification/CircuitTask.thy ===== *)
theory CircuitTask
  imports QueryPlan "HOL-Library.Word"
begin

text \<open>
  The circuit breaker of \<open>circuit.rs\<close> and the task registry of \<open>task.rs\<close>.  The breaker counts
  consecutive failures per source in 32 bits, which wrap in a release build.  Instants are read
  from the clock in the code and arguments here; \<open>elapsed\<close> saturates at zero.
\<close>

subsection \<open>The circuit breaker\<close>

record failure_record =
  fr_consecutive :: "32 word"
  fr_opened_at :: "time option"

record circuit_breaker =
  cb_threshold :: "32 word"
  cb_backoff :: time
  cb_failures :: "string \<Rightarrow> failure_record option"

record circuit_snapshot =
  cs_source_id :: string
  cs_failure_count :: "32 word"
  cs_open :: bool
  cs_retry_after :: "time option"

definition circuit_with_backoff :: "32 word \<Rightarrow> time \<Rightarrow> circuit_breaker" where
  "circuit_with_backoff n backoff = \<lparr>cb_threshold = n, cb_backoff = backoff, cb_failures = (\<lambda>_. None)\<rparr>"

definition circuit_new :: "32 word \<Rightarrow> circuit_breaker" where
  "circuit_new n = circuit_with_backoff n 30000000000"

definition elapsed :: "time \<Rightarrow> time \<Rightarrow> time" where
  "elapsed since now = max 0 (now - since)"

definition circuit_allow :: "time \<Rightarrow> circuit_breaker \<Rightarrow> string \<Rightarrow> bool" where
  "circuit_allow now cb s =
     (if cb_threshold cb = 0 then True
      else case cb_failures cb s of
        None \<Rightarrow> True
      | Some r \<Rightarrow>
          if fr_consecutive r < cb_threshold cb then True
          else (case fr_opened_at r of Some t \<Rightarrow> cb_backoff cb \<le> elapsed t now | None \<Rightarrow> False))"

definition circuit_record_success :: "circuit_breaker \<Rightarrow> string \<Rightarrow> circuit_breaker" where
  "circuit_record_success cb s = cb\<lparr>cb_failures := (cb_failures cb)(s := None)\<rparr>"

definition circuit_record_failure :: "time \<Rightarrow> circuit_breaker \<Rightarrow> string \<Rightarrow> circuit_breaker" where
  "circuit_record_failure now cb s =
     (let entry = (case cb_failures cb s of Some r \<Rightarrow> r
                   | None \<Rightarrow> \<lparr>fr_consecutive = 0, fr_opened_at = None\<rparr>);
          entry = entry\<lparr>fr_consecutive := fr_consecutive entry + 1\<rparr>;
          entry = (if 0 < cb_threshold cb \<and> cb_threshold cb \<le> fr_consecutive entry
                      \<and> fr_opened_at entry = None
                   then entry\<lparr>fr_opened_at := Some now\<rparr> else entry) in
      cb\<lparr>cb_failures := (cb_failures cb)(s \<mapsto> entry)\<rparr>)"

definition circuit_failure_count :: "circuit_breaker \<Rightarrow> string \<Rightarrow> 32 word" where
  "circuit_failure_count cb s = (case cb_failures cb s of Some r \<Rightarrow> fr_consecutive r | None \<Rightarrow> 0)"

definition circuit_is_open :: "time \<Rightarrow> circuit_breaker \<Rightarrow> string \<Rightarrow> bool" where
  "circuit_is_open now cb s = (\<not> circuit_allow now cb s)"

definition circuit_retry_after :: "time \<Rightarrow> circuit_breaker \<Rightarrow> string \<Rightarrow> time option" where
  "circuit_retry_after now cb s =
     (case cb_failures cb s of
        None \<Rightarrow> None
      | Some r \<Rightarrow>
          if cb_threshold cb = 0 \<or> fr_consecutive r < cb_threshold cb then None
          else map_option (\<lambda>t. max 0 (cb_backoff cb - elapsed t now)) (fr_opened_at r))"

definition circuit_source_snapshot :: "time \<Rightarrow> circuit_breaker \<Rightarrow> string \<Rightarrow> circuit_snapshot" where
  "circuit_source_snapshot now cb s =
     \<lparr>cs_source_id = s, cs_failure_count = circuit_failure_count cb s,
      cs_open = circuit_is_open now cb s, cs_retry_after = circuit_retry_after now cb s\<rparr>"

subsection \<open>Histories of a breaker\<close>

datatype circuit_op = CircuitSuccess string | CircuitFailure string time

fun circuit_step :: "circuit_breaker \<Rightarrow> circuit_op \<Rightarrow> circuit_breaker" where
  "circuit_step cb (CircuitSuccess s) = circuit_record_success cb s"
| "circuit_step cb (CircuitFailure s t) = circuit_record_failure t cb s"

definition circuit_run :: "circuit_breaker \<Rightarrow> circuit_op list \<Rightarrow> circuit_breaker" where
  "circuit_run cb ops = foldl circuit_step cb ops"

text \<open>The specification: the times of the failures of a source since its last success.\<close>

fun recent_failures :: "string \<Rightarrow> time list \<Rightarrow> circuit_op list \<Rightarrow> time list" where
  "recent_failures s ts [] = ts"
| "recent_failures s ts (CircuitSuccess s' # ops) = recent_failures s (if s' = s then [] else ts) ops"
| "recent_failures s ts (CircuitFailure s' t # ops) =
     recent_failures s (if s' = s then ts @ [t] else ts) ops"

definition circuit_agrees :: "circuit_breaker \<Rightarrow> string \<Rightarrow> time list \<Rightarrow> bool" where
  "circuit_agrees cb s ts =
     (length ts < 2 ^ 32 \<and>
      (case cb_failures cb s of
         None \<Rightarrow> ts = []
       | Some r \<Rightarrow> ts \<noteq> [] \<and> unat (fr_consecutive r) = length ts \<and>
           fr_opened_at r = (if 0 < unat (cb_threshold cb) \<and> unat (cb_threshold cb) \<le> length ts
                             then Some (ts ! (unat (cb_threshold cb) - 1)) else None)))"

lemma circuit_step_threshold [simp]:
  "cb_threshold (circuit_step cb op) = cb_threshold cb" "cb_backoff (circuit_step cb op) = cb_backoff cb"
  by (cases op; simp add: circuit_record_success_def circuit_record_failure_def Let_def)+

lemma circuit_run_threshold [simp]:
  "cb_threshold (circuit_run cb ops) = cb_threshold cb" "cb_backoff (circuit_run cb ops) = cb_backoff cb"
  unfolding circuit_run_def by (induction ops arbitrary: cb) simp_all

lemma unat_count_Suc:
  fixes w :: "32 word"
  assumes "unat w = n" and "Suc n < 2 ^ 32"
  shows "unat (w + 1) = Suc n"
  using assms by (simp add: unat_word_ariths(1))

lemma record_failure_agrees:
  assumes "circuit_agrees cb s ts" and "Suc (length ts) < 2 ^ 32"
  shows "circuit_agrees (circuit_record_failure t cb s) s (ts @ [t])"
proof (cases "cb_failures cb s")
  case None
  then have ts: "ts = []" using assms(1) by (simp add: circuit_agrees_def)
  have le: "cb_threshold cb \<le> 1 \<longleftrightarrow> unat (cb_threshold cb) \<le> 1" by (simp add: word_le_nat_alt)
  have pos: "0 < cb_threshold cb \<longleftrightarrow> 0 < unat (cb_threshold cb)" by (simp add: word_less_nat_alt)
  show ?thesis
    using None ts by (auto simp: circuit_agrees_def circuit_record_failure_def Let_def le pos)
next
  case (Some r)
  let ?w = "fr_consecutive r + 1"
  have ts: "ts \<noteq> []" and w: "unat (fr_consecutive r) = length ts"
    and opened: "fr_opened_at r = (if 0 < unat (cb_threshold cb) \<and> unat (cb_threshold cb) \<le> length ts
      then Some (ts ! (unat (cb_threshold cb) - 1)) else None)"
    using Some assms(1) by (simp_all add: circuit_agrees_def)
  have w': "unat ?w = Suc (length ts)" by (rule unat_count_Suc [OF w assms(2)])
  have le: "cb_threshold cb \<le> ?w \<longleftrightarrow> unat (cb_threshold cb) \<le> Suc (length ts)"
    using w' by (simp add: word_le_nat_alt)
  have pos: "0 < cb_threshold cb \<longleftrightarrow> 0 < unat (cb_threshold cb)" by (simp add: word_less_nat_alt)
  show ?thesis
    using Some ts opened w' assms(2)
    by (auto simp: circuit_agrees_def circuit_record_failure_def Let_def le pos nth_append)
qed

lemma other_source_agrees:
  assumes "s' \<noteq> s"
  shows "circuit_agrees (circuit_record_failure t cb s') s ts = circuit_agrees cb s ts"
    and "circuit_agrees (circuit_record_success cb s') s ts = circuit_agrees cb s ts"
  using assms
  by (simp_all add: circuit_agrees_def circuit_record_failure_def circuit_record_success_def Let_def
      split: option.splits)

lemma length_recent_failures: "length (recent_failures s ts ops) \<le> length ts + length ops"
proof (induction s ts ops rule: recent_failures.induct)
  case (2 s ts s' ops)
  then show ?case by (cases "s' = s") auto
next
  case (3 s ts s' t ops)
  then show ?case by (cases "s' = s") auto
qed simp

lemma circuit_run_agrees:
  assumes "circuit_agrees cb s ts" and "length ts + length ops < 2 ^ 32"
  shows "circuit_agrees (circuit_run cb ops) s (recent_failures s ts ops)"
  using assms
proof (induction ops arbitrary: cb ts)
  case Nil
  then show ?case by (simp add: circuit_run_def)
next
  case (Cons op ops)
  have run: "circuit_run cb (op # ops) = circuit_run (circuit_step cb op) ops"
    by (simp add: circuit_run_def)
  show ?case
  proof (cases op)
    case (CircuitSuccess s')
    have "circuit_agrees (circuit_record_success cb s') s (if s' = s then [] else ts)"
    proof (cases "s' = s")
      case True
      then show ?thesis by (simp add: circuit_agrees_def circuit_record_success_def)
    next
      case False
      with Cons.prems(1) show ?thesis by (simp add: other_source_agrees(2))
    qed
    with Cons.IH Cons.prems(2) CircuitSuccess show ?thesis by (auto simp: run [unfolded CircuitSuccess])
  next
    case (CircuitFailure s' t)
    have "circuit_agrees (circuit_record_failure t cb s') s (if s' = s then ts @ [t] else ts)"
      using Cons.prems record_failure_agrees [of cb s ts t] other_source_agrees(1) by auto
    with Cons.IH Cons.prems(2) CircuitFailure show ?thesis by (auto simp: run [unfolded CircuitFailure])
  qed
qed

lemma circuit_allow_agrees:
  assumes "circuit_agrees cb s ts"
  shows "circuit_allow now cb s \<longleftrightarrow>
    cb_threshold cb = 0 \<or> length ts < unat (cb_threshold cb) \<or>
    cb_backoff cb \<le> elapsed (ts ! (unat (cb_threshold cb) - 1)) now"
proof (cases "cb_threshold cb = 0 \<or> cb_failures cb s = None")
  case True
  then show ?thesis
    using assms by (auto simp: circuit_allow_def circuit_agrees_def unat_gt_0)
next
  case False
  then obtain r where r: "cb_failures cb s = Some r" "cb_threshold cb \<noteq> 0" by auto
  then have "fr_consecutive r < cb_threshold cb \<longleftrightarrow> length ts < unat (cb_threshold cb)"
    using assms by (simp add: circuit_agrees_def word_less_nat_alt)
  with r assms show ?thesis
    by (auto simp: circuit_allow_def circuit_agrees_def unat_gt_0)
qed

text \<open>
  C15. The breaker opens once.  After any history of fewer than 2^32 outcomes, a source is allowed
  exactly if the threshold is zero, fewer failures than the threshold happened since its last
  success, or the backoff has elapsed since the failure that reached the threshold.  Later
  failures do not move that instant: once the first backoff is over, a source that keeps failing
  is allowed without limit until it succeeds.
\<close>

theorem circuit_allow_iff:
  assumes "length ops < 2 ^ 32" and "failures = recent_failures s [] ops"
  shows "circuit_allow now (circuit_run (circuit_with_backoff n backoff) ops) s \<longleftrightarrow>
    n = 0 \<or> length failures < unat n \<or> backoff \<le> elapsed (failures ! (unat n - 1)) now"
proof -
  have "circuit_agrees (circuit_with_backoff n backoff) s []"
    by (simp add: circuit_agrees_def circuit_with_backoff_def)
  then have "circuit_agrees (circuit_run (circuit_with_backoff n backoff) ops) s failures"
    using circuit_run_agrees [of _ s "[]" ops] assms by simp
  from circuit_allow_agrees [OF this, of now] show ?thesis
    by (simp add: circuit_with_backoff_def)
qed

lemma circuit_allow_iff_witness:
  "\<not> circuit_allow 40 (circuit_run (circuit_with_backoff 2 30)
       [CircuitFailure ''hr'' 10, CircuitFailure ''hr'' 20, CircuitFailure ''hr'' 35]) ''hr'' \<and>
   circuit_allow 50 (circuit_run (circuit_with_backoff 2 30)
       [CircuitFailure ''hr'' 10, CircuitFailure ''hr'' 20, CircuitFailure ''hr'' 35]) ''hr''"
proof -
  let ?ops = "[CircuitFailure ''hr'' 10, CircuitFailure ''hr'' 20, CircuitFailure ''hr'' 35]"
  have "recent_failures ''hr'' [] ?ops = [10, 20, 35]" by simp
  then have "circuit_allow now (circuit_run (circuit_with_backoff 2 30) ?ops) ''hr'' \<longleftrightarrow>
      (2::32 word) = 0 \<or> length [10, 20, 35::time] < unat (2::32 word) \<or>
      30 \<le> elapsed ([10, 20, 35] ! (unat (2::32 word) - 1)) now" for now
    using circuit_allow_iff [of ?ops "[10, 20, 35]" "''hr''" now 2 30] by simp
  then show ?thesis by (simp add: elapsed_def)
qed

subsection \<open>The task registry\<close>

datatype task_state = TaskPending | TaskRunning | TaskCompleted | TaskFailed | TaskCancelled

record task_snapshot =
  ts_task_id :: string
  ts_state :: task_state
  ts_snapshot_id :: "string option"
  ts_cache_hit :: bool
  ts_error :: "string option"

record task_event =
  te_task_id :: string
  te_state :: task_state
  te_snapshot_id :: "string option"
  te_cache_hit :: bool
  te_error :: "string option"

record stored_query_task =
  sq_task_id :: string
  sq_tenant_id :: string
  sq_project_id :: string
  sq_user_id :: string
  sq_project_scope_key :: string
  sq_grant_id :: string
  sq_grant_valid_until :: time
  sq_data_source_id :: string
  sq_source_type :: source_type
  sq_query :: unified_query
  sq_cache_key :: string
  sq_priority :: "32 word"
  sq_attempt_count :: "32 word"
  sq_max_attempts :: "32 word"

text \<open>A record keeps the events sent on its channel since the channel was created.\<close>

record task_record =
  tr_snapshot :: task_snapshot
  tr_sent :: "task_event list"

type_synonym task_registry = "string \<Rightarrow> task_record option"

definition event_of_snapshot :: "task_snapshot \<Rightarrow> task_event" where
  "event_of_snapshot s =
     \<lparr>te_task_id = ts_task_id s, te_state = ts_state s, te_snapshot_id = ts_snapshot_id s,
      te_cache_hit = ts_cache_hit s, te_error = ts_error s\<rparr>"

definition task_publish :: "task_registry \<Rightarrow> string \<Rightarrow> task_registry" where
  "task_publish reg t =
     (case reg t of None \<Rightarrow> reg
      | Some r \<Rightarrow> reg(t \<mapsto> r\<lparr>tr_sent := tr_sent r @ [event_of_snapshot (tr_snapshot r)]\<rparr>))"

definition restore_task :: "task_registry \<Rightarrow> task_snapshot \<Rightarrow> task_registry" where
  "restore_task reg s = reg(ts_task_id s \<mapsto> \<lparr>tr_snapshot = s, tr_sent = []\<rparr>)"

definition create_task :: "string \<Rightarrow> task_registry \<Rightarrow> task_registry \<times> string" where
  "create_task ulid reg =
     (task_publish (restore_task reg \<lparr>ts_task_id = ulid, ts_state = TaskPending, ts_snapshot_id = None,
        ts_cache_hit = False, ts_error = None\<rparr>) ulid, ulid)"

definition upsert_snapshot :: "task_registry \<Rightarrow> task_snapshot \<Rightarrow> task_registry" where
  "upsert_snapshot reg s =
     (case reg (ts_task_id s) of
        Some r \<Rightarrow>
          if tr_snapshot r = s then reg
          else reg(ts_task_id s \<mapsto> \<lparr>tr_snapshot = s, tr_sent = tr_sent r @ [event_of_snapshot s]\<rparr>)
      | None \<Rightarrow> task_publish (restore_task reg s) (ts_task_id s))"

definition task_update ::
  "task_registry \<Rightarrow> string \<Rightarrow> (task_snapshot \<Rightarrow> task_snapshot) \<Rightarrow> task_registry \<times> bool" where
  "task_update reg t f =
     (case reg t of None \<Rightarrow> (reg, False)
      | Some r \<Rightarrow>
          let s = f (tr_snapshot r) in
          (reg(t \<mapsto> \<lparr>tr_snapshot = s, tr_sent = tr_sent r @ [event_of_snapshot s]\<rparr>), True))"

definition mark_running :: "task_registry \<Rightarrow> string \<Rightarrow> task_registry \<times> bool" where
  "mark_running reg t = task_update reg t (\<lambda>s. s\<lparr>ts_state := TaskRunning\<rparr>)"

definition mark_completed :: "task_registry \<Rightarrow> string \<Rightarrow> string \<Rightarrow> bool \<Rightarrow> task_registry \<times> bool" where
  "mark_completed reg t sid hit =
     task_update reg t (\<lambda>s. s\<lparr>ts_state := TaskCompleted, ts_snapshot_id := Some sid,
       ts_cache_hit := hit, ts_error := None\<rparr>)"

definition mark_failed :: "task_registry \<Rightarrow> string \<Rightarrow> string \<Rightarrow> task_registry \<times> bool" where
  "mark_failed reg t e = task_update reg t (\<lambda>s. s\<lparr>ts_state := TaskFailed, ts_error := Some e\<rparr>)"

definition cancel_registered :: "task_registry \<Rightarrow> string \<Rightarrow> task_registry \<times> bool" where
  "cancel_registered reg t = task_update reg t (\<lambda>s. s\<lparr>ts_state := TaskCancelled\<rparr>)"

definition registered_state :: "task_registry \<Rightarrow> string \<Rightarrow> task_state option" where
  "registered_state reg t = map_option (\<lambda>r. ts_state (tr_snapshot r)) (reg t)"

fun update_state :: "task_registry \<Rightarrow> string \<Rightarrow> task_state \<Rightarrow> task_registry \<times> bool" where
  "update_state reg t TaskPending =
     task_update reg t (\<lambda>s. s\<lparr>ts_state := TaskPending, ts_snapshot_id := None,
       ts_cache_hit := False, ts_error := None\<rparr>)"
| "update_state reg t TaskRunning = mark_running reg t"
| "update_state reg t TaskCompleted = mark_completed reg t (''snapshot-'' @ t) False"
| "update_state reg t TaskFailed = mark_failed reg t ''task failed''"
| "update_state reg t TaskCancelled = cancel_registered reg t"

lemmas task_ops = mark_running_def mark_completed_def mark_failed_def cancel_registered_def

text \<open>A subscriber that has read everything knows the current state.\<close>

definition events_current :: "task_registry \<Rightarrow> bool" where
  "events_current reg = (\<forall>t r. reg t = Some r \<longrightarrow>
     ts_task_id (tr_snapshot r) = t \<and> (tr_sent r = [] \<or> last (tr_sent r) = event_of_snapshot (tr_snapshot r)))"

lemma task_update_current:
  assumes "events_current reg" and "\<And>s. ts_task_id (f s) = ts_task_id s"
  shows "events_current (fst (task_update reg t f))"
  using assms by (auto simp: events_current_def task_update_def Let_def split: option.splits)

lemma update_state_current: "events_current reg \<Longrightarrow> events_current (fst (update_state reg t st))"
  by (cases st) (auto simp: task_ops intro!: task_update_current)

lemma upsert_current: "events_current reg \<Longrightarrow> events_current (upsert_snapshot reg s)"
  by (auto simp: events_current_def upsert_snapshot_def restore_task_def task_publish_def
      split: option.splits)

lemma update_state_reached:
  "snd (update_state reg t st) \<longleftrightarrow> reg t \<noteq> None"
  "reg t \<noteq> None \<Longrightarrow> registered_state (fst (update_state reg t st)) t = Some st"
  by (cases st; auto simp: task_ops task_update_def registered_state_def Let_def split: option.splits)+

end
