(* ===== verification/SqlText.thy ===== *)
theory SqlText
  imports QueryPlan
begin

text \<open>
  The SQL text that the Postgres and Hive adapters of \<open>adapters.rs\<close> build: identifiers, string
  literals, the \<open>WHERE\<close> clause and the whole \<open>SELECT\<close> statement.  The specification is a lexer
  of SQL, and for Hive one with its escapes: the tokens of a statement are those of its template, and
  a value given by a user is in them only as the content of one string literal.
\<close>

subsection \<open>Identifiers and literals\<close>

definition identifier_char :: "char \<Rightarrow> bool" where
  "identifier_char c = (is_ascii_alphanumeric c \<or> c = CHR ''_'')"

definition sanitize_identifier :: "string \<Rightarrow> string + string" where
  "sanitize_identifier v =
     (if list_all identifier_char v then Inr v else Inl (''invalid identifier: '' @ v))"

definition sanitize_qualified_identifier :: "string \<Rightarrow> string + string" where
  "sanitize_qualified_identifier v =
     res_bind (res_map_list sanitize_identifier
                 (filter (\<lambda>p. p \<noteq> []) (map trim (split_on (CHR ''.'') v))))
       (\<lambda>parts. if parts = [] then Inl ''empty identifier'' else Inr (join ''.'' parts))"

abbreviation quote_char :: char where
  "quote_char \<equiv> CHR 0x27"

definition quote_sql_literal :: "string \<Rightarrow> string" where
  "quote_sql_literal v = [quote_char] @ replace_char quote_char [quote_char, quote_char] v @ [quote_char]"

subsection \<open>The clause and the statement\<close>

definition in_values :: "string \<Rightarrow> string list" where
  "in_values v = filter (\<lambda>x. x \<noteq> []) (map trim (split_on (CHR '','') v))"

definition sql_clause :: "filter_condition \<Rightarrow> string + string" where
  "sql_clause c =
     res_bind (sanitize_identifier (fc_field c)) (\<lambda>field.
       case fc_operator c of
         OpEq \<Rightarrow> Inr (field @ '' = '' @ quote_sql_literal (fc_value c))
       | OpGt \<Rightarrow> Inr (field @ '' > '' @ quote_sql_literal (fc_value c))
       | OpLt \<Rightarrow> Inr (field @ '' < '' @ quote_sql_literal (fc_value c))
       | OpLike \<Rightarrow> Inr (field @ '' LIKE '' @ quote_sql_literal (fc_value c))
       | OpIn \<Rightarrow>
           Inr (field @ '' IN ('' @ join '', '' (map quote_sql_literal (in_values (fc_value c))) @ '')'')
       | OpNeq \<Rightarrow> Inl ''operator neq is not supported for sql pushdown'')"

definition sql_where_clause :: "filter_condition list \<Rightarrow> string + string" where
  "sql_where_clause cs =
     res_bind (res_map_list sql_clause cs) (\<lambda>clauses. Inr (join '' AND '' clauses))"

text \<open>The statement of \<open>SqlAdapter::execute_query\<close>; the adapter plans the query it is given again.\<close>

definition sql_limit :: "pagination option \<Rightarrow> string" where
  "sql_limit p =
     (case p of None \<Rightarrow> []
      | Some pg \<Rightarrow>
          '' LIMIT '' @ show_nat (page_size pg) @
          (case page_cursor pg of None \<Rightarrow> []
           | Some c \<Rightarrow> (case parse_usize c of None \<Rightarrow> [] | Some n \<Rightarrow> '' OFFSET '' @ show_nat n)))"

definition sql_with_where :: "string \<Rightarrow> string \<Rightarrow> string" where
  "sql_with_where sql clause = (if clause = [] then sql else sql @ '' WHERE '' @ clause)"

definition sql_select :: "string \<Rightarrow> unified_query \<Rightarrow> string + string" where
  "sql_select table q =
     res_bind (res_map_list (\<lambda>f. sanitize_identifier (fs_str f)) (uq_fields q)) (\<lambda>fields.
     res_bind (sanitize_identifier table) (\<lambda>table_name.
       let plan = build_execution_plan sql_defaults q in
       res_bind (sql_where_clause (qp_pushed plan)) (\<lambda>clause.
         Inr (sql_with_where (''SELECT '' @ join '', '' fields @ '' FROM '' @ table_name) clause @
              sql_limit (uq_pagination (qp_query plan))))))"

definition hive_limit :: "pagination option \<Rightarrow> string" where
  "hive_limit p = (case p of None \<Rightarrow> [] | Some pg \<Rightarrow> '' LIMIT '' @ show_nat (page_size pg))"

definition hive_select_sql :: "string \<Rightarrow> unified_query \<Rightarrow> string + string" where
  "hive_select_sql table q =
     res_bind (if uq_fields q = [] then Inr ''*''
               else res_bind (res_map_list (\<lambda>f. sanitize_identifier (fs_str f)) (uq_fields q))
                      (\<lambda>fs. Inr (join '', '' fs))) (\<lambda>fields.
     res_bind (sanitize_qualified_identifier table) (\<lambda>table_name.
       let plan = build_execution_plan sql_defaults q in
       res_bind (sql_where_clause (qp_pushed plan)) (\<lambda>clause.
         Inr (sql_with_where (''SELECT '' @ fields @ '' FROM '' @ table_name) clause @
              hive_limit (uq_pagination (qp_query plan))))))"

subsection \<open>A lexer of SQL\<close>

text \<open>
  Words of letters, digits and underscores, string literals in which a doubled quote stands for
  one quote, and single symbols; white space separates.  An unfinished literal is no token.
\<close>

datatype sql_token = SqlWord string | SqlLiteral string | SqlSymbol char

datatype lex_state = LexOut | LexWord string | LexLiteral string | LexQuote string

fun lex_sql :: "lex_state \<Rightarrow> string \<Rightarrow> sql_token list option" where
  "lex_sql LexOut [] = Some []"
| "lex_sql (LexWord w) [] = Some [SqlWord w]"
| "lex_sql (LexLiteral l) [] = None"
| "lex_sql (LexQuote l) [] = Some [SqlLiteral l]"
| "lex_sql (LexLiteral l) (c # cs) =
     (if c = quote_char then lex_sql (LexQuote l) cs else lex_sql (LexLiteral (l @ [c])) cs)"
| "lex_sql (LexQuote l) (c # cs) =
     (if c = quote_char then lex_sql (LexLiteral (l @ [c])) cs
      else if identifier_char c then map_option (Cons (SqlLiteral l)) (lex_sql (LexWord [c]) cs)
      else if is_ws c then map_option (Cons (SqlLiteral l)) (lex_sql LexOut cs)
      else map_option (\<lambda>ts. SqlLiteral l # SqlSymbol c # ts) (lex_sql LexOut cs))"
| "lex_sql (LexWord w) (c # cs) =
     (if identifier_char c then lex_sql (LexWord (w @ [c])) cs
      else if c = quote_char then map_option (Cons (SqlWord w)) (lex_sql (LexLiteral []) cs)
      else if is_ws c then map_option (Cons (SqlWord w)) (lex_sql LexOut cs)
      else map_option (\<lambda>ts. SqlWord w # SqlSymbol c # ts) (lex_sql LexOut cs))"
| "lex_sql LexOut (c # cs) =
     (if identifier_char c then lex_sql (LexWord [c]) cs
      else if c = quote_char then lex_sql (LexLiteral []) cs
      else if is_ws c then lex_sql LexOut cs
      else map_option (Cons (SqlSymbol c)) (lex_sql LexOut cs))"

abbreviation sql_tokens :: "string \<Rightarrow> sql_token list option" where
  "sql_tokens \<equiv> lex_sql LexOut"

text \<open>The tokens each part of a statement should have.\<close>

definition word_token :: "string \<Rightarrow> sql_token list" where
  "word_token w = (if w = [] then [] else [SqlWord w])"

fun separated :: "sql_token list \<Rightarrow> sql_token list list \<Rightarrow> sql_token list" where
  "separated sep [] = []"
| "separated sep [x] = x"
| "separated sep (x # y # ys) = x @ sep @ separated sep (y # ys)"

definition clause_tokens :: "filter_condition \<Rightarrow> sql_token list" where
  "clause_tokens c = word_token (fc_field c) @
     (case fc_operator c of
        OpEq \<Rightarrow> [SqlSymbol (CHR ''=''), SqlLiteral (fc_value c)]
      | OpGt \<Rightarrow> [SqlSymbol (CHR ''>''), SqlLiteral (fc_value c)]
      | OpLt \<Rightarrow> [SqlSymbol (CHR ''<''), SqlLiteral (fc_value c)]
      | OpLike \<Rightarrow> [SqlWord ''LIKE'', SqlLiteral (fc_value c)]
      | OpIn \<Rightarrow> [SqlWord ''IN'', SqlSymbol (CHR ''('')] @
          separated [SqlSymbol (CHR '','')] (map (\<lambda>v. [SqlLiteral v]) (in_values (fc_value c))) @
          [SqlSymbol (CHR '')'')]
      | OpNeq \<Rightarrow> [])"

definition where_tokens :: "filter_condition list \<Rightarrow> sql_token list" where
  "where_tokens cs = (if cs = [] then []
     else SqlWord ''WHERE'' # separated [SqlWord ''AND''] (map clause_tokens cs))"

definition limit_tokens :: "pagination option \<Rightarrow> sql_token list" where
  "limit_tokens p =
     (case p of None \<Rightarrow> []
      | Some pg \<Rightarrow> [SqlWord ''LIMIT'', SqlWord (show_nat (page_size pg))] @
          (case Option.bind (page_cursor pg) parse_usize of None \<Rightarrow> []
           | Some n \<Rightarrow> [SqlWord ''OFFSET'', SqlWord (show_nat n)]))"

subsection \<open>Lexing the text\<close>

lemma identifier_char_plain:
  "identifier_char c \<Longrightarrow> c \<noteq> quote_char \<and> \<not> is_ws c \<and> c \<notin> {CHR '','', CHR ''.'', CHR ''('', CHR '')''}"
  by (auto simp: identifier_char_def is_ascii_alphanumeric_def is_ascii_digit_def is_ws_def code_of_def)

lemma append_funs: "(@) [x] = (#) x" "(@) [] = (\<lambda>xs. xs)"
  by auto

lemma append_funs_assoc:
  "(@) (xs @ ys) = (\<lambda>zs. xs @ ys @ zs)" "(@) (x # xs) = (\<lambda>zs. x # xs @ zs)"
  by auto

lemma lex_chars:
  "is_ws (CHR '' '')" "\<not> is_ws quote_char" "\<not> identifier_char (CHR '' '')"
  "\<not> identifier_char quote_char"
  by code_simp+

lemma lex_space: "sql_tokens (CHR '' '' # r) = sql_tokens r"
  by (simp add: lex_chars)

lemma lex_symbol:
  "\<lbrakk> \<not> identifier_char c; \<not> is_ws c; c \<noteq> quote_char \<rbrakk> \<Longrightarrow>
     sql_tokens (c # r) = map_option (Cons (SqlSymbol c)) (sql_tokens r)"
  by simp

lemma lex_word_more:
  "list_all identifier_char v \<Longrightarrow> lex_sql (LexWord w) (v @ r) = lex_sql (LexWord (w @ v)) r"
  by (induction v arbitrary: w) auto

lemma lex_word_end:
  "r = [] \<or> \<not> identifier_char (hd r) \<Longrightarrow>
     lex_sql (LexWord w) r = map_option (Cons (SqlWord w)) (sql_tokens r)"
  by (cases r) (auto simp: option.map_comp comp_def)

lemma lex_word:
  assumes "list_all identifier_char w" and "r = [] \<or> \<not> identifier_char (hd r)"
  shows "sql_tokens (w @ r) = map_option (append (word_token w)) (sql_tokens r)"
proof (cases w)
  case Nil
  then show ?thesis by (simp add: word_token_def append_funs option.map_ident)
next
  case (Cons c v)
  with assms have "sql_tokens (w @ r) = lex_sql (LexWord ([c] @ v)) r"
    by (simp add: lex_word_more)
  also have "\<dots> = map_option (Cons (SqlWord w)) (sql_tokens r)"
    using lex_word_end [OF assms(2), of w] Cons by simp
  finally show ?thesis using Cons by (simp add: word_token_def append_funs)
qed

text \<open>A keyword or identifier between spaces.\<close>

lemma lex_keyword:
  "\<lbrakk> list_all identifier_char w; w \<noteq> [] \<rbrakk> \<Longrightarrow>
     sql_tokens (w @ CHR '' '' # r) = map_option (Cons (SqlWord w)) (sql_tokens r)"
  using lex_word [of w "CHR '' '' # r"] by (simp add: lex_chars word_token_def append_funs)

lemma lex_literal_body:
  "lex_sql (LexLiteral l) (replace_char quote_char [quote_char, quote_char] v @ quote_char # r)
     = lex_sql (LexQuote (l @ v)) r"
  by (induction v arbitrary: l) (auto simp: replace_char_def)

lemma lex_quote_end:
  "r = [] \<or> hd r \<noteq> quote_char \<Longrightarrow>
     lex_sql (LexQuote l) r = map_option (Cons (SqlLiteral l)) (sql_tokens r)"
  by (cases r) (auto simp: option.map_comp comp_def)

lemma lex_literal:
  assumes "r = [] \<or> hd r \<noteq> quote_char"
  shows "sql_tokens (quote_sql_literal v @ r) = map_option (Cons (SqlLiteral v)) (sql_tokens r)"
proof -
  have "sql_tokens (quote_sql_literal v @ r) = lex_sql (LexQuote ([] @ v)) r"
    unfolding quote_sql_literal_def append_assoc
    using lex_literal_body [of "[]" v r] by (simp add: lex_chars)
  with lex_quote_end [OF assms] show ?thesis by simp
qed

lemma separated_Cons: "separated sep (x # xs) = (if xs = [] then x else x @ sep @ separated sep xs)"
  by (cases xs) simp_all

lemma lex_literals:
  assumes "r = [] \<or> hd r \<noteq> quote_char"
  shows "sql_tokens (join '', '' (map quote_sql_literal vs) @ r)
    = map_option (append (separated [SqlSymbol (CHR '','')] (map (\<lambda>v. [SqlLiteral v]) vs))) (sql_tokens r)"
proof (induction vs)
  case Nil
  show ?case by (simp add: append_funs option.map_ident)
next
  case (Cons v vs)
  have comma: "\<not> identifier_char (CHR '','')" "\<not> is_ws (CHR '','')" by code_simp+
  show ?case
  proof (cases "vs = []")
    case True
    with assms show ?thesis by (simp add: lex_literal append_funs)
  next
    case False
    have "sql_tokens (join '', '' (map quote_sql_literal (v # vs)) @ r)
        = sql_tokens (quote_sql_literal v @ CHR '','' # CHR '' '' # join '', '' (map quote_sql_literal vs) @ r)"
      using False by (simp add: join_Cons)
    also have "\<dots> = map_option (Cons (SqlLiteral v)) (map_option (Cons (SqlSymbol (CHR '','')))
        (sql_tokens (join '', '' (map quote_sql_literal vs) @ r)))"
      using comma by (subst lex_literal) (simp_all add: lex_chars)
    finally show ?thesis
      using False Cons.IH by (simp add: separated_Cons option.map_comp comp_def)
  qed
qed

lemma sanitize_identifier_Inr: "sanitize_identifier v = Inr x \<longleftrightarrow> list_all identifier_char v \<and> x = v"
  by (auto simp: sanitize_identifier_def)

lemma keyword_chars:
  "list_all identifier_char ''SELECT''" "list_all identifier_char ''FROM''"
  "list_all identifier_char ''WHERE''" "list_all identifier_char ''AND''"
  "list_all identifier_char ''LIMIT''" "list_all identifier_char ''OFFSET''"
  "list_all identifier_char ''LIKE''" "list_all identifier_char ''IN''"
  by code_simp+

lemma symbol_chars:
  "\<not> identifier_char (CHR ''='')" "\<not> is_ws (CHR ''='')"
  "\<not> identifier_char (CHR ''>'')" "\<not> is_ws (CHR ''>'')"
  "\<not> identifier_char (CHR ''<'')" "\<not> is_ws (CHR ''<'')"
  "\<not> identifier_char (CHR ''('')" "\<not> is_ws (CHR ''('')"
  "\<not> identifier_char (CHR '')'')" "\<not> is_ws (CHR '')'')"
  "\<not> identifier_char (CHR '','')" "\<not> is_ws (CHR '','')"
  "\<not> identifier_char (CHR ''*'')" "\<not> is_ws (CHR ''*'')"
  "\<not> identifier_char (CHR ''.'')" "\<not> is_ws (CHR ''.'')"
  by code_simp+

text \<open>An identifier, a comparison symbol and a literal.\<close>

lemma lex_comparison:
  assumes "list_all identifier_char f" and "r = [] \<or> hd r \<noteq> quote_char"
    and "s \<in> {CHR ''='', CHR ''>'', CHR ''<''}"
  shows "sql_tokens (f @ [CHR '' '', s, CHR '' ''] @ quote_sql_literal v @ r)
    = map_option (append (word_token f @ [SqlSymbol s, SqlLiteral v])) (sql_tokens r)"
proof -
  have "sql_tokens (f @ [CHR '' '', s, CHR '' ''] @ quote_sql_literal v @ r)
      = map_option (append (word_token f)) (sql_tokens ([CHR '' '', s, CHR '' ''] @ quote_sql_literal v @ r))"
    by (rule lex_word [OF assms(1)]) (simp add: lex_chars)
  also have "sql_tokens ([CHR '' '', s, CHR '' ''] @ quote_sql_literal v @ r)
      = map_option (Cons (SqlSymbol s)) (map_option (Cons (SqlLiteral v)) (sql_tokens r))"
    using assms(3) lex_literal [OF assms(2), of v]
    by (auto simp: lex_chars symbol_chars)
  finally show ?thesis by (simp add: option.map_comp comp_def append_funs_assoc)
qed

lemma lex_like:
  assumes "list_all identifier_char f" and "r = [] \<or> hd r \<noteq> quote_char"
  shows "sql_tokens (f @ '' LIKE '' @ quote_sql_literal v @ r)
    = map_option (append (word_token f @ [SqlWord ''LIKE'', SqlLiteral v])) (sql_tokens r)"
proof -
  have "sql_tokens (f @ CHR '' '' # ''LIKE'' @ CHR '' '' # quote_sql_literal v @ r)
      = map_option (append (word_token f))
          (sql_tokens (''LIKE'' @ CHR '' '' # quote_sql_literal v @ r))"
    using lex_word [OF assms(1), of "CHR '' '' # ''LIKE'' @ CHR '' '' # quote_sql_literal v @ r"]
    by (simp only: lex_space list.sel lex_chars simp_thms)
  also have "\<dots> = map_option (append (word_token f)) (map_option (Cons (SqlWord ''LIKE''))
      (map_option (Cons (SqlLiteral v)) (sql_tokens r)))"
    by (simp only: lex_keyword [OF keyword_chars(7)] lex_literal [OF assms(2)] list.distinct simp_thms)
  finally show ?thesis by (simp add: option.map_comp comp_def append_funs_assoc)
qed

lemma lex_in:
  assumes "list_all identifier_char f"
  shows "sql_tokens (f @ '' IN ('' @ join '', '' (map quote_sql_literal vs) @ '')'' @ r)
    = map_option (append (word_token f @ [SqlWord ''IN'', SqlSymbol (CHR ''('')] @
        separated [SqlSymbol (CHR '','')] (map (\<lambda>v. [SqlLiteral v]) vs) @ [SqlSymbol (CHR '')'')]))
        (sql_tokens r)"
proof -
  let ?vs = "join '', '' (map quote_sql_literal vs) @ CHR '')'' # r"
  have close: "sql_tokens ?vs = map_option (append (separated [SqlSymbol (CHR '','')] (map (\<lambda>v. [SqlLiteral v]) vs)))
      (map_option (Cons (SqlSymbol (CHR '')''))) (sql_tokens r))"
    by (subst lex_literals) (simp_all add: symbol_chars)
  have paren: "sql_tokens (CHR ''('' # x) = map_option (Cons (SqlSymbol (CHR ''(''))) (sql_tokens x)" for x
    by (rule lex_symbol) (simp_all add: symbol_chars)
  have "sql_tokens (f @ CHR '' '' # ''IN'' @ CHR '' '' # CHR ''('' # ?vs)
      = map_option (append (word_token f)) (sql_tokens (''IN'' @ CHR '' '' # CHR ''('' # ?vs))"
    using lex_word [OF assms(1), of "CHR '' '' # ''IN'' @ CHR '' '' # CHR ''('' # ?vs"]
    by (simp only: lex_space list.sel lex_chars simp_thms)
  also have "\<dots> = map_option (append (word_token f)) (map_option (Cons (SqlWord ''IN''))
      (map_option (Cons (SqlSymbol (CHR ''(''))) (sql_tokens ?vs)))"
    by (simp only: lex_keyword [OF keyword_chars(8)] paren list.distinct simp_thms)
  finally show ?thesis by (simp add: close option.map_comp comp_def append_funs_assoc)
qed

lemma lex_clause:
  assumes "sql_clause c = Inr text" and "r = [] \<or> hd r \<noteq> quote_char"
  shows "sql_tokens (text @ r) = map_option (append (clause_tokens c)) (sql_tokens r)"
proof -
  have f: "list_all identifier_char (fc_field c)"
    using assms(1) by (auto simp: sql_clause_def res_bind_eq_Inr sanitize_identifier_Inr)
  then have cl: "sql_clause c = (case fc_operator c of
         OpEq \<Rightarrow> Inr (fc_field c @ '' = '' @ quote_sql_literal (fc_value c))
       | OpGt \<Rightarrow> Inr (fc_field c @ '' > '' @ quote_sql_literal (fc_value c))
       | OpLt \<Rightarrow> Inr (fc_field c @ '' < '' @ quote_sql_literal (fc_value c))
       | OpLike \<Rightarrow> Inr (fc_field c @ '' LIKE '' @ quote_sql_literal (fc_value c))
       | OpIn \<Rightarrow> Inr (fc_field c @ '' IN ('' @ join '', '' (map quote_sql_literal (in_values (fc_value c))) @ '')'')
       | OpNeq \<Rightarrow> Inl ''operator neq is not supported for sql pushdown'')"
    by (simp add: sql_clause_def sanitize_identifier_def)
  show ?thesis
  proof (cases "fc_operator c")
    case OpEq
    with assms cl lex_comparison [OF f assms(2), of "CHR ''=''" "fc_value c"] show ?thesis
      by (auto simp: clause_tokens_def)
  next
    case OpGt
    with assms cl lex_comparison [OF f assms(2), of "CHR ''>''" "fc_value c"] show ?thesis
      by (auto simp: clause_tokens_def)
  next
    case OpLt
    with assms cl lex_comparison [OF f assms(2), of "CHR ''<''" "fc_value c"] show ?thesis
      by (auto simp: clause_tokens_def)
  next
    case OpLike
    with assms cl lex_like [OF f assms(2), of "fc_value c"] show ?thesis
      by (auto simp: clause_tokens_def)
  next
    case OpIn
    with assms cl lex_in [OF f, of "in_values (fc_value c)" r] show ?thesis
      by (auto simp: clause_tokens_def)
  next
    case OpNeq
    with assms cl show ?thesis by simp
  qed
qed

lemma lex_clauses:
  assumes "list_all2 (\<lambda>c x. sql_clause c = Inr x) cs xs" and "r = [] \<or> hd r \<noteq> quote_char"
  shows "sql_tokens (join '' AND '' xs @ r)
    = map_option (append (separated [SqlWord ''AND''] (map clause_tokens cs))) (sql_tokens r)"
  using assms(1)
proof (induction rule: list_all2_induct)
  case Nil
  show ?case by (simp add: append_funs option.map_ident)
next
  case (Cons c cs x xs)
  show ?case
  proof (cases "xs = []")
    case True
    with Cons assms(2) show ?thesis by (simp add: lex_clause)
  next
    case False
    with Cons(2) have ne: "cs \<noteq> []" by auto
    let ?r = "join '' AND '' xs @ r"
    have "sql_tokens (join '' AND '' (x # xs) @ r) = sql_tokens (x @ CHR '' '' # ''AND'' @ CHR '' '' # ?r)"
      using False by (simp add: join_Cons)
    also have "\<dots> = map_option (append (clause_tokens c)) (sql_tokens (CHR '' '' # ''AND'' @ CHR '' '' # ?r))"
      by (rule lex_clause [OF Cons(1)]) simp
    also have "sql_tokens (CHR '' '' # ''AND'' @ CHR '' '' # ?r) = map_option (Cons (SqlWord ''AND'')) (sql_tokens ?r)"
      by (simp only: lex_space lex_keyword [OF keyword_chars(4)] list.distinct simp_thms)
    finally show ?thesis
      using Cons.IH ne by (simp add: separated_Cons option.map_comp comp_def append_funs_assoc)
  qed
qed

lemma sql_clause_nonempty: "sql_clause c = Inr x \<Longrightarrow> x \<noteq> []"
  by (cases "fc_operator c") (auto simp: sql_clause_def res_bind_eq_Inr)

lemma lex_where:
  assumes "sql_where_clause cs = Inr clause" and "r = [] \<or> hd r \<noteq> quote_char"
  shows "sql_tokens (sql_with_where [] clause @ r) = map_option (append (where_tokens cs)) (sql_tokens r)"
proof -
  obtain xs where xs: "list_all2 (\<lambda>c x. sql_clause c = Inr x) cs xs" "clause = join '' AND '' xs"
    using assms(1) by (auto simp: sql_where_clause_def res_bind_eq_Inr res_map_list_Inr)
  show ?thesis
  proof (cases cs)
    case Nil
    with xs show ?thesis by (simp add: sql_with_where_def where_tokens_def append_funs option.map_ident)
  next
    case (Cons c ds)
    with xs have "clause \<noteq> []"
      by (auto simp: list_all2_Cons1 join_Cons dest: sql_clause_nonempty split: if_splits)
    then have "sql_tokens (sql_with_where [] clause @ r) = sql_tokens (CHR '' '' # ''WHERE'' @ CHR '' '' # clause @ r)"
      by (simp add: sql_with_where_def)
    also have "\<dots> = map_option (Cons (SqlWord ''WHERE'')) (sql_tokens (clause @ r))"
      by (simp only: lex_space lex_keyword [OF keyword_chars(3)] list.distinct simp_thms)
    finally show ?thesis
      using Cons lex_clauses [OF xs(1) assms(2)] by (simp add: xs(2) where_tokens_def option.map_comp comp_def append_funs_assoc)
  qed
qed

lemma show_nat_identifier: "list_all identifier_char (show_nat n)"
  using show_nat_digits by (fastforce simp: list_all_iff identifier_char_def is_ascii_alphanumeric_def)

lemma lex_number:
  "r = [] \<or> \<not> identifier_char (hd r) \<Longrightarrow>
     sql_tokens (show_nat n @ r) = map_option (Cons (SqlWord (show_nat n))) (sql_tokens r)"
  using lex_word [OF show_nat_identifier] by (simp add: word_token_def append_funs)

lemma lex_limit_word:
  assumes "list_all identifier_char w" and "w \<noteq> []" and "r = [] \<or> \<not> identifier_char (hd r)"
  shows "sql_tokens (CHR '' '' # w @ CHR '' '' # show_nat n @ r)
    = map_option (append [SqlWord w, SqlWord (show_nat n)]) (sql_tokens r)"
  using lex_number [OF assms(3)]
  by (simp only: lex_space lex_keyword [OF assms(1,2)] option.map_comp comp_def append_funs_assoc append_Nil)

lemma lex_sql_limit: "sql_tokens (sql_limit p) = Some (limit_tokens p)"
proof (cases p)
  case (Some pg)
  let ?offset = "case Option.bind (page_cursor pg) parse_usize of None \<Rightarrow> []
    | Some n \<Rightarrow> '' OFFSET '' @ show_nat n"
  have nb: "?offset = [] \<or> \<not> identifier_char (hd ?offset)"
    by (simp add: lex_chars split: option.splits)
  have off: "sql_tokens ?offset = Some (case Option.bind (page_cursor pg) parse_usize of None \<Rightarrow> []
      | Some n \<Rightarrow> [SqlWord ''OFFSET'', SqlWord (show_nat n)])"
  proof (cases "Option.bind (page_cursor pg) parse_usize")
    case (Some n)
    with lex_limit_word [OF keyword_chars(6), of "[]" n] show ?thesis by (simp del: lex_sql.simps) simp
  qed simp
  have "sql_tokens (sql_limit p) = sql_tokens (CHR '' '' # ''LIMIT'' @ CHR '' '' # show_nat (page_size pg) @ ?offset)"
    by (simp add: sql_limit_def Some del: lex_sql.simps split: option.splits)
  also have "\<dots> = map_option (append [SqlWord ''LIMIT'', SqlWord (show_nat (page_size pg))]) (sql_tokens ?offset)"
    by (rule lex_limit_word [OF keyword_chars(5) _ nb]) simp
  finally show ?thesis
    by (simp add: off limit_tokens_def Some del: lex_sql.simps)
qed (simp add: sql_limit_def limit_tokens_def)

lemma limit_boundary: "sql_limit p = [] \<or> hd (sql_limit p) = CHR '' ''"
  by (simp add: sql_limit_def split: option.splits)

lemma lex_join_words:
  assumes "list_all (list_all identifier_char) ws" and "r = [] \<or> \<not> identifier_char (hd r)"
    and "s \<in> {CHR '','', CHR ''.''}" and "sp \<in> {[], '' ''}"
  shows "sql_tokens (join (s # sp) ws @ r)
    = map_option (append (separated [SqlSymbol s] (map word_token ws))) (sql_tokens r)"
  using assms(1)
proof (induction ws)
  case Nil
  show ?case by (simp add: append_funs option.map_ident)
next
  case (Cons w ws)
  have s: "\<not> identifier_char s" "\<not> is_ws s" "s \<noteq> quote_char"
    using assms(3) symbol_chars by auto
  show ?case
  proof (cases "ws = []")
    case True
    with Cons.prems lex_word [OF _ assms(2), of w] show ?thesis by simp
  next
    case False
    let ?r = "join (s # sp) ws @ r"
    have "sql_tokens (join (s # sp) (w # ws) @ r) = sql_tokens (w @ s # sp @ ?r)"
      using False by (simp add: join_Cons)
    also have "\<dots> = map_option (append (word_token w)) (sql_tokens (s # sp @ ?r))"
      using Cons.prems s by (intro lex_word) simp_all
    also have "sql_tokens (s # sp @ ?r) = map_option (Cons (SqlSymbol s)) (sql_tokens ?r)"
      using assms(4) by (auto simp only: lex_symbol [OF s] lex_space append_Nil append_Cons)
    finally show ?thesis
      using Cons False by (simp add: separated_Cons option.map_comp comp_def append_funs_assoc)
  qed
qed

lemma sanitized_list:
  "res_map_list (\<lambda>f. sanitize_identifier (g f)) fs = Inr xs \<longleftrightarrow>
     xs = map g fs \<and> list_all (list_all identifier_char) xs"
proof (induction fs arbitrary: xs)
  case (Cons f fs)
  show ?case
    by (cases xs) (simp_all add: res_bind_eq_Inr sanitize_identifier_Inr Cons.IH conj_ac cong: conj_cong, blast?)
qed auto

definition table_parts :: "string \<Rightarrow> string list" where
  "table_parts v = filter (\<lambda>p. p \<noteq> []) (map trim (split_on (CHR ''.'') v))"

lemma sanitize_qualified_Inr:
  "sanitize_qualified_identifier v = Inr t \<longleftrightarrow>
     t = join ''.'' (table_parts v) \<and> table_parts v \<noteq> [] \<and> list_all (list_all identifier_char) (table_parts v)"
proof -
  have "res_map_list sanitize_identifier xs = Inr ys \<longleftrightarrow>
      ys = xs \<and> list_all (list_all identifier_char) xs" for xs ys
    using sanitized_list [of "\<lambda>x. x" xs ys] by auto
  then show ?thesis
    by (auto simp: sanitize_qualified_identifier_def table_parts_def [symmetric] res_bind_eq_Inr split: if_splits)
qed

text \<open>The statement around a field list and a table of known tokens.\<close>

lemma lex_select:
  assumes cols: "\<And>r. sql_tokens (cols @ CHR '' '' # r) = map_option (append ft) (sql_tokens r)"
    and table: "\<And>r. r = [] \<or> \<not> identifier_char (hd r) \<Longrightarrow>
      sql_tokens (table @ r) = map_option (append tt) (sql_tokens r)"
    and clause: "sql_where_clause cs = Inr clause"
    and limit: "limit = [] \<or> hd limit = CHR '' ''" "sql_tokens limit = Some lt"
  shows "sql_tokens (sql_with_where (''SELECT '' @ cols @ '' FROM '' @ table) clause @ limit)
    = Some ([SqlWord ''SELECT''] @ ft @ [SqlWord ''FROM''] @ tt @ where_tokens cs @ lt)"
proof -
  let ?rest = "sql_with_where [] clause @ limit"
  have rest: "?rest = [] \<or> \<not> identifier_char (hd ?rest)" "limit = [] \<or> hd limit \<noteq> quote_char"
    using limit(1) by (auto simp: sql_with_where_def lex_chars)
  have "sql_with_where (''SELECT '' @ cols @ '' FROM '' @ table) clause @ limit
      = ''SELECT'' @ CHR '' '' # cols @ CHR '' '' # ''FROM'' @ CHR '' '' # table @ ?rest"
    by (simp add: sql_with_where_def)
  then have "sql_tokens (sql_with_where (''SELECT '' @ cols @ '' FROM '' @ table) clause @ limit)
      = sql_tokens (''SELECT'' @ CHR '' '' # cols @ CHR '' '' # ''FROM'' @ CHR '' '' # table @ ?rest)"
    by (simp only:)
  also have "\<dots> = map_option (Cons (SqlWord ''SELECT'')) (map_option (append ft)
      (map_option (Cons (SqlWord ''FROM'')) (map_option (append tt) (sql_tokens ?rest))))"
    by (simp only: lex_keyword [OF keyword_chars(1)] lex_keyword [OF keyword_chars(2)] cols
        table [OF rest(1)] list.distinct simp_thms)
  finally show ?thesis
    by (simp add: lex_where [OF clause rest(2)] limit(2))
qed

lemma pagination_pushed [simp]: "uq_pagination (qp_query (build_execution_plan sql_defaults q)) = uq_pagination q"
  by (simp add: build_execution_plan_def Let_def split_conditions_filter sql_defaults_def)

definition pushed_conditions :: "unified_query \<Rightarrow> filter_condition list" where
  "pushed_conditions q = filter (\<lambda>c. pushable sql_defaults (fc_operator c)) (uq_conditions q)"

definition column_tokens :: "field_selector list \<Rightarrow> sql_token list" where
  "column_tokens fs = separated [SqlSymbol (CHR '','')] (map (\<lambda>f. word_token (fs_str f)) fs)"

lemma lex_columns:
  assumes "res_map_list (\<lambda>f. sanitize_identifier (fs_str f)) fs = Inr names"
  shows "sql_tokens (join '', '' names @ CHR '' '' # r) = map_option (append (column_tokens fs)) (sql_tokens r)"
  using assms lex_join_words [of names "CHR '' '' # r" "CHR '',''" "'' ''"]
  by (auto simp: sanitized_list column_tokens_def comp_def lex_chars)

lemma sql_select_tokens:
  assumes "sql_select table q = Inr sql"
  shows "sql_tokens sql = Some ([SqlWord ''SELECT''] @ column_tokens (uq_fields q) @ [SqlWord ''FROM''] @
    word_token table @ where_tokens (pushed_conditions q) @ limit_tokens (uq_pagination q))"
proof -
  obtain names clause where names: "res_map_list (\<lambda>f. sanitize_identifier (fs_str f)) (uq_fields q) = Inr names"
    and tb: "list_all identifier_char table"
    and clause: "sql_where_clause (pushed_conditions q) = Inr clause"
    and sql: "sql = sql_with_where (''SELECT '' @ join '', '' names @ '' FROM '' @ table) clause @
      sql_limit (uq_pagination q)"
    using assms
    by (auto simp: sql_select_def res_bind_eq_Inr sanitize_identifier_Inr Let_def pushed_conditions_def)
  show ?thesis
    unfolding sql by (rule lex_select [OF lex_columns [OF names] lex_word [OF tb] clause limit_boundary lex_sql_limit])
qed

definition hive_column_tokens :: "field_selector list \<Rightarrow> sql_token list" where
  "hive_column_tokens fs = (if fs = [] then [SqlSymbol (CHR ''*'')] else column_tokens fs)"

definition hive_limit_tokens :: "pagination option \<Rightarrow> sql_token list" where
  "hive_limit_tokens p = (case p of None \<Rightarrow> []
     | Some pg \<Rightarrow> [SqlWord ''LIMIT'', SqlWord (show_nat (page_size pg))])"

lemma lex_hive_limit:
  "(hive_limit p = [] \<or> hd (hive_limit p) = CHR '' '') \<and> sql_tokens (hive_limit p) = Some (hive_limit_tokens p)"
proof (cases p)
  case (Some pg)
  with lex_limit_word [OF keyword_chars(5), of "[]" "page_size pg"] show ?thesis
    by (simp add: hive_limit_def hive_limit_tokens_def del: lex_sql.simps) simp
qed (simp add: hive_limit_def hive_limit_tokens_def)

lemma hive_select_tokens:
  assumes "hive_select_sql table q = Inr sql"
  shows "sql_tokens sql = Some ([SqlWord ''SELECT''] @ hive_column_tokens (uq_fields q) @ [SqlWord ''FROM''] @
    separated [SqlSymbol (CHR ''.'')] (map word_token (table_parts table)) @
    where_tokens (pushed_conditions q) @ hive_limit_tokens (uq_pagination q))"
proof -
  obtain cols clause where
    cols: "(if uq_fields q = [] then Inr ''*''
       else res_bind (res_map_list (\<lambda>f. sanitize_identifier (fs_str f)) (uq_fields q))
              (\<lambda>fs. Inr (join '', '' fs))) = Inr cols"
    and tb: "list_all (list_all identifier_char) (table_parts table)"
    and clause: "sql_where_clause (pushed_conditions q) = Inr clause"
    and sql: "sql = sql_with_where (''SELECT '' @ cols @ '' FROM '' @ join ''.'' (table_parts table)) clause @
      hive_limit (uq_pagination q)"
    using assms
    unfolding hive_select_sql_def
    by (auto simp only: res_bind_eq_Inr sanitize_qualified_Inr Let_def pushed_conditions_def
        build_execution_plan_parts pagination_pushed sum.inject)
  have "sql_tokens (cols @ CHR '' '' # r) = map_option (append (hive_column_tokens (uq_fields q))) (sql_tokens r)" for r
  proof (cases "uq_fields q = []")
    case True
    with cols show ?thesis
      by (auto simp: hive_column_tokens_def symbol_chars lex_chars append_funs)
  next
    case False
    with cols lex_columns [of "uq_fields q" _ r] show ?thesis
      by (auto simp: hive_column_tokens_def res_bind_eq_Inr simp del: lex_sql.simps)
  qed
  moreover have "sql_tokens (join ''.'' (table_parts table) @ r)
      = map_option (append (separated [SqlSymbol (CHR ''.'')] (map word_token (table_parts table)))) (sql_tokens r)"
    if "r = [] \<or> \<not> identifier_char (hd r)" for r
    using lex_join_words [OF tb that, of "CHR ''.''" "[]"] by simp
  ultimately show ?thesis
    unfolding sql using lex_hive_limit by (intro lex_select [OF _ _ clause]) blast+
qed

subsection \<open>The lexer of Hive\<close>

text \<open>
  Hive reads literals differently: a backslash takes the next character into the literal, a quote
  included, and literals that follow each other without a space are one literal, so that a doubled
  quote leaves no quote in it.
\<close>

abbreviation backslash :: char where
  "backslash \<equiv> CHR 0x5C"

fun lex_hive :: "lex_state \<Rightarrow> string \<Rightarrow> sql_token list option" where
  "lex_hive LexOut [] = Some []"
| "lex_hive (LexWord w) [] = Some [SqlWord w]"
| "lex_hive (LexLiteral l) [] = None"
| "lex_hive (LexQuote l) [] = Some [SqlLiteral l]"
| "lex_hive (LexLiteral l) [c] =
     (if c = quote_char then lex_hive (LexQuote l) [] else None)"
| "lex_hive (LexLiteral l) (c # d # cs) =
     (if c = backslash then lex_hive (LexLiteral (l @ [d])) cs
      else if c = quote_char then lex_hive (LexQuote l) (d # cs)
      else lex_hive (LexLiteral (l @ [c])) (d # cs))"
| "lex_hive (LexQuote l) (c # cs) =
     (if c = quote_char then lex_hive (LexLiteral l) cs
      else if identifier_char c then map_option (Cons (SqlLiteral l)) (lex_hive (LexWord [c]) cs)
      else if is_ws c then map_option (Cons (SqlLiteral l)) (lex_hive LexOut cs)
      else map_option (\<lambda>ts. SqlLiteral l # SqlSymbol c # ts) (lex_hive LexOut cs))"
| "lex_hive (LexWord w) (c # cs) =
     (if identifier_char c then lex_hive (LexWord (w @ [c])) cs
      else if c = quote_char then map_option (Cons (SqlWord w)) (lex_hive (LexLiteral []) cs)
      else if is_ws c then map_option (Cons (SqlWord w)) (lex_hive LexOut cs)
      else map_option (\<lambda>ts. SqlWord w # SqlSymbol c # ts) (lex_hive LexOut cs))"
| "lex_hive LexOut (c # cs) =
     (if identifier_char c then lex_hive (LexWord [c]) cs
      else if c = quote_char then lex_hive (LexLiteral []) cs
      else if is_ws c then lex_hive LexOut cs
      else map_option (Cons (SqlSymbol c)) (lex_hive LexOut cs))"

lemma lex_literal_prefix:
  "(st = LexLiteral l \<or> st = LexQuote l) \<Longrightarrow> lex_sql st s = Some ts \<Longrightarrow>
     \<exists>l' ts'. ts = SqlLiteral (l @ l') # ts'"
proof (induction s arbitrary: st l)
  case (Cons c s)
  from Cons.prems(1) show ?case
  proof
    assume st: "st = LexLiteral l"
    show ?thesis
    proof (cases "c = quote_char")
      case True
      with Cons.prems(2) st Cons.IH [of "LexQuote l" l] show ?thesis by simp
    next
      case False
      with Cons.prems(2) st Cons.IH [of "LexLiteral (l @ [c])" "l @ [c]"] show ?thesis by auto
    qed
  next
    assume st: "st = LexQuote l"
    show ?thesis
    proof (cases "c = quote_char")
      case True
      with Cons.prems(2) st Cons.IH [of "LexLiteral (l @ [c])" "l @ [c]"] show ?thesis by auto
    qed (use Cons.prems(2) st in \<open>auto split: if_splits\<close>)
  qed
qed auto

definition plain_token :: "sql_token \<Rightarrow> bool" where
  "plain_token t = (case t of
     SqlWord w \<Rightarrow> True
   | SqlLiteral l \<Rightarrow> backslash \<notin> set l \<and> quote_char \<notin> set l
   | SqlSymbol c \<Rightarrow> c \<noteq> backslash)"

lemma plain_token_simps [simp]:
  "plain_token (SqlWord w)" "plain_token (SqlLiteral l) \<longleftrightarrow> backslash \<notin> set l \<and> quote_char \<notin> set l"
  "plain_token (SqlSymbol c) \<longleftrightarrow> c \<noteq> backslash"
  by (simp_all add: plain_token_def)

text \<open>A text whose tokens have neither character is read alike by both lexers.\<close>

lemma lex_hive_agrees:
  "lex_sql st s = Some ts \<Longrightarrow> list_all plain_token ts \<Longrightarrow> lex_hive st s = Some ts"
proof (induction st s arbitrary: ts rule: lex_hive.induct)
  case (5 l c)
  then show ?case by (auto split: if_splits)
next
  case (6 l c d cs)
  have "c \<noteq> backslash"
  proof
    assume "c = backslash"
    with "6.prems"(1) obtain l' ts' where "ts = SqlLiteral ((l @ [backslash]) @ l') # ts'"
      using lex_literal_prefix [of "LexLiteral (l @ [backslash])" "l @ [backslash]" "d # cs"] by auto
    with "6.prems"(2) show False by simp
  qed
  with 6 show ?case by (simp split: if_splits)
next
  case (7 l c cs)
  show ?case
  proof (cases "c = quote_char")
    case True
    with "7.prems"(1) obtain l' ts' where "ts = SqlLiteral ((l @ [quote_char]) @ l') # ts'"
      using lex_literal_prefix [of "LexLiteral (l @ [quote_char])" "l @ [quote_char]" cs] by auto
    with "7.prems"(2) show ?thesis by simp
  qed (use 7 in \<open>auto split: if_splits\<close>)
qed (auto split: if_splits)

lemma separated_all:
  "list_all P sep \<Longrightarrow> list_all (list_all P) xs \<Longrightarrow> list_all P (separated sep xs)"
  by (induction sep xs rule: separated.induct) simp_all

lemma word_token_plain [simp]: "list_all plain_token (word_token w)"
  by (simp add: word_token_def)

definition plain_value :: "string \<Rightarrow> bool" where
  "plain_value v = (backslash \<notin> set v \<and> quote_char \<notin> set v)"

lemma trim_subset: "set (trim s) \<subseteq> set s"
  unfolding trim_def trim_start_def by (auto dest!: set_dropWhileD)

lemma split_on_subset: "p \<in> set (split_on c s) \<Longrightarrow> set p \<subseteq> set s"
proof (induction s arbitrary: p)
  case (Cons x s)
  then show ?case by (cases "split_on c s") (auto split: if_splits, blast+)
qed simp

lemma in_values_plain:
  assumes "plain_value v"
  shows "\<forall>x \<in> set (in_values v). plain_value x"
proof
  fix x assume "x \<in> set (in_values v)"
  then obtain p where "p \<in> set (split_on (CHR '','') v)" "x = trim p" by (auto simp: in_values_def)
  moreover have "set p \<subseteq> set v" using calculation(1) split_on_subset by blast
  moreover have "set (trim p) \<subseteq> set p" by (rule trim_subset)
  ultimately show "plain_value x" using assms by (auto simp: plain_value_def)
qed

lemma clause_tokens_plain: "plain_value (fc_value c) \<Longrightarrow> list_all plain_token (clause_tokens c)"
proof -
  assume v: "plain_value (fc_value c)"
  have "list_all (list_all plain_token) (map (\<lambda>v. [SqlLiteral v]) (in_values (fc_value c)))"
    using in_values_plain [OF v] by (simp add: list_all_iff plain_value_def)
  then have "list_all plain_token
      (separated [SqlSymbol (CHR '','')] (map (\<lambda>v. [SqlLiteral v]) (in_values (fc_value c))))"
    by (intro separated_all) simp_all
  then show ?thesis
    using v by (cases "fc_operator c") (simp_all add: clause_tokens_def plain_value_def)
qed

lemma statement_plain:
  assumes "\<forall>c \<in> set (pushed_conditions q). plain_value (fc_value c)"
  shows "list_all plain_token ([SqlWord ''SELECT''] @ hive_column_tokens (uq_fields q) @ [SqlWord ''FROM''] @
    separated [SqlSymbol (CHR ''.'')] (map word_token (table_parts table)) @
    where_tokens (pushed_conditions q) @ hive_limit_tokens (uq_pagination q))"
proof -
  have cols: "list_all plain_token (hive_column_tokens (uq_fields q))"
    unfolding hive_column_tokens_def column_tokens_def
    by (auto intro!: separated_all simp: list_all_iff [of "list_all plain_token"])
  have table: "list_all plain_token (separated [SqlSymbol (CHR ''.'')] (map word_token (table_parts table)))"
    by (rule separated_all) (simp_all add: list_all_iff [of "list_all plain_token"])
  have "list_all (list_all plain_token) (map clause_tokens (pushed_conditions q))"
    using assms clause_tokens_plain by (simp add: list_all_iff [of "list_all plain_token"])
  then have "list_all plain_token (where_tokens (pushed_conditions q))"
    unfolding where_tokens_def by (auto intro!: separated_all)
  moreover have "list_all plain_token (hive_limit_tokens (uq_pagination q))"
    by (simp add: hive_limit_tokens_def split: option.splits)
  ultimately show ?thesis using cols table by simp
qed

subsection \<open>Values stay in their literals\<close>

definition sample_sql_query :: unified_query where
  "sample_sql_query = (unified_query_new [FieldSelector ''name'', FieldSelector ''region''])
     \<lparr>uq_conditions := [\<lparr>fc_field = ''name'', fc_operator = OpEq,
          fc_value = [quote_char] @ '' OR 1 = 1 --''\<rparr>,
        \<lparr>fc_field = ''region'', fc_operator = OpIn, fc_value = ''eu, us''\<rparr>],
      uq_pagination := Some \<lparr>page_size = 10, page_cursor = None\<rparr>\<rparr>"

text \<open>
  C11. Values stay in their literals.  The statement built for Postgres consists of exactly the
  tokens of its template: the requested columns, the table, one comparison per pushed condition with
  its value as the content of one string literal (one per item for \<open>IN\<close>), and the bounds of the page.
  No value, whatever characters it has, adds a token, for a lexer in which a doubled quote stands
  for a quote and a backslash for itself, as in standard SQL.  The statement built for Hive, read by
  Hive's lexer, has the tokens of its template as long as no pushed value contains a quote or a
  backslash; a value that does can leave its literal there.
\<close>

theorem sql_values_stay_literals:
  "(sql_select table q = Inr sql \<longrightarrow>
      sql_tokens sql = Some ([SqlWord ''SELECT''] @ column_tokens (uq_fields q) @ [SqlWord ''FROM''] @
        word_token table @ where_tokens (pushed_conditions q) @ limit_tokens (uq_pagination q))) \<and>
   (hive_select_sql table q = Inr sql \<and> (\<forall>c \<in> set (pushed_conditions q). plain_value (fc_value c)) \<longrightarrow>
      lex_hive LexOut sql = Some ([SqlWord ''SELECT''] @ hive_column_tokens (uq_fields q) @ [SqlWord ''FROM''] @
        separated [SqlSymbol (CHR ''.'')] (map word_token (table_parts table)) @
        where_tokens (pushed_conditions q) @ hive_limit_tokens (uq_pagination q)))"
  using sql_select_tokens lex_hive_agrees [OF hive_select_tokens statement_plain] by blast

text \<open>A value that is one backslash takes the closing quote into the literal, which then stays open.\<close>

lemma hive_value_leaves_its_literal: "lex_hive LexOut (quote_sql_literal [backslash]) = None"
  by code_simp

definition sample_hive_query :: unified_query where
  "sample_hive_query = (unified_query_new [FieldSelector ''name''])
     \<lparr>uq_conditions := [\<lparr>fc_field = ''region'', fc_operator = OpIn, fc_value = ''eu, us''\<rparr>]\<rparr>"

lemma sql_values_stay_literals_witness:
  "lex_hive LexOut (projr (hive_select_sql ''hr.people'' sample_hive_query)) =
     Some [SqlWord ''SELECT'', SqlWord ''name'', SqlWord ''FROM'', SqlWord ''hr'', SqlSymbol (CHR ''.''),
       SqlWord ''people'', SqlWord ''WHERE'', SqlWord ''region'', SqlWord ''IN'', SqlSymbol (CHR ''(''),
       SqlLiteral ''eu'', SqlSymbol (CHR '',''), SqlLiteral ''us'', SqlSymbol (CHR '')'')] \<and>
   sql_tokens (projr (sql_select ''people'' sample_sql_query)) =
     Some [SqlWord ''SELECT'', SqlWord ''name'', SqlSymbol (CHR '',''), SqlWord ''region'',
       SqlWord ''FROM'', SqlWord ''people'', SqlWord ''WHERE'', SqlWord ''name'', SqlSymbol (CHR ''=''),
       SqlLiteral ([quote_char] @ '' OR 1 = 1 --''), SqlWord ''AND'', SqlWord ''region'', SqlWord ''IN'',
       SqlSymbol (CHR ''(''), SqlLiteral ''eu'', SqlSymbol (CHR '',''), SqlLiteral ''us'',
       SqlSymbol (CHR '')''), SqlWord ''LIMIT'', SqlWord ''10'']"
proof (intro conjI)
  let ?sql = "projr (hive_select_sql ''hr.people'' sample_hive_query)"
  let ?tokens = "[SqlWord ''SELECT''] @ hive_column_tokens (uq_fields sample_hive_query) @ [SqlWord ''FROM''] @
      separated [SqlSymbol (CHR ''.'')] (map word_token (table_parts ''hr.people'')) @
      where_tokens (pushed_conditions sample_hive_query) @ hive_limit_tokens (uq_pagination sample_hive_query)"
  have "hive_select_sql ''hr.people'' sample_hive_query = Inr ?sql" by code_simp
  moreover have "\<forall>c \<in> set (pushed_conditions sample_hive_query). plain_value (fc_value c)" by code_simp
  ultimately have "lex_hive LexOut ?sql = Some ?tokens"
    using sql_values_stay_literals [of "''hr.people''" sample_hive_query ?sql] by blast
  moreover have "?tokens = [SqlWord ''SELECT'', SqlWord ''name'', SqlWord ''FROM'', SqlWord ''hr'', SqlSymbol (CHR ''.''),
       SqlWord ''people'', SqlWord ''WHERE'', SqlWord ''region'', SqlWord ''IN'', SqlSymbol (CHR ''(''),
       SqlLiteral ''eu'', SqlSymbol (CHR '',''), SqlLiteral ''us'', SqlSymbol (CHR '')'')]"
    by code_simp
  ultimately show "lex_hive LexOut ?sql = Some [SqlWord ''SELECT'', SqlWord ''name'', SqlWord ''FROM'', SqlWord ''hr'',
       SqlSymbol (CHR ''.''), SqlWord ''people'', SqlWord ''WHERE'', SqlWord ''region'', SqlWord ''IN'',
       SqlSymbol (CHR ''(''), SqlLiteral ''eu'', SqlSymbol (CHR '',''), SqlLiteral ''us'', SqlSymbol (CHR '')'')]"
    by (simp only:)
next
  let ?sql = "projr (sql_select ''people'' sample_sql_query)"
  have "sql_select ''people'' sample_sql_query = Inr ?sql" by code_simp
  then have "sql_tokens ?sql = Some ([SqlWord ''SELECT''] @ column_tokens (uq_fields sample_sql_query) @
      [SqlWord ''FROM''] @ word_token ''people'' @ where_tokens (pushed_conditions sample_sql_query) @
      limit_tokens (uq_pagination sample_sql_query))"
    using sql_values_stay_literals [of "''people''" sample_sql_query ?sql] by blast
  moreover have "[SqlWord ''SELECT''] @ column_tokens (uq_fields sample_sql_query) @
      [SqlWord ''FROM''] @ word_token ''people'' @ where_tokens (pushed_conditions sample_sql_query) @
      limit_tokens (uq_pagination sample_sql_query) =
     [SqlWord ''SELECT'', SqlWord ''name'', SqlSymbol (CHR '',''), SqlWord ''region'',
       SqlWord ''FROM'', SqlWord ''people'', SqlWord ''WHERE'', SqlWord ''name'', SqlSymbol (CHR ''=''),
       SqlLiteral ([quote_char] @ '' OR 1 = 1 --''), SqlWord ''AND'', SqlWord ''region'', SqlWord ''IN'',
       SqlSymbol (CHR ''(''), SqlLiteral ''eu'', SqlSymbol (CHR '',''), SqlLiteral ''us'',
       SqlSymbol (CHR '')''), SqlWord ''LIMIT'', SqlWord ''10'']"
    by code_simp
  ultimately show "sql_tokens ?sql = Some [SqlWord ''SELECT'', SqlWord ''name'', SqlSymbol (CHR '',''), SqlWord ''region'',
       SqlWord ''FROM'', SqlWord ''people'', SqlWord ''WHERE'', SqlWord ''name'', SqlSymbol (CHR ''=''),
       SqlLiteral ([quote_char] @ '' OR 1 = 1 --''), SqlWord ''AND'', SqlWord ''region'', SqlWord ''IN'',
       SqlSymbol (CHR ''(''), SqlLiteral ''eu'', SqlSymbol (CHR '',''), SqlLiteral ''us'',
       SqlSymbol (CHR '')''), SqlWord ''LIMIT'', SqlWord ''10'']"
    by (simp only:)
qed

end
