(* ===== verification/JsonValue.thy ===== *)
theory JsonValue
  imports RustStrings
begin

text \<open>
  JSON values as \<open>serde_json\<close> has them, as far as the components read them: unsigned numbers are
  kept, other numbers are not told apart.  A key that is repeated in an object is the caller's
  concern; reading takes the first.
\<close>

datatype json =
    JNull | JBool bool | JU64 nat | JOtherNumber | JString string | JArray "json list"
  | JObject "(string \<times> json) list"

fun json_get :: "string \<Rightarrow> json \<Rightarrow> json option" where
  "json_get k (JObject kvs) = map_of kvs k"
| "json_get k _ = None"

fun json_str :: "json \<Rightarrow> string option" where
  "json_str (JString s) = Some s"
| "json_str _ = None"

fun json_u64 :: "json \<Rightarrow> nat option" where
  "json_u64 (JU64 n) = Some n"
| "json_u64 _ = None"

fun json_array :: "json \<Rightarrow> json list option" where
  "json_array (JArray vs) = Some vs"
| "json_array _ = None"

fun json_bool :: "json \<Rightarrow> bool option" where
  "json_bool (JBool b) = Some b"
| "json_bool _ = None"

end
