(* ===== verification/HiveText.thy ===== *)
theory HiveText
  imports SqlText JsonValue
begin

text \<open>
  The configuration of a data source (\<open>traits.rs\<close>) and the Hive side of \<open>adapters.rs\<close>: the command
  line that runs a statement with its placeholders, and the reading of the rows it prints.  The
  adapter configuration is a JSON value; of numbers only the unsigned ones are read.
\<close>

subsection \<open>Configuration\<close>

record data_source_config =
  dc_data_source_id :: string
  dc_source_type :: source_type
  dc_connection_uri :: string
  dc_adapter_config :: json

definition config_str :: "data_source_config \<Rightarrow> string \<Rightarrow> string option" where
  "config_str cfg k = Option.bind (json_get k (dc_adapter_config cfg)) json_str"

definition uses_sql_adapter_for_hive :: "data_source_config \<Rightarrow> bool" where
  "uses_sql_adapter_for_hive cfg =
     (if dc_source_type cfg \<noteq> Hive then False
      else
        let provider = to_ascii_lowercase (case config_str cfg ''provider'' of Some p \<Rightarrow> p | None \<Rightarrow> []) in
        provider \<in> {''postgres'', ''sql'', ''sqlx''}
        \<or> starts_with (dc_connection_uri cfg) ''postgres://''
        \<or> starts_with (dc_connection_uri cfg) ''postgresql://'')"

definition hive_config_string :: "data_source_config \<Rightarrow> string \<Rightarrow> string option" where
  "hive_config_string cfg k =
     (case config_str cfg k of None \<Rightarrow> None
      | Some v \<Rightarrow> if trim v = [] then None else Some (trim v))"

definition hive_jdbc_url :: "data_source_config \<Rightarrow> string + string" where
  "hive_jdbc_url cfg =
     (let trimmed = trim (option_or (hive_config_string cfg ''jdbc_url'') (dc_connection_uri cfg)) in
      if trimmed = [] then Inl ''empty Hive JDBC URL'' else Inr trimmed)"

definition validate_hive_jdbc_config :: "data_source_config \<Rightarrow> string + unit" where
  "validate_hive_jdbc_config cfg =
     (if dc_source_type cfg \<noteq> Hive then Inl ''Hive JDBC adapter requires source_type=hive''
      else if trim (option_or (hive_config_string cfg ''command'') ''beeline'') = []
      then Inl ''Hive JDBC command is empty''
      else res_bind (hive_jdbc_url cfg) (\<lambda>url.
        if \<not> starts_with url ''jdbc:hive2://'' then Inl (''unsupported Hive JDBC URL: '' @ url)
        else Inr ()))"

subsection \<open>The command line\<close>

definition hive_url_or_uri :: "data_source_config \<Rightarrow> string" where
  "hive_url_or_uri cfg =
     (case hive_jdbc_url cfg of Inr url \<Rightarrow> url | Inl _ \<Rightarrow> dc_connection_uri cfg)"

definition replace_hive_placeholders :: "data_source_config \<Rightarrow> string \<Rightarrow> string \<Rightarrow> string" where
  "replace_hive_placeholders cfg sql v =
     (let v1 = str_replace ''{sql}'' sql v;
          v2 = str_replace ''{connection_uri}'' (dc_connection_uri cfg) v1;
          v3 = str_replace ''{jdbc_url}'' (hive_url_or_uri cfg) v2;
          v4 = str_replace ''{username}'' (option_or (hive_config_string cfg ''username'') ''hive'') v3 in
      str_replace ''{password}'' (option_or (hive_config_string cfg ''password'') []) v4)"

definition default_beeline_args :: "data_source_config \<Rightarrow> string \<Rightarrow> string list" where
  "default_beeline_args cfg sql =
     [''-u'', hive_url_or_uri cfg, ''-n'', option_or (hive_config_string cfg ''username'') ''hive''] @
     (case hive_config_string cfg ''password'' of Some p \<Rightarrow> [''-p'', p] | None \<Rightarrow> []) @
     [''--outputformat=csv2'', ''--showHeader=false'', ''--silent=true'', ''-e'', sql]"

record hive_invocation =
  hi_command :: string
  hi_args :: "string list"

definition hive_arg :: "data_source_config \<Rightarrow> string \<Rightarrow> json \<Rightarrow> string + string" where
  "hive_arg cfg sql v =
     res_bind (res_of_option ''Hive command args must be strings'' (json_str v))
       (\<lambda>a. Inr (replace_hive_placeholders cfg sql a))"

definition configured_args :: "data_source_config \<Rightarrow> json list option" where
  "configured_args cfg =
     Option.bind
       (case json_get ''command_args'' (dc_adapter_config cfg) of
          Some v \<Rightarrow> Some v | None \<Rightarrow> json_get ''args'' (dc_adapter_config cfg))
       json_array"

definition hive_cli_invocation :: "data_source_config \<Rightarrow> string \<Rightarrow> string + hive_invocation" where
  "hive_cli_invocation cfg sql =
     res_bind (validate_hive_jdbc_config cfg) (\<lambda>_.
     res_bind (case configured_args cfg of
                 Some vs \<Rightarrow> res_map_list (hive_arg cfg sql) vs
               | None \<Rightarrow> Inr (default_beeline_args cfg sql)) (\<lambda>args.
       Inr \<lparr>hi_command = option_or (hive_config_string cfg ''command'') ''beeline'', hi_args = args\<rparr>))"

definition hive_poll_interval_ms :: "data_source_config \<Rightarrow> nat" where
  "hive_poll_interval_ms cfg =
     max 10 (min 5000 (option_or (Option.bind (json_get ''poll_interval_ms'' (dc_adapter_config cfg)) json_u64) 100))"

text \<open>\<open>truncate_for_error\<close> slices at byte 800, and panics when that is inside a character.\<close>

definition truncate_for_error :: "string \<Rightarrow> string option" where
  "truncate_for_error v =
     (if utf8_len v \<le> 800 then Some (trim v)
      else map_option (\<lambda>p. p @ ''...'') (utf8_prefix 800 v))"

subsection \<open>The output\<close>

abbreviation dquote :: char where
  "dquote \<equiv> CHR 0x22"

fun csv2_loop :: "string list \<Rightarrow> string \<Rightarrow> bool \<Rightarrow> string \<Rightarrow> string + string list" where
  "csv2_loop vals current in_quotes [] =
     (if in_quotes then Inl ''unterminated Hive csv2 quote'' else Inr (vals @ [trim current]))"
| "csv2_loop vals current in_quotes (c # cs) =
     (if c = dquote then
        (case cs of
           d # ds \<Rightarrow> if in_quotes \<and> d = dquote then csv2_loop vals (current @ [dquote]) in_quotes ds
                     else csv2_loop vals current (\<not> in_quotes) cs
         | [] \<Rightarrow> csv2_loop vals current (\<not> in_quotes) cs)
      else if c = CHR '','' \<and> \<not> in_quotes then csv2_loop (vals @ [trim current]) [] in_quotes cs
      else csv2_loop vals (current @ [c]) in_quotes cs)"

definition parse_csv2_line :: "string \<Rightarrow> string + string list" where
  "parse_csv2_line line = csv2_loop [] [] False line"

definition should_skip_beeline_line :: "string \<Rightarrow> bool" where
  "should_skip_beeline_line line =
     (let n = to_ascii_lowercase line in
      starts_with n ''connecting to'' \<or> starts_with n ''connected to''
      \<or> starts_with n ''jdbc:hive2://'' \<or> str_contains n '' rows selected''
      \<or> starts_with n ''warning:'' \<or> starts_with n ''info'')"

fun hive_rows_loop :: "string list \<Rightarrow> string list \<Rightarrow> string + field_query_result list list" where
  "hive_rows_loop names [] = Inr []"
| "hive_rows_loop names (line # lines) =
     (if should_skip_beeline_line line then hive_rows_loop names lines
      else res_bind (parse_csv2_line line) (\<lambda>vals.
        if length vals \<noteq> length names then hive_rows_loop names lines
        else res_bind (hive_rows_loop names lines) (\<lambda>rows.
          Inr (map (\<lambda>(f, v). \<lparr>fqr_field = f, fqr_value = v\<rparr>) (zip names vals) # rows))))"

definition parse_hive_csv_rows :: "string \<Rightarrow> string list \<Rightarrow> string + field_query_result list list" where
  "parse_hive_csv_rows stdout names =
     hive_rows_loop names (filter (\<lambda>l. l \<noteq> []) (map trim (str_lines stdout)))"

subsection \<open>Reading back what was printed\<close>

text \<open>A printer of the csv2 format that quotes every value.\<close>

definition csv2_quote :: "string \<Rightarrow> string" where
  "csv2_quote v = [dquote] @ replace_char dquote [dquote, dquote] v @ [dquote]"

definition csv2_line :: "string list \<Rightarrow> string" where
  "csv2_line vals = join '','' (map csv2_quote vals)"

lemma csv2_quoted_body:
  "r = [] \<or> hd r \<noteq> dquote \<Longrightarrow>
     csv2_loop vals current True (replace_char dquote [dquote, dquote] v @ dquote # r)
       = csv2_loop vals (current @ v) False r"
proof (induction v arbitrary: current)
  case Nil
  then show ?case by (cases r) (auto simp: replace_char_def)
next
  case (Cons c v)
  then show ?case by (simp add: replace_char_def)
qed

lemma csv2_quote_step:
  "r = [] \<or> hd r \<noteq> dquote \<Longrightarrow>
     csv2_loop vals [] False (csv2_quote v @ r) = csv2_loop vals v False r"
  using csv2_quoted_body [of r vals "[]" v]
  by (cases "replace_char dquote [dquote, dquote] v @ dquote # r") (auto simp: csv2_quote_def)

lemma csv2_loop_line:
  "ws \<noteq> [] \<Longrightarrow> csv2_loop vals [] False (join '','' (map csv2_quote ws)) = Inr (vals @ map trim ws)"
proof (induction ws arbitrary: vals)
  case (Cons w ws)
  show ?case
  proof (cases "ws = []")
    case True
    with csv2_quote_step [of "[]" vals w] show ?thesis by simp
  next
    case False
    have "csv2_loop vals [] False (csv2_quote w @ CHR '','' # join '','' (map csv2_quote ws))
        = csv2_loop (vals @ [trim w]) [] False (join '','' (map csv2_quote ws))"
      by (subst csv2_quote_step) simp_all
    with False Cons.IH [of "vals @ [trim w]"] show ?thesis by (simp add: join_Cons)
  qed
qed simp

lemma parse_csv2_line_quoted: "ws \<noteq> [] \<Longrightarrow> parse_csv2_line (csv2_line ws) = Inr (map trim ws)"
  by (simp add: parse_csv2_line_def csv2_line_def csv2_loop_line)

lemma csv2_line_ends:
  assumes "ws \<noteq> []"
  shows "csv2_line ws \<noteq> [] \<and> hd (csv2_line ws) = dquote \<and> last (csv2_line ws) = dquote"
  using assms
proof (induction ws)
  case (Cons w ws)
  then show ?case
    by (cases "ws = []") (auto simp: csv2_line_def join_Cons csv2_quote_def)
qed simp

lemma csv2_line_chars:
  "c \<in> set (csv2_line ws) \<Longrightarrow> c \<in> {dquote, CHR '',''} \<or> (\<exists>w \<in> set ws. c \<in> set w)"
proof (induction ws)
  case (Cons w ws)
  have "c \<in> set (csv2_quote w) \<Longrightarrow> c = dquote \<or> c \<in> set w"
    by (auto simp: csv2_quote_def replace_char_def split: if_splits)
  with Cons show ?case
    by (auto simp: csv2_line_def join_Cons split: if_splits)
qed (simp add: csv2_line_def)

definition unlines :: "string list \<Rightarrow> string" where
  "unlines ls = concat (map (\<lambda>l. l @ [CHR 0x0A]) ls)"

lemma split_on_unlines:
  "\<forall>l \<in> set ls. CHR 0x0A \<notin> set l \<Longrightarrow> split_on (CHR 0x0A) (unlines ls) = ls @ [[]]"
  by (induction ls) (simp_all add: unlines_def split_on_append)

text \<open>A quoted line is not taken for a message of the client unless it mentions selected rows.\<close>

lemma quoted_not_skipped:
  assumes "ws \<noteq> []" and "\<not> str_contains (to_ascii_lowercase (csv2_line ws)) '' rows selected''"
  shows "\<not> should_skip_beeline_line (csv2_line ws)"
proof -
  obtain r where r: "csv2_line ws = dquote # r"
    using csv2_line_ends [OF assms(1)] by (cases "csv2_line ws") auto
  have "to_ascii_lowercase_char dquote = dquote" by code_simp
  with r have "to_ascii_lowercase (csv2_line ws) = dquote # to_ascii_lowercase r"
    by (simp add: to_ascii_lowercase_def)
  with assms(2) show ?thesis
    by (simp add: should_skip_beeline_line_def Let_def starts_with_def)
qed

lemma dquote_not_ws: "\<not> is_ws dquote"
  by code_simp

lemma csv2_line_trim: "ws \<noteq> [] \<Longrightarrow> trim (csv2_line ws) = csv2_line ws"
  using csv2_line_ends [of ws] by (intro trim_id) (simp add: dquote_not_ws)

lemma csv2_line_strip: "ws \<noteq> [] \<Longrightarrow> strip_cr (csv2_line ws) = csv2_line ws"
  using csv2_line_ends [of ws] by (simp add: strip_cr_def)

definition printed_row :: "string list \<Rightarrow> string list \<Rightarrow> field_query_result list" where
  "printed_row names vals = map (\<lambda>(f, v). \<lparr>fqr_field = f, fqr_value = v\<rparr>) (zip names (map trim vals))"

lemma hive_rows_printed:
  assumes "names \<noteq> []"
    and "\<forall>vals \<in> set rows. length vals = length names \<and>
      \<not> str_contains (to_ascii_lowercase (csv2_line vals)) '' rows selected''"
  shows "hive_rows_loop names (map csv2_line rows) = Inr (map (printed_row names) rows)"
  using assms
proof (induction rows)
  case (Cons vals rows)
  then have ne: "vals \<noteq> []" by auto
  with Cons show ?case
    by (simp add: quoted_not_skipped parse_csv2_line_quoted printed_row_def)
qed simp

text \<open>
  C12. Rows survive the command line.  Rows printed in the csv2 format, one per line with every
  value quoted, are read back with each value trimmed, whatever quotes and commas the values
  contain, provided no value contains a line feed and no printed row contains, in any case of
  letters, the text \<open> rows selected\<close> that the client prints after a query (such a row is dropped).
\<close>

theorem hive_rows_round_trip:
  assumes "names \<noteq> []" and "\<forall>vals\<in>set rows. length vals = length names"
    and "\<forall>vals\<in>set rows. \<forall>v\<in>set vals. CHR 0x0A \<notin> set v"
    and "\<forall>vals\<in>set rows. \<not> str_contains (to_ascii_lowercase (csv2_line vals)) '' rows selected''"
  shows "parse_hive_csv_rows (unlines (map csv2_line rows)) names = Inr (map (printed_row names) rows)"
proof -
  have ne: "\<forall>vals \<in> set rows. vals \<noteq> []" using assms(1,2) by fastforce
  have nl: "\<forall>l \<in> set (map csv2_line rows). CHR 0x0A \<notin> set l"
    using assms(3) by (auto dest!: csv2_line_chars)
  have "filter (\<lambda>l. l \<noteq> []) (map trim (str_lines (unlines (map csv2_line rows)))) = map csv2_line rows"
    using ne by (simp add: str_lines_def split_on_unlines [OF nl] csv2_line_strip csv2_line_trim
        csv2_line_ends map_idI comp_def filter_id_conv)
  with hive_rows_printed [OF assms(1)] assms(2,4) show ?thesis
    by (simp add: parse_hive_csv_rows_def)
qed

definition sample_csv_rows :: "string list list" where
  "sample_csv_rows = [[''E, 1'', [dquote] @ ''x''], [''info'', []]]"

lemma hive_rows_round_trip_witness:
  "parse_hive_csv_rows (unlines (map csv2_line sample_csv_rows)) [''id'', ''name''] =
     Inr (map (printed_row [''id'', ''name'']) sample_csv_rows)"
proof (rule hive_rows_round_trip)
  show "\<forall>vals\<in>set sample_csv_rows. length vals = length [''id'', ''name'']" by code_simp
  show "\<forall>vals\<in>set sample_csv_rows. \<forall>v\<in>set vals. CHR 0x0A \<notin> set v" by code_simp
  show "\<forall>vals\<in>set sample_csv_rows.
      \<not> str_contains (to_ascii_lowercase (csv2_line vals)) '' rows selected''" by code_simp
qed simp

subsection \<open>Placeholders and error texts\<close>

lemma replace_inside:
  assumes "hd p \<notin> set pre" and "p \<noteq> []"
  shows "str_replace p r (pre @ s) = pre @ str_replace p r s"
  using assms
proof (induction pre)
  case (Cons c pre)
  then have "\<not> starts_with (c # pre @ s) p"
    by (cases p) (auto simp: starts_with_iff)
  with Cons show ?case by (subst str_replace.simps) auto
qed simp

text \<open>No placeholder of another name is taken for the one replaced.\<close>

lemma replace_other:
  assumes "hd p \<notin> set (tl q)" and "p \<noteq> []" and "q \<noteq> []"
    and "\<forall>s. \<not> starts_with (q @ s) p"
  shows "str_replace p r (q @ s) = q @ str_replace p r s"
proof (cases q)
  case (Cons c t)
  have "\<not> starts_with (c # t @ s) p"
    using assms(4)[rule_format, of s] Cons by simp
  then have "str_replace p r (c # t @ s) = c # str_replace p r (t @ s)"
    by (subst str_replace.simps) simp
  then show ?thesis using replace_inside [of p t r s] assms(1,2) Cons by simp
qed (use assms(3) in simp)

text \<open>
  Placeholders are expanded inside the statement.  The default way to pass a statement to a
  configured command is an argument with the placeholder for it, and the other placeholders are
  replaced after it, in the statement too: a filter value that is the text of the password
  placeholder is compared with the password of the connection.
\<close>

lemma hive_value_reads_password:
  assumes "CHR ''{'' \<notin> set pre" and "CHR ''{'' \<notin> set post"
    and "hive_config_string cfg ''password'' = Some secret"
  shows "replace_hive_placeholders cfg (pre @ ''{password}'' @ post) ''{sql}'' = pre @ secret @ post"
proof -
  let ?sql = "pre @ ''{password}'' @ post"
  have keep: "str_replace p r ?sql = ?sql"
    if "p \<in> {''{connection_uri}'', ''{jdbc_url}'', ''{username}''}" for p r
  proof -
    have hd: "hd p = CHR ''{''" "p \<noteq> []" using that by auto
    have other: "\<forall>s. \<not> starts_with (''{password}'' @ s) p" "hd p \<notin> set (tl ''{password}'')"
      using that by (auto simp: starts_with_def)
    have "str_replace p r ?sql = pre @ str_replace p r (''{password}'' @ post)"
      using hd assms(1) by (intro replace_inside) simp_all
    also have "str_replace p r (''{password}'' @ post) = ''{password}'' @ str_replace p r post"
      using other hd by (intro replace_other) simp_all
    also have "str_replace p r post = post"
      using hd assms(2) by (intro str_replace_no_start) simp
    finally show ?thesis .
  qed
  have sql: "str_replace ''{sql}'' ?sql ''{sql}'' = ?sql"
    using str_replace_head [of "''{sql}''" ?sql "[]"] by simp
  have "str_replace ''{password}'' secret ?sql = pre @ str_replace ''{password}'' secret (''{password}'' @ post)"
    using assms(1) by (intro replace_inside) simp_all
  also have "\<dots> = pre @ secret @ post"
    using assms(2) by (simp only: str_replace_head list.distinct simp_thms) (simp add: str_replace_no_start)
  finally have pw: "str_replace ''{password}'' secret ?sql = pre @ secret @ post" .
  show ?thesis
    unfolding replace_hive_placeholders_def Let_def sql
    by (simp only: keep insertI1 insertI2 assms(3) option_or_def option.case pw)
qed

definition sample_hive_config :: data_source_config where
  "sample_hive_config = \<lparr>dc_data_source_id = ''hive'', dc_source_type = Hive,
     dc_connection_uri = ''jdbc:hive2://h'',
     dc_adapter_config = JObject [(''password'', JString ''pw'')]\<rparr>"

lemma hive_value_reads_password_witness:
  "replace_hive_placeholders sample_hive_config
     (''SELECT id FROM t WHERE c = '' @ ''{password}'' @ '' LIMIT 1'') ''{sql}''
     = ''SELECT id FROM t WHERE c = '' @ ''pw'' @ '' LIMIT 1''"
proof (rule hive_value_reads_password)
  show "hive_config_string sample_hive_config ''password'' = Some ''pw''" by code_simp
qed simp_all

lemma utf8_prefix_len: "utf8_prefix n s = Some p \<Longrightarrow> utf8_len p = n"
proof (induction n s arbitrary: p rule: utf8_prefix.induct)
  case (2 n c cs)
  then show ?case by (auto simp: utf8_len_def split: if_splits)
qed (auto simp: utf8_len_def split: if_splits)

lemma utf8_len_append: "utf8_len (a @ b) = utf8_len a + utf8_len b"
  by (simp add: utf8_len_def)

lemma utf8_len_trim: "utf8_len (trim s) \<le> utf8_len s"
proof -
  have drop: "utf8_len (trim_start t) \<le> utf8_len t" for t
    by (induction t) (auto simp: trim_start_def utf8_len_def)
  have rev: "utf8_len (rev t) = utf8_len t" for t
    by (simp add: utf8_len_def rev_map [symmetric] sum_list_rev)
  have "utf8_len (trim s) = utf8_len (trim_start (rev (trim_start s)))"
    by (simp add: trim_def rev)
  also have "\<dots> \<le> utf8_len (rev (trim_start s))" by (rule drop)
  also have "\<dots> \<le> utf8_len s" using drop by (simp add: rev)
  finally show ?thesis .
qed

lemma utf8_prefix_wide:
  "odd n \<Longrightarrow> utf8_prefix n (replicate k (CHR 0xE9)) = None"
proof (induction k arbitrary: n)
  case (Suc k)
  then show ?case
  proof (cases "n < 2")
    case True
    with Suc show ?thesis by (simp add: utf8_width_def code_of_def odd_pos)
  next
    case False
    with Suc have "utf8_prefix (n - 2) (replicate k (CHR 0xE9)) = None" by simp
    with Suc False show ?thesis by (simp add: utf8_width_def code_of_def)
  qed
qed (auto elim: oddE)

text \<open>
  Error texts are bounded, when there is one.  The text made of the output of a failed
  command has at most 803 bytes; but for some outputs longer than 800 bytes, those in which byte
  800 is inside a character, the code panics instead of reporting the failure.
\<close>

lemma error_text_bounded_or_panics:
  "(truncate_for_error v = Some t \<longrightarrow> utf8_len t \<le> 803) \<and>
   (truncate_for_error v = None \<longleftrightarrow> 800 < utf8_len v \<and> utf8_prefix 800 v = None) \<and>
   truncate_for_error (CHR ''x'' # replicate 400 (CHR 0xE9)) = None"
proof (intro conjI impI)
  show "utf8_len t \<le> 803" if "truncate_for_error v = Some t"
    using that utf8_len_trim [of v]
    by (auto simp: truncate_for_error_def utf8_len_append utf8_prefix_len split: if_splits)
      (auto simp: utf8_len_def utf8_width_def code_of_def)
  show "truncate_for_error v = None \<longleftrightarrow> 800 < utf8_len v \<and> utf8_prefix 800 v = None"
    by (auto simp: truncate_for_error_def)
  have "utf8_len (CHR ''x'' # replicate 400 (CHR 0xE9)) = 801"
    by (simp add: utf8_len_def utf8_width_def code_of_def sum_list_replicate)
  moreover have "utf8_prefix 800 (CHR ''x'' # replicate 400 (CHR 0xE9)) = None"
    using utf8_prefix_wide [of 799 400] by (simp add: utf8_width_def code_of_def)
  ultimately show "truncate_for_error (CHR ''x'' # replicate 400 (CHR 0xE9)) = None"
    by (simp add: truncate_for_error_def)
qed

lemma error_text_bounded_or_panics_witness:
  "utf8_len (the (truncate_for_error ''exit 1'')) \<le> 803"
proof -
  have "truncate_for_error ''exit 1'' = Some ''exit 1''" by code_simp
  then show ?thesis using error_text_bounded_or_panics [of "''exit 1''" "''exit 1''"] by simp
qed

end
