(* ===== verification/SourceAdapters.thy ===== *)
theory SourceAdapters
  imports HiveText
begin

text \<open>
  The adapters of \<open>adapters.rs\<close> and the registry that chooses one by the configuration of the data
  source.  What the adapters talk to is the record \<open>source_env\<close>: the answers of an HTTP endpoint,
  of a Postgres pool and of a spawned command, and the scheme that a URL parser finds.  A row of
  a response is a map from column names to values.  An adapter that panics returns \<open>None\<close>.
\<close>

subsection \<open>The environment\<close>

type_synonym source_row = "string \<Rightarrow> string option"

datatype http_request =
    HttpGet string string "filter_condition list"
  | HttpPost string unified_query

datatype run_outcome =
    RunSpawnError string | RunPollError string | RunStdoutError string | RunStderrError string
  | RunExited bool string string string

record source_env =
  se_http :: "http_request \<Rightarrow> string + source_row list"
  se_sql_connect :: "string \<Rightarrow> string option"
  se_sql_fetch :: "string \<Rightarrow> string \<Rightarrow> string + source_row list"
  se_run :: "string \<Rightarrow> string list \<Rightarrow> run_outcome"
  se_url_scheme :: "string \<Rightarrow> string + string"

definition project_row :: "source_row \<Rightarrow> unified_query \<Rightarrow> field_query_result list" where
  "project_row row q =
     map (\<lambda>f. \<lparr>fqr_field = fs_str f, fqr_value = option_or (row (fs_str f)) ''NULL''\<rparr>) (uq_fields q)"

datatype health_status = HealthHealthy | HealthDegraded | HealthUnavailable

record health_check =
  hc_status :: health_status
  hc_message :: "string option"

definition health_healthy :: health_check where
  "health_healthy = \<lparr>hc_status = HealthHealthy, hc_message = None\<rparr>"

definition health_degraded :: "string \<Rightarrow> health_check" where
  "health_degraded m = \<lparr>hc_status = HealthDegraded, hc_message = Some m\<rparr>"

definition health_unavailable :: "string \<Rightarrow> health_check" where
  "health_unavailable m = \<lparr>hc_status = HealthUnavailable, hc_message = Some m\<rparr>"

subsection \<open>The adapters\<close>

datatype adapter =
    MockRest | MockRpc | MockHive
  | HttpRest string | HttpRpc string | SqlSource data_source_config
  | HiveJdbcCli data_source_config

fun adapter_capabilities :: "adapter \<Rightarrow> source_capabilities" where
  "adapter_capabilities MockRest = rest_defaults"
| "adapter_capabilities MockRpc = rpc_defaults"
| "adapter_capabilities MockHive = sql_defaults"
| "adapter_capabilities (HttpRest _) = rest_defaults"
| "adapter_capabilities (HttpRpc _) = rpc_defaults"
| "adapter_capabilities (SqlSource _) = sql_defaults"
| "adapter_capabilities (HiveJdbcCli _) = sql_defaults"

definition mock_rest_rows :: "source_row list" where
  "mock_rest_rows =
     [map_of [(''employee_id'', ''E-100''), (''employee_email'', ''alice@example.com''), (''department'', ''fraud'')],
      map_of [(''employee_id'', ''E-200''), (''employee_email'', ''bob@example.com''), (''department'', ''risk'')]]"

definition mock_rpc_rows :: "source_row list" where
  "mock_rpc_rows =
     [map_of [(''employee_id'', ''R-100''), (''employee_email'', ''rpc@example.com''), (''department'', ''rpc'')]]"

definition mock_hive_rows :: "source_row list" where
  "mock_hive_rows =
     [map_of [(''employee_id'', ''H-100''), (''employee_email'', ''hive@example.com''), (''department'', ''archive'')]]"

definition adapter_result :: "string \<Rightarrow> source_row list \<Rightarrow> unified_query \<Rightarrow> query_result" where
  "adapter_result task rows q =
     \<lparr>qr_task_id = task, qr_rows = map (\<lambda>row. project_row row q) rows, qr_status = QueryCompleted\<rparr>"

definition http_rest_execute :: "source_env \<Rightarrow> string \<Rightarrow> unified_query \<Rightarrow> string + query_result" where
  "http_rest_execute env endpoint q =
     res_bind (se_http env (HttpGet endpoint (join '','' (map fs_str (uq_fields q))) (uq_conditions q)))
       (\<lambda>rows. Inr (adapter_result ''rest-http'' rows q))"

definition http_rpc_execute :: "source_env \<Rightarrow> string \<Rightarrow> unified_query \<Rightarrow> string + query_result" where
  "http_rpc_execute env endpoint q =
     res_bind (se_http env (HttpPost endpoint q)) (\<lambda>rows. Inr (adapter_result ''rpc-http'' rows q))"

definition sql_execute :: "source_env \<Rightarrow> data_source_config \<Rightarrow> unified_query \<Rightarrow> string + query_result" where
  "sql_execute env cfg q =
     (case se_sql_connect env (dc_connection_uri cfg) of
        Some e \<Rightarrow> Inl e
      | None \<Rightarrow>
          res_bind (sql_select (option_or (config_str cfg ''table'') ''stage6_employee_rows'') q) (\<lambda>sql.
          res_bind (se_sql_fetch env (dc_connection_uri cfg) sql) (\<lambda>rows.
            Inr \<lparr>qr_task_id = ''sql-adapter'',
                 qr_rows = map (\<lambda>row. map (\<lambda>f. \<lparr>fqr_field = fs_str f,
                                              fqr_value = option_or (row (fs_str f)) []\<rparr>) (uq_fields q)) rows,
                 qr_status = QueryCompleted\<rparr>)))"

definition run_hive_cli :: "source_env \<Rightarrow> data_source_config \<Rightarrow> string \<Rightarrow> (string + string) option" where
  "run_hive_cli env cfg sql =
     (case hive_cli_invocation cfg sql of
        Inl e \<Rightarrow> Some (Inl e)
      | Inr iv \<Rightarrow>
          (case se_run env (hi_command iv) (hi_args iv) of
             RunSpawnError e \<Rightarrow> Some (Inl (''failed to spawn Hive JDBC command: '' @ e))
           | RunPollError e \<Rightarrow> Some (Inl (''failed to poll Hive JDBC command: '' @ e))
           | RunStdoutError e \<Rightarrow> Some (Inl (''failed to join Hive stdout reader: '' @ e))
           | RunStderrError e \<Rightarrow> Some (Inl (''failed to join Hive stderr reader: '' @ e))
           | RunExited ok status stdout stderr \<Rightarrow>
               if ok then Some (Inr stdout)
               else map_option
                 (\<lambda>t. Inl (''Hive JDBC command failed with status '' @ status @ '': '' @ t))
                 (truncate_for_error stderr)))"

definition hive_execute ::
  "source_env \<Rightarrow> data_source_config \<Rightarrow> unified_query \<Rightarrow> (string + query_result) option" where
  "hive_execute env cfg q =
     (case hive_select_sql (option_or (config_str cfg ''table'') ''sdqp_fixture_employees'') q of
        Inl e \<Rightarrow> Some (Inl e)
      | Inr sql \<Rightarrow>
          map_option (\<lambda>r. res_bind r (\<lambda>stdout.
              res_bind (parse_hive_csv_rows stdout (map fs_str (uq_fields q))) (\<lambda>rows.
                Inr \<lparr>qr_task_id = ''hive-jdbc-cli'', qr_rows = rows, qr_status = QueryCompleted\<rparr>)))
            (run_hive_cli env cfg sql))"

fun adapter_execute ::
  "source_env \<Rightarrow> adapter \<Rightarrow> unified_query \<Rightarrow> (string + query_result) option" where
  "adapter_execute env MockRest q = Some (Inr (adapter_result ''rest-adapter'' mock_rest_rows q))"
| "adapter_execute env MockRpc q = Some (Inr (adapter_result ''rpc-adapter'' mock_rpc_rows q))"
| "adapter_execute env MockHive q = Some (Inr (adapter_result ''hive-adapter'' mock_hive_rows q))"
| "adapter_execute env (HttpRest endpoint) q = Some (http_rest_execute env endpoint q)"
| "adapter_execute env (HttpRpc endpoint) q = Some (http_rpc_execute env endpoint q)"
| "adapter_execute env (SqlSource cfg) q = Some (sql_execute env cfg q)"
| "adapter_execute env (HiveJdbcCli cfg) q = hive_execute env cfg q"

definition validate_http_endpoint :: "source_env \<Rightarrow> string \<Rightarrow> string + unit" where
  "validate_http_endpoint env endpoint =
     res_bind (se_url_scheme env endpoint) (\<lambda>scheme.
       if scheme = ''http'' \<or> scheme = ''https'' then Inr ()
       else Inl (''unsupported http adapter scheme: '' @ scheme))"

fun adapter_connect ::
  "source_env \<Rightarrow> adapter \<Rightarrow> data_source_config \<Rightarrow> (string + unit) option" where
  "adapter_connect env (HttpRest _) cfg = Some (validate_http_endpoint env (dc_connection_uri cfg))"
| "adapter_connect env (HttpRpc _) cfg = Some (validate_http_endpoint env (dc_connection_uri cfg))"
| "adapter_connect env (SqlSource _) cfg =
     Some (if trim (dc_connection_uri cfg) = [] then Inl ''empty sql connection uri'' else Inr ())"
| "adapter_connect env (HiveJdbcCli own) cfg =
     (case validate_hive_jdbc_config cfg of
        Inl e \<Rightarrow> Some (Inl e)
      | Inr _ \<Rightarrow>
          map_option (\<lambda>r. res_bind r (\<lambda>_. Inr ()))
            (run_hive_cli env own (option_or (hive_config_string cfg ''connect_validation_sql'') ''SELECT 1'')))"
| "adapter_connect env _ cfg = Some (Inr ())"

definition endpoint_health :: "source_env \<Rightarrow> string \<Rightarrow> health_check" where
  "endpoint_health env endpoint =
     (case validate_http_endpoint env endpoint of
        Inl e \<Rightarrow> health_unavailable e | Inr _ \<Rightarrow> health_healthy)"

fun adapter_health :: "source_env \<Rightarrow> adapter \<Rightarrow> health_check option" where
  "adapter_health env (HttpRest endpoint) = Some (endpoint_health env endpoint)"
| "adapter_health env (HttpRpc endpoint) = Some (endpoint_health env endpoint)"
| "adapter_health env (SqlSource cfg) =
     Some (if trim (dc_connection_uri cfg) = [] then health_unavailable ''empty sql connection uri''
           else health_healthy)"
| "adapter_health env (HiveJdbcCli cfg) =
     (case validate_hive_jdbc_config cfg of
        Inl e \<Rightarrow> Some (health_unavailable e)
      | Inr _ \<Rightarrow>
          map_option (\<lambda>r. case r of Inl e \<Rightarrow> health_unavailable e | Inr _ \<Rightarrow> health_healthy)
            (run_hive_cli env cfg (option_or (hive_config_string cfg ''health_sql'') ''SELECT 1'')))"
| "adapter_health env _ = Some health_healthy"

subsection \<open>Choosing an adapter\<close>

fun mock_adapter :: "source_type \<Rightarrow> adapter" where
  "mock_adapter Rest = MockRest"
| "mock_adapter Rpc = MockRpc"
| "mock_adapter Hive = MockHive"
| "mock_adapter Rdbms = MockHive"

definition configured_adapter :: "data_source_config \<Rightarrow> adapter" where
  "configured_adapter cfg =
     (case dc_source_type cfg of
        Rest \<Rightarrow> HttpRest (dc_connection_uri cfg)
      | Rpc \<Rightarrow> HttpRpc (dc_connection_uri cfg)
      | Hive \<Rightarrow> if \<not> uses_sql_adapter_for_hive cfg then HiveJdbcCli cfg else SqlSource cfg
      | Rdbms \<Rightarrow> SqlSource cfg)"

definition uses_mock_transport :: "string \<Rightarrow> bool" where
  "uses_mock_transport uri =
     (case utf8_prefix 7 uri of Some p \<Rightarrow> eq_ignore_ascii_case p ''mock://'' | None \<Rightarrow> False)"

definition adapter_for_config :: "data_source_config \<Rightarrow> adapter" where
  "adapter_for_config cfg =
     (if uses_mock_transport (dc_connection_uri cfg) then mock_adapter (dc_source_type cfg)
      else configured_adapter cfg)"

definition forced_query_error :: "data_source_config \<Rightarrow> string option" where
  "forced_query_error cfg = config_str cfg ''force_error''"

definition forced_health_check :: "data_source_config \<Rightarrow> health_check option" where
  "forced_health_check cfg =
     (case config_str cfg ''force_health_status'' of
        None \<Rightarrow> None
      | Some status \<Rightarrow>
          let s = to_ascii_lowercase status; m = config_str cfg ''force_health_message'' in
          if s = ''healthy'' then Some health_healthy
          else if s = ''degraded'' then Some (health_degraded (option_or m ''forced degraded health''))
          else if s = ''unavailable'' then Some (health_unavailable (option_or m ''forced unavailable health''))
          else None)"

fun source_type_label :: "source_type \<Rightarrow> string" where
  "source_type_label Rest = ''rest''"
| "source_type_label Rpc = ''rpc''"
| "source_type_label Hive = ''hive''"
| "source_type_label Rdbms = ''rdbms''"

definition default_mock_config :: "string \<Rightarrow> source_type \<Rightarrow> data_source_config" where
  "default_mock_config sid st =
     \<lparr>dc_data_source_id = sid, dc_source_type = st, dc_connection_uri = ''mock://'' @ source_type_label st,
      dc_adapter_config = JNull\<rparr>"

subsection \<open>The registry\<close>

type_synonym adapter_registry = "string \<Rightarrow> data_source_config option"

definition registry_from_configs :: "data_source_config list \<Rightarrow> adapter_registry" where
  "registry_from_configs cfgs = map_of (rev (map (\<lambda>c. (dc_data_source_id c, c)) cfgs))"

definition registry_upsert :: "adapter_registry \<Rightarrow> data_source_config \<Rightarrow> adapter_registry" where
  "registry_upsert reg cfg = reg(dc_data_source_id cfg \<mapsto> cfg)"

definition registry_capabilities :: "adapter_registry \<Rightarrow> string \<Rightarrow> source_type \<Rightarrow> source_capabilities" where
  "registry_capabilities reg sid st =
     (case reg sid of Some cfg \<Rightarrow> capabilities_for_source (dc_source_type cfg)
      | None \<Rightarrow> adapter_capabilities (mock_adapter st))"

definition registry_config :: "adapter_registry \<Rightarrow> string \<Rightarrow> source_type \<Rightarrow> data_source_config" where
  "registry_config reg sid st = option_or (reg sid) (default_mock_config sid st)"

definition registry_connect ::
  "source_env \<Rightarrow> adapter_registry \<Rightarrow> string \<Rightarrow> source_type \<Rightarrow> (string + unit) option" where
  "registry_connect env reg sid st =
     (let cfg = registry_config reg sid st in adapter_connect env (adapter_for_config cfg) cfg)"

definition registry_disconnect :: "adapter_registry \<Rightarrow> string \<Rightarrow> source_type \<Rightarrow> string + unit" where
  "registry_disconnect reg sid st = Inr ()"

definition registry_health_check ::
  "source_env \<Rightarrow> adapter_registry \<Rightarrow> string \<Rightarrow> source_type \<Rightarrow> health_check option" where
  "registry_health_check env reg sid st =
     (let cfg = registry_config reg sid st in
      case forced_health_check cfg of
        Some h \<Rightarrow> Some h
      | None \<Rightarrow> adapter_health env (adapter_for_config cfg))"

text \<open>\<open>execute_planned_query\<close> for an adapter that may panic.\<close>

definition execute_planned_partial ::
  "float_cmp \<Rightarrow> source_capabilities \<Rightarrow> (unified_query \<Rightarrow> (string + query_result) option)
     \<Rightarrow> unified_query \<Rightarrow> (string + query_result) option" where
  "execute_planned_partial fcmp caps adapter q =
     (case build_execution_query q (build_execution_plan caps q) of
        Inl e \<Rightarrow> Some (Inl e)
      | Inr eq \<Rightarrow>
          map_option (\<lambda>r. res_bind r (\<lambda>result. Inr (finalize_query_result fcmp q result))) (adapter eq))"

definition registry_execute_query ::
  "float_cmp \<Rightarrow> source_env \<Rightarrow> adapter_registry \<Rightarrow> string \<Rightarrow> source_type \<Rightarrow> unified_query
     \<Rightarrow> (string + query_result) option" where
  "registry_execute_query fcmp env reg sid st q =
     (case reg sid of
        None \<Rightarrow>
          execute_planned_partial fcmp (adapter_capabilities (mock_adapter st))
            (adapter_execute env (mock_adapter st)) q
      | Some cfg \<Rightarrow>
          (case forced_query_error cfg of
             Some e \<Rightarrow> Some (Inl e)
           | None \<Rightarrow>
               execute_planned_partial fcmp (adapter_capabilities (adapter_for_config cfg))
                 (adapter_execute env (adapter_for_config cfg)) q))"

subsection \<open>What the registry keeps of the planned query\<close>

text \<open>An adapter that does not panic, from one that may.\<close>

definition answered :: "(unified_query \<Rightarrow> (string + query_result) option) \<Rightarrow> unified_query \<Rightarrow> string + query_result" where
  "answered adapter q = (case adapter q of Some r \<Rightarrow> r | None \<Rightarrow> Inl [])"

lemma execute_planned_partial_Some:
  "execute_planned_partial fcmp caps adapter q = Some r \<Longrightarrow>
     r = execute_planned_query fcmp caps (answered adapter) q"
  by (auto simp: execute_planned_partial_def execute_planned_query_def Let_def answered_def
      split: sum.splits)

lemma execute_planned_partial_None:
  "execute_planned_partial fcmp caps adapter q = None \<Longrightarrow> \<exists>eq. adapter eq = None"
  by (auto simp: execute_planned_partial_def split: sum.splits)

lemma capabilities_of_choice:
  "adapter_capabilities (adapter_for_config cfg) = capabilities_for_source (dc_source_type cfg)"
  by (cases "dc_source_type cfg") (simp_all add: adapter_for_config_def configured_adapter_def)

lemma registry_execute_Some:
  assumes "registry_execute_query fcmp env reg sid st q = Some r"
  shows "(\<exists>cfg e. reg sid = Some cfg \<and> forced_query_error cfg = Some e \<and> r = Inl e) \<or>
    (\<exists>ad. r = execute_planned_query fcmp (registry_capabilities reg sid st)
       (answered (adapter_execute env ad)) q)"
proof (cases "reg sid")
  case None
  with assms show ?thesis
    by (auto simp: registry_execute_query_def registry_capabilities_def
        dest!: execute_planned_partial_Some)
next
  case (Some cfg)
  show ?thesis
  proof (cases "forced_query_error cfg")
    case None
    with assms Some have "r = execute_planned_query fcmp (registry_capabilities reg sid st)
        (answered (adapter_execute env (adapter_for_config cfg))) q"
      by (intro execute_planned_partial_Some)
        (simp add: registry_execute_query_def registry_capabilities_def capabilities_of_choice)
    then show ?thesis by blast
  qed (use assms Some in \<open>auto simp: registry_execute_query_def\<close>)
qed

lemma adapter_execute_None:
  assumes "adapter_execute env ad q = None"
  shows "\<exists>hive command args status stdout stderr. ad = HiveJdbcCli hive \<and>
    se_run env command args = RunExited False status stdout stderr \<and> truncate_for_error stderr = None"
proof -
  obtain cfg where cfg: "ad = HiveJdbcCli cfg" "hive_execute env cfg q = None"
    using assms by (cases ad) auto
  then obtain sql where "run_hive_cli env cfg sql = None"
    by (auto simp: hive_execute_def split: sum.splits)
  then obtain iv :: hive_invocation and status stdout stderr where
      "se_run env (hi_command iv) (hi_args iv) = RunExited False status stdout stderr"
      "truncate_for_error stderr = None"
    by (auto simp: run_hive_cli_def split: sum.splits run_outcome.splits if_splits)
  with cfg(1) show ?thesis by blast
qed

text \<open>
  Planning agrees with execution.  The capabilities the registry reports for a data source are
  those of the adapter it runs the query on, so the plan shown to a caller is the plan that is
  executed; without a forced error the query runs as planned on one adapter, or it panics, and
  it panics only in the Hive adapter, over the error output of a failed command.
\<close>

lemma registry_runs_the_plan:
  assumes "Option.bind (reg sid) forced_query_error = None"
  shows "\<exists>ad. adapter_capabilities ad = registry_capabilities reg sid st \<and>
    registry_execute_query fcmp env reg sid st q =
      execute_planned_partial fcmp (registry_capabilities reg sid st) (adapter_execute env ad) q \<and>
    (registry_execute_query fcmp env reg sid st q = None \<longrightarrow>
      (\<exists>hive command args status stdout stderr. ad = HiveJdbcCli hive \<and>
         se_run env command args = RunExited False status stdout stderr \<and>
         truncate_for_error stderr = None))"
proof -
  define ad where "ad = (case reg sid of Some c \<Rightarrow> adapter_for_config c | None \<Rightarrow> mock_adapter st)"
  have caps: "adapter_capabilities ad = registry_capabilities reg sid st"
    by (simp add: ad_def registry_capabilities_def capabilities_of_choice split: option.splits)
  have run: "registry_execute_query fcmp env reg sid st q =
      execute_planned_partial fcmp (registry_capabilities reg sid st) (adapter_execute env ad) q"
  proof (cases "reg sid")
    case None
    then have "ad = mock_adapter st" by (simp add: ad_def)
    with None show ?thesis by (simp only: registry_execute_query_def caps [symmetric] option.case)
  next
    case (Some cfg)
    then have "ad = adapter_for_config cfg" "forced_query_error cfg = None"
      using assms by (simp_all add: ad_def)
    with Some show ?thesis by (simp only: registry_execute_query_def caps [symmetric] option.case)
  qed
  have "\<exists>hive command args status stdout stderr. ad = HiveJdbcCli hive \<and>
      se_run env command args = RunExited False status stdout stderr \<and> truncate_for_error stderr = None"
    if "registry_execute_query fcmp env reg sid st q = None"
  proof -
    have "execute_planned_partial fcmp (registry_capabilities reg sid st) (adapter_execute env ad) q = None"
      using that by (simp only: run)
    then obtain eq where "adapter_execute env ad eq = None"
      by (blast dest: execute_planned_partial_None)
    then show ?thesis by (rule adapter_execute_None)
  qed
  with caps run show ?thesis by (intro exI [of _ ad] conjI impI)
qed

definition sample_source_env :: source_env where
  "sample_source_env =
     \<lparr>se_http = (\<lambda>_. Inl ''refused''), se_sql_connect = (\<lambda>_. None),
      se_sql_fetch = (\<lambda>uri sql. Inr [map_of [(''name'', ''Ann''), (''region'', ''eu'')]]),
      se_run = (\<lambda>_ _. RunExited True ''0'' [] []), se_url_scheme = (\<lambda>_. Inr ''https'')\<rparr>"

definition sample_sql_config :: data_source_config where
  "sample_sql_config = \<lparr>dc_data_source_id = ''people'', dc_source_type = Rdbms,
     dc_connection_uri = ''postgres://db'', dc_adapter_config = JNull\<rparr>"

lemma registry_runs_the_plan_witness:
  "\<exists>ad. adapter_capabilities ad = sql_defaults \<and>
    registry_execute_query (\<lambda>_ _. None) sample_source_env (registry_from_configs [sample_sql_config])
      ''people'' Rdbms sample_sql_query =
    execute_planned_partial (\<lambda>_ _. None) sql_defaults (adapter_execute sample_source_env ad) sample_sql_query"
proof -
  let ?reg = "registry_from_configs [sample_sql_config]"
  have cfg: "?reg ''people'' = Some sample_sql_config"
    by (simp add: registry_from_configs_def sample_sql_config_def)
  have forced: "forced_query_error sample_sql_config = None"
    by (simp add: forced_query_error_def config_str_def sample_sql_config_def)
  have caps: "registry_capabilities ?reg ''people'' Rdbms = sql_defaults"
    by (simp add: registry_capabilities_def cfg) (simp add: sample_sql_config_def)
  have "Option.bind (?reg ''people'') forced_query_error = None"
    using forced by (simp add: cfg)
  from registry_runs_the_plan [where reg = ?reg and sid = "''people''" and st = Rdbms and fcmp = "\<lambda>_ _. None"
      and env = sample_source_env and q = sample_sql_query, OF this]
  show ?thesis unfolding caps by blast
qed

end
