(* ===== verification/AdapterScheduler.thy ===== *)
theory AdapterScheduler
  imports CircuitTask SourceAdapters
begin

text \<open>
  The scheduler of adapter queries, \<open>scheduler.rs\<close>.  Its state is shared by concurrent tasks and
  guarded by three mutexes, for the runtimes, the tasks and the circuit breaker, which are never
  held together; an operation is a sequence of critical sections.  Each section is a function
  here, and an execution of a query is a program counter that says which section comes next.
  The theory \<open>SchedulerRuns\<close> interleaves them.

  A semaphore is a pair of its permits and the permits held.  A circuit snapshot that a section
  uses was taken before, under another lock, so the sections take it as an argument.
\<close>

subsection \<open>Data\<close>

datatype runtime_state =
    RtRegistered | RtStarting | RtHealthy | RtDegraded | RtStopping | RtStopped | RtUnavailable

datatype availability = AvailAvailable | AvailDegraded | AvailUnavailable

datatype query_state = QsPending | QsRunning | QsCompleted | QsFailed | QsCancelled

record health_snapshot =
  hs_data_source_id :: string
  hs_source_type :: source_type
  hs_lifecycle_state :: runtime_state
  hs_availability :: availability
  hs_registered_at :: time
  hs_last_started_at :: "time option"
  hs_last_stopped_at :: "time option"
  hs_last_health_check_at :: "time option"
  hs_queued_tasks :: nat
  hs_running_tasks :: nat
  hs_completed_tasks :: nat
  hs_failed_tasks :: nat
  hs_cancelled_tasks :: nat
  hs_total_submitted_tasks :: nat
  hs_consecutive_failures :: "32 word"
  hs_circuit_open :: bool
  hs_retry_after_ms :: "nat option"
  hs_last_error :: "string option"

record query_task_snapshot =
  qt_task_id :: string
  qt_data_source_id :: string
  qt_source_type :: source_type
  qt_state :: query_state
  qt_submitted_at :: time
  qt_started_at :: "time option"
  qt_completed_at :: "time option"
  qt_priority :: int
  qt_attempts :: nat
  qt_error :: "string option"

text \<open>Durations are natural numbers of nanoseconds, at most that of \<open>Duration::MAX\<close>.\<close>

definition duration_max :: nat where
  "duration_max = (2 ^ 64 - 1) * 1000000000 + 999999999"

record retry_policy =
  ry_max_attempts :: nat
  ry_initial_backoff :: nat
  ry_max_backoff :: nat

definition retry_policy_default :: retry_policy where
  "retry_policy_default = \<lparr>ry_max_attempts = 2, ry_initial_backoff = 50000000, ry_max_backoff = 1000000000\<rparr>"

record scheduler_config =
  sg_circuit_failure_threshold :: "32 word"
  sg_circuit_retry_backoff :: time
  sg_retry_policy :: retry_policy
  sg_rest_concurrency :: nat
  sg_rpc_concurrency :: nat
  sg_hive_concurrency :: nat
  sg_rdbms_concurrency :: nat

definition scheduler_config_default :: scheduler_config where
  "scheduler_config_default =
     \<lparr>sg_circuit_failure_threshold = 2, sg_circuit_retry_backoff = 30000000000,
      sg_retry_policy = retry_policy_default, sg_rest_concurrency = 8, sg_rpc_concurrency = 8,
      sg_hive_concurrency = 2, sg_rdbms_concurrency = 4\<rparr>"

definition concurrency_for_source :: "scheduler_config \<Rightarrow> source_type \<Rightarrow> nat" where
  "concurrency_for_source cfg st =
     max 1 (case st of Rest \<Rightarrow> sg_rest_concurrency cfg | Rpc \<Rightarrow> sg_rpc_concurrency cfg
            | Hive \<Rightarrow> sg_hive_concurrency cfg | Rdbms \<Rightarrow> sg_rdbms_concurrency cfg)"

definition adapter_config_concurrency :: "data_source_config \<Rightarrow> nat \<Rightarrow> nat" where
  "adapter_config_concurrency cfg n0 =
     (case Option.bind (json_get ''max_concurrent_tasks'' (dc_adapter_config cfg)) json_u64 of
        Some n \<Rightarrow> if 0 < n then n else n0
      | None \<Rightarrow> n0)"

definition backoff_duration :: "retry_policy \<Rightarrow> nat \<Rightarrow> nat" where
  "backoff_duration p attempts =
     (let multiplier = min (2 ^ 32 - 1) (2 ^ (attempts - 1)) in
      min (min duration_max (ry_initial_backoff p * multiplier)) (ry_max_backoff p))"

definition duration_millis_u64 :: "time \<Rightarrow> nat" where
  "duration_millis_u64 d = min (2 ^ 64 - 1) (nat (d div 1000000))"

definition is_retryable_adapter_error :: "string \<Rightarrow> bool" where
  "is_retryable_adapter_error e =
     (let n = to_ascii_lowercase e in
      \<not> list_ex (\<lambda>marker. str_contains n marker)
        [''unauthorized'', ''forbidden'', ''permission'', ''invalid identifier'', ''unsupported''])"

fun is_terminal_query_state :: "query_state \<Rightarrow> bool" where
  "is_terminal_query_state QsCompleted = True"
| "is_terminal_query_state QsFailed = True"
| "is_terminal_query_state QsCancelled = True"
| "is_terminal_query_state _ = False"

record scheduled_request =
  rq_task :: string
  rq_source :: string
  rq_source_type :: source_type
  rq_query :: unified_query
  rq_priority :: int

datatype scheduler_error_kind = SchedUnavailable | SchedCancelled | SchedTimeout | SchedExecutionFailed

record scheduler_error =
  se_kind :: scheduler_error_kind
  se_message :: string
  se_attempts :: nat
  se_runtime :: "health_snapshot option"

record scheduled_result =
  sr_result :: query_result
  sr_attempts :: nat
  sr_runtime :: health_snapshot

record runtime_record =
  rt_config :: data_source_config
  rt_state :: runtime_state
  rt_registered_at :: time
  rt_last_started_at :: "time option"
  rt_last_stopped_at :: "time option"
  rt_last_health_check_at :: "time option"
  rt_last_error :: "string option"
  rt_queued :: nat
  rt_running :: nat
  rt_completed :: nat
  rt_failed :: nat
  rt_cancelled :: nat
  rt_total :: nat
  rt_semaphore :: nat

text \<open>The flag of the shared \<open>QueryCancellation\<close> is kept in the task it belongs to.\<close>

record query_record =
  aq_task_id :: string
  aq_data_source_id :: string
  aq_source_type :: source_type
  aq_state :: query_state
  aq_submitted_at :: time
  aq_started_at :: "time option"
  aq_completed_at :: "time option"
  aq_priority :: int
  aq_attempts :: nat
  aq_error :: "string option"
  aq_cancelled :: bool

record scheduler =
  sd_adapters :: adapter_registry
  sd_runtimes :: "string \<Rightarrow> runtime_record option"
  sd_tasks :: "string \<Rightarrow> query_record option"
  sd_circuit :: circuit_breaker
  sd_config :: scheduler_config
  sd_semaphores :: "(nat \<times> nat) list"

subsection \<open>Records and snapshots\<close>

definition runtime_registered :: "data_source_config \<Rightarrow> time \<Rightarrow> nat \<Rightarrow> runtime_record" where
  "runtime_registered cfg now semaphore =
     \<lparr>rt_config = cfg, rt_state = RtRegistered, rt_registered_at = now, rt_last_started_at = None,
      rt_last_stopped_at = None, rt_last_health_check_at = None, rt_last_error = None,
      rt_queued = 0, rt_running = 0, rt_completed = 0, rt_failed = 0, rt_cancelled = 0,
      rt_total = 0, rt_semaphore = semaphore\<rparr>"

definition runtime_started :: "data_source_config \<Rightarrow> time \<Rightarrow> nat \<Rightarrow> runtime_record" where
  "runtime_started cfg now semaphore =
     (runtime_registered cfg now semaphore)\<lparr>rt_state := RtHealthy, rt_last_started_at := Some now\<rparr>"

definition runtime_snapshot :: "runtime_record \<Rightarrow> circuit_snapshot \<Rightarrow> health_snapshot" where
  "runtime_snapshot r circuit =
     \<lparr>hs_data_source_id = dc_data_source_id (rt_config r),
      hs_source_type = dc_source_type (rt_config r),
      hs_lifecycle_state = (if cs_open circuit then RtUnavailable else rt_state r),
      hs_availability =
        (if cs_open circuit then AvailUnavailable
         else case rt_state r of RtHealthy \<Rightarrow> AvailAvailable | RtDegraded \<Rightarrow> AvailDegraded
              | _ \<Rightarrow> AvailUnavailable),
      hs_registered_at = rt_registered_at r, hs_last_started_at = rt_last_started_at r,
      hs_last_stopped_at = rt_last_stopped_at r,
      hs_last_health_check_at = rt_last_health_check_at r,
      hs_queued_tasks = rt_queued r, hs_running_tasks = rt_running r,
      hs_completed_tasks = rt_completed r, hs_failed_tasks = rt_failed r,
      hs_cancelled_tasks = rt_cancelled r, hs_total_submitted_tasks = rt_total r,
      hs_consecutive_failures = cs_failure_count circuit, hs_circuit_open = cs_open circuit,
      hs_retry_after_ms = map_option duration_millis_u64 (cs_retry_after circuit),
      hs_last_error = rt_last_error r\<rparr>"

definition query_record_snapshot :: "query_record \<Rightarrow> query_task_snapshot" where
  "query_record_snapshot t =
     \<lparr>qt_task_id = aq_task_id t, qt_data_source_id = aq_data_source_id t,
      qt_source_type = aq_source_type t, qt_state = aq_state t, qt_submitted_at = aq_submitted_at t,
      qt_started_at = aq_started_at t, qt_completed_at = aq_completed_at t,
      qt_priority = aq_priority t, qt_attempts = aq_attempts t, qt_error = aq_error t\<rparr>"

subsection \<open>Sections on one map entry\<close>

definition update_runtime ::
  "(runtime_record \<Rightarrow> runtime_record) \<Rightarrow> scheduler \<Rightarrow> string \<Rightarrow> scheduler" where
  "update_runtime f sd sid =
     sd\<lparr>sd_runtimes := (sd_runtimes sd)(sid := map_option f (sd_runtimes sd sid))\<rparr>"

definition update_task :: "(query_record \<Rightarrow> query_record) \<Rightarrow> scheduler \<Rightarrow> string \<Rightarrow> scheduler" where
  "update_task f sd t = sd\<lparr>sd_tasks := (sd_tasks sd)(t := map_option f (sd_tasks sd t))\<rparr>"

definition health_snapshot_of :: "circuit_snapshot \<Rightarrow> scheduler \<Rightarrow> string \<Rightarrow> health_snapshot option" where
  "health_snapshot_of circuit sd sid = map_option (\<lambda>r. runtime_snapshot r circuit) (sd_runtimes sd sid)"

definition task_snapshot_of :: "scheduler \<Rightarrow> string \<Rightarrow> query_task_snapshot option" where
  "task_snapshot_of sd t = map_option query_record_snapshot (sd_tasks sd t)"

subsection \<open>Adapters come and go\<close>

definition scheduler_new :: "adapter_registry \<Rightarrow> scheduler_config \<Rightarrow> scheduler" where
  "scheduler_new adapters cfg =
     \<lparr>sd_adapters = adapters, sd_runtimes = (\<lambda>_. None), sd_tasks = (\<lambda>_. None),
      sd_circuit = circuit_with_backoff (sg_circuit_failure_threshold cfg) (sg_circuit_retry_backoff cfg),
      sd_config = cfg, sd_semaphores = []\<rparr>"

definition install_runtime ::
  "(data_source_config \<Rightarrow> time \<Rightarrow> nat \<Rightarrow> runtime_record) \<Rightarrow> time \<Rightarrow> scheduler \<Rightarrow> data_source_config
     \<Rightarrow> scheduler" where
  "install_runtime mk now sd cfg =
     (let concurrency = adapter_config_concurrency cfg
            (concurrency_for_source (sd_config sd) (dc_source_type cfg)) in
      sd\<lparr>sd_adapters := registry_upsert (sd_adapters sd) cfg,
         sd_runtimes := (sd_runtimes sd)(dc_data_source_id cfg
           \<mapsto> mk cfg now (length (sd_semaphores sd))),
         sd_semaphores := sd_semaphores sd @ [(concurrency, 0)]\<rparr>)"

definition from_started_configs ::
  "adapter_registry \<Rightarrow> data_source_config list \<Rightarrow> scheduler_config \<Rightarrow> time \<Rightarrow> scheduler" where
  "from_started_configs adapters cfgs cfg now =
     foldl (install_runtime runtime_started now) (scheduler_new adapters cfg) cfgs"

definition register_adapter :: "time \<Rightarrow> scheduler \<Rightarrow> data_source_config \<Rightarrow> scheduler" where
  "register_adapter now sd cfg = install_runtime runtime_registered now sd cfg"

definition start_begin :: "scheduler \<Rightarrow> string \<Rightarrow> string + (scheduler \<times> source_type)" where
  "start_begin sd sid =
     (case sd_runtimes sd sid of
        None \<Rightarrow> Inl ''adapter runtime not registered''
      | Some r \<Rightarrow>
          Inr (update_runtime (\<lambda>r. r\<lparr>rt_state := RtStarting, rt_last_error := None\<rparr>) sd sid,
               dc_source_type (rt_config r)))"

definition start_finish :: "time \<Rightarrow> scheduler \<Rightarrow> string \<Rightarrow> string + unit \<Rightarrow> scheduler" where
  "start_finish now sd sid connected =
     update_runtime (\<lambda>r. case connected of
         Inr _ \<Rightarrow> r\<lparr>rt_state := RtHealthy, rt_last_started_at := Some now, rt_last_error := None\<rparr>
       | Inl e \<Rightarrow> r\<lparr>rt_state := RtUnavailable, rt_last_error := Some e\<rparr>) sd sid"

definition stop_begin :: "scheduler \<Rightarrow> string \<Rightarrow> string + (scheduler \<times> source_type)" where
  "stop_begin sd sid =
     (case sd_runtimes sd sid of
        None \<Rightarrow> Inl ''adapter runtime not registered''
      | Some r \<Rightarrow>
          Inr (update_runtime (\<lambda>r. r\<lparr>rt_state := RtStopping\<rparr>) sd sid, dc_source_type (rt_config r)))"

definition stop_cancel :: "scheduler \<Rightarrow> string \<Rightarrow> scheduler" where
  "stop_cancel sd sid =
     sd\<lparr>sd_tasks := (\<lambda>t. map_option (\<lambda>q.
          if aq_data_source_id q = sid \<and> \<not> is_terminal_query_state (aq_state q)
          then q\<lparr>aq_cancelled := True\<rparr> else q) (sd_tasks sd t))\<rparr>"

definition stop_finish :: "time \<Rightarrow> scheduler \<Rightarrow> string \<Rightarrow> string + unit \<Rightarrow> scheduler" where
  "stop_finish now sd sid disconnected =
     update_runtime (\<lambda>r. case disconnected of
         Inr _ \<Rightarrow> r\<lparr>rt_state := RtStopped, rt_last_stopped_at := Some now, rt_last_error := None\<rparr>
       | Inl e \<Rightarrow> r\<lparr>rt_state := RtDegraded, rt_last_error := Some e\<rparr>) sd sid"

text \<open>The health check is skipped in four states.\<close>

fun health_check_skipped :: "runtime_state \<Rightarrow> bool" where
  "health_check_skipped RtRegistered = True"
| "health_check_skipped RtStarting = True"
| "health_check_skipped RtStopped = True"
| "health_check_skipped RtStopping = True"
| "health_check_skipped _ = False"

definition refreshed_state :: "health_check \<Rightarrow> circuit_snapshot \<Rightarrow> runtime_state" where
  "refreshed_state health circuit =
     (case hc_status health of
        HealthHealthy \<Rightarrow>
          if cs_open circuit then RtUnavailable
          else if cs_failure_count circuit > 0 then RtDegraded else RtHealthy
      | HealthDegraded \<Rightarrow> RtDegraded
      | HealthUnavailable \<Rightarrow> RtUnavailable)"

definition refresh_finish ::
  "time \<Rightarrow> scheduler \<Rightarrow> string \<Rightarrow> health_check \<Rightarrow> circuit_snapshot \<Rightarrow> scheduler" where
  "refresh_finish now sd sid health circuit =
     update_runtime (\<lambda>r. r\<lparr>rt_last_health_check_at := Some now, rt_last_error := hc_message health,
       rt_state := refreshed_state health circuit\<rparr>) sd sid"

definition cancel_task :: "scheduler \<Rightarrow> string \<Rightarrow> scheduler \<times> bool" where
  "cancel_task sd t =
     (case sd_tasks sd t of
        None \<Rightarrow> (sd, False)
      | Some q \<Rightarrow>
          if is_terminal_query_state (aq_state q) then (sd, False)
          else (update_task (\<lambda>q. q\<lparr>aq_cancelled := True\<rparr>) sd t, True))"

subsection \<open>The sections of a query\<close>

definition create_task_record :: "time \<Rightarrow> scheduler \<Rightarrow> scheduled_request \<Rightarrow> scheduler" where
  "create_task_record now sd req =
     sd\<lparr>sd_tasks := (sd_tasks sd)(rq_task req \<mapsto>
        \<lparr>aq_task_id = rq_task req, aq_data_source_id = rq_source req,
         aq_source_type = rq_source_type req, aq_state = QsPending, aq_submitted_at = now,
         aq_started_at = None, aq_completed_at = None, aq_priority = rq_priority req,
         aq_attempts = 0, aq_error = None, aq_cancelled = False\<rparr>)\<rparr>"

datatype reservation = ReserveMissing | ReserveRejected string | Reserved nat

definition reserve_slot ::
  "circuit_snapshot \<Rightarrow> scheduler \<Rightarrow> string \<Rightarrow> scheduler \<times> reservation" where
  "reserve_slot circuit sd sid =
     (case sd_runtimes sd sid of
        None \<Rightarrow> (sd, ReserveMissing)
      | Some r \<Rightarrow>
          if rt_state r \<notin> {RtHealthy, RtDegraded} then
            (sd, ReserveRejected ''adapter runtime unavailable'')
          else if cs_open circuit then
            (update_runtime (\<lambda>r. r\<lparr>rt_state := RtUnavailable,
               rt_last_error := Some ''circuit breaker open''\<rparr>) sd sid,
             ReserveRejected ''circuit breaker open'')
          else
            (update_runtime (\<lambda>r. r\<lparr>rt_state := (if cs_failure_count circuit > 0 then RtDegraded
                                                else rt_state r),
               rt_queued := rt_queued r + 1, rt_total := rt_total r + 1\<rparr>) sd sid,
             Reserved (rt_semaphore r)))"

definition record_task_attempt :: "nat \<Rightarrow> scheduler \<Rightarrow> string \<Rightarrow> scheduler" where
  "record_task_attempt n sd t = update_task (\<lambda>q. q\<lparr>aq_attempts := n\<rparr>) sd t"

definition mark_running_task :: "time \<Rightarrow> scheduler \<Rightarrow> string \<Rightarrow> scheduler \<times> string option" where
  "mark_running_task now sd t =
     (case sd_tasks sd t of
        None \<Rightarrow> (sd, None)
      | Some q \<Rightarrow>
          (update_task (\<lambda>q. q\<lparr>aq_state := QsRunning, aq_started_at := Some now\<rparr>) sd t,
           Some (aq_data_source_id q)))"

definition mark_running_runtime :: "scheduler \<Rightarrow> string \<Rightarrow> scheduler" where
  "mark_running_runtime sd sid =
     update_runtime (\<lambda>r. r\<lparr>rt_queued := rt_queued r - 1, rt_running := rt_running r + 1\<rparr>) sd sid"

definition mark_completed_task :: "time \<Rightarrow> scheduler \<Rightarrow> string \<Rightarrow> scheduler" where
  "mark_completed_task now sd t =
     update_task (\<lambda>q. q\<lparr>aq_state := QsCompleted, aq_completed_at := Some now, aq_error := None\<rparr>) sd t"

definition mark_completed_runtime ::
  "circuit_snapshot \<Rightarrow> scheduler \<Rightarrow> string \<Rightarrow> scheduler \<times> health_snapshot option" where
  "mark_completed_runtime circuit sd sid =
     (let sd1 = update_runtime (\<lambda>r. r\<lparr>rt_state := (if cs_failure_count circuit > 0 then RtDegraded
                                                   else RtHealthy),
            rt_last_error := None, rt_running := rt_running r - 1,
            rt_completed := rt_completed r + 1\<rparr>) sd sid in
      (sd1, health_snapshot_of circuit sd1 sid))"

text \<open>\<open>mark_task_failed_without_runtime\<close>, also the first section of \<open>mark_task_failed\<close>.\<close>

definition mark_failed_task :: "time \<Rightarrow> scheduler \<Rightarrow> string \<Rightarrow> string \<Rightarrow> scheduler" where
  "mark_failed_task now sd t e =
     update_task (\<lambda>q. q\<lparr>aq_state := QsFailed, aq_completed_at := Some now, aq_error := Some e\<rparr>) sd t"

definition mark_failed_runtime ::
  "circuit_snapshot \<Rightarrow> scheduler \<Rightarrow> string \<Rightarrow> string \<Rightarrow> scheduler \<times> health_snapshot option" where
  "mark_failed_runtime circuit sd sid e =
     (let sd1 = update_runtime (\<lambda>r. r\<lparr>rt_state := (if cs_open circuit then RtUnavailable else RtDegraded),
            rt_last_error := Some e, rt_queued := rt_queued r - 1, rt_running := rt_running r - 1,
            rt_failed := rt_failed r + 1\<rparr>) sd sid in
      (sd1, health_snapshot_of circuit sd1 sid))"

definition mark_rejected_runtime ::
  "circuit_snapshot \<Rightarrow> scheduler \<Rightarrow> string \<Rightarrow> string \<Rightarrow> scheduler \<times> health_snapshot option" where
  "mark_rejected_runtime circuit sd sid e =
     (let sd1 = update_runtime (\<lambda>r. r\<lparr>rt_state := (if cs_open circuit then RtUnavailable else rt_state r),
            rt_last_error := Some e, rt_failed := rt_failed r + 1\<rparr>) sd sid in
      (sd1, health_snapshot_of circuit sd1 sid))"

definition mark_cancelled_task ::
  "time \<Rightarrow> scheduler \<Rightarrow> string \<Rightarrow> scheduler \<times> (string \<times> query_state) option" where
  "mark_cancelled_task now sd t =
     (case sd_tasks sd t of
        None \<Rightarrow> (sd, None)
      | Some q \<Rightarrow>
          (update_task (\<lambda>q. q\<lparr>aq_state := QsCancelled, aq_completed_at := Some now, aq_error := None\<rparr>) sd t,
           Some (aq_data_source_id q, aq_state q)))"

definition mark_cancelled_runtime ::
  "circuit_snapshot \<Rightarrow> query_state \<Rightarrow> scheduler \<Rightarrow> string \<Rightarrow> scheduler \<times> health_snapshot option" where
  "mark_cancelled_runtime circuit previous sd sid =
     (let sd1 = update_runtime (\<lambda>r. r\<lparr>
            rt_queued := (if previous = QsPending then rt_queued r - 1 else rt_queued r),
            rt_running := (if previous = QsRunning then rt_running r - 1 else rt_running r),
            rt_cancelled := rt_cancelled r + 1\<rparr>) sd sid in
      (sd1, health_snapshot_of circuit sd1 sid))"

definition record_adapter_success :: "scheduler \<Rightarrow> string \<Rightarrow> scheduler" where
  "record_adapter_success sd sid = sd\<lparr>sd_circuit := circuit_record_success (sd_circuit sd) sid\<rparr>"

definition record_adapter_failure :: "time \<Rightarrow> scheduler \<Rightarrow> string \<Rightarrow> scheduler \<times> circuit_snapshot" where
  "record_adapter_failure now sd sid =
     (let sd1 = sd\<lparr>sd_circuit := circuit_record_failure now (sd_circuit sd) sid\<rparr> in
      (sd1, circuit_source_snapshot now (sd_circuit sd1) sid))"

definition adapter_failure_runtime ::
  "circuit_snapshot \<Rightarrow> scheduler \<Rightarrow> string \<Rightarrow> string \<Rightarrow> scheduler \<times> health_snapshot option" where
  "adapter_failure_runtime circuit sd sid e =
     (let sd1 = update_runtime (\<lambda>r. r\<lparr>rt_state := (if cs_open circuit then RtUnavailable else RtDegraded),
            rt_last_error := Some e\<rparr>) sd sid in
      (sd1, health_snapshot_of circuit sd1 sid))"

text \<open>Whether \<open>execute_with_retry\<close> gives up after a failed attempt.\<close>

definition gives_up ::
  "retry_policy \<Rightarrow> nat \<Rightarrow> scheduler_error_kind \<Rightarrow> string \<Rightarrow> health_snapshot option \<Rightarrow> bool" where
  "gives_up p attempts kind e runtime =
     (ry_max_attempts p \<le> attempts
      \<or> (kind = SchedExecutionFailed \<and> \<not> is_retryable_adapter_error e)
      \<or> (case runtime of Some s \<Rightarrow> hs_circuit_open s | None \<Rightarrow> False))"

definition acquire_permit :: "scheduler \<Rightarrow> nat \<Rightarrow> scheduler option" where
  "acquire_permit sd k =
     (case nth_opt (sd_semaphores sd) k of
        None \<Rightarrow> None
      | Some (permits, held) \<Rightarrow>
          if held < permits then Some (sd\<lparr>sd_semaphores := (sd_semaphores sd)[k := (permits, held + 1)]\<rparr>)
          else None)"

definition release_permit :: "scheduler \<Rightarrow> nat \<Rightarrow> scheduler" where
  "release_permit sd k =
     (case nth_opt (sd_semaphores sd) k of
        None \<Rightarrow> sd
      | Some (permits, held) \<Rightarrow> sd\<lparr>sd_semaphores := (sd_semaphores sd)[k := (permits, held - 1)]\<rparr>)"

subsection \<open>One execution\<close>

text \<open>
  The program counter of \<open>execute_query\<close> names the section that comes next, with the local
  variables it needs: the semaphore of the permit, the attempts so far, the error to report.
  A cancellation that arrives while the task waits for a permit holds none.
\<close>

datatype exec_outcome =
    OutResult scheduled_result
  | OutError scheduler_error
  | OutPanic

datatype exec_pc =
    AtReserve
  | AtMissing
  | AtReject string
  | AtRejectRuntime string
  | AtAcquire nat
  | AtMarkRunning nat
  | AtRunningRuntime nat string
  | AtAttempt nat nat
  | AtAwait nat nat
  | AtFailure nat nat scheduler_error_kind string circuit_snapshot
  | AtBackoff nat nat
  | AtComplete nat nat query_result
  | AtCompleteRuntime nat nat query_result
  | AtFail nat nat scheduler_error_kind string
  | AtFailRuntime nat nat scheduler_error_kind string
  | AtCancel "nat option" nat
  | AtCancelRuntime "nat option" nat string query_state
  | AtRelease nat exec_outcome
  | Returned exec_outcome

datatype attempt_outcome = AttemptOk query_result | AttemptErr string | AttemptTimedOut

text \<open>
  What the environment decides in a step: the clock, the circuit snapshot taken before the
  section, the answer of the adapter, and whether a waiting task sees its cancellation first.
\<close>

record exec_input =
  in_now :: time
  in_circuit :: circuit_snapshot
  in_attempt :: attempt_outcome
  in_cancelled :: bool

definition error_result ::
  "scheduler_error_kind \<Rightarrow> string \<Rightarrow> nat \<Rightarrow> health_snapshot option \<Rightarrow> exec_outcome" where
  "error_result kind e n runtime =
     OutError \<lparr>se_kind = kind, se_message = e, se_attempts = n, se_runtime = runtime\<rparr>"

definition cancel_seen :: "exec_input \<Rightarrow> scheduler \<Rightarrow> string \<Rightarrow> bool" where
  "cancel_seen inp sd t =
     (in_cancelled inp \<and> (case sd_tasks sd t of Some q \<Rightarrow> aq_cancelled q | None \<Rightarrow> False))"

definition finish_with :: "nat option \<Rightarrow> exec_outcome \<Rightarrow> exec_pc" where
  "finish_with permit out = (case permit of Some k \<Rightarrow> AtRelease k out | None \<Rightarrow> Returned out)"

definition attempt_finished ::
  "exec_input \<Rightarrow> scheduler \<Rightarrow> string \<Rightarrow> nat \<Rightarrow> nat \<Rightarrow> scheduler \<times> exec_pc" where
  "attempt_finished inp sd sid k n =
     (case in_attempt inp of
        AttemptOk res \<Rightarrow> (record_adapter_success sd sid, AtComplete k n res)
      | AttemptErr e \<Rightarrow>
          (case record_adapter_failure (in_now inp) sd sid of
             (sd1, circuit) \<Rightarrow> (sd1, AtFailure k n SchedExecutionFailed e circuit))
      | AttemptTimedOut \<Rightarrow>
          (case record_adapter_failure (in_now inp) sd sid of
             (sd1, circuit) \<Rightarrow> (sd1, AtFailure k n SchedTimeout ''query timed out'' circuit)))"

fun exec_step ::
  "exec_input \<Rightarrow> scheduler \<Rightarrow> scheduled_request \<Rightarrow> exec_pc \<Rightarrow> (scheduler \<times> exec_pc) option" where
  "exec_step inp sd req AtReserve =
     (case reserve_slot (in_circuit inp) sd (rq_source req) of
        (sd1, ReserveMissing) \<Rightarrow> Some (sd1, AtMissing)
      | (sd1, ReserveRejected e) \<Rightarrow> Some (sd1, AtReject e)
      | (sd1, Reserved k) \<Rightarrow> Some (sd1, AtAcquire k))"
| "exec_step inp sd req AtMissing =
     Some (mark_failed_task (in_now inp) sd (rq_task req) ''adapter runtime not registered'',
       Returned (error_result SchedUnavailable ''adapter runtime not registered'' 0 None))"
| "exec_step inp sd req (AtReject e) =
     Some (mark_failed_task (in_now inp) sd (rq_task req) e, AtRejectRuntime e)"
| "exec_step inp sd req (AtRejectRuntime e) =
     (case mark_rejected_runtime (in_circuit inp) sd (rq_source req) e of
        (sd1, s) \<Rightarrow> Some (sd1, Returned (error_result SchedUnavailable e 0 s)))"
| "exec_step inp sd req (AtAcquire k) =
     (if in_cancelled inp then
        (if cancel_seen inp sd (rq_task req) then Some (sd, AtCancel None 0) else None)
      else map_option (\<lambda>sd1. (sd1, AtMarkRunning k)) (acquire_permit sd k))"
| "exec_step inp sd req (AtMarkRunning k) =
     (case mark_running_task (in_now inp) sd (rq_task req) of
        (sd1, Some sid) \<Rightarrow> Some (sd1, AtRunningRuntime k sid)
      | (sd1, None) \<Rightarrow> Some (sd1, AtAttempt k 1))"
| "exec_step inp sd req (AtRunningRuntime k sid) = Some (mark_running_runtime sd sid, AtAttempt k 1)"
| "exec_step inp sd req (AtAttempt k n) =
     Some (record_task_attempt n sd (rq_task req), AtAwait k n)"
| "exec_step inp sd req (AtAwait k n) =
     (if in_cancelled inp then
        (if cancel_seen inp sd (rq_task req) then Some (sd, AtCancel (Some k) n) else None)
      else Some (attempt_finished inp sd (rq_source req) k n))"
| "exec_step inp sd req (AtFailure k n kind e circuit) =
     (case adapter_failure_runtime circuit sd (rq_source req) e of
        (sd1, s) \<Rightarrow>
          Some (sd1, if gives_up (sg_retry_policy (sd_config sd)) n kind e s
                     then AtFail k n kind e else AtBackoff k n))"
| "exec_step inp sd req (AtBackoff k n) =
     (if in_cancelled inp then
        (if cancel_seen inp sd (rq_task req) then Some (sd, AtCancel (Some k) n) else None)
      else Some (sd, AtAttempt k (n + 1)))"
| "exec_step inp sd req (AtComplete k n res) =
     Some (mark_completed_task (in_now inp) sd (rq_task req), AtCompleteRuntime k n res)"
| "exec_step inp sd req (AtCompleteRuntime k n res) =
     (case mark_completed_runtime (in_circuit inp) sd (rq_source req) of
        (sd1, Some s) \<Rightarrow>
          Some (sd1, AtRelease k (OutResult \<lparr>sr_result = res, sr_attempts = n, sr_runtime = s\<rparr>))
      | (sd1, None) \<Rightarrow> Some (sd1, AtRelease k OutPanic))"
| "exec_step inp sd req (AtFail k n kind e) =
     Some (mark_failed_task (in_now inp) sd (rq_task req) e, AtFailRuntime k n kind e)"
| "exec_step inp sd req (AtFailRuntime k n kind e) =
     (case mark_failed_runtime (in_circuit inp) sd (rq_source req) e of
        (sd1, s) \<Rightarrow> Some (sd1, AtRelease k (error_result kind e n s)))"
| "exec_step inp sd req (AtCancel permit n) =
     (case mark_cancelled_task (in_now inp) sd (rq_task req) of
        (sd1, Some (sid, previous)) \<Rightarrow> Some (sd1, AtCancelRuntime permit n sid previous)
      | (sd1, None) \<Rightarrow>
          Some (sd1, finish_with permit (error_result SchedCancelled ''query task cancelled'' n None)))"
| "exec_step inp sd req (AtCancelRuntime permit n sid previous) =
     (case mark_cancelled_runtime (in_circuit inp) previous sd sid of
        (sd1, s) \<Rightarrow>
          Some (sd1, finish_with permit (error_result SchedCancelled ''query task cancelled'' n s)))"
| "exec_step inp sd req (AtRelease k out) = Some (release_permit sd k, Returned out)"
| "exec_step inp sd req (Returned out) = None"

end
