(* ===== verification/SchedulerRuns.thy ===== *)
theory SchedulerRuns
  imports AdapterScheduler
begin

text \<open>
  Runs of the query scheduler: any number of executions and any management operation,
  interleaved at the granularity of critical sections.  The invariant relates the counters of a
  runtime and the permits of a semaphore to the executions by where their program counters are.

  Two things are asked of the callers: a task identifier is submitted once, and an adapter is
  registered while none of its executions is under way, since registration replaces the counters
  and the semaphore.
\<close>

subsection \<open>Systems\<close>

record execution =
  ex_request :: scheduled_request
  ex_pc :: exec_pc

record system =
  sy_sched :: scheduler
  sy_execs :: "string \<Rightarrow> execution option"

fun finished :: "exec_pc \<Rightarrow> bool" where
  "finished (Returned out) = True"
| "finished _ = False"

definition source_idle :: "system \<Rightarrow> string \<Rightarrow> bool" where
  "source_idle sy sid =
     (\<forall>t e. sy_execs sy t = Some e \<longrightarrow> rq_source (ex_request e) = sid \<longrightarrow> finished (ex_pc e))"

inductive system_step :: "system \<Rightarrow> system \<Rightarrow> bool" where
  submit: "sy_execs sy (rq_task req) = None \<Longrightarrow>
    system_step sy \<lparr>sy_sched = create_task_record now (sy_sched sy) req,
      sy_execs = (sy_execs sy)(rq_task req \<mapsto> \<lparr>ex_request = req, ex_pc = AtReserve\<rparr>)\<rparr>"
| run: "\<lbrakk> sy_execs sy t = Some e;
      exec_step inp (sy_sched sy) (ex_request e) (ex_pc e) = Some (sd, pc) \<rbrakk> \<Longrightarrow>
    system_step sy \<lparr>sy_sched = sd, sy_execs = (sy_execs sy)(t \<mapsto> e\<lparr>ex_pc := pc\<rparr>)\<rparr>"
| register: "source_idle sy (dc_data_source_id cfg) \<Longrightarrow>
    system_step sy (sy\<lparr>sy_sched := register_adapter now (sy_sched sy) cfg\<rparr>)"
| start_begin: "start_begin (sy_sched sy) sid = Inr (sd, st) \<Longrightarrow> system_step sy (sy\<lparr>sy_sched := sd\<rparr>)"
| start_finish: "system_step sy (sy\<lparr>sy_sched := start_finish now (sy_sched sy) sid connected\<rparr>)"
| stop_begin: "stop_begin (sy_sched sy) sid = Inr (sd, st) \<Longrightarrow> system_step sy (sy\<lparr>sy_sched := sd\<rparr>)"
| stop_cancel: "system_step sy (sy\<lparr>sy_sched := stop_cancel (sy_sched sy) sid\<rparr>)"
| stop_finish: "system_step sy (sy\<lparr>sy_sched := stop_finish now (sy_sched sy) sid disconnected\<rparr>)"
| refresh: "system_step sy (sy\<lparr>sy_sched := refresh_finish now (sy_sched sy) sid health circuit\<rparr>)"
| cancel: "cancel_task (sy_sched sy) t = (sd, b) \<Longrightarrow> system_step sy (sy\<lparr>sy_sched := sd\<rparr>)"

inductive scheduler_reachable :: "system \<Rightarrow> bool" where
  started: "scheduler_reachable
    \<lparr>sy_sched = from_started_configs adapters cfgs cfg now, sy_execs = (\<lambda>_. None)\<rparr>"
| step: "\<lbrakk> scheduler_reachable sy; system_step sy sy' \<rbrakk> \<Longrightarrow> scheduler_reachable sy'"

subsection \<open>Where a program counter is\<close>

fun pc_permit :: "exec_pc \<Rightarrow> nat option" where
  "pc_permit (AtMarkRunning k) = Some k"
| "pc_permit (AtRunningRuntime k sid) = Some k"
| "pc_permit (AtAttempt k n) = Some k"
| "pc_permit (AtAwait k n) = Some k"
| "pc_permit (AtFailure k n kind e circuit) = Some k"
| "pc_permit (AtBackoff k n) = Some k"
| "pc_permit (AtComplete k n res) = Some k"
| "pc_permit (AtCompleteRuntime k n res) = Some k"
| "pc_permit (AtFail k n kind e) = Some k"
| "pc_permit (AtFailRuntime k n kind e) = Some k"
| "pc_permit (AtCancel p n) = p"
| "pc_permit (AtCancelRuntime p n sid previous) = p"
| "pc_permit (AtRelease k out) = Some k"
| "pc_permit _ = None"

fun pc_semaphore :: "exec_pc \<Rightarrow> nat option" where
  "pc_semaphore (AtAcquire k) = Some k"
| "pc_semaphore pc = pc_permit pc"

fun pc_running :: "exec_pc \<Rightarrow> bool" where
  "pc_running (AtAttempt k n) = True"
| "pc_running (AtAwait k n) = True"
| "pc_running (AtFailure k n kind e circuit) = True"
| "pc_running (AtBackoff k n) = True"
| "pc_running (AtComplete k n res) = True"
| "pc_running (AtCompleteRuntime k n res) = True"
| "pc_running (AtFail k n kind e) = True"
| "pc_running (AtFailRuntime k n kind e) = True"
| "pc_running (AtCancel p n) = (p \<noteq> None)"
| "pc_running (AtCancelRuntime p n sid previous) = (p \<noteq> None)"
| "pc_running _ = False"

fun pc_queued :: "exec_pc \<Rightarrow> bool" where
  "pc_queued (AtAcquire k) = True"
| "pc_queued (AtMarkRunning k) = True"
| "pc_queued (AtRunningRuntime k sid) = True"
| "pc_queued (AtCancel p n) = (p = None)"
| "pc_queued (AtCancelRuntime p n sid previous) = (p = None)"
| "pc_queued _ = False"

text \<open>The state the task must be in, where the counter decides it.\<close>

fun pc_task_state :: "exec_pc \<Rightarrow> query_state option" where
  "pc_task_state AtReserve = Some QsPending"
| "pc_task_state (AtAcquire k) = Some QsPending"
| "pc_task_state (AtMarkRunning k) = Some QsPending"
| "pc_task_state (AtRunningRuntime k sid) = Some QsRunning"
| "pc_task_state (AtAttempt k n) = Some QsRunning"
| "pc_task_state (AtAwait k n) = Some QsRunning"
| "pc_task_state (AtFailure k n kind e circuit) = Some QsRunning"
| "pc_task_state (AtBackoff k n) = Some QsRunning"
| "pc_task_state (AtCancel p n) = Some (if p = None then QsPending else QsRunning)"
| "pc_task_state _ = None"

fun pc_local_ok :: "string \<Rightarrow> exec_pc \<Rightarrow> bool" where
  "pc_local_ok src (AtRunningRuntime k sid) = (sid = src)"
| "pc_local_ok src (AtCancelRuntime p n sid previous) =
     (sid = src \<and> previous = (if p = None then QsPending else QsRunning))"
| "pc_local_ok src _ = True"

lemma pc_running_permit: "pc_running pc \<Longrightarrow> pc_permit pc \<noteq> None"
  by (cases pc) auto

lemma pc_permit_semaphore: "pc_permit pc = Some k \<Longrightarrow> pc_semaphore pc = Some k"
  by (cases pc) auto

subsection \<open>Counting executions\<close>

definition count_execs :: "(execution \<Rightarrow> bool) \<Rightarrow> (string \<Rightarrow> execution option) \<Rightarrow> nat" where
  "count_execs P m = card {t. \<exists>e. m t = Some e \<and> P e}"

lemma count_execs_insert:
  assumes "finite (dom m)" and "m t = None"
  shows "count_execs P (m(t \<mapsto> e)) = count_execs P m + of_bool (P e)"
proof -
  let ?S = "{u. \<exists>x. m u = Some x \<and> P x}"
  have fin: "finite ?S" by (rule finite_subset [OF _ assms(1)]) auto
  have "{u. \<exists>x. (m(t \<mapsto> e)) u = Some x \<and> P x} = (if P e then insert t ?S else ?S)"
    using assms(2) by auto
  with fin assms(2) show ?thesis by (simp add: count_execs_def)
qed

lemma count_execs_update:
  assumes "finite (dom m)" and "m t = Some e"
  shows "count_execs P (m(t \<mapsto> e')) = count_execs P m - of_bool (P e) + of_bool (P e')"
proof -
  let ?S = "{u. \<exists>x. m u = Some x \<and> P x}" and ?S' = "{u. \<exists>x. (m(t \<mapsto> e')) u = Some x \<and> P x}"
  have fin: "finite ?S" by (rule finite_subset [OF _ assms(1)]) auto
  have "?S' = (if P e' then insert t (?S - {t}) else ?S - {t})" by auto
  then have "card ?S' = card (?S - {t}) + of_bool (P e')"
    using fin by (simp del: insert_Diff_single fun_upd_apply)
  moreover have "card (?S - {t}) = card ?S - of_bool (P e)"
    using fin assms(2) by (simp add: card_Diff_singleton_if)
  ultimately show ?thesis by (simp add: count_execs_def)
qed

lemma count_execs_mono:
  "finite (dom m) \<Longrightarrow> (\<And>e. P e \<Longrightarrow> Q e) \<Longrightarrow> count_execs P m \<le> count_execs Q m"
  unfolding count_execs_def by (rule card_mono) (auto intro: finite_subset [of _ "dom m"])

lemma count_execs_pos: "\<lbrakk> finite (dom m); m t = Some e; P e \<rbrakk> \<Longrightarrow> 0 < count_execs P m"
  unfolding count_execs_def by (subst card_gt_0_iff) (auto intro: finite_subset [of _ "dom m"])

definition running_at :: "string \<Rightarrow> execution \<Rightarrow> bool" where
  "running_at sid e = (rq_source (ex_request e) = sid \<and> pc_running (ex_pc e))"

definition queued_at :: "string \<Rightarrow> execution \<Rightarrow> bool" where
  "queued_at sid e = (rq_source (ex_request e) = sid \<and> pc_queued (ex_pc e))"

definition holds_permit :: "nat \<Rightarrow> execution \<Rightarrow> bool" where
  "holds_permit k e = (pc_permit (ex_pc e) = Some k)"

subsection \<open>The invariant\<close>

definition exec_ok :: "scheduler \<Rightarrow> string \<Rightarrow> execution \<Rightarrow> bool" where
  "exec_ok sd t e =
     (rq_task (ex_request e) = t \<and>
      (\<exists>q. sd_tasks sd t = Some q \<and> aq_data_source_id q = rq_source (ex_request e) \<and>
        (\<forall>s. pc_task_state (ex_pc e) = Some s \<longrightarrow> aq_state q = s)) \<and>
      pc_local_ok (rq_source (ex_request e)) (ex_pc e) \<and>
      (\<forall>k. pc_semaphore (ex_pc e) = Some k \<longrightarrow>
        (\<exists>r. sd_runtimes sd (rq_source (ex_request e)) = Some r \<and> rt_semaphore r = k)))"

definition configured_concurrency :: "scheduler \<Rightarrow> data_source_config \<Rightarrow> nat" where
  "configured_concurrency sd cfg =
     adapter_config_concurrency cfg (concurrency_for_source (sd_config sd) (dc_source_type cfg))"

definition runtime_ok :: "scheduler \<Rightarrow> (string \<Rightarrow> execution option) \<Rightarrow> string \<Rightarrow> runtime_record \<Rightarrow> bool" where
  "runtime_ok sd m sid r =
     (rt_running r = count_execs (running_at sid) m \<and>
      rt_queued r \<le> count_execs (queued_at sid) m \<and>
      rt_semaphore r < length (sd_semaphores sd) \<and>
      fst (sd_semaphores sd ! rt_semaphore r) = configured_concurrency sd (rt_config r))"

definition semaphore_ok :: "scheduler \<Rightarrow> (string \<Rightarrow> execution option) \<Rightarrow> nat \<Rightarrow> bool" where
  "semaphore_ok sd m k =
     (snd (sd_semaphores sd ! k) = count_execs (holds_permit k) m \<and>
      snd (sd_semaphores sd ! k) \<le> fst (sd_semaphores sd ! k))"

definition system_ok :: "system \<Rightarrow> bool" where
  "system_ok sy =
     (finite (dom (sy_execs sy)) \<and>
      (\<forall>t e. sy_execs sy t = Some e \<longrightarrow> exec_ok (sy_sched sy) t e) \<and>
      (\<forall>sid r. sd_runtimes (sy_sched sy) sid = Some r \<longrightarrow> runtime_ok (sy_sched sy) (sy_execs sy) sid r) \<and>
      (\<forall>k<length (sd_semaphores (sy_sched sy)). semaphore_ok (sy_sched sy) (sy_execs sy) k))"

lemmas inv_defs = system_ok_def exec_ok_def runtime_ok_def semaphore_ok_def configured_concurrency_def

text \<open>
  The management operations change neither a counter nor a semaphore nor the state of a task.
\<close>

definition same_accounts :: "scheduler \<Rightarrow> scheduler \<Rightarrow> bool" where
  "same_accounts sd sd' =
     (sd_semaphores sd' = sd_semaphores sd \<and> sd_config sd' = sd_config sd \<and>
      (\<forall>sid. map_option (\<lambda>r. (rt_running r, rt_queued r, rt_semaphore r, rt_config r)) (sd_runtimes sd' sid)
           = map_option (\<lambda>r. (rt_running r, rt_queued r, rt_semaphore r, rt_config r)) (sd_runtimes sd sid)) \<and>
      (\<forall>t. map_option (\<lambda>q. (aq_data_source_id q, aq_state q)) (sd_tasks sd' t)
         = map_option (\<lambda>q. (aq_data_source_id q, aq_state q)) (sd_tasks sd t)))"

lemma same_accounts_runtime:
  assumes "same_accounts sd sd'" and "sd_runtimes sd' sid = Some r'"
  obtains r where "sd_runtimes sd sid = Some r" "rt_running r = rt_running r'"
    "rt_queued r = rt_queued r'" "rt_semaphore r = rt_semaphore r'" "rt_config r = rt_config r'"
proof -
  have "map_option (\<lambda>r. (rt_running r, rt_queued r, rt_semaphore r, rt_config r)) (sd_runtimes sd sid)
      = Some (rt_running r', rt_queued r', rt_semaphore r', rt_config r')"
    using assms by (metis (no_types, lifting) option.map(2) same_accounts_def)
  then show ?thesis using that by auto
qed

lemma same_accounts_sym: "same_accounts sd sd' \<Longrightarrow> same_accounts sd' sd"
  by (simp add: same_accounts_def)

lemma same_accounts_task:
  assumes "same_accounts sd sd'" and "sd_tasks sd t = Some q"
  obtains q' where "sd_tasks sd' t = Some q'" "aq_data_source_id q' = aq_data_source_id q"
    "aq_state q' = aq_state q"
proof -
  have "map_option (\<lambda>q. (aq_data_source_id q, aq_state q)) (sd_tasks sd' t)
      = Some (aq_data_source_id q, aq_state q)"
    using assms by (metis (no_types, lifting) option.map(2) same_accounts_def)
  then show ?thesis using that by auto
qed

lemma same_accounts_exec_ok:
  assumes "same_accounts sd sd'" and "exec_ok sd t e"
  shows "exec_ok sd' t e"
proof -
  obtain q where q: "sd_tasks sd t = Some q" "aq_data_source_id q = rq_source (ex_request e)"
    "\<forall>s. pc_task_state (ex_pc e) = Some s \<longrightarrow> aq_state q = s"
    using assms(2) by (auto simp: exec_ok_def)
  obtain q' where "sd_tasks sd' t = Some q'" "aq_data_source_id q' = aq_data_source_id q"
      "aq_state q' = aq_state q"
    by (rule same_accounts_task [OF assms(1) q(1)])
  moreover have "\<exists>r'. sd_runtimes sd' sid = Some r' \<and> rt_semaphore r' = rt_semaphore r"
    if "sd_runtimes sd sid = Some r" for sid r
    using same_accounts_runtime [OF same_accounts_sym [OF assms(1)] that] by metis
  ultimately show ?thesis
    using assms(2) q by (fastforce simp: exec_ok_def)
qed

lemma same_accounts_ok:
  assumes "system_ok sy" and "same_accounts (sy_sched sy) sd'"
  shows "system_ok (sy\<lparr>sy_sched := sd'\<rparr>)"
proof -
  have sems: "sd_semaphores sd' = sd_semaphores (sy_sched sy)" "sd_config sd' = sd_config (sy_sched sy)"
    using assms(2) by (simp_all add: same_accounts_def)
  have "runtime_ok sd' (sy_execs sy) sid r'" if r': "sd_runtimes sd' sid = Some r'" for sid r'
  proof -
    obtain r where "sd_runtimes (sy_sched sy) sid = Some r" and eq: "rt_running r = rt_running r'"
        "rt_queued r = rt_queued r'" "rt_semaphore r = rt_semaphore r'" "rt_config r = rt_config r'"
      by (rule same_accounts_runtime [OF assms(2) r'])
    then have "runtime_ok (sy_sched sy) (sy_execs sy) sid r"
      using assms(1) by (auto simp: system_ok_def)
    with eq show ?thesis by (simp add: runtime_ok_def configured_concurrency_def sems)
  qed
  moreover have "exec_ok sd' t e" if "sy_execs sy t = Some e" for t e
    using assms that same_accounts_exec_ok by (auto simp: system_ok_def)
  ultimately show ?thesis
    using assms(1) sems by (auto simp: system_ok_def semaphore_ok_def)
qed

lemma update_runtime_same:
  "(\<And>r. (rt_running (f r), rt_queued (f r), rt_semaphore (f r), rt_config (f r))
      = (rt_running r, rt_queued r, rt_semaphore r, rt_config r)) \<Longrightarrow>
   same_accounts sd (update_runtime f sd sid)"
  by (cases "sd_runtimes sd sid") (auto simp: same_accounts_def update_runtime_def)

lemma update_task_same:
  "(\<And>q. (aq_data_source_id (f q), aq_state (f q)) = (aq_data_source_id q, aq_state q)) \<Longrightarrow>
   same_accounts sd (update_task f sd t)"
  by (cases "sd_tasks sd t") (auto simp: same_accounts_def update_task_def)

lemma management_same:
  "start_begin sd sid = Inr (sd', st) \<Longrightarrow> same_accounts sd sd'"
  "same_accounts sd (start_finish now sd sid connected)"
  "stop_begin sd sid = Inr (sd', st) \<Longrightarrow> same_accounts sd sd'"
  "same_accounts sd (stop_cancel sd sid)"
  "same_accounts sd (stop_finish now sd sid disconnected)"
  "same_accounts sd (refresh_finish now sd sid health circuit)"
  "cancel_task sd t = (sd', b) \<Longrightarrow> same_accounts sd sd'"
proof -
  show "start_begin sd sid = Inr (sd', st) \<Longrightarrow> same_accounts sd sd'"
    by (auto simp: start_begin_def split: option.splits intro!: update_runtime_same)
  show "same_accounts sd (start_finish now sd sid connected)"
    unfolding start_finish_def by (rule update_runtime_same) (simp split: sum.splits)
  show "stop_begin sd sid = Inr (sd', st) \<Longrightarrow> same_accounts sd sd'"
    by (auto simp: stop_begin_def split: option.splits intro!: update_runtime_same)
  show "same_accounts sd (stop_cancel sd sid)"
    by (auto simp: same_accounts_def stop_cancel_def option.map_comp comp_def intro!: option.map_cong)
  show "same_accounts sd (stop_finish now sd sid disconnected)"
    unfolding stop_finish_def by (rule update_runtime_same) (simp split: sum.splits)
  show "same_accounts sd (refresh_finish now sd sid health circuit)"
    unfolding refresh_finish_def by (rule update_runtime_same) simp
  show "cancel_task sd t = (sd', b) \<Longrightarrow> same_accounts sd sd'"
    by (auto simp: cancel_task_def same_accounts_def update_task_def split: option.splits if_splits)
qed

lemma permit_in_range:
  assumes "system_ok sy" and "sy_execs sy t = Some e" and "pc_semaphore (ex_pc e) = Some k"
  shows "k < length (sd_semaphores (sy_sched sy))"
proof -
  from assms(1,2) have "exec_ok (sy_sched sy) t e"
    unfolding system_ok_def by blast
  then obtain r where r: "sd_runtimes (sy_sched sy) (rq_source (ex_request e)) = Some r" "rt_semaphore r = k"
    using assms(3) by (auto simp: exec_ok_def)
  with assms(1) have "runtime_ok (sy_sched sy) (sy_execs sy) (rq_source (ex_request e)) r"
    unfolding system_ok_def by blast
  with r show ?thesis by (simp add: runtime_ok_def)
qed

lemma count_execs_none:
  assumes "\<And>t e. m t = Some e \<Longrightarrow> \<not> P e"
  shows "count_execs P m = 0"
proof -
  have none: "{t. \<exists>e. m t = Some e \<and> P e} = {}" using assms by auto
  show ?thesis unfolding count_execs_def none by (rule card.empty)
qed

lemma finished_idle:
  assumes "finished pc"
  shows "\<not> pc_running pc" "pc_semaphore pc = None"
  using assms by (cases pc; simp)+

lemma nth_append_below:
  "k < length xs \<Longrightarrow> (xs @ [y]) ! k = xs ! k" "(xs @ [y]) ! length xs = y"
  by (simp_all add: nth_append)

lemma install_runtime_fields:
  "sd_tasks (install_runtime mk now sd cfg) = sd_tasks sd"
  "sd_config (install_runtime mk now sd cfg) = sd_config sd"
  "sd_runtimes (install_runtime mk now sd cfg) =
     (sd_runtimes sd)(dc_data_source_id cfg \<mapsto> mk cfg now (length (sd_semaphores sd)))"
  "sd_semaphores (install_runtime mk now sd cfg) =
     sd_semaphores sd @ [(configured_concurrency sd cfg, 0)]"
  by (simp_all add: install_runtime_def Let_def configured_concurrency_def)

text \<open>A new runtime has no tasks and a semaphore of its own.\<close>

lemma install_runtime_ok:
  assumes ok: "system_ok sy" and idle: "source_idle sy (dc_data_source_id cfg)"
    and mk: "\<And>k. rt_running (mk cfg now k) = 0 \<and> rt_queued (mk cfg now k) = 0 \<and>
      rt_semaphore (mk cfg now k) = k \<and> rt_config (mk cfg now k) = cfg"
  shows "system_ok (sy\<lparr>sy_sched := install_runtime mk now (sy_sched sy) cfg\<rparr>)"
proof -
  let ?sd = "sy_sched sy" and ?sid = "dc_data_source_id cfg" and ?m = "sy_execs sy"
  let ?sd' = "install_runtime mk now ?sd cfg" and ?n = "length (sd_semaphores (sy_sched sy))"
  have fresh: "count_execs (holds_permit ?n) ?m = 0"
  proof (rule count_execs_none)
    fix t e assume "?m t = Some e"
    then show "\<not> holds_permit ?n e"
      using permit_in_range [OF ok] pc_permit_semaphore by (fastforce simp: holds_permit_def)
  qed
  have none: "count_execs (running_at ?sid) ?m = 0"
  proof (rule count_execs_none)
    fix t e assume e: "?m t = Some e"
    show "\<not> running_at ?sid e"
    proof
      assume "running_at ?sid e"
      then have "finished (ex_pc e)" "pc_running (ex_pc e)"
        using idle e by (auto simp: source_idle_def running_at_def)
      then show False using finished_idle(1) by blast
    qed
  qed
  have execs: "exec_ok ?sd' t e" if e: "?m t = Some e" for t e
  proof -
    have old: "exec_ok ?sd t e" using ok e unfolding system_ok_def by blast
    have "rq_source (ex_request e) \<noteq> ?sid" if "pc_semaphore (ex_pc e) = Some k" for k
      using idle e that finished_idle(2) [of "ex_pc e"] by (auto simp: source_idle_def)
    with old show ?thesis by (fastforce simp: exec_ok_def install_runtime_fields)
  qed
  have runtimes: "runtime_ok ?sd' ?m sid r" if r: "sd_runtimes ?sd' sid = Some r" for sid r
  proof (cases "sid = ?sid")
    case True
    with r mk none show ?thesis
      by (auto simp: runtime_ok_def install_runtime_fields configured_concurrency_def)
  next
    case False
    with r have "sd_runtimes ?sd sid = Some r" by (simp add: install_runtime_fields)
    then have "runtime_ok ?sd ?m sid r" using ok unfolding system_ok_def by blast
    then show ?thesis
      by (simp add: runtime_ok_def install_runtime_fields nth_append_below configured_concurrency_def)
  qed
  have sems: "semaphore_ok ?sd' ?m k" if k: "k < length (sd_semaphores ?sd')" for k
  proof (cases "k = ?n")
    case True
    with fresh show ?thesis by (simp add: semaphore_ok_def install_runtime_fields)
  next
    case False
    with k have k: "k < ?n" by (simp add: install_runtime_fields)
    then have "semaphore_ok ?sd ?m k" using ok unfolding system_ok_def by blast
    with k show ?thesis by (simp add: semaphore_ok_def install_runtime_fields nth_append_below)
  qed
  have "finite (dom ?m)" using ok by (simp add: system_ok_def)
  with execs runtimes sems show ?thesis by (simp add: system_ok_def)
qed

lemma submit_ok:
  assumes ok: "system_ok sy" and new: "sy_execs sy (rq_task req) = None"
  shows "system_ok \<lparr>sy_sched = create_task_record now (sy_sched sy) req,
    sy_execs = (sy_execs sy)(rq_task req \<mapsto> \<lparr>ex_request = req, ex_pc = AtReserve\<rparr>)\<rparr>"
proof -
  let ?e = "\<lparr>ex_request = req, ex_pc = AtReserve\<rparr>"
  let ?sd' = "create_task_record now (sy_sched sy) req"
  have fin: "finite (dom (sy_execs sy))" using ok by (simp add: system_ok_def)
  have count: "count_execs (running_at sid) ((sy_execs sy)(rq_task req \<mapsto> ?e)) = count_execs (running_at sid) (sy_execs sy)"
      "count_execs (queued_at sid) ((sy_execs sy)(rq_task req \<mapsto> ?e)) = count_execs (queued_at sid) (sy_execs sy)"
      "count_execs (holds_permit k) ((sy_execs sy)(rq_task req \<mapsto> ?e)) = count_execs (holds_permit k) (sy_execs sy)"
    for sid k
    by (simp_all add: count_execs_insert [OF fin new] running_at_def queued_at_def holds_permit_def
        del: fun_upd_apply)
  have new_ok: "exec_ok ?sd' (rq_task req) ?e"
    by (simp add: exec_ok_def create_task_record_def)
  have old_ok: "exec_ok ?sd' t e" if "sy_execs sy t = Some e" "t \<noteq> rq_task req" for t e
    using ok that by (auto simp: system_ok_def exec_ok_def create_task_record_def)
  have same: "sd_runtimes ?sd' = sd_runtimes (sy_sched sy)"
      "sd_semaphores ?sd' = sd_semaphores (sy_sched sy)" "sd_config ?sd' = sd_config (sy_sched sy)"
    by (simp_all add: create_task_record_def)
  show ?thesis
    using ok new_ok old_ok fin
    by (simp add: system_ok_def runtime_ok_def semaphore_ok_def configured_concurrency_def same
        count del: fun_upd_apply) auto
qed

subsection \<open>A step of an execution\<close>

text \<open>The change of a count when one member may enter or leave.\<close>

definition shift :: "bool \<Rightarrow> bool \<Rightarrow> nat \<Rightarrow> nat" where
  "shift before after n = (if before = after then n else if after then n + 1 else n - 1)"

lemma shift_simps [simp]:
  "shift b b n = n" "shift False True n = Suc n" "shift True False n = n - 1"
  by (simp_all add: shift_def)

lemma shift_mono: "m \<le> n \<Longrightarrow> shift b c m \<le> shift b c n"
  by (auto simp: shift_def)

lemma count_execs_shift:
  assumes "finite (dom m)" and "m t = Some e"
  shows "count_execs P (m(t \<mapsto> e')) = shift (P e) (P e') (count_execs P m)"
  using count_execs_update [OF assms, of P e'] count_execs_pos [OF assms, of P]
  by (cases "P e"; cases "P e'") (simp_all del: fun_upd_apply)

definition runtime_shift :: "exec_pc \<Rightarrow> exec_pc \<Rightarrow> runtime_record \<Rightarrow> runtime_record \<Rightarrow> bool" where
  "runtime_shift pc pc' r r' =
     (rt_semaphore r' = rt_semaphore r \<and> rt_config r' = rt_config r \<and>
      rt_running r' = shift (pc_running pc) (pc_running pc') (rt_running r) \<and>
      rt_queued r' \<le> shift (pc_queued pc) (pc_queued pc') (rt_queued r))"

definition semaphore_shift :: "exec_pc \<Rightarrow> exec_pc \<Rightarrow> nat \<Rightarrow> nat \<times> nat \<Rightarrow> nat \<times> nat \<Rightarrow> bool" where
  "semaphore_shift pc pc' k s s' =
     (fst s' = fst s \<and> snd s' = shift (pc_permit pc = Some k) (pc_permit pc' = Some k) (snd s) \<and>
      (pc_permit pc' = Some k \<longrightarrow> pc_permit pc = Some k \<or> snd s < fst s))"

definition step_accounts ::
  "scheduler \<Rightarrow> scheduler \<Rightarrow> string \<Rightarrow> string \<Rightarrow> exec_pc \<Rightarrow> exec_pc \<Rightarrow> bool" where
  "step_accounts sd sd' src t pc pc' =
     (sd_config sd' = sd_config sd \<and>
      (\<forall>u. u \<noteq> t \<longrightarrow> sd_tasks sd' u = sd_tasks sd u) \<and>
      (\<forall>sid. sid \<noteq> src \<longrightarrow> sd_runtimes sd' sid = sd_runtimes sd sid) \<and>
      rel_option (runtime_shift pc pc') (sd_runtimes sd src) (sd_runtimes sd' src) \<and>
      length (sd_semaphores sd') = length (sd_semaphores sd) \<and>
      (\<forall>k<length (sd_semaphores sd).
        semaphore_shift pc pc' k (sd_semaphores sd ! k) (sd_semaphores sd' ! k)))"

lemmas step_accounts_defs = step_accounts_def runtime_shift_def semaphore_shift_def

lemma rel_option_same: "(\<And>x. R x x) \<Longrightarrow> rel_option R m m"
  by (cases m) simp_all

lemma rel_option_map: "(\<And>x. R x (f x)) \<Longrightarrow> rel_option R m (map_option f m)"
  by (cases m) simp_all

text \<open>Sections that touch the tasks, one runtime or the circuit breaker alone.\<close>

definition same_place :: "exec_pc \<Rightarrow> exec_pc \<Rightarrow> bool" where
  "same_place pc pc' =
     (pc_running pc' = pc_running pc \<and> pc_queued pc' = pc_queued pc \<and> pc_permit pc' = pc_permit pc)"

lemma accounts_idle: "same_place pc pc' \<Longrightarrow> step_accounts sd sd src t pc pc'"
  by (auto simp: step_accounts_defs same_place_def intro!: rel_option_same)

lemma accounts_task: "same_place pc pc' \<Longrightarrow> step_accounts sd (update_task f sd t) src t pc pc'"
  by (auto simp: step_accounts_defs same_place_def update_task_def intro!: rel_option_same)

lemma accounts_circuit:
  "same_place pc pc' \<Longrightarrow> step_accounts sd (sd\<lparr>sd_circuit := c\<rparr>) src t pc pc'"
  by (auto simp: step_accounts_defs same_place_def intro!: rel_option_same)

lemma accounts_runtime:
  assumes "pc_permit pc' = pc_permit pc" and "\<And>r. runtime_shift pc pc' r (f r)"
  shows "step_accounts sd (update_runtime f sd src) src t pc pc'"
  using assms by (auto simp: step_accounts_def semaphore_shift_def update_runtime_def intro!: rel_option_map)

lemma acquire_permit_Some:
  "acquire_permit sd k = Some sd' \<longleftrightarrow>
     k < length (sd_semaphores sd) \<and> snd (sd_semaphores sd ! k) < fst (sd_semaphores sd ! k) \<and>
     sd' = sd\<lparr>sd_semaphores := (sd_semaphores sd)
       [k := (fst (sd_semaphores sd ! k), snd (sd_semaphores sd ! k) + 1)]\<rparr>"
  by (cases "sd_semaphores sd ! k") (auto simp: acquire_permit_def nth_opt_def split: if_splits)

lemma release_permit_eq:
  "k < length (sd_semaphores sd) \<Longrightarrow> release_permit sd k = sd\<lparr>sd_semaphores := (sd_semaphores sd)
     [k := (fst (sd_semaphores sd ! k), snd (sd_semaphores sd ! k) - 1)]\<rparr>"
  by (cases "sd_semaphores sd ! k") (simp add: release_permit_def nth_opt_def)

lemma accounts_acquire:
  assumes "acquire_permit sd k = Some sd'" and "pc_permit pc = None" and "pc_permit pc' = Some k"
    and "pc_running pc' = pc_running pc" and "pc_queued pc' = pc_queued pc"
  shows "step_accounts sd sd' src t pc pc'"
  using assms
  by (auto simp: step_accounts_defs acquire_permit_Some nth_list_update intro!: rel_option_same)

lemma accounts_release:
  assumes "pc_permit pc = Some k" and "pc_permit pc' = None" and "k < length (sd_semaphores sd)"
    and "pc_running pc' = pc_running pc" and "pc_queued pc' = pc_queued pc"
  shows "step_accounts sd (release_permit sd k) src t pc pc'"
  using assms
  by (auto simp: step_accounts_defs release_permit_eq nth_list_update intro!: rel_option_same)

lemmas section_defs = reserve_slot_def mark_running_runtime_def mark_completed_task_def
  mark_completed_runtime_def mark_failed_task_def mark_failed_runtime_def mark_rejected_runtime_def
  mark_cancelled_runtime_def record_adapter_success_def record_adapter_failure_def
  adapter_failure_runtime_def record_task_attempt_def attempt_finished_def finish_with_def

lemma exec_step_accounts:
  assumes ok: "exec_ok sd t e" and range: "\<And>k. pc_permit (ex_pc e) = Some k \<Longrightarrow> k < length (sd_semaphores sd)"
    and step: "exec_step inp sd (ex_request e) (ex_pc e) = Some (sd', pc')"
  shows "step_accounts sd sd' (rq_source (ex_request e)) t (ex_pc e) pc'"
proof -
  let ?req = "ex_request e" and ?src = "rq_source (ex_request e)"
  have t: "rq_task ?req = t" using ok by (simp add: exec_ok_def)
  obtain q where q: "sd_tasks sd t = Some q" "aq_data_source_id q = ?src"
      "\<And>s. pc_task_state (ex_pc e) = Some s \<Longrightarrow> aq_state q = s"
    using ok by (auto simp: exec_ok_def)
  have loc: "pc_local_ok ?src (ex_pc e)" using ok by (simp add: exec_ok_def)
  have place: "same_place (ex_pc e) (ex_pc e)" by (simp add: same_place_def)
  note intros = accounts_idle accounts_task accounts_circuit accounts_runtime
  show ?thesis
  proof (cases "ex_pc e")
    case AtReserve
    then show ?thesis using step
      by (auto simp: section_defs same_place_def runtime_shift_def split: option.splits if_splits
          intro!: accounts_idle accounts_runtime)
  next
    case AtMissing
    then show ?thesis using step t by (auto simp: section_defs same_place_def intro!: accounts_task)
  next
    case (AtReject m)
    then show ?thesis using step t by (auto simp: section_defs same_place_def intro!: accounts_task)
  next
    case (AtRejectRuntime m)
    then show ?thesis using step
      by (auto simp: section_defs Let_def runtime_shift_def intro!: accounts_runtime)
  next
    case (AtAcquire k)
    then show ?thesis using step
      by (auto simp: same_place_def split: if_splits intro!: accounts_idle intro: accounts_acquire)
  next
    case (AtMarkRunning k)
    then show ?thesis using step t q
      by (auto simp: mark_running_task_def same_place_def intro!: accounts_task)
  next
    case (AtRunningRuntime k sid)
    then show ?thesis using step loc
      by (auto simp: section_defs runtime_shift_def intro!: accounts_runtime)
  next
    case (AtAttempt k n)
    then show ?thesis using step t by (auto simp: section_defs same_place_def intro!: accounts_task)
  next
    case (AtAwait k n)
    then show ?thesis using step
      by (auto simp: section_defs Let_def same_place_def split: if_splits attempt_outcome.splits
          intro!: accounts_idle accounts_circuit)
  next
    case (AtFailure k n kind m circuit)
    then show ?thesis using step
      by (auto simp: section_defs Let_def runtime_shift_def intro!: accounts_runtime)
  next
    case (AtBackoff k n)
    then show ?thesis using step
      by (auto simp: same_place_def split: if_splits intro!: accounts_idle)
  next
    case (AtComplete k n res)
    then show ?thesis using step t by (auto simp: section_defs same_place_def intro!: accounts_task)
  next
    case (AtCompleteRuntime k n res)
    then show ?thesis using step
      by (auto simp: section_defs Let_def runtime_shift_def split: option.splits intro!: accounts_runtime)
  next
    case (AtFail k n kind m)
    then show ?thesis using step t by (auto simp: section_defs same_place_def intro!: accounts_task)
  next
    case (AtFailRuntime k n kind m)
    then show ?thesis using step
      by (auto simp: section_defs Let_def runtime_shift_def intro!: accounts_runtime)
  next
    case (AtCancel p n)
    then show ?thesis using step t q
      by (auto simp: mark_cancelled_task_def same_place_def intro!: accounts_task)
  next
    case (AtCancelRuntime p n sid previous)
    then show ?thesis using step loc
      by (cases p) (auto simp: section_defs Let_def runtime_shift_def intro!: accounts_runtime)
  next
    case (AtRelease k out)
    then show ?thesis using step range by (auto intro!: accounts_release)
  next
    case (Returned out)
    then show ?thesis using step by simp
  qed
qed

lemma runtime_kept:
  assumes "step_accounts sd sd' src t pc pc'" and "sd_runtimes sd sid = Some r"
  obtains r' where "sd_runtimes sd' sid = Some r'" "rt_semaphore r' = rt_semaphore r"
proof (cases "sid = src")
  case True
  then have "rel_option (runtime_shift pc pc') (Some r) (sd_runtimes sd' src)"
    using assms by (simp add: step_accounts_def)
  with that True show ?thesis by (cases "sd_runtimes sd' src") (auto simp: runtime_shift_def)
next
  case False
  with assms that show ?thesis by (simp add: step_accounts_def)
qed

lemma exec_step_own_ok:
  assumes ok: "exec_ok sd t e"
    and acc: "step_accounts sd sd' (rq_source (ex_request e)) t (ex_pc e) pc'"
    and step: "exec_step inp sd (ex_request e) (ex_pc e) = Some (sd', pc')"
  shows "exec_ok sd' t (e\<lparr>ex_pc := pc'\<rparr>)"
proof -
  let ?req = "ex_request e" and ?src = "rq_source (ex_request e)"
  have t: "rq_task ?req = t" using ok by (simp add: exec_ok_def)
  obtain q where q: "sd_tasks sd t = Some q" "aq_data_source_id q = ?src"
      "\<And>s. pc_task_state (ex_pc e) = Some s \<Longrightarrow> aq_state q = s"
    using ok by (auto simp: exec_ok_def)
  have loc: "pc_local_ok ?src (ex_pc e)" using ok by (simp add: exec_ok_def)
  have task: "\<exists>q'. sd_tasks sd' t = Some q' \<and> aq_data_source_id q' = ?src \<and>
      (\<forall>s. pc_task_state pc' = Some s \<longrightarrow> aq_state q' = s)"
    and local: "pc_local_ok ?src pc'"
    using step t q loc
    by (cases "ex_pc e"; auto simp: section_defs Let_def mark_running_task_def mark_cancelled_task_def
        update_task_def update_runtime_def acquire_permit_Some release_permit_def
        split: option.splits if_splits attempt_outcome.splits prod.splits)+
  have sem: "pc_semaphore (ex_pc e) = Some k \<or>
      (\<exists>r. sd_runtimes sd ?src = Some r \<and> rt_semaphore r = k)" if "pc_semaphore pc' = Some k" for k
    using step that
    by (cases "ex_pc e"; auto simp: section_defs Let_def split: option.splits if_splits attempt_outcome.splits
        prod.splits)
  have "\<exists>r'. sd_runtimes sd' ?src = Some r' \<and> rt_semaphore r' = k" if k: "pc_semaphore pc' = Some k" for k
  proof -
    obtain r where r: "sd_runtimes sd ?src = Some r" "rt_semaphore r = k"
      using sem [OF k] ok by (auto simp: exec_ok_def)
    from runtime_kept [OF acc r(1)] r(2) show ?thesis by metis
  qed
  with t task local show ?thesis by (simp add: exec_ok_def)
qed

lemma exec_step_other_ok:
  assumes "step_accounts sd sd' src t pc pc'" and "exec_ok sd u e" and "u \<noteq> t"
  shows "exec_ok sd' u e"
proof -
  have "sd_tasks sd' u = sd_tasks sd u" using assms(1,3) by (simp add: step_accounts_def)
  moreover have "\<exists>r'. sd_runtimes sd' sid = Some r' \<and> rt_semaphore r' = rt_semaphore r"
    if "sd_runtimes sd sid = Some r" for sid r
    using runtime_kept [OF assms(1) that] by metis
  ultimately show ?thesis using assms(2) by (fastforce simp: exec_ok_def)
qed

lemma run_ok:
  assumes ok: "system_ok sy" and e: "sy_execs sy t = Some e"
    and step: "exec_step inp (sy_sched sy) (ex_request e) (ex_pc e) = Some (sd', pc')"
  shows "system_ok \<lparr>sy_sched = sd', sy_execs = (sy_execs sy)(t \<mapsto> e\<lparr>ex_pc := pc'\<rparr>)\<rparr>"
proof -
  let ?sd = "sy_sched sy" and ?m = "sy_execs sy" and ?m' = "(sy_execs sy)(t \<mapsto> e\<lparr>ex_pc := pc'\<rparr>)"
  let ?src = "rq_source (ex_request e)"
  have fin: "finite (dom ?m)" using ok by (simp add: system_ok_def)
  have own: "exec_ok ?sd t e" using ok e unfolding system_ok_def by blast
  have acc: "step_accounts ?sd sd' ?src t (ex_pc e) pc'"
    using permit_in_range [OF ok e] pc_permit_semaphore by (intro exec_step_accounts [OF own _ step]) blast
  have execs: "exec_ok sd' u x" if "?m' u = Some x" for u x
  proof (cases "u = t")
    case True
    with that exec_step_own_ok [OF own acc step] show ?thesis by simp
  next
    case False
    with that ok have "exec_ok ?sd u x" by (simp add: system_ok_def)
    from exec_step_other_ok [OF acc this False] show ?thesis .
  qed
  have lens: "length (sd_semaphores sd') = length (sd_semaphores ?sd)" and config: "sd_config sd' = sd_config ?sd"
    and sem: "\<And>k. k < length (sd_semaphores ?sd) \<Longrightarrow>
      semaphore_shift (ex_pc e) pc' k (sd_semaphores ?sd ! k) (sd_semaphores sd' ! k)"
    using acc by (simp_all add: step_accounts_def)
  have runtimes: "runtime_ok sd' ?m' sid r'" if r': "sd_runtimes sd' sid = Some r'" for sid r'
  proof (cases "sid = ?src")
    case True
    with acc r' obtain r where r: "sd_runtimes ?sd sid = Some r" "runtime_shift (ex_pc e) pc' r r'"
      by (cases "sd_runtimes ?sd ?src") (auto simp: step_accounts_def)
    have old: "runtime_ok ?sd ?m sid r" using ok r(1) unfolding system_ok_def by blast
    have "rt_queued r' \<le> shift (pc_queued (ex_pc e)) (pc_queued pc') (rt_queued r)"
      using r(2) by (simp add: runtime_shift_def)
    also have "\<dots> \<le> shift (pc_queued (ex_pc e)) (pc_queued pc') (count_execs (queued_at sid) ?m)"
      using old by (intro shift_mono) (simp add: runtime_ok_def)
    finally show ?thesis
      using old r(2) sem True
      by (simp add: runtime_ok_def runtime_shift_def semaphore_shift_def lens config configured_concurrency_def
          count_execs_shift [OF fin e] running_at_def queued_at_def del: fun_upd_apply)
  next
    case False
    with acc r' have "sd_runtimes ?sd sid = Some r'" by (simp add: step_accounts_def)
    then have "runtime_ok ?sd ?m sid r'" using ok unfolding system_ok_def by blast
    then show ?thesis
      using sem False
      by (simp add: runtime_ok_def semaphore_shift_def lens config configured_concurrency_def
          count_execs_shift [OF fin e] running_at_def queued_at_def del: fun_upd_apply)
  qed
  have sems: "semaphore_ok sd' ?m' k" if k: "k < length (sd_semaphores sd')" for k
  proof -
    have k': "k < length (sd_semaphores ?sd)" using k lens by simp
    then have old: "semaphore_ok ?sd ?m k" using ok unfolding system_ok_def by blast
    have s: "semaphore_shift (ex_pc e) pc' k (sd_semaphores ?sd ! k) (sd_semaphores sd' ! k)"
      by (rule sem [OF k'])
    have "snd (sd_semaphores sd' ! k) \<le> fst (sd_semaphores sd' ! k)"
      using s old by (auto simp: semaphore_shift_def semaphore_ok_def shift_def)
    then show ?thesis
      using s old
      by (simp add: semaphore_ok_def semaphore_shift_def count_execs_shift [OF fin e] holds_permit_def
          del: fun_upd_apply)
  qed
  show ?thesis using fin execs runtimes sems by (simp add: system_ok_def)
qed

lemma system_step_ok: "\<lbrakk> system_step sy sy'; system_ok sy \<rbrakk> \<Longrightarrow> system_ok sy'"
proof (induction rule: system_step.induct)
  case (submit sy req now)
  then show ?case by (intro submit_ok)
next
  case (run sy t e inp sd pc)
  then show ?case by (intro run_ok)
next
  case (register sy cfg now)
  then show ?case
    unfolding register_adapter_def by (intro install_runtime_ok) (simp_all add: runtime_registered_def)
next
  case (start_begin sy sid sd st)
  then show ?case by (auto intro: same_accounts_ok management_same)
next
  case (start_finish sy now sid connected)
  then show ?case by (auto intro: same_accounts_ok management_same)
next
  case (stop_begin sy sid sd st)
  then show ?case by (auto intro: same_accounts_ok management_same)
next
  case (stop_cancel sy sid)
  then show ?case by (auto intro: same_accounts_ok management_same)
next
  case (stop_finish sy now sid disconnected)
  then show ?case by (auto intro: same_accounts_ok management_same)
next
  case (refresh sy now sid health circuit)
  then show ?case by (auto intro: same_accounts_ok management_same)
next
  case (cancel sy t sd b)
  then show ?case by (auto intro: same_accounts_ok management_same)
qed

lemma started_ok:
  "system_ok \<lparr>sy_sched = from_started_configs adapters cfgs cfg now, sy_execs = (\<lambda>_. None)\<rparr>"
proof -
  have "system_ok \<lparr>sy_sched = foldl (install_runtime runtime_started now) sd cfgs, sy_execs = (\<lambda>_. None)\<rparr>"
    if "system_ok \<lparr>sy_sched = sd, sy_execs = (\<lambda>_. None)\<rparr>" for sd
    using that
  proof (induction cfgs arbitrary: sd)
    case (Cons c cfgs)
    have "system_ok (\<lparr>sy_sched = sd, sy_execs = (\<lambda>_. None)\<rparr>
        \<lparr>sy_sched := install_runtime runtime_started now sd c\<rparr>)"
      using install_runtime_ok [OF Cons.prems, of c runtime_started now]
      by (simp add: source_idle_def runtime_started_def runtime_registered_def)
    with Cons.IH show ?case by simp
  qed simp
  moreover have "system_ok \<lparr>sy_sched = scheduler_new adapters cfg, sy_execs = (\<lambda>_. None)\<rparr>"
    by (simp add: system_ok_def scheduler_new_def)
  ultimately show ?thesis unfolding from_started_configs_def by blast
qed

lemma reachable_ok: "scheduler_reachable sy \<Longrightarrow> system_ok sy"
  by (induction rule: scheduler_reachable.induct) (use started_ok system_step_ok in blast)+

subsection \<open>Executions end\<close>

text \<open>
  The sections one execution goes through, whatever the rest of the system does to the shared
  state in between; the retry policy is the one thing that stays.
\<close>

inductive exec_path :: "retry_policy \<Rightarrow> scheduled_request \<Rightarrow> exec_pc \<Rightarrow> nat \<Rightarrow> exec_pc \<Rightarrow> bool"
  for p req where
  here: "exec_path p req pc 0 pc"
| there: "\<lbrakk> exec_path p req pc n pc'; sg_retry_policy (sd_config sd) = p;
      exec_step inp sd req pc' = Some (sd', pc'') \<rbrakk> \<Longrightarrow> exec_path p req pc (Suc n) pc''"

fun outcome_attempts :: "exec_outcome \<Rightarrow> nat" where
  "outcome_attempts (OutResult r) = sr_attempts r"
| "outcome_attempts (OutError e) = se_attempts e"
| "outcome_attempts OutPanic = 0"

fun attempts_ok :: "nat \<Rightarrow> exec_pc \<Rightarrow> bool" where
  "attempts_ok m (AtAttempt k n) = (n \<le> m)"
| "attempts_ok m (AtAwait k n) = (n \<le> m)"
| "attempts_ok m (AtFailure k n kind e circuit) = (n \<le> m)"
| "attempts_ok m (AtBackoff k n) = (n < m)"
| "attempts_ok m (AtComplete k n res) = (n \<le> m)"
| "attempts_ok m (AtCompleteRuntime k n res) = (n \<le> m)"
| "attempts_ok m (AtFail k n kind e) = (n \<le> m)"
| "attempts_ok m (AtFailRuntime k n kind e) = (n \<le> m)"
| "attempts_ok m (AtCancel q n) = (n \<le> m)"
| "attempts_ok m (AtCancelRuntime q n sid previous) = (n \<le> m)"
| "attempts_ok m (AtRelease k out) = (outcome_attempts out \<le> m)"
| "attempts_ok m (Returned out) = (outcome_attempts out \<le> m)"
| "attempts_ok m _ = True"

fun exec_rank :: "nat \<Rightarrow> exec_pc \<Rightarrow> nat" where
  "exec_rank m AtReserve = 5 * m + 14"
| "exec_rank m AtMissing = 1"
| "exec_rank m (AtReject e) = 2"
| "exec_rank m (AtRejectRuntime e) = 1"
| "exec_rank m (AtAcquire k) = 5 * m + 13"
| "exec_rank m (AtMarkRunning k) = 5 * m + 12"
| "exec_rank m (AtRunningRuntime k sid) = 5 * m + 11"
| "exec_rank m (AtAttempt k n) = 5 * (m + 1 - n) + 10"
| "exec_rank m (AtAwait k n) = 5 * (m + 1 - n) + 9"
| "exec_rank m (AtFailure k n kind e circuit) = 5 * (m + 1 - n) + 8"
| "exec_rank m (AtBackoff k n) = 5 * (m + 1 - n) + 7"
| "exec_rank m (AtComplete k n res) = 4"
| "exec_rank m (AtCompleteRuntime k n res) = 3"
| "exec_rank m (AtFail k n kind e) = 4"
| "exec_rank m (AtFailRuntime k n kind e) = 3"
| "exec_rank m (AtCancel q n) = 4"
| "exec_rank m (AtCancelRuntime q n sid previous) = 3"
| "exec_rank m (AtRelease k out) = 1"
| "exec_rank m (Returned out) = 0"

lemma exec_step_rank:
  assumes "exec_step inp sd req pc = Some (sd', pc')" and "attempts_ok m pc"
    and "m = max 1 (ry_max_attempts (sg_retry_policy (sd_config sd)))"
  shows "exec_rank m pc' < exec_rank m pc \<and> attempts_ok m pc'"
  using assms
  by (cases pc; auto simp: section_defs Let_def mark_running_task_def mark_cancelled_task_def
      error_result_def gives_up_def split: option.splits if_splits attempt_outcome.splits prod.splits)

lemma exec_path_rank:
  assumes "exec_path p req pc n pc'" and "attempts_ok m pc" and "m = max 1 (ry_max_attempts p)"
  shows "exec_rank m pc' + n \<le> exec_rank m pc \<and> attempts_ok m pc'"
  using assms
proof (induction rule: exec_path.induct)
  case (there pc n pc' sd inp sd' pc'')
  then have "exec_rank m pc' + n \<le> exec_rank m pc" "attempts_ok m pc'" by simp_all
  with exec_step_rank [OF there.hyps(3), of m] there show ?case by simp
qed simp

text \<open>
  C14. Every execution ends.  Whatever the adapter answers and whatever else happens to the shared
  state, an execution of a query goes through at most 5 sections per allowed attempt and 14 more,
  makes no more attempts than the retry policy allows (and at least one), and until it has
  returned it can always take its next step, unless it waits for a permit.
\<close>

theorem execution_ends:
  assumes "exec_path p req AtReserve n pc" and "sg_retry_policy (sd_config sd) = p"
  shows "n \<le> 5 * max 1 (ry_max_attempts p) + 14 \<and>
    (\<forall>out. pc = Returned out \<longrightarrow> outcome_attempts out \<le> max 1 (ry_max_attempts p)) \<and>
    (finished pc \<or> (\<exists>k. pc = AtAcquire k) \<or> (\<exists>sd' pc'. exec_step (inp\<lparr>in_cancelled := False\<rparr>) sd req pc = Some (sd', pc')))"
proof -
  have "exec_rank (max 1 (ry_max_attempts p)) pc + n \<le> 5 * max 1 (ry_max_attempts p) + 14"
      "attempts_ok (max 1 (ry_max_attempts p)) pc"
    using exec_path_rank [OF assms(1)] by simp_all
  moreover have "finished pc \<or> (\<exists>k. pc = AtAcquire k) \<or>
      (\<exists>sd' pc'. exec_step (inp\<lparr>in_cancelled := False\<rparr>) sd req pc = Some (sd', pc'))"
    by (cases pc) (auto simp: Let_def split: prod.splits option.splits reservation.splits)
  ultimately show ?thesis by auto
qed

subsection \<open>Running an execution and a system\<close>

fun exec_run :: "exec_input list \<Rightarrow> scheduler \<Rightarrow> scheduled_request \<Rightarrow> exec_pc \<Rightarrow> (scheduler \<times> exec_pc) option" where
  "exec_run [] sd req pc = Some (sd, pc)"
| "exec_run (inp # inps) sd req pc =
     (case exec_step inp sd req pc of None \<Rightarrow> None | Some (sd', pc') \<Rightarrow> exec_run inps sd' req pc')"

lemma exec_step_config: "exec_step inp sd req pc = Some (sd', pc') \<Longrightarrow> sd_config sd' = sd_config sd"
  by (cases pc; auto simp: section_defs Let_def mark_running_task_def mark_cancelled_task_def update_task_def
      update_runtime_def acquire_permit_def release_permit_def
      split: option.splits if_splits attempt_outcome.splits prod.splits)

lemma exec_path_run:
  assumes "exec_path p req pc0 m pc" and "exec_run inps sd req pc = Some (sd', pc')"
    and "sg_retry_policy (sd_config sd) = p"
  shows "exec_path p req pc0 (m + length inps) pc'"
  using assms
proof (induction inps arbitrary: m sd pc)
  case (Cons inp inps)
  then obtain sd1 pc1 where s: "exec_step inp sd req pc = Some (sd1, pc1)" "exec_run inps sd1 req pc1 = Some (sd', pc')"
    by (auto split: option.splits)
  have "exec_path p req pc0 (Suc m) pc1" by (rule exec_path.there [OF Cons.prems(1,3) s(1)])
  from Cons.IH [OF this s(2)] exec_step_config [OF s(1)] Cons.prems(3) show ?case by simp
qed simp

definition submit_request :: "time \<Rightarrow> system \<Rightarrow> scheduled_request \<Rightarrow> system" where
  "submit_request now sy req =
     (case sy_execs sy (rq_task req) of
        None \<Rightarrow> \<lparr>sy_sched = create_task_record now (sy_sched sy) req,
                sy_execs = (sy_execs sy)(rq_task req \<mapsto> \<lparr>ex_request = req, ex_pc = AtReserve\<rparr>)\<rparr>
      | Some e \<Rightarrow> sy)"

definition run_task :: "system \<Rightarrow> string \<times> exec_input \<Rightarrow> system" where
  "run_task sy x =
     (case sy_execs sy (fst x) of
        None \<Rightarrow> sy
      | Some e \<Rightarrow>
          (case exec_step (snd x) (sy_sched sy) (ex_request e) (ex_pc e) of
             None \<Rightarrow> sy
           | Some (sd, pc) \<Rightarrow>
               \<lparr>sy_sched = sd, sy_execs = (sy_execs sy)(fst x \<mapsto> e\<lparr>ex_pc := pc\<rparr>)\<rparr>))"

definition started_system :: "data_source_config list \<Rightarrow> scheduler_config \<Rightarrow> system" where
  "started_system cfgs cfg =
     \<lparr>sy_sched = from_started_configs (registry_from_configs cfgs) cfgs cfg 0, sy_execs = (\<lambda>_. None)\<rparr>"

lemma submit_request_reachable: "scheduler_reachable sy \<Longrightarrow> scheduler_reachable (submit_request now sy req)"
  by (auto simp: submit_request_def split: option.splits intro: scheduler_reachable.step system_step.submit)

lemma run_task_reachable: "scheduler_reachable sy \<Longrightarrow> scheduler_reachable (run_task sy x)"
  by (auto simp: run_task_def split: option.splits intro: scheduler_reachable.step system_step.run)

lemma run_tasks_reachable: "scheduler_reachable sy \<Longrightarrow> scheduler_reachable (foldl run_task sy xs)"
  by (induction xs arbitrary: sy) (auto intro: run_task_reachable)

lemma started_system_reachable: "scheduler_reachable (started_system cfgs cfg)"
  unfolding started_system_def by (rule scheduler_reachable.started)

subsection \<open>A source with one slot\<close>

definition quiet_circuit :: circuit_snapshot where
  "quiet_circuit = \<lparr>cs_source_id = ''hr'', cs_failure_count = 0, cs_open = False, cs_retry_after = None\<rparr>"

definition sample_input :: "attempt_outcome \<Rightarrow> exec_input" where
  "sample_input a = \<lparr>in_now = 5, in_circuit = quiet_circuit, in_attempt = a, in_cancelled = False\<rparr>"

definition slot_request :: "string \<Rightarrow> scheduled_request" where
  "slot_request t =
     \<lparr>rq_task = t, rq_source = ''hr'', rq_source_type = Rest,
      rq_query = unified_query_new [], rq_priority = 0\<rparr>"

definition one_slot_config :: scheduler_config where
  "one_slot_config = scheduler_config_default\<lparr>sg_rest_concurrency := 1,
     sg_retry_policy := retry_policy_default\<lparr>ry_max_attempts := 1\<rparr>\<rparr>"

definition sample_system :: system where
  "sample_system =
     submit_request 2 (submit_request 1 (started_system [default_mock_config ''hr'' Rest] one_slot_config)
       (slot_request ''a'')) (slot_request ''b'')"

lemma sample_system_reachable: "scheduler_reachable sample_system"
  unfolding sample_system_def by (intro submit_request_reachable started_system_reachable)

subsection \<open>Properties of the scheduler\<close>

lemma count_execs_le:
  assumes "finite (dom m)" and "\<And>t e. m t = Some e \<Longrightarrow> P e \<Longrightarrow> Q e"
  shows "count_execs P m \<le> count_execs Q m"
  unfolding count_execs_def using assms
  by (intro card_mono) (auto intro: finite_subset [of _ "dom m"])

text \<open>
  C13. A source never runs more queries than it is configured for.  In every reachable state of the
  scheduler, whatever executions, submissions, cancellations and other management operations are
  interleaved, where an adapter is registered or replaced only while no execution of its source is
  under way, the running counter of a registered adapter is the number of its executions that run,
  at most the configured concurrency, and its queued counter is at most the number of those that
  wait (it may be less: a failed task lowers it a second time).
\<close>

theorem concurrency_respected:
  assumes "scheduler_reachable sy" and "sd_runtimes (sy_sched sy) sid = Some r"
  shows "rt_running r = count_execs (running_at sid) (sy_execs sy) \<and>
    rt_running r \<le> configured_concurrency (sy_sched sy) (rt_config r) \<and>
    rt_queued r \<le> count_execs (queued_at sid) (sy_execs sy)"
proof -
  let ?sd = "sy_sched sy" and ?m = "sy_execs sy"
  have ok: "system_ok sy" by (rule reachable_ok [OF assms(1)])
  have r: "runtime_ok ?sd ?m sid r" using ok assms(2) unfolding system_ok_def by blast
  have "semaphore_ok ?sd ?m (rt_semaphore r)" using ok r unfolding system_ok_def runtime_ok_def by blast
  then have held: "count_execs (holds_permit (rt_semaphore r)) ?m \<le> configured_concurrency ?sd (rt_config r)"
    using r by (simp add: semaphore_ok_def runtime_ok_def)
  have "holds_permit (rt_semaphore r) e" if e: "?m t = Some e" and run: "running_at sid e" for t e
  proof -
    have "exec_ok ?sd t e" using ok e unfolding system_ok_def by blast
    then show ?thesis
      using run assms(2) pc_running_permit [of "ex_pc e"] pc_permit_semaphore [of "ex_pc e"]
      by (auto simp: exec_ok_def running_at_def holds_permit_def)
  qed
  then have "count_execs (running_at sid) ?m \<le> count_execs (holds_permit (rt_semaphore r)) ?m"
    using ok by (intro count_execs_le) (auto simp: system_ok_def)
  with held r show ?thesis by (simp add: runtime_ok_def)
qed

lemmas circuit_defs = circuit_record_failure_def circuit_source_snapshot_def circuit_with_backoff_def
  circuit_is_open_def circuit_allow_def circuit_failure_count_def circuit_record_success_def

lemmas sample_defs = sample_system_def started_system_def submit_request_def run_task_def
  from_started_configs_def scheduler_new_def install_runtime_def default_mock_config_def
  adapter_config_concurrency_def concurrency_for_source_def one_slot_config_def
  scheduler_config_default_def create_task_record_def slot_request_def sample_input_def
  quiet_circuit_def update_runtime_def update_task_def runtime_started_def
  runtime_registered_def acquire_permit_def release_permit_def nth_opt_def mark_running_task_def
  record_task_attempt_def section_defs circuit_defs Let_def

text \<open>One of two requests runs, the other waits for the only slot.\<close>

definition busy_system :: system where
  "busy_system = foldl run_task sample_system
     (map (\<lambda>t. (t, sample_input AttemptTimedOut)) [''a'', ''b'', ''a'', ''a'', ''a'', ''a'', ''b''])"

lemma busy_system_reachable: "scheduler_reachable busy_system"
  unfolding busy_system_def by (intro run_tasks_reachable sample_system_reachable)

lemma busy_system_runtime:
  "map_option (\<lambda>r. (rt_running r, rt_queued r)) (sd_runtimes (sy_sched busy_system) ''hr'')
     = Some (1, 1)"
  by (simp add: busy_system_def sample_defs)

lemma concurrency_respected_witness:
  "count_execs (running_at ''hr'') (sy_execs busy_system) = 1 \<and>
   configured_concurrency (sy_sched busy_system) (default_mock_config ''hr'' Rest) = 1"
proof -
  obtain r where r: "sd_runtimes (sy_sched busy_system) ''hr'' = Some r" "rt_running r = 1"
    using busy_system_runtime by auto
  have "configured_concurrency (sy_sched busy_system) (default_mock_config ''hr'' Rest) = 1"
    by (simp add: busy_system_def configured_concurrency_def sample_defs)
  with concurrency_respected [OF busy_system_reachable r(1)] r(2) show ?thesis by simp
qed

definition drained_system :: system where
  "drained_system = foldl run_task busy_system
     (map (\<lambda>t. (t, sample_input AttemptTimedOut)) [''a'', ''a'', ''a'', ''a''])"

text \<open>
  A failed query also takes a waiting one out of the count.  There is a reachable state in
  which a query waits for the only slot of its adapter while the adapter reports no queued query,
  because the failure of another query lowers the queued counter as well as the running one.
\<close>

lemma queued_count_lost:
  "\<exists>sy. scheduler_reachable sy \<and>
    map_option rt_queued (sd_runtimes (sy_sched sy) ''hr'') = Some 0 \<and>
    map_option ex_pc (sy_execs sy ''b'') = Some (AtAcquire 0) \<and>
    map_option aq_state (sd_tasks (sy_sched sy) ''b'') = Some QsPending"
proof -
  have "scheduler_reachable drained_system"
    unfolding drained_system_def by (intro run_tasks_reachable busy_system_reachable)
  moreover have "map_option rt_queued (sd_runtimes (sy_sched drained_system) ''hr'') = Some 0 \<and>
      map_option ex_pc (sy_execs drained_system ''b'') = Some (AtAcquire 0) \<and>
      map_option aq_state (sd_tasks (sy_sched drained_system) ''b'') = Some QsPending"
    by (simp add: drained_system_def busy_system_def gives_up_def retry_policy_default_def
        runtime_snapshot_def health_snapshot_of_def sample_defs)
  ultimately show ?thesis by blast
qed

text \<open>One execution alone, whose only attempt times out.\<close>

definition timed_out_run :: "(scheduler \<times> exec_pc) option" where
  "timed_out_run = exec_run (map sample_input
       [AttemptTimedOut, AttemptTimedOut, AttemptTimedOut, AttemptTimedOut, AttemptTimedOut,
        AttemptTimedOut, AttemptTimedOut, AttemptTimedOut, AttemptTimedOut, AttemptTimedOut])
     (sy_sched sample_system) (slot_request ''a'') AtReserve"

lemma timed_out_run_returns:
  "\<exists>sd' out. timed_out_run = Some (sd', Returned out) \<and>
    sg_retry_policy (sd_config sd') = retry_policy_default\<lparr>ry_max_attempts := 1\<rparr>"
  by (simp add: timed_out_run_def gives_up_def error_result_def retry_policy_default_def
      runtime_snapshot_def health_snapshot_of_def sample_defs)

lemma execution_ends_witness:
  "\<exists>out. exec_path (retry_policy_default\<lparr>ry_max_attempts := 1\<rparr>) (slot_request ''a'') AtReserve 10 (Returned out) \<and>
    outcome_attempts out \<le> 1"
proof -
  let ?p = "retry_policy_default\<lparr>ry_max_attempts := 1\<rparr>" and ?req = "slot_request ''a''"
  obtain sd' out where run: "timed_out_run = Some (sd', Returned out)"
      and config: "sg_retry_policy (sd_config sd') = ?p"
    using timed_out_run_returns by blast
  have p: "sg_retry_policy (sd_config (sy_sched sample_system)) = ?p"
    by (simp add: sample_defs)
  have path: "exec_path ?p ?req AtReserve 10 (Returned out)"
    using exec_path_run [OF exec_path.here run [unfolded timed_out_run_def] p] by (simp add: eval_nat_numeral)
  have "outcome_attempts out \<le> max 1 (ry_max_attempts ?p)"
    using execution_ends [OF path config] by blast
  with path show ?thesis by auto
qed

end
