(* ===== verification/ByteText.thy ===== *)
theory ByteText
  imports RustStrings "HOL-Library.Word"
begin

text \<open>
  Bytes and text: \<open>str::as_bytes\<close> on the code points of the model, which is injective, and a
  concrete encoding of bytes as letters with which the assumptions on base64 and hexadecimal are
  met.
\<close>

type_synonym byte = "8 word"

subsection \<open>UTF-8\<close>

fun utf8_codes :: "nat \<Rightarrow> nat list" where
  "utf8_codes n = (if n < 128 then [n] else [192 + n div 64, 128 + n mod 64])"

definition utf8_char :: "char \<Rightarrow> byte list" where
  "utf8_char c = map word_of_nat (utf8_codes (code_of c))"

definition as_bytes :: "string \<Rightarrow> byte list" where
  "as_bytes s = concat (map utf8_char s)"

lemma utf8_codes_less: "n < 256 \<Longrightarrow> m \<in> set (utf8_codes n) \<Longrightarrow> m < 256"
  by (auto split: if_splits)

lemma utf8_codes_inj: "utf8_codes m = utf8_codes n \<Longrightarrow> m = n"
  by (auto split: if_splits) (metis div_mult_mod_eq)

lemma unat_byte: "n < 256 \<Longrightarrow> unat (word_of_nat n :: byte) = n"
  by (simp add: unsigned_of_nat take_bit_nat_def)

lemma byte_of_nat_inj: "m < 256 \<Longrightarrow> n < 256 \<Longrightarrow> word_of_nat m = (word_of_nat n :: byte) \<Longrightarrow> m = n"
  by (metis unat_byte)

lemma utf8_codes_split:
  assumes "m < 256" "n < 256"
    and "map word_of_nat (utf8_codes m) @ xs = map (word_of_nat :: nat \<Rightarrow> byte) (utf8_codes n) @ ys"
  shows "m = n \<and> xs = ys"
proof -
  have eq: "k \<in> set (utf8_codes m) \<Longrightarrow> l \<in> set (utf8_codes n) \<Longrightarrow>
      word_of_nat k = (word_of_nat l :: byte) \<Longrightarrow> k = l" for k l
    by (rule byte_of_nat_inj) (use assms utf8_codes_less in auto)
  have hd_eq: "hd (utf8_codes m) = hd (utf8_codes n)"
    by (rule eq) (use assms(3) in \<open>auto simp del: of_nat_add split: if_splits\<close>)
  have len: "length (utf8_codes m) = length (utf8_codes n)"
    using hd_eq by (auto split: if_splits)
  then have maps: "map (word_of_nat :: nat \<Rightarrow> byte) (utf8_codes m) = map word_of_nat (utf8_codes n)" "xs = ys"
    using assms(3) by (simp_all del: utf8_codes.simps)
  have "utf8_codes m = utf8_codes n"
  proof (rule nth_equalityI [OF len])
    fix i assume i: "i < length (utf8_codes m)"
    then have "word_of_nat (utf8_codes m ! i) = (word_of_nat (utf8_codes n ! i) :: byte)"
      using maps(1) len by (metis nth_map)
    then show "utf8_codes m ! i = utf8_codes n ! i"
      by (rule eq [rotated 2]) (use i len nth_mem in metis)+
  qed
  with maps(2) utf8_codes_inj show ?thesis by blast
qed

lemma utf8_char_prefix:
  "utf8_char c @ xs = utf8_char d @ ys \<Longrightarrow> c = d \<and> xs = ys"
  using utf8_codes_split [of "code_of c" "code_of d" xs ys] code_of_bound
  by (simp add: utf8_char_def del: utf8_codes.simps)

lemma utf8_char_ne [simp]: "utf8_char c \<noteq> []"
  by (simp add: utf8_char_def)

lemma as_bytes_append: "as_bytes (s @ t) = as_bytes s @ as_bytes t"
  by (simp add: as_bytes_def)

lemma as_bytes_inj [simp]: "as_bytes s = as_bytes t \<longleftrightarrow> s = t"
proof
  show "as_bytes s = as_bytes t \<Longrightarrow> s = t"
  proof (induction s arbitrary: t)
    case Nil
    then show ?case by (cases t) (auto simp: as_bytes_def utf8_char_ne)
  next
    case (Cons c s)
    then obtain d t' where t: "t = d # t'"
      by (cases t) (auto simp: as_bytes_def utf8_char_ne)
    with Cons.prems utf8_char_prefix [of c "as_bytes s" d "as_bytes t'"]
    have "c = d" "as_bytes s = as_bytes t'" by (auto simp: as_bytes_def)
    with Cons.IH t show ?case by simp
  qed
qed simp

subsection \<open>A concrete encoding\<close>

definition sample_encode :: "byte list \<Rightarrow> string" where
  "sample_encode bs = concat (map (\<lambda>b. [char_of (97 + unat b div 16), char_of (97 + unat b mod 16)]) bs)"

fun sample_decode :: "string \<Rightarrow> byte list option" where
  "sample_decode [] = Some []"
| "sample_decode [x] = None"
| "sample_decode (x # y # r) =
     map_option (Cons (of_nat ((code_of x - 97) * 16 + (code_of y - 97)))) (sample_decode r)"

lemma byte_nibbles:
  fixes b :: byte
  shows "unat b div 16 < 16"
  using unsigned_less [of b, where ?'a = nat] by (simp add: less_mult_imp_div_less)

lemma sample_decode_encode: "sample_decode (sample_encode bs) = Some bs"
proof (induction bs)
  case (Cons b bs)
  have code: "code_of (char_of (97 + n)) - 97 = n" if "n < 16" for n :: nat
    using that by (simp add: code_of_def)
  have "unat b div 16 * 16 + unat b mod 16 = unat b" by simp
  with Cons show ?case
    by (simp add: sample_encode_def code byte_nibbles)
qed (simp add: sample_encode_def)

lemma sample_encode_letters: "c \<in> set (sample_encode bs) \<Longrightarrow> 97 \<le> code_of c"
proof -
  have code: "97 \<le> code_of (char_of (97 + n))" if "n < 16" for n :: nat
    using that by (simp add: code_of_def)
  show "c \<in> set (sample_encode bs) \<Longrightarrow> 97 \<le> code_of c"
    by (auto simp: sample_encode_def intro!: code byte_nibbles)
qed

lemma sample_encode_visible: "c \<in> set (sample_encode bs) \<Longrightarrow> code_of c < 127"
proof -
  have code: "code_of (char_of (97 + n)) < 127" if "n < 16" for n :: nat
    using that by (simp add: code_of_def)
  show "c \<in> set (sample_encode bs) \<Longrightarrow> code_of c < 127"
    by (auto simp: sample_encode_def intro!: code byte_nibbles)
qed

lemma sample_encode_no_colon: "CHR '':'' \<notin> set (sample_encode bs)"
  using sample_encode_letters [of "CHR '':''" bs] by (auto simp: code_of_def)

lemma sample_encode_no_dot: "CHR ''.'' \<notin> set (sample_encode bs)"
  using sample_encode_letters [of "CHR ''.''" bs] by (auto simp: code_of_def)

end
