(* ===== verification/KeyServices.thy ===== *)
theory KeyServices
  imports JsonValue ByteText
begin

unbundle bit_operations_syntax

text \<open>
  The key services of \<open>sdqp-encryption\<close>, \<open>kms.rs\<close>: the contract services, which wrap a data key
  with a mask derived from their metadata, the client of Vault's transit engine, and the registry
  built from the configuration.

  Third-party code is the record \<open>crypto_env\<close>: SHA-256, base64, the authenticated cipher
  AES-256-GCM-SIV, and the HTTP client that talks to Vault.  Random bytes and identifiers are
  arguments of the operations that draw them.
\<close>

subsection \<open>Data\<close>

datatype kms_error =
    InvalidWrappedKey | InvalidDataKeyLength | UnsupportedProvider string
  | VaultTransport string | InvalidVaultResponse

record crypto_env =
  cr_sha256 :: "string \<Rightarrow> byte list"
  cr_encode :: "byte list \<Rightarrow> string"
  cr_decode :: "string \<Rightarrow> byte list option"
  cr_seal :: "byte list \<Rightarrow> byte list \<Rightarrow> byte list \<Rightarrow> byte list option"
  cr_open :: "byte list \<Rightarrow> byte list \<Rightarrow> byte list \<Rightarrow> byte list option"
  cr_post :: "string \<Rightarrow> string \<Rightarrow> json \<Rightarrow> string + json"
  cr_get :: "string \<Rightarrow> string \<Rightarrow> string + json"

record data_key_material =
  km_dek_id :: string
  km_plaintext :: "byte list"
  km_wrapped_dek :: string
  km_kek_id :: string
  km_key_version :: "string option"

record data_key_wrap =
  kw_wrapped_dek :: string
  kw_kek_id :: string
  kw_key_version :: "string option"

datatype kms_provider = MockProvider | VaultProvider | AwsProvider | AzureProvider | AliyunProvider

definition kms_provider_parse :: "string \<Rightarrow> kms_error + kms_provider" where
  "kms_provider_parse v =
     (let s = to_ascii_lowercase (trim v) in
      if s \<in> {''mock'', ''development''} then Inr MockProvider
      else if s = ''vault'' then Inr VaultProvider
      else if s \<in> {''aws'', ''aws-kms''} then Inr AwsProvider
      else if s \<in> {''azure'', ''azure-key-vault'', ''azure-keyvault''} then Inr AzureProvider
      else if s \<in> {''aliyun'', ''aliyun-kms''} then Inr AliyunProvider
      else Inl (UnsupportedProvider s))"

fun kms_provider_label :: "kms_provider \<Rightarrow> string" where
  "kms_provider_label MockProvider = ''mock''"
| "kms_provider_label VaultProvider = ''vault''"
| "kms_provider_label AwsProvider = ''aws''"
| "kms_provider_label AzureProvider = ''azure''"
| "kms_provider_label AliyunProvider = ''aliyun''"

record kms_client_config =
  kc_provider :: kms_provider
  kc_endpoint :: "string option"
  kc_master_key_id :: string
  kc_key_ring :: "string option"
  kc_auth_token :: "string option"
  kc_region :: "string option"
  kc_key_version :: "string option"

definition u32_max :: nat where
  "u32_max = 2 ^ 32 - 1"

definition parsed_key_version :: "kms_client_config \<Rightarrow> 32 word" where
  "parsed_key_version cfg =
     (case Option.bind (kc_key_version cfg) (\<lambda>v. parse_unsigned u32_max (trim v)) of
        Some n \<Rightarrow> if 1 \<le> n then of_nat n else 1
      | None \<Rightarrow> 1)"

subsection \<open>Wrapped keys\<close>

text \<open>
  The mask is repeated over the bytes.  An empty mask would be a remainder by zero; a digest has
  32 bytes.
\<close>

definition xor_mask :: "byte list \<Rightarrow> byte list \<Rightarrow> byte list" where
  "xor_mask mk bs = map (\<lambda>i. bs ! i XOR mk ! (i mod length mk)) [0..<length bs]"

definition wrap_bytes :: "crypto_env \<Rightarrow> string \<Rightarrow> 32 word \<Rightarrow> byte list \<Rightarrow> byte list \<Rightarrow> string" where
  "wrap_bytes env prefix version mk bs =
     prefix @ '':v'' @ show_nat (unat version) @ '':'' @ cr_encode env (xor_mask mk bs)"

definition unwrap_bytes ::
  "crypto_env \<Rightarrow> string \<Rightarrow> string list \<Rightarrow> (32 word \<Rightarrow> byte list) \<Rightarrow> kms_error + (32 word \<times> byte list)" where
  "unwrap_bytes env wrapped accepted mk =
     (case rsplit_once (CHR '':'') wrapped of
        None \<Rightarrow> Inl InvalidWrappedKey
      | Some (prefix, ciphertext) \<Rightarrow>
          (case find_map (\<lambda>a. Option.bind (strip_prefix prefix (a @ '':v'')) (parse_unsigned u32_max)) accepted of
             None \<Rightarrow> Inl InvalidWrappedKey
           | Some n \<Rightarrow>
               (case cr_decode env ciphertext of
                  None \<Rightarrow> Inl InvalidWrappedKey
                | Some bs \<Rightarrow> Inr (of_nat n, xor_mask (mk (of_nat n)) bs))))"

subsection \<open>The contract services\<close>

record kms_core =
  kk_provider_name :: string
  kk_wrap_prefix :: string
  kk_master_key_id :: string
  kk_entropy_parts :: "string list"
  kk_version :: "32 word"

definition kms_core_new ::
  "string \<Rightarrow> string \<Rightarrow> string \<Rightarrow> string list \<Rightarrow> 32 word \<Rightarrow> kms_core" where
  "kms_core_new provider prefix master entropy version =
     \<lparr>kk_provider_name = provider, kk_wrap_prefix = prefix, kk_master_key_id = master,
      kk_entropy_parts = entropy, kk_version = max version 1\<rparr>"

definition wrap_mask :: "crypto_env \<Rightarrow> kms_core \<Rightarrow> 32 word \<Rightarrow> byte list" where
  "wrap_mask env c version =
     cr_sha256 env (kk_provider_name c @ ''::'' @ kk_master_key_id c @ ''::''
       @ concat (map (\<lambda>p. p @ ''::'') (kk_entropy_parts c)) @ show_nat (unat version))"

definition core_wrap :: "crypto_env \<Rightarrow> kms_core \<Rightarrow> byte list \<Rightarrow> data_key_wrap" where
  "core_wrap env c bs =
     \<lparr>kw_wrapped_dek = wrap_bytes env (kk_wrap_prefix c) (kk_version c) (wrap_mask env c (kk_version c)) bs,
      kw_kek_id = kk_master_key_id c, kw_key_version = Some (show_nat (unat (kk_version c)))\<rparr>"

definition core_unwrap :: "crypto_env \<Rightarrow> kms_core \<Rightarrow> string \<Rightarrow> kms_error + byte list" where
  "core_unwrap env c wrapped =
     res_bind (unwrap_bytes env wrapped [kk_wrap_prefix c] (wrap_mask env c))
       (\<lambda>(version, bs). if length bs \<noteq> 32 then Inl InvalidDataKeyLength else Inr bs)"

definition core_rotate :: "kms_core \<Rightarrow> kms_core" where
  "core_rotate c = c\<lparr>kk_version := kk_version c + 1\<rparr>"

subsection \<open>Vault\<close>

text \<open>
  A request goes to the base address, a slash and the path.  The reply is the error text of the
  client, also for an error status, or the JSON body, read as the structure the code names: a
  string that must be there, a number that may be missing.
\<close>

record vault_client =
  vc_base_url :: string
  vc_token :: string
  vc_key_name :: string

definition vault_new :: "string \<Rightarrow> string \<Rightarrow> string \<Rightarrow> vault_client" where
  "vault_new base token key =
     \<lparr>vc_base_url = trim_end_matches (CHR ''/'') base, vc_token = token, vc_key_name = key\<rparr>"

definition vault_url :: "vault_client \<Rightarrow> string \<Rightarrow> string" where
  "vault_url v path = vc_base_url v @ ''/'' @ trim_start_matches (CHR ''/'') path"

definition vault_request :: "crypto_env \<Rightarrow> vault_client \<Rightarrow> string \<Rightarrow> json \<Rightarrow> kms_error + json" where
  "vault_request env v path body =
     (case cr_post env (vault_url v (path @ vc_key_name v)) (vc_token v) body of
        Inl e \<Rightarrow> Inl (VaultTransport e) | Inr r \<Rightarrow> Inr r)"

definition bad_body :: kms_error where
  "bad_body = VaultTransport ''error decoding response body''"

definition vault_data :: "json \<Rightarrow> kms_error + json" where
  "vault_data r = res_of_option bad_body (json_get ''data'' r)"

definition vault_string :: "string \<Rightarrow> json \<Rightarrow> kms_error + string" where
  "vault_string k d = res_of_option bad_body (Option.bind (json_get k d) json_str)"

definition vault_u32 :: "string \<Rightarrow> json \<Rightarrow> kms_error + string option" where
  "vault_u32 k d =
     (case json_get k d of
        None \<Rightarrow> Inr None
      | Some JNull \<Rightarrow> Inr None
      | Some (JU64 n) \<Rightarrow> if n \<le> u32_max then Inr (Some (show_nat n)) else Inl bad_body
      | Some j \<Rightarrow> Inl bad_body)"

definition vault_key_bytes :: "crypto_env \<Rightarrow> string \<Rightarrow> kms_error + byte list" where
  "vault_key_bytes env s =
     (case cr_decode env s of
        None \<Rightarrow> Inl InvalidVaultResponse
      | Some bs \<Rightarrow> if length bs \<noteq> 32 then Inl InvalidDataKeyLength else Inr bs)"

definition vault_wrap_reply :: "vault_client \<Rightarrow> json \<Rightarrow> kms_error + data_key_wrap" where
  "vault_wrap_reply v r =
     res_bind (vault_data r) (\<lambda>d.
     res_bind (vault_string ''ciphertext'' d) (\<lambda>c.
     res_bind (vault_u32 ''key_version'' d) (\<lambda>k.
       Inr \<lparr>kw_wrapped_dek = c, kw_kek_id = vc_key_name v, kw_key_version = k\<rparr>)))"

definition vault_generate :: "crypto_env \<Rightarrow> string \<Rightarrow> vault_client \<Rightarrow> kms_error + data_key_material" where
  "vault_generate env ulid v =
     res_bind (vault_request env v ''v1/transit/datakey/plaintext/'' (JObject [(''bits'', JU64 256)])) (\<lambda>r.
     res_bind (vault_data r) (\<lambda>d.
     res_bind (vault_string ''plaintext'' d) (\<lambda>p.
     res_bind (vault_string ''ciphertext'' d) (\<lambda>c.
     res_bind (vault_u32 ''key_version'' d) (\<lambda>k.
     res_bind (vault_key_bytes env p) (\<lambda>bs.
       Inr \<lparr>km_dek_id = ulid, km_plaintext = bs, km_wrapped_dek = c, km_kek_id = vc_key_name v,
            km_key_version = k\<rparr>))))))"

definition vault_wrap :: "crypto_env \<Rightarrow> vault_client \<Rightarrow> byte list \<Rightarrow> kms_error + data_key_wrap" where
  "vault_wrap env v bs =
     res_bind (vault_request env v ''v1/transit/encrypt/'' (JObject [(''plaintext'', JString (cr_encode env bs))]))
       (vault_wrap_reply v)"

definition vault_unwrap :: "crypto_env \<Rightarrow> vault_client \<Rightarrow> string \<Rightarrow> kms_error + byte list" where
  "vault_unwrap env v wrapped =
     res_bind (vault_request env v ''v1/transit/decrypt/'' (JObject [(''ciphertext'', JString wrapped)])) (\<lambda>r.
     res_bind (vault_data r) (\<lambda>d.
     res_bind (vault_string ''plaintext'' d) (vault_key_bytes env)))"

definition vault_rewrap :: "crypto_env \<Rightarrow> vault_client \<Rightarrow> string \<Rightarrow> kms_error + data_key_wrap" where
  "vault_rewrap env v wrapped =
     res_bind (vault_request env v ''v1/transit/rewrap/'' (JObject [(''ciphertext'', JString wrapped)]))
       (vault_wrap_reply v)"

definition vault_key_version :: "crypto_env \<Rightarrow> vault_client \<Rightarrow> string option" where
  "vault_key_version env v =
     (case cr_get env (vault_url v (''v1/transit/keys/'' @ vc_key_name v)) (vc_token v) of
        Inl e \<Rightarrow> None
      | Inr r \<Rightarrow>
          (case res_bind (vault_data r) (vault_u32 ''latest_version'') of Inl e \<Rightarrow> None | Inr k \<Rightarrow> k))"

subsection \<open>Services\<close>

datatype kms_service =
    MockKms kms_core
  | VaultContractKms kms_core
  | VaultTransitKms vault_client
  | AwsKms kms_core
  | AzureKms kms_core
  | AliyunKms kms_core

definition mock_kms_new :: "string \<Rightarrow> string \<Rightarrow> 32 word \<Rightarrow> kms_service" where
  "mock_kms_new master ring version = MockKms (kms_core_new ''mock'' ''mockkms'' master [ring] version)"

definition vault_contract_new :: "string \<Rightarrow> string \<Rightarrow> 32 word \<Rightarrow> kms_service" where
  "vault_contract_new base key version =
     VaultContractKms (kms_core_new ''vault'' ''vaultcontract'' key [base] version)"

definition aws_kms_new :: "string \<Rightarrow> string \<Rightarrow> string \<Rightarrow> 32 word \<Rightarrow> kms_service" where
  "aws_kms_new region endpoint master version =
     AwsKms (kms_core_new ''aws'' ''awskms'' master [region, endpoint] version)"

definition azure_kms_new :: "string \<Rightarrow> string \<Rightarrow> 32 word \<Rightarrow> kms_service" where
  "azure_kms_new url key version = AzureKms (kms_core_new ''azure'' ''azurekms'' key [url] version)"

definition aliyun_kms_new :: "string \<Rightarrow> string \<Rightarrow> string \<Rightarrow> string \<Rightarrow> 32 word \<Rightarrow> kms_service" where
  "aliyun_kms_new region endpoint master ring version =
     AliyunKms (kms_core_new ''aliyun'' ''aliyunkms'' master [region, endpoint, ring] version)"

fun service_core :: "kms_service \<Rightarrow> kms_core + vault_client" where
  "service_core (MockKms c) = Inl c"
| "service_core (VaultContractKms c) = Inl c"
| "service_core (VaultTransitKms v) = Inr v"
| "service_core (AwsKms c) = Inl c"
| "service_core (AzureKms c) = Inl c"
| "service_core (AliyunKms c) = Inl c"

definition service_provider_name :: "kms_service \<Rightarrow> string" where
  "service_provider_name s = (case service_core s of Inl c \<Rightarrow> kk_provider_name c | Inr v \<Rightarrow> ''vault'')"

definition service_master_key_id :: "kms_service \<Rightarrow> string" where
  "service_master_key_id s = (case service_core s of Inl c \<Rightarrow> kk_master_key_id c | Inr v \<Rightarrow> vc_key_name v)"

definition service_wrap :: "crypto_env \<Rightarrow> kms_service \<Rightarrow> byte list \<Rightarrow> string \<Rightarrow> kms_error + data_key_wrap" where
  "service_wrap env s bs dek_id =
     (case service_core s of Inl c \<Rightarrow> Inr (core_wrap env c bs) | Inr v \<Rightarrow> vault_wrap env v bs)"

definition service_unwrap :: "crypto_env \<Rightarrow> kms_service \<Rightarrow> string \<Rightarrow> string \<Rightarrow> kms_error + byte list" where
  "service_unwrap env s wrapped dek_id =
     (case service_core s of Inl c \<Rightarrow> core_unwrap env c wrapped | Inr v \<Rightarrow> vault_unwrap env v wrapped)"

definition service_rewrap :: "crypto_env \<Rightarrow> kms_service \<Rightarrow> string \<Rightarrow> string \<Rightarrow> kms_error + data_key_wrap" where
  "service_rewrap env s wrapped dek_id =
     (case service_core s of
        Inl c \<Rightarrow> res_bind (service_unwrap env s wrapped dek_id) (\<lambda>bs. service_wrap env s bs dek_id)
      | Inr v \<Rightarrow> vault_rewrap env v wrapped)"

text \<open>The random bytes of a new data key and its identifier are arguments.\<close>

definition service_generate ::
  "crypto_env \<Rightarrow> byte list \<Rightarrow> string \<Rightarrow> kms_service \<Rightarrow> kms_error + data_key_material" where
  "service_generate env random ulid s =
     (case service_core s of
        Inl c \<Rightarrow> res_bind (service_wrap env s random ulid) (\<lambda>w.
          Inr \<lparr>km_dek_id = ulid, km_plaintext = random, km_wrapped_dek = kw_wrapped_dek w,
               km_kek_id = kw_kek_id w, km_key_version = kw_key_version w\<rparr>)
      | Inr v \<Rightarrow> vault_generate env ulid v)"

definition service_key_version :: "crypto_env \<Rightarrow> kms_service \<Rightarrow> string option" where
  "service_key_version env s =
     (case service_core s of
        Inl c \<Rightarrow> Some (show_nat (unat (kk_version c))) | Inr v \<Rightarrow> vault_key_version env v)"

fun mock_rotate :: "kms_service \<Rightarrow> kms_service" where
  "mock_rotate (MockKms c) = MockKms (core_rotate c)"
| "mock_rotate s = s"

subsection \<open>The registry\<close>

type_synonym kms_services = "string \<Rightarrow> kms_service option"

record kms_registry =
  kr_active_provider :: string
  kr_services :: kms_services

definition has_value :: "string option \<Rightarrow> bool" where
  "has_value v = (case v of None \<Rightarrow> False | Some s \<Rightarrow> trim s \<noteq> [])"

definition vault_service :: "kms_client_config \<Rightarrow> kms_service" where
  "vault_service cfg =
     (if kc_provider cfg = VaultProvider \<and> has_value (kc_auth_token cfg)
      then VaultTransitKms (vault_new (option_or (kc_endpoint cfg) []) (option_or (kc_auth_token cfg) [])
             (kc_master_key_id cfg))
      else vault_contract_new (option_or (kc_endpoint cfg) []) (kc_master_key_id cfg) (parsed_key_version cfg))"

definition build_kms_registry :: "kms_client_config \<Rightarrow> kms_error + kms_registry" where
  "build_kms_registry cfg =
     (let version = parsed_key_version cfg; master = kc_master_key_id cfg;
          endpoint = option_or (kc_endpoint cfg) [];
          mock = mock_kms_new master (option_or (kc_key_ring cfg) ''sdqp-default-ring'') version in
      Inr \<lparr>kr_active_provider = kms_provider_label (kc_provider cfg),
           kr_services = [''mock'' \<mapsto> mock, ''development'' \<mapsto> mock,
             ''vault'' \<mapsto> vault_service cfg,
             ''aws'' \<mapsto> aws_kms_new (option_or (kc_region cfg) ''local'') endpoint master version,
             ''azure'' \<mapsto> azure_kms_new endpoint master version,
             ''aliyun'' \<mapsto> aliyun_kms_new (option_or (kc_region cfg) ''cn-hangzhou'') endpoint master
               (option_or (kc_key_ring cfg) ''default'') version]\<rparr>)"

end
