(* ===== verification/Envelope.thy ===== *)
theory Envelope
  imports KeyServices
begin

text \<open>
  The envelope ciphers of \<open>envelope.rs\<close> and the pipeline check of \<open>pipeline.rs\<close>.  A payload names
  the provider whose service wrapped its data key; re-wrapping moves it to the active provider
  and leaves the ciphertext alone.  The random nonce, the bytes of a new data key and its
  identifier are arguments.  Decryption is \<open>None\<close> where the code panics.
\<close>

subsection \<open>Data\<close>

record encrypted_payload =
  ep_ciphertext :: string
  ep_dek_id :: string
  ep_wrapped_dek :: string
  ep_kek_id :: string
  ep_kms_provider :: string
  ep_algorithm :: string
  ep_nonce :: string
  ep_key_version :: "string option"

datatype encryption_error =
    InvalidCiphertext | InvalidNonce | UnknownKmsProvider string | UnsupportedAlgorithm string
  | KmsFailure kms_error

definition kms_result :: "kms_error + 'a \<Rightarrow> encryption_error + 'a" where
  "kms_result r = (case r of Inl e \<Rightarrow> Inl (KmsFailure e) | Inr a \<Rightarrow> Inr a)"

lemma kms_result_simps [simp]: "kms_result (Inl e) = Inl (KmsFailure e)" "kms_result (Inr a) = Inr a"
  by (simp_all add: kms_result_def)

subsection \<open>The development cipher\<close>

record development_cipher =
  dv_dek_id :: string
  dv_key_byte :: byte

definition development_encrypt ::
  "crypto_env \<Rightarrow> development_cipher \<Rightarrow> byte list \<Rightarrow> encryption_error + encrypted_payload" where
  "development_encrypt env c plaintext =
     Inr \<lparr>ep_ciphertext = cr_encode env (map (\<lambda>b. b XOR dv_key_byte c) plaintext),
          ep_dek_id = dv_dek_id c,
          ep_wrapped_dek = cr_encode env (replicate 32 (dv_key_byte c)),
          ep_kek_id = ''development-kek'', ep_kms_provider = ''development'',
          ep_algorithm = ''xor-dev'', ep_nonce = [], ep_key_version = None\<rparr>"

definition development_decrypt ::
  "crypto_env \<Rightarrow> development_cipher \<Rightarrow> encrypted_payload \<Rightarrow> encryption_error + byte list" where
  "development_decrypt env c p =
     (if ep_algorithm p \<noteq> [] \<and> ep_algorithm p \<noteq> ''xor-dev'' then Inl (UnsupportedAlgorithm (ep_algorithm p))
      else case cr_decode env (ep_ciphertext p) of
        None \<Rightarrow> Inl InvalidCiphertext
      | Some bs \<Rightarrow> Inr (map (\<lambda>b. b XOR dv_key_byte c) bs))"

definition development_rewrap :: "encrypted_payload \<Rightarrow> encryption_error + encrypted_payload" where
  "development_rewrap p = Inr p"

subsection \<open>Sealing with one service\<close>

text \<open>The cipher takes keys of 32 bytes; a nonce of another length than 12 bytes panics.\<close>

definition aead_seal :: "crypto_env \<Rightarrow> byte list \<Rightarrow> byte list \<Rightarrow> byte list \<Rightarrow> encryption_error + byte list" where
  "aead_seal env key nonce plaintext =
     (if length key \<noteq> 32 then Inl InvalidCiphertext
      else res_of_option InvalidCiphertext (cr_seal env key nonce plaintext))"

definition aead_open ::
  "crypto_env \<Rightarrow> byte list \<Rightarrow> byte list \<Rightarrow> byte list \<Rightarrow> (encryption_error + byte list) option" where
  "aead_open env key nonce ciphertext =
     (if length key \<noteq> 32 then Some (Inl InvalidCiphertext)
      else if length nonce \<noteq> 12 then None
      else Some (res_of_option InvalidCiphertext (cr_open env key nonce ciphertext)))"

definition encrypt_with_service ::
  "crypto_env \<Rightarrow> byte list \<Rightarrow> byte list \<Rightarrow> string \<Rightarrow> kms_service \<Rightarrow> byte list
     \<Rightarrow> encryption_error + encrypted_payload" where
  "encrypt_with_service env nonce random ulid kms plaintext =
     res_bind (kms_result (service_generate env random ulid kms)) (\<lambda>m.
     res_bind (aead_seal env (km_plaintext m) nonce plaintext) (\<lambda>c.
       Inr \<lparr>ep_ciphertext = cr_encode env c, ep_dek_id = km_dek_id m, ep_wrapped_dek = km_wrapped_dek m,
            ep_kek_id = km_kek_id m, ep_kms_provider = service_provider_name kms,
            ep_algorithm = ''aes-256-gcm-siv'', ep_nonce = cr_encode env nonce,
            ep_key_version = km_key_version m\<rparr>))"

definition decrypt_with_service ::
  "crypto_env \<Rightarrow> encryption_error + kms_service \<Rightarrow> encrypted_payload \<Rightarrow> (encryption_error + byte list) option" where
  "decrypt_with_service env service p =
     (if ep_algorithm p \<noteq> ''aes-256-gcm-siv'' then Some (Inl (UnsupportedAlgorithm (ep_algorithm p)))
      else case cr_decode env (ep_nonce p) of
        None \<Rightarrow> Some (Inl InvalidNonce)
      | Some nonce \<Rightarrow>
          (case cr_decode env (ep_ciphertext p) of
             None \<Rightarrow> Some (Inl InvalidCiphertext)
           | Some ciphertext \<Rightarrow>
               (case res_bind service
                   (\<lambda>kms. kms_result (service_unwrap env kms (ep_wrapped_dek p) (ep_dek_id p))) of
                  Inl e \<Rightarrow> Some (Inl e)
                | Inr dek \<Rightarrow> aead_open env dek nonce ciphertext)))"

subsection \<open>The cipher of one service\<close>

definition kms_encrypt ::
  "crypto_env \<Rightarrow> byte list \<Rightarrow> byte list \<Rightarrow> string \<Rightarrow> kms_service \<Rightarrow> byte list
     \<Rightarrow> encryption_error + encrypted_payload" where
  "kms_encrypt env nonce random ulid kms plaintext = encrypt_with_service env nonce random ulid kms plaintext"

definition kms_decrypt ::
  "crypto_env \<Rightarrow> kms_service \<Rightarrow> encrypted_payload \<Rightarrow> (encryption_error + byte list) option" where
  "kms_decrypt env kms p = decrypt_with_service env (Inr kms) p"

definition kms_rewrap ::
  "crypto_env \<Rightarrow> kms_service \<Rightarrow> encrypted_payload \<Rightarrow> encryption_error + encrypted_payload" where
  "kms_rewrap env kms p =
     res_bind (kms_result (service_rewrap env kms (ep_wrapped_dek p) (ep_dek_id p))) (\<lambda>w.
       Inr (p\<lparr>ep_wrapped_dek := kw_wrapped_dek w, ep_kek_id := kw_kek_id w,
              ep_key_version := kw_key_version w\<rparr>))"

subsection \<open>The cipher of many providers\<close>

record provider_cipher =
  pv_active_provider :: string
  pv_services :: kms_services

definition provider_cipher_new :: "kms_registry \<Rightarrow> provider_cipher" where
  "provider_cipher_new r = \<lparr>pv_active_provider = kr_active_provider r, pv_services = kr_services r\<rparr>"

definition service_for_provider :: "provider_cipher \<Rightarrow> string \<Rightarrow> encryption_error + kms_service" where
  "service_for_provider c provider = res_of_option (UnknownKmsProvider provider) (pv_services c provider)"

definition active_service :: "provider_cipher \<Rightarrow> encryption_error + kms_service" where
  "active_service c = service_for_provider c (pv_active_provider c)"

definition provider_encrypt ::
  "crypto_env \<Rightarrow> byte list \<Rightarrow> byte list \<Rightarrow> string \<Rightarrow> provider_cipher \<Rightarrow> byte list
     \<Rightarrow> encryption_error + encrypted_payload" where
  "provider_encrypt env nonce random ulid c plaintext =
     res_bind (active_service c) (\<lambda>kms. encrypt_with_service env nonce random ulid kms plaintext)"

definition provider_decrypt ::
  "crypto_env \<Rightarrow> provider_cipher \<Rightarrow> encrypted_payload \<Rightarrow> (encryption_error + byte list) option" where
  "provider_decrypt env c p = decrypt_with_service env (service_for_provider c (ep_kms_provider p)) p"

definition provider_rewrap ::
  "crypto_env \<Rightarrow> provider_cipher \<Rightarrow> encrypted_payload \<Rightarrow> encryption_error + encrypted_payload" where
  "provider_rewrap env c p =
     res_bind (service_for_provider c (ep_kms_provider p)) (\<lambda>source.
     res_bind (active_service c) (\<lambda>target.
     res_bind (if service_provider_name source = service_provider_name target
               then kms_result (service_rewrap env target (ep_wrapped_dek p) (ep_dek_id p))
               else res_bind (kms_result (service_unwrap env source (ep_wrapped_dek p) (ep_dek_id p)))
                 (\<lambda>dek. kms_result (service_wrap env target dek (ep_dek_id p)))) (\<lambda>w.
       Inr (p\<lparr>ep_wrapped_dek := kw_wrapped_dek w, ep_kek_id := kw_kek_id w,
              ep_kms_provider := service_provider_name target,
              ep_key_version := kw_key_version w\<rparr>))))"

subsection \<open>The pipeline\<close>

record pipeline_config =
  pl_require_masking :: bool
  pl_require_watermark :: bool

datatype pipeline_error = MissingWatermarkStep | MissingMaskingStep

definition pipeline_validate :: "pipeline_config \<Rightarrow> pipeline_error + unit" where
  "pipeline_validate c =
     (if \<not> pl_require_watermark c then Inl MissingWatermarkStep
      else if \<not> pl_require_masking c then Inl MissingMaskingStep
      else Inr ())"

subsection \<open>What is asked of the libraries\<close>

text \<open>
  A digest has 32 bytes, base64 can be decoded and contains no colon, and what the cipher seals it
  opens again with the same key and nonce.
\<close>

definition crypto_ok :: "crypto_env \<Rightarrow> bool" where
  "crypto_ok env =
     ((\<forall>s. length (cr_sha256 env s) = 32) \<and>
      (\<forall>bs. cr_decode env (cr_encode env bs) = Some bs \<and> CHR '':'' \<notin> set (cr_encode env bs)) \<and>
      (\<forall>k n p c. cr_seal env k n p = Some c \<longrightarrow> cr_open env k n c = Some p))"

lemma xor_mask_length [simp]: "length (xor_mask mk bs) = length bs"
  by (simp add: xor_mask_def)

lemma xor_mask_involutive: "xor_mask mk (xor_mask mk bs) = bs"
  by (auto simp: xor_mask_def bit_eq_iff bit_xor_iff intro!: nth_equalityI)

lemma unwrap_wrap_bytes:
  assumes "crypto_ok env"
  shows "unwrap_bytes env (wrap_bytes env prefix v (mk v) bs) [prefix] mk = Inr (v, bs)"
proof -
  have colon: "CHR '':'' \<notin> set (cr_encode env x)" and decode: "cr_decode env (cr_encode env x) = Some x" for x
    using assms by (simp_all add: crypto_ok_def)
  have "rsplit_once (CHR '':'') (wrap_bytes env prefix v (mk v) bs)
      = Some (prefix @ '':v'' @ show_nat (unat v), cr_encode env (xor_mask (mk v) bs))"
    using rsplit_once_append [OF colon, of "prefix @ '':v'' @ show_nat (unat v)"]
    by (simp add: wrap_bytes_def)
  moreover have "strip_prefix (prefix @ '':v'' @ show_nat (unat v)) (prefix @ '':v'') = Some (show_nat (unat v))"
    using strip_prefix_append [of "prefix @ '':v''"] by simp
  moreover have "parse_unsigned u32_max (show_nat (unat v)) = Some (unat v)"
    using unsigned_less [of v, where ?'a = nat] by (intro parse_unsigned_show_nat) (simp add: u32_max_def)
  ultimately show ?thesis
    by (simp add: unwrap_bytes_def decode xor_mask_involutive)
qed

text \<open>Two services of the same metadata differ in their key version alone.\<close>

definition same_core :: "kms_core \<Rightarrow> kms_core \<Rightarrow> bool" where
  "same_core c c' = (c' = c\<lparr>kk_version := kk_version c'\<rparr>)"

lemma same_core_fields:
  assumes "same_core c c'"
  shows "kk_wrap_prefix c' = kk_wrap_prefix c" "kk_provider_name c' = kk_provider_name c"
    "kk_master_key_id c' = kk_master_key_id c" "kk_entropy_parts c' = kk_entropy_parts c"
  using assms unfolding same_core_def by (metis kms_core.select_convs kms_core.surjective kms_core.update_convs(5))+

lemma same_core_mask: "same_core c c' \<Longrightarrow> wrap_mask env c' = wrap_mask env c"
  by (rule ext) (simp add: wrap_mask_def same_core_fields)

lemma same_core_unwrap: "same_core c c' \<Longrightarrow> core_unwrap env c' w = core_unwrap env c w"
  by (simp add: core_unwrap_def same_core_fields same_core_mask)

lemma core_unwrap_wrap:
  assumes "crypto_ok env" and "length bs = 32" and "same_core c c'"
  shows "core_unwrap env c' (kw_wrapped_dek (core_wrap env c bs)) = Inr bs"
  using assms unwrap_wrap_bytes [of env "kk_wrap_prefix c" "kk_version c" "wrap_mask env c" bs]
  by (simp add: same_core_unwrap) (simp add: core_unwrap_def core_wrap_def)

subsection \<open>Ciphers built from configurations\<close>

definition cipher_of :: "kms_client_config \<Rightarrow> provider_cipher" where
  "cipher_of cfg = provider_cipher_new (projr (build_kms_registry cfg))"

definition contract_only :: "kms_client_config \<Rightarrow> bool" where
  "contract_only cfg = (\<not> (kc_provider cfg = VaultProvider \<and> has_value (kc_auth_token cfg)))"

definition same_metadata :: "kms_client_config \<Rightarrow> kms_client_config \<Rightarrow> bool" where
  "same_metadata cfg cfg' =
     (kc_endpoint cfg' = kc_endpoint cfg \<and> kc_master_key_id cfg' = kc_master_key_id cfg \<and>
      kc_key_ring cfg' = kc_key_ring cfg \<and> kc_region cfg' = kc_region cfg)"

definition same_service :: "kms_service \<Rightarrow> kms_service \<Rightarrow> bool" where
  "same_service s s' = (\<exists>c c'. service_core s = Inl c \<and> service_core s' = Inl c' \<and> same_core c c')"

lemmas service_new_defs = mock_kms_new_def vault_contract_new_def aws_kms_new_def azure_kms_new_def
  aliyun_kms_new_def

lemma same_core_new [simp]: "same_core (kms_core_new p w m e v) (kms_core_new p w m e v')"
  by (simp add: same_core_def kms_core_new_def)

lemma services_agree:
  assumes "contract_only cfg" and "contract_only cfg'" and "same_metadata cfg cfg'"
  shows "rel_option same_service (pv_services (cipher_of cfg) n) (pv_services (cipher_of cfg') n)"
  using assms
  by (auto simp: cipher_of_def provider_cipher_new_def build_kms_registry_def Let_def service_new_defs
      vault_service_def contract_only_def same_metadata_def same_service_def)

lemma service_under_its_name:
  assumes "contract_only cfg" and "pv_services (cipher_of cfg) n = Some s"
  shows "pv_services (cipher_of cfg) (service_provider_name s) = Some s"
  using assms
  by (auto simp: cipher_of_def provider_cipher_new_def build_kms_registry_def Let_def service_new_defs
      vault_service_def contract_only_def service_provider_name_def kms_core_new_def split: if_splits)

lemma active_service_exists:
  assumes "contract_only cfg"
  obtains s c where "active_service (cipher_of cfg) = Inr s" "service_core s = Inl c"
    "pv_services (cipher_of cfg) (service_provider_name s) = Some s"
    "service_provider_name s = kms_provider_label (kc_provider cfg)"
  using assms
  by (cases "kc_provider cfg")
    (auto simp: cipher_of_def provider_cipher_new_def build_kms_registry_def Let_def service_new_defs
      vault_service_def contract_only_def service_provider_name_def kms_core_new_def active_service_def
      service_for_provider_def split: if_splits)

text \<open>The data key a cipher of a configuration recovers from a payload.\<close>

definition holds_key :: "crypto_env \<Rightarrow> kms_client_config \<Rightarrow> encrypted_payload \<Rightarrow> byte list \<Rightarrow> bool" where
  "holds_key env cfg p dek =
     (\<exists>s c. pv_services (cipher_of cfg) (ep_kms_provider p) = Some s \<and> service_core s = Inl c \<and>
        core_unwrap env c (ep_wrapped_dek p) = Inr dek)"

lemma holds_key_other:
  assumes "holds_key env cfg p dek" and "contract_only cfg" and "contract_only cfg'" and "same_metadata cfg cfg'"
  shows "holds_key env cfg' p dek"
proof -
  obtain s c where s: "pv_services (cipher_of cfg) (ep_kms_provider p) = Some s" "service_core s = Inl c"
      "core_unwrap env c (ep_wrapped_dek p) = Inr dek"
    using assms(1) by (auto simp: holds_key_def)
  have "rel_option same_service (Some s) (pv_services (cipher_of cfg') (ep_kms_provider p))"
    using services_agree [OF assms(2-4), of "ep_kms_provider p"] s(1) by simp
  then obtain s' where "pv_services (cipher_of cfg') (ep_kms_provider p) = Some s'" "same_service s s'"
    by (auto simp: option_rel_Some1)
  with s show ?thesis by (auto simp: holds_key_def same_service_def same_core_unwrap)
qed

lemma rewrap_keeps_key:
  assumes "crypto_ok env" and "contract_only cfg" and "holds_key env cfg p dek" and "length dek = 32"
  obtains p' where "provider_rewrap env (cipher_of cfg) p = Inr p'" "holds_key env cfg p' dek"
    "ep_ciphertext p' = ep_ciphertext p" "ep_nonce p' = ep_nonce p" "ep_algorithm p' = ep_algorithm p"
    "ep_dek_id p' = ep_dek_id p" "ep_kms_provider p' = kms_provider_label (kc_provider cfg)"
proof -
  obtain s c where s: "pv_services (cipher_of cfg) (ep_kms_provider p) = Some s" "service_core s = Inl c"
      "core_unwrap env c (ep_wrapped_dek p) = Inr dek"
    using assms(3) by (auto simp: holds_key_def)
  obtain t d where t: "active_service (cipher_of cfg) = Inr t" "service_core t = Inl d"
      "pv_services (cipher_of cfg) (service_provider_name t) = Some t"
      "service_provider_name t = kms_provider_label (kc_provider cfg)"
    by (rule active_service_exists [OF assms(2)])
  have same: "t = s" if "service_provider_name s = service_provider_name t"
    using service_under_its_name [OF assms(2) s(1)] t(3) unfolding that by (simp only: option.inject)
  let ?w = "core_wrap env d dek"
  let ?p = "p\<lparr>ep_wrapped_dek := kw_wrapped_dek ?w, ep_kek_id := kw_kek_id ?w,
    ep_kms_provider := service_provider_name t, ep_key_version := kw_key_version ?w\<rparr>"
  have "provider_rewrap env (cipher_of cfg) p = Inr ?p"
  proof (cases "service_provider_name s = service_provider_name t")
    case True
    with same have "t = s" by simp
    with s t show ?thesis
      by (simp add: provider_rewrap_def service_for_provider_def service_rewrap_def service_unwrap_def service_wrap_def)
  next
    case False
    with s t(1,2) show ?thesis
      by (simp add: provider_rewrap_def service_for_provider_def service_unwrap_def service_wrap_def)
  qed
  moreover have "holds_key env cfg ?p dek"
    using t core_unwrap_wrap [OF assms(1,4), of d d] by (simp add: holds_key_def same_core_def)
  ultimately show ?thesis using that t(4) by simp
qed

fun rewraps ::
  "crypto_env \<Rightarrow> kms_client_config list \<Rightarrow> encrypted_payload \<Rightarrow> encryption_error + encrypted_payload" where
  "rewraps env [] p = Inr p"
| "rewraps env (cfg # cfgs) p = res_bind (provider_rewrap env (cipher_of cfg) p) (rewraps env cfgs)"

lemma rewraps_keep_key:
  assumes "crypto_ok env" and "contract_only cfg" and "list_all contract_only cfgs"
    and "list_all (same_metadata cfg) cfgs" and "holds_key env cfg p dek" and "length dek = 32"
  shows "\<exists>p'. rewraps env cfgs p = Inr p' \<and> holds_key env cfg p' dek \<and>
    ep_ciphertext p' = ep_ciphertext p \<and> ep_nonce p' = ep_nonce p \<and> ep_algorithm p' = ep_algorithm p"
  using assms(3-5)
proof (induction cfgs arbitrary: p)
  case (Cons x cfgs)
  have x: "contract_only x" "same_metadata cfg x" "same_metadata x cfg"
    using Cons.prems by (auto simp: same_metadata_def)
  obtain p1 where p1: "provider_rewrap env (cipher_of x) p = Inr p1" "holds_key env x p1 dek"
      "ep_ciphertext p1 = ep_ciphertext p" "ep_nonce p1 = ep_nonce p" "ep_algorithm p1 = ep_algorithm p"
    using rewrap_keeps_key [OF assms(1) x(1) holds_key_other [OF Cons.prems(3) assms(2) x(1,2)] assms(6)]
    by blast
  have "holds_key env cfg p1 dek" by (rule holds_key_other [OF p1(2) x(1) assms(2) x(3)])
  with Cons.IH [of p1] Cons.prems(1,2) obtain p' where "rewraps env cfgs p1 = Inr p'" "holds_key env cfg p' dek"
      "ep_ciphertext p' = ep_ciphertext p1" "ep_nonce p' = ep_nonce p1" "ep_algorithm p' = ep_algorithm p1"
    by auto
  with p1 show ?case by (intro exI [of _ p']) simp
qed simp

lemma decrypt_held:
  assumes "crypto_ok env" and "holds_key env cfg p dek" and "length dek = 32" and "length nonce = 12"
    and "cr_seal env dek nonce plaintext = Some c"
    and "ep_algorithm p = ''aes-256-gcm-siv''" and "ep_nonce p = cr_encode env nonce"
    and "ep_ciphertext p = cr_encode env c"
  shows "provider_decrypt env (cipher_of cfg) p = Some (Inr plaintext)"
  using assms
  by (auto simp: provider_decrypt_def decrypt_with_service_def holds_key_def service_for_provider_def
      service_unwrap_def aead_open_def crypto_ok_def)

lemma provider_encrypt_key:
  assumes "crypto_ok env" and "contract_only cfg" and "length dek = 32"
    and "provider_encrypt env nonce dek ulid (cipher_of cfg) plaintext = Inr p"
  obtains c where "holds_key env cfg p dek" "cr_seal env dek nonce plaintext = Some c"
    "ep_algorithm p = ''aes-256-gcm-siv''" "ep_nonce p = cr_encode env nonce" "ep_ciphertext p = cr_encode env c"
proof -
  obtain t d where t: "active_service (cipher_of cfg) = Inr t" "service_core t = Inl d"
      "pv_services (cipher_of cfg) (service_provider_name t) = Some t"
    using active_service_exists [OF assms(2)] by metis
  obtain c where c: "cr_seal env dek nonce plaintext = Some c"
    and p: "p = \<lparr>ep_ciphertext = cr_encode env c, ep_dek_id = ulid,
      ep_wrapped_dek = kw_wrapped_dek (core_wrap env d dek), ep_kek_id = kw_kek_id (core_wrap env d dek),
      ep_kms_provider = service_provider_name t, ep_algorithm = ''aes-256-gcm-siv'',
      ep_nonce = cr_encode env nonce, ep_key_version = kw_key_version (core_wrap env d dek)\<rparr>"
    using assms(3,4) t
    by (auto simp: provider_encrypt_def encrypt_with_service_def service_generate_def service_wrap_def
        aead_seal_def res_bind_eq_Inr res_of_option_def split: option.splits)
  have "holds_key env cfg p dek"
    using t core_unwrap_wrap [OF assms(1,3), of d d] by (simp add: holds_key_def p same_core_def)
  with that c p show ?thesis by simp
qed

text \<open>
  C16. Data survives the change of keys, for configurations that use the built-in key services,
  that is, do not name Vault together with a token, which would use its transit engine.  A payload
  encrypted under one such configuration is decrypted to its plaintext under every other of the same
  endpoint, master key, key ring and region, whatever provider is active and whatever key version is
  configured, also after it was re-wrapped under any sequence of such
  configurations: no re-wrap fails, and each leaves the ciphertext as it was.
\<close>

theorem payload_survives_rekeying:
  assumes "crypto_ok env" and "length dek = 32" and "length nonce = 12"
    and "list_all contract_only (cfg # reader # cfgs)" and "list_all (same_metadata cfg) (reader # cfgs)"
    and "provider_encrypt env nonce dek ulid (cipher_of cfg) plaintext = Inr p"
  shows "\<exists>p'. rewraps env cfgs p = Inr p' \<and> ep_ciphertext p' = ep_ciphertext p \<and>
    provider_decrypt env (cipher_of reader) p' = Some (Inr plaintext)"
proof -
  have cfg: "contract_only cfg" "contract_only reader" "list_all contract_only cfgs"
      "list_all (same_metadata cfg) cfgs" "same_metadata cfg reader"
    using assms(4,5) by simp_all
  obtain c where c: "holds_key env cfg p dek" "cr_seal env dek nonce plaintext = Some c"
      "ep_algorithm p = ''aes-256-gcm-siv''" "ep_nonce p = cr_encode env nonce" "ep_ciphertext p = cr_encode env c"
    using provider_encrypt_key [OF assms(1) cfg(1) assms(2,6)] by metis
  obtain p' where p': "rewraps env cfgs p = Inr p'" "holds_key env cfg p' dek"
      "ep_ciphertext p' = ep_ciphertext p" "ep_nonce p' = ep_nonce p" "ep_algorithm p' = ep_algorithm p"
    using rewraps_keep_key [OF assms(1) cfg(1,3,4) c(1) assms(2)] by metis
  have "provider_decrypt env (cipher_of reader) p' = Some (Inr plaintext)"
    using decrypt_held [OF assms(1) holds_key_other [OF p'(2) cfg(1,2,5)] assms(2,3) c(2)] c p' by simp
  with p' show ?thesis by blast
qed

subsection \<open>A concrete library\<close>

definition sample_crypto :: crypto_env where
  "sample_crypto = \<lparr>cr_sha256 = (\<lambda>s. replicate 32 90), cr_encode = sample_encode, cr_decode = sample_decode,
     cr_seal = (\<lambda>k n p. Some (rev p)), cr_open = (\<lambda>k n c. Some (rev c)),
     cr_post = (\<lambda>u t b. Inl ''unreachable''), cr_get = (\<lambda>u t. Inl ''unreachable'')\<rparr>"

lemma sample_crypto_ok: "crypto_ok sample_crypto"
  by (simp add: crypto_ok_def sample_crypto_def sample_decode_encode sample_encode_no_colon)

definition sample_kms_config :: "kms_provider \<Rightarrow> string \<Rightarrow> kms_client_config" where
  "sample_kms_config provider version =
     \<lparr>kc_provider = provider, kc_endpoint = Some ''https://kms'', kc_master_key_id = ''master'',
      kc_key_ring = None, kc_auth_token = None, kc_region = None, kc_key_version = Some version\<rparr>"

lemma payload_survives_rekeying_witness:
  "\<exists>p p'. provider_encrypt sample_crypto (replicate 12 7) (replicate 32 9) ''dek''
      (cipher_of (sample_kms_config MockProvider ''1'')) [1, 2, 3] = Inr p \<and>
    rewraps sample_crypto [sample_kms_config AwsProvider ''4''] p = Inr p' \<and>
    provider_decrypt sample_crypto (cipher_of (sample_kms_config VaultProvider ''9'')) p' = Some (Inr [1, 2, 3])"
proof -
  let ?cfg = "sample_kms_config MockProvider ''1''" and ?aws = "sample_kms_config AwsProvider ''4''"
    and ?vault = "sample_kms_config VaultProvider ''9''"
  obtain p where p: "provider_encrypt sample_crypto (replicate 12 7) (replicate 32 9) ''dek''
      (cipher_of ?cfg) [1, 2, 3] = Inr p"
    by (simp add: provider_encrypt_def cipher_of_def provider_cipher_new_def build_kms_registry_def
        active_service_def service_for_provider_def service_new_defs encrypt_with_service_def
        service_generate_def service_wrap_def aead_seal_def sample_kms_config_def sample_crypto_def Let_def)
  have "list_all contract_only [?cfg, ?vault, ?aws]" "list_all (same_metadata ?cfg) [?vault, ?aws]"
    by (simp_all add: contract_only_def same_metadata_def sample_kms_config_def has_value_def)
  from payload_survives_rekeying [OF sample_crypto_ok _ _ this p] p show ?thesis by auto
qed

text \<open>
  A nonce of the wrong length is a panic.  Decryption panics exactly if the payload names the
  right algorithm, its nonce and its ciphertext are base64, its data key is unwrapped to 32 bytes
  and the nonce does not have 12 bytes; every other malformed payload is an error value.
\<close>

lemma decrypt_panics_iff:
  "provider_decrypt env c p = None \<longleftrightarrow>
     ep_algorithm p = ''aes-256-gcm-siv'' \<and> cr_decode env (ep_ciphertext p) \<noteq> None \<and>
     (\<exists>nonce. cr_decode env (ep_nonce p) = Some nonce \<and> length nonce \<noteq> 12) \<and>
     (\<exists>s dek. pv_services c (ep_kms_provider p) = Some s \<and>
        service_unwrap env s (ep_wrapped_dek p) (ep_dek_id p) = Inr dek \<and> length dek = 32)"
  by (cases "pv_services c (ep_kms_provider p)";
      cases "service_unwrap env (the (pv_services c (ep_kms_provider p))) (ep_wrapped_dek p) (ep_dek_id p)")
    (auto simp: provider_decrypt_def decrypt_with_service_def service_for_provider_def aead_open_def
      split: option.splits if_splits)

text \<open>
  The mask of a contract service depends on its metadata alone, not on the key it wraps, so the
  difference of two wrapped keys is the difference of the keys.
\<close>

definition wrapped_bytes :: "crypto_env \<Rightarrow> string \<Rightarrow> byte list option" where
  "wrapped_bytes env w = Option.bind (rsplit_once (CHR '':'') w) (\<lambda>(p, c). cr_decode env c)"

definition xor_lists :: "byte list \<Rightarrow> byte list \<Rightarrow> byte list" where
  "xor_lists a b = map2 (XOR) a b"

lemma wrapped_bytes_core:
  assumes "crypto_ok env"
  shows "wrapped_bytes env (kw_wrapped_dek (core_wrap env c a)) = Some (xor_mask (wrap_mask env c (kk_version c)) a)"
proof -
  have ok: "CHR '':'' \<notin> set (cr_encode env x)" "cr_decode env (cr_encode env x) = Some x" for x
    using assms by (simp_all add: crypto_ok_def)
  show ?thesis
    using rsplit_once_append [OF ok(1), of "kk_wrap_prefix c @ '':v'' @ show_nat (unat (kk_version c))"]
    by (simp add: wrapped_bytes_def core_wrap_def wrap_bytes_def ok(2))
qed

lemma wrapped_keys_leak:
  assumes "crypto_ok env" and "length a = length b"
  shows "\<exists>x y. wrapped_bytes env (kw_wrapped_dek (core_wrap env c a)) = Some x \<and>
    wrapped_bytes env (kw_wrapped_dek (core_wrap env c b)) = Some y \<and> xor_lists x y = xor_lists a b"
  using assms(2)
  by (auto simp: wrapped_bytes_core [OF assms(1)] xor_lists_def xor_mask_def bit_eq_iff bit_xor_iff
      intro!: nth_equalityI)

end
