(* ===== verification/SnapshotStore.thy ===== *)
theory SnapshotStore
  imports Envelope
begin

text \<open>
  Encrypted snapshots of query results: the records and the store of \<open>snapshot.rs\<close>, the object
  stores of \<open>object_store.rs\<close> and the rotation policy of \<open>rotation.rs\<close>.  A store is a map with
  distinct keys, read with \<open>map_of\<close>; an object store maps the joined bucket and key to bytes.
\<close>

subsection \<open>Snapshots\<close>

datatype delete_state = SnapActive | SnapSoftDeleted | SnapPurged

fun delete_state_str :: "delete_state \<Rightarrow> string" where
  "delete_state_str SnapActive = ''active''"
| "delete_state_str SnapSoftDeleted = ''soft_deleted''"
| "delete_state_str SnapPurged = ''purged''"

definition delete_state_parse :: "string \<Rightarrow> delete_state option" where
  "delete_state_parse s =
     (if s = ''active'' then Some SnapActive
      else if s = ''soft_deleted'' then Some SnapSoftDeleted
      else if s = ''purged'' then Some SnapPurged else None)"

datatype payload_format = JsonRows | Parquet

fun payload_format_str :: "payload_format \<Rightarrow> string" where
  "payload_format_str JsonRows = ''json_rows''"
| "payload_format_str Parquet = ''parquet''"

definition payload_format_parse :: "string \<Rightarrow> payload_format option" where
  "payload_format_parse s =
     (if s = ''json_rows'' then Some JsonRows else if s = ''parquet'' then Some Parquet else None)"

fun storage_suffix :: "payload_format \<Rightarrow> string" where
  "storage_suffix JsonRows = ''snapshot.json.enc''"
| "storage_suffix Parquet = ''snapshot.parquet.enc''"

record snapshot_lifecycle =
  sl_owner_user_id :: string
  sl_grant_id :: string
  sl_grant_expires_at :: time
  sl_retention_until :: time
  sl_data_fingerprint :: string
  sl_object_bucket :: string
  sl_object_size_bytes :: nat
  sl_delete_state :: delete_state
  sl_delete_reason :: "string option"
  sl_deleted_at :: "time option"
  sl_purged_at :: "time option"
  sl_last_rewrapped_at :: "time option"

record snapshot_write_request =
  sw_tenant_id :: string
  sw_project_id :: string
  sw_owner_user_id :: string
  sw_grant_id :: string
  sw_grant_expires_at :: time
  sw_retention_until :: time
  sw_data_source_id :: string
  sw_object_bucket :: string
  sw_data_fingerprint :: string
  sw_columns :: "string list"
  sw_payload_format :: payload_format

record snapshot_record =
  es_snapshot_id :: string
  es_tenant_id :: string
  es_project_id :: string
  es_storage_key :: string
  es_created_at :: time
  es_data_source_id :: string
  es_encrypted_payload :: encrypted_payload
  es_row_count :: nat
  es_columns :: "string list"
  es_payload_format :: payload_format
  es_lifecycle :: snapshot_lifecycle

datatype snapshot_error = SnapNotFound | SnapNotActive | SnapPurgedError

type_synonym snapshot_store = "(string \<times> snapshot_record) list"

definition snapshot_restore_record :: "snapshot_store \<Rightarrow> snapshot_record \<Rightarrow> snapshot_store" where
  "snapshot_restore_record st r = AList.update (es_snapshot_id r) r st"

definition snapshot_get_any :: "snapshot_store \<Rightarrow> string \<Rightarrow> snapshot_error + snapshot_record" where
  "snapshot_get_any st sid = res_of_option SnapNotFound (map_of st sid)"

definition with_lifecycle :: "(snapshot_lifecycle \<Rightarrow> snapshot_lifecycle) \<Rightarrow> snapshot_record \<Rightarrow> snapshot_record" where
  "with_lifecycle f r = r\<lparr>es_lifecycle := f (es_lifecycle r)\<rparr>"

definition snapshot_soft_delete ::
  "snapshot_store \<Rightarrow> string \<Rightarrow> string \<Rightarrow> time \<Rightarrow> snapshot_error + snapshot_store" where
  "snapshot_soft_delete st sid reason at =
     res_bind (snapshot_get_any st sid) (\<lambda>r.
       if sl_delete_state (es_lifecycle r) = SnapPurged then Inl SnapPurgedError
       else Inr (AList.update sid (with_lifecycle (\<lambda>l. l\<lparr>sl_delete_state := SnapSoftDeleted,
         sl_delete_reason := Some reason, sl_deleted_at := Some at\<rparr>) r) st))"

definition snapshot_restore :: "snapshot_store \<Rightarrow> string \<Rightarrow> snapshot_error + snapshot_store" where
  "snapshot_restore st sid =
     res_bind (snapshot_get_any st sid) (\<lambda>r.
       if sl_delete_state (es_lifecycle r) = SnapPurged then Inl SnapPurgedError
       else Inr (AList.update sid (with_lifecycle (\<lambda>l. l\<lparr>sl_delete_state := SnapActive,
         sl_delete_reason := None, sl_deleted_at := None\<rparr>) r) st))"

definition purge_record :: "string \<Rightarrow> time \<Rightarrow> snapshot_record \<Rightarrow> snapshot_record" where
  "purge_record reason at r =
     (let l = es_lifecycle r in
      r\<lparr>es_lifecycle := l\<lparr>sl_delete_state := SnapPurged, sl_delete_reason := Some reason,
          sl_deleted_at := (case sl_deleted_at l of Some t \<Rightarrow> Some t | None \<Rightarrow> Some at),
          sl_purged_at := Some at\<rparr>,
        es_encrypted_payload := (es_encrypted_payload r)\<lparr>ep_ciphertext := []\<rparr>\<rparr>)"

definition snapshot_mark_purged ::
  "snapshot_store \<Rightarrow> string \<Rightarrow> string \<Rightarrow> time \<Rightarrow> snapshot_error + snapshot_store" where
  "snapshot_mark_purged st sid reason at =
     res_bind (snapshot_get_any st sid) (\<lambda>r. Inr (AList.update sid (purge_record reason at r) st))"

definition snapshot_mark_rewrapped ::
  "snapshot_store \<Rightarrow> string \<Rightarrow> encrypted_payload \<Rightarrow> time \<Rightarrow> snapshot_error + snapshot_store" where
  "snapshot_mark_rewrapped st sid p at =
     res_bind (snapshot_get_any st sid) (\<lambda>r.
       Inr (AList.update sid (r\<lparr>es_encrypted_payload := p,
         es_lifecycle := (es_lifecycle r)\<lparr>sl_last_rewrapped_at := Some at\<rparr>\<rparr>) st))"

definition project_snapshot_ids :: "snapshot_store \<Rightarrow> string \<Rightarrow> string list" where
  "project_snapshot_ids st project = map fst (filter (\<lambda>e. es_project_id (snd e) = project) st)"

definition delete_project_snapshots :: "snapshot_store \<Rightarrow> string \<Rightarrow> snapshot_store \<times> string list" where
  "delete_project_snapshots st project =
     (let ids = project_snapshot_ids st project in (foldl (\<lambda>s sid. AList.delete sid s) st ids, ids))"

definition purge_project_snapshots ::
  "snapshot_store \<Rightarrow> string \<Rightarrow> string \<Rightarrow> time \<Rightarrow> snapshot_store \<times> snapshot_record list" where
  "purge_project_snapshots st project reason at =
     foldl (\<lambda>(s, purged) sid. case map_of s sid of
         Some r \<Rightarrow> (AList.update sid (purge_record reason at r) s, purged @ [purge_record reason at r])
       | None \<Rightarrow> (s, purged))
       (st, []) (project_snapshot_ids st project)"

text \<open>The new identifier and the clock are arguments.\<close>

definition snapshot_put ::
  "string \<Rightarrow> time \<Rightarrow> snapshot_store \<Rightarrow> snapshot_write_request \<Rightarrow> encrypted_payload \<Rightarrow> nat
     \<Rightarrow> snapshot_store \<times> snapshot_record" where
  "snapshot_put ulid now st req p rows =
     (let r = \<lparr>es_snapshot_id = ulid, es_tenant_id = sw_tenant_id req, es_project_id = sw_project_id req,
          es_storage_key = ''snapshots/'' @ sw_tenant_id req @ ''/'' @ sw_project_id req @ ''/'' @ ulid
            @ ''.'' @ storage_suffix (sw_payload_format req),
          es_created_at = now, es_data_source_id = sw_data_source_id req, es_encrypted_payload = p,
          es_row_count = rows, es_columns = sw_columns req, es_payload_format = sw_payload_format req,
          es_lifecycle = \<lparr>sl_owner_user_id = sw_owner_user_id req, sl_grant_id = sw_grant_id req,
            sl_grant_expires_at = sw_grant_expires_at req, sl_retention_until = sw_retention_until req,
            sl_data_fingerprint = sw_data_fingerprint req, sl_object_bucket = sw_object_bucket req,
            sl_object_size_bytes = 0, sl_delete_state = SnapActive, sl_delete_reason = None,
            sl_deleted_at = None, sl_purged_at = None, sl_last_rewrapped_at = None\<rparr>\<rparr> in
      (AList.update ulid r st, r))"

definition snapshot_get :: "snapshot_store \<Rightarrow> string \<Rightarrow> snapshot_error + snapshot_record" where
  "snapshot_get st sid =
     res_bind (snapshot_get_any st sid) (\<lambda>r.
       case sl_delete_state (es_lifecycle r) of
         SnapActive \<Rightarrow> Inr r
       | SnapSoftDeleted \<Rightarrow> Inl SnapNotActive
       | SnapPurged \<Rightarrow> Inl SnapPurgedError)"

subsection \<open>Object stores\<close>

record object_metadata =
  om_bucket :: string
  om_key :: string
  om_size_bytes :: nat

datatype object_error = ObjBuild string | ObjOperation string | ObjInvalidEncoding

type_synonym object_store = "string \<Rightarrow> byte list option"

definition object_name :: "string \<Rightarrow> string \<Rightarrow> string" where
  "object_name bucket key = bucket @ ''/'' @ key"

definition memory_put ::
  "crypto_env \<Rightarrow> object_store \<Rightarrow> string \<Rightarrow> string \<Rightarrow> string \<Rightarrow> object_store \<times> (object_error + object_metadata)" where
  "memory_put env os bucket key ciphertext =
     (case cr_decode env ciphertext of
        None \<Rightarrow> (os, Inl ObjInvalidEncoding)
      | Some bs \<Rightarrow> (os(object_name bucket key \<mapsto> bs),
          Inr \<lparr>om_bucket = bucket, om_key = key, om_size_bytes = length bs\<rparr>))"

definition memory_get :: "crypto_env \<Rightarrow> object_store \<Rightarrow> string \<Rightarrow> string \<Rightarrow> object_error + string" where
  "memory_get env os bucket key =
     (case os (object_name bucket key) of
        None \<Rightarrow> Inl (ObjOperation ''object not found'')
      | Some bs \<Rightarrow> Inr (cr_encode env bs))"

definition memory_delete :: "object_store \<Rightarrow> string \<Rightarrow> string \<Rightarrow> object_store" where
  "memory_delete os bucket key = os(object_name bucket key := None)"

definition memory_exists :: "object_store \<Rightarrow> string \<Rightarrow> string \<Rightarrow> bool" where
  "memory_exists os bucket key = (os (object_name bucket key) \<noteq> None)"

text \<open>
  The S3 store is a client of a service: building the client for a bucket, and one call on a path.
\<close>

record s3_env =
  s3_build :: "string \<Rightarrow> string option"
  s3_put :: "string \<Rightarrow> string \<Rightarrow> byte list \<Rightarrow> string option"
  s3_get :: "string \<Rightarrow> string \<Rightarrow> string + byte list"
  s3_delete :: "string \<Rightarrow> string \<Rightarrow> string option"

definition s3_store :: "s3_env \<Rightarrow> string \<Rightarrow> object_error + unit" where
  "s3_store s3 bucket = (case s3_build s3 bucket of Some e \<Rightarrow> Inl (ObjBuild e) | None \<Rightarrow> Inr ())"

definition s3_put_ciphertext ::
  "crypto_env \<Rightarrow> s3_env \<Rightarrow> string \<Rightarrow> string \<Rightarrow> string \<Rightarrow> object_error + object_metadata" where
  "s3_put_ciphertext env s3 bucket key ciphertext =
     res_bind (res_of_option ObjInvalidEncoding (cr_decode env ciphertext)) (\<lambda>bs.
     res_bind (s3_store s3 bucket) (\<lambda>_.
       case s3_put s3 bucket key bs of
         Some e \<Rightarrow> Inl (ObjOperation e)
       | None \<Rightarrow> Inr \<lparr>om_bucket = bucket, om_key = key, om_size_bytes = length bs\<rparr>))"

definition s3_get_ciphertext :: "crypto_env \<Rightarrow> s3_env \<Rightarrow> string \<Rightarrow> string \<Rightarrow> object_error + string" where
  "s3_get_ciphertext env s3 bucket key =
     res_bind (s3_store s3 bucket) (\<lambda>_.
       case s3_get s3 bucket key of Inl e \<Rightarrow> Inl (ObjOperation e) | Inr bs \<Rightarrow> Inr (cr_encode env bs))"

definition s3_delete_object :: "s3_env \<Rightarrow> string \<Rightarrow> string \<Rightarrow> object_error + unit" where
  "s3_delete_object s3 bucket key =
     res_bind (s3_store s3 bucket) (\<lambda>_.
       case s3_delete s3 bucket key of Some e \<Rightarrow> Inl (ObjOperation e) | None \<Rightarrow> Inr ())"

definition s3_exists :: "s3_env \<Rightarrow> string \<Rightarrow> string \<Rightarrow> object_error + bool" where
  "s3_exists s3 bucket key =
     res_bind (s3_store s3 bucket) (\<lambda>_. Inr (case s3_get s3 bucket key of Inl e \<Rightarrow> False | Inr bs \<Rightarrow> True))"

subsection \<open>The rotation policy\<close>

record rotation_policy =
  rp_dek_rotation_days :: int
  rp_kek_rotation_days :: int

definition rotation_policy_default :: rotation_policy where
  "rotation_policy_default = \<lparr>rp_dek_rotation_days = 90, rp_kek_rotation_days = 365\<rparr>"

record rotation_recommendation =
  rr_rotate_dek :: bool
  rr_rotate_kek_wrap :: bool

datatype rotation_due = DueCurrent | DueKekRewrap | DueDekRotation | DueDekAndKek | DueDisabled | DuePurged

fun rotation_due_str :: "rotation_due \<Rightarrow> string" where
  "rotation_due_str DueCurrent = ''current''"
| "rotation_due_str DueKekRewrap = ''kek_rewrap_due''"
| "rotation_due_str DueDekRotation = ''dek_rotation_due''"
| "rotation_due_str DueDekAndKek = ''dek_and_kek_due''"
| "rotation_due_str DueDisabled = ''disabled''"
| "rotation_due_str DuePurged = ''purged''"

definition rotation_due_parse :: "string \<Rightarrow> rotation_due option" where
  "rotation_due_parse s =
     (if s = ''current'' then Some DueCurrent
      else if s = ''kek_rewrap_due'' then Some DueKekRewrap
      else if s = ''dek_rotation_due'' then Some DueDekRotation
      else if s = ''dek_and_kek_due'' then Some DueDekAndKek
      else if s = ''disabled'' then Some DueDisabled
      else if s = ''purged'' then Some DuePurged else None)"

datatype rotation_status = RotCurrent | RotDue | RotRunning | RotCompleted | RotFailed | RotSkipped

fun rotation_status_str :: "rotation_status \<Rightarrow> string" where
  "rotation_status_str RotCurrent = ''current''"
| "rotation_status_str RotDue = ''due''"
| "rotation_status_str RotRunning = ''running''"
| "rotation_status_str RotCompleted = ''completed''"
| "rotation_status_str RotFailed = ''failed''"
| "rotation_status_str RotSkipped = ''skipped''"

definition rotation_status_parse :: "string \<Rightarrow> rotation_status option" where
  "rotation_status_parse s =
     (if s = ''current'' then Some RotCurrent
      else if s = ''due'' then Some RotDue
      else if s = ''running'' then Some RotRunning
      else if s = ''completed'' then Some RotCompleted
      else if s = ''failed'' then Some RotFailed
      else if s = ''skipped'' then Some RotSkipped else None)"

datatype rotation_operation = OpNone | OpKekRewrap | OpDekRotation | OpDekAndKek

fun rotation_operation_str :: "rotation_operation \<Rightarrow> string" where
  "rotation_operation_str OpNone = ''none''"
| "rotation_operation_str OpKekRewrap = ''kek_rewrap''"
| "rotation_operation_str OpDekRotation = ''dek_rotation''"
| "rotation_operation_str OpDekAndKek = ''dek_rotation_and_kek_refresh''"

definition rotation_operation_parse :: "string \<Rightarrow> rotation_operation option" where
  "rotation_operation_parse s =
     (if s = ''none'' then Some OpNone
      else if s = ''kek_rewrap'' then Some OpKekRewrap
      else if s = ''dek_rotation'' then Some OpDekRotation
      else if s = ''dek_rotation_and_kek_refresh'' then Some OpDekAndKek else None)"

datatype rotation_trigger = TrigManual | TrigRuntime | TrigSnapshotRefresh

fun rotation_trigger_str :: "rotation_trigger \<Rightarrow> string" where
  "rotation_trigger_str TrigManual = ''manual''"
| "rotation_trigger_str TrigRuntime = ''runtime''"
| "rotation_trigger_str TrigSnapshotRefresh = ''snapshot_refresh''"

record rotation_inventory =
  ri_snapshot_id :: string
  ri_tenant_id :: string
  ri_project_id :: string
  ri_provider :: string
  ri_kek_id :: string
  ri_key_version :: "string option"
  ri_dek_id :: string
  ri_created_at :: time
  ri_last_rewrapped_at :: "time option"
  ri_purged :: bool

record rotation_state =
  rs_inventory_id :: string
  rs_snapshot_id :: string
  rs_tenant_id :: string
  rs_project_id :: string
  rs_provider :: string
  rs_kek_id :: string
  rs_key_version :: "string option"
  rs_dek_id :: string
  rs_created_at :: time
  rs_last_rewrapped_at :: "time option"
  rs_next_dek_rotation_due_at :: time
  rs_next_kek_rewrap_due_at :: time
  rs_due_state :: rotation_due
  rs_status :: rotation_status
  rs_last_operation :: rotation_operation
  rs_last_cycle_id :: "string option"
  rs_last_error :: "string option"
  rs_updated_at :: time

definition next_dek_rotation_due_at :: "rotation_policy \<Rightarrow> time \<Rightarrow> time" where
  "next_dek_rotation_due_at p created = created + days_ns (rp_dek_rotation_days p)"

definition next_kek_rewrap_due_at :: "rotation_policy \<Rightarrow> time \<Rightarrow> time option \<Rightarrow> time" where
  "next_kek_rewrap_due_at p created rewrapped =
     (case rewrapped of Some t \<Rightarrow> t | None \<Rightarrow> created) + days_ns (rp_kek_rotation_days p)"

definition rotation_evaluate ::
  "rotation_policy \<Rightarrow> time \<Rightarrow> time option \<Rightarrow> time \<Rightarrow> rotation_recommendation" where
  "rotation_evaluate p created rewrapped now =
     (let reference = (case rewrapped of Some t \<Rightarrow> t | None \<Rightarrow> created) in
      \<lparr>rr_rotate_dek = (created + days_ns (rp_dek_rotation_days p) \<le> now),
       rr_rotate_kek_wrap = (reference + days_ns (rp_kek_rotation_days p) \<le> now)\<rparr>)"

definition rotation_due_state ::
  "rotation_policy \<Rightarrow> time \<Rightarrow> time option \<Rightarrow> time \<Rightarrow> bool \<Rightarrow> bool \<Rightarrow> rotation_due" where
  "rotation_due_state p created rewrapped now enabled purged =
     (if \<not> enabled then DueDisabled
      else if purged then DuePurged
      else let r = rotation_evaluate p created rewrapped now in
        case (rr_rotate_dek r, rr_rotate_kek_wrap r) of
          (True, True) \<Rightarrow> DueDekAndKek
        | (True, False) \<Rightarrow> DueDekRotation
        | (False, True) \<Rightarrow> DueKekRewrap
        | (False, False) \<Rightarrow> DueCurrent)"

fun due_status :: "rotation_due \<Rightarrow> rotation_status" where
  "due_status DueCurrent = RotCurrent"
| "due_status DueDisabled = RotSkipped"
| "due_status DuePurged = RotSkipped"
| "due_status _ = RotDue"

definition inventory_state :: "rotation_policy \<Rightarrow> rotation_inventory \<Rightarrow> time \<Rightarrow> bool \<Rightarrow> rotation_state" where
  "inventory_state p i now enabled =
     (let due = rotation_due_state p (ri_created_at i) (ri_last_rewrapped_at i) now enabled (ri_purged i) in
      \<lparr>rs_inventory_id = ''snapshot:'' @ ri_snapshot_id i, rs_snapshot_id = ri_snapshot_id i,
       rs_tenant_id = ri_tenant_id i, rs_project_id = ri_project_id i, rs_provider = ri_provider i,
       rs_kek_id = ri_kek_id i, rs_key_version = ri_key_version i, rs_dek_id = ri_dek_id i,
       rs_created_at = ri_created_at i, rs_last_rewrapped_at = ri_last_rewrapped_at i,
       rs_next_dek_rotation_due_at = next_dek_rotation_due_at p (ri_created_at i),
       rs_next_kek_rewrap_due_at = next_kek_rewrap_due_at p (ri_created_at i) (ri_last_rewrapped_at i),
       rs_due_state = due, rs_status = due_status due, rs_last_operation = OpNone,
       rs_last_cycle_id = None, rs_last_error = None, rs_updated_at = now\<rparr>)"

subsection \<open>Labels\<close>

lemma delete_state_label [simp]: "delete_state_parse (delete_state_str d) = Some d"
  by (cases d) (simp_all add: delete_state_parse_def)

lemma payload_format_label [simp]: "payload_format_parse (payload_format_str f) = Some f"
  by (cases f) (simp_all add: payload_format_parse_def)

lemma rotation_due_label [simp]: "rotation_due_parse (rotation_due_str due) = Some due"
  by (cases due) (simp_all add: rotation_due_parse_def)

lemma rotation_status_label [simp]: "rotation_status_parse (rotation_status_str status) = Some status"
  by (cases status) (simp_all add: rotation_status_parse_def)

lemma rotation_operation_label [simp]: "rotation_operation_parse (rotation_operation_str op) = Some op"
  by (cases op) (simp_all add: rotation_operation_parse_def)

lemma rotation_status_str_inj [simp]:
  "rotation_status_str a = rotation_status_str b \<longleftrightarrow> a = b"
  by (metis option.inject rotation_status_label)

lemma delete_state_str_inj [simp]: "delete_state_str a = delete_state_str b \<longleftrightarrow> a = b"
  by (metis option.inject delete_state_label)

subsection \<open>The store\<close>

datatype snapshot_op =
    SnapPut string time snapshot_write_request encrypted_payload nat
  | SnapRestoreRecord snapshot_record
  | SnapSoftDelete string string time
  | SnapRestore string
  | SnapPurge string string time
  | SnapRewrap string encrypted_payload time
  | SnapDeleteProject string
  | SnapPurgeProject string string time

fun res_or :: "'a \<Rightarrow> 'e + 'a \<Rightarrow> 'a" where
  "res_or d (Inl e) = d"
| "res_or d (Inr a) = a"

fun snapshot_step :: "snapshot_store \<Rightarrow> snapshot_op \<Rightarrow> snapshot_store" where
  "snapshot_step st (SnapPut ulid now req p n) = fst (snapshot_put ulid now st req p n)"
| "snapshot_step st (SnapRestoreRecord r) = snapshot_restore_record st r"
| "snapshot_step st (SnapSoftDelete sid reason t) = res_or st (snapshot_soft_delete st sid reason t)"
| "snapshot_step st (SnapRestore sid) = res_or st (snapshot_restore st sid)"
| "snapshot_step st (SnapPurge sid reason t) = res_or st (snapshot_mark_purged st sid reason t)"
| "snapshot_step st (SnapRewrap sid p t) = res_or st (snapshot_mark_rewrapped st sid p t)"
| "snapshot_step st (SnapDeleteProject project) = fst (delete_project_snapshots st project)"
| "snapshot_step st (SnapPurgeProject project reason t) = fst (purge_project_snapshots st project reason t)"

definition snapshot_run :: "snapshot_store \<Rightarrow> snapshot_op list \<Rightarrow> snapshot_store" where
  "snapshot_run st ops = foldl snapshot_step st ops"

text \<open>The operations that write a whole record, and the one that writes a payload.\<close>

fun overwrites :: "string \<Rightarrow> snapshot_op \<Rightarrow> bool" where
  "overwrites sid (SnapPut ulid now req p n) = (ulid = sid)"
| "overwrites sid (SnapRestoreRecord r) = (es_snapshot_id r = sid)"
| "overwrites sid op = False"

fun writes_payload :: "string \<Rightarrow> snapshot_op \<Rightarrow> bool" where
  "writes_payload sid (SnapRewrap u p t) = (u = sid)"
| "writes_payload sid op = False"

lemma map_of_foldl_delete:
  "map_of (foldl (\<lambda>s k. AList.delete k s) st ks) x = (if x \<in> set ks then None else map_of st x)"
  by (induction ks arbitrary: st) (auto simp: delete_conv)

lemma map_of_delete_project:
  "map_of (fst (delete_project_snapshots st project)) sid =
     (if sid \<in> set (project_snapshot_ids st project) then None else map_of st sid)"
  by (simp add: delete_project_snapshots_def Let_def map_of_foldl_delete)

lemma purge_fold:
  "map_of (fst (foldl (\<lambda>(s, purged) sid. case map_of s sid of
         Some r \<Rightarrow> (AList.update sid (purge_record reason at r) s, purged @ [purge_record reason at r])
       | None \<Rightarrow> (s, purged)) (st, acc) ks)) x
   = (if x \<in> set ks then map_option (purge_record reason at ^^ count_list ks x) (map_of st x) else map_of st x)"
proof (induction ks arbitrary: st acc)
  case (Cons k ks)
  show ?case
  proof (cases "map_of st k")
    case None
    then show ?thesis using Cons [of st acc] by (auto simp: count_list_0_iff split: if_splits)
  next
    case (Some r)
    then show ?thesis
      using Cons [of "AList.update k (purge_record reason at r) st" "acc @ [purge_record reason at r]"]
      by (auto simp: update_conv' count_list_0_iff funpow_swap1 option.map_comp comp_def split: if_splits)
  qed
qed simp

definition purged_in :: "snapshot_store \<Rightarrow> string \<Rightarrow> bool" where
  "purged_in st sid = (\<forall>r. map_of st sid = Some r \<longrightarrow> sl_delete_state (es_lifecycle r) = SnapPurged)"

definition emptied_in :: "snapshot_store \<Rightarrow> string \<Rightarrow> bool" where
  "emptied_in st sid = (\<forall>r. map_of st sid = Some r \<longrightarrow> ep_ciphertext (es_encrypted_payload r) = [])"

lemma purge_record_effect [simp]:
  "sl_delete_state (es_lifecycle (purge_record reason at r)) = SnapPurged"
  "ep_ciphertext (es_encrypted_payload (purge_record reason at r)) = []"
  by (simp_all add: purge_record_def Let_def)

lemma purge_record_iter:
  "0 < n \<Longrightarrow> sl_delete_state (es_lifecycle ((purge_record reason at ^^ n) r)) = SnapPurged"
  "0 < n \<Longrightarrow> ep_ciphertext (es_encrypted_payload ((purge_record reason at ^^ n) r)) = []"
  by (cases n; simp)+

lemmas snapshot_op_defs = snapshot_get_any_def snapshot_soft_delete_def snapshot_restore_def
  snapshot_mark_purged_def snapshot_mark_rewrapped_def snapshot_restore_record_def snapshot_put_def

lemma map_of_purge_project:
  "map_of (fst (purge_project_snapshots st project reason at)) sid =
     (if sid \<in> set (project_snapshot_ids st project)
      then map_option (purge_record reason at ^^ count_list (project_snapshot_ids st project) sid) (map_of st sid)
      else map_of st sid)"
  by (simp add: purge_project_snapshots_def purge_fold)

lemma snapshot_step_purged:
  assumes "purged_in st sid" and "\<not> overwrites sid op"
  shows "purged_in (snapshot_step st op) sid"
proof (cases op)
  case (SnapPurgeProject project reason t)
  then show ?thesis
    using assms by (auto simp: purged_in_def map_of_purge_project count_list_0_iff purge_record_iter(1)
        intro!: purge_record_iter(1) gr0I)
qed (use assms in \<open>auto simp: purged_in_def snapshot_op_defs update_conv' map_of_delete_project Let_def
      res_of_option_def with_lifecycle_def split: option.splits if_splits\<close>)

lemma snapshot_step_emptied:
  assumes "emptied_in st sid" and "\<not> overwrites sid op" and "\<not> writes_payload sid op"
  shows "emptied_in (snapshot_step st op) sid"
proof (cases op)
  case (SnapPurgeProject project reason t)
  then show ?thesis
    using assms by (auto simp: emptied_in_def map_of_purge_project count_list_0_iff
        intro!: purge_record_iter(2) gr0I)
qed (use assms in \<open>auto simp: emptied_in_def snapshot_op_defs update_conv' map_of_delete_project Let_def
      res_of_option_def with_lifecycle_def split: option.splits if_splits\<close>)

lemma snapshot_run_purged:
  "\<lbrakk> purged_in st sid; list_all (\<lambda>op. \<not> overwrites sid op) ops \<rbrakk> \<Longrightarrow> purged_in (snapshot_run st ops) sid"
  unfolding snapshot_run_def by (induction ops arbitrary: st) (simp_all add: snapshot_step_purged)

lemma snapshot_run_emptied:
  "\<lbrakk> emptied_in st sid; list_all (\<lambda>op. \<not> overwrites sid op \<and> \<not> writes_payload sid op) ops \<rbrakk>
     \<Longrightarrow> emptied_in (snapshot_run st ops) sid"
  unfolding snapshot_run_def by (induction ops arbitrary: st) (simp_all add: snapshot_step_emptied)

text \<open>
  C18. A purge is final.  Once a snapshot is purged, no sequence of operations on the store that
  does not write a whole record under its identifier makes it readable or restores it, and its
  ciphertext stays empty unless one of them re-wraps its key.
\<close>

theorem purge_is_final:
  assumes "snapshot_mark_purged st sid reason at = Inr st'"
    and "list_all (\<lambda>op. \<not> overwrites sid op) ops"
  shows "snapshot_get (snapshot_run st' ops) sid \<in> {Inl SnapNotFound, Inl SnapPurgedError} \<and>
    (list_all (\<lambda>op. \<not> writes_payload sid op) ops \<longrightarrow> emptied_in (snapshot_run st' ops) sid)"
proof -
  have "purged_in st' sid" "emptied_in st' sid"
    using assms(1) by (auto simp: snapshot_op_defs purged_in_def emptied_in_def res_bind_eq_Inr update_conv'
        res_of_option_def split: option.splits)
  then have "purged_in (snapshot_run st' ops) sid"
    and "list_all (\<lambda>op. \<not> writes_payload sid op) ops \<Longrightarrow> emptied_in (snapshot_run st' ops) sid"
    using snapshot_run_purged [OF _ assms(2)] snapshot_run_emptied [of st' sid ops] assms(2)
    by (auto simp: list_all_iff)
  then show ?thesis
    by (auto simp: purged_in_def snapshot_get_def snapshot_get_any_def res_of_option_def split: option.splits)
qed

definition sample_payload :: "string \<Rightarrow> encrypted_payload" where
  "sample_payload c =
     \<lparr>ep_ciphertext = c, ep_dek_id = ''dek'', ep_wrapped_dek = ''mockkms:v1:aa'', ep_kek_id = ''master'',
      ep_kms_provider = ''mock'', ep_algorithm = ''aes-256-gcm-siv'', ep_nonce = [], ep_key_version = None\<rparr>"

definition sample_snapshot_request :: snapshot_write_request where
  "sample_snapshot_request =
     \<lparr>sw_tenant_id = ''t'', sw_project_id = ''p'', sw_owner_user_id = ''u'', sw_grant_id = ''g'',
      sw_grant_expires_at = 100, sw_retention_until = 100, sw_data_source_id = ''d'', sw_object_bucket = ''b'',
      sw_data_fingerprint = ''f'', sw_columns = [''id''], sw_payload_format = JsonRows\<rparr>"

definition sample_snapshot_store :: snapshot_store where
  "sample_snapshot_store = fst (snapshot_put ''s1'' 1 [] sample_snapshot_request (sample_payload ''abcd'') 1)"

definition sample_purged_store :: snapshot_store where
  "sample_purged_store = projr (snapshot_mark_purged sample_snapshot_store ''s1'' ''expired'' 5)"

lemma sample_purged: "snapshot_mark_purged sample_snapshot_store ''s1'' ''expired'' 5 = Inr sample_purged_store"
  by (simp add: sample_purged_store_def sample_snapshot_store_def snapshot_op_defs Let_def)

lemma purge_is_final_witness:
  "snapshot_get (snapshot_run sample_purged_store [SnapRestore ''s1'', SnapSoftDelete ''s1'' ''x'' 6]) ''s1''
     \<in> {Inl SnapNotFound, Inl SnapPurgedError} \<and>
   emptied_in (snapshot_run sample_purged_store [SnapRestore ''s1'', SnapSoftDelete ''s1'' ''x'' 6]) ''s1''"
  using purge_is_final [OF sample_purged, of "[SnapRestore ''s1'', SnapSoftDelete ''s1'' ''x'' 6]"] by simp

text \<open>Re-wrapping does not look at the state, so it brings purged content back.\<close>

lemma rewrap_revives_content:
  "\<exists>st. snapshot_mark_rewrapped sample_purged_store ''s1'' (sample_payload ''abcd'') 7 = Inr st \<and>
    snapshot_get st ''s1'' = Inl SnapPurgedError \<and>
    map_option (\<lambda>r. ep_ciphertext (es_encrypted_payload r)) (map_of st ''s1'') = Some ''abcd''"
  by (simp add: sample_purged_store_def sample_snapshot_store_def snapshot_op_defs Let_def snapshot_get_def
      purge_record_def sample_payload_def)

subsection \<open>The policy\<close>

text \<open>What is due is decided by the two instants the state shows.\<close>

lemma rotation_evaluate_iff:
  "rr_rotate_dek (rotation_evaluate p created rewrapped now) \<longleftrightarrow> next_dek_rotation_due_at p created \<le> now"
  "rr_rotate_kek_wrap (rotation_evaluate p created rewrapped now) \<longleftrightarrow>
     next_kek_rewrap_due_at p created rewrapped \<le> now"
  by (simp_all add: rotation_evaluate_def next_dek_rotation_due_at_def next_kek_rewrap_due_at_def Let_def)

lemma inventory_due_iff:
  "rs_status (inventory_state p i now enabled) = RotDue \<longleftrightarrow>
     enabled \<and> \<not> ri_purged i \<and>
     (rs_next_dek_rotation_due_at (inventory_state p i now enabled) \<le> now \<or>
      rs_next_kek_rewrap_due_at (inventory_state p i now enabled) \<le> now)"
  by (auto simp: inventory_state_def Let_def rotation_due_state_def rotation_evaluate_iff split: bool.splits)

end
