(* ===== verification/KeyRotation.thy ===== *)
theory KeyRotation
  imports SnapshotStore "HOL-Library.Multiset"
begin

text \<open>
  The rotation of snapshot keys, \<open>apps/sdqp-api/src/phase8.rs\<close>: the choice of the operation for a
  snapshot, its execution, and a cycle over the stored snapshots.  The persistence is the table
  \<open>snapshots\<close>, written by an upsert that leaves the creation time alone and read in the order of
  creation time and identifier; a read or a write may fail, which is an input, as are the clock,
  the random bytes and identifiers.  The audit entry of an attempt is the attempt itself, in the
  result of the cycle.  The application state is \<open>None\<close> where the code panics.
\<close>

subsection \<open>Data\<close>

record rotation_request =
  kq_force :: bool
  kq_snapshot_id :: "string option"
  kq_project_id :: "string option"
  kq_include_dek :: "bool option"
  kq_include_kek :: "bool option"

definition rotation_request_default :: rotation_request where
  "rotation_request_default =
     \<lparr>kq_force = False, kq_snapshot_id = None, kq_project_id = None, kq_include_dek = None,
      kq_include_kek = None\<rparr>"

record rotation_settings =
  kt_enabled :: bool
  kt_batch_limit :: nat
  kt_allow_dek_rotation :: bool
  kt_allow_kek_rewrap :: bool

record rotation_attempt =
  ko_snapshot_id :: string
  ko_status :: string
  ko_operation :: string
  ko_rotate_dek_due :: bool
  ko_rotate_kek_wrap_due :: bool
  ko_previous_provider :: string
  ko_previous_kek_id :: string
  ko_previous_key_version :: "string option"
  ko_previous_dek_id :: string
  ko_current_provider :: string
  ko_current_kek_id :: string
  ko_current_key_version :: "string option"
  ko_current_dek_id :: string
  ko_last_rewrapped_at :: "time option"
  ko_due_state :: string
  ko_error :: "string option"

record rotation_response =
  kn_evaluated :: nat
  kn_rotated_deks :: nat
  kn_rewrapped_keks :: nat
  kn_skipped :: nat
  kn_failed :: nat
  kn_results :: "rotation_attempt list"

record previous_keys =
  pk_provider :: string
  pk_kek_id :: string
  pk_key_version :: "string option"
  pk_dek_id :: string

type_synonym snapshot_table = "(string \<times> snapshot_record) list"

record rotation_app =
  ka_snapshots :: snapshot_store
  ka_states :: "(string \<times> rotation_state) list"
  ka_table :: "snapshot_table option"
  ka_policy :: rotation_policy
  ka_settings :: rotation_settings
  ka_cipher :: provider_cipher

record rotation_io =
  ki_now :: time
  ki_later :: time
  ki_nonce :: "byte list"
  ki_dek :: "byte list"
  ki_ulid :: string
  ki_save_error :: "string option"

subsection \<open>Error texts\<close>

fun kms_error_text :: "kms_error \<Rightarrow> string" where
  "kms_error_text InvalidWrappedKey = ''wrapped data key is invalid''"
| "kms_error_text InvalidDataKeyLength = ''generated data key length is invalid''"
| "kms_error_text (UnsupportedProvider p) = ''unsupported kms provider: '' @ p"
| "kms_error_text (VaultTransport e) = ''vault transport failed: '' @ e"
| "kms_error_text InvalidVaultResponse = ''vault response is invalid''"

fun encryption_error_text :: "encryption_error \<Rightarrow> string" where
  "encryption_error_text InvalidCiphertext = ''ciphertext is invalid''"
| "encryption_error_text InvalidNonce = ''nonce is invalid''"
| "encryption_error_text (UnknownKmsProvider p) = ''unknown kms provider: '' @ p"
| "encryption_error_text (UnsupportedAlgorithm a) = ''unsupported envelope algorithm: '' @ a"
| "encryption_error_text (KmsFailure e) = ''kms failure: '' @ kms_error_text e"

fun snapshot_error_text :: "snapshot_error \<Rightarrow> string" where
  "snapshot_error_text SnapNotFound = ''snapshot not found''"
| "snapshot_error_text SnapNotActive = ''snapshot is not active''"
| "snapshot_error_text SnapPurgedError = ''snapshot has been purged''"

subsection \<open>The table\<close>

definition table_save :: "snapshot_table \<Rightarrow> snapshot_record \<Rightarrow> snapshot_table" where
  "table_save tbl r =
     AList.update (es_snapshot_id r)
       (case map_of tbl (es_snapshot_id r) of
          Some old \<Rightarrow> r\<lparr>es_created_at := es_created_at old\<rparr> | None \<Rightarrow> r) tbl"

fun insert_by_age :: "snapshot_record \<Rightarrow> snapshot_record list \<Rightarrow> snapshot_record list" where
  "insert_by_age r [] = [r]"
| "insert_by_age r (x # xs) =
     (if es_created_at r < es_created_at x \<or>
         (es_created_at r = es_created_at x \<and> es_snapshot_id r \<le> es_snapshot_id x)
      then r # x # xs else x # insert_by_age r xs)"

definition table_load :: "snapshot_table \<Rightarrow> snapshot_record list" where
  "table_load tbl = foldr insert_by_age (map snd tbl) []"

definition save_snapshot :: "rotation_io \<Rightarrow> rotation_app \<Rightarrow> snapshot_record \<Rightarrow> rotation_app \<times> string option" where
  "save_snapshot io app r =
     (case ka_table app of
        None \<Rightarrow> (app, None)
      | Some tbl \<Rightarrow>
          (case ki_save_error io of
             Some e \<Rightarrow> (app, Some e)
           | None \<Rightarrow> (app\<lparr>ka_table := Some (table_save tbl r)\<rparr>, None)))"

text \<open>Reading the table also copies it into the store.\<close>

definition load_rotation_snapshots ::
  "string option \<Rightarrow> rotation_app \<Rightarrow> rotation_app \<times> (string + snapshot_record list)" where
  "load_rotation_snapshots load_error app =
     (case ka_table app of
        Some tbl \<Rightarrow>
          (case load_error of
             Some e \<Rightarrow> (app, Inl e)
           | None \<Rightarrow>
               (app\<lparr>ka_snapshots := foldl snapshot_restore_record (ka_snapshots app) (table_load tbl)\<rparr>,
                Inr (table_load tbl)))
      | None \<Rightarrow>
          (app, Inr (List.map_filter (\<lambda>(k, s). map_of (ka_snapshots app) (rs_snapshot_id s)) (ka_states app))))"

subsection \<open>The state of a rotation\<close>

definition persist_rotation_state :: "rotation_app \<Rightarrow> rotation_state \<Rightarrow> rotation_app" where
  "persist_rotation_state app s = app\<lparr>ka_states := AList.update (rs_inventory_id s) s (ka_states app)\<rparr>"

definition rotation_state_with_key_age ::
  "rotation_app \<Rightarrow> snapshot_record \<Rightarrow> time \<Rightarrow> time option \<Rightarrow> rotation_state" where
  "rotation_state_with_key_age app r now key_age =
     (let p = es_encrypted_payload r in
      inventory_state (ka_policy app)
        \<lparr>ri_snapshot_id = es_snapshot_id r, ri_tenant_id = es_tenant_id r, ri_project_id = es_project_id r,
         ri_provider = ep_kms_provider p, ri_kek_id = ep_kek_id p, ri_key_version = ep_key_version p,
         ri_dek_id = ep_dek_id p,
         ri_created_at = (case key_age of Some t \<Rightarrow> t | None \<Rightarrow> es_created_at r),
         ri_last_rewrapped_at = sl_last_rewrapped_at (es_lifecycle r),
         ri_purged = (delete_state_str (sl_delete_state (es_lifecycle r)) = ''purged'')\<rparr>
        now (kt_enabled (ka_settings app)))"

definition rotation_state_for_record :: "rotation_app \<Rightarrow> snapshot_record \<Rightarrow> time \<Rightarrow> rotation_state" where
  "rotation_state_for_record app r now =
     rotation_state_with_key_age app r now
       (case map_of (ka_states app) (''snapshot:'' @ es_snapshot_id r) of
          Some s \<Rightarrow> if rs_dek_id s = ep_dek_id (es_encrypted_payload r) then Some (rs_created_at s) else None
        | None \<Rightarrow> None)"

definition merge_rotation_state :: "rotation_state \<Rightarrow> rotation_state option \<Rightarrow> rotation_state" where
  "merge_rotation_state computed existing =
     (case existing of
        None \<Rightarrow> computed
      | Some e \<Rightarrow>
          if rs_due_state computed = DueCurrent \<and> (rs_status e = RotCompleted \<or> rs_status e = RotCurrent)
          then computed\<lparr>rs_status := rs_status e, rs_last_operation := rs_last_operation e,
            rs_last_cycle_id := rs_last_cycle_id e, rs_last_error := rs_last_error e\<rparr>
          else computed)"

definition choose_rotation_operation ::
  "rotation_app \<Rightarrow> rotation_recommendation \<Rightarrow> rotation_request \<Rightarrow> rotation_operation" where
  "choose_rotation_operation app rec req =
     (let include_dek = (case kq_include_dek req of Some b \<Rightarrow> b | None \<Rightarrow> True);
          include_kek = (case kq_include_kek req of Some b \<Rightarrow> b | None \<Rightarrow> True);
          dek = (kt_allow_dek_rotation (ka_settings app) \<and> include_dek \<and> (rr_rotate_dek rec \<or> kq_force req));
          kek = (kt_allow_kek_rewrap (ka_settings app) \<and> include_kek \<and> (rr_rotate_kek_wrap rec \<or> kq_force req)) in
      case (dek, kek) of
        (True, True) \<Rightarrow> OpDekAndKek
      | (True, False) \<Rightarrow> OpDekRotation
      | (False, True) \<Rightarrow> OpKekRewrap
      | (False, False) \<Rightarrow> OpNone)"

definition previous_keys_of :: "snapshot_record \<Rightarrow> previous_keys" where
  "previous_keys_of r =
     (let p = es_encrypted_payload r in
      \<lparr>pk_provider = ep_kms_provider p, pk_kek_id = ep_kek_id p, pk_key_version = ep_key_version p,
       pk_dek_id = ep_dek_id p\<rparr>)"

definition attempt_response ::
  "snapshot_record \<Rightarrow> rotation_state \<Rightarrow> rotation_operation \<Rightarrow> rotation_recommendation \<Rightarrow> previous_keys
     \<Rightarrow> string option \<Rightarrow> rotation_attempt" where
  "attempt_response r s op rec prev err =
     (let p = es_encrypted_payload r in
      \<lparr>ko_snapshot_id = es_snapshot_id r, ko_status = rotation_status_str (rs_status s),
       ko_operation = rotation_operation_str op, ko_rotate_dek_due = rr_rotate_dek rec,
       ko_rotate_kek_wrap_due = rr_rotate_kek_wrap rec, ko_previous_provider = pk_provider prev,
       ko_previous_kek_id = pk_kek_id prev, ko_previous_key_version = pk_key_version prev,
       ko_previous_dek_id = pk_dek_id prev, ko_current_provider = ep_kms_provider p,
       ko_current_kek_id = ep_kek_id p, ko_current_key_version = ep_key_version p,
       ko_current_dek_id = ep_dek_id p,
       ko_last_rewrapped_at = sl_last_rewrapped_at (es_lifecycle r),
       ko_due_state = rotation_due_str (rs_due_state s), ko_error = err\<rparr>)"

subsection \<open>One snapshot\<close>

definition rotated_payload ::
  "crypto_env \<Rightarrow> rotation_io \<Rightarrow> provider_cipher \<Rightarrow> rotation_operation \<Rightarrow> encrypted_payload
     \<Rightarrow> (encryption_error + encrypted_payload) option" where
  "rotated_payload env io c op p =
     (case op of
        OpKekRewrap \<Rightarrow> Some (provider_rewrap env c p)
      | OpNone \<Rightarrow> Some (Inr p)
      | _ \<Rightarrow> map_option (\<lambda>r. res_bind r (provider_encrypt env (ki_nonce io) (ki_dek io) (ki_ulid io) c))
               (provider_decrypt env c p))"

definition store_rotated ::
  "rotation_app \<Rightarrow> snapshot_record \<Rightarrow> encrypted_payload \<Rightarrow> time \<Rightarrow> rotation_app \<times> (string + snapshot_record)" where
  "store_rotated app r p now =
     (let st = (case snapshot_get_any (ka_snapshots app) (es_snapshot_id r) of
                  Inl e \<Rightarrow> snapshot_restore_record (ka_snapshots app) r | Inr x \<Rightarrow> ka_snapshots app) in
      case snapshot_mark_rewrapped st (es_snapshot_id r) p now of
        Inl e \<Rightarrow> (app\<lparr>ka_snapshots := st\<rparr>, Inl (snapshot_error_text e))
      | Inr st' \<Rightarrow>
          (app\<lparr>ka_snapshots := st'\<rparr>,
           case snapshot_get_any st' (es_snapshot_id r) of
             Inl e \<Rightarrow> Inl (snapshot_error_text e) | Inr x \<Rightarrow> Inr x))"

definition failed_state :: "rotation_io \<Rightarrow> rotation_state \<Rightarrow> string \<Rightarrow> rotation_state" where
  "failed_state io s e = s\<lparr>rs_status := RotFailed, rs_last_error := Some e, rs_updated_at := ki_later io\<rparr>"

definition rotate_snapshot ::
  "crypto_env \<Rightarrow> rotation_io \<Rightarrow> string \<Rightarrow> rotation_request \<Rightarrow> rotation_app \<Rightarrow> snapshot_record
     \<Rightarrow> (rotation_app \<times> rotation_attempt) option" where
  "rotate_snapshot env io cycle req app r =
     (let now = ki_now io; prev = previous_keys_of r;
          s0 = rotation_state_for_record app r now;
          rec = rotation_evaluate (ka_policy app) (rs_created_at s0) (rs_last_rewrapped_at s0) now;
          s1 = s0\<lparr>rs_last_cycle_id := Some cycle\<rparr> in
      if delete_state_str (sl_delete_state (es_lifecycle r)) = ''purged'' then
        (let s = s1\<lparr>rs_status := RotSkipped, rs_due_state := DuePurged, rs_last_operation := OpNone\<rparr> in
         Some (persist_rotation_state app s,
               attempt_response r s OpNone rec prev (Some ''snapshot is purged'')))
      else
        (let op = choose_rotation_operation app rec req in
         if op = OpNone then
           (let s = s1\<lparr>rs_status := (if rs_due_state s1 = DueCurrent then RotCurrent else RotSkipped),
                  rs_last_operation := OpNone\<rparr> in
            Some (persist_rotation_state app s, attempt_response r s op rec prev None))
         else
           (let s = s1\<lparr>rs_status := RotRunning, rs_last_operation := op\<rparr>;
                app1 = persist_rotation_state app s in
            case rotated_payload env io (ka_cipher app) op (es_encrypted_payload r) of
              None \<Rightarrow> None
            | Some (Inl e) \<Rightarrow>
                (let f = failed_state io s (encryption_error_text e) in
                 Some (persist_rotation_state app1 f, attempt_response r f op rec prev (rs_last_error f)))
            | Some (Inr p) \<Rightarrow>
                (case store_rotated app1 r p now of
                   (app2, Inl e) \<Rightarrow>
                     (let f = failed_state io s e in
                      Some (persist_rotation_state app2 f, attempt_response r f op rec prev (rs_last_error f)))
                 | (app2, Inr updated) \<Rightarrow>
                     (case save_snapshot io app2 updated of
                        (app3, Some e) \<Rightarrow>
                          (let f = failed_state io s e in
                           Some (persist_rotation_state app3 f,
                                 attempt_response updated f op rec prev (rs_last_error f)))
                      | (app3, None) \<Rightarrow>
                          (let d = (rotation_state_with_key_age app3 updated (ki_later io)
                                 (if op = OpDekRotation \<or> op = OpDekAndKek then Some now else None))
                               \<lparr>rs_status := RotCompleted, rs_last_operation := op,
                                rs_last_cycle_id := Some cycle, rs_last_error := None\<rparr> in
                           Some (persist_rotation_state app3 d, attempt_response updated d op rec prev None)))))))"

subsection \<open>A cycle\<close>

definition selected ::
  "rotation_trigger \<Rightarrow> string \<Rightarrow> string option \<Rightarrow> rotation_request \<Rightarrow> snapshot_record \<Rightarrow> bool" where
  "selected trigger tenant project req r =
     ((trigger = TrigManual \<longrightarrow> es_tenant_id r = tenant) \<and>
      (case project of Some p \<Rightarrow> es_project_id r = p | None \<Rightarrow> True) \<and>
      (case kq_snapshot_id req of Some s \<Rightarrow> es_snapshot_id r = s | None \<Rightarrow> True))"

text \<open>The loop over the snapshots read at the start, with the number processed so far.\<close>

fun rotate_all ::
  "crypto_env \<Rightarrow> (string \<Rightarrow> rotation_io) \<Rightarrow> string \<Rightarrow> (snapshot_record \<Rightarrow> bool) \<Rightarrow> rotation_request
     \<Rightarrow> nat \<Rightarrow> rotation_app \<Rightarrow> snapshot_record list \<Rightarrow> (rotation_app \<times> rotation_attempt list) option" where
  "rotate_all env io cycle sel req n app [] = Some (app, [])"
| "rotate_all env io cycle sel req n app (r # rs) =
     (if \<not> sel r then rotate_all env io cycle sel req n app rs
      else if max 1 (kt_batch_limit (ka_settings app)) \<le> n \<and> \<not> kq_force req then Some (app, [])
      else case rotate_snapshot env (io (es_snapshot_id r)) cycle req app r of
        None \<Rightarrow> None
      | Some (app1, a) \<Rightarrow>
          map_option (\<lambda>(app2, as). (app2, a # as)) (rotate_all env io cycle sel req (n + 1) app1 rs))"

definition empty_attempt :: "rotation_request \<Rightarrow> rotation_status \<Rightarrow> string option \<Rightarrow> rotation_attempt" where
  "empty_attempt req status err =
     \<lparr>ko_snapshot_id = (case kq_snapshot_id req of Some s \<Rightarrow> s | None \<Rightarrow> ''*''),
      ko_status = rotation_status_str status, ko_operation = rotation_operation_str OpNone,
      ko_rotate_dek_due = False, ko_rotate_kek_wrap_due = False, ko_previous_provider = [],
      ko_previous_kek_id = [], ko_previous_key_version = None, ko_previous_dek_id = [],
      ko_current_provider = [], ko_current_kek_id = [], ko_current_key_version = None,
      ko_current_dek_id = [], ko_last_rewrapped_at = None, ko_due_state = rotation_due_str DueCurrent,
      ko_error = err\<rparr>"

definition rotation_run_response :: "rotation_attempt list \<Rightarrow> rotation_response" where
  "rotation_run_response as =
     \<lparr>kn_evaluated = length as,
      kn_rotated_deks = length (filter (\<lambda>a. ko_operation a \<in> {''dek_rotation'', ''dek_rotation_and_kek_refresh''}
        \<and> ko_status a = ''completed'') as),
      kn_rewrapped_keks = length (filter (\<lambda>a. ko_operation a \<in> {''kek_rewrap'', ''dek_rotation_and_kek_refresh''}
        \<and> ko_status a = ''completed'') as),
      kn_skipped = length (filter (\<lambda>a. ko_status a = ''skipped'' \<or> ko_operation a = ''none'') as),
      kn_failed = length (filter (\<lambda>a. ko_status a = ''failed'') as),
      kn_results = as\<rparr>"

definition run_rotation_cycle ::
  "crypto_env \<Rightarrow> (string \<Rightarrow> rotation_io) \<Rightarrow> string option \<Rightarrow> string \<Rightarrow> rotation_trigger \<Rightarrow> string
     \<Rightarrow> string option \<Rightarrow> rotation_request \<Rightarrow> bool \<Rightarrow> rotation_app \<Rightarrow> (rotation_app \<times> rotation_response) option" where
  "run_rotation_cycle env io load_error cycle trigger tenant project req emit_noop app =
     (case load_rotation_snapshots load_error app of
        (app1, Inl e) \<Rightarrow> Some (app1, rotation_run_response [empty_attempt req RotFailed (Some e)])
      | (app1, Inr rs) \<Rightarrow>
          map_option (\<lambda>(app2, as). (app2, rotation_run_response
              (if as = [] \<and> emit_noop then [empty_attempt req RotSkipped None] else as)))
            (rotate_all env io cycle (selected trigger tenant project req) req 0 app1 rs))"

text \<open>The states of all snapshots, as a listing shows them.\<close>

definition ensure_rotation_states ::
  "string option \<Rightarrow> time \<Rightarrow> string option \<Rightarrow> rotation_app \<Rightarrow> rotation_app \<times> (string + rotation_state list)" where
  "ensure_rotation_states load_error now tenant app =
     (case load_rotation_snapshots load_error app of
        (app1, Inl e) \<Rightarrow> (app1, Inl (''failed to load key rotation inventory: '' @ e))
      | (app1, Inr rs) \<Rightarrow>
          (case foldl (\<lambda>(a, ss) r.
               (let computed = rotation_state_for_record a r now;
                    merged = merge_rotation_state computed (map_of (ka_states a) (rs_inventory_id computed)) in
                (persist_rotation_state a merged, ss @ [merged])))
              (app1, [])
              (filter (\<lambda>r. case tenant of Some t \<Rightarrow> es_tenant_id r = t | None \<Rightarrow> True) rs) of
             (app2, ss) \<Rightarrow>
               (app2, Inr (sort_key (\<lambda>s. [rs_tenant_id s, rs_project_id s, rs_snapshot_id s]) ss))))"

subsection \<open>Rotation keeps the data\<close>

definition purged_record :: "snapshot_record \<Rightarrow> bool" where
  "purged_record r = (sl_delete_state (es_lifecycle r) = SnapPurged)"

lemma purged_label: "delete_state_str (sl_delete_state (es_lifecycle r)) = ''purged'' \<longleftrightarrow> purged_record r"
  using delete_state_str_inj [of "sl_delete_state (es_lifecycle r)" SnapPurged] by (simp add: purged_record_def)

text \<open>A record that is not purged decrypts to the plaintext kept for its identifier.\<close>

definition record_intact ::
  "crypto_env \<Rightarrow> kms_client_config \<Rightarrow> (string \<Rightarrow> byte list) \<Rightarrow> snapshot_record \<Rightarrow> bool" where
  "record_intact env cfg D r =
     (purged_record r \<or>
      provider_decrypt env (cipher_of cfg) (es_encrypted_payload r) = Some (Inr (D (es_snapshot_id r))))"

definition records_intact ::
  "crypto_env \<Rightarrow> kms_client_config \<Rightarrow> (string \<Rightarrow> byte list) \<Rightarrow> (string \<Rightarrow> snapshot_record option) \<Rightarrow> bool" where
  "records_intact env cfg D m =
     (\<forall>sid r. m sid = Some r \<longrightarrow> es_snapshot_id r = sid \<and> record_intact env cfg D r)"

definition table_ok :: "snapshot_table \<Rightarrow> bool" where
  "table_ok tbl = (distinct (map fst tbl) \<and> list_all (\<lambda>(k, r). es_snapshot_id r = k) tbl)"

definition app_intact ::
  "crypto_env \<Rightarrow> kms_client_config \<Rightarrow> (string \<Rightarrow> byte list) \<Rightarrow> rotation_app \<Rightarrow> bool" where
  "app_intact env cfg D app =
     (ka_cipher app = cipher_of cfg \<and> records_intact env cfg D (map_of (ka_snapshots app)) \<and>
      (case ka_table app of None \<Rightarrow> True
       | Some tbl \<Rightarrow> table_ok tbl \<and> records_intact env cfg D (map_of tbl)))"

definition io_ok :: "rotation_io \<Rightarrow> bool" where
  "io_ok io = (length (ki_dek io) = 32 \<and> length (ki_nonce io) = 12)"

lemma records_intact_upd:
  "\<lbrakk> records_intact env cfg D m; es_snapshot_id r = sid; record_intact env cfg D r \<rbrakk>
     \<Longrightarrow> records_intact env cfg D (m(sid \<mapsto> r))"
  by (auto simp: records_intact_def)

lemma decrypt_held_inv:
  assumes "contract_only cfg" and "provider_decrypt env (cipher_of cfg) p = Some (Inr plaintext)"
  obtains dek where "holds_key env cfg p dek" "length dek = 32"
    "\<And>q. \<lbrakk> holds_key env cfg q dek; ep_ciphertext q = ep_ciphertext p; ep_nonce q = ep_nonce p;
       ep_algorithm q = ep_algorithm p \<rbrakk> \<Longrightarrow> provider_decrypt env (cipher_of cfg) q = Some (Inr plaintext)"
proof -
  obtain s where s: "pv_services (cipher_of cfg) (ep_kms_provider p) = Some s"
    using assms(2) by (auto simp: provider_decrypt_def decrypt_with_service_def service_for_provider_def
        res_of_option_def split: option.splits if_splits)
  have "rel_option same_service (Some s) (Some s)"
    using services_agree [OF assms(1,1), of "ep_kms_provider p"] s by (simp add: same_metadata_def)
  then obtain c where c: "service_core s = Inl c" by (auto simp: same_service_def)
  obtain dek where dek: "core_unwrap env c (ep_wrapped_dek p) = Inr dek"
    using assms(2) s c
    by (auto simp: provider_decrypt_def decrypt_with_service_def service_for_provider_def service_unwrap_def
        kms_result_def split: option.splits if_splits sum.splits)
  have "length dek = 32"
    using dek by (auto simp: core_unwrap_def res_bind_eq_Inr split: if_splits)
  moreover have "holds_key env cfg p dek" using s c dek by (auto simp: holds_key_def)
  moreover have "provider_decrypt env (cipher_of cfg) q = Some (Inr plaintext)"
    if q: "holds_key env cfg q dek" "ep_ciphertext q = ep_ciphertext p" "ep_nonce q = ep_nonce p"
      "ep_algorithm q = ep_algorithm p" for q
    using assms(2) s c dek q
    by (auto simp: provider_decrypt_def decrypt_with_service_def service_for_provider_def service_unwrap_def
        holds_key_def split: option.splits if_splits)
  ultimately show ?thesis using that by blast
qed

lemma rotated_payload_intact:
  assumes ok: "crypto_ok env" "contract_only cfg" "io_ok io"
    and p: "provider_decrypt env (cipher_of cfg) p = Some (Inr plaintext)"
  shows "\<exists>r. rotated_payload env io (cipher_of cfg) op p = Some r \<and>
    (\<forall>q. r = Inr q \<longrightarrow> provider_decrypt env (cipher_of cfg) q = Some (Inr plaintext))"
proof -
  obtain dek where dek: "holds_key env cfg p dek" "length dek = 32"
    "\<And>q. \<lbrakk> holds_key env cfg q dek; ep_ciphertext q = ep_ciphertext p; ep_nonce q = ep_nonce p;
       ep_algorithm q = ep_algorithm p \<rbrakk> \<Longrightarrow> provider_decrypt env (cipher_of cfg) q = Some (Inr plaintext)"
    using decrypt_held_inv [OF ok(2) p] by blast
  have rewrap: "provider_decrypt env (cipher_of cfg) q = Some (Inr plaintext)"
    if "provider_rewrap env (cipher_of cfg) p = Inr q" for q
    using rewrap_keeps_key [OF ok(1,2) dek(1,2)] that dek(3) by (metis sum.inject(2))
  have encrypt: "provider_decrypt env (cipher_of cfg) q = Some (Inr plaintext)"
    if q: "provider_encrypt env (ki_nonce io) (ki_dek io) (ki_ulid io) (cipher_of cfg) plaintext = Inr q" for q
  proof -
    have io: "length (ki_dek io) = 32" "length (ki_nonce io) = 12" using ok(3) by (simp_all add: io_ok_def)
    obtain c where "holds_key env cfg q (ki_dek io)" "cr_seal env (ki_dek io) (ki_nonce io) plaintext = Some c"
      "ep_algorithm q = ''aes-256-gcm-siv''" "ep_nonce q = cr_encode env (ki_nonce io)"
      "ep_ciphertext q = cr_encode env c"
      using provider_encrypt_key [OF ok(1,2) io(1) q] by metis
    then show ?thesis using decrypt_held [OF ok(1) _ io] by blast
  qed
  show ?thesis
    by (cases op) (use p rewrap encrypt in \<open>auto simp: rotated_payload_def\<close>)
qed

lemma store_rotated_intact:
  assumes app: "app_intact env cfg D app" and r: "record_intact env cfg D r" "\<not> purged_record r"
    and p: "provider_decrypt env (cipher_of cfg) p = Some (Inr (D (es_snapshot_id r)))"
    and stored: "store_rotated app r p now = (app1, res)"
  shows "app_intact env cfg D app1 \<and> ka_settings app1 = ka_settings app \<and>
    (\<exists>x. res = Inr x \<and> es_snapshot_id x = es_snapshot_id r \<and> record_intact env cfg D x)"
proof -
  let ?sid = "es_snapshot_id r"
  define st where "st = (case snapshot_get_any (ka_snapshots app) ?sid of
    Inl e \<Rightarrow> snapshot_restore_record (ka_snapshots app) r | Inr x \<Rightarrow> ka_snapshots app)"
  have st: "records_intact env cfg D (map_of st)"
    using app r(1) by (auto simp: st_def app_intact_def snapshot_restore_record_def update_conv'
        intro!: records_intact_upd split: sum.splits)
  obtain x where x: "map_of st ?sid = Some x"
    by (cases "map_of (ka_snapshots app) ?sid")
      (simp_all add: st_def snapshot_get_any_def snapshot_restore_record_def update_conv')
  let ?x = "x\<lparr>es_encrypted_payload := p, es_lifecycle := (es_lifecycle x)\<lparr>sl_last_rewrapped_at := Some now\<rparr>\<rparr>"
  have id: "es_snapshot_id x = ?sid" using st x by (auto simp: records_intact_def)
  have ok: "record_intact env cfg D ?x" using p id by (simp add: record_intact_def)
  have "store_rotated app r p now = (app\<lparr>ka_snapshots := AList.update ?sid ?x st\<rparr>, Inr ?x)"
    using x unfolding store_rotated_def st_def [symmetric]
    by (simp add: Let_def snapshot_mark_rewrapped_def snapshot_get_any_def update_conv')
  with stored have "app1 = app\<lparr>ka_snapshots := AList.update ?sid ?x st\<rparr>" "res = Inr ?x" by simp_all
  moreover have "records_intact env cfg D (map_of (AList.update ?sid ?x st))"
    using records_intact_upd [OF st _ ok, of ?sid] id by (simp add: update_conv')
  ultimately show ?thesis using app id ok by (auto simp: app_intact_def)
qed

lemma table_save_ok: "table_ok tbl \<Longrightarrow> table_ok (table_save tbl r)"
proof -
  assume ok: "table_ok tbl"
  have "es_snapshot_id x = k" if "(k, x) \<in> set (AList.update (es_snapshot_id r) y tbl)"
    "es_snapshot_id y = es_snapshot_id r" for k x y
  proof -
    have "map_of (AList.update (es_snapshot_id r) y tbl) k = Some x"
      using ok that(1) by (simp add: table_ok_def distinct_update)
    then show ?thesis
      using ok that(2) by (auto simp: table_ok_def list_all_iff update_conv' dest!: map_of_SomeD split: if_splits)
  qed
  with ok show ?thesis
    by (auto simp: table_ok_def table_save_def list_all_iff distinct_update split: option.splits)
qed

lemma save_snapshot_intact:
  assumes app: "app_intact env cfg D app" and r: "record_intact env cfg D r"
    and saved: "save_snapshot io app r = (app1, e)"
  shows "app_intact env cfg D app1 \<and> ka_settings app1 = ka_settings app"
proof (cases "ka_table app")
  case None
  with app saved show ?thesis by (simp add: save_snapshot_def)
next
  case (Some tbl)
  have tbl: "table_ok tbl" "records_intact env cfg D (map_of tbl)"
    using app Some by (simp_all add: app_intact_def)
  have "records_intact env cfg D (map_of (table_save tbl r))"
    using tbl(2) r
    by (auto simp: table_save_def update_conv' record_intact_def purged_record_def split: option.splits
        intro!: records_intact_upd)
  with tbl app Some saved show ?thesis
    by (auto simp: save_snapshot_def app_intact_def table_save_ok split: option.splits)
qed

lemma persist_intact [simp]:
  "app_intact env cfg D (persist_rotation_state app s) = app_intact env cfg D app"
  "ka_settings (persist_rotation_state app s) = ka_settings app"
  "ka_cipher (persist_rotation_state app s) = ka_cipher app"
  by (simp_all add: app_intact_def persist_rotation_state_def)

text \<open>
  What a rotation may change of a record: its payload and the time of its last re-wrap.  In
  particular a record that is not purged stays so.
\<close>

definition rekeyed :: "snapshot_record \<Rightarrow> snapshot_record \<Rightarrow> bool" where
  "rekeyed r r' = (\<exists>p t. r' = r\<lparr>es_encrypted_payload := p,
     es_lifecycle := (es_lifecycle r)\<lparr>sl_last_rewrapped_at := t\<rparr>\<rparr>)"

lemma rekeyed_refl [simp]: "rekeyed r r"
  unfolding rekeyed_def
  by (rule exI [of _ "es_encrypted_payload r"], rule exI [of _ "sl_last_rewrapped_at (es_lifecycle r)"]) simp

lemma rekeyed_trans:
  assumes "rekeyed r s" "rekeyed s t"
  shows "rekeyed r t"
proof -
  from assms obtain p a q b where "s = r\<lparr>es_encrypted_payload := p, es_lifecycle := (es_lifecycle r)\<lparr>sl_last_rewrapped_at := a\<rparr>\<rparr>"
    and "t = s\<lparr>es_encrypted_payload := q, es_lifecycle := (es_lifecycle s)\<lparr>sl_last_rewrapped_at := b\<rparr>\<rparr>"
    by (auto simp: rekeyed_def)
  then have "t = r\<lparr>es_encrypted_payload := q, es_lifecycle := (es_lifecycle r)\<lparr>sl_last_rewrapped_at := b\<rparr>\<rparr>"
    by simp
  then show ?thesis unfolding rekeyed_def by blast
qed

lemma rekeyed_sym: "rekeyed r s \<Longrightarrow> rekeyed s r"
proof -
  assume "rekeyed r s"
  then obtain p t where "s = r\<lparr>es_encrypted_payload := p, es_lifecycle := (es_lifecycle r)\<lparr>sl_last_rewrapped_at := t\<rparr>\<rparr>"
    by (auto simp: rekeyed_def)
  then have "r = s\<lparr>es_encrypted_payload := es_encrypted_payload r,
      es_lifecycle := (es_lifecycle s)\<lparr>sl_last_rewrapped_at := sl_last_rewrapped_at (es_lifecycle r)\<rparr>\<rparr>"
    by simp
  then show ?thesis unfolding rekeyed_def by blast
qed

lemma rekeyed_fields: "rekeyed r s \<Longrightarrow> es_created_at s = es_created_at r \<and> es_snapshot_id s = es_snapshot_id r"
  by (auto simp: rekeyed_def)

type_synonym snapshot_map = "string \<Rightarrow> snapshot_record option"

definition all_kept :: "snapshot_map \<Rightarrow> snapshot_map \<Rightarrow> bool" where
  "all_kept m m' = (\<forall>sid r. m sid = Some r \<longrightarrow> (\<exists>r'. m' sid = Some r' \<and> rekeyed r r'))"

lemma all_kept_refl [simp]: "all_kept m m"
  by (simp add: all_kept_def)

lemma all_kept_trans: "\<lbrakk> all_kept m m'; all_kept m' m'' \<rbrakk> \<Longrightarrow> all_kept m m''"
  unfolding all_kept_def by (meson rekeyed_trans)

lemma all_kept_upd: "(\<And>r. m sid = Some r \<Longrightarrow> rekeyed r s) \<Longrightarrow> all_kept m (m(sid \<mapsto> s))"
  by (simp add: all_kept_def)

definition table_map :: "rotation_app \<Rightarrow> snapshot_map" where
  "table_map app = (case ka_table app of None \<Rightarrow> Map.empty | Some tbl \<Rightarrow> map_of tbl)"

text \<open>While a cycle runs, each row of the table is in the store, up to its keys.\<close>

definition store_follows :: "rotation_app \<Rightarrow> bool" where
  "store_follows app = all_kept (table_map app) (map_of (ka_snapshots app))"

definition rows_kept :: "rotation_app \<Rightarrow> rotation_app \<Rightarrow> bool" where
  "rows_kept app app' =
     (all_kept (table_map app) (table_map app') \<and> all_kept (map_of (ka_snapshots app)) (map_of (ka_snapshots app')) \<and>
      (ka_table app' = None \<longleftrightarrow> ka_table app = None))"

lemma rows_kept_refl [simp]: "rows_kept app app"
  by (simp add: rows_kept_def)

lemma rows_kept_trans: "\<lbrakk> rows_kept a b; rows_kept b c \<rbrakk> \<Longrightarrow> rows_kept a c"
  unfolding rows_kept_def
  using all_kept_trans [of "table_map a" "table_map b" "table_map c"]
    all_kept_trans [of "map_of (ka_snapshots a)" "map_of (ka_snapshots b)" "map_of (ka_snapshots c)"]
  by simp

lemma persist_rows [simp]:
  "rows_kept app (persist_rotation_state app' s) = rows_kept app app'"
  "rows_kept (persist_rotation_state app s) app' = rows_kept app app'"
  "store_follows (persist_rotation_state app s) = store_follows app"
  by (simp_all add: rows_kept_def store_follows_def table_map_def persist_rotation_state_def)

lemma store_rotated_rows:
  assumes "store_rotated app r p now = (app1, res)" "store_follows app"
  shows "rows_kept app app1 \<and> store_follows app1 \<and>
    (\<forall>x. res = Inr x \<longrightarrow> (\<exists>sid. map_of (ka_snapshots app1) sid = Some x \<and> sid = es_snapshot_id r))"
proof -
  let ?sid = "es_snapshot_id r"
  define st where "st = (case snapshot_get_any (ka_snapshots app) ?sid of
    Inl e \<Rightarrow> snapshot_restore_record (ka_snapshots app) r | Inr x \<Rightarrow> ka_snapshots app)"
  have st: "all_kept (map_of (ka_snapshots app)) (map_of st)"
    by (auto simp: st_def snapshot_get_any_def snapshot_restore_record_def update_conv' res_of_option_def
        intro!: all_kept_upd split: option.splits)
  obtain x where x: "map_of st ?sid = Some x"
    by (cases "map_of (ka_snapshots app) ?sid")
      (simp_all add: st_def snapshot_get_any_def snapshot_restore_record_def update_conv')
  let ?x = "x\<lparr>es_encrypted_payload := p, es_lifecycle := (es_lifecycle x)\<lparr>sl_last_rewrapped_at := Some now\<rparr>\<rparr>"
  have "store_rotated app r p now = (app\<lparr>ka_snapshots := AList.update ?sid ?x st\<rparr>, Inr ?x)"
    using x unfolding store_rotated_def st_def [symmetric]
    by (simp add: Let_def snapshot_mark_rewrapped_def snapshot_get_any_def update_conv')
  with assms(1) have app1: "app1 = app\<lparr>ka_snapshots := AList.update ?sid ?x st\<rparr>" and res: "res = Inr ?x" by simp_all
  have "rekeyed x ?x" by (auto simp: rekeyed_def)
  then have "all_kept (map_of st) (map_of (AList.update ?sid ?x st))"
    using x by (auto simp: update_conv' intro!: all_kept_upd)
  with st have kept: "all_kept (map_of (ka_snapshots app)) (map_of (ka_snapshots app1))"
    unfolding app1 by (simp add: all_kept_trans)
  then have "rows_kept app app1" by (simp add: rows_kept_def app1 table_map_def)
  moreover have "store_follows app1"
    using assms(2) kept unfolding store_follows_def by (simp add: app1 table_map_def all_kept_trans)
  ultimately show ?thesis by (simp add: app1 res update_conv')
qed

lemma save_snapshot_rows:
  assumes "save_snapshot io app x = (app1, e)" "store_follows app"
    and "map_of (ka_snapshots app) sid = Some x" "es_snapshot_id x = sid"
  shows "rows_kept app app1 \<and> store_follows app1"
proof (cases "ka_table app")
  case None
  with assms show ?thesis by (simp add: save_snapshot_def)
next
  case (Some tbl)
  show ?thesis
  proof (cases "ki_save_error io")
    case None
    let ?y = "case map_of tbl sid of Some old \<Rightarrow> x\<lparr>es_created_at := es_created_at old\<rparr> | None \<Rightarrow> x"
    have old: "rekeyed r x" if row: "map_of tbl sid = Some r" for r
    proof -
      obtain x' where "map_of (ka_snapshots app) sid = Some x'" "rekeyed r x'"
        using assms(2) row Some unfolding store_follows_def all_kept_def table_map_def by fastforce
      with assms(3) show ?thesis by simp
    qed
    then have y: "?y = x" by (auto split: option.splits dest!: rekeyed_fields)
    have app1: "app1 = app\<lparr>ka_table := Some (AList.update sid x tbl)\<rparr>"
      using assms(1,4) Some None y by (simp add: save_snapshot_def table_save_def)
    have "rows_kept app app1"
      using old by (auto simp: rows_kept_def app1 table_map_def Some update_conv' intro!: all_kept_upd)
    moreover have "store_follows app1"
      using assms(2,3) by (auto simp: store_follows_def app1 table_map_def Some update_conv' all_kept_def)
    ultimately show ?thesis by blast
  qed (use assms Some in \<open>auto simp: save_snapshot_def\<close>)
qed

lemma rotate_snapshot_intact:
  assumes ok: "crypto_ok env" "contract_only cfg" "io_ok io"
    and app: "app_intact env cfg D app" and r: "record_intact env cfg D r" and follows: "store_follows app"
  shows "\<exists>app1 a. rotate_snapshot env io cycle req app r = Some (app1, a) \<and> app_intact env cfg D app1 \<and>
    ka_settings app1 = ka_settings app \<and> rows_kept app app1 \<and> store_follows app1"
proof (cases "purged_record r \<or> choose_rotation_operation app
    (rotation_evaluate (ka_policy app) (rs_created_at (rotation_state_for_record app r (ki_now io)))
      (rs_last_rewrapped_at (rotation_state_for_record app r (ki_now io))) (ki_now io)) req = OpNone")
  case True
  with app follows show ?thesis by (auto simp: rotate_snapshot_def Let_def purged_label)
next
  case False
  let ?s0 = "rotation_state_for_record app r (ki_now io)"
  let ?rec = "rotation_evaluate (ka_policy app) (rs_created_at ?s0) (rs_last_rewrapped_at ?s0) (ki_now io)"
  let ?op = "choose_rotation_operation app ?rec req"
  let ?s = "?s0\<lparr>rs_last_cycle_id := Some cycle, rs_status := RotRunning, rs_last_operation := ?op\<rparr>"
  let ?app1 = "persist_rotation_state app ?s"
  have cipher: "ka_cipher app = cipher_of cfg" using app by (simp add: app_intact_def)
  have readable: "provider_decrypt env (cipher_of cfg) (es_encrypted_payload r) = Some (Inr (D (es_snapshot_id r)))"
    using r False by (simp add: record_intact_def)
  obtain res where res: "rotated_payload env io (cipher_of cfg) ?op (es_encrypted_payload r) = Some res"
      "\<And>q. res = Inr q \<Longrightarrow> provider_decrypt env (cipher_of cfg) q = Some (Inr (D (es_snapshot_id r)))"
    using rotated_payload_intact [OF ok readable, of ?op] by blast
  show ?thesis
  proof (cases res)
    case (Inl e)
    with False res cipher app follows show ?thesis by (simp add: rotate_snapshot_def Let_def purged_label)
  next
    case (Inr q)
    obtain app2 w where w: "store_rotated ?app1 r q (ki_now io) = (app2, w)" by fastforce
    have "app_intact env cfg D ?app1" using app by simp
    from store_rotated_intact [OF this r _ res(2) [OF Inr] w] False
    obtain x where x: "app_intact env cfg D app2" "ka_settings app2 = ka_settings app" "w = Inr x"
        "record_intact env cfg D x" "es_snapshot_id x = es_snapshot_id r"
      by auto
    from store_rotated_rows [OF w] follows x(3)
    have rows: "rows_kept app app2" "store_follows app2" "map_of (ka_snapshots app2) (es_snapshot_id r) = Some x"
      by simp_all
    obtain app3 e where e: "save_snapshot io app2 x = (app3, e)" by fastforce
    from save_snapshot_intact [OF x(1,4) e] x(2)
    have "app_intact env cfg D app3" "ka_settings app3 = ka_settings app" by simp_all
    moreover have "rows_kept app app3" "store_follows app3"
      using save_snapshot_rows [OF e rows(2,3) x(5)] rows(1) rows_kept_trans by blast+
    ultimately show ?thesis using False res(1) cipher Inr w x(3) e
      by (cases e) (simp_all add: rotate_snapshot_def Let_def purged_label)
  qed
qed

lemma rotate_all_intact:
  assumes "crypto_ok env" and "contract_only cfg" and "\<And>sid. io_ok (io sid)"
    and "app_intact env cfg D app" and "list_all (record_intact env cfg D) rs" and "store_follows app"
  shows "\<exists>app1 as. rotate_all env io cycle sel req n app rs = Some (app1, as) \<and> app_intact env cfg D app1 \<and>
    rows_kept app app1"
  using assms(4-6)
proof (induction rs arbitrary: n app)
  case (Cons r rs)
  have r: "record_intact env cfg D r" "list_all (record_intact env cfg D) rs" using Cons.prems(2) by simp_all
  obtain app1 a where step: "rotate_snapshot env (io (es_snapshot_id r)) cycle req app r = Some (app1, a)"
      "app_intact env cfg D app1" "rows_kept app app1" "store_follows app1"
    using rotate_snapshot_intact [OF assms(1-3) Cons.prems(1) r(1) Cons.prems(3)] by blast
  obtain app2 as where "rotate_all env io cycle sel req (n + 1) app1 rs = Some (app2, as)"
      "app_intact env cfg D app2" "rows_kept app app2"
    using Cons.IH [OF step(2) r(2) step(4)] rows_kept_trans [OF step(3)] by blast
  with Cons.IH [OF Cons.prems(1) r(2) Cons.prems(3)] Cons.prems(1) step(1) show ?case by auto
qed simp

lemma set_insert_by_age [simp]: "set (insert_by_age r xs) = insert r (set xs)"
  by (induction xs) auto

lemma set_table_load [simp]: "set (table_load tbl) = snd ` set tbl"
  by (induction tbl) (auto simp: table_load_def)

lemma table_ok_lookup: "\<lbrakk> table_ok tbl; r \<in> snd ` set tbl \<rbrakk> \<Longrightarrow> map_of tbl (es_snapshot_id r) = Some r"
  by (auto simp: table_ok_def list_all_iff)

lemma restore_records_intact:
  assumes "records_intact env cfg D (map_of st)" and "list_all (record_intact env cfg D) rs"
  shows "records_intact env cfg D (map_of (foldl snapshot_restore_record st rs))"
  using assms
proof (induction rs arbitrary: st)
  case (Cons r rs)
  then have "records_intact env cfg D (map_of (AList.update (es_snapshot_id r) r st))"
    by (auto simp: update_conv' intro!: records_intact_upd)
  with Cons show ?case by (simp add: snapshot_restore_record_def)
qed simp

lemma load_intact:
  assumes app: "app_intact env cfg D app" and load: "load_rotation_snapshots e app = (app1, Inr rs)"
  shows "app_intact env cfg D app1 \<and> list_all (record_intact env cfg D) rs"
proof (cases "ka_table app")
  case None
  with assms show ?thesis
    by (auto simp: load_rotation_snapshots_def list_all_iff List.map_filter_def app_intact_def records_intact_def)
next
  case (Some tbl)
  then have tbl: "table_ok tbl" "records_intact env cfg D (map_of tbl)" using app by (simp_all add: app_intact_def)
  then have all: "list_all (record_intact env cfg D) (table_load tbl)"
    using table_ok_lookup [OF tbl(1)] by (auto simp: list_all_iff records_intact_def)
  have "records_intact env cfg D (map_of (foldl snapshot_restore_record (ka_snapshots app) (table_load tbl)))"
    using app by (intro restore_records_intact all) (simp add: app_intact_def)
  with Some assms all show ?thesis
    by (auto simp: load_rotation_snapshots_def app_intact_def split: option.splits)
qed

lemma restored_row:
  assumes "r \<in> set rs" "\<forall>x \<in> set rs. es_snapshot_id x = es_snapshot_id r \<longrightarrow> x = r"
  shows "map_of (foldl snapshot_restore_record st rs) (es_snapshot_id r) = Some r"
proof -
  have keep: "map_of (foldl snapshot_restore_record st rs) sid = Some r"
    if "map_of st sid = Some r" "\<forall>x \<in> set rs. es_snapshot_id x = sid \<longrightarrow> x = r" for st rs sid
    using that by (induction rs arbitrary: st) (auto simp: snapshot_restore_record_def update_conv')
  show ?thesis using assms
  proof (induction rs arbitrary: st)
    case (Cons x rs)
    show ?case
    proof (cases "r = x")
      case True
      then have "map_of (snapshot_restore_record st x) (es_snapshot_id r) = Some r"
        by (simp add: snapshot_restore_record_def update_conv')
      with keep [OF this] Cons.prems(2) show ?thesis by simp
    qed (use Cons in simp)
  qed simp
qed

lemma restored_other:
  assumes "\<forall>x \<in> set rs. es_snapshot_id x \<noteq> sid"
  shows "map_of (foldl snapshot_restore_record st rs) sid = map_of st sid"
  using assms by (induction rs arbitrary: st) (auto simp: snapshot_restore_record_def update_conv')

text \<open>
  What a cycle leaves in the table is what was there, with other keys; what it leaves in the store is
  what was there or, where the table has a row for the snapshot, that row.
\<close>

definition contents_kept :: "rotation_app \<Rightarrow> rotation_app \<Rightarrow> bool" where
  "contents_kept app app' =
     (all_kept (table_map app) (table_map app') \<and>
      (\<forall>sid r. map_of (ka_snapshots app) sid = Some r \<longrightarrow>
         (\<exists>r'. map_of (ka_snapshots app') sid = Some r' \<and>
            (rekeyed r r' \<or> (\<exists>row. table_map app sid = Some row \<and> rekeyed row r')))))"

lemma load_rows:
  assumes app: "app_intact env cfg D app" and load: "load_rotation_snapshots e app = (app1, Inr rs)"
    and kept: "rows_kept app1 app'"
  shows "store_follows app1 \<and> contents_kept app app'"
proof (cases "ka_table app")
  case None
  with load have "app1 = app" by (simp add: load_rotation_snapshots_def)
  with None kept show ?thesis
    by (auto simp: store_follows_def contents_kept_def rows_kept_def table_map_def all_kept_def)
next
  case (Some tbl)
  let ?st = "foldl snapshot_restore_record (ka_snapshots app) (table_load tbl)"
  have tbl: "table_ok tbl" using app Some by (simp add: app_intact_def)
  have app1: "app1 = app\<lparr>ka_snapshots := ?st\<rparr>"
    using load Some by (auto simp: load_rotation_snapshots_def split: option.splits)
  have row: "map_of ?st sid = Some r" if "map_of tbl sid = Some r" for sid r
  proof -
    have id: "es_snapshot_id r = sid" using tbl map_of_SomeD [OF that] by (auto simp: table_ok_def list_all_iff)
    moreover have "r \<in> set (table_load tbl)" using map_of_SomeD [OF that] by force
    moreover have "\<forall>x \<in> set (table_load tbl). es_snapshot_id x = es_snapshot_id r \<longrightarrow> x = r"
    proof (intro ballI impI)
      fix x assume "x \<in> set (table_load tbl)" and same: "es_snapshot_id x = es_snapshot_id r"
      then have "map_of tbl (es_snapshot_id x) = Some x" by (intro table_ok_lookup [OF tbl]) simp
      with that id same show "x = r" by simp
    qed
    ultimately show ?thesis using restored_row [of r "table_load tbl" "ka_snapshots app"] by simp
  qed
  have other: "map_of ?st sid = map_of (ka_snapshots app) sid" if "map_of tbl sid = None" for sid
  proof (rule restored_other, intro ballI notI)
    fix x assume "x \<in> set (table_load tbl)" "es_snapshot_id x = sid"
    moreover from this have "map_of tbl (es_snapshot_id x) = Some x" by (intro table_ok_lookup [OF tbl]) simp
    ultimately show False using that by simp
  qed
  have "store_follows app1"
    using row by (auto simp: store_follows_def app1 table_map_def Some all_kept_def intro: rekeyed_refl)
  moreover have "contents_kept app app'"
    unfolding contents_kept_def
  proof (intro conjI allI impI)
    show "all_kept (table_map app) (table_map app')"
      using kept by (simp add: rows_kept_def app1 table_map_def)
    fix sid r assume r: "map_of (ka_snapshots app) sid = Some r"
    have store: "all_kept (map_of ?st) (map_of (ka_snapshots app'))" using kept by (simp add: rows_kept_def app1)
    show "\<exists>r'. map_of (ka_snapshots app') sid = Some r' \<and>
        (rekeyed r r' \<or> (\<exists>row. table_map app sid = Some row \<and> rekeyed row r'))"
      using store row [of sid] other [of sid] r
      by (cases "map_of tbl sid") (auto simp: all_kept_def table_map_def Some)
  qed
  ultimately show ?thesis ..
qed

lemma rotation_cycle_intact:
  assumes "crypto_ok env" and "contract_only cfg" and "\<And>sid. io_ok (io sid)" and "app_intact env cfg D app"
  shows "\<exists>app' response. run_rotation_cycle env io load_error cycle trigger tenant project req noop app
      = Some (app', response) \<and> app_intact env cfg D app' \<and> contents_kept app app'"
proof -
  obtain app1 res where load: "load_rotation_snapshots load_error app = (app1, res)" by fastforce
  show ?thesis
  proof (cases res)
    case (Inl e)
    have "contents_kept app app" by (auto simp: contents_kept_def)
    with Inl load assms(4) show ?thesis
      by (auto simp: run_rotation_cycle_def load_rotation_snapshots_def split: option.splits)
  next
    case (Inr rs)
    from load_intact [OF assms(4) load [unfolded Inr]]
    have ok: "app_intact env cfg D app1" "list_all (record_intact env cfg D) rs" by simp_all
    note rows = load_rows [OF assms(4) load [unfolded Inr]]
    from rotate_all_intact [where io = io, OF assms(1-3) ok] rows [of app1] obtain app2 as where
      "rotate_all env io cycle (selected trigger tenant project req) req 0 app1 rs = Some (app2, as)"
      "app_intact env cfg D app2" "rows_kept app1 app2"
      by (metis rows_kept_refl)
    with load Inr rows [of app2] show ?thesis by (simp add: run_rotation_cycle_def)
  qed
qed

text \<open>
  C17. Rotation never loses data.  If every snapshot that is not purged, in the store and in the
  table, decrypts to its plaintext under the configured key services, then a rotation cycle, for
  any request, trigger, batch limit, clock and failures of the table, ends without a panic.  Each row
  of the table is still there and differs at most in its payload and the time of its last re-wrap,
  and so is each record of the store, unless the table has another version of it, which replaces it;
  and every record that is not purged still decrypts to the same plaintext.  (The key services are
  the built-in ones: a Vault server that holds the keys itself is not among them.)
\<close>

theorem rotation_keeps_data:
  assumes "crypto_ok env" and "contract_only cfg" and "\<And>sid. io_ok (io sid)" and "app_intact env cfg D app"
  shows "\<exists>app' response. run_rotation_cycle env io load_error cycle trigger tenant project req noop app
      = Some (app', response) \<and> app_intact env cfg D app' \<and> contents_kept app app'"
  by (rule rotation_cycle_intact [OF assms])

subsection \<open>What a batch leaves out\<close>

definition age_key :: "snapshot_record \<Rightarrow> time \<times> string" where
  "age_key r = (es_created_at r, es_snapshot_id r)"

definition load_keys :: "snapshot_table \<Rightarrow> (time \<times> string) list" where
  "load_keys tbl = map age_key (table_load tbl)"

lemma insert_by_age_keys:
  "\<lbrakk> age_key r = age_key r'; map age_key xs = map age_key ys \<rbrakk>
     \<Longrightarrow> map age_key (insert_by_age r xs) = map age_key (insert_by_age r' ys)"
proof (induction xs arbitrary: ys)
  case (Cons x xs)
  then obtain y ys' where "ys = y # ys'" "age_key y = age_key x" "map age_key xs = map age_key ys'" by (cases ys) auto
  moreover have "es_created_at r = es_created_at r'" "es_snapshot_id r = es_snapshot_id r'"
      "es_created_at y = es_created_at x" "es_snapshot_id y = es_snapshot_id x"
    using Cons.prems(1) calculation(2) by (simp_all add: age_key_def)
  ultimately show ?case using Cons.IH [of ys'] Cons.prems(1) by simp
qed auto

lemma load_keys_cong: "map age_key (map snd t) = map age_key (map snd t') \<Longrightarrow> load_keys t = load_keys t'"
proof (induction t arbitrary: t')
  case (Cons p t)
  then obtain p' t'' where "t' = p' # t''" "age_key (snd p') = age_key (snd p)"
      "map age_key (map snd t) = map age_key (map snd t'')"
    by (cases t') auto
  with Cons.IH [of t''] insert_by_age_keys [of "snd p" "snd p'"] show ?case
    by (simp add: load_keys_def table_load_def)
qed simp

lemma update_keys:
  assumes "map_of tbl k = Some old" and "age_key r = age_key old"
  shows "map age_key (map snd (AList.update k r tbl)) = map age_key (map snd tbl)"
  using assms by (induction tbl) (auto split: if_splits)

lemma table_save_keys:
  assumes "table_ok tbl" and "es_snapshot_id r \<in> fst ` set tbl"
  shows "load_keys (table_save tbl r) = load_keys tbl"
proof -
  obtain old where old: "map_of tbl (es_snapshot_id r) = Some old"
    using assms(2) by (metis map_of_eq_None_iff not_None_eq)
  have "es_snapshot_id old = es_snapshot_id r"
    using assms(1) map_of_SomeD [OF old] by (auto simp: table_ok_def list_all_iff)
  then have "age_key (r\<lparr>es_created_at := es_created_at old\<rparr>) = age_key old" by (simp add: age_key_def)
  from update_keys [OF old this] show ?thesis
    by (intro load_keys_cong) (simp only: table_save_def old option.case)
qed

lemma table_save_other: "k \<noteq> es_snapshot_id r \<Longrightarrow> map_of (table_save tbl r) k = map_of tbl k"
  by (simp add: table_save_def update_conv' split: option.splits)

definition keyed :: "(string \<Rightarrow> snapshot_record option) \<Rightarrow> bool" where
  "keyed m = (\<forall>k x. m k = Some x \<longrightarrow> es_snapshot_id x = k)"

definition rotation_touches :: "string set \<Rightarrow> rotation_app \<Rightarrow> rotation_app \<Rightarrow> bool" where
  "rotation_touches S app app1 =
     (ka_settings app1 = ka_settings app \<and> keyed (map_of (ka_snapshots app1)) \<and>
      (\<forall>tbl. ka_table app = Some tbl \<longrightarrow>
        (\<exists>tbl1. ka_table app1 = Some tbl1 \<and> table_ok tbl1 \<and> load_keys tbl1 = load_keys tbl \<and>
           fst ` set tbl1 = fst ` set tbl \<and> (\<forall>k. k \<notin> S \<longrightarrow> map_of tbl1 k = map_of tbl k))))"

lemma touches_trans:
  "\<lbrakk> rotation_touches S a b; rotation_touches T b c \<rbrakk> \<Longrightarrow> rotation_touches (S \<union> T) a c"
  by (fastforce simp: rotation_touches_def)

lemma touches_refl:
  "\<lbrakk> keyed (map_of (ka_snapshots app)); \<And>tbl. ka_table app = Some tbl \<Longrightarrow> table_ok tbl \<rbrakk>
     \<Longrightarrow> rotation_touches S app app"
  by (auto simp: rotation_touches_def)

lemma touches_persist [simp]:
  "rotation_touches S app (persist_rotation_state a s) = rotation_touches S app a"
  by (simp add: rotation_touches_def persist_rotation_state_def)

lemma touches_from_persist [simp]:
  "rotation_touches S (persist_rotation_state app s) a = rotation_touches S app a"
  by (simp add: rotation_touches_def persist_rotation_state_def)

lemma keyed_upd: "\<lbrakk> keyed m; es_snapshot_id r = k \<rbrakk> \<Longrightarrow> keyed (m(k \<mapsto> r))"
  by (auto simp: keyed_def)

lemma store_rotated_keyed:
  assumes "keyed (map_of (ka_snapshots app))" and "store_rotated app r p now = (app1, res)"
  shows "keyed (map_of (ka_snapshots app1)) \<and> ka_settings app1 = ka_settings app \<and> ka_table app1 = ka_table app \<and>
    (\<forall>x. res = Inr x \<longrightarrow> es_snapshot_id x = es_snapshot_id r)"
proof -
  define st where "st = (case snapshot_get_any (ka_snapshots app) (es_snapshot_id r) of
    Inl e \<Rightarrow> snapshot_restore_record (ka_snapshots app) r | Inr x \<Rightarrow> ka_snapshots app)"
  have st: "keyed (map_of st)"
    using assms(1) by (auto simp: st_def snapshot_restore_record_def update_conv' keyed_upd split: sum.splits)
  show ?thesis
  proof (cases "map_of st (es_snapshot_id r)")
    case None
    with st assms(2) show ?thesis unfolding store_rotated_def st_def [symmetric]
      by (auto simp: snapshot_mark_rewrapped_def snapshot_get_any_def)
  next
    case (Some x)
    then have "es_snapshot_id x = es_snapshot_id r" using st by (simp add: keyed_def)
    with Some st assms(2) show ?thesis unfolding store_rotated_def st_def [symmetric]
      by (auto simp: snapshot_mark_rewrapped_def snapshot_get_any_def update_conv' keyed_upd)
  qed
qed

lemma save_snapshot_touches:
  assumes "keyed (map_of (ka_snapshots app))" and "\<And>tbl. ka_table app = Some tbl \<Longrightarrow> table_ok tbl"
    and "\<And>tbl. ka_table app = Some tbl \<Longrightarrow> es_snapshot_id r \<in> fst ` set tbl"
    and "save_snapshot io app r = (app1, e)"
  shows "rotation_touches {es_snapshot_id r} app app1"
proof (cases "ka_table app")
  case None
  with assms show ?thesis by (simp add: save_snapshot_def rotation_touches_def)
next
  case (Some tbl)
  have fst: "fst ` set (table_save tbl r) = fst ` set tbl"
    using assms(3) [OF Some] by (auto simp: table_save_def dom_update split: option.splits)
  show ?thesis
  proof (cases "ki_save_error io")
    case None
    with assms Some have "app1 = app\<lparr>ka_table := Some (table_save tbl r)\<rparr>" by (simp add: save_snapshot_def)
    moreover have "table_ok tbl" "es_snapshot_id r \<in> fst ` set tbl" using assms(2,3) Some by simp_all
    ultimately show ?thesis
      using assms(1) Some fst by (auto simp: rotation_touches_def table_save_ok table_save_keys table_save_other)
  next
    case err: (Some x)
    with assms Some have "app1 = app" by (simp add: save_snapshot_def)
    with touches_refl [OF assms(1,2)] show ?thesis by simp
  qed
qed

lemma rotate_snapshot_touches:
  assumes keyed: "keyed (map_of (ka_snapshots app))" and tbl: "\<And>tbl. ka_table app = Some tbl \<Longrightarrow> table_ok tbl"
    and mem: "\<And>tbl. ka_table app = Some tbl \<Longrightarrow> es_snapshot_id r \<in> fst ` set tbl"
    and step: "rotate_snapshot env io cycle req app r = Some (app1, a)"
  shows "rotation_touches {es_snapshot_id r} app app1"
proof -
  have refl: "rotation_touches {es_snapshot_id r} app app" by (rule touches_refl [OF keyed tbl])
  have stored: "rotation_touches {es_snapshot_id r} app app2 \<and>
      (\<forall>x app3 e. res = Inr x \<longrightarrow> save_snapshot io app2 x = (app3, e) \<longrightarrow>
        rotation_touches {es_snapshot_id r} app app3)"
    if "store_rotated (persist_rotation_state app s) r p now = (app2, res)" for s p now app2 res
  proof -
    have k: "keyed (map_of (ka_snapshots app2))" "ka_settings app2 = ka_settings app" "ka_table app2 = ka_table app"
        "\<And>x. res = Inr x \<Longrightarrow> es_snapshot_id x = es_snapshot_id r"
      using store_rotated_keyed [OF _ that] keyed by (simp_all add: persist_rotation_state_def)
    have one: "rotation_touches {es_snapshot_id r} app app2"
      using k tbl by (auto simp: rotation_touches_def)
    moreover have "rotation_touches {es_snapshot_id r} app app3"
      if "res = Inr x" "save_snapshot io app2 x = (app3, e)" for x app3 e
    proof -
      have "rotation_touches {es_snapshot_id r} app2 app3"
        using save_snapshot_touches [OF k(1) _ _ that(2)] k(3) k(4) [OF that(1)] tbl mem by simp
      from touches_trans [OF one this] show ?thesis by simp
    qed
    ultimately show ?thesis by blast
  qed
  show ?thesis
    using step refl stored
    unfolding rotate_snapshot_def Let_def
    by (fastforce split: if_splits option.splits sum.splits prod.splits)
qed

definition batch_size :: "rotation_app \<Rightarrow> nat" where
  "batch_size app = max 1 (kt_batch_limit (ka_settings app))"

definition rotation_ready :: "rotation_app \<Rightarrow> bool" where
  "rotation_ready app =
     (keyed (map_of (ka_snapshots app)) \<and> (case ka_table app of None \<Rightarrow> True | Some tbl \<Rightarrow> table_ok tbl))"

lemma touches_ready: "\<lbrakk> rotation_touches S app app1; ka_table app = Some tbl \<rbrakk> \<Longrightarrow> rotation_ready app1"
  by (auto simp: rotation_touches_def rotation_ready_def)

lemma rotate_all_touches:
  assumes "rotation_ready app" and "ka_table app = Some tbl" and "\<not> kq_force req"
    and "es_snapshot_id ` set rs \<subseteq> fst ` set tbl"
    and "rotate_all env io cycle (\<lambda>r. True) req n app rs = Some (app1, as)"
  shows "rotation_touches (es_snapshot_id ` set (take (batch_size app - n) rs)) app app1"
  using assms
proof (induction rs arbitrary: n app tbl as)
  case Nil
  then show ?case by (auto simp: rotation_ready_def intro!: touches_refl)
next
  case (Cons r rs)
  have ready: "keyed (map_of (ka_snapshots app))" "table_ok tbl"
    using Cons.prems(1,2) by (simp_all add: rotation_ready_def)
  show ?case
  proof (cases "batch_size app \<le> n")
    case True
    then have "app1 = app" using Cons.prems(3,5) by (simp add: batch_size_def)
    with ready Cons.prems(2) True show ?thesis by (auto intro!: touches_refl)
  next
    case False
    then obtain app2 a as' where s: "rotate_snapshot env (io (es_snapshot_id r)) cycle req app r = Some (app2, a)"
        "rotate_all env io cycle (\<lambda>r. True) req (n + 1) app2 rs = Some (app1, as')"
      using Cons.prems(3,5) by (auto simp: batch_size_def split: option.splits)
    have t: "rotation_touches {es_snapshot_id r} app app2"
      using rotate_snapshot_touches [OF ready(1) _ _ s(1)] Cons.prems(2,4) ready(2) by simp
    then obtain tbl2 where tbl2: "ka_table app2 = Some tbl2" "fst ` set tbl2 = fst ` set tbl"
        "batch_size app2 = batch_size app"
      using Cons.prems(2) by (auto simp: rotation_touches_def batch_size_def)
    have "rotation_touches (es_snapshot_id ` set (take (batch_size app2 - (n + 1)) rs)) app2 app1"
      using Cons.IH [OF touches_ready [OF t Cons.prems(2)] tbl2(1) Cons.prems(3) _ s(2)] Cons.prems(4) tbl2(2)
      by simp
    from touches_trans [OF t this] False tbl2(3) show ?thesis
      by (simp add: take_Cons')
  qed
qed

lemma restore_records_keyed:
  assumes "keyed (map_of st)"
  shows "keyed (map_of (foldl snapshot_restore_record st rs))"
  using assms
proof (induction rs arbitrary: st)
  case (Cons r rs)
  then have "keyed (map_of (snapshot_restore_record st r))"
    by (simp add: snapshot_restore_record_def update_conv' keyed_upd)
  with Cons.IH show ?case by simp
qed simp

text \<open>The cycle as the runtime starts it: every snapshot, without force.\<close>

definition runtime_cycle ::
  "crypto_env \<Rightarrow> (string \<Rightarrow> rotation_io) \<times> string option \<times> string \<Rightarrow> rotation_app
     \<Rightarrow> (rotation_app \<times> rotation_response) option" where
  "runtime_cycle env run app =
     (case run of (io, load_error, cycle) \<Rightarrow>
        run_rotation_cycle env io load_error cycle TrigRuntime ''system'' None rotation_request_default False app)"

lemma selected_runtime: "selected TrigRuntime tenant None rotation_request_default = (\<lambda>r. True)"
  by (rule ext) (simp add: selected_def rotation_request_default_def)

lemma runtime_cycle_touches:
  assumes ready: "rotation_ready app" and tbl: "ka_table app = Some tbl"
    and run: "runtime_cycle env run app = Some (app1, resp)"
  shows "rotation_touches (es_snapshot_id ` set (take (batch_size app) (table_load tbl))) app app1"
proof -
  obtain io e cycle where r: "run = (io, e, cycle)" by (cases run)
  have ok: "keyed (map_of (ka_snapshots app))" "table_ok tbl" using ready tbl by (simp_all add: rotation_ready_def)
  show ?thesis
  proof (cases e)
    case (Some x)
    with run r tbl have "app1 = app" by (simp add: runtime_cycle_def run_rotation_cycle_def load_rotation_snapshots_def)
    with ok tbl show ?thesis by (auto intro!: touches_refl)
  next
    case None
    let ?app0 = "app\<lparr>ka_snapshots := foldl snapshot_restore_record (ka_snapshots app) (table_load tbl)\<rparr>"
    obtain as where all: "rotate_all env io cycle (\<lambda>r. True) rotation_request_default 0 ?app0 (table_load tbl)
        = Some (app1, as)"
      using run r tbl None
      by (auto simp: runtime_cycle_def run_rotation_cycle_def load_rotation_snapshots_def selected_runtime)
    have "rotation_ready ?app0" using ok tbl restore_records_keyed by (simp add: rotation_ready_def)
    moreover have "es_snapshot_id ` set (table_load tbl) \<subseteq> fst ` set tbl"
      using ok(2) by (force simp: table_ok_def list_all_iff)
    ultimately have "rotation_touches (es_snapshot_id ` set (take (batch_size ?app0) (table_load tbl))) ?app0 app1"
      using rotate_all_touches [OF _ _ _ _ all] tbl by (simp add: rotation_request_default_def)
    then show ?thesis by (simp add: rotation_touches_def batch_size_def)
  qed
qed

fun runtime_cycles ::
  "crypto_env \<Rightarrow> ((string \<Rightarrow> rotation_io) \<times> string option \<times> string) list \<Rightarrow> rotation_app \<Rightarrow> rotation_app option" where
  "runtime_cycles env [] app = Some app"
| "runtime_cycles env (run # runs) app =
     (case runtime_cycle env run app of None \<Rightarrow> None | Some (app1, resp) \<Rightarrow> runtime_cycles env runs app1)"

lemma mset_insert_by_age: "mset (insert_by_age r xs) = add_mset r (mset xs)"
  by (induction xs) auto

lemma mset_table_load: "mset (table_load tbl) = mset (map snd tbl)"
  by (induction tbl) (simp_all add: table_load_def mset_insert_by_age)

lemma load_ids_distinct:
  assumes "table_ok tbl"
  shows "distinct (map es_snapshot_id (table_load tbl))"
proof -
  have "mset (map es_snapshot_id (table_load tbl)) = mset (map es_snapshot_id (map snd tbl))"
    by (simp only: mset_map mset_table_load)
  also have "map es_snapshot_id (map snd tbl) = map fst tbl"
    using assms by (auto simp: table_ok_def list_all_iff)
  finally have "mset (map es_snapshot_id (table_load tbl)) = mset (map fst tbl)" .
  then show ?thesis
    using assms by (metis mset_eq_imp_distinct_iff table_ok_def)
qed

lemma load_keys_ids: "load_keys t = load_keys t' \<Longrightarrow> map es_snapshot_id (table_load t) = map es_snapshot_id (table_load t')"
proof -
  assume "load_keys t = load_keys t'"
  then have "map snd (load_keys t) = map snd (load_keys t')" by simp
  then show ?thesis by (simp add: load_keys_def age_key_def comp_def)
qed

text \<open>
  Some keys are never rotated.  The cycles of the runtime read the snapshots oldest first and
  stop at the batch limit, whether the snapshots they counted were due or not.  So the record of
  every snapshot past the limit in that order is never changed, by any number of cycles, however
  long its keys are overdue.
\<close>

lemma batch_limit_starves:
  assumes "rotation_ready app" and "ka_table app = Some tbl"
    and "batch_size app \<le> i" and "i < length (table_load tbl)"
    and "runtime_cycles env runs app = Some app'"
  shows "\<exists>tbl'. ka_table app' = Some tbl' \<and>
    map_of tbl' (es_snapshot_id (table_load tbl ! i)) = map_of tbl (es_snapshot_id (table_load tbl ! i)) \<and>
    map_of tbl (es_snapshot_id (table_load tbl ! i)) = Some (table_load tbl ! i)"
proof -
  have "\<exists>tbl'. ka_table app' = Some tbl' \<and> map_of tbl' (es_snapshot_id (table_load tbl ! i))
      = map_of tbl (es_snapshot_id (table_load tbl ! i))"
    using assms
  proof (induction runs arbitrary: app tbl)
    case (Cons run runs)
    obtain app1 resp where run: "runtime_cycle env run app = Some (app1, resp)" "runtime_cycles env runs app1 = Some app'"
      using Cons.prems(5) by (auto split: option.splits)
    have t: "rotation_touches (es_snapshot_id ` set (take (batch_size app) (table_load tbl))) app app1"
      by (rule runtime_cycle_touches [OF Cons.prems(1,2) run(1)])
    let ?id = "es_snapshot_id (table_load tbl ! i)"
    have tbl: "table_ok tbl" using Cons.prems(1,2) by (simp add: rotation_ready_def)
    have "?id \<notin> es_snapshot_id ` set (take (batch_size app) (table_load tbl))"
    proof
      assume "?id \<in> es_snapshot_id ` set (take (batch_size app) (table_load tbl))"
      then obtain j where "j < batch_size app" "j < length (table_load tbl)"
          "es_snapshot_id (table_load tbl ! j) = ?id"
        by (auto simp: in_set_conv_nth)
      with load_ids_distinct [OF tbl] Cons.prems(3,4) show False
        by (auto simp: distinct_conv_nth)
    qed
    with t Cons.prems(2) obtain tbl1 where tbl1: "ka_table app1 = Some tbl1" "load_keys tbl1 = load_keys tbl"
        "map_of tbl1 ?id = map_of tbl ?id" "batch_size app1 = batch_size app"
      by (auto simp: rotation_touches_def batch_size_def)
    have ids: "map es_snapshot_id (table_load tbl1) = map es_snapshot_id (table_load tbl)"
      by (rule load_keys_ids [OF tbl1(2)])
    then have len: "length (table_load tbl1) = length (table_load tbl)" by (rule map_eq_imp_length_eq)
    have "es_snapshot_id (table_load tbl1 ! i) = ?id"
      using arg_cong [OF ids, of "\<lambda>l. l ! i"] len Cons.prems(4) by simp
    with Cons.IH [OF touches_ready [OF t Cons.prems(2)] tbl1(1) _ _ run(2)] tbl1(3,4) Cons.prems(3,4) len
    show ?case by simp
  qed simp
  moreover have "map_of tbl (es_snapshot_id (table_load tbl ! i)) = Some (table_load tbl ! i)"
  proof (rule table_ok_lookup)
    show "table_ok tbl" using assms(1,2) by (simp add: rotation_ready_def)
    show "table_load tbl ! i \<in> snd ` set tbl"
      using nth_mem [OF assms(4)] by simp
  qed
  ultimately show ?thesis by blast
qed


definition sample_io :: rotation_io where
  "sample_io = \<lparr>ki_now = days_ns 1000, ki_later = days_ns 1000, ki_nonce = replicate 12 3,
     ki_dek = replicate 32 4, ki_ulid = ''dek-2'', ki_save_error = None\<rparr>"

definition sample_kms :: kms_client_config where
  "sample_kms = sample_kms_config MockProvider ''1''"

definition sample_encrypted :: encrypted_payload where
  "sample_encrypted = projr (provider_encrypt sample_crypto (replicate 12 7) (replicate 32 9) ''dek''
     (cipher_of sample_kms) [1, 2, 3])"

definition sample_stored :: "string \<Rightarrow> snapshot_record" where
  "sample_stored sid = snd (snapshot_put sid 0 [] sample_snapshot_request sample_encrypted 1)"

definition sample_rotation_app :: rotation_app where
  "sample_rotation_app =
     \<lparr>ka_snapshots = [], ka_states = [],
      ka_table = Some [(''s1'', sample_stored ''s1''), (''s2'', sample_stored ''s2'')],
      ka_policy = rotation_policy_default,
      ka_settings = \<lparr>kt_enabled = True, kt_batch_limit = 1, kt_allow_dek_rotation = True,
        kt_allow_kek_rewrap = True\<rparr>,
      ka_cipher = cipher_of sample_kms\<rparr>"

lemma sample_encrypted_eq:
  "provider_encrypt sample_crypto (replicate 12 7) (replicate 32 9) ''dek'' (cipher_of sample_kms) [1, 2, 3]
     = Inr sample_encrypted"
  by (simp add: sample_encrypted_def sample_kms_def provider_encrypt_def cipher_of_def provider_cipher_new_def
      build_kms_registry_def active_service_def service_for_provider_def service_new_defs
      encrypt_with_service_def service_generate_def service_wrap_def aead_seal_def sample_kms_config_def
      sample_crypto_def Let_def)

lemma sample_contract: "contract_only sample_kms"
  by (simp add: sample_kms_def contract_only_def sample_kms_config_def)

lemma sample_readable: "provider_decrypt sample_crypto (cipher_of sample_kms) sample_encrypted = Some (Inr [1, 2, 3])"
proof -
  obtain c where c: "holds_key sample_crypto sample_kms sample_encrypted (replicate 32 9)"
    "cr_seal sample_crypto (replicate 32 9) (replicate 12 7) [1, 2, 3] = Some c"
    "ep_algorithm sample_encrypted = ''aes-256-gcm-siv''"
    "ep_nonce sample_encrypted = cr_encode sample_crypto (replicate 12 7)"
    "ep_ciphertext sample_encrypted = cr_encode sample_crypto c"
    by (rule provider_encrypt_key [OF sample_crypto_ok sample_contract _ sample_encrypted_eq]) simp
  show ?thesis by (rule decrypt_held [OF sample_crypto_ok c(1) _ _ c(2-5)]) simp_all
qed

lemma sample_stored_simps [simp]:
  "es_snapshot_id (sample_stored sid) = sid" "es_encrypted_payload (sample_stored sid) = sample_encrypted"
  "es_created_at (sample_stored sid) = 0" "\<not> purged_record (sample_stored sid)"
  by (simp_all add: sample_stored_def snapshot_put_def Let_def purged_record_def)

lemma sample_app_intact: "app_intact sample_crypto sample_kms (\<lambda>sid. [1, 2, 3]) sample_rotation_app"
  by (auto simp: app_intact_def sample_rotation_app_def records_intact_def table_ok_def record_intact_def
      sample_readable split: if_splits)

lemma sample_io_ok: "io_ok sample_io"
  by (simp add: io_ok_def sample_io_def)

lemma rotation_keeps_data_witness:
  "\<exists>app' response. run_rotation_cycle sample_crypto (\<lambda>sid. sample_io) None ''c1'' TrigRuntime ''system'' None
      (rotation_request_default\<lparr>kq_force := True\<rparr>) False sample_rotation_app = Some (app', response) \<and>
    app_intact sample_crypto sample_kms (\<lambda>sid. [1, 2, 3]) app' \<and> contents_kept sample_rotation_app app'"
  by (rule rotation_keeps_data [OF sample_crypto_ok sample_contract sample_io_ok sample_app_intact])

lemma batch_limit_starves_witness:
  "\<exists>app' tbl'. runtime_cycles sample_crypto [(\<lambda>sid. sample_io, None, ''c1'')] sample_rotation_app = Some app' \<and>
    ka_table app' = Some tbl' \<and> map_of tbl' ''s2'' = Some (sample_stored ''s2'')"
proof -
  let ?tbl = "[(''s1'', sample_stored ''s1''), (''s2'', sample_stored ''s2'')]"
  have load: "table_load ?tbl = [sample_stored ''s1'', sample_stored ''s2'']"
    by (simp add: table_load_def)
  obtain app' resp where "run_rotation_cycle sample_crypto (\<lambda>sid. sample_io) None ''c1'' TrigRuntime ''system'' None
      rotation_request_default False sample_rotation_app = Some (app', resp)"
    using rotation_cycle_intact [OF sample_crypto_ok sample_contract sample_io_ok sample_app_intact] by blast
  then have run: "runtime_cycles sample_crypto [(\<lambda>sid. sample_io, None, ''c1'')] sample_rotation_app = Some app'"
    by (simp add: runtime_cycle_def)
  have ready: "rotation_ready sample_rotation_app"
    by (simp add: rotation_ready_def sample_rotation_app_def keyed_def table_ok_def)
  have tbl: "ka_table sample_rotation_app = Some ?tbl" by (simp add: sample_rotation_app_def)
  have "batch_size sample_rotation_app \<le> 1" by (simp add: batch_size_def sample_rotation_app_def)
  from batch_limit_starves [OF ready tbl this _ run] run show ?thesis by (simp add: load)
qed

subsection \<open>The age of a key\<close>

lemma store_rotated_created:
  assumes "store_rotated app r p now = (app1, Inr x)"
  shows "es_created_at x = es_created_at (option_or (map_of (ka_snapshots app) (es_snapshot_id r)) r)"
  using assms
  by (cases "map_of (ka_snapshots app) (es_snapshot_id r)")
    (auto simp: store_rotated_def Let_def snapshot_get_any_def snapshot_restore_record_def
      snapshot_mark_rewrapped_def update_conv' option_or_def)

lemma save_snapshot_same:
  "save_snapshot io app r = (app1, e) \<Longrightarrow>
     ka_snapshots app1 = ka_snapshots app \<and> ka_policy app1 = ka_policy app \<and> ka_states app1 = ka_states app"
  by (auto simp: save_snapshot_def split: option.splits)

lemma store_rotated_policy: "store_rotated app r p now = (app1, res) \<Longrightarrow> ka_policy app1 = ka_policy app"
  by (auto simp: store_rotated_def Let_def split: sum.splits)

lemma operation_kek: "rotation_operation_str op = ''kek_rewrap'' \<longleftrightarrow> op = OpKekRewrap"
  by (cases op) simp_all

lemma status_completed: "rotation_status_str st = ''completed'' \<longleftrightarrow> st = RotCompleted"
  by (cases st) simp_all

text \<open>A completed attempt has stored its record and left the state of the last branch.\<close>

lemma rotate_snapshot_completed:
  assumes "rotate_snapshot env io cycle req app r = Some (app', a)" and "ko_status a = ''completed''"
  obtains op s p app2 x app3 where
    "store_rotated (persist_rotation_state app s) r p (ki_now io) = (app2, Inr x)"
    "save_snapshot io app2 x = (app3, None)"
    "ko_operation a = rotation_operation_str op"
    "app' = persist_rotation_state app3
       ((rotation_state_with_key_age app3 x (ki_later io)
           (if op = OpDekRotation \<or> op = OpDekAndKek then Some (ki_now io) else None))
         \<lparr>rs_status := RotCompleted, rs_last_operation := op, rs_last_cycle_id := Some cycle,
          rs_last_error := None\<rparr>)"
proof -
  let ?s0 = "rotation_state_for_record app r (ki_now io)"
  let ?rec = "rotation_evaluate (ka_policy app) (rs_created_at ?s0) (rs_last_rewrapped_at ?s0) (ki_now io)"
  let ?op = "choose_rotation_operation app ?rec req"
  let ?s = "?s0\<lparr>rs_last_cycle_id := Some cycle, rs_status := RotRunning, rs_last_operation := ?op\<rparr>"
  note defs = rotate_snapshot_def Let_def purged_label attempt_response_def failed_state_def
  have np: "\<not> purged_record r" and op: "?op \<noteq> OpNone"
    using assms by (auto simp: defs status_completed split: if_splits)
  obtain q where q: "rotated_payload env io (ka_cipher app) ?op (es_encrypted_payload r) = Some (Inr q)"
    using assms np op by (simp add: defs split: option.splits sum.splits) auto
  obtain app2 w where w: "store_rotated (persist_rotation_state app ?s) r q (ki_now io) = (app2, w)" by fastforce
  obtain x where x: "w = Inr x"
    using assms np op q w by (cases w) (auto simp: defs)
  obtain app3 e where e: "save_snapshot io app2 x = (app3, e)" by fastforce
  have e0: "e = None"
    using assms np op q w x e by (cases e) (auto simp: defs)
  let ?d = "(rotation_state_with_key_age app3 x (ki_later io)
      (if ?op = OpDekRotation \<or> ?op = OpDekAndKek then Some (ki_now io) else None))
    \<lparr>rs_status := RotCompleted, rs_last_operation := ?op, rs_last_cycle_id := Some cycle, rs_last_error := None\<rparr>"
  have "rotate_snapshot env io cycle req app r
      = Some (persist_rotation_state app3 ?d, attempt_response x ?d ?op ?rec (previous_keys_of r) None)"
    using np op q w x e e0 by (simp add: rotate_snapshot_def Let_def purged_label cong: if_cong)
  with assms(1) have "app' = persist_rotation_state app3 ?d" "a = attempt_response x ?d ?op ?rec (previous_keys_of r) None"
    by simp_all
  then show ?thesis
    by (intro that [OF w [unfolded x] e [unfolded e0]]) (simp_all add: attempt_response_def Let_def)
qed

text \<open>
  A re-wrap forgets the age of the data key.  After a completed re-wrap the rotation state
  takes the creation time of the snapshot for that of its data key, also when the key was rotated
  since, so the next cycle finds the rotation of the data key due again.
\<close>

lemma rewrap_forgets_key_age:
  assumes "rotate_snapshot env io cycle req app r = Some (app', a)"
    and "ko_status a = ''completed''" and "ko_operation a = ''kek_rewrap''"
    and "keyed (map_of (ka_snapshots app))"
  shows "\<exists>s. map_of (ka_states app') (''snapshot:'' @ es_snapshot_id r) = Some s \<and>
    rs_created_at s = es_created_at (option_or (map_of (ka_snapshots app) (es_snapshot_id r)) r) \<and>
    rs_next_dek_rotation_due_at s = next_dek_rotation_due_at (ka_policy app) (rs_created_at s)"
proof -
  obtain op s p app2 x app3 where c:
    "store_rotated (persist_rotation_state app s) r p (ki_now io) = (app2, Inr x)"
    "save_snapshot io app2 x = (app3, None)" "ko_operation a = rotation_operation_str op"
    "app' = persist_rotation_state app3
       ((rotation_state_with_key_age app3 x (ki_later io)
           (if op = OpDekRotation \<or> op = OpDekAndKek then Some (ki_now io) else None))
         \<lparr>rs_status := RotCompleted, rs_last_operation := op, rs_last_cycle_id := Some cycle,
          rs_last_error := None\<rparr>)"
    by (rule rotate_snapshot_completed [OF assms(1,2)])
  have op: "op = OpKekRewrap" using assms(3) unfolding c(3) operation_kek .
  have x: "es_created_at x = es_created_at (option_or (map_of (ka_snapshots app) (es_snapshot_id r)) r)"
      "es_snapshot_id x = es_snapshot_id r"
  proof -
    have "keyed (map_of (ka_snapshots (persist_rotation_state app s)))"
      using assms(4) by (simp add: persist_rotation_state_def)
    from store_rotated_keyed [OF this c(1)] show "es_snapshot_id x = es_snapshot_id r" by blast
    from store_rotated_created [OF c(1)]
    show "es_created_at x = es_created_at (option_or (map_of (ka_snapshots app) (es_snapshot_id r)) r)"
      by (simp add: persist_rotation_state_def)
  qed
  have same: "ka_policy app3 = ka_policy app"
    using save_snapshot_same [OF c(2)] store_rotated_policy [OF c(1)] by (simp_all add: persist_rotation_state_def)
  show ?thesis
    using x same
    by (simp add: c(4) op persist_rotation_state_def rotation_state_with_key_age_def inventory_state_def Let_def
        update_conv')
qed

text \<open>A data key of the nine hundredth day, re-wrapped on the thousandth, counts as of the first.\<close>

definition fresh_key_app :: rotation_app where
  "fresh_key_app = sample_rotation_app\<lparr>ka_states := [(''snapshot:s1'',
     rotation_state_with_key_age sample_rotation_app (sample_stored ''s1'') (days_ns 900) (Some (days_ns 900)))]\<rparr>"

definition rewrap_request :: rotation_request where
  "rewrap_request = rotation_request_default\<lparr>kq_force := True, kq_include_dek := Some False\<rparr>"

lemma fresh_key_rewrapped:
  "\<exists>app' a. rotate_snapshot sample_crypto sample_io ''c1'' rewrap_request fresh_key_app (sample_stored ''s1'')
      = Some (app', a) \<and> ko_status a = ''completed'' \<and> ko_operation a = ''kek_rewrap''"
proof -
  obtain dek where dek: "holds_key sample_crypto sample_kms sample_encrypted dek" "length dek = 32"
    by (rule decrypt_held_inv [OF sample_contract sample_readable]) blast
  obtain p where p: "provider_rewrap sample_crypto (cipher_of sample_kms) sample_encrypted = Inr p"
    by (rule rewrap_keeps_key [OF sample_crypto_ok sample_contract dek]) blast
  have op: "choose_rotation_operation fresh_key_app rec rewrap_request = OpKekRewrap" for rec
    by (simp add: choose_rotation_operation_def fresh_key_app_def sample_rotation_app_def rewrap_request_def
        rotation_request_default_def)
  have cipher: "ka_cipher fresh_key_app = cipher_of sample_kms"
    by (simp add: fresh_key_app_def sample_rotation_app_def)
  have stored: "\<exists>app2 x. store_rotated (persist_rotation_state fresh_key_app s) (sample_stored ''s1'') p now
      = (app2, Inr x)" for s now
    by (simp add: store_rotated_def persist_rotation_state_def fresh_key_app_def sample_rotation_app_def
        snapshot_get_any_def snapshot_restore_record_def snapshot_mark_rewrapped_def)
  have saved: "\<exists>app3. save_snapshot sample_io app2 x = (app3, None)" for app2 x
    by (simp add: save_snapshot_def sample_io_def split: option.splits)
  let ?s0 = "rotation_state_for_record fresh_key_app (sample_stored ''s1'') (ki_now sample_io)"
  let ?s = "?s0\<lparr>rs_last_cycle_id := Some ''c1'', rs_status := RotRunning, rs_last_operation := OpKekRewrap\<rparr>"
  obtain app2 x where w: "store_rotated (persist_rotation_state fresh_key_app ?s) (sample_stored ''s1'') p
      (ki_now sample_io) = (app2, Inr x)"
    using stored by blast
  obtain app3 where e: "save_snapshot sample_io app2 x = (app3, None)" using saved by blast
  show ?thesis
    using p w e
    by (simp add: rotate_snapshot_def Let_def purged_label op cipher rotated_payload_def attempt_response_def)
qed

lemma rewrap_forgets_key_age_witness:
  "rs_created_at (snd (hd (ka_states fresh_key_app))) = days_ns 900 \<and>
   (\<exists>app' a s. rotate_snapshot sample_crypto sample_io ''c1'' rewrap_request fresh_key_app (sample_stored ''s1'')
      = Some (app', a) \<and> map_of (ka_states app') ''snapshot:s1'' = Some s \<and> rs_created_at s = 0)"
proof -
  obtain app' a where run: "rotate_snapshot sample_crypto sample_io ''c1'' rewrap_request fresh_key_app
      (sample_stored ''s1'') = Some (app', a)" "ko_status a = ''completed''" "ko_operation a = ''kek_rewrap''"
    using fresh_key_rewrapped by blast
  have "keyed (map_of (ka_snapshots fresh_key_app))"
    by (simp add: keyed_def fresh_key_app_def sample_rotation_app_def)
  from rewrap_forgets_key_age [OF run this]
  obtain s where s: "map_of (ka_states app') ''snapshot:s1'' = Some s" "rs_created_at s = 0"
    by (auto simp: fresh_key_app_def sample_rotation_app_def option_or_def)
  with run(1) show ?thesis
    by (auto simp: fresh_key_app_def rotation_state_with_key_age_def inventory_state_def Let_def)
qed

end
