(* ===== verification/Classification.thy ===== *)
theory Classification
  imports RustStrings
begin

text \<open>
  Data classification, \<open>sdqp-data-classification\<close>: rules that classify a field by its name,
  detection of patterns in sample values, escalation, confirmation, the catalogue derived from
  the rules, and the masking of values.  A row is an association list with distinct keys.
  Masking is \<open>None\<close> where the code panics on a slice that ends inside a character.
\<close>

subsection \<open>Data\<close>

datatype sensitivity_level = L1Public | L2Internal | L3Confidential | L4Sensitive | L5Restricted

fun level_rank :: "sensitivity_level \<Rightarrow> nat" where
  "level_rank L1Public = 1"
| "level_rank L2Internal = 2"
| "level_rank L3Confidential = 3"
| "level_rank L4Sensitive = 4"
| "level_rank L5Restricted = 5"

lemma level_rank_inj: "level_rank a = level_rank b \<Longrightarrow> a = b"
  by (cases a; cases b) simp_all

instantiation sensitivity_level :: linorder
begin

definition less_eq_sensitivity_level :: "sensitivity_level \<Rightarrow> sensitivity_level \<Rightarrow> bool" where
  "less_eq_sensitivity_level a b = (level_rank a \<le> level_rank b)"

definition less_sensitivity_level :: "sensitivity_level \<Rightarrow> sensitivity_level \<Rightarrow> bool" where
  "less_sensitivity_level a b = (level_rank a < level_rank b)"

instance
  by standard (auto simp: less_eq_sensitivity_level_def less_sensitivity_level_def dest: level_rank_inj)

end

lemmas level_order = less_eq_sensitivity_level_def less_sensitivity_level_def

datatype classification_status = PendingConfirmation | Confirmed

datatype data_category =
    PublicReference | InternalOperational | PersonalContact | PersonalIdentifier
  | FinancialIdentifier | InvestigationSensitive | GeneralConfidential

datatype masking_strategy = MaskNone | MaskPartialEmail | MaskPartialPhone | MaskFull

datatype watermark_strength = WmLow | WmMedium | WmHigh | WmCritical

datatype sensitive_pattern = PatChinaIdCard | PatBankCard | PatMobilePhone | PatEmail

datatype disposal_action = DisposeReview | DisposeArchive | DisposePurge

record regulation_reference =
  rg_code :: string
  rg_jurisdiction :: string
  rg_title :: string
  rg_retention_basis :: string

record class_retention_policy =
  cr_policy_id :: string
  cr_retain_for_days :: int
  cr_disposal_action :: disposal_action
  cr_legal_hold_supported :: bool

record catalog_entry =
  ce_catalog_entry_id :: string
  ce_data_category :: data_category
  ce_level :: sensitivity_level
  ce_applicable_regulations :: "regulation_reference list"
  ce_retention_policy :: class_retention_policy
  ce_manual_confirmation_required :: bool
  ce_rule_ids :: "string list"

record detected_pattern =
  dp_pattern :: sensitive_pattern
  dp_status :: classification_status

record field_classification =
  fc_field_name :: string
  fc_level :: sensitivity_level
  fc_status :: classification_status
  fc_masking_strategy :: masking_strategy
  fc_watermark_strength :: watermark_strength

datatype policy_source = FromRuleEngine | FromSampleDetection | FromManualConfirmation

datatype rule_version_status = RuleDraft | RuleActive | RuleRetired

record classification_rule =
  cl_rule_id :: string
  cl_catalog_entry_id :: string
  cl_field_matchers :: "string list"
  cl_sample_patterns :: "sensitive_pattern list"
  cl_level :: sensitivity_level
  cl_data_category :: data_category
  cl_applicable_regulations :: "regulation_reference list"
  cl_retention_policy :: class_retention_policy
  cl_manual_confirmation_required :: bool
  cl_masking_strategy :: masking_strategy
  cl_watermark_strength :: watermark_strength

record rule_version =
  rv_rule_version_id :: string
  rv_project_id :: string
  rv_data_source_id :: string
  rv_version_number :: int
  rv_status :: rule_version_status
  rv_rules :: "classification_rule list"
  rv_catalog_entries :: "catalog_entry list"

record field_policy =
  fp_field_name :: string
  fp_level :: sensitivity_level
  fp_data_category :: data_category
  fp_status :: classification_status
  fp_masking_strategy :: masking_strategy
  fp_watermark_strength :: watermark_strength
  fp_source :: policy_source
  fp_pattern_hints :: "sensitive_pattern list"
  fp_sample_value :: "string option"
  fp_rule_version_id :: "string option"
  fp_detection_run_id :: "string option"
  fp_catalog_entry_id :: "string option"
  fp_applicable_regulations :: "regulation_reference list"
  fp_retention_policy :: class_retention_policy
  fp_manual_confirmation_required :: bool

definition as_display_policy :: "field_policy \<Rightarrow> field_classification" where
  "as_display_policy p =
     \<lparr>fc_field_name = fp_field_name p, fc_level = fp_level p, fc_status = fp_status p,
      fc_masking_strategy = fp_masking_strategy p, fc_watermark_strength = fp_watermark_strength p\<rparr>"

subsection \<open>Regulations and the default rules\<close>

definition class_retention :: "string \<Rightarrow> int \<Rightarrow> disposal_action \<Rightarrow> class_retention_policy" where
  "class_retention pid days action =
     \<lparr>cr_policy_id = pid, cr_retain_for_days = days, cr_disposal_action = action,
      cr_legal_hold_supported = True\<rparr>"

definition pipl_regulation :: regulation_reference where
  "pipl_regulation =
     \<lparr>rg_code = ''PIPL'', rg_jurisdiction = ''CN'', rg_title = ''Personal Information Protection Law'',
      rg_retention_basis = ''minimum necessary retention for approved investigation purpose''\<rparr>"

definition data_security_law :: regulation_reference where
  "data_security_law =
     \<lparr>rg_code = ''DSL'', rg_jurisdiction = ''CN'', rg_title = ''Data Security Law'',
      rg_retention_basis = ''important data governance and auditability''\<rparr>"

definition cybersecurity_law :: regulation_reference where
  "cybersecurity_law =
     \<lparr>rg_code = ''CSL'', rg_jurisdiction = ''CN'', rg_title = ''Cybersecurity Law'',
      rg_retention_basis = ''network data security and traceability''\<rparr>"

definition internal_governance_policy :: regulation_reference where
  "internal_governance_policy =
     \<lparr>rg_code = ''SDQP-INTERNAL'', rg_jurisdiction = ''ORG'',
      rg_title = ''SDQP internal data governance policy'',
      rg_retention_basis = ''project-scoped operational audit and access control''\<rparr>"

definition default_rules :: "classification_rule list" where
  "default_rules =
     [\<lparr>cl_rule_id = ''email'', cl_catalog_entry_id = ''catalog-personal-contact'',
       cl_field_matchers = [''email''], cl_sample_patterns = [PatEmail], cl_level = L4Sensitive,
       cl_data_category = PersonalContact,
       cl_applicable_regulations = [pipl_regulation, cybersecurity_law],
       cl_retention_policy = class_retention ''retention-personal-contact'' 365 DisposeReview,
       cl_manual_confirmation_required = True, cl_masking_strategy = MaskPartialEmail,
       cl_watermark_strength = WmHigh\<rparr>,
      \<lparr>cl_rule_id = ''mobile-phone'', cl_catalog_entry_id = ''catalog-personal-contact'',
       cl_field_matchers = [''phone'', ''mobile''], cl_sample_patterns = [PatMobilePhone],
       cl_level = L4Sensitive, cl_data_category = PersonalContact,
       cl_applicable_regulations = [pipl_regulation, cybersecurity_law],
       cl_retention_policy = class_retention ''retention-personal-contact'' 365 DisposeReview,
       cl_manual_confirmation_required = True, cl_masking_strategy = MaskPartialPhone,
       cl_watermark_strength = WmHigh\<rparr>,
      \<lparr>cl_rule_id = ''identity'', cl_catalog_entry_id = ''catalog-legal-identifier'',
       cl_field_matchers = [''id_card'', ''identity'', ''bank_card''],
       cl_sample_patterns = [PatChinaIdCard, PatBankCard], cl_level = L5Restricted,
       cl_data_category = PersonalIdentifier,
       cl_applicable_regulations = [pipl_regulation, data_security_law],
       cl_retention_policy = class_retention ''retention-legal-identifier'' 1825 DisposePurge,
       cl_manual_confirmation_required = True, cl_masking_strategy = MaskFull,
       cl_watermark_strength = WmCritical\<rparr>,
      \<lparr>cl_rule_id = ''project-internal'', cl_catalog_entry_id = ''catalog-internal-operational'',
       cl_field_matchers = [''employee_id'', ''_id'', ''department''], cl_sample_patterns = [],
       cl_level = L2Internal, cl_data_category = InternalOperational,
       cl_applicable_regulations = [internal_governance_policy],
       cl_retention_policy = class_retention ''retention-internal-operational'' 730 DisposeArchive,
       cl_manual_confirmation_required = False, cl_masking_strategy = MaskNone,
       cl_watermark_strength = WmLow\<rparr>]"

subsection \<open>The catalogue\<close>

definition rule_entry_id :: "classification_rule \<Rightarrow> string" where
  "rule_entry_id r =
     (if trim (cl_catalog_entry_id r) = [] then ''catalog-'' @ cl_rule_id r else cl_catalog_entry_id r)"

definition merge_into_entry :: "classification_rule \<Rightarrow> catalog_entry \<Rightarrow> catalog_entry" where
  "merge_into_entry r e =
     e\<lparr>ce_rule_ids := push_unique (ce_rule_ids e) (cl_rule_id r),
       ce_level := (if ce_level e < cl_level r then cl_level r else ce_level e),
       ce_manual_confirmation_required :=
         (ce_manual_confirmation_required e \<or> cl_manual_confirmation_required r)\<rparr>"

definition add_to_catalog :: "catalog_entry list \<Rightarrow> classification_rule \<Rightarrow> catalog_entry list" where
  "add_to_catalog entries r =
     (if list_ex (\<lambda>e. ce_catalog_entry_id e = rule_entry_id r) entries
      then update_first (\<lambda>e. ce_catalog_entry_id e = rule_entry_id r) (merge_into_entry r) entries
      else entries @ [\<lparr>ce_catalog_entry_id = rule_entry_id r, ce_data_category = cl_data_category r,
        ce_level = cl_level r, ce_applicable_regulations = cl_applicable_regulations r,
        ce_retention_policy = cl_retention_policy r,
        ce_manual_confirmation_required = cl_manual_confirmation_required r,
        ce_rule_ids = [cl_rule_id r]\<rparr>])"

definition derive_catalog_entries :: "classification_rule list \<Rightarrow> catalog_entry list" where
  "derive_catalog_entries rules = foldl add_to_catalog [] rules"

definition default_rule_version :: "string \<Rightarrow> string \<Rightarrow> rule_version" where
  "default_rule_version project source =
     \<lparr>rv_rule_version_id = ''crv-'' @ project @ ''-'' @ source @ ''-v1'', rv_project_id = project,
      rv_data_source_id = source, rv_version_number = 1, rv_status = RuleActive,
      rv_rules = default_rules, rv_catalog_entries = derive_catalog_entries default_rules\<rparr>"

definition normalize_rule_version_catalog :: "rule_version \<Rightarrow> rule_version" where
  "normalize_rule_version_catalog rv = rv\<lparr>rv_catalog_entries := derive_catalog_entries (rv_rules rv)\<rparr>"

definition apply_retention_overrides :: "rule_version \<Rightarrow> int \<Rightarrow> int \<Rightarrow> rule_version" where
  "apply_retention_overrides rv standard restricted =
     (let rules = map (\<lambda>r. r\<lparr>cl_retention_policy := (cl_retention_policy r)
            \<lparr>cr_retain_for_days := (if L5Restricted \<le> cl_level r then restricted else standard)\<rparr>\<rparr>) (rv_rules rv) in
      rv\<lparr>rv_rules := rules, rv_catalog_entries := derive_catalog_entries rules\<rparr>)"

subsection \<open>Detection\<close>

fun split_when :: "(char \<Rightarrow> bool) \<Rightarrow> string \<Rightarrow> string list" where
  "split_when p [] = [[]]"
| "split_when p (x # xs) =
     (if p x then [] # split_when p xs
      else (case split_when p xs of [] \<Rightarrow> [[x]] | q # qs \<Rightarrow> (x # q) # qs))"

definition push_detected_pattern :: "detected_pattern list \<Rightarrow> sensitive_pattern \<Rightarrow> detected_pattern list" where
  "push_detected_pattern ps p =
     (if list_ex (\<lambda>d. dp_pattern d = p) ps then ps
      else ps @ [\<lparr>dp_pattern = p, dp_status = PendingConfirmation\<rparr>])"

definition token_patterns :: "string \<Rightarrow> sensitive_pattern list" where
  "token_patterns token =
     (let t = trim token; digits = length (filter is_ascii_digit t); n = utf8_len t in
      (if CHR ''@'' \<in> set t \<and>
          (case nth_opt (split_on (CHR ''@'') t) 1 of Some part \<Rightarrow> CHR ''.'' \<in> set part | None \<Rightarrow> False)
       then [PatEmail] else []) @
      (if n = 11 \<and> digits = 11 \<and> starts_with t ''1'' then [PatMobilePhone] else []) @
      (if n = 18 \<and> 17 \<le> digits then [PatChinaIdCard] else []) @
      (if 16 \<le> n \<and> n \<le> 19 \<and> digits = n then [PatBankCard] else []))"

definition detect_sensitive_patterns :: "string \<Rightarrow> detected_pattern list" where
  "detect_sensitive_patterns v =
     foldl (\<lambda>ps token. foldl push_detected_pattern ps (token_patterns token)) []
       (filter (\<lambda>t. t \<noteq> []) (split_when (\<lambda>c. is_ws c \<or> c = CHR '','' \<or> c = CHR '';'') v))"

definition detect_patterns_from_samples :: "string list \<Rightarrow> sensitive_pattern list" where
  "detect_patterns_from_samples vs =
     foldl push_unique [] (concat (map (\<lambda>v. map dp_pattern (detect_sensitive_patterns v)) vs))"

subsection \<open>Masking\<close>

definition utf8_from :: "nat \<Rightarrow> string \<Rightarrow> string option" where
  "utf8_from n s = map_option (\<lambda>p. drop (length p) s) (utf8_prefix n s)"

fun mask_value :: "masking_strategy \<Rightarrow> string \<Rightarrow> string option" where
  "mask_value MaskNone v = Some v"
| "mask_value MaskPartialEmail v =
     Some (case split_once (CHR ''@'') v of
        Some (prefix, domain) \<Rightarrow> take 1 prefix @ ''***@'' @ domain
      | None \<Rightarrow> ''***'')"
| "mask_value MaskPartialPhone v =
     (if 7 \<le> utf8_len v then
        (case (utf8_prefix 3 v, utf8_from (utf8_len v - 4) v) of
           (Some a, Some b) \<Rightarrow> Some (a @ ''****'' @ b)
         | _ \<Rightarrow> None)
      else Some ''****'')"
| "mask_value MaskFull v = Some (replicate (max (length v) 4) (CHR ''*''))"

subsection \<open>Policies\<close>

definition matches_field :: "classification_rule \<Rightarrow> string \<Rightarrow> bool" where
  "matches_field r name =
     list_ex (\<lambda>m. str_contains (to_ascii_lowercase name) (to_ascii_lowercase m)) (cl_field_matchers r)"

definition requires_manual_confirmation :: "classification_rule \<Rightarrow> bool" where
  "requires_manual_confirmation r = (cl_sample_patterns r \<noteq> [] \<or> L4Sensitive \<le> cl_level r)"

definition apply_rule_metadata :: "field_policy \<Rightarrow> classification_rule \<Rightarrow> string \<Rightarrow> field_policy" where
  "apply_rule_metadata p r version =
     p\<lparr>fp_level := cl_level r, fp_data_category := cl_data_category r,
       fp_masking_strategy := cl_masking_strategy r, fp_watermark_strength := cl_watermark_strength r,
       fp_rule_version_id := Some version, fp_catalog_entry_id := Some (cl_catalog_entry_id r),
       fp_applicable_regulations := cl_applicable_regulations r,
       fp_retention_policy := cl_retention_policy r,
       fp_manual_confirmation_required := cl_manual_confirmation_required r\<rparr>"

definition policy_from_rule :: "string \<Rightarrow> classification_rule \<Rightarrow> string \<Rightarrow> field_policy" where
  "policy_from_rule name r version =
     apply_rule_metadata
       \<lparr>fp_field_name = name, fp_level = cl_level r, fp_data_category = cl_data_category r,
        fp_status = PendingConfirmation, fp_masking_strategy = cl_masking_strategy r,
        fp_watermark_strength = cl_watermark_strength r, fp_source = FromRuleEngine,
        fp_pattern_hints = cl_sample_patterns r, fp_sample_value = None,
        fp_rule_version_id = Some version, fp_detection_run_id = None,
        fp_catalog_entry_id = Some (cl_catalog_entry_id r),
        fp_applicable_regulations = cl_applicable_regulations r,
        fp_retention_policy = cl_retention_policy r,
        fp_manual_confirmation_required = cl_manual_confirmation_required r\<rparr> r version"

definition default_fallback_policy :: "string \<Rightarrow> field_policy" where
  "default_fallback_policy name =
     \<lparr>fp_field_name = name, fp_level = L3Confidential, fp_data_category = GeneralConfidential,
      fp_status = PendingConfirmation, fp_masking_strategy = MaskFull, fp_watermark_strength = WmMedium,
      fp_source = FromRuleEngine, fp_pattern_hints = [], fp_sample_value = None,
      fp_rule_version_id = None, fp_detection_run_id = None, fp_catalog_entry_id = None,
      fp_applicable_regulations = [data_security_law],
      fp_retention_policy = class_retention ''retention-general-confidential'' 365 DisposeReview,
      fp_manual_confirmation_required = True\<rparr>"

definition raise_level ::
  "sensitivity_level \<Rightarrow> masking_strategy \<Rightarrow> watermark_strength \<Rightarrow> field_policy \<Rightarrow> field_policy" where
  "raise_level l m w p =
     (if fp_level p < l
      then p\<lparr>fp_level := l, fp_masking_strategy := m, fp_watermark_strength := w\<rparr> else p)"

definition contact_metadata :: "field_policy \<Rightarrow> field_policy" where
  "contact_metadata p =
     p\<lparr>fp_data_category := PersonalContact, fp_catalog_entry_id := Some ''catalog-personal-contact'',
       fp_applicable_regulations := [pipl_regulation, cybersecurity_law],
       fp_retention_policy := class_retention ''retention-personal-contact'' 365 DisposeReview,
       fp_manual_confirmation_required := True\<rparr>"

definition identifier_metadata :: "data_category \<Rightarrow> field_policy \<Rightarrow> field_policy" where
  "identifier_metadata c p =
     p\<lparr>fp_data_category := c, fp_catalog_entry_id := Some ''catalog-legal-identifier'',
       fp_applicable_regulations := [pipl_regulation, data_security_law],
       fp_retention_policy := class_retention ''retention-legal-identifier'' 1825 DisposePurge,
       fp_manual_confirmation_required := True\<rparr>"

fun escalate :: "field_policy \<Rightarrow> sensitive_pattern \<Rightarrow> field_policy" where
  "escalate p PatChinaIdCard =
     identifier_metadata PersonalIdentifier (raise_level L5Restricted MaskFull WmCritical p)"
| "escalate p PatBankCard =
     identifier_metadata FinancialIdentifier (raise_level L5Restricted MaskFull WmCritical p)"
| "escalate p PatEmail = contact_metadata (raise_level L4Sensitive MaskPartialEmail WmHigh p)"
| "escalate p PatMobilePhone = contact_metadata (raise_level L4Sensitive MaskPartialPhone WmHigh p)"

definition apply_pattern_escalation :: "field_policy \<Rightarrow> sensitive_pattern list \<Rightarrow> field_policy" where
  "apply_pattern_escalation p ps = (foldl escalate p ps)\<lparr>fp_pattern_hints := ps\<rparr>"

definition classify_field_from_samples ::
  "rule_version \<Rightarrow> string \<Rightarrow> string list \<Rightarrow> string option \<Rightarrow> field_policy" where
  "classify_field_from_samples rv name samples run =
     (let base = find (\<lambda>r. matches_field r name) (rv_rules rv);
          policy = (case base of Some r \<Rightarrow> policy_from_rule name r (rv_rule_version_id rv)
                    | None \<Rightarrow> default_fallback_policy name);
          hints = detect_patterns_from_samples samples in
      if hints \<noteq> [] then
        (apply_pattern_escalation policy hints)
          \<lparr>fp_status := PendingConfirmation, fp_source := FromSampleDetection,
           fp_sample_value := (case samples of [] \<Rightarrow> None | v # _ \<Rightarrow> Some v),
           fp_detection_run_id := run\<rparr>
      else (case base of
          Some r \<Rightarrow> policy\<lparr>fp_status := (if requires_manual_confirmation r then PendingConfirmation
                                        else Confirmed)\<rparr>
        | None \<Rightarrow> policy))"

definition recommend_field_classification :: "string \<Rightarrow> field_classification" where
  "recommend_field_classification name =
     as_display_policy (classify_field_from_samples
       (default_rule_version ''project-default'' ''datasource-default'') name [] None)"

type_synonym class_row = "(string \<times> string) list"

definition dedupe_fields :: "class_row list \<Rightarrow> string list \<Rightarrow> string list" where
  "dedupe_fields rows names = foldl push_unique (foldl push_unique [] names) (concat (map (map fst) rows))"

definition classify_fields ::
  "rule_version \<Rightarrow> class_row list \<Rightarrow> string list \<Rightarrow> string option \<Rightarrow> field_policy list" where
  "classify_fields rv rows names run =
     map (\<lambda>name. classify_field_from_samples rv name
         (take 5 (filter (\<lambda>v. v \<noteq> []) (List.map_filter (\<lambda>row. map_of row name) rows))) run)
       (dedupe_fields rows names)"

definition confirm_field_policy :: "field_policy \<Rightarrow> field_policy" where
  "confirm_field_policy p = p\<lparr>fp_status := Confirmed, fp_source := FromManualConfirmation\<rparr>"

definition confirm_with_rule_version :: "field_policy \<Rightarrow> rule_version \<Rightarrow> field_policy" where
  "confirm_with_rule_version p rv =
     (let c = confirm_field_policy p in
      case find (\<lambda>r. matches_field r (fp_field_name p)) (rv_rules rv) of
        Some r \<Rightarrow> apply_rule_metadata c r (rv_rule_version_id rv)
      | None \<Rightarrow> c\<lparr>fp_rule_version_id := Some (rv_rule_version_id rv)\<rparr>)"

subsection \<open>Escalation\<close>

text \<open>The level a detected pattern demands, and the rules that mask whatever they call sensitive.\<close>

fun pattern_level :: "sensitive_pattern \<Rightarrow> sensitivity_level" where
  "pattern_level PatChinaIdCard = L5Restricted"
| "pattern_level PatBankCard = L5Restricted"
| "pattern_level PatMobilePhone = L4Sensitive"
| "pattern_level PatEmail = L4Sensitive"

definition masks_sensitive :: "field_policy \<Rightarrow> bool" where
  "masks_sensitive p = (L4Sensitive \<le> fp_level p \<longrightarrow> fp_masking_strategy p \<noteq> MaskNone)"

definition rules_mask_sensitive :: "rule_version \<Rightarrow> bool" where
  "rules_mask_sensitive rv =
     list_all (\<lambda>r. L4Sensitive \<le> cl_level r \<longrightarrow> cl_masking_strategy r \<noteq> MaskNone) (rv_rules rv)"

lemmas escalation_defs =
  raise_level_def contact_metadata_def identifier_metadata_def masks_sensitive_def

lemma escalate_raises: "fp_level p \<le> fp_level (escalate p x) \<and> pattern_level x \<le> fp_level (escalate p x)"
  by (cases x) (auto simp: escalation_defs)

lemma escalate_masks: "masks_sensitive p \<Longrightarrow> masks_sensitive (escalate p x)"
  by (cases x) (auto simp: escalation_defs)

lemma foldl_escalate:
  "fp_level p \<le> fp_level (foldl escalate p xs) \<and>
   list_all (\<lambda>x. pattern_level x \<le> fp_level (foldl escalate p xs)) xs \<and>
   (masks_sensitive p \<longrightarrow> masks_sensitive (foldl escalate p xs))"
proof (induction xs arbitrary: p)
  case Nil
  then show ?case by simp
next
  case (Cons x xs)
  from Cons.IH [of "escalate p x"] escalate_raises [of p x] escalate_masks [of p x] show ?case
    by (auto intro: order_trans)
qed

lemma apply_pattern_escalation_fields:
  "fp_level (apply_pattern_escalation p xs) = fp_level (foldl escalate p xs)"
  "masks_sensitive (apply_pattern_escalation p xs) = masks_sensitive (foldl escalate p xs)"
  by (simp_all add: apply_pattern_escalation_def masks_sensitive_def)

lemma policy_from_rule_fields:
  "fp_level (policy_from_rule name r v) = cl_level r"
  "fp_masking_strategy (policy_from_rule name r v) = cl_masking_strategy r"
  by (simp_all add: policy_from_rule_def apply_rule_metadata_def)

text \<open>
  C19. However a field is named and whatever its samples hold, the policy proposed for it has at
  least the level of the first rule that matches its name and of every pattern found in the
  samples, and a policy of level four or five always masks, provided that the rules do.
\<close>

theorem detected_values_are_masked:
  assumes "rules_mask_sensitive rv"
  shows "let p = classify_field_from_samples rv name samples run in
         masks_sensitive p \<and>
         list_all (\<lambda>x. pattern_level x \<le> fp_level p) (detect_patterns_from_samples samples) \<and>
         (case find (\<lambda>r. matches_field r name) (rv_rules rv) of
            Some r \<Rightarrow> cl_level r \<le> fp_level p | None \<Rightarrow> L3Confidential \<le> fp_level p)"
proof (cases "find (\<lambda>r. matches_field r name) (rv_rules rv)")
  case None
  let ?p = "default_fallback_policy name"
  have "fp_level ?p = L3Confidential" "masks_sensitive ?p"
    by (simp_all add: default_fallback_policy_def masks_sensitive_def)
  then show ?thesis
    using None foldl_escalate [of ?p "detect_patterns_from_samples samples"]
    by (auto simp: classify_field_from_samples_def Let_def masks_sensitive_def
        apply_pattern_escalation_fields apply_pattern_escalation_def)
next
  case (Some r)
  let ?p = "policy_from_rule name r (rv_rule_version_id rv)"
  have "masks_sensitive ?p"
    using assms find_Some_mem [OF Some]
    by (auto simp: masks_sensitive_def policy_from_rule_fields rules_mask_sensitive_def list_all_iff)
  then show ?thesis
    using Some foldl_escalate [of ?p "detect_patterns_from_samples samples"]
    by (auto simp: classify_field_from_samples_def Let_def masks_sensitive_def
        policy_from_rule_fields apply_pattern_escalation_def)
qed

lemma detected_values_are_masked_witness:
  "masks_sensitive (classify_field_from_samples (default_rule_version ''p'' ''d'') ''note''
     [''call 13812345678''] None)"
  using detected_values_are_masked [of "default_rule_version ''p'' ''d''" "''note''" "[''call 13812345678'']" None]
  by (simp add: Let_def rules_mask_sensitive_def default_rule_version_def default_rules_def level_order)

subsection \<open>Properties of masked values\<close>

lemma utf8_len_simps [simp]:
  "utf8_len [] = 0" "utf8_len (c # s) = utf8_width c + utf8_len s"
  "utf8_len (s @ t) = utf8_len s + utf8_len t"
  by (simp_all add: utf8_len_def)

lemma utf8_prefix_Some: "utf8_prefix n s = Some p \<Longrightarrow> utf8_len p = n \<and> (\<exists>r. s = p @ r)"
proof (induction n s arbitrary: p rule: utf8_prefix.induct)
  case (1 n)
  then show ?case by (auto split: if_splits)
next
  case (2 n c cs)
  show ?case
  proof (cases "n = 0")
    case True
    with 2 show ?thesis by simp
  next
    case False
    with 2(2) obtain q where w: "\<not> n < utf8_width c"
      and q: "utf8_prefix (n - utf8_width c) cs = Some q" "p = c # q"
      by (auto split: if_splits)
    from 2(1) [OF False w q(1)] w q(2) show ?thesis by auto
  qed
qed

lemma utf8_prefix_append: "utf8_prefix (utf8_len p) (p @ r) = Some p"
proof (induction p)
  case Nil
  then show ?case by (cases r) simp_all
next
  case (Cons c p)
  have "0 < utf8_width c" by (simp add: utf8_width_def)
  with Cons show ?case by simp
qed

lemma mask_phone_shape:
  assumes "mask_value MaskPartialPhone v = Some w"
  shows "w = ''****'' \<or> (\<exists>a b. w = a @ ''****'' @ b \<and> utf8_len a = 3 \<and> utf8_len b = 4)"
proof (cases "7 \<le> utf8_len v")
  case True
  with assms obtain a p where a: "utf8_prefix 3 v = Some a"
    and p: "utf8_prefix (utf8_len v - 4) v = Some p" and w: "w = a @ ''****'' @ drop (length p) v"
    by (auto simp: utf8_from_def split: option.splits)
  from utf8_prefix_Some [OF p] obtain r where "v = p @ r" "utf8_len p = utf8_len v - 4" by blast
  then have "utf8_len (drop (length p) v) = 4" using True by auto
  with utf8_prefix_Some [OF a] w show ?thesis by blast
next
  case False
  with assms show ?thesis by simp
qed

lemma utf8_width_star [simp]: "utf8_width (CHR ''*'') = 1"
  by (simp add: utf8_width_def code_of_def)

lemma mask_phone_fixed:
  assumes "utf8_len a = 3" "utf8_len b = 4"
  shows "mask_value MaskPartialPhone (a @ ''****'' @ b) = Some (a @ ''****'' @ b)"
proof -
  have "utf8_prefix 3 (a @ ''****'' @ b) = Some a"
    using utf8_prefix_append [of a "''****'' @ b"] assms by simp
  moreover have "utf8_prefix 7 (a @ ''****'' @ b) = Some (a @ ''****'')"
    using utf8_prefix_append [of "a @ ''****''" b] assms by simp
  moreover have "utf8_len (a @ ''****'' @ b) = 11"
    using assms by simp
  ultimately show ?thesis by (simp add: utf8_from_def)
qed

lemma mask_email_fixed:
  assumes "CHR ''@'' \<notin> set a" "a \<noteq> []"
  shows "mask_value MaskPartialEmail (take 1 a @ ''***@'' @ d) = Some (take 1 a @ ''***@'' @ d)"
proof -
  obtain x xs where a: "a = x # xs" using assms(2) by (cases a) auto
  have "split_once (CHR ''@'') (x # ''***@'' @ d) = Some (x # ''***'', d)"
    using assms(1) a split_once_append [of "CHR ''@''" "x # ''***''" d] by simp
  with a show ?thesis by simp
qed

text \<open>
  Masking a masked value changes nothing, except for a partially masked address with nothing
  before its first at sign: so the key of a bucket, sent back as the value to drill into, selects
  the rows of that bucket.
\<close>

lemma mask_fixed:
  assumes "mask_value s v = Some w" and "s = MaskPartialEmail \<Longrightarrow> \<not> starts_with v ''@''"
  shows "mask_value s w = Some w"
proof (cases s)
  case MaskNone
  with assms show ?thesis by simp
next
  case MaskFull
  with assms show ?thesis by auto
next
  case MaskPartialPhone
  with assms mask_phone_shape [of v w] mask_phone_fixed show ?thesis by fastforce
next
  case MaskPartialEmail
  show ?thesis
  proof (cases "split_once (CHR ''@'') v")
    case None
    with assms MaskPartialEmail have "w = ''***''" by simp
    then show ?thesis using MaskPartialEmail by (simp add: split_once_def)
  next
    case (Some ab)
    obtain a d where ab: "ab = (a, d)" by fastforce
    from Some ab have v: "v = a @ CHR ''@'' # d" "CHR ''@'' \<notin> set a" by (auto dest: split_once_Some)
    with assms(2) MaskPartialEmail have "a \<noteq> []" by (auto simp: starts_with_def)
    with v mask_email_fixed [of a d] assms Some ab MaskPartialEmail show ?thesis by auto
  qed
qed

lemma mask_fixed_example:
  "mask_value MaskPartialEmail ''a***@x.org'' = Some ''a***@x.org''"
  using mask_fixed [of MaskPartialEmail "''alice@x.org''" "''a***@x.org''"]
  by (simp add: split_once_def starts_with_def)

lemma phone_mask_reveals_seven:
  assumes "length v = 7" "\<forall>c \<in> set v. utf8_width c = 1"
  shows "mask_value MaskPartialPhone v = Some (take 3 v @ ''****'' @ drop 3 v)"
proof -
  have len: "utf8_len s = length s" if "\<forall>c \<in> set s. utf8_width c = 1" for s
    using that by (induction s) auto
  have "utf8_len (take 3 v) = 3"
    using len [of "take 3 v"] assms set_take_subset [of 3 v] by auto
  then have "utf8_prefix 3 v = Some (take 3 v)"
    using utf8_prefix_append [of "take 3 v" "drop 3 v"] by simp
  then show ?thesis using assms len [of v] by (simp add: utf8_from_def)
qed

lemma phone_mask_can_panic: "mask_value MaskPartialPhone [CHR 0xC3, CHR 0xA9, CHR 0xC3, CHR 0xA9] = None"
  by (simp add: utf8_width_def code_of_def utf8_len_def)

subsection \<open>Confirmation\<close>

text \<open>
  Confirming a policy with the rule version that proposed it takes its level and its masking
  from the rule alone: a field named like an internal identifier, whose samples show bank card
  numbers and which was therefore restricted and fully masked, becomes internal and unmasked.
\<close>

lemma confirmation_undoes_escalation:
  "let rv = default_rule_version ''p'' ''d'';
       p = classify_field_from_samples rv ''employee_id'' [''6222020200112233445''] None;
       q = confirm_with_rule_version p rv in
   fp_level p = L5Restricted \<and> fp_masking_strategy p = MaskFull \<and>
   fp_status q = Confirmed \<and> fp_level q = L2Internal \<and> fp_masking_strategy q = MaskNone"
  by code_simp

lemma confirm_without_version_keeps:
  "fp_level (confirm_field_policy p) = fp_level p \<and>
   fp_masking_strategy (confirm_field_policy p) = fp_masking_strategy p"
  by (simp add: confirm_field_policy_def)

subsection \<open>Fields and catalogue\<close>

lemma escalate_name [simp]: "fp_field_name (escalate p x) = fp_field_name p"
  by (cases x) (auto simp: raise_level_def contact_metadata_def identifier_metadata_def)

lemma foldl_escalate_name [simp]: "fp_field_name (foldl escalate p xs) = fp_field_name p"
  by (induction xs arbitrary: p) auto

lemma classified_name [simp]: "fp_field_name (classify_field_from_samples rv name samples run) = name"
  by (auto simp: classify_field_from_samples_def Let_def apply_pattern_escalation_def policy_from_rule_def
      apply_rule_metadata_def default_fallback_policy_def split: option.splits)

lemma classify_fields_once:
  "distinct (map fp_field_name (classify_fields rv rows names run)) \<and>
   set (map fp_field_name (classify_fields rv rows names run)) =
     set names \<union> (\<Union>row \<in> set rows. fst ` set row)"
  using foldl_push_unique [of "foldl push_unique [] names" "concat (map (map fst) rows)"]
    foldl_push_unique [of "[]" names]
  by (auto simp: classify_fields_def dedupe_fields_def comp_def)

text \<open>An entry summarises the rules filed under its identifier.\<close>

definition summarises :: "classification_rule list \<Rightarrow> catalog_entry \<Rightarrow> bool" where
  "summarises rules e =
     (let mine = filter (\<lambda>r. rule_entry_id r = ce_catalog_entry_id e) rules in
      mine \<noteq> [] \<and> ce_level e = Max (set (map cl_level mine)) \<and>
      (ce_manual_confirmation_required e \<longleftrightarrow> list_ex cl_manual_confirmation_required mine) \<and>
      set (ce_rule_ids e) = set (map cl_rule_id mine) \<and> distinct (ce_rule_ids e))"

definition catalog_ok :: "classification_rule list \<Rightarrow> catalog_entry list \<Rightarrow> bool" where
  "catalog_ok rules es =
     (distinct (map ce_catalog_entry_id es) \<and>
      set (map ce_catalog_entry_id es) = set (map rule_entry_id rules) \<and> list_all (summarises rules) es)"

lemma summarises_other:
  "rule_entry_id r \<noteq> ce_catalog_entry_id e \<Longrightarrow> summarises (rules @ [r]) e = summarises rules e"
  by (simp add: summarises_def)

lemma summarises_merge:
  assumes "summarises rules e" "rule_entry_id r = ce_catalog_entry_id e"
  shows "summarises (rules @ [r]) (merge_into_entry r e)"
proof -
  define mine where "mine = filter (\<lambda>r. rule_entry_id r = ce_catalog_entry_id e) rules"
  have old: "mine \<noteq> []" "ce_level e = Max (set (map cl_level mine))"
    "ce_manual_confirmation_required e \<longleftrightarrow> list_ex cl_manual_confirmation_required mine"
    "set (ce_rule_ids e) = set (map cl_rule_id mine)" "distinct (ce_rule_ids e)"
    using assms(1) by (simp_all add: summarises_def Let_def mine_def)
  have "Max (insert (cl_level r) (set (map cl_level mine))) = max (cl_level r) (Max (set (map cl_level mine)))"
    using old(1) by (intro Max_insert) simp_all
  then have "Max (set (map cl_level (mine @ [r]))) = ce_level (merge_into_entry r e)"
    using old(2) by (simp add: merge_into_entry_def max_def not_less [symmetric])
  moreover have "filter (\<lambda>q. rule_entry_id q = ce_catalog_entry_id (merge_into_entry r e)) (rules @ [r]) = mine @ [r]"
    using assms(2) by (simp add: merge_into_entry_def mine_def)
  ultimately show ?thesis unfolding summarises_def Let_def
    using old by (simp add: merge_into_entry_def)
qed

lemma update_first_distinct:
  assumes "distinct (map g xs)"
  shows "update_first (\<lambda>x. g x = k) f xs = map (\<lambda>x. if g x = k then f x else x) xs"
  using assms by (induction xs) (auto intro!: map_idI [symmetric] simp: image_iff)

lemma catalog_step:
  assumes ok: "catalog_ok rules es"
  shows "catalog_ok (rules @ [r]) (add_to_catalog es r)"
proof (cases "rule_entry_id r \<in> set (map ce_catalog_entry_id es)")
  case True
  then have "list_ex (\<lambda>e. ce_catalog_entry_id e = rule_entry_id r) es" by (auto simp: list_ex_iff)
  then have eq: "add_to_catalog es r =
      map (\<lambda>e. if ce_catalog_entry_id e = rule_entry_id r then merge_into_entry r e else e) es"
    using ok by (simp add: add_to_catalog_def update_first_distinct catalog_ok_def)
  have ids: "map ce_catalog_entry_id (add_to_catalog es r) = map ce_catalog_entry_id es"
    by (simp add: eq comp_def merge_into_entry_def if_distrib cong: if_cong)
  have "list_all (summarises (rules @ [r])) (add_to_catalog es r)"
    using ok summarises_merge summarises_other by (fastforce simp: eq catalog_ok_def list_all_iff)
  with ok True ids show ?thesis unfolding catalog_ok_def by auto
next
  case False
  then have "\<not> list_ex (\<lambda>e. ce_catalog_entry_id e = rule_entry_id r) es" by (force simp: list_ex_iff)
  then have new: "add_to_catalog es r = es @ [\<lparr>ce_catalog_entry_id = rule_entry_id r,
      ce_data_category = cl_data_category r, ce_level = cl_level r,
      ce_applicable_regulations = cl_applicable_regulations r,
      ce_retention_policy = cl_retention_policy r,
      ce_manual_confirmation_required = cl_manual_confirmation_required r,
      ce_rule_ids = [cl_rule_id r]\<rparr>]"
    by (simp add: add_to_catalog_def)
  have "filter (\<lambda>q. rule_entry_id q = rule_entry_id r) rules = []"
    using ok False unfolding catalog_ok_def filter_empty_conv by (metis image_eqI list.set_map)
  moreover have "summarises (rules @ [r]) e" if "e \<in> set es" for e
    using that False ok summarises_other [of r e rules] by (auto simp: catalog_ok_def list_all_iff)
  ultimately show ?thesis
    using ok False unfolding catalog_ok_def new
    by (simp add: list_all_iff) (simp add: summarises_def Let_def)
qed

text \<open>
  The catalogue derived from any rules has one entry per identifier in use, whose level is the
  highest of the rules filed under it, which demands confirmation if one of them does, and lists
  each of them once.
\<close>

lemma catalog_summarises_rules:
  "catalog_ok rules (derive_catalog_entries rules)"
proof (induction rules rule: rev_induct)
  case Nil
  then show ?case by (simp add: derive_catalog_entries_def catalog_ok_def)
next
  case (snoc r rules)
  then show ?case using catalog_step by (simp add: derive_catalog_entries_def)
qed

end
