(* ===== verification/DataView.thy ===== *)
theory DataView
  imports Classification QueryPlan SnapshotStore "HOL-Library.Option_ord"
begin

text \<open>
  Views of encrypted snapshots, \<open>sdqp-data-view\<close>: access profiles, decoding, masking of every
  cell, pages, pivots and drill-down.  Arrow, Parquet, JSON and DataFusion are arguments: the code
  builds a query plan over a table of masked batches and hands it to the engine.  Results are
  \<open>None\<close> where the code panics; numbers of rows wrap as \<open>usize\<close> does in a release build.
\<close>

subsection \<open>Data\<close>

datatype view_error =
    ViewDecryption encryption_error | ViewDecode | NoAuthorizedColumns | InvalidPageSize
  | MissingColumn string | UnauthorizedColumn string | NonNumericMetricField string
  | InvalidPercentile | ViewArrow | ViewParquet | ViewDataFusion

record encoded_payload =
  en_payload :: "byte list"
  en_columns :: "string list"
  en_format :: payload_format

type_synonym view_row = "string \<rightharpoonup> string"

record snapshot_page =
  pg_rows :: "view_row list"
  pg_next_cursor :: "nat option"

datatype 'f pivot_metric =
    RecordCount | CountDistinct string | PivotSum string | PivotAvg string | PivotMin string
  | PivotMax string | PivotMedian string | PivotPercentile string 'f

definition pivot_percentile :: "('f \<Rightarrow> bool) \<Rightarrow> string \<Rightarrow> 'f \<Rightarrow> view_error + 'f pivot_metric" where
  "pivot_percentile in_unit field p =
     (if \<not> in_unit p then Inl InvalidPercentile else Inr (PivotPercentile field p))"

fun metric_label :: "'f pivot_metric \<Rightarrow> string" where
  "metric_label RecordCount = ''record_count''"
| "metric_label (CountDistinct f) = ''count_distinct''"
| "metric_label (PivotSum f) = ''sum''"
| "metric_label (PivotAvg f) = ''avg''"
| "metric_label (PivotMin f) = ''min''"
| "metric_label (PivotMax f) = ''max''"
| "metric_label (PivotMedian f) = ''median''"
| "metric_label (PivotPercentile f p) = ''percentile''"

fun metric_field :: "'f pivot_metric \<Rightarrow> string option" where
  "metric_field RecordCount = None"
| "metric_field (CountDistinct f) = Some f"
| "metric_field (PivotSum f) = Some f"
| "metric_field (PivotAvg f) = Some f"
| "metric_field (PivotMin f) = Some f"
| "metric_field (PivotMax f) = Some f"
| "metric_field (PivotMedian f) = Some f"
| "metric_field (PivotPercentile f p) = Some f"

fun percentile_value :: "'f pivot_metric \<Rightarrow> 'f option" where
  "percentile_value (PivotPercentile f p) = Some p"
| "percentile_value m = None"

fun requires_numeric_measure :: "'f pivot_metric \<Rightarrow> string option" where
  "requires_numeric_measure RecordCount = None"
| "requires_numeric_measure (CountDistinct f) = None"
| "requires_numeric_measure m = metric_field m"

record 'f pivot_bucket =
  pb_key :: string
  pb_value :: 'f

subsection \<open>Access profiles\<close>

record access_profile =
  ap_allowed_columns :: "string list"
  ap_masking_rules :: "(string \<times> masking_strategy) list"

definition access_profile_new :: "string list \<Rightarrow> access_profile" where
  "access_profile_new cs = \<lparr>ap_allowed_columns = foldl push_unique [] cs, ap_masking_rules = []\<rparr>"

definition with_masking_rule :: "access_profile \<Rightarrow> string \<Rightarrow> masking_strategy \<Rightarrow> access_profile" where
  "with_masking_rule p f s = p\<lparr>ap_masking_rules := AList.update f s (ap_masking_rules p)\<rparr>"

fun check_requested :: "access_profile \<Rightarrow> string list \<Rightarrow> string list \<Rightarrow> view_error + unit" where
  "check_requested p available [] = Inr ()"
| "check_requested p available (c # cs) =
     (if c \<notin> set (ap_allowed_columns p) then Inl (UnauthorizedColumn c)
      else if c \<notin> set available then Inl (MissingColumn c)
      else check_requested p available cs)"

definition resolve_projection ::
  "access_profile \<Rightarrow> string list \<Rightarrow> string list \<Rightarrow> view_error + string list" where
  "resolve_projection p available requested =
     (let allowed = filter (\<lambda>f. f \<in> set available) (ap_allowed_columns p) in
      if requested = [] then (if allowed = [] then Inl NoAuthorizedColumns else Inr allowed)
      else res_bind (check_requested p available requested) (\<lambda>_. Inr requested))"

definition profile_strategy :: "access_profile \<Rightarrow> string \<Rightarrow> masking_strategy" where
  "profile_strategy p field =
     (case map_of (ap_masking_rules p) field of
        Some s \<Rightarrow> s | None \<Rightarrow> fc_masking_strategy (recommend_field_classification field))"

definition profile_mask :: "access_profile \<Rightarrow> string \<Rightarrow> string \<Rightarrow> string option" where
  "profile_mask p field v = mask_value (profile_strategy p field) v"

subsection \<open>Batches, plans and the libraries\<close>

text \<open>A floating-point cell is kept as its printed form; of an array of another type only the
  positions of its nulls are kept.\<close>

datatype column_array =
    Utf8Array "string option list" | LargeUtf8Array "string option list"
  | U64Array "nat option list" | U32Array "nat option list"
  | I64Array "int option list" | I32Array "int option list"
  | F64Array "string option list" | OtherArray "unit option list"

record record_batch =
  rb_schema :: "string list"
  rb_arrays :: "column_array list"
  rb_num_rows :: nat

datatype 'f agg_expr =
    AggCountRows | AggCountDistinct string | AggSum string | AggAvg string | AggMin string
  | AggMax string | AggMedian string | AggPercentile string 'f

datatype 'f df_plan =
    DfTable "string list" "record_batch list"
  | DfFilterEq string string "'f df_plan"
  | DfSelect "string list" "'f df_plan"
  | DfSelectAs "(string \<times> string) list" "'f df_plan"
  | DfAggregate string "'f agg_expr" string "'f df_plan"
  | DfSort "string list" "'f df_plan"
  | DfLimit nat nat "'f df_plan"

record 'f view_env =
  vw_decrypt :: "encrypted_payload \<Rightarrow> (encryption_error + byte list) option"
  vw_json_rows :: "byte list \<Rightarrow> field_query_result list list option"
  vw_parquet_read :: "byte list \<Rightarrow> record_batch list option"
  vw_parquet_write :: "string list \<Rightarrow> record_batch list \<Rightarrow> byte list option"
  vw_try_new :: "string list \<Rightarrow> column_array list \<Rightarrow> record_batch option"
  vw_new_empty :: "string list \<Rightarrow> record_batch"
  vw_slice :: "record_batch \<Rightarrow> nat \<Rightarrow> nat \<Rightarrow> record_batch"
  vw_collect :: "'f df_plan \<Rightarrow> record_batch list option"
  vw_parse_f64 :: "string \<Rightarrow> 'f option"
  vw_zero :: 'f

definition show_int :: "int \<Rightarrow> string" where
  "show_int i = (if i < 0 then ''-'' @ show_nat (nat (- i)) else show_nat (nat i))"

text \<open>The outer \<open>None\<close> is an index past the end, the inner one a null.\<close>

fun array_cell :: "column_array \<Rightarrow> nat \<Rightarrow> (view_error + string) option" where
  "array_cell (Utf8Array xs) i = map_option (\<lambda>c. Inr (option_or c [])) (nth_opt xs i)"
| "array_cell (LargeUtf8Array xs) i = map_option (\<lambda>c. Inr (option_or c [])) (nth_opt xs i)"
| "array_cell (U64Array xs) i = map_option (\<lambda>c. Inr (option_or (map_option show_nat c) [])) (nth_opt xs i)"
| "array_cell (U32Array xs) i = map_option (\<lambda>c. Inr (option_or (map_option show_nat c) [])) (nth_opt xs i)"
| "array_cell (I64Array xs) i = map_option (\<lambda>c. Inr (option_or (map_option show_int c) [])) (nth_opt xs i)"
| "array_cell (I32Array xs) i = map_option (\<lambda>c. Inr (option_or (map_option show_int c) [])) (nth_opt xs i)"
| "array_cell (F64Array xs) i = map_option (\<lambda>c. Inr (option_or c [])) (nth_opt xs i)"
| "array_cell (OtherArray xs) i =
     map_option (\<lambda>c. case c of None \<Rightarrow> Inr [] | Some _ \<Rightarrow> Inl ViewDecode) (nth_opt xs i)"

text \<open>\<open>scalar_to_string(batch.column(column_index), row_index)\<close>.\<close>

definition scalar_to_string :: "record_batch \<Rightarrow> nat \<Rightarrow> nat \<Rightarrow> (view_error + string) option" where
  "scalar_to_string b column_index row_index =
     (case nth_opt (rb_arrays b) column_index of None \<Rightarrow> None | Some a \<Rightarrow> array_cell a row_index)"

definition batch_row :: "record_batch \<Rightarrow> nat \<Rightarrow> (view_error + view_row) option" where
  "batch_row b i =
     panic_bind (panic_map_list (\<lambda>(j, f). panic_bind (scalar_to_string b j i) (\<lambda>v. Some (Inr (f, v))))
         (enumerate 0 (rb_schema b)))
       (\<lambda>kvs. Some (Inr (map_of (rev kvs))))"

definition batches_to_rows :: "record_batch list \<Rightarrow> (view_error + view_row list) option" where
  "batches_to_rows bs =
     panic_map_list (\<lambda>(b, i). batch_row b i)
       (concat (map (\<lambda>b. map (\<lambda>i. (b, i)) [0..<rb_num_rows b]) bs))"

definition total_rows :: "record_batch list \<Rightarrow> nat" where
  "total_rows bs = sum_list (map rb_num_rows bs)"

fun truncate_batches :: "'f view_env \<Rightarrow> record_batch list \<Rightarrow> nat \<Rightarrow> record_batch list" where
  "truncate_batches env [] remaining = []"
| "truncate_batches env (b # bs) remaining =
     (if remaining = 0 then []
      else if rb_num_rows b \<le> remaining
      then b # truncate_batches env bs (remaining - rb_num_rows b)
      else [vw_slice env b 0 remaining])"

subsection \<open>Encoding and decoding\<close>

definition resolve_columns :: "field_query_result list list \<Rightarrow> string list option \<Rightarrow> string list" where
  "resolve_columns rows projected =
     foldl push_unique (foldl push_unique [] (option_or projected [])) (concat (map (map fqr_field) rows))"

definition rows_to_record_batches ::
  "'f view_env \<Rightarrow> field_query_result list list \<Rightarrow> string list \<Rightarrow> view_error + record_batch list" where
  "rows_to_record_batches env rows hint =
     (let columns = resolve_columns rows (Some hint) in
      res_bind (res_of_option ViewArrow
        (vw_try_new env columns (map (\<lambda>c. Utf8Array (map (\<lambda>row. row_values row c) rows)) columns)))
        (\<lambda>b. Inr [b]))"

definition encode_rows_to_parquet ::
  "'f view_env \<Rightarrow> field_query_result list list \<Rightarrow> string list option \<Rightarrow> view_error + encoded_payload" where
  "encode_rows_to_parquet env rows projected =
     (let columns = resolve_columns rows projected in
      res_bind (rows_to_record_batches env rows columns) (\<lambda>batches.
        let schema = (case batches of [] \<Rightarrow> columns | b # _ \<Rightarrow> rb_schema b) in
        res_bind (res_of_option ViewParquet (vw_parquet_write env schema batches)) (\<lambda>bytes.
          Inr \<lparr>en_payload = bytes, en_columns = columns, en_format = Parquet\<rparr>)))"

definition decode_record_batches ::
  "'f view_env \<Rightarrow> snapshot_record \<Rightarrow> (view_error + record_batch list) option" where
  "decode_record_batches env r =
     panic_bind (map_option (map_sum ViewDecryption id) (vw_decrypt env (es_encrypted_payload r))) (\<lambda>plaintext.
       case es_payload_format r of
         JsonRows \<Rightarrow>
           Some (res_bind (res_of_option ViewDecode (vw_json_rows env plaintext))
             (\<lambda>rows. rows_to_record_batches env rows (es_columns r)))
       | Parquet \<Rightarrow>
           Some (res_bind (res_of_option ViewParquet (vw_parquet_read env plaintext))
             (\<lambda>bs. Inr (if bs = [] then [vw_new_empty env (es_columns r)] else bs))))"

definition decode_rows :: "'f view_env \<Rightarrow> snapshot_record \<Rightarrow> (view_error + view_row list) option" where
  "decode_rows env r = panic_bind (decode_record_batches env r) batches_to_rows"

definition view_columns :: "'f view_env \<Rightarrow> snapshot_record \<Rightarrow> (view_error + string list) option" where
  "view_columns env r =
     (if es_columns r \<noteq> [] then Some (Inr (es_columns r))
      else panic_bind (decode_record_batches env r) (\<lambda>bs.
        Some (Inr (case bs of [] \<Rightarrow> [] | b # _ \<Rightarrow> rb_schema b))))"

subsection \<open>Masked tables\<close>

definition schema_column_index :: "record_batch \<Rightarrow> string \<Rightarrow> nat option" where
  "schema_column_index b column = position (\<lambda>f. f = column) (rb_schema b)"

definition secure_column_array ::
  "record_batch \<Rightarrow> access_profile \<Rightarrow> string \<Rightarrow> (view_error + column_array) option" where
  "secure_column_array b p column =
     (case schema_column_index b column of
        None \<Rightarrow> Some (Inl (MissingColumn column))
      | Some j \<Rightarrow>
          panic_bind (panic_map_list
              (\<lambda>i. panic_bind (scalar_to_string b j i) (\<lambda>v. map_option (\<lambda>w. Inr (Some w)) (profile_mask p column v)))
              [0..<rb_num_rows b])
            (\<lambda>vs. Some (Inr (Utf8Array vs))))"

definition secure_batch ::
  "'f view_env \<Rightarrow> access_profile \<Rightarrow> string list \<Rightarrow> record_batch \<Rightarrow> (view_error + record_batch) option" where
  "secure_batch env p columns b =
     panic_bind (panic_map_list (secure_column_array b p) columns) (\<lambda>arrays.
       Some (res_of_option ViewArrow (vw_try_new env columns arrays)))"

text \<open>Every batch is secured before the first error is looked for.\<close>

definition secure_record_batches ::
  "'f view_env \<Rightarrow> snapshot_record \<Rightarrow> access_profile \<Rightarrow> string list
     \<Rightarrow> (view_error + (record_batch list \<times> string list)) option" where
  "secure_record_batches env r p requested =
     panic_bind (view_columns env r) (\<lambda>available.
     panic_bind (Some (resolve_projection p available requested)) (\<lambda>columns.
     panic_bind (decode_record_batches env r) (\<lambda>decoded.
       let secured = map (secure_batch env p columns) decoded in
       if list_ex (\<lambda>b. b = None) secured then None
       else Some (res_bind (res_map_list the secured) (\<lambda>bs. Inr (bs, columns))))))"

definition table_provider ::
  "'f view_env \<Rightarrow> snapshot_record \<Rightarrow> access_profile \<Rightarrow> string list \<Rightarrow> (view_error + 'f df_plan) option" where
  "table_provider env r p requested =
     panic_bind (secure_record_batches env r p requested) (\<lambda>(bs, columns).
       Some (Inr (DfTable (case bs of [] \<Rightarrow> columns | b # _ \<Rightarrow> rb_schema b) bs)))"

definition collect_batches :: "'f view_env \<Rightarrow> 'f df_plan \<Rightarrow> view_error + record_batch list" where
  "collect_batches env plan = res_of_option ViewDataFusion (vw_collect env plan)"

definition collect_rows :: "'f view_env \<Rightarrow> 'f df_plan \<Rightarrow> (view_error + view_row list) option" where
  "collect_rows env plan = panic_bind (Some (collect_batches env plan)) batches_to_rows"

subsection \<open>Pages\<close>

definition usize_wrap :: "nat \<Rightarrow> nat" where
  "usize_wrap n = n mod (usize_max + 1)"

definition read_page_batches ::
  "'f view_env \<Rightarrow> snapshot_record \<Rightarrow> access_profile \<Rightarrow> string list \<Rightarrow> nat \<Rightarrow> nat option
     \<Rightarrow> (view_error + (record_batch list \<times> nat option)) option" where
  "read_page_batches env r p requested psz cursor =
     (if psz = 0 then Some (Inl InvalidPageSize)
      else
        panic_bind (view_columns env r) (\<lambda>available.
        panic_bind (Some (resolve_projection p available requested)) (\<lambda>columns.
          let offset = option_or cursor 0 in
          panic_bind (table_provider env r p columns) (\<lambda>table.
          panic_bind (Some (collect_batches env
              (DfLimit offset (usize_wrap (psz + 1)) (DfSort columns (DfSelect columns table))))) (\<lambda>batches.
            Some (Inr (if total_rows batches > psz
                       then (truncate_batches env batches psz, Some (usize_wrap (offset + psz)))
                       else (batches, None))))))))"

definition read_page ::
  "'f view_env \<Rightarrow> snapshot_record \<Rightarrow> access_profile \<Rightarrow> string list \<Rightarrow> nat \<Rightarrow> nat option
     \<Rightarrow> (view_error + snapshot_page) option" where
  "read_page env r p requested psz cursor =
     panic_bind (read_page_batches env r p requested psz cursor) (\<lambda>(batches, next).
     panic_bind (batches_to_rows batches) (\<lambda>rows.
       Some (Inr \<lparr>pg_rows = rows, pg_next_cursor = next\<rparr>)))"

definition drilldown_columns :: "string \<Rightarrow> string list \<Rightarrow> string list" where
  "drilldown_columns dimension requested =
     (if dimension \<in> set requested then requested else requested @ [dimension])"

definition execute_drilldown ::
  "'f view_env \<Rightarrow> snapshot_record \<Rightarrow> access_profile \<Rightarrow> string \<Rightarrow> string \<Rightarrow> string list \<Rightarrow> nat \<Rightarrow> nat option
     \<Rightarrow> (view_error + snapshot_page) option" where
  "execute_drilldown env r p dimension v requested psz cursor =
     (if psz = 0 then Some (Inl InvalidPageSize)
      else
        panic_bind (view_columns env r) (\<lambda>available.
        panic_bind (Some (resolve_projection p available (drilldown_columns dimension requested))) (\<lambda>columns.
          let offset = option_or cursor 0 in
          panic_bind (map_option Inr (profile_mask p dimension v)) (\<lambda>masked.
          panic_bind (table_provider env r p columns) (\<lambda>table.
          panic_bind (collect_rows env (DfLimit offset (usize_wrap (psz + 1))
              (DfSort columns (DfSelect columns (DfFilterEq dimension masked table))))) (\<lambda>rows.
            Some (Inr (if length rows > psz
                       then \<lparr>pg_rows = take psz rows, pg_next_cursor = Some (usize_wrap (offset + psz))\<rparr>
                       else \<lparr>pg_rows = rows, pg_next_cursor = None\<rparr>))))))))"

subsection \<open>Pivots\<close>

definition pivot_requested_columns :: "string \<Rightarrow> 'f pivot_metric \<Rightarrow> string list" where
  "pivot_requested_columns dimension m =
     (case metric_field m of
        Some f \<Rightarrow> if f = dimension then [dimension] else [dimension, f]
      | None \<Rightarrow> [dimension])"

fun pivot_aggregate_expr :: "'f pivot_metric \<Rightarrow> 'f agg_expr" where
  "pivot_aggregate_expr RecordCount = AggCountRows"
| "pivot_aggregate_expr (CountDistinct f) = AggCountDistinct f"
| "pivot_aggregate_expr (PivotSum f) = AggSum f"
| "pivot_aggregate_expr (PivotAvg f) = AggAvg f"
| "pivot_aggregate_expr (PivotMin f) = AggMin f"
| "pivot_aggregate_expr (PivotMax f) = AggMax f"
| "pivot_aggregate_expr (PivotMedian f) = AggMedian f"
| "pivot_aggregate_expr (PivotPercentile f p) = AggPercentile f p"

definition numeric_cell ::
  "'f view_env \<Rightarrow> string \<Rightarrow> record_batch \<Rightarrow> nat \<Rightarrow> nat \<Rightarrow> (view_error + unit) option" where
  "numeric_cell env field b j i =
     panic_bind (scalar_to_string b j i) (\<lambda>v.
       if v = [] then Some (Inr ())
       else if vw_parse_f64 env v = None then Some (Inl (NonNumericMetricField field))
       else Some (Inr ()))"

definition validate_numeric_metric_field ::
  "'f view_env \<Rightarrow> snapshot_record \<Rightarrow> access_profile \<Rightarrow> string list \<Rightarrow> string \<Rightarrow> (view_error + unit) option" where
  "validate_numeric_metric_field env r p requested field =
     panic_bind (secure_record_batches env r p requested) (\<lambda>(bs, _).
     panic_bind (panic_map_list (\<lambda>b. case schema_column_index b field of
           None \<Rightarrow> Some (Inr [])
         | Some j \<Rightarrow> panic_map_list (numeric_cell env field b j) [0..<rb_num_rows b]) bs)
       (\<lambda>_. Some (Inr ())))"

definition execute_pivot_batches ::
  "'f view_env \<Rightarrow> snapshot_record \<Rightarrow> access_profile \<Rightarrow> string \<Rightarrow> 'f pivot_metric
     \<Rightarrow> (view_error + record_batch list) option" where
  "execute_pivot_batches env r p dimension m =
     (let requested = pivot_requested_columns dimension m in
      panic_bind (view_columns env r) (\<lambda>available.
      panic_bind (Some (resolve_projection p available requested)) (\<lambda>_.
      panic_bind (case requires_numeric_measure m of
                    Some field \<Rightarrow> validate_numeric_metric_field env r p requested field
                  | None \<Rightarrow> Some (Inr ())) (\<lambda>_.
      panic_bind (table_provider env r p requested) (\<lambda>table.
        Some (collect_batches env
          (DfSort [''bucket_key'']
            (DfSelectAs [(dimension, ''bucket_key''), (''metric_value'', ''metric_value'')]
              (DfAggregate dimension (pivot_aggregate_expr m) ''metric_value''
                (DfSelect requested table))))))))))"

definition execute_pivot ::
  "'f view_env \<Rightarrow> snapshot_record \<Rightarrow> access_profile \<Rightarrow> string \<Rightarrow> 'f pivot_metric
     \<Rightarrow> (view_error + 'f pivot_bucket list) option" where
  "execute_pivot env r p dimension m =
     panic_bind (execute_pivot_batches env r p dimension m) (\<lambda>bs.
     panic_bind (batches_to_rows bs) (\<lambda>rows.
       Some (Inr (map (\<lambda>row.
         \<lparr>pb_key = option_or (row ''bucket_key'') ''NULL'',
          pb_value = option_or (case row ''metric_value'' of Some v \<Rightarrow> vw_parse_f64 env v | None \<Rightarrow> None)
                       (vw_zero env)\<rparr>) rows))))"

subsection \<open>What is asked of the libraries\<close>

text \<open>
  A row of a table of strings maps each column to its cell, which may be null.  A plan has the rows
  its operators say in no particular order, except that a sorted plan has them in ascending order of
  its columns, nulls first, with rows that agree there in any order, and a limit takes its rows from
  such a result.  Nothing is asked of plans over columns whose names the engine does not take as they
  are.
\<close>

type_synonym table_row = "string \<rightharpoonup> string option"

fun utf8_cells :: "column_array \<Rightarrow> string option list" where
  "utf8_cells (Utf8Array xs) = xs"
| "utf8_cells a = []"

definition utf8_array :: "nat \<Rightarrow> column_array \<Rightarrow> bool" where
  "utf8_array n a = (a = Utf8Array (utf8_cells a) \<and> length (utf8_cells a) = n)"

definition utf8_batch :: "string list \<Rightarrow> record_batch \<Rightarrow> bool" where
  "utf8_batch cs b =
     (rb_schema b = cs \<and> length (rb_arrays b) = length cs \<and> list_all (utf8_array (rb_num_rows b)) (rb_arrays b))"

definition batch_cells :: "record_batch \<Rightarrow> nat \<Rightarrow> table_row" where
  "batch_cells b i = map_of (zip (rb_schema b) (map (\<lambda>a. utf8_cells a ! i) (rb_arrays b)))"

definition batch_table :: "record_batch list \<Rightarrow> table_row list" where
  "batch_table bs = concat (map (\<lambda>b. map (batch_cells b) [0..<rb_num_rows b]) bs)"

definition sort_cells :: "string list \<Rightarrow> table_row \<Rightarrow> string option list" where
  "sort_cells cs row = map (\<lambda>c. option_or (row c) None) cs"

fun plan_columns :: "'f df_plan \<Rightarrow> string list" where
  "plan_columns (DfTable cs bs) = cs"
| "plan_columns (DfFilterEq c v q) = plan_columns q"
| "plan_columns (DfSelect cs q) = cs"
| "plan_columns (DfSelectAs cs q) = map snd cs"
| "plan_columns (DfAggregate d e a q) = [d, a]"
| "plan_columns (DfSort cs q) = plan_columns q"
| "plan_columns (DfLimit i n q) = plan_columns q"

text \<open>Names that \<open>col\<close> takes as they are: it reads others as quoted or qualified identifiers or in
  lower case.\<close>

definition plain_name :: "string \<Rightarrow> bool" where
  "plain_name s =
     (s \<noteq> [] \<and> \<not> is_ascii_digit (hd s) \<and>
      list_all (\<lambda>c. is_ascii_digit c \<or> c = CHR ''_'' \<or> 97 \<le> code_of c \<and> code_of c \<le> 122) s)"

fun relational :: "'f df_plan \<Rightarrow> bool" where
  "relational (DfTable cs bs) = (distinct cs \<and> list_all plain_name cs \<and> list_all (utf8_batch cs) bs)"
| "relational (DfFilterEq c v q) = (relational q \<and> c \<in> set (plan_columns q))"
| "relational (DfSelect cs q) = (relational q \<and> distinct cs \<and> set cs \<subseteq> set (plan_columns q))"
| "relational (DfSelectAs cs q) = False"
| "relational (DfAggregate d e a q) = False"
| "relational (DfSort cs q) = (relational q \<and> set cs \<subseteq> set (plan_columns q))"
| "relational (DfLimit i n q) = relational q"

fun plan_rows :: "'f df_plan \<Rightarrow> table_row list" where
  "plan_rows (DfTable cs bs) = batch_table bs"
| "plan_rows (DfFilterEq c v q) = filter (\<lambda>row. row c = Some (Some v)) (plan_rows q)"
| "plan_rows (DfSelect cs q) = map (\<lambda>row. row |` set cs) (plan_rows q)"
| "plan_rows (DfSelectAs cs q) = []"
| "plan_rows (DfAggregate d e a q) = []"
| "plan_rows (DfSort cs q) = sort_key (sort_cells cs) (plan_rows q)"
| "plan_rows (DfLimit i n q) = take n (drop i (plan_rows q))"

fun plan_result :: "'f df_plan \<Rightarrow> table_row list \<Rightarrow> bool" where
  "plan_result (DfTable cs bs) rows = (mset rows = mset (batch_table bs))"
| "plan_result (DfFilterEq c v q) rows =
     (\<exists>rs. plan_result q rs \<and> mset rows = mset (filter (\<lambda>row. row c = Some (Some v)) rs))"
| "plan_result (DfSelect cs q) rows = (\<exists>rs. plan_result q rs \<and> mset rows = mset (map (\<lambda>row. row |` set cs) rs))"
| "plan_result (DfSelectAs cs q) rows = False"
| "plan_result (DfAggregate d e a q) rows = False"
| "plan_result (DfSort cs q) rows =
     (\<exists>rs. plan_result q rs \<and> mset rows = mset rs \<and> sorted (map (sort_cells cs) rows))"
| "plan_result (DfLimit i n q) rows = (\<exists>rs. plan_result q rs \<and> rows = take n (drop i rs))"

definition engine_ok :: "'f view_env \<Rightarrow> bool" where
  "engine_ok env =
     (\<forall>plan bs. relational plan \<longrightarrow> vw_collect env plan = Some bs \<longrightarrow>
        list_all (utf8_batch (plan_columns plan)) bs \<and> plan_result plan (batch_table bs))"

text \<open>Rows in the order of all of their columns: there is only one such order.\<close>

lemma sorted_rows_unique:
  assumes "mset rows = mset rs" "sorted (map (sort_cells cs) rows)" "\<forall>row \<in> set rs. dom row = set cs"
  shows "rows = sort_key (sort_cells cs) rs"
proof -
  let ?k = "sort_cells cs"
  have "inj_on ?k (set rs)"
  proof (rule inj_onI, rule ext)
    fix r r' c assume r: "r \<in> set rs" "r' \<in> set rs" and eq: "?k r = ?k r'"
    show "r c = r' c"
    proof (cases "c \<in> set cs")
      case True
      with eq have "option_or (r c) None = option_or (r' c) None" by (simp add: sort_cells_def)
      moreover have "r c \<noteq> None" "r' c \<noteq> None" using True r assms(3) by blast+
      ultimately show ?thesis by (auto simp: option_or_def)
    next
      case False
      then have "c \<notin> dom r" "c \<notin> dom r'" using r assms(3) by simp_all
      then show ?thesis by (simp add: domIff)
    qed
  qed
  moreover have "map ?k rows = map ?k (sort_key ?k rs)"
    using properties_for_sort [of "map ?k rows" "map ?k rs"] properties_for_sort [of "map ?k (sort_key ?k rs)" "map ?k rs"]
      assms(1,2) by (simp add: mset_map [symmetric] del: mset_map) (metis mset_map mset_sort)
  moreover have "set rows = set rs" using assms(1) by (rule mset_eq_setD)
  ultimately show ?thesis by (intro map_inj_on [of ?k]) simp_all
qed

lemma sorted_plan_rows:
  assumes "plan_result (DfLimit i n (DfSort cs (DfSelect cs q))) rows"
    and q: "\<And>rs. plan_result q rs \<Longrightarrow> mset rs = mset ts" and dom: "\<forall>row \<in> set ts. dom row = set cs"
  shows "rows = take n (drop i (sort_key (sort_cells cs) ts))"
proof -
  from assms(1) obtain rs rs2 rs3 where rows: "rows = take n (drop i rs)" and sorted: "sorted (map (sort_cells cs) rs)"
    and eqs: "mset rs = mset rs2" "mset rs2 = mset (map (\<lambda>row. row |` set cs) rs3)" "plan_result q rs3"
    by auto
  have "map (\<lambda>row. row |` set cs) ts = ts"
  proof (rule map_idI, rule ext)
    fix row c assume "row \<in> set ts"
    then have "c \<notin> set cs \<Longrightarrow> c \<notin> dom row" using dom by simp
    then show "(row |` set cs) c = row c" by (cases "c \<in> set cs") (simp_all add: domIff)
  qed
  then have "mset rs = mset ts"
    using eqs q [OF eqs(3)] by (metis mset_map)
  with sorted_rows_unique [OF _ sorted dom] show ?thesis by (simp add: rows)
qed

definition slice_cells :: "nat \<Rightarrow> nat \<Rightarrow> column_array \<Rightarrow> column_array" where
  "slice_cells i n a = Utf8Array (take n (drop i (utf8_cells a)))"

text \<open>What \<open>RecordBatch::try_new\<close> and \<open>slice\<close> promise, the latter for columns of strings.\<close>

definition arrow_ok :: "'f view_env \<Rightarrow> bool" where
  "arrow_ok env =
     ((\<forall>cs as b. vw_try_new env cs as = Some b \<longrightarrow> rb_schema b = cs \<and> rb_arrays b = as) \<and>
      (\<forall>cs as n. cs \<noteq> [] \<longrightarrow> length as = length cs \<longrightarrow> list_all (utf8_array n) as \<longrightarrow>
         vw_try_new env cs as = Some \<lparr>rb_schema = cs, rb_arrays = as, rb_num_rows = n\<rparr>) \<and>
      (\<forall>cs b i n. utf8_batch cs b \<longrightarrow> i + n \<le> rb_num_rows b \<longrightarrow>
         vw_slice env b i n =
           \<lparr>rb_schema = cs, rb_arrays = map (slice_cells i n) (rb_arrays b), rb_num_rows = n\<rparr>))"

subsection \<open>Tables of strings\<close>

definition plain_row :: "table_row \<Rightarrow> view_row" where
  "plain_row row = (\<lambda>c. map_option (\<lambda>v. option_or v []) (row c))"

lemma utf8_batch_cell:
  assumes "utf8_batch cs b" "j < length cs" "i < rb_num_rows b"
  shows "scalar_to_string b j i = Some (Inr (option_or (utf8_cells (rb_arrays b ! j) ! i) []))"
proof -
  have "utf8_array (rb_num_rows b) (rb_arrays b ! j)"
    using assms by (simp add: utf8_batch_def list_all_length)
  then have a: "rb_arrays b ! j = Utf8Array (utf8_cells (rb_arrays b ! j))"
    and n: "length (utf8_cells (rb_arrays b ! j)) = rb_num_rows b"
    by (simp_all add: utf8_array_def)
  have "array_cell (Utf8Array (utf8_cells (rb_arrays b ! j))) i
      = Some (Inr (option_or (utf8_cells (rb_arrays b ! j) ! i) []))"
    using assms(3) n by (simp add: nth_opt_def)
  then have "array_cell (rb_arrays b ! j) i = Some (Inr (option_or (utf8_cells (rb_arrays b ! j) ! i) []))"
    using a by simp
  then show ?thesis
    using assms by (simp add: scalar_to_string_def nth_opt_def utf8_batch_def)
qed

lemma map_of_rev_distinct: "distinct (map fst kvs) \<Longrightarrow> map_of (rev kvs) = map_of kvs"
  by (rule map_of_eqI) (auto simp: rev_map [symmetric])

lemma batch_row_utf8:
  assumes b: "utf8_batch cs b" "distinct cs" and i: "i < rb_num_rows b"
  shows "batch_row b i = Some (Inr (plain_row (batch_cells b i)))"
proof -
  let ?kv = "\<lambda>(j, f). (f, option_or (utf8_cells (rb_arrays b ! j) ! i) [])"
  have len: "length (rb_arrays b) = length cs" and sch: "rb_schema b = cs" using b by (simp_all add: utf8_batch_def)
  have "panic_map_list (\<lambda>(j, f). panic_bind (scalar_to_string b j i) (\<lambda>v. Some (Inr (f, v)))) (enumerate 0 cs)
      = Some (Inr (map ?kv (enumerate 0 cs)))"
    by (rule panic_map_list_total) (auto simp: in_set_enumerate_eq utf8_batch_cell [OF b(1) _ i])
  moreover have keys: "map fst (map ?kv (enumerate 0 cs)) = cs"
    by (intro nth_equalityI) (simp_all add: nth_enumerate_eq)
  moreover have "map ?kv (enumerate 0 cs) =
      map (\<lambda>(f, v). (f, option_or v [])) (zip cs (map (\<lambda>a. utf8_cells a ! i) (rb_arrays b)))"
    using len by (intro nth_equalityI) (simp_all add: nth_enumerate_eq)
  ultimately show ?thesis
    using b(2) sch
    by (simp add: batch_row_def map_of_rev_distinct batch_cells_def plain_row_def fun_eq_iff map_of_map)
qed

lemma batches_to_rows_utf8:
  assumes "list_all (utf8_batch cs) bs" "distinct cs"
  shows "batches_to_rows bs = Some (Inr (map plain_row (batch_table bs)))"
proof -
  have "panic_map_list (\<lambda>(b, i). batch_row b i)
      (concat (map (\<lambda>b. map (\<lambda>i. (b, i)) [0..<rb_num_rows b]) bs)) =
    Some (Inr (map (\<lambda>(b, i). plain_row (batch_cells b i))
      (concat (map (\<lambda>b. map (\<lambda>i. (b, i)) [0..<rb_num_rows b]) bs))))"
    by (rule panic_map_list_total) (use assms in \<open>auto simp: list_all_iff intro: batch_row_utf8\<close>)
  then show ?thesis by (simp add: batches_to_rows_def batch_table_def map_concat comp_def)
qed

lemma length_batch_table [simp]: "length (batch_table bs) = total_rows bs"
  by (induction bs) (simp_all add: batch_table_def total_rows_def)

lemma slice_utf8:
  assumes "arrow_ok env" "utf8_batch cs b" "n \<le> rb_num_rows b"
  shows "utf8_batch cs (vw_slice env b 0 n) \<and> batch_table [vw_slice env b 0 n] = take n (batch_table [b])"
proof -
  let ?s = "vw_slice env b 0 n"
  have s: "?s = \<lparr>rb_schema = cs, rb_arrays = map (slice_cells 0 n) (rb_arrays b), rb_num_rows = n\<rparr>"
    using assms by (simp add: arrow_ok_def)
  have "utf8_batch cs ?s"
    using assms by (auto simp: s utf8_batch_def list_all_iff utf8_array_def slice_cells_def)
  moreover have "batch_cells ?s i = batch_cells b i" if "i < n" for i
    using that assms by (auto simp: s batch_cells_def utf8_batch_def slice_cells_def comp_def
        intro!: arg_cong [where f = map_of] arg_cong2 [where f = zip])
  moreover have "take n [0..<rb_num_rows b] = [0..<n]" using assms(3) by (simp add: take_upt)
  ultimately show ?thesis
    by (simp add: batch_table_def s take_map)
qed

lemma truncate_batches_utf8:
  assumes "arrow_ok env" "list_all (utf8_batch cs) bs"
  shows "list_all (utf8_batch cs) (truncate_batches env bs n) \<and>
    batch_table (truncate_batches env bs n) = take n (batch_table bs)"
  using assms(2)
proof (induction bs arbitrary: n)
  case Nil
  then show ?case by (simp add: batch_table_def)
next
  case (Cons b bs)
  from Cons.prems have b: "utf8_batch cs b" and bs: "list_all (utf8_batch cs) bs" by simp_all
  have table: "batch_table (c # cs) = batch_table [c] @ batch_table cs" for c cs
    by (simp add: batch_table_def)
  have len: "total_rows [b] = rb_num_rows b" by (simp add: total_rows_def)
  consider "n = 0" | "n \<noteq> 0" "rb_num_rows b \<le> n" | "\<not> rb_num_rows b \<le> n" by blast
  then show ?case
  proof cases
    case 1
    then show ?thesis by (simp add: batch_table_def)
  next
    case 2
    with Cons.IH [OF bs, of "n - rb_num_rows b"] b show ?thesis
      by (simp add: table [of b bs] table [of b "truncate_batches env bs (n - rb_num_rows b)"] len take_append)
  next
    case 3
    with slice_utf8 [OF assms(1) b, of n] show ?thesis
      by (simp add: table [of b bs] len take_append batch_table_def [of "[]"])
  qed
qed

subsection \<open>Masked tables\<close>

text \<open>The table a profile shows of decoded batches: the chosen columns, every cell masked.\<close>

definition masked_cell :: "access_profile \<Rightarrow> record_batch \<Rightarrow> nat \<Rightarrow> string \<Rightarrow> string option" where
  "masked_cell p b i c =
     (case schema_column_index b c of
        None \<Rightarrow> None
      | Some j \<Rightarrow> (case scalar_to_string b j i of Some (Inr v) \<Rightarrow> profile_mask p c v | _ \<Rightarrow> None))"

definition masked_row :: "access_profile \<Rightarrow> string list \<Rightarrow> record_batch \<Rightarrow> nat \<Rightarrow> table_row" where
  "masked_row p cs b i = (\<lambda>c. if c \<in> set cs then Some (masked_cell p b i c) else None)"

definition masked_table :: "access_profile \<Rightarrow> string list \<Rightarrow> record_batch list \<Rightarrow> table_row list" where
  "masked_table p cs bs = concat (map (\<lambda>b. map (masked_row p cs b) [0..<rb_num_rows b]) bs)"

lemma secure_column_array_Inr:
  assumes "secure_column_array b p c = Some (Inr a)"
  shows "a = Utf8Array (map (\<lambda>i. masked_cell p b i c) [0..<rb_num_rows b]) \<and>
    (\<forall>i < rb_num_rows b. masked_cell p b i c \<noteq> None)"
proof -
  from assms obtain j vs where j: "schema_column_index b c = Some j"
    and vs: "panic_map_list (\<lambda>i. panic_bind (scalar_to_string b j i)
        (\<lambda>v. map_option (\<lambda>w. Inr (Some w)) (profile_mask p c v))) [0..<rb_num_rows b] = Some (Inr vs)"
    and a: "a = Utf8Array vs"
    by (auto simp: secure_column_array_def panic_bind_Inr split: option.splits)
  have "vs ! i = masked_cell p b i c \<and> masked_cell p b i c \<noteq> None" if "i < rb_num_rows b" for i
  proof -
    have "panic_bind (scalar_to_string b j i) (\<lambda>v. map_option (\<lambda>w. Inr (Some w)) (profile_mask p c v))
        = Some (Inr (vs ! i))"
      using list_all2_nthD [OF vs [unfolded panic_map_list_Inr], of i] that by simp
    then obtain v where v: "scalar_to_string b j i = Some (Inr v)"
      and w: "map_option (\<lambda>w. Inr (Some w)) (profile_mask p c v) = Some (Inr (vs ! i))"
      unfolding panic_bind_Inr by blast
    from w obtain w where "profile_mask p c v = Some w" "vs ! i = Some w"
      by (cases "profile_mask p c v") auto
    with j v show ?thesis by (simp add: masked_cell_def)
  qed
  moreover have "length vs = rb_num_rows b"
    using list_all2_lengthD [OF vs [unfolded panic_map_list_Inr]] by simp
  ultimately show ?thesis using a by (auto intro!: nth_equalityI)
qed

lemma secure_batch_Inr:
  assumes ok: "arrow_ok env" and cs: "cs \<noteq> []" and s: "secure_batch env p cs b = Some (Inr d)"
  shows "utf8_batch cs d \<and> rb_num_rows d = rb_num_rows b \<and>
    (distinct cs \<longrightarrow> map (batch_cells d) [0..<rb_num_rows d] = map (masked_row p cs b) [0..<rb_num_rows b]) \<and>
    (\<forall>i < rb_num_rows b. \<forall>c \<in> set cs. masked_cell p b i c \<noteq> None)"
proof -
  let ?col = "\<lambda>c. Utf8Array (map (\<lambda>i. masked_cell p b i c) [0..<rb_num_rows b])"
  from s obtain as where as: "list_all2 (\<lambda>c a. secure_column_array b p c = Some (Inr a)) cs as"
    and d: "vw_try_new env cs as = Some d"
    by (auto simp: secure_batch_def panic_bind_Inr panic_map_list_Inr res_of_option_def split: option.splits)
  have len: "length as = length cs" using list_all2_lengthD [OF as] by simp
  have col: "as ! j = ?col (cs ! j) \<and> (\<forall>i < rb_num_rows b. masked_cell p b i (cs ! j) \<noteq> None)"
    if "j < length cs" for j
    using secure_column_array_Inr [OF list_all2_nthD [OF as that]] .
  have as_eq: "as = map ?col cs" using len col by (auto intro!: nth_equalityI)
  then have "list_all (utf8_array (rb_num_rows b)) as" by (simp add: list_all_iff utf8_array_def)
  with ok cs len d have d: "d = \<lparr>rb_schema = cs, rb_arrays = as, rb_num_rows = rb_num_rows b\<rparr>"
    unfolding arrow_ok_def by (metis option.inject)
  have "utf8_batch cs d"
    using as_eq by (simp add: d utf8_batch_def list_all_iff utf8_array_def)
  moreover have "batch_cells d i = masked_row p cs b i" if "distinct cs" "i < rb_num_rows b" for i
  proof -
    have "map (\<lambda>a. utf8_cells a ! i) as = map (masked_cell p b i) cs"
      using that(2) by (simp add: as_eq)
    then show ?thesis
      by (simp add: d batch_cells_def masked_row_def fun_eq_iff map_of_zip_map)
  qed
  moreover have "\<forall>i < rb_num_rows b. \<forall>c \<in> set cs. masked_cell p b i c \<noteq> None"
    using col by (metis in_set_conv_nth)
  ultimately show ?thesis by (simp add: d)
qed

definition unmasked_ok :: "access_profile \<Rightarrow> string list \<Rightarrow> record_batch list \<Rightarrow> bool" where
  "unmasked_ok p cs bs =
     list_all (\<lambda>b. list_all (\<lambda>i. list_all (\<lambda>c. masked_cell p b i c \<noteq> None) cs) [0..<rb_num_rows b]) bs"

lemma secure_record_batches_Inr:
  assumes ok: "arrow_ok env" and s: "secure_record_batches env r p requested = Some (Inr (bs, cs))"
  shows "\<exists>available decoded. view_columns env r = Some (Inr available) \<and>
    resolve_projection p available requested = Inr cs \<and>
    decode_record_batches env r = Some (Inr decoded) \<and>
    list_all (utf8_batch cs) bs \<and> unmasked_ok p cs decoded \<and>
    (distinct cs \<longrightarrow> batch_table bs = masked_table p cs decoded)"
proof -
  from s obtain available decoded where 1: "view_columns env r = Some (Inr available)"
      "resolve_projection p available requested = Inr cs" "decode_record_batches env r = Some (Inr decoded)"
    and np: "\<not> list_ex (\<lambda>b. b = None) (map (secure_batch env p cs) decoded)"
    and rs: "res_map_list the (map (secure_batch env p cs) decoded) = Inr bs"
    by (auto simp: secure_record_batches_def panic_bind_Inr Let_def res_bind_eq_Inr split: if_splits)
  have cs: "cs \<noteq> []"
    using 1(2) by (auto simp: resolve_projection_def Let_def res_bind_eq_Inr split: if_splits)
  have rs': "list_all2 (\<lambda>b d. the (secure_batch env p cs b) = Inr d) decoded bs"
    using rs by (simp add: res_map_list_Inr list_all2_map1)
  have "secure_batch env p cs b \<noteq> None" if "b \<in> set decoded" for b
    using np that by (force simp: list_ex_iff)
  then have "list_all2 (\<lambda>b d. secure_batch env p cs b = Some (Inr d)) decoded bs"
    by (intro list.rel_mono_strong [OF rs']) (metis option.collapse)
  then have "list_all (utf8_batch cs) bs \<and> unmasked_ok p cs decoded \<and>
      (distinct cs \<longrightarrow> batch_table bs = masked_table p cs decoded)"
  proof (induction rule: list_all2_induct)
    case Nil
    then show ?case by (simp add: unmasked_ok_def batch_table_def masked_table_def)
  next
    case (Cons b bs' d ds)
    with secure_batch_Inr [OF ok cs Cons.hyps(1)] show ?case
      by (auto simp: unmasked_ok_def batch_table_def masked_table_def list_all_iff)
  qed
  with 1 show ?thesis by blast
qed

subsection \<open>Projections\<close>

lemma check_requested_Inr:
  "check_requested p available cs = Inr u \<longleftrightarrow> set cs \<subseteq> set (ap_allowed_columns p) \<inter> set available"
  by (induction cs) auto

lemma resolve_projection_Inr:
  assumes "resolve_projection p available requested = Inr cs"
  shows "cs \<noteq> [] \<and> set cs \<subseteq> set (ap_allowed_columns p) \<inter> set available \<and>
    cs = (if requested = [] then filter (\<lambda>f. f \<in> set available) (ap_allowed_columns p) else requested)"
  using assms
  by (auto simp: resolve_projection_def Let_def res_bind_eq_Inr check_requested_Inr split: if_splits)

lemma resolve_projection_again:
  assumes "resolve_projection p available requested = Inr cs"
  shows "resolve_projection p available cs = Inr cs"
proof -
  from resolve_projection_Inr [OF assms] have "cs \<noteq> []" "check_requested p available cs = Inr ()"
    unfolding check_requested_Inr by blast+
  then show ?thesis by (simp add: resolve_projection_def Let_def)
qed

definition profile_ok :: "access_profile \<Rightarrow> bool" where
  "profile_ok p = distinct (ap_allowed_columns p)"

lemma profile_ok_new [simp]: "profile_ok (access_profile_new cs)"
  using foldl_push_unique [of "[]" cs] by (simp add: profile_ok_def access_profile_new_def)

lemma profile_ok_rule [simp]: "profile_ok (with_masking_rule p f s) = profile_ok p"
  by (simp add: profile_ok_def with_masking_rule_def)

lemma resolve_distinct:
  assumes "resolve_projection p available requested = Inr cs" "profile_ok p" "distinct requested"
  shows "distinct cs"
  using resolve_projection_Inr [OF assms(1)] assms(2,3) by (simp add: profile_ok_def)

lemma table_provider_Inr:
  assumes ok: "arrow_ok env" and t: "table_provider env r p cs = Some (Inr t)"
    and av: "view_columns env r = Some (Inr available)" "resolve_projection p available requested = Inr cs"
    and dist: "distinct cs"
  shows "\<exists>decoded bs. decode_record_batches env r = Some (Inr decoded) \<and> unmasked_ok p cs decoded \<and>
    t = DfTable cs bs \<and> list_all (utf8_batch cs) bs \<and> batch_table bs = masked_table p cs decoded"
proof -
  from t obtain bs ds where s: "secure_record_batches env r p cs = Some (Inr (bs, ds))"
    and t: "t = DfTable (case bs of [] \<Rightarrow> ds | b # _ \<Rightarrow> rb_schema b) bs"
    by (auto simp: table_provider_def panic_bind_Inr)
  from secure_record_batches_Inr [OF ok s] av resolve_projection_again [OF av(2)] dist obtain decoded where
    "ds = cs" "decode_record_batches env r = Some (Inr decoded)" "list_all (utf8_batch cs) bs"
    "unmasked_ok p cs decoded" "batch_table bs = masked_table p cs decoded"
    by auto
  moreover from this have "t = DfTable cs bs"
    by (cases bs) (auto simp: t utf8_batch_def)
  ultimately show ?thesis by blast
qed

subsection \<open>Pages\<close>

text \<open>What a profile may see of a snapshot, in the order in which it is paged.\<close>

definition sorted_view :: "access_profile \<Rightarrow> string list \<Rightarrow> record_batch list \<Rightarrow> table_row list" where
  "sorted_view p cs decoded = sort_key (sort_cells cs) (masked_table p cs decoded)"

lemma masked_table_columns: "row \<in> set (masked_table p cs bs) \<Longrightarrow> dom row = set cs"
  by (auto simp: masked_table_def masked_row_def split: if_splits)

definition page_of :: "nat \<Rightarrow> nat \<Rightarrow> view_row list \<Rightarrow> snapshot_page" where
  "page_of n offset rows =
     \<lparr>pg_rows = take n (drop offset rows),
      pg_next_cursor = (if offset + n < length rows then Some (offset + n) else None)\<rparr>"

lemma resolved_plain:
  "resolve_projection p available requested = Inr cs \<Longrightarrow> list_all plain_name (ap_allowed_columns p) \<Longrightarrow>
     list_all plain_name cs"
  using resolve_projection_Inr [of p available requested cs] by (auto simp: list_all_iff)

lemma read_page_Inr:
  assumes ok: "arrow_ok env" "engine_ok env" and p: "profile_ok p" "distinct requested"
    and plain: "list_all plain_name (ap_allowed_columns p)"
    and bounds: "n < usize_max" "option_or cursor 0 + n \<le> usize_max"
    and page: "read_page env r p requested n cursor = Some (Inr pg)"
  shows "n \<noteq> 0 \<and> (\<exists>available cs decoded. view_columns env r = Some (Inr available) \<and>
    resolve_projection p available requested = Inr cs \<and>
    decode_record_batches env r = Some (Inr decoded) \<and> unmasked_ok p cs decoded \<and>
    pg = page_of n (option_or cursor 0) (map plain_row (sorted_view p cs decoded)))"
proof -
  let ?off = "option_or cursor 0"
  have wrap: "usize_wrap (Suc n) = Suc n" "usize_wrap (?off + n) = ?off + n"
    using bounds by (simp_all add: usize_wrap_def)
  from page obtain available cs table bs where n: "n \<noteq> 0"
    and av: "view_columns env r = Some (Inr available)" "resolve_projection p available requested = Inr cs"
    and t: "table_provider env r p cs = Some (Inr table)"
    and bs: "vw_collect env (DfLimit ?off (Suc n) (DfSort cs (DfSelect cs table))) = Some bs"
    and rows: "batches_to_rows (if n < total_rows bs then truncate_batches env bs n else bs) = Some (Inr (pg_rows pg))"
    and nxt: "pg_next_cursor pg = (if n < total_rows bs then Some (?off + n) else None)"
    by (auto simp: read_page_def read_page_batches_def panic_bind_Inr Let_def wrap collect_batches_def
        res_of_option_def split: if_splits option.splits)
  have dist: "distinct cs" using resolve_distinct av(2) p by blast
  obtain decoded tb where dec: "decode_record_batches env r = Some (Inr decoded)" "unmasked_ok p cs decoded"
    and table: "table = DfTable cs tb" "list_all (utf8_batch cs) tb" "batch_table tb = masked_table p cs decoded"
    using table_provider_Inr [OF ok(1) t av dist] by blast
  let ?S = "sorted_view p cs decoded"
  let ?plan = "DfLimit ?off (Suc n) (DfSort cs (DfSelect cs table))"
  have "relational ?plan" using dist table resolved_plain [OF av(2) plain] by simp
  with ok(2) bs have u: "list_all (utf8_batch (plan_columns ?plan)) bs" and res: "plan_result ?plan (batch_table bs)"
    unfolding engine_ok_def by blast+
  have b: "batch_table bs = take (Suc n) (drop ?off ?S)"
    unfolding sorted_view_def
    by (rule sorted_plan_rows [OF res]) (use masked_table_columns in \<open>auto simp: table\<close>)
  from u have u: "list_all (utf8_batch cs) bs" by simp
  have total: "total_rows bs = min (Suc n) (length ?S - ?off)"
    using length_batch_table [of bs] by (simp add: b)
  then have more: "n < total_rows bs \<longleftrightarrow> ?off + n < length ?S" by auto
  have "batch_table (if n < total_rows bs then truncate_batches env bs n else bs) = take n (drop ?off ?S)"
    using truncate_batches_utf8 [OF ok(1) u, of n] total by (auto simp: b min_def)
  moreover have "list_all (utf8_batch cs) (if n < total_rows bs then truncate_batches env bs n else bs)"
    using truncate_batches_utf8 [OF ok(1) u, of n] u by simp
  ultimately have "pg_rows pg = take n (drop ?off (map plain_row ?S))"
    using rows batches_to_rows_utf8 [OF _ dist] by (simp add: take_map drop_map)
  then have "pg = page_of n ?off (map plain_row ?S)"
    using nxt more by (cases pg) (simp add: page_of_def)
  with n av dec show ?thesis by blast
qed

subsection \<open>A library for the examples\<close>

definition batch_of_rows :: "string list \<Rightarrow> table_row list \<Rightarrow> record_batch" where
  "batch_of_rows cs rows =
     \<lparr>rb_schema = cs, rb_arrays = map (\<lambda>c. Utf8Array (map (\<lambda>row. option_or (row c) None) rows)) cs,
      rb_num_rows = length rows\<rparr>"

definition sample_rows :: "field_query_result list list" where
  "sample_rows =
     [[\<lparr>fqr_field = ''city'', fqr_value = ''Oslo''\<rparr>, \<lparr>fqr_field = ''email'', fqr_value = ''bo@x.org''\<rparr>],
      [\<lparr>fqr_field = ''city'', fqr_value = ''Bonn''\<rparr>, \<lparr>fqr_field = ''email'', fqr_value = ''al@x.org''\<rparr>],
      [\<lparr>fqr_field = ''city'', fqr_value = ''Rome''\<rparr>, \<lparr>fqr_field = ''email'', fqr_value = ''cy@x.org''\<rparr>]]"

definition sample_view_env :: "unit view_env" where
  "sample_view_env =
     \<lparr>vw_decrypt = (\<lambda>_. Some (Inr [])), vw_json_rows = (\<lambda>_. Some sample_rows),
      vw_parquet_read = (\<lambda>_. None), vw_parquet_write = (\<lambda>_ _. None),
      vw_try_new = (\<lambda>cs as. if cs = [] \<or> length as \<noteq> length cs then None
        else Some \<lparr>rb_schema = cs, rb_arrays = as, rb_num_rows = length (utf8_cells (hd as))\<rparr>),
      vw_new_empty = (\<lambda>cs. batch_of_rows cs []),
      vw_slice = (\<lambda>b i n. \<lparr>rb_schema = rb_schema b, rb_arrays = map (slice_cells i n) (rb_arrays b), rb_num_rows = n\<rparr>),
      vw_collect = (\<lambda>plan. if relational plan then Some [batch_of_rows (plan_columns plan) (plan_rows plan)] else None),
      vw_parse_f64 = (\<lambda>_. None), vw_zero = ()\<rparr>"

definition sample_record :: snapshot_record where
  "sample_record =
     \<lparr>es_snapshot_id = ''s'', es_tenant_id = ''t'', es_project_id = ''p'', es_storage_key = ''k'',
      es_created_at = 0, es_data_source_id = ''d'',
      es_encrypted_payload = \<lparr>ep_ciphertext = [], ep_dek_id = [], ep_wrapped_dek = [], ep_kek_id = [],
        ep_kms_provider = [], ep_algorithm = [], ep_nonce = [], ep_key_version = None\<rparr>,
      es_row_count = 3, es_columns = [''city'', ''email''], es_payload_format = JsonRows,
      es_lifecycle = \<lparr>sl_owner_user_id = ''u'', sl_grant_id = ''g'', sl_grant_expires_at = 1,
        sl_retention_until = 1, sl_data_fingerprint = [], sl_object_bucket = ''b'',
        sl_object_size_bytes = 0, sl_delete_state = SnapActive, sl_delete_reason = None,
        sl_deleted_at = None, sl_purged_at = None, sl_last_rewrapped_at = None\<rparr>\<rparr>"

lemma relational_columns:
  "relational plan \<Longrightarrow> distinct (plan_columns plan) \<and> (\<forall>row \<in> set (plan_rows plan). dom row = set (plan_columns plan))"
proof (induction plan)
  case (DfTable cs bs)
  have "dom (batch_cells b i) = set cs" if "b \<in> set bs" for b i
    using that DfTable by (auto simp: batch_cells_def utf8_batch_def list_all_iff dom_map_of_zip)
  with DfTable show ?case by (auto simp: batch_table_def)
next
  case (DfSelect cs q)
  then show ?case by (auto simp: dom_restrict inf_absorb2)
next
  case (DfLimit i n q)
  have "set (take n (drop i (plan_rows q))) \<subseteq> set (plan_rows q)"
    by (meson order_trans set_drop_subset set_take_subset)
  with DfLimit show ?case by (simp add: subset_eq)
qed simp_all

lemma batch_of_rows_table:
  assumes "distinct cs" "\<forall>row \<in> set rows. dom row = set cs"
  shows "utf8_batch cs (batch_of_rows cs rows) \<and> batch_table [batch_of_rows cs rows] = rows"
proof -
  have "batch_cells (batch_of_rows cs rows) i = rows ! i" if "i < length rows" for i
  proof (rule ext)
    fix c
    have row: "map (\<lambda>a. utf8_cells a ! i) (rb_arrays (batch_of_rows cs rows)) = map (\<lambda>c. option_or ((rows ! i) c) None) cs"
      using that by (simp add: batch_of_rows_def)
    have "dom (rows ! i) = set cs" using assms(2) that by simp
    then show "batch_cells (batch_of_rows cs rows) i c = (rows ! i) c"
      unfolding batch_cells_def row
      by (auto simp: batch_of_rows_def map_of_zip_map option_or_def split: option.splits)
  qed
  then have "map (batch_cells (batch_of_rows cs rows)) [0..<length rows] = rows"
    by (auto intro: nth_equalityI)
  then show ?thesis
    by (simp add: batch_table_def utf8_batch_def list_all_iff utf8_array_def batch_of_rows_def)
qed

lemma plan_rows_result: "relational plan \<Longrightarrow> plan_result plan (plan_rows plan)"
  by (induction plan) (auto simp: mset_filter)

lemma sample_view_env_ok: "arrow_ok sample_view_env \<and> engine_ok sample_view_env"
proof
  have "length (utf8_cells (hd as)) = n" if "cs \<noteq> []" "length as = length cs" "list_all (utf8_array n) as"
    for cs :: "string list" and as n
    using that by (cases as) (auto simp: utf8_array_def)
  then show "arrow_ok sample_view_env"
    by (auto simp: arrow_ok_def sample_view_env_def utf8_batch_def split: if_splits)
  show "engine_ok sample_view_env"
    using relational_columns batch_of_rows_table plan_rows_result
    by (fastforce simp: engine_ok_def sample_view_env_def)
qed

subsection \<open>What a page shows\<close>

lemma sorted_view_rows:
  "set (sorted_view p cs decoded) = set (masked_table p cs decoded)"
  "length (sorted_view p cs decoded) = length (masked_table p cs decoded)"
  "mset (sorted_view p cs decoded) = mset (masked_table p cs decoded)"
  by (simp_all add: sorted_view_def)

text \<open>The row of the snapshot behind a row shown.\<close>

definition shows_row :: "access_profile \<Rightarrow> string list \<Rightarrow> record_batch \<Rightarrow> nat \<Rightarrow> view_row \<Rightarrow> bool" where
  "shows_row p cs b i row =
     (i < rb_num_rows b \<and> (\<forall>c. row c = (if c \<in> set cs then masked_cell p b i c else None)))"

lemma plain_masked_row:
  assumes "unmasked_ok p cs decoded" "row \<in> set (masked_table p cs decoded)"
  shows "\<exists>b \<in> set decoded. \<exists>i. shows_row p cs b i (plain_row row)"
proof -
  from assms(2) obtain b i where b: "b \<in> set decoded" "i < rb_num_rows b" and row: "row = masked_row p cs b i"
    by (auto simp: masked_table_def)
  have "masked_cell p b i c \<noteq> None" if "c \<in> set cs" for c
    using assms(1) b that by (simp add: unmasked_ok_def list_all_iff)
  then have "shows_row p cs b i (plain_row row)"
    using b(2) by (force simp: shows_row_def row plain_row_def masked_row_def option_or_def)
  with b(1) show ?thesis by blast
qed

lemma page_of_rows: "set (pg_rows (page_of n i rows)) \<subseteq> set rows" "length (pg_rows (page_of n i rows)) \<le> n"
  by (auto simp: page_of_def dest: in_set_takeD in_set_dropD)

text \<open>
  C20. A page has at most the rows asked for.  Each of them shows exactly the columns resolved for
  the profile, all of them allowed by it, and each cell is the value of one row of the snapshot
  under the masking strategy of its column.  The engine is asked for relational results over columns
  whose names it takes as they are, lower-case identifiers, in which rows have no order but the one
  of the sort.
\<close>

theorem page_shows_masked_columns:
  assumes "arrow_ok env" "engine_ok env" "profile_ok p" "distinct requested"
    and "list_all plain_name (ap_allowed_columns p)"
    and "n < usize_max" "option_or cursor 0 + n \<le> usize_max"
    and "read_page env r p requested n cursor = Some (Inr pg)"
  shows "length (pg_rows pg) \<le> n \<and> (\<exists>available cs decoded.
    view_columns env r = Some (Inr available) \<and> resolve_projection p available requested = Inr cs \<and>
    set cs \<subseteq> set (ap_allowed_columns p) \<and> decode_record_batches env r = Some (Inr decoded) \<and>
    (\<forall>row \<in> set (pg_rows pg). \<exists>b \<in> set decoded. \<exists>i. shows_row p cs b i row))"
proof -
  obtain available cs decoded where av: "view_columns env r = Some (Inr available)"
      "resolve_projection p available requested = Inr cs"
    and dec: "decode_record_batches env r = Some (Inr decoded)" "unmasked_ok p cs decoded"
    and pg: "pg = page_of n (option_or cursor 0) (map plain_row (sorted_view p cs decoded))"
    using read_page_Inr [OF assms] by blast
  have "\<exists>b \<in> set decoded. \<exists>i. shows_row p cs b i row" if "row \<in> set (pg_rows pg)" for row
  proof -
    from that pg page_of_rows(1) have "row \<in> set (map plain_row (sorted_view p cs decoded))" by blast
    then show ?thesis using plain_masked_row [OF dec(2)] by (auto simp: sorted_view_rows)
  qed
  moreover have "set cs \<subseteq> set (ap_allowed_columns p)" using resolve_projection_Inr [OF av(2)] by blast
  moreover have "length (pg_rows pg) \<le> n" by (simp add: pg page_of_rows(2))
  ultimately show ?thesis using av dec by blast
qed

subsection \<open>Following the cursor\<close>

text \<open>All pages from a cursor on, as a client reads them; \<open>None\<close> if one of them fails.\<close>

fun follow_pages ::
  "(nat option \<Rightarrow> (view_error + snapshot_page) option) \<Rightarrow> nat \<Rightarrow> nat option \<Rightarrow> snapshot_page list option" where
  "follow_pages read 0 cursor = None"
| "follow_pages read (Suc k) cursor =
     (case read cursor of
        Some (Inr pg) \<Rightarrow>
          (case pg_next_cursor pg of
             None \<Rightarrow> Some [pg]
           | Some c \<Rightarrow> map_option (Cons pg) (follow_pages read k (Some c)))
      | _ \<Rightarrow> None)"

lemma follow_pages_of:
  assumes read: "\<And>cur. option_or cur 0 \<le> length rows \<Longrightarrow> read cur = Some (Inr (page_of n (option_or cur 0) rows))"
    and n: "n \<noteq> 0"
  shows "option_or cur 0 \<le> length rows \<Longrightarrow> length rows - option_or cur 0 < k \<Longrightarrow>
    \<exists>pages. follow_pages read k cur = Some pages \<and> concat (map pg_rows pages) = drop (option_or cur 0) rows \<and>
      list_all (\<lambda>pg. length (pg_rows pg) \<le> n) pages"
proof (induction k arbitrary: cur)
  case 0
  then show ?case by simp
next
  case (Suc k)
  let ?i = "option_or cur 0"
  note page = read [OF Suc.prems(1)]
  show ?case
  proof (cases "?i + n < length rows")
    case True
    have "option_or (Some (?i + n)) 0 = ?i + n" by (simp add: option_or_def)
    moreover have "length rows - (?i + n) < k" using Suc.prems True n by linarith
    ultimately obtain pages where
      "follow_pages read k (Some (?i + n)) = Some pages" "concat (map pg_rows pages) = drop (?i + n) rows"
      "list_all (\<lambda>pg. length (pg_rows pg) \<le> n) pages"
      using Suc.IH [of "Some (?i + n)"] True by auto
    moreover have "take n (drop ?i rows) @ drop (?i + n) rows = drop ?i rows"
      by (metis append_take_drop_id drop_drop add.commute)
    ultimately show ?thesis
      using page True by (intro exI [of _ "page_of n ?i rows # pages"]) (simp add: page_of_def)
  next
    case False
    then show ?thesis
      using page by (intro exI [of _ "[page_of n ?i rows]"]) (simp add: page_of_def)
  qed
qed

text \<open>The engine answers every plan of these operators.\<close>

definition engine_total :: "'f view_env \<Rightarrow> bool" where
  "engine_total env = (\<forall>plan. relational plan \<longrightarrow> vw_collect env plan \<noteq> None)"

lemma read_page_of_table:
  assumes ok: "arrow_ok env" "engine_ok env" "engine_total env"
    and p: "profile_ok p" "distinct requested" "list_all plain_name (ap_allowed_columns p)" and n: "n \<noteq> 0"
    and av: "view_columns env r = Some (Inr available)" "resolve_projection p available requested = Inr cs"
    and t: "table_provider env r p cs = Some (Inr table)"
  shows "\<exists>pg. read_page env r p requested n cursor = Some (Inr pg)"
proof -
  let ?off = "option_or cursor 0"
  have dist: "distinct cs" using resolve_distinct av(2) p(1,2) by blast
  obtain tb where table: "table = DfTable cs tb" "list_all (utf8_batch cs) tb"
    using table_provider_Inr [OF ok(1) t av dist] by blast
  let ?plan = "DfLimit ?off (usize_wrap (Suc n)) (DfSort cs (DfSelect cs table))"
  have rel: "relational ?plan" "plan_columns ?plan = cs"
    using dist table resolved_plain [OF av(2) p(3)] by simp_all
  with ok(3) obtain bs where bs: "vw_collect env ?plan = Some bs"
    unfolding engine_total_def by fastforce
  with ok(2) rel have u: "list_all (utf8_batch cs) bs" unfolding engine_ok_def by metis
  then have "list_all (utf8_batch cs) (if n < total_rows bs then truncate_batches env bs n else bs)"
    using truncate_batches_utf8 [OF ok(1) u, of n] by simp
  from batches_to_rows_utf8 [OF this dist] show ?thesis
    using n av t bs by (auto simp: read_page_def read_page_batches_def collect_batches_def Let_def)
qed

lemma read_page_defined:
  assumes "arrow_ok env" "engine_ok env" "engine_total env"
    and "profile_ok p" "distinct requested" "list_all plain_name (ap_allowed_columns p)"
    and page: "read_page env r p requested n cursor = Some (Inr pg)"
  shows "\<exists>pg'. read_page env r p requested n cursor' = Some (Inr pg')"
proof -
  from page obtain available cs table where "n \<noteq> 0" "view_columns env r = Some (Inr available)"
    "resolve_projection p available requested = Inr cs" "table_provider env r p cs = Some (Inr table)"
    by (auto simp: read_page_def read_page_batches_def panic_bind_Inr Let_def split: if_splits)
  then show ?thesis using read_page_of_table [OF assms(1-6)] by blast
qed

lemma total_rows_masked_table: "length (masked_table p cs bs) = total_rows bs"
  by (induction bs) (simp_all add: masked_table_def total_rows_def)

text \<open>
  C21. A client that starts without a cursor and follows the cursors it is given reads, after at
  most one page more than there are rows, every row of the masked view exactly once, in its sorted
  order, never more than the page size at a time.  This is of columns with lower-case identifiers as
  names and of a first page that can be read, with an engine that answers relational plans but may
  give rows it is not told to sort in another order each time: pages fit together because every
  column of the view is sorted by.
\<close>

theorem pages_partition_view:
  assumes "arrow_ok env" "engine_ok env" "engine_total env"
    and "profile_ok p" "distinct requested" "list_all plain_name (ap_allowed_columns p)"
    and "n < usize_max" "total_rows decoded + n \<le> usize_max"
    and "decode_record_batches env r = Some (Inr decoded)"
    and "read_page env r p requested n None = Some (Inr pg)"
  shows "\<exists>available cs pages. view_columns env r = Some (Inr available) \<and>
    resolve_projection p available requested = Inr cs \<and>
    follow_pages (read_page env r p requested n) (total_rows decoded + 1) None = Some pages \<and>
    concat (map pg_rows pages) = map plain_row (sorted_view p cs decoded) \<and>
    mset (concat (map pg_rows pages)) = mset (map plain_row (masked_table p cs decoded)) \<and>
    list_all (\<lambda>pg. length (pg_rows pg) \<le> n) pages"
proof -
  have zero: "option_or None 0 = (0::nat)" by (simp add: option_or_def)
  have first: "option_or None 0 + n \<le> usize_max" using assms(7) by (simp add: option_or_def)
  obtain available cs where av: "view_columns env r = Some (Inr available)"
      "resolve_projection p available requested = Inr cs" and n: "n \<noteq> 0"
    using read_page_Inr [OF assms(1,2,4-7) first assms(10)] by blast
  let ?rows = "map plain_row (sorted_view p cs decoded)"
  have len: "length ?rows = total_rows decoded" by (simp add: sorted_view_rows total_rows_masked_table)
  have "read_page env r p requested n cur = Some (Inr (page_of n (option_or cur 0) ?rows))"
    if "option_or cur 0 \<le> length ?rows" for cur
  proof -
    obtain pg' where pg': "read_page env r p requested n cur = Some (Inr pg')"
      using read_page_defined [OF assms(1-6,10)] by blast
    have "option_or cur 0 + n \<le> usize_max" using that len assms(8) by simp
    from read_page_Inr [OF assms(1,2,4-7) this pg'] pg' av assms(9) show ?thesis by auto
  qed
  from follow_pages_of [of ?rows, OF this n, of None "total_rows decoded + 1"] zero len obtain pages where
    "follow_pages (read_page env r p requested n) (total_rows decoded + 1) None = Some pages"
    "concat (map pg_rows pages) = ?rows" "list_all (\<lambda>pg. length (pg_rows pg) \<le> n) pages"
    by auto
  with av show ?thesis by (simp add: sorted_view_rows)
qed

definition sample_view_profile :: access_profile where
  "sample_view_profile =
     with_masking_rule (with_masking_rule (access_profile_new [''email'', ''city'']) ''city'' MaskNone)
       ''email'' MaskPartialEmail"

lemma sample_decoded:
  "decode_record_batches sample_view_env sample_record =
     Some (Inr [\<lparr>rb_schema = [''city'', ''email''],
       rb_arrays = [Utf8Array [Some ''Oslo'', Some ''Bonn'', Some ''Rome''],
         Utf8Array [Some ''bo@x.org'', Some ''al@x.org'', Some ''cy@x.org'']], rb_num_rows = 3\<rparr>])"
  by code_simp

lemma sample_table:
  "table_provider sample_view_env sample_record sample_view_profile [''email'', ''city''] =
     Some (Inr (DfTable [''email'', ''city''] [\<lparr>rb_schema = [''email'', ''city''],
       rb_arrays = [Utf8Array [Some ''b***@x.org'', Some ''a***@x.org'', Some ''c***@x.org''],
         Utf8Array [Some ''Oslo'', Some ''Bonn'', Some ''Rome'']], rb_num_rows = 3\<rparr>]))"
  by code_simp

lemma sample_view_env_total: "engine_total sample_view_env"
  by (simp add: engine_total_def sample_view_env_def)

lemma sample_view_profile_ok:
  "profile_ok sample_view_profile" "list_all plain_name (ap_allowed_columns sample_view_profile)"
  "resolve_projection sample_view_profile [''city'', ''email''] [] = Inr [''email'', ''city'']"
  by (simp add: sample_view_profile_def) code_simp+

lemma sample_columns: "view_columns sample_view_env sample_record = Some (Inr [''city'', ''email''])"
  by (simp add: view_columns_def sample_record_def)

lemma sample_first_page: "\<exists>pg. read_page sample_view_env sample_record sample_view_profile [] 2 None = Some (Inr pg)"
proof (rule read_page_of_table)
  show "table_provider sample_view_env sample_record sample_view_profile [''email'', ''city''] =
     Some (Inr (DfTable [''email'', ''city''] [\<lparr>rb_schema = [''email'', ''city''],
       rb_arrays = [Utf8Array [Some ''b***@x.org'', Some ''a***@x.org'', Some ''c***@x.org''],
         Utf8Array [Some ''Oslo'', Some ''Bonn'', Some ''Rome'']], rb_num_rows = 3\<rparr>]))"
    by (rule sample_table)
qed (use sample_view_env_ok sample_view_env_total sample_view_profile_ok sample_columns in auto)

lemma page_shows_masked_columns_witness:
  "\<exists>pg. read_page sample_view_env sample_record sample_view_profile [] 2 None = Some (Inr pg) \<and> length (pg_rows pg) \<le> 2"
proof -
  obtain pg where pg: "read_page sample_view_env sample_record sample_view_profile [] 2 None = Some (Inr pg)"
    using sample_first_page by blast
  have "length (pg_rows pg) \<le> 2"
    using page_shows_masked_columns [OF _ _ _ _ _ _ _ pg] sample_view_env_ok sample_view_profile_ok
    by (simp add: usize_max_def option_or_def)
  with pg show ?thesis by blast
qed

lemma pages_partition_view_witness:
  "\<exists>pages. follow_pages (read_page sample_view_env sample_record sample_view_profile [] 2) 4 None = Some pages \<and>
     list_all (\<lambda>pg. length (pg_rows pg) \<le> 2) pages"
proof -
  obtain pg where "read_page sample_view_env sample_record sample_view_profile [] 2 None = Some (Inr pg)"
    using sample_first_page by blast
  note all = pages_partition_view [OF _ _ _ _ _ _ _ _ sample_decoded this]
  have "total_rows [\<lparr>rb_schema = [''city'', ''email''],
      rb_arrays = [Utf8Array [Some ''Oslo'', Some ''Bonn'', Some ''Rome''],
        Utf8Array [Some ''bo@x.org'', Some ''al@x.org'', Some ''cy@x.org'']], rb_num_rows = 3\<rparr>] + 1 = 4"
    by (simp add: total_rows_def)
  with all show ?thesis
    using sample_view_env_ok sample_view_env_total sample_view_profile_ok
    by (auto simp: usize_max_def total_rows_def)
qed

subsection \<open>Drilling down\<close>

lemma execute_drilldown_Inr:
  assumes ok: "arrow_ok env" "engine_ok env" and p: "profile_ok p" "distinct requested"
    and plain: "list_all plain_name (ap_allowed_columns p)"
    and bounds: "n < usize_max" "option_or cursor 0 + n \<le> usize_max"
    and page: "execute_drilldown env r p d v requested n cursor = Some (Inr pg)"
  shows "\<exists>available cs decoded w. view_columns env r = Some (Inr available) \<and>
    resolve_projection p available (drilldown_columns d requested) = Inr cs \<and>
    decode_record_batches env r = Some (Inr decoded) \<and> profile_mask p d v = Some w \<and>
    pg = page_of n (option_or cursor 0)
      (map plain_row (filter (\<lambda>row. row d = Some (Some w)) (sorted_view p cs decoded)))"
proof -
  let ?off = "option_or cursor 0"
  have wrap: "usize_wrap (Suc n) = Suc n" "usize_wrap (?off + n) = ?off + n"
    using bounds by (simp_all add: usize_wrap_def)
  from page obtain available cs w table bs rows where n: "n \<noteq> 0"
    and av: "view_columns env r = Some (Inr available)"
      "resolve_projection p available (drilldown_columns d requested) = Inr cs"
    and w: "profile_mask p d v = Some w"
    and t: "table_provider env r p cs = Some (Inr table)"
    and bs: "vw_collect env (DfLimit ?off (Suc n) (DfSort cs (DfSelect cs (DfFilterEq d w table)))) = Some bs"
    and rows: "batches_to_rows bs = Some (Inr rows)"
    and pg: "pg = (if length rows > n then \<lparr>pg_rows = take n rows, pg_next_cursor = Some (?off + n)\<rparr>
      else \<lparr>pg_rows = rows, pg_next_cursor = None\<rparr>)"
    by (auto simp: execute_drilldown_def panic_bind_Inr Let_def wrap collect_batches_def collect_rows_def
        res_of_option_def split: if_splits option.splits)
  have "distinct (drilldown_columns d requested)" using p(2) by (simp add: drilldown_columns_def)
  then have dist: "distinct cs" using resolve_distinct av(2) p(1) by blast
  have d: "d \<in> set cs"
    using resolve_projection_Inr [OF av(2)] by (auto simp: drilldown_columns_def split: if_splits)
  obtain decoded tb where dec: "decode_record_batches env r = Some (Inr decoded)"
    and table: "table = DfTable cs tb" "list_all (utf8_batch cs) tb" "batch_table tb = masked_table p cs decoded"
    using table_provider_Inr [OF ok(1) t av dist] by blast
  let ?P = "\<lambda>row. row d = Some (Some w)"
  let ?S = "filter ?P (sorted_view p cs decoded)"
  let ?plan = "DfLimit ?off (Suc n) (DfSort cs (DfSelect cs (DfFilterEq d w table)))"
  have "relational ?plan" using dist table d resolved_plain [OF av(2) plain] by simp
  with ok(2) bs have u: "list_all (utf8_batch (plan_columns ?plan)) bs" and res: "plan_result ?plan (batch_table bs)"
    unfolding engine_ok_def by blast+
  have dom: "\<forall>row \<in> set (filter ?P (masked_table p cs decoded)). dom row = set cs"
    by (auto dest: masked_table_columns)
  have "batch_table bs = take (Suc n) (drop ?off (sort_key (sort_cells cs) (filter ?P (masked_table p cs decoded))))"
    by (rule sorted_plan_rows [OF res _ dom]) (auto simp: table)
  then have b: "batch_table bs = take (Suc n) (drop ?off ?S)" by (simp add: sorted_view_def filter_sort)
  from u have u: "list_all (utf8_batch cs) bs" by simp
  have "rows = map plain_row (take (Suc n) (drop ?off ?S))"
    using rows batches_to_rows_utf8 [OF u dist] by (simp add: b)
  then have "pg = page_of n ?off (map plain_row ?S)"
    by (auto simp: pg page_of_def take_map drop_map min_def)
  with av w dec show ?thesis by blast
qed

text \<open>
  Drilling into the key that a bucket shows, that is the masked form of some value, selects
  exactly the rows of the masked view whose dimension shows this key, in order, except for
  partially masked addresses with nothing before the at sign.
\<close>

lemma drilldown_selects_bucket:
  assumes "arrow_ok env" "engine_ok env" "profile_ok p" "distinct requested"
    and "list_all plain_name (ap_allowed_columns p)"
    and "n < usize_max" "option_or cursor 0 + n \<le> usize_max"
    and "profile_mask p d v = Some key"
    and "profile_strategy p d = MaskPartialEmail \<Longrightarrow> \<not> starts_with v ''@''"
    and "execute_drilldown env r p d key requested n cursor = Some (Inr pg)"
  shows "\<exists>available cs decoded. view_columns env r = Some (Inr available) \<and>
    resolve_projection p available (drilldown_columns d requested) = Inr cs \<and>
    decode_record_batches env r = Some (Inr decoded) \<and>
    pg = page_of n (option_or cursor 0)
      (map plain_row (filter (\<lambda>row. row d = Some (Some key)) (sorted_view p cs decoded)))"
proof -
  have "profile_mask p d key = Some key"
    using assms(8,9) mask_fixed by (simp add: profile_mask_def)
  then show ?thesis using execute_drilldown_Inr [OF assms(1-7,10)] by auto
qed

lemma execute_drilldown_of_table:
  assumes ok: "arrow_ok env" "engine_ok env" "engine_total env"
    and p: "profile_ok p" "distinct requested" "list_all plain_name (ap_allowed_columns p)" and n: "n \<noteq> 0"
    and av: "view_columns env r = Some (Inr available)"
      "resolve_projection p available (drilldown_columns d requested) = Inr cs"
    and w: "profile_mask p d v = Some w"
    and t: "table_provider env r p cs = Some (Inr table)"
  shows "\<exists>pg. execute_drilldown env r p d v requested n cursor = Some (Inr pg)"
proof -
  have "distinct (drilldown_columns d requested)" using p(2) by (simp add: drilldown_columns_def)
  then have dist: "distinct cs" using resolve_distinct av(2) p(1) by blast
  have d: "d \<in> set cs"
    using resolve_projection_Inr [OF av(2)] by (auto simp: drilldown_columns_def split: if_splits)
  obtain tb where table: "table = DfTable cs tb" "list_all (utf8_batch cs) tb"
    using table_provider_Inr [OF ok(1) t av dist] by blast
  let ?plan = "DfLimit (option_or cursor 0) (usize_wrap (Suc n)) (DfSort cs (DfSelect cs (DfFilterEq d w table)))"
  have rel: "relational ?plan" "plan_columns ?plan = cs"
    using dist table d resolved_plain [OF av(2) p(3)] by simp_all
  with ok(3) obtain bs where bs: "vw_collect env ?plan = Some bs"
    unfolding engine_total_def by fastforce
  with ok(2) rel have "list_all (utf8_batch cs) bs" unfolding engine_ok_def by metis
  from batches_to_rows_utf8 [OF this dist] show ?thesis
    using n av w t bs by (auto simp: execute_drilldown_def collect_batches_def collect_rows_def Let_def)
qed

lemma drilldown_selects_bucket_witness:
  "\<exists>pg. execute_drilldown sample_view_env sample_record sample_view_profile ''email'' ''b***@x.org'' [''email'', ''city''] 2 None
      = Some (Inr pg) \<and>
    (\<exists>cs decoded. pg = page_of 2 0
      (map plain_row (filter (\<lambda>row. row ''email'' = Some (Some ''b***@x.org'')) (sorted_view sample_view_profile cs decoded))))"
proof -
  have cols: "resolve_projection sample_view_profile [''city'', ''email''] (drilldown_columns ''email'' [''email'', ''city''])
      = Inr [''email'', ''city'']"
    and key: "profile_mask sample_view_profile ''email'' ''bo@x.org'' = Some ''b***@x.org''"
    and again: "profile_mask sample_view_profile ''email'' ''b***@x.org'' = Some ''b***@x.org''"
    and start: "\<not> starts_with ''bo@x.org'' ''@''"
    by code_simp+
  have "\<exists>pg. execute_drilldown sample_view_env sample_record sample_view_profile ''email'' ''b***@x.org'' [''email'', ''city''] 2 None
      = Some (Inr pg)"
    by (rule execute_drilldown_of_table [OF _ _ _ _ _ _ _ sample_columns cols again sample_table])
      (use sample_view_env_ok sample_view_env_total sample_view_profile_ok in simp_all)
  then obtain pg where pg: "execute_drilldown sample_view_env sample_record sample_view_profile ''email'' ''b***@x.org''
      [''email'', ''city''] 2 None = Some (Inr pg)"
    by blast
  from drilldown_selects_bucket [OF _ _ _ _ _ _ _ key _ pg] pg show ?thesis
    using sample_view_env_ok sample_view_profile_ok start by (auto simp: usize_max_def option_or_def)
qed

text \<open>A page of the largest size asks the engine for no rows, since the limit wraps to zero.\<close>

lemma largest_page_is_empty:
  assumes "arrow_ok env" "engine_ok env" "profile_ok p" "distinct requested"
    and plain: "list_all plain_name (ap_allowed_columns p)"
    and page: "read_page env r p requested usize_max cursor = Some (Inr pg)"
  shows "pg_rows pg = [] \<and> pg_next_cursor pg = None"
proof -
  have wrap: "usize_wrap (Suc usize_max) = 0" by (simp add: usize_wrap_def)
  from page obtain available cs table bs where
    av: "view_columns env r = Some (Inr available)" "resolve_projection p available requested = Inr cs"
    and t: "table_provider env r p cs = Some (Inr table)"
    and bs: "vw_collect env (DfLimit (option_or cursor 0) 0 (DfSort cs (DfSelect cs table))) = Some bs"
    and rows: "batches_to_rows (if usize_max < total_rows bs then truncate_batches env bs usize_max else bs)
      = Some (Inr (pg_rows pg))"
    and nxt: "usize_max < total_rows bs \<or> pg_next_cursor pg = None"
    by (auto simp: read_page_def read_page_batches_def panic_bind_Inr Let_def wrap collect_batches_def
        res_of_option_def split: if_splits option.splits)
  have dist: "distinct cs" using resolve_distinct av(2) assms(3,4) by blast
  obtain tb where table: "table = DfTable cs tb" "list_all (utf8_batch cs) tb"
    using table_provider_Inr [OF assms(1) t av dist] by blast
  have "relational (DfLimit (option_or cursor 0) 0 (DfSort cs (DfSelect cs table)))"
    using dist table resolved_plain [OF av(2) plain] by simp
  with assms(2) bs have u: "list_all (utf8_batch cs) bs" and b: "batch_table bs = []"
    unfolding engine_ok_def by fastforce+
  from b length_batch_table [of bs] have "total_rows bs = 0" by simp
  with rows nxt batches_to_rows_utf8 [OF u dist] b show ?thesis by simp
qed

subsection \<open>Pivots and stored rows\<close>

lemma pivot_checks_columns:
  assumes "execute_pivot env r p dimension m = Some (Inr buckets)"
  shows "set (pivot_requested_columns dimension m) \<subseteq> set (ap_allowed_columns p)"
proof -
  from assms obtain available cs where
    "resolve_projection p available (pivot_requested_columns dimension m) = Inr cs"
    by (auto simp: execute_pivot_def execute_pivot_batches_def panic_bind_Inr Let_def)
  from resolve_projection_Inr [OF this] show ?thesis
    by (auto simp: pivot_requested_columns_def split: option.splits if_splits)
qed

text \<open>What Parquet promises of a table of strings, and the rows a reader should get.\<close>

definition parquet_ok :: "'f view_env \<Rightarrow> bool" where
  "parquet_ok env =
     ((\<forall>cs bs bytes. list_all (utf8_batch cs) bs \<longrightarrow> vw_parquet_write env cs bs = Some bytes \<longrightarrow>
         (\<exists>bs'. vw_parquet_read env bytes = Some bs' \<and> list_all (utf8_batch cs) bs' \<and> batch_table bs' = batch_table bs)) \<and>
      (\<forall>cs. utf8_batch cs (vw_new_empty env cs) \<and> rb_num_rows (vw_new_empty env cs) = 0))"

definition stored_row :: "string list \<Rightarrow> field_query_result list \<Rightarrow> view_row" where
  "stored_row cs row = (\<lambda>c. if c \<in> set cs then Some (option_or (row_values row c) []) else None)"

lemma distinct_resolve_columns: "distinct (resolve_columns rows projected)"
  using foldl_push_unique [of "foldl push_unique [] (option_or projected [])" "concat (map (map fqr_field) rows)"]
    foldl_push_unique [of "[]" "option_or projected []"]
  by (simp add: resolve_columns_def)

lemma set_resolve_columns:
  "set (resolve_columns rows projected) = set (option_or projected []) \<union> set (concat (map (map fqr_field) rows))"
  using foldl_push_unique [of "foldl push_unique [] (option_or projected [])" "concat (map (map fqr_field) rows)"]
    foldl_push_unique [of "[]" "option_or projected []"]
  by (simp add: resolve_columns_def)

lemma rows_to_record_batches_Inr:
  assumes ok: "arrow_ok env" and bs: "rows_to_record_batches env rows hint = Inr bs"
    and ne: "resolve_columns rows (Some hint) \<noteq> []"
  shows "list_all (utf8_batch (resolve_columns rows (Some hint))) bs \<and>
    map plain_row (batch_table bs) = map (stored_row (resolve_columns rows (Some hint))) rows"
proof -
  let ?cs = "resolve_columns rows (Some hint)"
  let ?as = "map (\<lambda>c. Utf8Array (map (\<lambda>row. row_values row c) rows)) ?cs"
  have "list_all (utf8_array (length rows)) ?as" by (simp add: list_all_iff utf8_array_def)
  with ok ne have "vw_try_new env ?cs ?as = Some \<lparr>rb_schema = ?cs, rb_arrays = ?as, rb_num_rows = length rows\<rparr>"
    unfolding arrow_ok_def by (metis length_map)
  with bs have b: "bs = [\<lparr>rb_schema = ?cs, rb_arrays = ?as, rb_num_rows = length rows\<rparr>]"
    by (simp add: rows_to_record_batches_def Let_def)
  have "plain_row (batch_cells (hd bs) i) = stored_row ?cs (rows ! i)" if "i < length rows" for i
  proof -
    have "map (\<lambda>a. utf8_cells a ! i) ?as = map (row_values (rows ! i)) ?cs" using that by simp
    then show ?thesis
      by (simp add: b batch_cells_def plain_row_def stored_row_def fun_eq_iff map_of_zip_map del: map_map)
  qed
  then have "map plain_row (batch_table bs) = map (stored_row ?cs) rows"
    by (auto simp: b batch_table_def intro!: nth_equalityI)
  moreover have "list_all (utf8_batch ?cs) bs" by (simp add: b utf8_batch_def list_all_iff utf8_array_def)
  ultimately show ?thesis by blast
qed

text \<open>
  Rows that are encoded as Parquet and stored are read back one for one, in order, with the
  empty string in every column that a row does not have; encoding fails rather than loses rows.
\<close>

lemma stored_rows_round_trip:
  assumes "arrow_ok env" "parquet_ok env"
    and enc: "encode_rows_to_parquet env rows projected = Inr enc" and ne: "en_columns enc \<noteq> []"
    and r: "es_payload_format r = en_format enc" "es_columns r = en_columns enc"
    and dec: "vw_decrypt env (es_encrypted_payload r) = Some (Inr (en_payload enc))"
  shows "decode_rows env r = Some (Inr (map (stored_row (en_columns enc)) rows)) \<and>
    set (en_columns enc) = set (option_or projected []) \<union> set (concat (map (map fqr_field) rows))"
proof -
  let ?cs = "resolve_columns rows projected"
  from enc obtain bs where cs: "en_columns enc = ?cs" "en_format enc = Parquet"
    and bs: "rows_to_record_batches env rows ?cs = Inr bs"
    and wr: "vw_parquet_write env (case bs of [] \<Rightarrow> ?cs | b # _ \<Rightarrow> rb_schema b) bs = Some (en_payload enc)"
    by (auto simp: encode_rows_to_parquet_def Let_def res_bind_eq_Inr res_of_option_def split: option.splits)
  have "foldl push_unique [] ?cs = ?cs \<and> foldl push_unique ?cs (concat (map (map fqr_field) rows)) = ?cs"
    using distinct_resolve_columns [of rows projected] set_resolve_columns [of rows projected]
    by (simp add: foldl_push_unique_id foldl_push_unique_known)
  then have again: "resolve_columns rows (Some ?cs) = ?cs" by (simp add: resolve_columns_def option_or_def)
  with rows_to_record_batches_Inr [OF assms(1) bs] ne cs have u: "list_all (utf8_batch ?cs) bs"
    and table: "map plain_row (batch_table bs) = map (stored_row ?cs) rows" by simp_all
  have "(case bs of [] \<Rightarrow> ?cs | b # _ \<Rightarrow> rb_schema b) = ?cs"
    using u by (cases bs) (auto simp: utf8_batch_def)
  with wr u assms(2) obtain bs' where read: "vw_parquet_read env (en_payload enc) = Some bs'"
    and u': "list_all (utf8_batch ?cs) bs'" and t': "batch_table bs' = batch_table bs"
    unfolding parquet_ok_def by metis
  let ?bs = "if bs' = [] then [vw_new_empty env ?cs] else bs'"
  have "decode_record_batches env r = Some (Inr ?bs)"
    using read dec r cs by (simp add: decode_record_batches_def)
  moreover have "batch_table [vw_new_empty env ?cs] = []" "utf8_batch ?cs (vw_new_empty env ?cs)"
    using assms(2) by (simp_all add: parquet_ok_def batch_table_def)
  then have "list_all (utf8_batch ?cs) ?bs" "batch_table ?bs = batch_table bs"
    using u' t' by (auto simp: batch_table_def)
  moreover from this batches_to_rows_utf8 [OF _ distinct_resolve_columns]
  have "batches_to_rows ?bs = Some (Inr (map (stored_row ?cs) rows))" by (metis table)
  ultimately show ?thesis using cs by (simp add: decode_rows_def set_resolve_columns)
qed

definition sample_parquet_env :: "unit view_env" where
  "sample_parquet_env = sample_view_env
     \<lparr>vw_parquet_write := (\<lambda>cs bs. if cs = [''a''] \<and> bs = [batch_of_rows [''a''] [[''a'' \<mapsto> Some ''x'']]] then Some [] else None),
      vw_parquet_read := (\<lambda>_. Some [batch_of_rows [''a''] [[''a'' \<mapsto> Some ''x'']]])\<rparr>"

lemma sample_parquet_env_ok: "arrow_ok sample_parquet_env \<and> parquet_ok sample_parquet_env"
proof
  show "arrow_ok sample_parquet_env"
    using sample_view_env_ok by (simp add: sample_parquet_env_def arrow_ok_def)
  show "parquet_ok sample_parquet_env"
    by (auto simp: sample_parquet_env_def sample_view_env_def parquet_ok_def batch_of_rows_def utf8_batch_def
        list_all_iff utf8_array_def)
qed

lemma stored_rows_round_trip_witness:
  "encode_rows_to_parquet sample_parquet_env [[\<lparr>fqr_field = ''a'', fqr_value = ''x''\<rparr>]] None
     = Inr \<lparr>en_payload = [], en_columns = [''a''], en_format = Parquet\<rparr> \<and>
   decode_rows sample_parquet_env (sample_record\<lparr>es_payload_format := Parquet, es_columns := [''a'']\<rparr>)
     = Some (Inr [stored_row [''a''] [\<lparr>fqr_field = ''a'', fqr_value = ''x''\<rparr>]])"
proof -
  have enc: "encode_rows_to_parquet sample_parquet_env [[\<lparr>fqr_field = ''a'', fqr_value = ''x''\<rparr>]] None
     = Inr \<lparr>en_payload = [], en_columns = [''a''], en_format = Parquet\<rparr>"
    by (simp add: encode_rows_to_parquet_def resolve_columns_def push_unique_def rows_to_record_batches_def
        sample_parquet_env_def sample_view_env_def batch_of_rows_def option_or_def row_values_def Let_def)
  from stored_rows_round_trip [OF _ _ enc, of "sample_record\<lparr>es_payload_format := Parquet, es_columns := [''a'']\<rparr>"]
  show ?thesis
    using enc sample_parquet_env_ok by (simp add: sample_parquet_env_def sample_view_env_def)
qed

end
