(* ===== verification/McpRateLimit.thy ===== *)
theory McpRateLimit
  imports Complex_Main SdqpPrelude
begin

text \<open>
  The token buckets of \<open>sdqp-mcp-gateway\<close>, \<open>rate_limit.rs\<close>.  An \<open>Instant\<close> is a number of
  nanoseconds and a call takes the clock as an argument; the code's \<open>f64\<close> tokens are rational
  numbers here, so its rounding is left out.  The lock cannot be poisoned, since nothing panics
  under it.
\<close>

subsection \<open>Buckets\<close>

record rate_limits =
  al_per_minute :: nat
  al_per_hour :: nat

definition rate_limits_default :: rate_limits where
  "rate_limits_default = \<lparr>al_per_minute = 60, al_per_hour = 1000\<rparr>"

record bucket_config =
  bc_capacity :: nat
  bc_refill_per_second :: rat

definition per_period :: "nat \<Rightarrow> rat \<Rightarrow> bucket_config" where
  "per_period capacity seconds =
     \<lparr>bc_capacity = capacity,
      bc_refill_per_second = (if seconds = 0 then 0 else of_nat capacity / seconds)\<rparr>"

record rate_decision =
  rd_allowed :: bool
  rd_remaining :: nat
  rd_retry_after :: "rat option"

record token_bucket =
  tb_config :: bucket_config
  tb_available :: rat
  tb_last_refill :: time

definition bucket_new :: "time \<Rightarrow> bucket_config \<Rightarrow> token_bucket" where
  "bucket_new now c = \<lparr>tb_config = c, tb_available = of_nat (bc_capacity c), tb_last_refill = now\<rparr>"

definition elapsed_seconds :: "time \<Rightarrow> time \<Rightarrow> rat" where
  "elapsed_seconds now since = of_int (max 0 (now - since)) / 1000000000"

definition refilled :: "time \<Rightarrow> token_bucket \<Rightarrow> rat" where
  "refilled now b =
     min (tb_available b + elapsed_seconds now (tb_last_refill b) * bc_refill_per_second (tb_config b))
       (of_nat (bc_capacity (tb_config b)))"

definition bucket_consume :: "time \<Rightarrow> token_bucket \<Rightarrow> token_bucket \<times> rate_decision" where
  "bucket_consume now b =
     (let available = refilled now b; refill = bc_refill_per_second (tb_config b) in
      if 1 \<le> available then
        (b\<lparr>tb_available := available - 1, tb_last_refill := now\<rparr>,
         \<lparr>rd_allowed = True, rd_remaining = nat \<lfloor>available - 1\<rfloor>, rd_retry_after = None\<rparr>)
      else
        (b\<lparr>tb_available := available, tb_last_refill := now\<rparr>,
         \<lparr>rd_allowed = False, rd_remaining = 0,
          rd_retry_after = Some (if 0 < refill then (1 - available) / refill else 3600)\<rparr>))"

subsection \<open>The limiter\<close>

type_synonym limiter = "(string \<times> token_bucket) list"

definition consume_bucket :: "time \<Rightarrow> limiter \<Rightarrow> string \<Rightarrow> bucket_config \<Rightarrow> limiter \<times> rate_decision" where
  "consume_bucket now lm key c =
     (let (b, d) = bucket_consume now (case map_of lm key of Some b \<Rightarrow> b | None \<Rightarrow> bucket_new now c) in
      (AList.update key b lm, d))"

definition later_retry :: "rat option \<Rightarrow> rat option \<Rightarrow> rat option" where
  "later_retry a b =
     (case a of None \<Rightarrow> b | Some x \<Rightarrow> (case b of None \<Rightarrow> Some x | Some y \<Rightarrow> Some (max x y)))"

definition minute_key :: "string \<Rightarrow> string \<Rightarrow> string" where
  "minute_key agent tool = agent @ '':'' @ tool @ '':minute''"

definition hour_key :: "string \<Rightarrow> string \<Rightarrow> string" where
  "hour_key agent tool = agent @ '':'' @ tool @ '':hour''"

definition limiter_check ::
  "time \<Rightarrow> limiter \<Rightarrow> string \<Rightarrow> string \<Rightarrow> rate_limits \<Rightarrow> limiter \<times> rate_decision" where
  "limiter_check now lm agent tool limits =
     (let (lm1, minute) = consume_bucket now lm (minute_key agent tool) (per_period (al_per_minute limits) 60);
          (lm2, hour) = consume_bucket now lm1 (hour_key agent tool) (per_period (al_per_hour limits) 3600) in
      (lm2,
       if rd_allowed minute \<and> rd_allowed hour
       then \<lparr>rd_allowed = True, rd_remaining = min (rd_remaining minute) (rd_remaining hour), rd_retry_after = None\<rparr>
       else \<lparr>rd_allowed = False, rd_remaining = 0,
             rd_retry_after = later_retry (rd_retry_after minute) (rd_retry_after hour)\<rparr>))"

subsection \<open>What a bucket lets through\<close>

definition bucket_ok :: "bucket_config \<Rightarrow> time \<Rightarrow> token_bucket \<Rightarrow> bool" where
  "bucket_ok c now b = (tb_config b = c \<and> 0 \<le> tb_available b \<and> tb_last_refill b \<le> now)"

definition limiter_ok :: "string \<Rightarrow> bucket_config \<Rightarrow> time \<Rightarrow> limiter \<Rightarrow> bool" where
  "limiter_ok k c now lm = (case map_of lm k of None \<Rightarrow> True | Some b \<Rightarrow> bucket_ok c now b)"

text \<open>The tokens a call at a time would find.\<close>

definition level :: "string \<Rightarrow> bucket_config \<Rightarrow> time \<Rightarrow> limiter \<Rightarrow> rat" where
  "level k c now lm = (case map_of lm k of None \<Rightarrow> of_nat (bc_capacity c) | Some b \<Rightarrow> refilled now b)"

lemma elapsed_nonneg [simp]: "0 \<le> elapsed_seconds a b" "elapsed_seconds a a = 0"
  by (simp_all add: elapsed_seconds_def)

lemma elapsed_split:
  assumes "a \<le> b" "b \<le> c"
  shows "elapsed_seconds c a = elapsed_seconds b a + elapsed_seconds c b"
proof -
  have "max 0 (c - a) = max 0 (b - a) + max 0 (c - b)" using assms by simp
  then show ?thesis by (simp add: elapsed_seconds_def add_divide_distrib)
qed

lemma refilled_nonneg:
  assumes "bucket_ok c now b" "0 \<le> bc_refill_per_second c"
  shows "0 \<le> refilled now b \<and> refilled now b \<le> of_nat (bc_capacity c)"
proof -
  have "0 \<le> elapsed_seconds now (tb_last_refill b) * bc_refill_per_second c"
    by (rule mult_nonneg_nonneg) (use assms in simp_all)
  then have "0 \<le> tb_available b + elapsed_seconds now (tb_last_refill b) * bc_refill_per_second c"
    by (rule add_nonneg_nonneg [rotated]) (use assms in \<open>simp add: bucket_ok_def\<close>)
  then show ?thesis using assms(1) by (simp add: refilled_def bucket_ok_def)
qed

lemma refilled_later:
  assumes ok: "bucket_ok c since b" and r: "0 \<le> bc_refill_per_second c" and t: "since \<le> now"
  shows "refilled now b \<le> refilled since b + elapsed_seconds now since * bc_refill_per_second c"
proof -
  have "elapsed_seconds now (tb_last_refill b) = elapsed_seconds since (tb_last_refill b) + elapsed_seconds now since"
    by (rule elapsed_split) (use ok t in \<open>simp_all add: bucket_ok_def\<close>)
  then have "refilled now b = min ((tb_available b + elapsed_seconds since (tb_last_refill b) * bc_refill_per_second c)
      + elapsed_seconds now since * bc_refill_per_second c) (of_nat (bc_capacity c))"
    using ok by (simp only: refilled_def bucket_ok_def distrib_right add.assoc)
  also have "\<dots> \<le> min (tb_available b + elapsed_seconds since (tb_last_refill b) * bc_refill_per_second c)
      (of_nat (bc_capacity c)) + elapsed_seconds now since * bc_refill_per_second c"
    using mult_nonneg_nonneg [OF elapsed_nonneg(1) r, of now since] by (simp only: min_def split: if_split) linarith
  finally show ?thesis using ok by (simp only: refilled_def bucket_ok_def)
qed

lemma level_bounds:
  assumes "limiter_ok k c now lm" "0 \<le> bc_refill_per_second c"
  shows "0 \<le> level k c now lm \<and> level k c now lm \<le> of_nat (bc_capacity c)"
  using assms refilled_nonneg by (auto simp: level_def limiter_ok_def split: option.splits)

lemma level_later:
  assumes "limiter_ok k c since lm" "0 \<le> bc_refill_per_second c" "since \<le> now"
  shows "level k c now lm \<le> level k c since lm + elapsed_seconds now since * bc_refill_per_second c"
  using assms refilled_later by (auto simp: level_def limiter_ok_def split: option.splits)

lemma limiter_ok_later: "limiter_ok k c since lm \<Longrightarrow> since \<le> now \<Longrightarrow> limiter_ok k c now lm"
  by (auto simp: limiter_ok_def bucket_ok_def split: option.splits)

lemma bucket_consume_level:
  assumes ok: "bucket_ok c now b" and r: "0 \<le> bc_refill_per_second c" and run: "bucket_consume now b = (b', d)"
  shows "bucket_ok c now b' \<and> (if rd_allowed d then 1 else 0) + refilled now b' = refilled now b"
proof -
  have "0 \<le> refilled now b" "refilled now b \<le> of_nat (bc_capacity c)" using refilled_nonneg [OF ok r] by simp_all
  moreover have "refilled now (b\<lparr>tb_available := x, tb_last_refill := now\<rparr>) = min x (of_nat (bc_capacity c))" for x
    using ok by (simp add: refilled_def bucket_ok_def)
  ultimately show ?thesis
    using run ok by (auto simp: bucket_consume_def Let_def bucket_ok_def split: if_splits)
qed

lemma bucket_new_ok: "bucket_ok c now (bucket_new now c)" "refilled now (bucket_new now c) = of_nat (bc_capacity c)"
  by (simp_all add: bucket_ok_def bucket_new_def refilled_def)

lemma consume_bucket_level:
  assumes ok: "limiter_ok k c now lm" and r: "0 \<le> bc_refill_per_second c"
    and same: "key = k \<Longrightarrow> c' = c" and run: "consume_bucket now lm key c' = (lm', d)"
  shows "limiter_ok k c now lm' \<and>
    (if key = k \<and> rd_allowed d then 1 else 0) + level k c now lm' = level k c now lm"
proof (cases "key = k")
  case True
  define b where "b = (case map_of lm k of Some b \<Rightarrow> b | None \<Rightarrow> bucket_new now c)"
  have b: "bucket_ok c now b" "refilled now b = level k c now lm"
    using ok bucket_new_ok by (auto simp: b_def limiter_ok_def level_def split: option.splits)
  obtain b' where b': "bucket_consume now b = (b', d)" "lm' = AList.update k b' lm"
    using run True same by (auto simp: consume_bucket_def b_def split: prod.splits)
  with bucket_consume_level [OF b(1) r b'(1)] b(2) True show ?thesis
    by (auto simp: limiter_ok_def level_def update_conv')
next
  case False
  then have "map_of lm' k = map_of lm k"
    using run by (auto simp: consume_bucket_def update_conv' split: prod.splits)
  with False ok show ?thesis by (simp add: limiter_ok_def level_def)
qed

lemma limiter_check_level:
  assumes ok: "limiter_ok k c now lm" and r: "0 \<le> bc_refill_per_second c"
    and minute: "minute_key agent tool = k \<Longrightarrow> per_period (al_per_minute limits) 60 = c"
    and hour: "hour_key agent tool = k \<Longrightarrow> per_period (al_per_hour limits) 3600 = c"
    and run: "limiter_check now lm agent tool limits = (lm', d)"
  shows "limiter_ok k c now lm' \<and>
    (if k \<in> {minute_key agent tool, hour_key agent tool} \<and> rd_allowed d then 1 else 0) + level k c now lm'
      \<le> level k c now lm"
proof -
  obtain lm1 m where m: "consume_bucket now lm (minute_key agent tool) (per_period (al_per_minute limits) 60) = (lm1, m)"
    by fastforce
  obtain lm2 h where h: "consume_bucket now lm1 (hour_key agent tool) (per_period (al_per_hour limits) 3600) = (lm2, h)"
    by fastforce
  have "lm' = lm2" and d: "rd_allowed d \<Longrightarrow> rd_allowed m \<and> rd_allowed h"
    using run by (auto simp: limiter_check_def m h Let_def split: if_splits)
  from consume_bucket_level [OF ok r minute m]
  have ok1: "limiter_ok k c now lm1" and lm1: "(if minute_key agent tool = k \<and> rd_allowed m then 1 else 0)
      + level k c now lm1 = level k c now lm" by simp_all
  from consume_bucket_level [OF ok1 r hour h]
  have lm2: "limiter_ok k c now lm2" "(if hour_key agent tool = k \<and> rd_allowed h then 1 else 0)
      + level k c now lm2 = level k c now lm1" by simp_all
  with lm1 d \<open>lm' = lm2\<close> show ?thesis by (auto split: if_splits)
qed

text \<open>A call of the limiter.\<close>

record rate_call =
  rc_time :: time
  rc_agent :: string
  rc_tool :: string
  rc_limits :: rate_limits

fun limiter_run :: "limiter \<Rightarrow> rate_call list \<Rightarrow> limiter \<times> rate_decision list" where
  "limiter_run lm [] = (lm, [])"
| "limiter_run lm (c # cs) =
     (let (lm', d) = limiter_check (rc_time c) lm (rc_agent c) (rc_tool c) (rc_limits c);
          (lm'', ds) = limiter_run lm' cs in (lm'', d # ds))"

definition allowed_calls :: "string \<Rightarrow> string \<Rightarrow> rate_call list \<Rightarrow> rate_decision list \<Rightarrow> nat" where
  "allowed_calls agent tool cs ds =
     length (filter (\<lambda>(c, d). rc_agent c = agent \<and> rc_tool c = tool \<and> rd_allowed d) (zip cs ds))"

definition keys_of :: "rate_call \<Rightarrow> string list" where
  "keys_of c = [minute_key (rc_agent c) (rc_tool c), hour_key (rc_agent c) (rc_tool c)]"

definition config_for :: "string \<Rightarrow> rate_call \<Rightarrow> bucket_config" where
  "config_for k c =
     (if k = minute_key (rc_agent c) (rc_tool c) then per_period (al_per_minute (rc_limits c)) 60
      else per_period (al_per_hour (rc_limits c)) 3600)"

lemma keys_differ: "minute_key a t \<noteq> hour_key a t"
  by (simp add: minute_key_def hour_key_def)

fun in_time_order :: "time \<Rightarrow> rate_call list \<Rightarrow> bool" where
  "in_time_order now [] = True"
| "in_time_order now (c # cs) = (now \<le> rc_time c \<and> in_time_order (rc_time c) cs)"

lemma in_time_order_later: "in_time_order now cs \<Longrightarrow> c \<in> set cs \<Longrightarrow> now \<le> rc_time c"
  by (induction cs arbitrary: now) force+

lemma limiter_run_level:
  assumes "limiter_ok k c since lm" and "0 \<le> bc_refill_per_second c"
    and "\<forall>x \<in> set cs. k \<in> set (keys_of x) \<longrightarrow> config_for k x = c"
    and "in_time_order since cs" and "\<forall>x \<in> set cs. rc_time x \<le> till" and "since \<le> till"
    and "limiter_run lm cs = (lm', ds)"
  shows "of_nat (length (filter (\<lambda>(x, d). k \<in> set (keys_of x) \<and> rd_allowed d) (zip cs ds)))
    \<le> level k c since lm + elapsed_seconds till since * bc_refill_per_second c"
  using assms
proof (induction cs arbitrary: since lm lm' ds)
  case Nil
  with level_bounds [OF Nil(1,2)] show ?case by auto
next
  case (Cons x cs)
  let ?t = "rc_time x"
  obtain lm1 d where d: "limiter_check ?t lm (rc_agent x) (rc_tool x) (rc_limits x) = (lm1, d)" by fastforce
  obtain ds' where ds: "ds = d # ds'" and run: "limiter_run lm1 cs = (lm', ds')"
    using Cons.prems(7) d by (auto split: prod.splits)
  have t: "since \<le> ?t" "?t \<le> till" using Cons.prems by simp_all
  have ok: "limiter_ok k c ?t lm" using limiter_ok_later Cons.prems(1) t by blast
  have "k \<in> set (keys_of x) \<Longrightarrow> config_for k x = c" using Cons.prems(3) by simp
  then have confs: "minute_key (rc_agent x) (rc_tool x) = k \<Longrightarrow> per_period (al_per_minute (rc_limits x)) 60 = c"
      "hour_key (rc_agent x) (rc_tool x) = k \<Longrightarrow> per_period (al_per_hour (rc_limits x)) 3600 = c"
    using keys_differ [of "rc_agent x" "rc_tool x"] by (auto simp: keys_of_def config_for_def)
  from limiter_check_level [OF ok Cons.prems(2) confs d]
  have ok1: "limiter_ok k c ?t lm1"
    and step: "(if k \<in> set (keys_of x) \<and> rd_allowed d then 1 else 0) + level k c ?t lm1 \<le> level k c ?t lm"
    by (auto simp: keys_of_def)
  have rest: "of_nat (length (filter (\<lambda>(x, d). k \<in> set (keys_of x) \<and> rd_allowed d) (zip cs ds')))
      \<le> level k c ?t lm1 + elapsed_seconds till ?t * bc_refill_per_second c"
    using Cons.IH [OF ok1 Cons.prems(2) _ _ _ t(2) run] Cons.prems(3,4,5) by simp
  have "elapsed_seconds till since * bc_refill_per_second c =
      elapsed_seconds ?t since * bc_refill_per_second c + elapsed_seconds till ?t * bc_refill_per_second c"
    using elapsed_split [OF t] by (simp add: algebra_simps)
  then show ?case
    using step rest level_later [OF Cons.prems(1,2) t(1)] by (auto simp: ds)
qed

lemma limiter_run_ok:
  assumes "limiter_ok k c since lm" and "0 \<le> bc_refill_per_second c"
    and "\<forall>x \<in> set cs. k \<in> set (keys_of x) \<longrightarrow> config_for k x = c"
    and "in_time_order since cs" and "\<forall>x \<in> set cs. rc_time x \<le> till" and "since \<le> till"
    and "limiter_run lm cs = (lm', ds)"
  shows "limiter_ok k c till lm'"
  using assms
proof (induction cs arbitrary: since lm lm' ds)
  case Nil
  then show ?case using limiter_ok_later by auto
next
  case (Cons x cs)
  obtain lm1 d where d: "limiter_check (rc_time x) lm (rc_agent x) (rc_tool x) (rc_limits x) = (lm1, d)" by fastforce
  obtain ds' where run: "limiter_run lm1 cs = (lm', ds')"
    using Cons.prems(7) d by (auto split: prod.splits)
  have ok: "limiter_ok k c (rc_time x) lm" using limiter_ok_later Cons.prems(1,4) by auto
  have "k \<in> set (keys_of x) \<Longrightarrow> config_for k x = c" using Cons.prems(3) by simp
  then have "minute_key (rc_agent x) (rc_tool x) = k \<Longrightarrow> per_period (al_per_minute (rc_limits x)) 60 = c"
      "hour_key (rc_agent x) (rc_tool x) = k \<Longrightarrow> per_period (al_per_hour (rc_limits x)) 3600 = c"
    using keys_differ [of "rc_agent x" "rc_tool x"] by (auto simp: keys_of_def config_for_def)
  from limiter_check_level [OF ok Cons.prems(2) this d] have "limiter_ok k c (rc_time x) lm1" by simp
  from Cons.IH [OF this Cons.prems(2) _ _ _ _ run] Cons.prems(3,4,5) show ?case by simp
qed

lemma limiter_run_append:
  "limiter_run lm (xs @ ys) =
     (let (lm1, ds) = limiter_run lm xs; (lm2, es) = limiter_run lm1 ys in (lm2, ds @ es))"
  by (induction xs arbitrary: lm) (auto simp: Let_def split: prod.splits)

lemma limiter_run_length: "limiter_run lm cs = (lm', ds) \<Longrightarrow> length ds = length cs"
  by (induction cs arbitrary: lm ds) (auto split: prod.splits)

lemma key_parts:
  assumes "CHR '':'' \<notin> set t" "CHR '':'' \<notin> set t'" "a @ '':'' @ t @ s = a' @ '':'' @ t' @ s"
  shows "a = a' \<and> t = t'"
proof -
  have part: "takeWhile (\<lambda>x. x \<noteq> CHR '':'') (rev (b @ '':'' @ u)) = rev u" if "CHR '':'' \<notin> set u" for b u :: string
  proof -
    have "takeWhile (\<lambda>x. x \<noteq> CHR '':'') (rev u @ CHR '':'' # rev b)
        = rev u @ takeWhile (\<lambda>x. x \<noteq> CHR '':'') (CHR '':'' # rev b)"
      by (rule takeWhile_append2) (use that in auto)
    then show ?thesis by simp
  qed
  have eq: "a @ '':'' @ t = a' @ '':'' @ t'"
    using assms(3) by (metis append_assoc append_same_eq)
  then have "rev t = rev t'" using part [OF assms(1), of a] part [OF assms(2), of a'] by simp
  with eq show ?thesis by simp
qed

lemma minute_key_inj:
  "CHR '':'' \<notin> set t \<Longrightarrow> CHR '':'' \<notin> set t' \<Longrightarrow> minute_key a t = minute_key a' t' \<longleftrightarrow> a = a' \<and> t = t'"
  using key_parts [of t t' a "'':minute''" a'] by (auto simp: minute_key_def)

lemma hour_key_inj:
  "CHR '':'' \<notin> set t \<Longrightarrow> CHR '':'' \<notin> set t' \<Longrightarrow> hour_key a t = hour_key a' t' \<longleftrightarrow> a = a' \<and> t = t'"
  using key_parts [of t t' a "'':hour''" a'] by (auto simp: hour_key_def)

lemma minute_hour_differ: "minute_key a t \<noteq> hour_key a' t'"
proof
  assume "minute_key a t = hour_key a' t'"
  then have "last (minute_key a t) = last (hour_key a' t')" by simp
  then show False by (simp add: minute_key_def hour_key_def)
qed

text \<open>Calls that the limiter may see: tool names without a colon, and for one agent and tool one
  pair of limits, in the order of time.\<close>

definition steady_calls :: "string \<Rightarrow> string \<Rightarrow> rate_limits \<Rightarrow> rate_call list \<Rightarrow> bool" where
  "steady_calls agent tool limits cs =
     list_all (\<lambda>c. CHR '':'' \<notin> set (rc_tool c) \<and>
       (rc_agent c = agent \<and> rc_tool c = tool \<longrightarrow> rc_limits c = limits)) cs"

lemma window_level:
  assumes run: "limiter_run [] (past @ window) = (lm, ds)"
    and order: "in_time_order t0 past" "in_time_order since window" "t0 \<le> since" "since \<le> till"
    and times: "\<forall>x \<in> set past. rc_time x \<le> since" "\<forall>x \<in> set window. rc_time x \<le> till"
    and config: "\<forall>x \<in> set (past @ window). k \<in> set (keys_of x) \<longrightarrow> config_for k x = c"
    and refill: "0 \<le> bc_refill_per_second c"
  shows "of_nat (length (filter (\<lambda>(x, d). k \<in> set (keys_of x) \<and> rd_allowed d) (zip window (drop (length past) ds))))
    \<le> of_nat (bc_capacity c) + elapsed_seconds till since * bc_refill_per_second c"
proof -
  obtain lm1 es fs where past: "limiter_run [] past = (lm1, es)" and win: "limiter_run lm1 window = (lm, fs)"
    and ds: "ds = es @ fs"
    using run by (auto simp: limiter_run_append Let_def split: prod.splits)
  have "limiter_ok k c t0 []" by (simp add: limiter_ok_def)
  then have ok: "limiter_ok k c since lm1"
    by (rule limiter_run_ok [OF _ refill _ order(1) times(1) order(3) past]) (use config in simp)
  have "drop (length past) ds = fs" using limiter_run_length [OF past] by (simp add: ds)
  then show ?thesis
    using limiter_run_level [OF ok refill _ order(2) times(2) order(4) win] config level_bounds [OF ok refill] by auto
qed

text \<open>
  C23. However calls of all agents and tools follow each other, the calls of one agent and tool
  that are allowed within any window of time are at most the limit per minute plus what refills
  in the window, and at most the limit per hour plus what refills of that.
\<close>

theorem rate_limit_bound:
  assumes "limiter_run [] (past @ window) = (lm, ds)"
    and "in_time_order t0 past" "in_time_order since window" "t0 \<le> since" "since \<le> till"
    and "\<forall>x \<in> set past. rc_time x \<le> since" "\<forall>x \<in> set window. rc_time x \<le> till"
    and "steady_calls agent tool limits (past @ window)" and "CHR '':'' \<notin> set tool"
  shows "of_nat (allowed_calls agent tool window (drop (length past) ds))
      \<le> of_nat (al_per_minute limits) * (1 + elapsed_seconds till since / 60) \<and>
    of_nat (allowed_calls agent tool window (drop (length past) ds))
      \<le> of_nat (al_per_hour limits) * (1 + elapsed_seconds till since / 3600)"
proof -
  let ?ds = "drop (length past) ds"
  have colon: "CHR '':'' \<notin> set (rc_tool x)" if "x \<in> set (past @ window)" for x
    using assms(8) that by (auto simp: steady_calls_def list_all_iff)
  have limits: "rc_limits x = limits" if "x \<in> set (past @ window)" "rc_agent x = agent" "rc_tool x = tool" for x
    using assms(8) that by (auto simp: steady_calls_def list_all_iff)
  have hits: "allowed_calls agent tool window ?ds
      = length (filter (\<lambda>(x, d). k \<in> set (keys_of x) \<and> rd_allowed d) (zip window ?ds))"
    if "k = minute_key agent tool \<or> k = hour_key agent tool" for k
  proof -
    have "k \<in> set (keys_of x) \<longleftrightarrow> rc_agent x = agent \<and> rc_tool x = tool" if "x \<in> set window" for x
      using \<open>k = minute_key agent tool \<or> k = hour_key agent tool\<close> colon [of x] that assms(9) minute_hour_differ
      by (auto simp: keys_of_def minute_key_inj hour_key_inj minute_hour_differ [symmetric])
    then show ?thesis
      unfolding allowed_calls_def by (intro arg_cong [where f = length] filter_cong) (auto dest: set_zip_leftD)
  qed
  have minute: "config_for (minute_key agent tool) x = per_period (al_per_minute limits) 60"
    if "x \<in> set (past @ window)" "minute_key agent tool \<in> set (keys_of x)" for x
    using that limits [of x] colon [of x] assms(9) minute_hour_differ
    by (auto simp: keys_of_def config_for_def minute_key_inj)
  have hour: "config_for (hour_key agent tool) x = per_period (al_per_hour limits) 3600"
    if "x \<in> set (past @ window)" "hour_key agent tool \<in> set (keys_of x)" for x
    using that limits [of x] colon [of x] assms(9) minute_hour_differ
    by (auto simp: keys_of_def config_for_def hour_key_inj minute_hour_differ [symmetric])
  have "of_nat (allowed_calls agent tool window ?ds) \<le> of_nat (al_per_minute limits)
      + elapsed_seconds till since * (of_nat (al_per_minute limits) / 60)"
    using window_level [OF assms(1-7), of "minute_key agent tool" "per_period (al_per_minute limits) 60"] minute
      hits [of "minute_key agent tool"]
    by (simp add: per_period_def)
  moreover have "of_nat (allowed_calls agent tool window ?ds) \<le> of_nat (al_per_hour limits)
      + elapsed_seconds till since * (of_nat (al_per_hour limits) / 3600)"
    using window_level [OF assms(1-7), of "hour_key agent tool" "per_period (al_per_hour limits) 3600"] hour
      hits [of "hour_key agent tool"]
    by (simp add: per_period_def)
  ultimately show ?thesis by (simp add: algebra_simps)
qed

definition sample_call :: "time \<Rightarrow> nat \<Rightarrow> nat \<Rightarrow> rate_call" where
  "sample_call t m h =
     \<lparr>rc_time = t, rc_agent = ''a'', rc_tool = ''q'', rc_limits = \<lparr>al_per_minute = m, al_per_hour = h\<rparr>\<rparr>"

lemma rate_limit_bound_witness:
  "of_nat (allowed_calls ''a'' ''q'' [sample_call 0 1 2, sample_call 1 1 2]
      (snd (limiter_run [] [sample_call 0 1 2, sample_call 1 1 2]))) \<le> (2 :: rat)"
proof -
  let ?cs = "[sample_call 0 1 2, sample_call 1 1 2]"
  have "of_nat (allowed_calls ''a'' ''q'' ?cs (drop (length []) (snd (limiter_run [] ([] @ ?cs)))))
      \<le> of_nat (al_per_minute \<lparr>al_per_minute = 1, al_per_hour = 2\<rparr>) * (1 + elapsed_seconds 1000000000 0 / 60 :: rat)"
    using rate_limit_bound [of "[]" ?cs "fst (limiter_run [] ?cs)" "snd (limiter_run [] ?cs)" 0 0 1000000000
        "''a''" "''q''" "\<lparr>al_per_minute = 1, al_per_hour = 2\<rparr>"]
    by (simp add: steady_calls_def sample_call_def)
  then show ?thesis by (simp add: elapsed_seconds_def)
qed

text \<open>
  Both buckets are charged before either is looked at: a call the minute refuses still costs a
  token of the hour, so an impatient agent loses calls the hour would have granted.
\<close>

lemma denied_call_spends_hour_budget:
  assumes run: "limiter_check now lm agent tool limits = (lm', d)"
    and m: "limiter_ok (minute_key agent tool) (per_period (al_per_minute limits) 60) now lm"
    and h: "limiter_ok (hour_key agent tool) (per_period (al_per_hour limits) 3600) now lm"
    and low: "level (minute_key agent tool) (per_period (al_per_minute limits) 60) now lm < 1"
    and full: "1 \<le> level (hour_key agent tool) (per_period (al_per_hour limits) 3600) now lm"
  shows "\<not> rd_allowed d \<and>
    level (hour_key agent tool) (per_period (al_per_hour limits) 3600) now lm'
      = level (hour_key agent tool) (per_period (al_per_hour limits) 3600) now lm - 1"
proof -
  let ?mc = "per_period (al_per_minute limits) 60" and ?hc = "per_period (al_per_hour limits) 3600"
  let ?mk = "minute_key agent tool" and ?hk = "hour_key agent tool"
  have r: "0 \<le> bc_refill_per_second ?mc" "0 \<le> bc_refill_per_second ?hc" by (simp_all add: per_period_def)
  obtain lm1 dm where dm: "consume_bucket now lm ?mk ?mc = (lm1, dm)" by fastforce
  obtain lm2 dh where dh: "consume_bucket now lm1 ?hk ?hc = (lm2, dh)" by fastforce
  from consume_bucket_level [OF m r(1) _ dm] level_bounds [OF _ r(1), of ?mk now lm1] low
  have no: "\<not> rd_allowed dm" by (auto split: if_splits)
  from consume_bucket_level [OF h r(2) _ dm] minute_hour_differ
  have h1: "limiter_ok ?hk ?hc now lm1" "level ?hk ?hc now lm1 = level ?hk ?hc now lm" by auto
  have "rd_allowed dh"
  proof -
    define b where "b = (case map_of lm1 ?hk of Some b \<Rightarrow> b | None \<Rightarrow> bucket_new now ?hc)"
    have "refilled now b = level ?hk ?hc now lm1"
      using bucket_new_ok by (auto simp: b_def level_def split: option.splits)
    moreover obtain b' where "bucket_consume now b = (b', dh)"
      using dh by (auto simp: consume_bucket_def b_def split: prod.splits)
    ultimately show ?thesis using full h1(2) by (auto simp: bucket_consume_def Let_def split: if_splits)
  qed
  with consume_bucket_level [OF h1(1) r(2) _ dh] h1(2) have "level ?hk ?hc now lm2 = level ?hk ?hc now lm - 1"
    by simp
  moreover have "lm' = lm2" "\<not> rd_allowed d"
    using run no by (auto simp: limiter_check_def dm dh Let_def split: if_splits)
  ultimately show ?thesis by simp
qed

text \<open>The limits of a call are read when its buckets are made and never again.\<close>

lemma changed_limits_ignored:
  assumes "map_of lm (minute_key agent tool) = Some b" "map_of lm (hour_key agent tool) = Some b'"
  shows "limiter_check now lm agent tool limits = limiter_check now lm agent tool limits'"
proof -
  obtain lm1 d where c: "consume_bucket now lm (minute_key agent tool) (per_period (al_per_minute limits) 60) = (lm1, d)"
    by fastforce
  then have "consume_bucket now lm (minute_key agent tool) (per_period (al_per_minute limits') 60) = (lm1, d)"
    using assms(1) by (simp add: consume_bucket_def)
  moreover have "map_of lm1 (hour_key agent tool) = Some b'"
    using c assms minute_hour_differ [of agent tool agent tool, symmetric]
    by (auto simp: consume_bucket_def update_conv' split: prod.splits)
  then have "consume_bucket now lm1 (hour_key agent tool) (per_period (al_per_hour limits') 3600)
      = consume_bucket now lm1 (hour_key agent tool) (per_period (al_per_hour limits) 3600)"
    by (simp add: consume_bucket_def)
  ultimately show ?thesis using c by (simp add: limiter_check_def)
qed

end
