(* ===== verification/McpGateway.thy ===== *)
theory McpGateway
  imports QueryGuard GrantLifecycle AuditChain JsonValue McpRateLimit
begin

text \<open>
  The gateway for agents, \<open>sdqp-mcp-gateway\<close>: the registry of agents, authentication, the four
  tools, the signed watermark and the discovery methods.  A set of tools, roles or users is a
  list.  SHA-256, hexadecimal, base64, JSON text, the query executor, the clock and identifiers are
  arguments.
\<close>

subsection \<open>Errors and tools\<close>

datatype mcp_error =
    McpAuthentication string | McpForbiddenUser string | McpForbiddenTool string | McpRateLimited
  | McpInvalidRequest string | McpPermissionDenied string | McpAuditorRoleRequired
  | McpBackend string | McpSerialization string

datatype mcp_tool = SdqpQuery | SdqpRequestPermission | SdqpListGrants | SdqpQueryAudit

fun mcp_tool_str :: "mcp_tool \<Rightarrow> string" where
  "mcp_tool_str SdqpQuery = ''sdqp_query''"
| "mcp_tool_str SdqpRequestPermission = ''sdqp_request_permission''"
| "mcp_tool_str SdqpListGrants = ''sdqp_list_grants''"
| "mcp_tool_str SdqpQueryAudit = ''sdqp_query_audit''"

definition mcp_tool_parse :: "string \<Rightarrow> mcp_tool option" where
  "mcp_tool_parse v =
     (let t = trim v in
      if t = ''sdqp_query'' then Some SdqpQuery
      else if t = ''sdqp_request_permission'' then Some SdqpRequestPermission
      else if t = ''sdqp_list_grants'' then Some SdqpListGrants
      else if t = ''sdqp_query_audit'' then Some SdqpQueryAudit
      else None)"

record mcp_env =
  mc_digest :: "string \<Rightarrow> string"
  mc_hex :: "string \<Rightarrow> string"
  mc_encode :: "string \<Rightarrow> string"
  mc_decode :: "string \<Rightarrow> string + string"

subsection \<open>Agents\<close>

datatype agent_user_scope = AnyUser | OnlyUsers "string list"

fun scope_allows :: "agent_user_scope \<Rightarrow> string \<Rightarrow> bool" where
  "scope_allows AnyUser u = True"
| "scope_allows (OnlyUsers us) u = (u \<in> set us)"

record agent_registration =
  ar_agent_id :: string
  ar_api_key_sha256 :: string
  ar_allowed_users :: agent_user_scope
  ar_allowed_tools :: "mcp_tool list"
  ar_rate_limits :: rate_limits
  ar_mtls_subject :: "string option"
  ar_roles :: "string list"

definition hash_api_key :: "mcp_env \<Rightarrow> string \<Rightarrow> string" where
  "hash_api_key env key = mc_hex env (mc_digest env key)"

definition agent_from_api_key ::
  "mcp_env \<Rightarrow> string \<Rightarrow> string \<Rightarrow> agent_user_scope \<Rightarrow> mcp_tool list \<Rightarrow> agent_registration" where
  "agent_from_api_key env aid key users tools =
     \<lparr>ar_agent_id = aid, ar_api_key_sha256 = hash_api_key env key, ar_allowed_users = users,
      ar_allowed_tools = tools, ar_rate_limits = rate_limits_default, ar_mtls_subject = None, ar_roles = []\<rparr>"

definition verify_api_key :: "mcp_env \<Rightarrow> agent_registration \<Rightarrow> string \<Rightarrow> bool" where
  "verify_api_key env a key = (ar_api_key_sha256 a = hash_api_key env key)"

type_synonym agent_registry = "(string \<times> agent_registration) list"

definition agent_register :: "agent_registry \<Rightarrow> agent_registration \<Rightarrow> agent_registry" where
  "agent_register reg a = AList.update (ar_agent_id a) a reg"

definition authenticate_api_key ::
  "mcp_env \<Rightarrow> agent_registry \<Rightarrow> string \<Rightarrow> string \<Rightarrow> mcp_error + agent_registration" where
  "authenticate_api_key env reg aid key =
     (case map_of reg aid of
        None \<Rightarrow> Inl (McpAuthentication ''unknown agent'')
      | Some a \<Rightarrow> if \<not> verify_api_key env a key then Inl (McpAuthentication ''invalid api key'') else Inr a)"

subsection \<open>Authentication\<close>

record mcp_auth_request =
  rq_agent_id :: string
  rq_api_key :: string
  rq_delegated_user_id :: string
  rq_mcp_session_id :: string
  rq_client_certificate_subject :: "string option"

record mcp_principal =
  mp_agent_id :: string
  mp_delegated_user_id :: string
  mp_mcp_session_id :: string
  mp_allowed_tools :: "mcp_tool list"
  mp_roles :: "string list"
  mp_client_certificate_subject :: "string option"

definition check_mtls :: "bool \<Rightarrow> agent_registration \<Rightarrow> mcp_auth_request \<Rightarrow> mcp_error + unit" where
  "check_mtls require_mtls a rq =
     (if require_mtls \<or> ar_mtls_subject a \<noteq> None then
        (case rq_client_certificate_subject rq of
           None \<Rightarrow> Inl (McpAuthentication ''mTLS client certificate required'')
         | Some subject \<Rightarrow>
             (case ar_mtls_subject a of
                Some expected \<Rightarrow>
                  if expected \<noteq> subject then Inl (McpAuthentication ''mTLS client subject mismatch'') else Inr ()
              | None \<Rightarrow> Inr ()))
      else Inr ())"

definition mcp_authenticate ::
  "mcp_env \<Rightarrow> agent_registry \<Rightarrow> bool \<Rightarrow> mcp_auth_request \<Rightarrow> mcp_error + mcp_principal" where
  "mcp_authenticate env reg require_mtls rq =
     res_bind (authenticate_api_key env reg (rq_agent_id rq) (rq_api_key rq)) (\<lambda>a.
       if \<not> scope_allows (ar_allowed_users a) (rq_delegated_user_id rq)
       then Inl (McpForbiddenUser (rq_delegated_user_id rq))
       else res_bind (check_mtls require_mtls a rq) (\<lambda>_.
         Inr \<lparr>mp_agent_id = ar_agent_id a, mp_delegated_user_id = rq_delegated_user_id rq,
              mp_mcp_session_id = rq_mcp_session_id rq, mp_allowed_tools = ar_allowed_tools a,
              mp_roles = ar_roles a, mp_client_certificate_subject = rq_client_certificate_subject rq\<rparr>))"

subsection \<open>The watermark\<close>

record mcp_watermark_payload =
  mw_tenant_id :: string
  mw_project_id :: string
  mw_user_id :: string
  mw_sequence_number :: nat
  mw_issued_at :: time
  mw_snapshot_id :: "string option"
  mw_agent_id :: string
  mw_tool_name :: string
  mw_mcp_session_id :: string

record mcp_watermark =
  me_payload :: mcp_watermark_payload
  me_token :: string
  me_overlay_text :: string

text \<open>How the payload is written as JSON and read back.\<close>

record payload_json =
  pj_print :: "mcp_watermark_payload \<Rightarrow> string + string"
  pj_parse :: "string \<Rightarrow> string + mcp_watermark_payload"

definition encode_mcp_payload :: "mcp_env \<Rightarrow> payload_json \<Rightarrow> mcp_watermark_payload \<Rightarrow> mcp_error + string" where
  "encode_mcp_payload env js p =
     res_bind (map_err McpSerialization (pj_print js p)) (\<lambda>bytes.
       Inr (mc_encode env bytes @ ''.'' @ mc_hex env (mc_digest env bytes)))"

definition decode_mcp_payload :: "mcp_env \<Rightarrow> payload_json \<Rightarrow> string \<Rightarrow> mcp_error + mcp_watermark_payload" where
  "decode_mcp_payload env js token =
     res_bind (res_of_option (McpInvalidRequest ''invalid watermark token'') (split_once (CHR ''.'') token))
       (\<lambda>(encoded, expected).
     res_bind (map_err McpSerialization (mc_decode env encoded)) (\<lambda>bytes.
       if mc_hex env (mc_digest env bytes) \<noteq> expected then Inl (McpInvalidRequest ''watermark digest mismatch'')
       else map_err McpSerialization (pj_parse js bytes)))"

definition build_mcp_watermark ::
  "mcp_env \<Rightarrow> payload_json \<Rightarrow> time \<Rightarrow> string \<Rightarrow> string \<Rightarrow> string \<Rightarrow> nat \<Rightarrow> string option \<Rightarrow> string \<Rightarrow> mcp_tool \<Rightarrow> string
     \<Rightarrow> mcp_error + mcp_watermark" where
  "build_mcp_watermark env js now tenant project user sequence snapshot agent tool session =
     (let p = \<lparr>mw_tenant_id = tenant, mw_project_id = project, mw_user_id = user,
          mw_sequence_number = sequence, mw_issued_at = now, mw_snapshot_id = snapshot,
          mw_agent_id = agent, mw_tool_name = mcp_tool_str tool, mw_mcp_session_id = session\<rparr> in
      res_bind (encode_mcp_payload env js p) (\<lambda>token.
        Inr \<lparr>me_payload = p, me_token = token,
             me_overlay_text = tenant @ '' / '' @ project @ '' / '' @ user @ '' / '' @ agent @ '' / ''
               @ mcp_tool_str tool @ '' #'' @ show_nat sequence\<rparr>))"

subsection \<open>Tools\<close>

record mcp_tool_context =
  tx_tenant_id :: string
  tx_principal :: mcp_principal

definition require_tool :: "mcp_tool_context \<Rightarrow> mcp_tool \<Rightarrow> mcp_error + unit" where
  "require_tool c t =
     (if t \<in> set (mp_allowed_tools (tx_principal c)) then Inr () else Inl (McpForbiddenTool (mcp_tool_str t)))"

record query_tool_input =
  qi_project_id :: string
  qi_data_source_id :: string
  qi_fields :: "string list"
  qi_conditions :: "filter_condition list"
  qi_pagination :: "(nat \<times> string option) option"
  qi_reason :: string
  qi_sequence_number :: "nat option"

definition check_query_grant ::
  "mcp_tool_context \<Rightarrow> permission_grant \<Rightarrow> query_tool_input \<Rightarrow> mcp_error + unit" where
  "check_query_grant c g i =
     (if trim (qi_reason i) = [] then Inl (McpInvalidRequest ''query reason is required'')
      else if g_status g \<noteq> GsActive then Inl (McpPermissionDenied ''active grant required'')
      else if g_applicant_user_id g \<noteq> mp_delegated_user_id (tx_principal c)
      then Inl (McpPermissionDenied ''grant does not belong to delegated user'')
      else if g_project_id g \<noteq> qi_project_id i \<or> g_data_source_id g \<noteq> qi_data_source_id i
      then Inl (McpPermissionDenied ''grant scope does not match query'')
      else Inr ())"

fun guard_error_text :: "guard_error \<Rightarrow> string" where
  "guard_error_text InactiveGrant = ''permission grant is not active''"
| "guard_error_text (UnauthorizedField f) = ''requested field is not authorized: '' @ f"

definition guarded_tool_query ::
  "permission_grant \<Rightarrow> query_tool_input \<Rightarrow> mcp_error + unified_query" where
  "guarded_tool_query g i =
     res_bind (map_err (\<lambda>e. McpInvalidRequest (core_error_text e)) (res_map_list field_selector_new (qi_fields i))) (\<lambda>fs.
     res_bind (map_err (\<lambda>e. McpPermissionDenied (guard_error_text e)) (apply_grant_to_query g fs)) (\<lambda>q.
       let q = q\<lparr>uq_conditions := uq_conditions q @ qi_conditions i\<rparr> in
       case qi_pagination i of
         None \<Rightarrow> Inr q
       | Some (n, cursor) \<Rightarrow>
           res_bind (map_err (\<lambda>e. McpInvalidRequest (core_error_text e)) (pagination_bounded n cursor))
             (\<lambda>p. Inr (q\<lparr>uq_pagination := Some p\<rparr>))))"

record query_tool_response =
  qt_result :: query_result
  qt_watermark :: mcp_watermark

text \<open>The backend that executes the guarded query is the argument \<open>executor\<close>.\<close>

definition sdqp_query ::
  "mcp_env \<Rightarrow> payload_json \<Rightarrow> time \<Rightarrow> (string \<Rightarrow> unified_query \<Rightarrow> mcp_error + query_result)
     \<Rightarrow> mcp_tool_context \<Rightarrow> permission_grant \<Rightarrow> query_tool_input \<Rightarrow> mcp_error + query_tool_response" where
  "sdqp_query env js now executor c g i =
     res_bind (require_tool c SdqpQuery) (\<lambda>_.
     res_bind (check_query_grant c g i) (\<lambda>_.
     res_bind (guarded_tool_query g i) (\<lambda>q.
     res_bind (executor (qi_data_source_id i) q) (\<lambda>result.
     res_bind (build_mcp_watermark env js now (tx_tenant_id c) (qi_project_id i)
         (mp_delegated_user_id (tx_principal c)) (option_or (qi_sequence_number i) 1) (Some (qr_task_id result))
         (mp_agent_id (tx_principal c)) SdqpQuery (mp_mcp_session_id (tx_principal c))) (\<lambda>w.
       Inr \<lparr>qt_result = result, qt_watermark = w\<rparr>)))))"

record permission_request_input =
  pq_project_id :: string
  pq_data_source_id :: string
  pq_fields :: "string list"
  pq_conditions :: "filter_condition list"
  pq_valid_days :: int
  pq_reason :: string

record permission_request_response =
  ps_application :: permission_application
  ps_requested_lifecycle :: grant_lifecycle
  ps_requested_condition_count :: nat
  ps_reason :: string

text \<open>The registry is returned with the response; the two readings of the clock are arguments.\<close>

definition sdqp_request_permission ::
  "string \<Rightarrow> time \<Rightarrow> time \<Rightarrow> mcp_tool_context \<Rightarrow> permission_registry \<Rightarrow> permission_request_input
     \<Rightarrow> mcp_error + (permission_registry \<times> permission_request_response)" where
  "sdqp_request_permission ulid now1 now2 c reg i =
     res_bind (require_tool c SdqpRequestPermission) (\<lambda>_.
       if pq_fields i = [] then Inl (McpInvalidRequest ''permission request requires at least one field'')
       else if trim (pq_reason i) = [] then Inl (McpInvalidRequest ''permission request reason is required'')
       else if pq_valid_days i \<le> 0 then Inl (McpInvalidRequest ''valid_days must be positive'')
       else
         (let (reg', a) = submit_application ulid reg (mp_delegated_user_id (tx_principal c))
            (pq_project_id i) (pq_data_source_id i) (pq_fields i) in
          Inr (reg',
            \<lparr>ps_application = a,
             ps_requested_lifecycle =
               \<lparr>gl_valid_from = now1, gl_valid_until = now2 + days_ns (pq_valid_days i),
                gl_org_binding = \<lparr>ob_department_id = ''mcp-requested'', ob_manager_id = None\<rparr>,
                gl_status = GsPending\<rparr>,
             ps_requested_condition_count = length (pq_conditions i), ps_reason = pq_reason i\<rparr>)))"

record grant_list_input =
  gi_project_id :: "string option"
  gi_data_source_id :: "string option"
  gi_include_inactive :: bool

definition sdqp_list_grants ::
  "mcp_tool_context \<Rightarrow> permission_registry \<Rightarrow> grant_list_input \<Rightarrow> mcp_error + permission_grant list" where
  "sdqp_list_grants c reg i =
     res_bind (require_tool c SdqpListGrants) (\<lambda>_.
       let grants = list_grants reg (mp_delegated_user_id (tx_principal c)) (gi_project_id i) (gi_data_source_id i) in
       Inr (if gi_include_inactive i then grants else filter (\<lambda>g. g_status g = GsActive) grants))"

record audit_query_input =
  ai_project_id :: "string option"
  ai_actor_id :: "string option"
  ai_action_types :: "string list"
  ai_from :: time
  ai_to :: time
  ai_limit :: "nat option"

definition clamp_nat :: "nat \<Rightarrow> nat \<Rightarrow> nat \<Rightarrow> nat" where
  "clamp_nat lo hi n = (if n < lo then lo else if hi < n then hi else n)"

definition audit_filter :: "audit_query_input \<Rightarrow> action_type list \<Rightarrow> audit_event \<Rightarrow> bool" where
  "audit_filter i actions e =
     (ai_from i \<le> ev_timestamp e \<and> ev_timestamp e \<le> ai_to i \<and>
      is_none_or (\<lambda>p. tg_project_id (ev_target e) = Some p) (ai_project_id i) \<and>
      is_none_or (\<lambda>a. ac_user_id (ev_actor e) = a) (ai_actor_id i) \<and>
      (actions = [] \<or> ev_action e \<in> set actions))"

definition sdqp_query_audit ::
  "mcp_tool_context \<Rightarrow> audit_event list \<Rightarrow> audit_query_input \<Rightarrow> mcp_error + audit_event list" where
  "sdqp_query_audit c events i =
     res_bind (require_tool c SdqpQueryAudit) (\<lambda>_.
       if ''auditor'' \<notin> set (mp_roles (tx_principal c)) then Inl McpAuditorRoleRequired
       else res_bind (res_map_list (\<lambda>label. res_of_option
           (McpInvalidRequest (''unknown action type: '' @ label)) (action_parse_label label)) (ai_action_types i)) (\<lambda>actions.
         Inr (sort_key ev_timestamp
           (take (clamp_nat 1 1000 (option_or (ai_limit i) 100)) (filter (audit_filter i actions) events)))))"

subsection \<open>Discovery\<close>

record rpc_request =
  jr_jsonrpc :: string
  jr_id :: json
  jr_method :: string
  jr_params :: json

record rpc_response =
  js_jsonrpc :: string
  js_id :: json
  js_result :: "json option"
  js_error :: "json option"

record sse_event =
  sse_event_name :: string
  sse_data :: string

definition sse_format :: "sse_event \<Rightarrow> string" where
  "sse_format e = ''event: '' @ sse_event_name e @ [CHR 10] @ ''data: '' @ sse_data e @ [CHR 10, CHR 10]"

record mcp_server =
  sv_name :: string
  sv_version :: string

definition tool_descriptor :: "mcp_tool \<Rightarrow> string \<Rightarrow> json" where
  "tool_descriptor t d = JObject [(''name'', JString (mcp_tool_str t)), (''description'', JString d)]"

definition tools_manifest :: "mcp_server \<Rightarrow> json" where
  "tools_manifest s =
     JObject [(''server'', JObject [(''name'', JString (sv_name s)), (''version'', JString (sv_version s))]),
       (''tools'', JArray
         [tool_descriptor SdqpQuery ''Run a permission-guarded SDQP query'',
          tool_descriptor SdqpRequestPermission ''Request SDQP data access permission'',
          tool_descriptor SdqpListGrants ''List active SDQP grants'',
          tool_descriptor SdqpQueryAudit ''Query SDQP audit events''])]"

text \<open>The error code of an unknown method is negative, so not one of the numbers told apart.\<close>

definition handle_discovery :: "mcp_server \<Rightarrow> rpc_request \<Rightarrow> rpc_response" where
  "handle_discovery s r =
     (let result =
        (if jr_method r = ''initialize'' then
           Some (JObject [(''protocolVersion'', JString ''2024-11-05''),
             (''serverInfo'', JObject [(''name'', JString (sv_name s)), (''version'', JString (sv_version s))]),
             (''capabilities'', JObject [(''tools'', JObject [])])])
         else if jr_method r = ''tools/list'' then Some (tools_manifest s)
         else None) in
      case result of
        Some v \<Rightarrow> \<lparr>js_jsonrpc = ''2.0'', js_id = jr_id r, js_result = Some v, js_error = None\<rparr>
      | None \<Rightarrow> \<lparr>js_jsonrpc = ''2.0'', js_id = jr_id r, js_result = None,
          js_error = Some (JObject [(''code'', JOtherNumber), (''message'', JString ''method not found'')])\<rparr>)"

subsection \<open>Who is let in\<close>

lemma mcp_tool_round_trip [simp]: "mcp_tool_parse (mcp_tool_str t) = Some t"
  by (induction t) code_simp+

lemma mcp_authenticate_Inr:
  "mcp_authenticate env reg require_mtls rq = Inr p \<longleftrightarrow>
    (\<exists>a. map_of reg (rq_agent_id rq) = Some a \<and> ar_api_key_sha256 a = hash_api_key env (rq_api_key rq) \<and>
       scope_allows (ar_allowed_users a) (rq_delegated_user_id rq) \<and> check_mtls require_mtls a rq = Inr () \<and>
       p = \<lparr>mp_agent_id = ar_agent_id a, mp_delegated_user_id = rq_delegated_user_id rq,
            mp_mcp_session_id = rq_mcp_session_id rq, mp_allowed_tools = ar_allowed_tools a,
            mp_roles = ar_roles a, mp_client_certificate_subject = rq_client_certificate_subject rq\<rparr>)"
  by (auto simp: mcp_authenticate_def authenticate_api_key_def verify_api_key_def res_bind_eq_Inr
      split: option.splits if_splits)

lemma check_mtls_Inr:
  "check_mtls require_mtls a rq = Inr () \<longleftrightarrow>
    (require_mtls \<longrightarrow> rq_client_certificate_subject rq \<noteq> None) \<and>
    (ar_mtls_subject a = None \<or> rq_client_certificate_subject rq = ar_mtls_subject a)"
  by (auto simp: check_mtls_def split: option.splits)

definition registry_keyed :: "agent_registry \<Rightarrow> bool" where
  "registry_keyed reg = list_all (\<lambda>(k, a). ar_agent_id a = k) reg"

lemma agent_register_keyed: "registry_keyed reg \<Longrightarrow> registry_keyed (agent_register reg a)"
  by (induction reg) (auto simp: registry_keyed_def agent_register_def)

subsection \<open>What a tool lets through\<close>

lemma guarded_tool_query_Inr:
  assumes "guarded_tool_query g i = Inr q"
  shows "\<exists>fs q0. res_map_list field_selector_new (qi_fields i) = Inr fs \<and> apply_grant_to_query g fs = Inr q0 \<and>
    uq_fields q = fs \<and> uq_conditions q = g_conditions g @ qi_conditions i \<and>
    uq_condition_groups q = g_condition_groups g \<and>
    (case uq_pagination q of None \<Rightarrow> True | Some p \<Rightarrow> 1 \<le> page_size p \<and> page_size p \<le> max_page_size)"
proof -
  from assms obtain fs q0 where fs: "res_map_list field_selector_new (qi_fields i) = Inr fs"
    and q0: "apply_grant_to_query g fs = Inr q0"
    and q: "(case qi_pagination i of
         None \<Rightarrow> Inr (q0\<lparr>uq_conditions := uq_conditions q0 @ qi_conditions i\<rparr>)
       | Some (n, cursor) \<Rightarrow>
           res_bind (map_err (\<lambda>e. McpInvalidRequest (core_error_text e)) (pagination_bounded n cursor))
             (\<lambda>p. Inr (q0\<lparr>uq_conditions := uq_conditions q0 @ qi_conditions i, uq_pagination := Some p\<rparr>))) = Inr q"
    by (auto simp: guarded_tool_query_def res_bind_eq_Inr map_err_def Let_def split: sum.splits)
  have q0': "q0 = (unified_query_new fs)\<lparr>uq_conditions := g_conditions g, uq_condition_groups := g_condition_groups g\<rparr>"
    using q0 by (auto simp: apply_grant_to_query_def res_bind_eq_Inr split: if_splits)
  show ?thesis
    using q fs q0 by (auto simp: q0' unified_query_new_def map_err_def pagination_bounded_def
        res_bind_eq_Inr split: option.splits prod.splits sum.splits if_splits)
qed

lemma res_map_list_selectors:
  "res_map_list field_selector_new xs = Inr fs \<Longrightarrow> map fs_str fs = xs"
proof (induction xs arbitrary: fs)
  case Nil
  then show ?case by simp
next
  case (Cons x xs)
  then show ?case by (auto simp: res_bind_eq_Inr field_selector_new_def split: if_splits)
qed

text \<open>
  C22. A query tool that answers has checked everything: the tool is one of the agent's, the grant
  is active, is the delegated user's and is for the project and source of the query; what the
  executor was asked for are exactly the named fields, each authorised by the grant, under the
  conditions of the grant and, on top of them, those of the caller, in a bounded page.
\<close>

theorem query_tool_is_guarded:
  assumes "sdqp_query env js now executor c g i = Inr resp"
  shows "SdqpQuery \<in> set (mp_allowed_tools (tx_principal c)) \<and> g_status g = GsActive \<and>
    g_applicant_user_id g = mp_delegated_user_id (tx_principal c) \<and>
    g_project_id g = qi_project_id i \<and> g_data_source_id g = qi_data_source_id i \<and> trim (qi_reason i) \<noteq> [] \<and>
    (\<exists>q. executor (g_data_source_id g) q = Inr (qt_result resp) \<and> map fs_str (uq_fields q) = qi_fields i \<and>
       list_all (\<lambda>f. field_authorized g f) (qi_fields i) \<and>
       uq_conditions q = g_conditions g @ qi_conditions i \<and> uq_condition_groups q = g_condition_groups g \<and>
       (case uq_pagination q of None \<Rightarrow> True | Some p \<Rightarrow> page_size p \<le> max_page_size))"
proof -
  from assms obtain q w where tool: "require_tool c SdqpQuery = Inr ()" and grant: "check_query_grant c g i = Inr ()"
    and q: "guarded_tool_query g i = Inr q" and run: "executor (qi_data_source_id i) q = Inr (qt_result resp)"
    by (auto simp: sdqp_query_def res_bind_eq_Inr)
  obtain fs q0 where fs: "res_map_list field_selector_new (qi_fields i) = Inr fs" "apply_grant_to_query g fs = Inr q0"
    and q': "uq_fields q = fs" "uq_conditions q = g_conditions g @ qi_conditions i"
      "uq_condition_groups q = g_condition_groups g"
      "case uq_pagination q of None \<Rightarrow> True | Some p \<Rightarrow> 1 \<le> page_size p \<and> page_size p \<le> max_page_size"
    using guarded_tool_query_Inr [OF q] by blast
  have names: "map fs_str fs = qi_fields i" using res_map_list_selectors [OF fs(1)] .
  then have "list_all (\<lambda>f. field_authorized g f) (qi_fields i)"
    using fs(2) by (auto simp: apply_grant_to_query_Inr list_all_iff simp flip: names)
  moreover have "case uq_pagination q of None \<Rightarrow> True | Some p \<Rightarrow> page_size p \<le> max_page_size"
    using q'(4) by (auto split: option.splits)
  ultimately show ?thesis
    using tool grant run q'(1,2,3) names
    by (auto simp: require_tool_def check_query_grant_def split: if_splits)
qed

text \<open>
  Whatever the trail holds, an audit query is answered only for an auditor who may use the
  tool, and the answer are events of the trail within the range and filters, in the order of time,
  at most a thousand.
\<close>

lemma audit_tool_answers:
  assumes "sdqp_query_audit c events i = Inr answer"
  shows "''auditor'' \<in> set (mp_roles (tx_principal c)) \<and> SdqpQueryAudit \<in> set (mp_allowed_tools (tx_principal c)) \<and>
    sorted (map ev_timestamp answer) \<and> length answer \<le> 1000 \<and>
    (\<exists>actions. map action_parse_label (ai_action_types i) = map Some actions \<and>
       set answer \<subseteq> set (filter (audit_filter i actions) events) \<and>
       (length (filter (audit_filter i actions) events) \<le> clamp_nat 1 1000 (option_or (ai_limit i) 100) \<longrightarrow>
          mset answer = mset (filter (audit_filter i actions) events)))"
proof -
  from assms obtain actions where tool: "require_tool c SdqpQueryAudit = Inr ()" "''auditor'' \<in> set (mp_roles (tx_principal c))"
    and parsed: "list_all2 (\<lambda>l a. res_of_option (McpInvalidRequest (''unknown action type: '' @ l)) (action_parse_label l) = Inr a)
      (ai_action_types i) actions"
    and answer: "answer = sort_key ev_timestamp
        (take (clamp_nat 1 1000 (option_or (ai_limit i) 100)) (filter (audit_filter i actions) events))"
    by (auto simp: sdqp_query_audit_def res_bind_eq_Inr res_map_list_Inr split: if_splits)
  have "map action_parse_label (ai_action_types i) = map Some actions"
    using parsed by (induction rule: list_all2_induct) (auto simp: res_of_option_def split: option.splits)
  moreover have "clamp_nat 1 1000 n \<le> 1000" for n by (simp add: clamp_nat_def)
  ultimately show ?thesis
    using tool by (auto simp: answer require_tool_def min_le_iff_disj dest: in_set_takeD split: if_splits
        intro!: exI [of _ actions])
qed

text \<open>The tenant of the caller plays no part: an auditor agent reads the events of every tenant.\<close>

lemma audit_tool_ignores_tenant:
  "sdqp_query_audit (c\<lparr>tx_tenant_id := t\<rparr>) events i = sdqp_query_audit c events i"
  by (simp add: sdqp_query_audit_def require_tool_def)

subsection \<open>The token\<close>

definition token_ok :: "mcp_env \<Rightarrow> payload_json \<Rightarrow> bool" where
  "token_ok env js =
     ((\<forall>s. mc_decode env (mc_encode env s) = Inr s \<and> CHR ''.'' \<notin> set (mc_encode env s)) \<and>
      (\<forall>p s. pj_print js p = Inr s \<longrightarrow> pj_parse js s = Inr p))"

lemma split_encoded:
  assumes "CHR ''.'' \<notin> set a"
  shows "split_once (CHR ''.'') (a @ ''.'' @ b) = Some (a, b)"
  using split_once_append [OF assms, of b] by simp

lemma token_round_trip:
  assumes "token_ok env js" "encode_mcp_payload env js p = Inr token"
  shows "decode_mcp_payload env js token = Inr p"
proof -
  from assms(2) obtain s where s: "pj_print js p = Inr s"
    and t: "token = mc_encode env s @ ''.'' @ mc_hex env (mc_digest env s)"
    by (auto simp: encode_mcp_payload_def res_bind_eq_Inr map_err_def split: sum.splits)
  have enc: "mc_decode env (mc_encode env s) = Inr s" "CHR ''.'' \<notin> set (mc_encode env s)" "pj_parse js s = Inr p"
    using assms(1) s by (auto simp: token_ok_def)
  then show ?thesis
    using split_encoded [OF enc(2)] by (simp add: decode_mcp_payload_def t map_err_def)
qed

subsection \<open>Examples\<close>

definition sample_mcp_env :: mcp_env where
  "sample_mcp_env = \<lparr>mc_digest = (\<lambda>s. s), mc_hex = (\<lambda>s. ''x''), mc_encode = (\<lambda>s. ''e''), mc_decode = (\<lambda>s. Inl ''no'')\<rparr>"

definition sample_payload_json :: payload_json where
  "sample_payload_json = \<lparr>pj_print = (\<lambda>p. Inr (mw_project_id p)), pj_parse = (\<lambda>s. Inl ''no'')\<rparr>"

definition sample_agent_context :: mcp_tool_context where
  "sample_agent_context =
     \<lparr>tx_tenant_id = ''t'', tx_principal =
       \<lparr>mp_agent_id = ''agent'', mp_delegated_user_id = ''user-a'', mp_mcp_session_id = ''s'',
        mp_allowed_tools = [SdqpQuery, SdqpQueryAudit], mp_roles = [''auditor''],
        mp_client_certificate_subject = None\<rparr>\<rparr>"

definition sample_query_input :: "filter_condition list \<Rightarrow> query_tool_input" where
  "sample_query_input cs =
     \<lparr>qi_project_id = ''project-alpha'', qi_data_source_id = ''datasource-rest'', qi_fields = [''name''],
      qi_conditions = cs, qi_pagination = None, qi_reason = ''case'', qi_sequence_number = None\<rparr>"

definition names_only_grant :: permission_grant where
  "names_only_grant = sample_grant ''g'' 0 [allow_field ''name'', deny_field ''salary''] []"

text \<open>A source with one row, evaluated as the adapters evaluate it.\<close>

definition one_row_source :: "string \<Rightarrow> unified_query \<Rightarrow> mcp_error + query_result" where
  "one_row_source sid q = Inr (finalize_query_result no_floats q
     \<lparr>qr_task_id = ''task'', qr_rows = [[\<lparr>fqr_field = ''name'', fqr_value = ''Ann''\<rparr>,
        \<lparr>fqr_field = ''salary'', fqr_value = ''90''\<rparr>]], qr_status = QueryCompleted\<rparr>)"

definition rows_found :: "mcp_error + query_tool_response \<Rightarrow> bool option" where
  "rows_found r = (case r of Inl e \<Rightarrow> None | Inr resp \<Rightarrow> Some (qr_rows (qt_result resp) \<noteq> []))"

lemma query_tool_is_guarded_witness:
  "\<exists>resp. sdqp_query sample_mcp_env sample_payload_json 0 one_row_source sample_agent_context names_only_grant
       (sample_query_input []) = Inr resp \<and> g_status names_only_grant = GsActive"
proof -
  let ?run = "sdqp_query sample_mcp_env sample_payload_json 0 one_row_source sample_agent_context names_only_grant
       (sample_query_input [])"
  have "\<not> isl ?run" by code_simp
  then obtain resp where run: "?run = Inr resp" by (cases ?run) auto
  then show ?thesis using query_tool_is_guarded [OF run] by simp
qed

lemma audit_tool_answers_witness:
  "length (projr (sdqp_query_audit sample_agent_context [] \<lparr>ai_project_id = None, ai_actor_id = None,
     ai_action_types = [''query''], ai_from = 0, ai_to = 1, ai_limit = None\<rparr>)) \<le> 1000"
proof -
  let ?run = "sdqp_query_audit sample_agent_context [] \<lparr>ai_project_id = None, ai_actor_id = None,
     ai_action_types = [''query''], ai_from = 0, ai_to = 1, ai_limit = None\<rparr>"
  have "\<not> isl ?run" by code_simp
  then have "?run = Inr (projr ?run)" by (cases ?run) auto
  from audit_tool_answers [OF this] show ?thesis by simp
qed

text \<open>
  The conditions of the caller may name any field.  Under a grant that denies the salary, an
  agent asks for names only and learns from the number of rows whether the salary is the one it
  guesses.
\<close>

lemma denied_field_can_be_probed:
  "field_denied names_only_grant ''salary'' \<and> \<not> field_authorized names_only_grant ''salary'' \<and>
   rows_found (sdqp_query sample_mcp_env sample_payload_json 0 one_row_source sample_agent_context names_only_grant
     (sample_query_input [\<lparr>fc_field = ''salary'', fc_operator = OpEq, fc_value = ''90''\<rparr>])) = Some True \<and>
   rows_found (sdqp_query sample_mcp_env sample_payload_json 0 one_row_source sample_agent_context names_only_grant
     (sample_query_input [\<lparr>fc_field = ''salary'', fc_operator = OpEq, fc_value = ''80''\<rparr>])) = Some False"
  by code_simp

end
