(* ===== verification/Authentication.thy ===== *)
theory Authentication
  imports CoreModel ByteText
begin

unbundle bit_operations_syntax

text \<open>
  Sessions and multi-factor authentication of \<open>sdqp-system-security\<close>: \<open>auth/session.rs\<close>, access
  and refresh tokens, and \<open>auth/mfa.rs\<close>, registrations, challenges, one-time codes and WebAuthn
  assertions.  SHA-256, HMAC-SHA1, P-256, hexadecimal, base64 and JSON text are the fields of
  \<open>auth_env\<close>; the clock and identifiers are arguments.  A \<open>Vec<u8>\<close> is a list of 8-bit words.
  Machine integers wrap, as in a release build; a panic is \<open>None\<close>.
\<close>

type_synonym bytes = "byte list"

subsection \<open>Sessions\<close>

datatype trusted_source = LocalPassword | OidcSource | SamlSource | ScimSource

record session_binding =
  sb_ip_address :: string
  sb_device_fingerprint :: string

record session_claims =
  sc_session_id :: string
  sc_user_id :: string
  sc_tenant_id :: string
  sc_issued_at :: time
  sc_expires_at :: time
  sc_binding :: session_binding

definition is_bound_to :: "session_claims \<Rightarrow> string \<Rightarrow> string \<Rightarrow> bool" where
  "is_bound_to c ip device =
     (sb_ip_address (sc_binding c) = ip \<and> sb_device_fingerprint (sc_binding c) = device)"

definition is_expired_at :: "session_claims \<Rightarrow> time \<Rightarrow> bool" where
  "is_expired_at c now = (sc_expires_at c \<le> now)"

text \<open>\<open>SessionPolicy\<close> is its time to live, in minutes.\<close>

definition session_issue ::
  "string \<Rightarrow> time \<Rightarrow> int \<Rightarrow> request_context \<Rightarrow> session_binding \<Rightarrow> session_claims" where
  "session_issue ulid now ttl_minutes rc b =
     \<lparr>sc_session_id = ulid, sc_user_id = user_str (rc_user_id rc), sc_tenant_id = tenant_str (rc_tenant_id rc),
      sc_issued_at = now, sc_expires_at = now + minutes_ns ttl_minutes, sc_binding = b\<rparr>"

datatype auth_error = InvalidToken | InvalidSignature | InvalidPayload | RefreshTokenMismatch

record client_data =
  cd_type :: string
  cd_challenge :: string
  cd_origin :: string

record auth_env =
  ae_sha256 :: "bytes \<Rightarrow> bytes"
  ae_hmac_sha1 :: "bytes \<Rightarrow> bytes \<Rightarrow> bytes"
  ae_hex :: "bytes \<Rightarrow> string"
  ae_unhex :: "string \<Rightarrow> bytes option"
  ae_encode :: "bytes \<Rightarrow> string"
  ae_decode :: "string \<Rightarrow> bytes option"
  ae_claims_json :: "session_claims \<Rightarrow> bytes option"
  ae_claims_parse :: "bytes \<Rightarrow> session_claims option"
  ae_client_json :: "client_data \<Rightarrow> bytes option"
  ae_client_parse :: "bytes \<Rightarrow> client_data option"
  ae_signing_key :: "bytes \<Rightarrow> bytes option"
  ae_public_point :: "bytes \<Rightarrow> bytes"
  ae_sign_der :: "bytes \<Rightarrow> bytes \<Rightarrow> bytes"
  ae_point_key :: "bytes \<Rightarrow> bytes option"
  ae_der_signature :: "bytes \<Rightarrow> bytes option"
  ae_verify :: "bytes \<Rightarrow> bytes \<Rightarrow> bytes \<Rightarrow> bool"

definition jwt_header :: string where
  "jwt_header = ''{\"alg\":\"HS256\",\"typ\":\"JWT\"}''"

definition sign_token :: "auth_env \<Rightarrow> string \<Rightarrow> string \<Rightarrow> string" where
  "sign_token env payload secret = ae_encode env (ae_sha256 env (as_bytes payload @ as_bytes secret))"

definition issue_access_token :: "auth_env \<Rightarrow> session_claims \<Rightarrow> string \<Rightarrow> auth_error + string" where
  "issue_access_token env c secret =
     (let header = ae_encode env (as_bytes jwt_header) in
      res_bind (res_of_option InvalidPayload (ae_claims_json env c)) (\<lambda>p.
        let input = header @ ''.'' @ ae_encode env p in
        Inr (input @ ''.'' @ sign_token env input secret)))"

definition parse_access_token :: "auth_env \<Rightarrow> string \<Rightarrow> string \<Rightarrow> auth_error + session_claims" where
  "parse_access_token env token secret =
     (let parts = split_on (CHR ''.'') token in
      if length parts \<noteq> 3 then Inl InvalidToken
      else if sign_token env (parts ! 0 @ ''.'' @ parts ! 1) secret \<noteq> parts ! 2 then Inl InvalidSignature
      else res_bind (res_of_option InvalidPayload (ae_decode env (parts ! 1))) (\<lambda>p.
        res_of_option InvalidPayload (ae_claims_parse env p)))"

definition rotate_refresh_token :: "string \<Rightarrow> string \<Rightarrow> string \<Rightarrow> auth_error + string" where
  "rotate_refresh_token ulid current active =
     (if current \<noteq> active then Inl RefreshTokenMismatch else Inr ulid)"

definition refresh_token_fingerprint :: "auth_env \<Rightarrow> string \<Rightarrow> string" where
  "refresh_token_fingerprint env token = ae_hex env (ae_sha256 env (as_bytes token))"

subsection \<open>Registrations and challenges\<close>

datatype mfa_method = Totp | WebAuthn | Biometric

fun is_phishing_resistant :: "mfa_method \<Rightarrow> bool" where
  "is_phishing_resistant Totp = False"
| "is_phishing_resistant _ = True"

record totp_config =
  tc_issuer :: string
  tc_period_secs :: "64 word"
  tc_digits :: nat
  tc_allowed_drift_steps :: "8 word"

record webauthn_config =
  wc_rp_id :: string
  wc_origin :: string
  wc_timeout_ms :: nat
  wc_challenge_ttl_secs :: int
  wc_require_user_verification :: bool

record mfa_config =
  mf_bootstrap_seed :: string
  mf_challenge_ttl_secs :: int
  mf_totp :: totp_config
  mf_webauthn :: webauthn_config

definition totp_config_default :: totp_config where
  "totp_config_default =
     \<lparr>tc_issuer = ''SDQP'', tc_period_secs = 30, tc_digits = 6, tc_allowed_drift_steps = 1\<rparr>"

definition webauthn_config_default :: webauthn_config where
  "webauthn_config_default =
     \<lparr>wc_rp_id = ''sdqp.local'', wc_origin = ''https://sdqp.local'', wc_timeout_ms = 300000,
      wc_challenge_ttl_secs = 300, wc_require_user_verification = True\<rparr>"

definition mfa_config_default :: mfa_config where
  "mfa_config_default =
     \<lparr>mf_bootstrap_seed = ''sdqp-mfa-bootstrap-seed'', mf_challenge_ttl_secs = 300,
      mf_totp = totp_config_default, mf_webauthn = webauthn_config_default\<rparr>"

record totp_registration =
  tr_account_name :: string
  tr_secret_hex :: string
  tr_digits :: nat
  tr_period_secs :: "64 word"
  tr_allowed_drift_steps :: "8 word"

record webauthn_registration =
  wr_credential_id :: string
  wr_public_key_sec1 :: string
  wr_rp_id :: string
  wr_origin :: string
  wr_require_user_verification :: bool

datatype mfa_registration =
    TotpReg totp_registration
  | WebAuthnReg webauthn_registration
  | BiometricReg webauthn_registration

fun registration_method :: "mfa_registration \<Rightarrow> mfa_method" where
  "registration_method (TotpReg _) = Totp"
| "registration_method (WebAuthnReg _) = WebAuthn"
| "registration_method (BiometricReg _) = Biometric"

record webauthn_options =
  wo_challenge :: string
  wo_rp_id :: string
  wo_origin :: string
  wo_credential_id :: string
  wo_timeout_ms :: nat
  wo_user_verification :: string

datatype challenge_payload =
    TotpPayload string string "64 word" nat
  | WebAuthnPayload webauthn_options

record mfa_challenge =
  ch_challenge_id :: string
  ch_method :: mfa_method
  ch_issued_at :: time
  ch_expires_at :: time
  ch_reason :: "string option"
  ch_payload :: "challenge_payload option"
  ch_dev_only_code :: "string option"

record webauthn_assertion =
  wa_credential_id :: string
  wa_client_data_json :: string
  wa_authenticator_data :: string
  wa_signature :: string

record mfa_verification =
  mv_code :: "string option"
  mv_assertion :: "webauthn_assertion option"

datatype mfa_error =
    ChallengeExpired | MalformedChallenge | MissingVerificationInput | InvalidCode
  | InvalidAssertion | RegistrationMismatch

definition bootstrap_input :: "string \<Rightarrow> mfa_config \<Rightarrow> string \<Rightarrow> string \<Rightarrow> string \<Rightarrow> string" where
  "bootstrap_input kind cfg tenant user account =
     kind @ '':'' @ mf_bootstrap_seed cfg @ '':'' @ tenant @ '':'' @ user @ '':'' @ account"

definition derive_totp_secret :: "auth_env \<Rightarrow> mfa_config \<Rightarrow> string \<Rightarrow> string \<Rightarrow> string \<Rightarrow> bytes" where
  "derive_totp_secret env cfg tenant user account =
     take 20 (ae_sha256 env (as_bytes (bootstrap_input ''totp'' cfg tenant user account)))"

definition bootstrap_credential_id ::
  "auth_env \<Rightarrow> mfa_config \<Rightarrow> string \<Rightarrow> string \<Rightarrow> string \<Rightarrow> string" where
  "bootstrap_credential_id env cfg tenant user account =
     ae_encode env (ae_sha256 env (as_bytes (bootstrap_input ''credential'' cfg tenant user account)))"

text \<open>The first counter whose digest is a valid scalar; no such counter panics.\<close>

definition derive_bootstrap_signing_key ::
  "auth_env \<Rightarrow> mfa_config \<Rightarrow> string \<Rightarrow> string \<Rightarrow> string \<Rightarrow> bytes option" where
  "derive_bootstrap_signing_key env cfg tenant user account =
     find_map (\<lambda>counter.
        ae_signing_key env (ae_sha256 env (as_bytes
          (bootstrap_input ''webauthn'' cfg tenant user account @ '':'' @ show_nat counter))))
       [0..<65536]"

definition webauthn_bootstrap ::
  "auth_env \<Rightarrow> mfa_config \<Rightarrow> string \<Rightarrow> string \<Rightarrow> string \<Rightarrow> bool \<Rightarrow> webauthn_registration option" where
  "webauthn_bootstrap env cfg tenant user account verified =
     map_option (\<lambda>key.
       \<lparr>wr_credential_id = bootstrap_credential_id env cfg tenant user account,
        wr_public_key_sec1 = ae_encode env (ae_public_point env key),
        wr_rp_id = wc_rp_id (mf_webauthn cfg), wr_origin = wc_origin (mf_webauthn cfg),
        wr_require_user_verification = verified\<rparr>)
       (derive_bootstrap_signing_key env cfg tenant user account)"

fun bootstrap_registration ::
  "auth_env \<Rightarrow> mfa_config \<Rightarrow> string \<Rightarrow> string \<Rightarrow> string \<Rightarrow> mfa_method \<Rightarrow> mfa_registration option" where
  "bootstrap_registration env cfg tenant user account Totp =
     Some (TotpReg
       \<lparr>tr_account_name = account,
        tr_secret_hex = ae_hex env (derive_totp_secret env cfg tenant user account),
        tr_digits = tc_digits (mf_totp cfg), tr_period_secs = tc_period_secs (mf_totp cfg),
        tr_allowed_drift_steps = tc_allowed_drift_steps (mf_totp cfg)\<rparr>)"
| "bootstrap_registration env cfg tenant user account WebAuthn =
     map_option WebAuthnReg (webauthn_bootstrap env cfg tenant user account
       (wc_require_user_verification (mf_webauthn cfg)))"
| "bootstrap_registration env cfg tenant user account Biometric =
     map_option BiometricReg (webauthn_bootstrap env cfg tenant user account True)"

definition show_millis :: "time \<Rightarrow> string" where
  "show_millis t =
     (let m = t div 1000000 in if m < 0 then CHR ''-'' # show_nat (nat (- m)) else show_nat (nat m))"

definition webauthn_payload ::
  "auth_env \<Rightarrow> mfa_config \<Rightarrow> string \<Rightarrow> time \<Rightarrow> webauthn_registration \<Rightarrow> challenge_payload" where
  "webauthn_payload env cfg ulid expires r =
     WebAuthnPayload
       \<lparr>wo_challenge = ae_encode env (ae_sha256 env (as_bytes
          (ulid @ '':'' @ wr_credential_id r @ '':'' @ show_millis expires))),
        wo_rp_id = wr_rp_id r, wo_origin = wr_origin r, wo_credential_id = wr_credential_id r,
        wo_timeout_ms = wc_timeout_ms (mf_webauthn cfg),
        wo_user_verification = (if wr_require_user_verification r then ''required'' else ''preferred'')\<rparr>"

definition begin_challenge ::
  "auth_env \<Rightarrow> mfa_config \<Rightarrow> string \<Rightarrow> time \<Rightarrow> mfa_registration \<Rightarrow> string option \<Rightarrow> mfa_challenge" where
  "begin_challenge env cfg ulid now r reason =
     (let expires = now + seconds_ns (mf_challenge_ttl_secs cfg) in
      \<lparr>ch_challenge_id = ulid, ch_method = registration_method r, ch_issued_at = now,
       ch_expires_at = expires, ch_reason = reason,
       ch_payload = Some (case r of
           TotpReg t \<Rightarrow> TotpPayload (tc_issuer (mf_totp cfg)) (tr_account_name t) (tr_period_secs t) (tr_digits t)
         | WebAuthnReg w \<Rightarrow> webauthn_payload env cfg ulid expires w
         | BiometricReg w \<Rightarrow> webauthn_payload env cfg ulid expires w),
       ch_dev_only_code = None\<rparr>)"

subsection \<open>One-time codes\<close>

text \<open>\<open>timestamp()\<close> of a time, in seconds.\<close>

definition timestamp :: "time \<Rightarrow> 64 word" where
  "timestamp t = word_of_int (t div 1000000000)"

definition be_bytes :: "64 word \<Rightarrow> bytes" where
  "be_bytes w = map (\<lambda>i. ucast (drop_bit (8 * i) w)) (rev [0..<8])"

definition truncate_mac :: "bytes \<Rightarrow> 32 word" where
  "truncate_mac d =
     (let i = unat (d ! (length d - 1) AND 0x0F) in
      push_bit 24 (ucast (d ! i AND 0x7F)) OR push_bit 16 (ucast (d ! (i + 1)))
      OR push_bit 8 (ucast (d ! (i + 2))) OR ucast (d ! (i + 3)))"

definition otp_text :: "nat \<Rightarrow> 32 word \<Rightarrow> string" where
  "otp_text digits w =
     (let s = show_nat (unat w) in replicate (digits - length s) (CHR ''0'') @ s)"

definition otp_modulus :: "nat \<Rightarrow> 32 word" where
  "otp_modulus digits = 10 ^ digits"

definition generate_totp_code :: "auth_env \<Rightarrow> bytes \<Rightarrow> 64 word \<Rightarrow> 64 word \<Rightarrow> nat \<Rightarrow> string option" where
  "generate_totp_code env secret ts period digits =
     (if period = 0 then None
      else
        let counter = (if 0 \<le>s ts then ts else 0) div period;
            binary = truncate_mac (ae_hmac_sha1 env secret (be_bytes counter)) in
        if otp_modulus digits = 0 then None else Some (otp_text digits (binary mod otp_modulus digits)))"

fun totp_scan ::
  "auth_env \<Rightarrow> bytes \<Rightarrow> 64 word \<Rightarrow> totp_registration \<Rightarrow> string \<Rightarrow> int list \<Rightarrow> (mfa_error + unit) option" where
  "totp_scan env secret now r code [] = Some (Inl InvalidCode)"
| "totp_scan env secret now r code (offset # offsets) =
     (case generate_totp_code env secret (now + word_of_int offset * tr_period_secs r)
        (tr_period_secs r) (tr_digits r) of
        None \<Rightarrow> None
      | Some c \<Rightarrow> if c = code then Some (Inr ()) else totp_scan env secret now r code offsets)"

definition verify_totp ::
  "auth_env \<Rightarrow> time \<Rightarrow> totp_registration \<Rightarrow> string \<Rightarrow> time \<Rightarrow> (mfa_error + unit) option" where
  "verify_totp env now r code issued =
     (case ae_unhex env (tr_secret_hex r) of
        None \<Rightarrow> Some (Inl MalformedChallenge)
      | Some secret \<Rightarrow>
          let drift = uint (tr_allowed_drift_steps r);
              lower = timestamp issued - word_of_int drift * tr_period_secs r in
          if timestamp now <s lower then Some (Inl InvalidCode)
          else totp_scan env secret (timestamp now) r code [- drift..drift])"

definition bootstrap_totp_code_at ::
  "auth_env \<Rightarrow> mfa_config \<Rightarrow> string \<Rightarrow> string \<Rightarrow> string \<Rightarrow> time \<Rightarrow> string option" where
  "bootstrap_totp_code_at env cfg tenant user account at =
     generate_totp_code env (derive_totp_secret env cfg tenant user account) (timestamp at)
       (tc_period_secs (mf_totp cfg)) (tc_digits (mf_totp cfg))"

subsection \<open>Verification\<close>

definition signature_message :: "auth_env \<Rightarrow> bytes \<Rightarrow> bytes \<Rightarrow> bytes" where
  "signature_message env authenticator_data client_data_json =
     authenticator_data @ ae_sha256 env client_data_json"

definition build_authenticator_data :: "auth_env \<Rightarrow> string \<Rightarrow> bool \<Rightarrow> bytes" where
  "build_authenticator_data env rp_id verified =
     ae_sha256 env (as_bytes rp_id) @ [if verified then 0x01 OR 0x04 else 0x01] @ replicate 4 0"

definition decode_assertion_part :: "auth_env \<Rightarrow> string \<Rightarrow> mfa_error + bytes" where
  "decode_assertion_part env s = res_of_option InvalidAssertion (ae_decode env s)"

text \<open>The checks on the decoded authenticator data and client data.\<close>

definition check_client_data :: "client_data \<Rightarrow> webauthn_options \<Rightarrow> webauthn_registration \<Rightarrow> mfa_error + unit" where
  "check_client_data cd options r =
     (if cd_type cd \<noteq> ''webauthn.get'' \<or> cd_challenge cd \<noteq> wo_challenge options
         \<or> cd_origin cd \<noteq> wr_origin r
      then Inl InvalidAssertion else Inr ())"

definition check_authenticator_data :: "auth_env \<Rightarrow> bytes \<Rightarrow> webauthn_registration \<Rightarrow> mfa_error + unit" where
  "check_authenticator_data env data r =
     (if length data < 37 then Inl InvalidAssertion
      else if take 32 data \<noteq> ae_sha256 env (as_bytes (wr_rp_id r)) then Inl InvalidAssertion
      else if data ! 32 AND 0x01 = 0 then Inl InvalidAssertion
      else if wr_require_user_verification r \<and> data ! 32 AND 0x04 = 0 then Inl InvalidAssertion
      else Inr ())"

definition verify_webauthn ::
  "auth_env \<Rightarrow> webauthn_registration \<Rightarrow> mfa_challenge \<Rightarrow> webauthn_assertion \<Rightarrow> mfa_error + unit" where
  "verify_webauthn env r ch a =
     (case ch_payload ch of
        Some (WebAuthnPayload options) \<Rightarrow>
          if wa_credential_id a \<noteq> wr_credential_id r then Inl InvalidAssertion
          else
            res_bind (decode_assertion_part env (wa_client_data_json a)) (\<lambda>client.
            res_bind (decode_assertion_part env (wa_authenticator_data a)) (\<lambda>data.
            res_bind (decode_assertion_part env (wa_signature a)) (\<lambda>sig_bytes.
            res_bind (res_of_option InvalidAssertion (ae_der_signature env sig_bytes)) (\<lambda>signature.
            res_bind (res_of_option InvalidAssertion (ae_client_parse env client)) (\<lambda>cd.
            res_bind (check_client_data cd options r) (\<lambda>_.
            res_bind (check_authenticator_data env data r) (\<lambda>_.
            res_bind (decode_assertion_part env (wr_public_key_sec1 r)) (\<lambda>point.
            res_bind (res_of_option InvalidAssertion (ae_point_key env point)) (\<lambda>key.
              if ae_verify env key (signature_message env data client) signature
              then Inr () else Inl InvalidAssertion)))))))))
      | _ \<Rightarrow> Inl MalformedChallenge)"

definition verify_challenge ::
  "auth_env \<Rightarrow> time \<Rightarrow> mfa_registration \<Rightarrow> mfa_challenge \<Rightarrow> mfa_verification \<Rightarrow> (mfa_error + unit) option" where
  "verify_challenge env now r ch v =
     (if ch_expires_at ch < now then Some (Inl ChallengeExpired)
      else if registration_method r \<noteq> ch_method ch then Some (Inl RegistrationMismatch)
      else
        let webauthn = \<lambda>w. (case mv_assertion v of
              None \<Rightarrow> Inl MissingVerificationInput | Some a \<Rightarrow> verify_webauthn env w ch a) in
        case r of
          TotpReg t \<Rightarrow> (case mv_code v of
              None \<Rightarrow> Some (Inl MissingVerificationInput)
            | Some code \<Rightarrow> verify_totp env now t code (ch_issued_at ch))
        | WebAuthnReg w \<Rightarrow> Some (webauthn w)
        | BiometricReg w \<Rightarrow> Some (webauthn w))"

definition bootstrap_webauthn_assertion ::
  "auth_env \<Rightarrow> mfa_config \<Rightarrow> string \<Rightarrow> string \<Rightarrow> string \<Rightarrow> mfa_challenge
     \<Rightarrow> (mfa_error + webauthn_assertion) option" where
  "bootstrap_webauthn_assertion env cfg tenant user account ch =
     (case ch_payload ch of
        Some (WebAuthnPayload options) \<Rightarrow>
          let data = build_authenticator_data env (wo_rp_id options) (wo_user_verification options = ''required'') in
          (case ae_client_json env
              \<lparr>cd_type = ''webauthn.get'', cd_challenge = wo_challenge options, cd_origin = wo_origin options\<rparr> of
             None \<Rightarrow> Some (Inl MalformedChallenge)
           | Some client \<Rightarrow>
               (case derive_bootstrap_signing_key env cfg tenant user account of
                  None \<Rightarrow> None
                | Some key \<Rightarrow> Some (Inr
                    \<lparr>wa_credential_id = bootstrap_credential_id env cfg tenant user account,
                     wa_client_data_json = ae_encode env client,
                     wa_authenticator_data = ae_encode env data,
                     wa_signature = ae_encode env (ae_sign_der env key (signature_message env data client))\<rparr>)))
      | _ \<Rightarrow> Some (Inl MalformedChallenge))"

subsection \<open>The service for development\<close>

fun mock_code :: "mfa_method \<Rightarrow> string" where
  "mock_code Totp = ''000000''"
| "mock_code WebAuthn = ''webauthn-ok''"
| "mock_code Biometric = ''biometric-ok''"

definition mock_begin_challenge :: "string \<Rightarrow> time \<Rightarrow> mfa_method \<Rightarrow> mfa_challenge" where
  "mock_begin_challenge ulid now m =
     \<lparr>ch_challenge_id = ulid, ch_method = m, ch_issued_at = now, ch_expires_at = now + minutes_ns 5,
      ch_reason = None, ch_payload = None, ch_dev_only_code = Some (mock_code m)\<rparr>"

definition mock_verify_challenge :: "time \<Rightarrow> mfa_challenge \<Rightarrow> string \<Rightarrow> bool" where
  "mock_verify_challenge now ch code =
     (if ch_expires_at ch < now then False
      else (case ch_dev_only_code ch of
              None \<Rightarrow> False
            | Some expected \<Rightarrow> code = expected \<or> code = ''000000''))"

lemma mock_service_has_a_master_code:
  "mock_verify_challenge now (mock_begin_challenge ulid now m) ''000000''"
  by (simp add: mock_verify_challenge_def mock_begin_challenge_def minutes_ns_def)

subsection \<open>Access tokens\<close>

text \<open>What the tokens rely on: base64 without padding is decoded back and has no dot, JSON is parsed back.\<close>

definition token_codec_ok :: "auth_env \<Rightarrow> bool" where
  "token_codec_ok env =
     ((\<forall>b. ae_decode env (ae_encode env b) = Some b \<and> CHR ''.'' \<notin> set (ae_encode env b)) \<and>
      (\<forall>c p. ae_claims_json env c = Some p \<longrightarrow> ae_claims_parse env p = Some c))"

lemma split_three:
  assumes "CHR ''.'' \<notin> set a" "CHR ''.'' \<notin> set b" "CHR ''.'' \<notin> set c"
  shows "split_on (CHR ''.'') (a @ ''.'' @ b @ ''.'' @ c) = [a, b, c]"
  using assms split_on_append [of "CHR ''.''" a] split_on_append [of "CHR ''.''" b]
    split_on_no_sep [of "CHR ''.''" c]
  by simp

lemma signed_token_parses:
  assumes "token_codec_ok env" "ae_claims_json env c = Some p" "CHR ''.'' \<notin> set header"
  shows "parse_access_token env
    (header @ ''.'' @ ae_encode env p @ ''.'' @ sign_token env (header @ ''.'' @ ae_encode env p) secret) secret = Inr c"
  using assms split_three [of header "ae_encode env p" "sign_token env (header @ ''.'' @ ae_encode env p) secret"]
  by (simp add: parse_access_token_def token_codec_ok_def sign_token_def)

lemma parse_access_token_Inr:
  assumes "parse_access_token env token secret = Inr c"
  obtains h b where "token = h @ ''.'' @ b @ ''.'' @ sign_token env (h @ ''.'' @ b) secret"
    "CHR ''.'' \<notin> set h" "CHR ''.'' \<notin> set b"
    "res_bind (res_of_option InvalidPayload (ae_decode env b)) (\<lambda>p.
       res_of_option InvalidPayload (ae_claims_parse env p)) = Inr c"
proof -
  let ?parts = "split_on (CHR ''.'') token"
  have len: "length ?parts = 3"
    using assms by (auto simp: parse_access_token_def Let_def split: if_splits)
  then obtain h b s where parts: "?parts = [h, b, s]"
    by (auto simp: numeral_3_eq_3 length_Suc_conv)
  have "token = join ''.'' ?parts" by (simp add: join_split_on)
  then have token: "token = h @ ''.'' @ b @ ''.'' @ s" by (simp add: parts)
  have nodot: "CHR ''.'' \<notin> set h" "CHR ''.'' \<notin> set b"
    using split_on_parts [of _ "CHR ''.''" token] parts by auto
  show ?thesis
    by (rule that [of h b]) (use assms parts token nodot in
        \<open>auto simp: parse_access_token_def Let_def split: if_splits\<close>)
qed

text \<open>
  What the signature of a token hashes: its first two parts with the dot between them, then the
  secret.  Two different messages with one digest are a collision of SHA-256.
\<close>

definition signed_message :: "string \<Rightarrow> string \<Rightarrow> bytes" where
  "signed_message t secret = as_bytes (join ''.'' (butlast (split_on (CHR ''.'') t))) @ as_bytes secret"

definition digest_collision :: "auth_env \<Rightarrow> bytes \<Rightarrow> bytes \<Rightarrow> bool" where
  "digest_collision env x y = (x \<noteq> y \<and> ae_sha256 env x = ae_sha256 env y)"

text \<open>The signature, the third part of a token.\<close>

definition token_signature :: "string \<Rightarrow> string" where
  "token_signature t = last (split_on (CHR ''.'') t)"

lemma encode_inj: "token_codec_ok env \<Longrightarrow> ae_encode env x = ae_encode env y \<Longrightarrow> x = y"
  by (metis option.inject token_codec_ok_def)

lemma append_dot_inj:
  assumes "CHR ''.'' \<notin> set a" "CHR ''.'' \<notin> set c" "a @ CHR ''.'' # b = c @ CHR ''.'' # d"
  shows "a = c \<and> b = d"
  using assms append_Cons_eq_iff [of "CHR ''.''" a b c d] by (metis append_sep_inj)

lemma issue_access_token_Inr:
  assumes "issue_access_token env c secret = Inr t"
  obtains p where "ae_claims_json env c = Some p"
    "t = ae_encode env (as_bytes jwt_header) @ ''.'' @ ae_encode env p @ ''.''
         @ sign_token env (ae_encode env (as_bytes jwt_header) @ ''.'' @ ae_encode env p) secret"
  using assms by (cases "ae_claims_json env c") (auto simp: issue_access_token_def Let_def)

text \<open>
  C24. An access token that was issued parses back to its claims under the same secret, and any
  other token the parser accepts with the signature of an issued one carries the same claims,
  unless the messages that the two signatures hash, header and payload of each followed by the
  secret, are two different messages with one SHA-256 digest.  Neither part speaks of expiry: the
  parser does not look at the clock.
\<close>

theorem access_tokens_authentic:
  assumes "token_codec_ok env" "issue_access_token env c secret = Inr t"
  shows "parse_access_token env t secret = Inr c \<and>
    (\<forall>t' c'. parse_access_token env t' secret = Inr c' \<and> token_signature t' = token_signature t
       \<longrightarrow> c' = c \<or> digest_collision env (signed_message t' secret) (signed_message t secret))"
proof (intro conjI allI impI)
  let ?h = "ae_encode env (as_bytes jwt_header)"
  obtain p where p: "ae_claims_json env c = Some p"
    and t: "t = ?h @ ''.'' @ ae_encode env p @ ''.'' @ sign_token env (?h @ ''.'' @ ae_encode env p) secret"
    using issue_access_token_Inr [OF assms(2)] .
  have nodot: "CHR ''.'' \<notin> set (ae_encode env b)" for b
    using assms(1) by (simp add: token_codec_ok_def)
  show "parse_access_token env t secret = Inr c"
    unfolding t by (rule signed_token_parses [OF assms(1) p nodot])
  fix t' c'
  assume t': "parse_access_token env t' secret = Inr c' \<and> token_signature t' = token_signature t"
  then obtain h b where hb: "t' = h @ ''.'' @ b @ ''.'' @ sign_token env (h @ ''.'' @ b) secret"
    "CHR ''.'' \<notin> set h" "CHR ''.'' \<notin> set b"
    and c': "res_bind (res_of_option InvalidPayload (ae_decode env b)) (\<lambda>p.
       res_of_option InvalidPayload (ae_claims_parse env p)) = Inr c'"
    using parse_access_token_Inr by blast
  have mine: "token_signature t' = ae_encode env (ae_sha256 env (signed_message t' secret))"
    "signed_message t' secret = as_bytes (h @ ''.'' @ b) @ as_bytes secret"
    using split_three [OF hb(2,3), of "sign_token env (h @ ''.'' @ b) secret"] nodot
    by (simp_all add: token_signature_def signed_message_def hb(1) sign_token_def)
  have theirs: "token_signature t = ae_encode env (ae_sha256 env (signed_message t secret))"
    "signed_message t secret = as_bytes (?h @ ''.'' @ ae_encode env p) @ as_bytes secret"
    using split_three [OF nodot nodot nodot] nodot
    by (simp_all add: token_signature_def signed_message_def t sign_token_def)
  have digest: "ae_sha256 env (signed_message t' secret) = ae_sha256 env (signed_message t secret)"
    using t' mine(1) theirs(1) encode_inj [OF assms(1)] by simp
  show "c' = c \<or> digest_collision env (signed_message t' secret) (signed_message t secret)"
  proof (cases "signed_message t' secret = signed_message t secret")
    case True
    then have "h @ ''.'' @ b = ?h @ ''.'' @ ae_encode env p"
      unfolding mine(2) theirs(2) by (metis append_same_eq as_bytes_inj)
    then have "b = ae_encode env p" using append_dot_inj [OF hb(2) nodot, of b] by simp
    with c' assms(1) p show ?thesis by (simp add: token_codec_ok_def)
  qed (use digest in \<open>simp add: digest_collision_def\<close>)
qed

text \<open>The header of a token is signed but never read, so it may name any algorithm.\<close>

lemma header_is_not_read:
  assumes "token_codec_ok env" "ae_claims_json env c = Some p" "CHR ''.'' \<notin> set header"
  shows "\<exists>t. split_on (CHR ''.'') t ! 0 = header \<and> parse_access_token env t secret = Inr c"
proof -
  let ?s = "sign_token env (header @ ''.'' @ ae_encode env p) secret"
  have "split_on (CHR ''.'') (header @ ''.'' @ ae_encode env p @ ''.'' @ ?s) = [header, ae_encode env p, ?s]"
    by (rule split_three) (use assms in \<open>auto simp: token_codec_ok_def sign_token_def\<close>)
  with signed_token_parses [OF assms] show ?thesis
    by (intro exI [of _ "header @ ''.'' @ ae_encode env p @ ''.'' @ ?s"]) simp
qed

subsection \<open>The window of a one-time code\<close>

text \<open>
  The code of RFC 4226 at a counter, on numbers: the counter as eight bytes, most significant first;
  the four bytes of the MAC at the offset that its last four bits name, read without their sign bit
  (dynamic truncation); and the last decimal digits of that number, leading zeros included.
\<close>

definition counter_bytes :: "int \<Rightarrow> bytes" where
  "counter_bytes c = map (\<lambda>i. word_of_int (c div 256 ^ i mod 256)) (rev [0..<8])"

definition dynamic_truncation :: "bytes \<Rightarrow> nat" where
  "dynamic_truncation mac =
     (let i = unat (last mac) mod 16 in
      (unat (mac ! i) mod 128) * 2 ^ 24 + unat (mac ! (i + 1)) * 2 ^ 16 + unat (mac ! (i + 2)) * 2 ^ 8
        + unat (mac ! (i + 3)))"

definition decimal_text :: "nat \<Rightarrow> nat \<Rightarrow> string" where
  "decimal_text digits n = map (\<lambda>i. digit_char (n div 10 ^ i mod 10)) (rev [0..<digits])"

definition hotp :: "auth_env \<Rightarrow> bytes \<Rightarrow> nat \<Rightarrow> int \<Rightarrow> string" where
  "hotp env secret digits counter =
     decimal_text digits (dynamic_truncation (ae_hmac_sha1 env secret (counter_bytes counter)))"

text \<open>A MAC of HMAC-SHA1 has twenty bytes.\<close>

definition hmac_ok :: "auth_env \<Rightarrow> bool" where
  "hmac_ok env = (\<forall>k m. length (ae_hmac_sha1 env k m) = 20)"

lemma be_bytes_counter: "be_bytes (word_of_int c) = counter_bytes c"
proof -
  have "(ucast (drop_bit (8 * i) (word_of_int c :: 64 word)) :: 8 word) = word_of_int (c div 256 ^ i mod 256)"
    if "i < 8" for i
  proof (rule bit_word_eqI)
    fix n assume "n < LENGTH(8)"
    moreover have "c div 256 ^ i mod 256 = take_bit 8 (drop_bit (8 * i) c)"
      by (simp add: take_bit_eq_mod drop_bit_eq_div power_mult)
    ultimately show "bit (ucast (drop_bit (8 * i) (word_of_int c :: 64 word)) :: 8 word) n =
        bit (word_of_int (c div 256 ^ i mod 256) :: 8 word) n"
      using that by (simp add: bit_simps)
  qed
  then show ?thesis by (simp add: be_bytes_def counter_bytes_def)
qed

lemma byte_and_mask:
  "unat (x AND 0x0F :: 8 word) = unat x mod 16" "unat (x AND 0x7F :: 8 word) = unat x mod 128"
proof -
  have "x AND 0x0F = take_bit 4 x" "x AND 0x7F = take_bit 7 x"
    by (simp_all add: take_bit_eq_mask mask_eq_exp_minus_1)
  then show "unat (x AND 0x0F :: 8 word) = unat x mod 16" "unat (x AND 0x7F :: 8 word) = unat x mod 128"
    by (simp_all add: take_bit_eq_mod unat_mod_distrib)
qed

lemma or_shifted: "m < 2 ^ k \<Longrightarrow> push_bit k n OR m = n * 2 ^ k + (m :: nat)"
proof -
  assume "m < 2 ^ k"
  then have m: "take_bit k m = m" by (simp add: take_bit_nat_eq_self)
  have "\<not> bit (push_bit k n) i \<or> \<not> bit m i" for i
    using m bit_take_bit_iff [of k m i] by (auto simp: bit_push_bit_iff)
  then have "push_bit k n OR m = push_bit k n + m" by (rule disjunctive_add [symmetric])
  then show ?thesis by (simp add: push_bit_eq_mult)
qed

lemma join_bytes:
  fixes a b c d :: "8 word"
  assumes "unat a < 128"
  shows "unat (push_bit 24 (ucast a) OR push_bit 16 (ucast b) OR push_bit 8 (ucast c) OR ucast d :: 32 word) =
    unat a * 2 ^ 24 + unat b * 2 ^ 16 + unat c * 2 ^ 8 + unat d"
proof -
  have byte: "unat x < 256" for x :: "8 word" using unsigned_less [of x] by simp
  have cast: "unat (ucast x :: 32 word) = unat x" for x :: "8 word"
    using byte [of x] by (simp add: unsigned_ucast_eq take_bit_nat_eq_self)
  have len: "LENGTH(32) = 32" by simp
  have shifted: "unat (push_bit k (ucast x :: 32 word)) = push_bit k (unat x)" if "k \<in> {8, 16, 24}" for k and x :: "8 word"
  proof -
    have "unat (push_bit k (ucast x :: 32 word)) = take_bit 32 (push_bit k (unat x))"
      by (simp only: unsigned_push_bit_eq cast len)
    also have "\<dots> = push_bit k (unat x)"
      using byte [of x] that by (intro take_bit_nat_eq_self) (auto simp: push_bit_eq_mult)
    finally show ?thesis .
  qed
  have "unat (push_bit 24 (ucast a) OR push_bit 16 (ucast b) OR push_bit 8 (ucast c) OR ucast d :: 32 word) =
      push_bit 24 (unat a) OR (push_bit 16 (unat b) OR (push_bit 8 (unat c) OR unat d))"
    by (simp only: unsigned_or_eq shifted cast insert_iff refl simp_thms or.assoc)
  also have "push_bit 8 (unat c) OR unat d = unat c * 2 ^ 8 + unat d"
    by (rule or_shifted) (use byte [of d] in simp)
  also have "push_bit 16 (unat b) OR (unat c * 2 ^ 8 + unat d) = unat b * 2 ^ 16 + (unat c * 2 ^ 8 + unat d)"
    by (rule or_shifted) (use byte [of c] byte [of d] in simp)
  also have "push_bit 24 (unat a) OR (unat b * 2 ^ 16 + (unat c * 2 ^ 8 + unat d)) =
      unat a * 2 ^ 24 + (unat b * 2 ^ 16 + (unat c * 2 ^ 8 + unat d))"
    by (rule or_shifted) (use byte [of b] byte [of c] byte [of d] in simp)
  finally show ?thesis by simp
qed

lemma truncate_mac_value: "mac \<noteq> [] \<Longrightarrow> unat (truncate_mac mac) = dynamic_truncation mac"
  by (simp add: truncate_mac_def dynamic_truncation_def join_bytes byte_and_mask last_conv_nth Let_def)

lemma digit_lists:
  "decimal_text (Suc d) n = decimal_text d (n div 10) @ [digit_char (n mod 10)]"
proof -
  have "rev [0..<Suc d] = map Suc (rev [0..<d]) @ [0]"
    by (simp add: upt_rec [of 0] map_Suc_upt [symmetric] rev_map del: upt_Suc)
  then show ?thesis by (simp add: decimal_text_def div_mult2_eq del: upt_Suc)
qed

lemma zero_digit: "digit_char 0 = CHR ''0''"
  by code_simp

lemma otp_text_decimal:
  "n < 10 ^ d \<Longrightarrow> 0 < d \<Longrightarrow>
     replicate (d - length (show_nat n)) (CHR ''0'') @ show_nat n = decimal_text d n"
proof (induction d arbitrary: n)
  case (Suc d)
  show ?case
  proof (cases "n < 10")
    case True
    have "decimal_text d 0 = replicate d (CHR ''0'')" for d
      unfolding decimal_text_def zero_digit by (simp add: map_replicate_const zero_digit)
    with True show ?thesis
      by (simp add: digit_lists show_nat.simps [of n])
  next
    case False
    with Suc.prems have "n div 10 < 10 ^ d" "0 < d" by (auto intro: gr0I)
    with Suc.IH [of "n div 10"] False show ?thesis
      by (simp add: digit_lists show_nat.simps [of n])
  qed
qed simp

lemma decimal_text_mod: "decimal_text d (n mod 10 ^ d) = decimal_text d n"
proof (induction d arbitrary: n)
  case (Suc d)
  have "n mod 10 ^ Suc d div 10 = n div 10 mod 10 ^ d"
    by (simp add: mod_mult2_eq)
  moreover have "n mod 10 ^ Suc d mod 10 = n mod 10"
    by (simp add: mod_mult2_eq)
  ultimately show ?case by (simp only: digit_lists Suc)
qed (simp add: decimal_text_def)

lemma generated_code:
  assumes "hmac_ok env" "0 < digits" "digits \<le> 9"
  shows "otp_text digits (truncate_mac (ae_hmac_sha1 env secret (be_bytes (word_of_int c))) mod otp_modulus digits)
    = hotp env secret digits c"
proof -
  let ?mac = "ae_hmac_sha1 env secret (counter_bytes c)"
  have ne: "?mac \<noteq> []" using assms(1) by (metis hmac_ok_def list.size(3) zero_neq_numeral)
  have le: "(10::nat) ^ digits \<le> 10 ^ 9" by (rule power_increasing) (use assms(3) in simp_all)
  have "unat (otp_modulus digits) = 10 ^ digits"
  proof -
    have "otp_modulus digits = word_of_nat (10 ^ digits)" by (simp add: otp_modulus_def)
    then show ?thesis using le by (simp only: unsigned_of_nat) (simp add: take_bit_nat_eq_self)
  qed
  then have rest: "unat (truncate_mac ?mac mod otp_modulus digits) = dynamic_truncation ?mac mod 10 ^ digits"
    by (simp only: unat_mod_distrib truncate_mac_value [OF ne])
  have "dynamic_truncation ?mac mod 10 ^ digits < 10 ^ digits" by simp
  from otp_text_decimal [OF this assms(2)] show ?thesis
    by (simp add: otp_text_def hotp_def be_bytes_counter rest decimal_text_mod Let_def)
qed

lemma otp_modulus_nonzero: "digits \<le> 9 \<Longrightarrow> otp_modulus digits \<noteq> 0"
proof -
  assume "digits \<le> 9"
  then have "(10::nat) ^ digits \<le> 10 ^ 9" by (intro power_increasing) simp_all
  moreover have "otp_modulus digits = word_of_nat (10 ^ digits)" by (simp add: otp_modulus_def)
  ultimately show ?thesis by (simp only: word_of_nat_eq_0_iff) (auto dest: dvd_imp_le)
qed

lemma totp_scan_found:
  assumes "\<And>k. k \<in> set offsets \<Longrightarrow>
      generate_totp_code env secret (now + word_of_int k * tr_period_secs r) (tr_period_secs r) (tr_digits r) = Some (f k)"
  shows "totp_scan env secret now r code offsets =
    Some (if \<exists>k \<in> set offsets. f k = code then Inr () else Inl InvalidCode)"
  using assms by (induction offsets) auto

lemma sint_small:
  "0 \<le> x \<Longrightarrow> x < 2 ^ 63 \<Longrightarrow> sint (word_of_int x :: 64 word) = x"
  by (simp add: signed_of_int signed_take_bit_int_eq_self)

lemma generate_at:
  assumes "0 \<le> x" "x < 2 ^ 63" "period \<noteq> 0" "hmac_ok env" "0 < digits" "digits \<le> 9"
  shows "generate_totp_code env secret (word_of_int x) period digits =
    Some (hotp env secret digits (x div uint period))"
proof -
  have "uint (word_of_int x div period) = x div uint period"
    using assms(1,2) by (simp add: uint_div_distrib unsigned_of_int take_bit_int_eq_self)
  then have "word_of_int x div period = (word_of_int (x div uint period) :: 64 word)"
    by (metis word_of_int_uint)
  moreover have "0 \<le>s (word_of_int x :: 64 word)"
    using assms(1,2) by (simp add: word_sle_eq sint_small)
  ultimately show ?thesis
    using assms(3) otp_modulus_nonzero [OF assms(6)] generated_code [OF assms(4-6)]
    by (simp add: generate_totp_code_def Let_def)
qed

lemma sint_range:
  "- (2 ^ 63) \<le> x \<Longrightarrow> x < 2 ^ 63 \<Longrightarrow> sint (word_of_int x :: 64 word) = x"
  by (simp add: signed_of_int signed_take_bit_int_eq_self)

lemma timestamp_step:
  "timestamp now + word_of_int k * w = word_of_int (now div 1000000000 + k * uint w)"
  by (simp add: timestamp_def)

text \<open>
  The arguments for which the machine arithmetic stays in range: one to nine digits, a period that
  is not zero, times from 1970 on, and a window of drift steps that neither begins before then nor
  leaves 63 bits.
\<close>

definition totp_in_range :: "totp_registration \<Rightarrow> time \<Rightarrow> time \<Rightarrow> bool" where
  "totp_in_range r now issued =
     (let p = uint (tr_period_secs r); d = uint (tr_allowed_drift_steps r);
          n = now div 1000000000; i = issued div 1000000000 in
      0 < tr_digits r \<and> tr_digits r \<le> 9 \<and> tr_period_secs r \<noteq> 0 \<and>
      d * p \<le> n \<and> n + d * p < 2 ^ 63 \<and> 0 \<le> i \<and> i < 2 ^ 63)"

text \<open>A code of a counter in the window, once the clock has reached the issue time less the drift.\<close>

definition otp_proof :: "auth_env \<Rightarrow> time \<Rightarrow> totp_registration \<Rightarrow> string \<Rightarrow> time \<Rightarrow> bool" where
  "otp_proof env now r code issued =
     (\<exists>secret. ae_unhex env (tr_secret_hex r) = Some secret \<and>
       (let p = uint (tr_period_secs r); d = uint (tr_allowed_drift_steps r); n = now div 1000000000 in
        issued div 1000000000 - d * p \<le> n \<and>
        code \<in> hotp env secret (tr_digits r) ` {n div p - d..n div p + d}))"

lemma totp_verdict:
  fixes r :: totp_registration and now issued :: time
  defines "p \<equiv> uint (tr_period_secs r)" and "d \<equiv> uint (tr_allowed_drift_steps r)"
    and "n \<equiv> now div 1000000000" and "i \<equiv> issued div 1000000000"
  assumes "ae_unhex env (tr_secret_hex r) = Some secret" and ok: "hmac_ok env" and "totp_in_range r now issued"
  shows "verify_totp env now r code issued =
    Some (if i - d * p \<le> n \<and> code \<in> hotp env secret (tr_digits r) ` {n div p - d..n div p + d}
          then Inr () else Inl InvalidCode)"
proof -
  have digits: "0 < tr_digits r" "tr_digits r \<le> 9" and period: "tr_period_secs r \<noteq> 0"
    and range: "d * p \<le> n" "n + d * p < 2 ^ 63" "0 \<le> i" "i < 2 ^ 63"
    using assms(7) by (simp_all add: totp_in_range_def Let_def p_def d_def n_def i_def)
  have p: "0 < p" using period by (simp add: p_def word_neq_0_conv word_less_def)
  have d: "0 \<le> d" by (simp add: d_def)
  have dp: "0 \<le> d * p" using p d by simp
  let ?f = "\<lambda>k. hotp env secret (tr_digits r) (n div p + k)"
  have gen: "generate_totp_code env secret (timestamp now + word_of_int k * tr_period_secs r)
      (tr_period_secs r) (tr_digits r) = Some (?f k)" if k: "k \<in> set [- d..d]" for k
  proof -
    have "- (d * p) \<le> k * p" "k * p \<le> d * p"
      using k p mult_right_mono [of "- d" k p] mult_right_mono [of k d p] by auto
    with range(1,2) have place: "0 \<le> n + k * p" "n + k * p < 2 ^ 63" by linarith+
    have "(n + k * p) div p = n div p + k" using p by simp
    then show ?thesis
      using generate_at [OF place period ok digits, of secret]
      by (simp add: timestamp_step n_def p_def)
  qed
  have lower: "timestamp now <s timestamp issued - word_of_int d * tr_period_secs r \<longleftrightarrow> n < i - d * p"
  proof -
    have "timestamp issued - word_of_int d * tr_period_secs r = word_of_int (i - d * p)"
      by (simp add: timestamp_def i_def p_def)
    moreover have "sint (word_of_int (i - d * p) :: 64 word) = i - d * p"
      by (rule sint_range) (use range dp in linarith)+
    moreover have "sint (timestamp now) = n"
      unfolding timestamp_def n_def [symmetric] by (rule sint_range) (use range dp in linarith)+
    ultimately show ?thesis by (simp add: word_sless_alt)
  qed
  have image: "(\<exists>k \<in> set [- d..d]. ?f k = code) \<longleftrightarrow>
      code \<in> hotp env secret (tr_digits r) ` {n div p - d..n div p + d}"
  proof
    assume "code \<in> hotp env secret (tr_digits r) ` {n div p - d..n div p + d}"
    then obtain c where "c \<in> {n div p - d..n div p + d}" "code = hotp env secret (tr_digits r) c" by blast
    then show "\<exists>k \<in> set [- d..d]. ?f k = code"
      by (intro bexI [of _ "c - n div p"]) auto
  qed auto
  have "verify_totp env now r code issued =
      (if n < i - d * p then Some (Inl InvalidCode)
       else Some (if \<exists>k \<in> set [- d..d]. ?f k = code then Inr () else Inl InvalidCode))"
    using totp_scan_found [where f = ?f, OF gen, of "[- d..d]" code] lower
    by (simp add: verify_totp_def assms(5) d_def [symmetric] Let_def)
  then show ?thesis using image by simp
qed

text \<open>
  C25. A one-time code is accepted exactly when it is the RFC 4226 code of one of the counters
  within the drift of the current one and the clock has reached the challenge's issue time less the
  drift; for one to nine digits, a period that is not zero, and times whose window lies between 1970
  and the end of 63 bits.  In particular the verdict is a function of the clock and the code: a code
  that was used is accepted again as long as its counter is in the window.
\<close>

theorem totp_accepts_window:
  assumes "ae_unhex env (tr_secret_hex r) = Some secret" "hmac_ok env" "totp_in_range r now issued"
  shows "verify_totp env now r code issued =
    Some (let p = uint (tr_period_secs r); d = uint (tr_allowed_drift_steps r); n = now div 1000000000 in
      if issued div 1000000000 - d * p \<le> n \<and> code \<in> hotp env secret (tr_digits r) ` {n div p - d..n div p + d}
      then Inr () else Inl InvalidCode)"
  using totp_verdict [OF assms] by (simp add: Let_def)

lemma verify_totp_iff:
  assumes "hmac_ok env" "totp_in_range r now issued"
  shows "verify_totp env now r code issued = Some (Inr ()) \<longleftrightarrow> otp_proof env now r code issued"
proof (cases "ae_unhex env (tr_secret_hex r)")
  case (Some secret)
  then show ?thesis using totp_verdict [OF Some assms, of code] by (simp add: otp_proof_def Let_def)
qed (simp add: verify_totp_def otp_proof_def)

subsection \<open>What an accepted assertion shows\<close>

text \<open>
  An assertion for a challenge: made with the registered credential, over client data with the
  challenge and the registered origin and authenticator data with the hash of the relying party and
  the flags, and signed, as WebAuthn demands, over the authenticator data followed by the SHA-256
  digest of the client data, by the registered key.
\<close>

definition webauthn_proof :: "auth_env \<Rightarrow> webauthn_registration \<Rightarrow> mfa_challenge \<Rightarrow> webauthn_assertion \<Rightarrow> bool" where
  "webauthn_proof env r ch a =
     (\<exists>options client data sig_bytes signature point key cd.
        ch_payload ch = Some (WebAuthnPayload options) \<and> wa_credential_id a = wr_credential_id r
        \<and> ae_decode env (wa_client_data_json a) = Some client
        \<and> ae_decode env (wa_authenticator_data a) = Some data
        \<and> ae_decode env (wa_signature a) = Some sig_bytes \<and> ae_der_signature env sig_bytes = Some signature
        \<and> ae_client_parse env client = Some cd
        \<and> cd_type cd = ''webauthn.get'' \<and> cd_challenge cd = wo_challenge options \<and> cd_origin cd = wr_origin r
        \<and> 37 \<le> length data \<and> take 32 data = ae_sha256 env (as_bytes (wr_rp_id r))
        \<and> data ! 32 AND 1 \<noteq> 0 \<and> (wr_require_user_verification r \<longrightarrow> data ! 32 AND 4 \<noteq> 0)
        \<and> ae_decode env (wr_public_key_sec1 r) = Some point \<and> ae_point_key env point = Some key
        \<and> ae_verify env key (data @ ae_sha256 env client) signature)"

lemma webauthn_proofI:
  assumes "ch_payload ch = Some (WebAuthnPayload options)" "wa_credential_id a = wr_credential_id r"
    "ae_decode env (wa_client_data_json a) = Some client" "ae_decode env (wa_authenticator_data a) = Some data"
    "ae_decode env (wa_signature a) = Some sig_bytes" "ae_der_signature env sig_bytes = Some signature"
    "ae_client_parse env client = Some cd" "cd_type cd = ''webauthn.get''"
    "cd_challenge cd = wo_challenge options" "cd_origin cd = wr_origin r" "37 \<le> length data"
    "take 32 data = ae_sha256 env (as_bytes (wr_rp_id r))" "data ! 32 AND 1 \<noteq> 0"
    "wr_require_user_verification r \<longrightarrow> data ! 32 AND 4 \<noteq> 0" "ae_decode env (wr_public_key_sec1 r) = Some point"
    "ae_point_key env point = Some key" "ae_verify env key (data @ ae_sha256 env client) signature"
  shows "webauthn_proof env r ch a"
  unfolding webauthn_proof_def using assms by blast

lemma res_of_option_Inr [simp]: "res_of_option e x = Inr a \<longleftrightarrow> x = Some a"
  by (cases x) auto

lemma check_client_data_Inr:
  "check_client_data cd options r = Inr u \<longleftrightarrow>
    cd_type cd = ''webauthn.get'' \<and> cd_challenge cd = wo_challenge options \<and> cd_origin cd = wr_origin r"
  by (simp add: check_client_data_def)

lemma check_authenticator_data_Inr:
  "check_authenticator_data env data r = Inr u \<longleftrightarrow>
    37 \<le> length data \<and> take 32 data = ae_sha256 env (as_bytes (wr_rp_id r)) \<and> data ! 32 AND 1 \<noteq> 0
    \<and> (wr_require_user_verification r \<longrightarrow> data ! 32 AND 4 \<noteq> 0)"
  by (auto simp: check_authenticator_data_def)

lemma verify_webauthn_iff: "verify_webauthn env r ch a = Inr () \<longleftrightarrow> webauthn_proof env r ch a"
proof (cases "ch_payload ch")
  case (Some p)
  then show ?thesis
  proof (cases p)
    case (WebAuthnPayload options)
    with Some show ?thesis
      by (simp add: verify_webauthn_def webauthn_proof_def decode_assertion_part_def res_bind_eq_Inr
          check_client_data_Inr check_authenticator_data_Inr signature_message_def) blast
  qed (simp add: verify_webauthn_def webauthn_proof_def)
qed (simp add: verify_webauthn_def webauthn_proof_def)

fun webauthn_of :: "mfa_registration \<Rightarrow> webauthn_registration option" where
  "webauthn_of (TotpReg t) = None"
| "webauthn_of (WebAuthnReg w) = Some w"
| "webauthn_of (BiometricReg w) = Some w"

definition asked_challenge :: "mfa_challenge \<Rightarrow> string option" where
  "asked_challenge ch = (case ch_payload ch of Some (WebAuthnPayload options) \<Rightarrow> Some (wo_challenge options) | _ \<Rightarrow> None)"

definition factor_proof :: "auth_env \<Rightarrow> time \<Rightarrow> mfa_registration \<Rightarrow> mfa_challenge \<Rightarrow> mfa_verification \<Rightarrow> bool" where
  "factor_proof env now r ch v =
     (case r of
        TotpReg t \<Rightarrow> \<exists>code. mv_code v = Some code \<and> otp_proof env now t code (ch_issued_at ch)
      | WebAuthnReg w \<Rightarrow> \<exists>a. mv_assertion v = Some a \<and> webauthn_proof env w ch a
      | BiometricReg w \<Rightarrow> \<exists>a. mv_assertion v = Some a \<and> webauthn_proof env w ch a)"

lemma factor_proof_webauthn:
  "webauthn_of r = Some w \<Longrightarrow>
    factor_proof env now r ch v \<longleftrightarrow> (\<exists>a. mv_assertion v = Some a \<and> webauthn_proof env w ch a)"
  by (cases r) (simp_all add: factor_proof_def)

lemma verify_challenge_iff:
  assumes "hmac_ok env" "\<And>t. r = TotpReg t \<Longrightarrow> totp_in_range t now (ch_issued_at ch)"
  shows "verify_challenge env now r ch v = Some (Inr ()) \<longleftrightarrow>
    now \<le> ch_expires_at ch \<and> registration_method r = ch_method ch \<and> factor_proof env now r ch v"
  using assms(2)
  by (auto simp: verify_challenge_def factor_proof_def verify_webauthn_iff [symmetric]
      verify_totp_iff [OF assms(1), symmetric] Let_def
      split: if_splits mfa_registration.splits option.splits)

lemma webauthn_proof_binds:
  assumes "webauthn_proof env w ch a" "webauthn_proof env w' ch' a"
  shows "asked_challenge ch = asked_challenge ch' \<and> wr_credential_id w = wr_credential_id w' \<and> wr_origin w = wr_origin w'"
  using assms unfolding webauthn_proof_def by (auto simp: asked_challenge_def)

text \<open>
  C26. A second factor is accepted exactly when the challenge has not expired, is of the registered
  method, and the answer proves the factor: a one-time code of RFC 4226 in its window, or an
  assertion signed by the registered key over the challenge, the registered origin and the relying
  party, with the user present and, where the registration asks for it, verified.  An assertion
  proves one challenge only: what is accepted for one challenge is accepted under no registration
  for a challenge with another text, another credential or another origin.  (For one-time codes, in
  the range of digits, periods and times in which the arithmetic does not wrap.)
\<close>

theorem second_factor_is_proved:
  assumes "hmac_ok env" "\<And>t. r = TotpReg t \<Longrightarrow> totp_in_range t now (ch_issued_at ch)"
  shows "(verify_challenge env now r ch v = Some (Inr ()) \<longleftrightarrow>
      now \<le> ch_expires_at ch \<and> registration_method r = ch_method ch \<and> factor_proof env now r ch v) \<and>
    (\<forall>now' r' ch' w w'. webauthn_of r = Some w \<and> webauthn_of r' = Some w' \<and>
        verify_challenge env now r ch v = Some (Inr ()) \<and> verify_challenge env now' r' ch' v = Some (Inr ()) \<longrightarrow>
      asked_challenge ch = asked_challenge ch' \<and> wr_credential_id w = wr_credential_id w' \<and> wr_origin w = wr_origin w')"
proof (intro conjI allI impI)
  show "verify_challenge env now r ch v = Some (Inr ()) \<longleftrightarrow>
      now \<le> ch_expires_at ch \<and> registration_method r = ch_method ch \<and> factor_proof env now r ch v"
    by (rule verify_challenge_iff [OF assms])
next
  fix now' r' ch' w w'
  assume *: "webauthn_of r = Some w \<and> webauthn_of r' = Some w' \<and>
      verify_challenge env now r ch v = Some (Inr ()) \<and> verify_challenge env now' r' ch' v = Some (Inr ())"
  then have "r' \<noteq> TotpReg t" for t by auto
  with * verify_challenge_iff [OF assms] verify_challenge_iff [OF assms(1), of r' now' ch' v]
  obtain a where "webauthn_proof env w ch a" "webauthn_proof env w' ch' a"
    by (auto simp: factor_proof_webauthn)
  then show "asked_challenge ch = asked_challenge ch'" "wr_credential_id w = wr_credential_id w'"
    "wr_origin w = wr_origin w'"
    using webauthn_proof_binds by blast+
qed

text \<open>The contract of the libraries: hashes have 32 bytes and what is signed verifies.\<close>

definition webauthn_ok :: "auth_env \<Rightarrow> bool" where
  "webauthn_ok env =
     ((\<forall>b. ae_decode env (ae_encode env b) = Some b) \<and> (\<forall>b. length (ae_sha256 env b) = 32) \<and>
      (\<forall>c p. ae_client_json env c = Some p \<longrightarrow> ae_client_parse env p = Some c) \<and>
      (\<forall>k m. \<exists>s. ae_der_signature env (ae_sign_der env k m) = Some s \<and>
         (\<exists>pk. ae_point_key env (ae_public_point env k) = Some pk \<and> ae_verify env pk m s)))"

text \<open>The assertion made with the bootstrap key passes for the bootstrap registration.\<close>

lemma bootstrap_assertion_proves:
  assumes ok: "webauthn_ok env"
    and reg: "webauthn_bootstrap env cfg tenant user account verified = Some w"
    and payload: "ch_payload ch = Some (webauthn_payload env cfg ulid expires w)"
    and a: "bootstrap_webauthn_assertion env cfg tenant user account ch = Some (Inr a)"
  shows "webauthn_proof env w ch a"
proof -
  obtain key where key: "derive_bootstrap_signing_key env cfg tenant user account = Some key"
    and w: "w = \<lparr>wr_credential_id = bootstrap_credential_id env cfg tenant user account,
        wr_public_key_sec1 = ae_encode env (ae_public_point env key),
        wr_rp_id = wc_rp_id (mf_webauthn cfg), wr_origin = wc_origin (mf_webauthn cfg),
        wr_require_user_verification = verified\<rparr>"
    using reg by (auto simp: webauthn_bootstrap_def)
  obtain options where opt: "webauthn_payload env cfg ulid expires w = WebAuthnPayload options"
    "wo_rp_id options = wr_rp_id w" "wo_origin options = wr_origin w"
    "wo_user_verification options = (if verified then ''required'' else ''preferred'')"
    by (simp add: webauthn_payload_def w)
  let ?data = "build_authenticator_data env (wo_rp_id options) verified"
  let ?cd = "\<lparr>cd_type = ''webauthn.get'', cd_challenge = wo_challenge options, cd_origin = wo_origin options\<rparr>"
  have "(wo_user_verification options = ''required'') = verified" using opt(4) by simp
  with a payload opt(1) key obtain client where client: "ae_client_json env ?cd = Some client"
    and a': "a = \<lparr>wa_credential_id = bootstrap_credential_id env cfg tenant user account,
        wa_client_data_json = ae_encode env client, wa_authenticator_data = ae_encode env ?data,
        wa_signature = ae_encode env (ae_sign_der env key (signature_message env ?data client))\<rparr>"
    by (auto simp: bootstrap_webauthn_assertion_def Let_def split: option.splits)
  obtain s pk where s: "ae_der_signature env (ae_sign_der env key (signature_message env ?data client)) = Some s"
    and pk: "ae_point_key env (ae_public_point env key) = Some pk"
    and v: "ae_verify env pk (signature_message env ?data client) s"
    using ok unfolding webauthn_ok_def by blast
  have len: "length (ae_sha256 env x) = 32" for x using ok by (simp add: webauthn_ok_def)
  have data: "37 \<le> length ?data" "take 32 ?data = ae_sha256 env (as_bytes (wr_rp_id w))"
    "?data ! 32 AND 1 \<noteq> 0" "wr_require_user_verification w \<longrightarrow> ?data ! 32 AND 4 \<noteq> 0"
    using len by (auto simp: build_authenticator_data_def opt(2) nth_append w)
  have dec: "ae_decode env (ae_encode env b) = Some b" for b using ok by (simp add: webauthn_ok_def)
  have cd: "ae_client_parse env client = Some ?cd" using ok client by (simp add: webauthn_ok_def)
  have parts: "wa_credential_id a = wr_credential_id w" "ae_decode env (wa_client_data_json a) = Some client"
    "ae_decode env (wa_authenticator_data a) = Some ?data"
    "ae_decode env (wa_signature a) = Some (ae_sign_der env key (signature_message env ?data client))"
    "ae_decode env (wr_public_key_sec1 w) = Some (ae_public_point env key)"
    by (simp_all add: a' w dec)
  have fields: "cd_type ?cd = ''webauthn.get''" "cd_challenge ?cd = wo_challenge options" "cd_origin ?cd = wr_origin w"
    by (simp_all add: opt(3))
  show ?thesis
    by (rule webauthn_proofI [OF _ parts(1-4) s cd fields data parts(5) pk v [unfolded signature_message_def]])
      (simp add: payload opt(1))
qed

subsection \<open>Bootstrap secrets\<close>

text \<open>
  The text that is hashed joins tenant, user and account with colons, so that accounts whose names
  contain one can share a secret.
\<close>

lemma bootstrap_secrets_collide:
  "derive_totp_secret env cfg ''acme'' ''eu:ann'' account = derive_totp_secret env cfg ''acme:eu'' ''ann'' account"
  by (simp add: derive_totp_secret_def bootstrap_input_def)

subsection \<open>A concrete library\<close>

definition sample_claims :: session_claims where
  "sample_claims = \<lparr>sc_session_id = ''s-1'', sc_user_id = ''ann'', sc_tenant_id = ''acme'', sc_issued_at = 0,
     sc_expires_at = minutes_ns 15, sc_binding = \<lparr>sb_ip_address = ''10.0.0.1'', sb_device_fingerprint = ''laptop''\<rparr>\<rparr>"

definition sample_digest :: "bytes \<Rightarrow> bytes" where
  "sample_digest b = take 32 (b @ replicate 32 0)"

lemma sample_digest_length: "length (sample_digest b) = 32"
  by (simp add: sample_digest_def min_def)

definition sample_client_data :: client_data where
  "sample_client_data = \<lparr>cd_type = ''webauthn.get'',
     cd_challenge = sample_encode (sample_digest (as_bytes
       (''c-1'' @ '':'' @ sample_encode (sample_digest (as_bytes
          (bootstrap_input ''credential'' mfa_config_default ''acme'' ''ann'' ''ann''))) @ '':'' @ show_millis (seconds_ns 300)))),
     cd_origin = ''https://sdqp.local''\<rparr>"

definition sample_auth_env :: auth_env where
  "sample_auth_env =
     \<lparr>ae_sha256 = sample_digest, ae_hmac_sha1 = (\<lambda>k m. take 20 (m @ k @ replicate 20 0)),
      ae_hex = sample_encode, ae_unhex = sample_decode, ae_encode = sample_encode, ae_decode = sample_decode,
      ae_claims_json = (\<lambda>c. if c = sample_claims then Some [1] else None),
      ae_claims_parse = (\<lambda>b. if b = [1] then Some sample_claims else None),
      ae_client_json = (\<lambda>c. if c = sample_client_data then Some [2] else None),
      ae_client_parse = (\<lambda>b. if b = [2] then Some sample_client_data else None),
      ae_signing_key = Some, ae_public_point = (\<lambda>k. k), ae_sign_der = (\<lambda>k m. k @ m),
      ae_point_key = Some, ae_der_signature = Some, ae_verify = (\<lambda>k m s. s = k @ m)\<rparr>"

lemma sample_codec_ok: "token_codec_ok sample_auth_env"
  by (simp add: token_codec_ok_def sample_auth_env_def sample_decode_encode sample_encode_no_dot)

lemma sample_hmac_ok: "hmac_ok sample_auth_env"
  by (auto simp: hmac_ok_def sample_auth_env_def min_def)

lemma sample_webauthn_ok: "webauthn_ok sample_auth_env"
  by (simp add: webauthn_ok_def sample_auth_env_def sample_decode_encode sample_digest_length)

lemma find_map_head: "xs \<noteq> [] \<Longrightarrow> f (hd xs) = Some y \<Longrightarrow> find_map f xs = Some y"
  by (cases xs) auto

lemma first_signing_key:
  assumes "\<And>b. ae_signing_key env b = Some (f b)"
  shows "derive_bootstrap_signing_key env cfg tenant user account =
    Some (f (ae_sha256 env (as_bytes (bootstrap_input ''webauthn'' cfg tenant user account @ '':'' @ show_nat 0))))"
proof -
  have ne: "[0..<65536] \<noteq> ([] :: nat list)" by (simp only: upt_eq_Nil_conv) simp
  have h: "hd [0..<65536] = (0::nat)" by (rule hd_upt) simp
  show ?thesis
    unfolding derive_bootstrap_signing_key_def
    by (rule find_map_head [OF ne]) (simp only: h assms)
qed

theorem access_tokens_authentic_witness:
  "\<exists>t. issue_access_token sample_auth_env sample_claims ''secret'' = Inr t \<and>
     parse_access_token sample_auth_env t ''secret'' = Inr sample_claims"
proof -
  obtain t where "issue_access_token sample_auth_env sample_claims ''secret'' = Inr t"
    by (simp add: issue_access_token_def sample_auth_env_def Let_def)
  with access_tokens_authentic [OF sample_codec_ok this] show ?thesis by blast
qed

definition sample_totp :: totp_registration where
  "sample_totp = \<lparr>tr_account_name = ''ann'', tr_secret_hex = sample_encode (replicate 20 7), tr_digits = 6,
     tr_period_secs = 30, tr_allowed_drift_steps = 1\<rparr>"

theorem totp_accepts_window_witness:
  "verify_totp sample_auth_env (seconds_ns 59) sample_totp (hotp sample_auth_env (replicate 20 7) 6 2) (seconds_ns 50)
     = Some (Inr ())"
proof -
  have c: "2 \<in> {59 div 30 - 1..59 div 30 + (1::int)}" by simp
  have secret: "ae_unhex sample_auth_env (tr_secret_hex sample_totp) = Some (replicate 20 7)"
    by (simp only: sample_totp_def sample_auth_env_def totp_registration.simps auth_env.simps sample_decode_encode)
  have range: "totp_in_range sample_totp (seconds_ns 59) (seconds_ns 50)"
    by (simp add: totp_in_range_def sample_totp_def seconds_ns_def)
  show ?thesis
    using totp_accepts_window [OF secret sample_hmac_ok range, of "hotp sample_auth_env (replicate 20 7) 6 2"]
      imageI [OF c, of "hotp sample_auth_env (replicate 20 7) 6"]
    by (simp add: sample_totp_def seconds_ns_def Let_def)
qed

theorem second_factor_is_proved_witness:
  "\<exists>w ch a. verify_challenge sample_auth_env (seconds_ns 20) (WebAuthnReg w) ch
       \<lparr>mv_code = None, mv_assertion = Some a\<rparr> = Some (Inr ()) \<and> webauthn_proof sample_auth_env w ch a"
proof -
  let ?env = sample_auth_env and ?cfg = mfa_config_default
  obtain w where w: "webauthn_bootstrap ?env ?cfg ''acme'' ''ann'' ''ann'' True = Some w"
    by (simp add: webauthn_bootstrap_def first_signing_key [where f = "\<lambda>b. b"] sample_auth_env_def)
  let ?ch = "begin_challenge ?env ?cfg ''c-1'' 0 (WebAuthnReg w) None"
  have cred: "wr_credential_id w = bootstrap_credential_id ?env ?cfg ''acme'' ''ann'' ''ann''"
    "wr_origin w = ''https://sdqp.local''"
    using w by (auto simp: webauthn_bootstrap_def mfa_config_default_def webauthn_config_default_def)
  have payload: "ch_payload ?ch = Some (webauthn_payload ?env ?cfg ''c-1'' (seconds_ns 300) w)"
    by (simp add: begin_challenge_def Let_def mfa_config_default_def)
  have client: "\<lparr>cd_type = ''webauthn.get'',
      cd_challenge = ae_encode ?env (ae_sha256 ?env (as_bytes (''c-1'' @ '':'' @ wr_credential_id w @ '':'' @ show_millis (seconds_ns 300)))),
      cd_origin = wr_origin w\<rparr> = sample_client_data"
    by (simp add: cred sample_client_data_def bootstrap_credential_id_def sample_auth_env_def)
  have json: "ae_client_json ?env sample_client_data = Some [2]"
    by (simp add: sample_auth_env_def)
  have key: "ae_signing_key ?env b = Some b" for b by (simp add: sample_auth_env_def)
  obtain a where a: "bootstrap_webauthn_assertion ?env ?cfg ''acme'' ''ann'' ''ann'' ?ch = Some (Inr a)"
    using json client [simplified]
    by (simp add: bootstrap_webauthn_assertion_def payload webauthn_payload_def Let_def first_signing_key [OF key])
  have "webauthn_proof ?env w ?ch a"
    by (rule bootstrap_assertion_proves [OF sample_webauthn_ok w payload a])
  then have ok: "verify_challenge ?env (seconds_ns 20) (WebAuthnReg w) ?ch \<lparr>mv_code = None, mv_assertion = Some a\<rparr> = Some (Inr ())"
    by (simp add: verify_challenge_def verify_webauthn_iff [symmetric] begin_challenge_def Let_def
        mfa_config_default_def seconds_ns_def)
  have "webauthn_proof ?env w ?ch a"
    using second_factor_is_proved [OF sample_hmac_ok, of "WebAuthnReg w" "seconds_ns 20" ?ch
        "\<lparr>mv_code = None, mv_assertion = Some a\<rparr>"] ok
    by (simp add: factor_proof_def)
  with ok show ?thesis by blast
qed

end
