(* ===== verification/AccessPolicy.thy ===== *)
theory AccessPolicy
  imports Authentication
begin

text \<open>
  The smaller checks of \<open>sdqp-system-security\<close>: the risk score of a session
  (\<open>auth/continuous.rs\<close>), separation of duties (\<open>rbac\<close>), configuration drift
  (\<open>config_audit.rs\<close>), third-party credentials (\<open>supply_chain.rs\<close>), exfiltration markers
  (\<open>exfiltration\<close>) and attestation of the runtime (\<open>memory/tee.rs\<close>).  The scores are sums of at
  most six whole numbers, which \<open>f64\<close> adds exactly, so they are integers here.
\<close>

subsection \<open>Continuous evaluation\<close>

datatype adaptive_response = AllowAccess | StepUpAuth | TerminateSession

definition for_score :: "int \<Rightarrow> adaptive_response" where
  "for_score score = (if score < 30 then AllowAccess else if score < 70 then StepUpAuth else TerminateSession)"

datatype risk_dimension =
    QueryFrequency | DataVolume | TemporalPattern | PermissionUsage | ExportBehavior
  | DevicePostureRisk | NetworkContext

record risk_score =
  rk_score :: int
  rk_dimensions :: "(risk_dimension \<times> int) list"
  rk_triggered_rules :: "string list"
  rk_recommended_action :: adaptive_response

record device_posture =
  dp_device_fingerprint :: string
  dp_os_version :: string
  dp_patch_level_days :: nat
  dp_rooted :: bool
  dp_disk_encrypted :: bool
  dp_edr_running :: bool

definition compliant :: "device_posture \<Rightarrow> bool" where
  "compliant p =
     (\<not> dp_rooted p \<and> dp_patch_level_days p \<le> 30 \<and> dp_disk_encrypted p \<and> dp_edr_running p)"

record posture_report =
  pr_posture :: device_posture
  pr_compliant :: bool
  pr_reasons :: "string list"

definition collected_posture :: "string \<Rightarrow> string option \<Rightarrow> device_posture" where
  "collected_posture device profile =
     (let p = option_or profile ''trusted'' in
      if p = ''compromised'' then
        \<lparr>dp_device_fingerprint = device, dp_os_version = ''linux-legacy'', dp_patch_level_days = 180,
         dp_rooted = True, dp_disk_encrypted = False, dp_edr_running = False\<rparr>
      else if p = ''legacy'' then
        \<lparr>dp_device_fingerprint = device, dp_os_version = ''windows-10'', dp_patch_level_days = 75,
         dp_rooted = False, dp_disk_encrypted = True, dp_edr_running = False\<rparr>
      else
        \<lparr>dp_device_fingerprint = device, dp_os_version = ''windows-11'', dp_patch_level_days = 7,
         dp_rooted = False, dp_disk_encrypted = True, dp_edr_running = True\<rparr>)"

definition posture_reasons :: "device_posture \<Rightarrow> string list" where
  "posture_reasons p =
     (if dp_rooted p then [''device is rooted''] else [])
     @ (if 30 < dp_patch_level_days p then [''device patch level is stale''] else [])
     @ (if \<not> dp_disk_encrypted p then [''disk encryption is disabled''] else [])
     @ (if \<not> dp_edr_running p then [''edr agent is not running''] else [])"

definition collect_posture :: "string \<Rightarrow> string option \<Rightarrow> posture_report" where
  "collect_posture device profile =
     (let p = collected_posture device profile in
      \<lparr>pr_posture = p, pr_compliant = compliant p, pr_reasons = posture_reasons p\<rparr>)"

record step_up_challenge =
  su_challenge_id :: string
  su_method :: mfa_method
  su_reason :: string
  su_issued_at :: time
  su_expires_at :: time
  su_payload :: "challenge_payload option"

definition step_up_new :: "string \<Rightarrow> time \<Rightarrow> mfa_method \<Rightarrow> string \<Rightarrow> step_up_challenge" where
  "step_up_new ulid now m reason =
     \<lparr>su_challenge_id = ulid, su_method = m, su_reason = reason, su_issued_at = now,
      su_expires_at = now + minutes_ns 5, su_payload = None\<rparr>"

definition from_mfa_challenge :: "mfa_challenge \<Rightarrow> string \<Rightarrow> step_up_challenge" where
  "from_mfa_challenge ch reason =
     \<lparr>su_challenge_id = ch_challenge_id ch, su_method = ch_method ch, su_reason = reason,
      su_issued_at = ch_issued_at ch, su_expires_at = ch_expires_at ch, su_payload = ch_payload ch\<rparr>"

definition as_mfa_challenge :: "step_up_challenge \<Rightarrow> mfa_challenge" where
  "as_mfa_challenge s =
     \<lparr>ch_challenge_id = su_challenge_id s, ch_method = su_method s, ch_issued_at = su_issued_at s,
      ch_expires_at = su_expires_at s, ch_reason = Some (su_reason s), ch_payload = su_payload s,
      ch_dev_only_code = None\<rparr>"

record access_signal =
  as_query_burst :: nat
  as_denied_burst :: nat
  as_export_burst :: nat
  as_ip_drift :: bool
  as_impossible_travel :: bool
  as_exfiltration_hint :: bool
  as_device_posture :: "posture_report option"

record risk_assessment =
  ra_score :: risk_score
  ra_reasons :: "string list"

text \<open>The dimensions, rules, reasons and total so far; each check of \<open>assess\<close> may add to them.\<close>

type_synonym risk_tally = "(risk_dimension \<times> int) list \<times> string list \<times> string list \<times> int"

definition tally :: "bool \<Rightarrow> risk_dimension \<Rightarrow> int \<Rightarrow> string \<Rightarrow> string list \<Rightarrow> risk_tally \<Rightarrow> risk_tally" where
  "tally hit dimension points rule why acc =
     (case acc of (dims, rules, reasons, tot) \<Rightarrow>
        if hit then (AList.update dimension points dims, rules @ [rule], reasons @ why, tot + points) else acc)"

definition network_points :: "access_signal \<Rightarrow> int" where
  "network_points s = (if as_impossible_travel s then 32 else 18)"

definition posture_fails :: "access_signal \<Rightarrow> bool" where
  "posture_fails s = (case as_device_posture s of None \<Rightarrow> False | Some p \<Rightarrow> \<not> pr_compliant p)"

definition tallied :: "access_signal \<Rightarrow> risk_tally" where
  "tallied s =
     (let t = ([], [], [], 0);
          t = tally (5 \<le> as_query_burst s) QueryFrequency 28 ''query_burst'' [''query burst exceeds baseline''] t;
          t = tally (2 \<le> as_denied_burst s) PermissionUsage 24 ''denied_burst'' [''denied access burst detected''] t;
          t = tally (3 \<le> as_export_burst s) ExportBehavior 36 ''export_burst'' [''export spike detected''] t;
          t = tally (as_ip_drift s \<or> as_impossible_travel s) NetworkContext (network_points s) ''network_context''
                [''network context drift detected''] t;
          t = tally (as_exfiltration_hint s) DataVolume 30 ''exfiltration_hint'' [''covert-channel indicator detected''] t in
      tally (posture_fails s) DevicePostureRisk 35 ''device_posture''
        (case as_device_posture s of None \<Rightarrow> [] | Some p \<Rightarrow> pr_reasons p) t)"

definition assess :: "access_signal \<Rightarrow> risk_assessment" where
  "assess s =
     (case tallied s of (dims, rules, reasons, tot) \<Rightarrow>
        let capped = min tot 100 in
        \<lparr>ra_score = \<lparr>rk_score = capped, rk_dimensions = dims, rk_triggered_rules = rules,
           rk_recommended_action = for_score capped\<rparr>, ra_reasons = reasons\<rparr>)"

subsection \<open>Separation of duties\<close>

datatype role = SystemAdmin | ProjectAdmin | DataOwner | Analyst | Auditor | Approver

definition has_data_access :: "role \<Rightarrow> bool" where
  "has_data_access r = (r = Analyst)"

datatype security_error = SeparationOfDutiesViolation

definition enforce_separation_of_duties :: "role list \<Rightarrow> security_error + unit" where
  "enforce_separation_of_duties roles =
     (if SystemAdmin \<in> set roles \<and> list_ex has_data_access roles
      then Inl SeparationOfDutiesViolation else Inr ())"

subsection \<open>Configuration, credentials of third parties\<close>

record config_version =
  cv_version_id :: string
  cv_config_key :: string
  cv_payload_hash :: string
  cv_approved_by :: "string option"
  cv_created_at :: time

definition config_version_new :: "auth_env \<Rightarrow> string \<Rightarrow> time \<Rightarrow> string \<Rightarrow> bytes \<Rightarrow> config_version" where
  "config_version_new env ulid now key payload =
     \<lparr>cv_version_id = ulid, cv_config_key = key, cv_payload_hash = ae_hex env (ae_sha256 env payload),
      cv_approved_by = None, cv_created_at = now\<rparr>"

record config_drift =
  cf_key :: string
  cf_expected :: string
  cf_actual :: string

definition detect_config_drift :: "(string \<times> string) list \<Rightarrow> (string \<times> string) list \<Rightarrow> config_drift list" where
  "detect_config_drift baseline runtime =
     List.map_filter (\<lambda>(key, expected).
       (case map_of runtime key of
          None \<Rightarrow> None
        | Some actual \<Rightarrow>
            if actual = expected then None
            else Some \<lparr>cf_key = key, cf_expected = expected, cf_actual = actual\<rparr>)) baseline"

record credential_record =
  cr_integration :: string
  cr_credential_id :: string
  cr_last_rotated_at :: time
  cr_max_age_days :: int

definition rotation_due_at :: "credential_record \<Rightarrow> time" where
  "rotation_due_at c = cr_last_rotated_at c + days_ns (cr_max_age_days c)"

definition rotation_required :: "credential_record \<Rightarrow> time \<Rightarrow> bool" where
  "rotation_required c now = (rotation_due_at c \<le> now)"

record third_party =
  tp_integration :: string
  tp_transport_encrypted :: bool
  tp_minimum_scope :: string
  tp_security_contact :: string

definition third_party_approved :: "third_party \<Rightarrow> bool" where
  "third_party_approved t = (tp_transport_encrypted t \<and> trim (tp_minimum_scope t) \<noteq> [])"

subsection \<open>Exfiltration markers\<close>

record covert_finding =
  cg_suspicious :: bool
  cg_reasons :: "string list"

definition ends_with :: "string \<Rightarrow> string \<Rightarrow> bool" where
  "ends_with s suffix = starts_with (rev s) (rev suffix)"

definition inspect_dns_tunnel :: "string \<Rightarrow> covert_finding" where
  "inspect_dns_tunnel query =
     (let low = to_ascii_lowercase query;
          reasons =
            (if 80 < utf8_len low then [''dns query is unusually long''] else [])
            @ (if str_contains low '' txt '' \<or> ends_with low ''.txt''
               then [''dns query references txt records''] else [])
            @ (if str_contains low ''base32'' \<or> str_contains low ''chunk''
               then [''dns query contains encoded chunk markers''] else []) in
      \<lparr>cg_suspicious = (reasons \<noteq> []), cg_reasons = reasons\<rparr>)"

definition suspicious_header :: "string \<times> string \<Rightarrow> bool" where
  "suspicious_header h =
     (let name = to_ascii_lowercase (fst h); v = to_ascii_lowercase (snd h) in
      str_contains name ''x-data'' \<or> str_contains v ''base64'' \<or> str_contains v ''base32'')"

definition inspect_http_covert_channel :: "string \<Rightarrow> (string \<times> string) list \<Rightarrow> string \<Rightarrow> covert_finding" where
  "inspect_http_covert_channel url headers body =
     (let low_url = to_ascii_lowercase url; low_body = to_ascii_lowercase body;
          reasons =
            (if str_contains low_url ''pixel'' \<or> str_contains low_url ''beacon''
             then [''url resembles tracking beacon''] else [])
            @ (if str_contains low_url ''chunk='' \<or> str_contains low_body ''chunk=''
               then [''payload contains chunk markers''] else [])
            @ (if list_ex suspicious_header headers
               then [''headers contain encoded payload markers''] else []) in
      \<lparr>cg_suspicious = (reasons \<noteq> []), cg_reasons = reasons\<rparr>)"

subsection \<open>Attestation\<close>

record tee_attestation =
  ta_provider :: string
  ta_workload :: string
  ta_measurement :: string
  ta_secure :: bool

record tee_config =
  te_provider :: string
  te_attestation_url :: string
  te_expected_measurements :: "string list"

datatype tee_error =
    UnknownTeeProvider string | TeeConfiguration string | TeeRequest string
  | InsecureAttestation | MeasurementMismatch

datatype tee_provider = MockTee string | HttpTee string

definition http_tee_from_config :: "tee_config \<Rightarrow> tee_error + tee_provider" where
  "http_tee_from_config cfg =
     (if trim (te_attestation_url cfg) = []
      then Inl (TeeConfiguration ''tee.attestation_url must not be empty'')
      else Inr (HttpTee (te_attestation_url cfg)))"

text \<open>The registry is the provider with the measurements it accepts.\<close>

definition tee_registry :: "tee_config \<Rightarrow> tee_error + (tee_provider \<times> string list)" where
  "tee_registry cfg =
     (let p = to_ascii_lowercase (trim (te_provider cfg)) in
      res_bind
        (if p = '''' \<or> p = ''mock'' then Inr (MockTee ''mock-tee'')
         else if p = ''http-attestation'' then http_tee_from_config cfg
         else Inl (UnknownTeeProvider p))
        (\<lambda>provider. Inr (provider, te_expected_measurements cfg)))"

text \<open>The HTTP endpoint: the transport error, or the status, its text and the attestation the body
  parses to.\<close>

type_synonym tee_endpoint = "string \<Rightarrow> string \<Rightarrow> string + (nat \<times> string \<times> (string + tee_attestation))"

definition mock_tee_attest :: "auth_env \<Rightarrow> string \<Rightarrow> string \<Rightarrow> tee_error + tee_attestation" where
  "mock_tee_attest env name workload =
     Inr \<lparr>ta_provider = name, ta_workload = workload,
          ta_measurement = ae_hex env (ae_sha256 env (as_bytes workload)), ta_secure = True\<rparr>"

definition http_tee_attest :: "tee_endpoint \<Rightarrow> string \<Rightarrow> string \<Rightarrow> tee_error + tee_attestation" where
  "http_tee_attest post url workload =
     (case post url workload of
        Inl e \<Rightarrow> Inl (TeeRequest e)
      | Inr (status, status_text, body) \<Rightarrow>
          if status < 200 \<or> 299 < status
          then Inl (TeeRequest (''attestation endpoint returned status '' @ status_text))
          else (case body of Inl e \<Rightarrow> Inl (TeeRequest e) | Inr a \<Rightarrow> Inr a))"

fun tee_attest :: "auth_env \<Rightarrow> tee_endpoint \<Rightarrow> tee_provider \<Rightarrow> string \<Rightarrow> tee_error + tee_attestation" where
  "tee_attest env post (MockTee name) workload = mock_tee_attest env name workload"
| "tee_attest env post (HttpTee url) workload = http_tee_attest post url workload"

definition enforce_secure_workload ::
  "auth_env \<Rightarrow> tee_endpoint \<Rightarrow> tee_provider \<times> string list \<Rightarrow> string \<Rightarrow> tee_error + tee_attestation" where
  "enforce_secure_workload env post reg workload =
     res_bind (tee_attest env post (fst reg) workload) (\<lambda>a.
       if \<not> ta_secure a then Inl InsecureAttestation
       else if snd reg \<noteq> [] \<and> ta_measurement a \<notin> set (snd reg) then Inl MeasurementMismatch
       else Inr a)"

subsection \<open>The score\<close>

definition points_of :: "access_signal \<Rightarrow> int" where
  "points_of s =
     (if 5 \<le> as_query_burst s then 28 else 0) + (if 2 \<le> as_denied_burst s then 24 else 0)
     + (if 3 \<le> as_export_burst s then 36 else 0)
     + (if as_impossible_travel s then 32 else if as_ip_drift s then 18 else 0)
     + (if as_exfiltration_hint s then 30 else 0) + (if posture_fails s then 35 else 0)"

lemma tally_total: "snd (snd (snd (tally hit d pts rule why t))) = snd (snd (snd t)) + (if hit then pts else 0)"
  by (cases t) (simp add: tally_def)

lemma tallied_total: "snd (snd (snd (tallied s))) = points_of s"
  by (simp add: tallied_def Let_def tally_total points_of_def network_points_def)

lemma assess_score: "rk_score (ra_score (assess s)) = min (points_of s) 100"
  using tallied_total [of s] by (cases "tallied s") (simp add: assess_def Let_def)

lemma assess_action: "rk_recommended_action (ra_score (assess s)) = for_score (min (points_of s) 100)"
  using tallied_total [of s] by (cases "tallied s") (simp add: assess_def Let_def)

text \<open>A signal that shows at least as much.\<close>

definition at_least_as_bad :: "access_signal \<Rightarrow> access_signal \<Rightarrow> bool" where
  "at_least_as_bad s s' =
     (as_query_burst s \<le> as_query_burst s' \<and> as_denied_burst s \<le> as_denied_burst s'
      \<and> as_export_burst s \<le> as_export_burst s' \<and> (as_ip_drift s \<longrightarrow> as_ip_drift s')
      \<and> (as_impossible_travel s \<longrightarrow> as_impossible_travel s')
      \<and> (as_exfiltration_hint s \<longrightarrow> as_exfiltration_hint s') \<and> (posture_fails s \<longrightarrow> posture_fails s'))"

fun severity :: "adaptive_response \<Rightarrow> nat" where
  "severity AllowAccess = 0"
| "severity StepUpAuth = 1"
| "severity TerminateSession = 2"

lemma points_mono:
  assumes "at_least_as_bad s s'"
  shows "points_of s \<le> points_of s'"
proof -
  have pick: "(if a then x else 0) \<le> (if b then x else (0::int))" if "a \<longrightarrow> b" "0 \<le> x" for a b x
    using that by simp
  have network: "(if as_impossible_travel s then 32 else if as_ip_drift s then 18 else (0::int))
      \<le> (if as_impossible_travel s' then 32 else if as_ip_drift s' then 18 else 0)"
    using assms by (auto simp: at_least_as_bad_def)
  show ?thesis
    unfolding points_of_def
    by (intro add_mono pick network) (use assms in \<open>auto simp: at_least_as_bad_def\<close>)
qed

lemma severity_mono: "x \<le> y \<Longrightarrow> severity (for_score x) \<le> severity (for_score y)"
  by (simp add: for_score_def)

text \<open>
  The risk score lies between 0 and 100, and a session that shows at least as much never gets a
  lower score or a milder response.
\<close>

lemma risk_is_monotone:
  assumes "at_least_as_bad s s'"
  shows "0 \<le> rk_score (ra_score (assess s)) \<and> rk_score (ra_score (assess s)) \<le> 100 \<and>
    rk_score (ra_score (assess s)) \<le> rk_score (ra_score (assess s')) \<and>
    severity (rk_recommended_action (ra_score (assess s)))
      \<le> severity (rk_recommended_action (ra_score (assess s')))"
proof -
  have "0 \<le> points_of s" by (simp add: points_of_def)
  with points_mono [OF assms] show ?thesis
    by (auto simp: assess_score assess_action intro!: severity_mono)
qed

definition quiet_signal :: access_signal where
  "quiet_signal = \<lparr>as_query_burst = 0, as_denied_burst = 0, as_export_burst = 0, as_ip_drift = False,
     as_impossible_travel = False, as_exfiltration_hint = False, as_device_posture = None\<rparr>"

theorem risk_is_monotone_witness:
  "let s = quiet_signal\<lparr>as_query_burst := 5\<rparr>; s' = s\<lparr>as_exfiltration_hint := True, as_ip_drift := True\<rparr> in
   severity (rk_recommended_action (ra_score (assess s))) \<le> severity (rk_recommended_action (ra_score (assess s')))
   \<and> rk_recommended_action (ra_score (assess s')) = TerminateSession"
proof -
  let ?s = "quiet_signal\<lparr>as_query_burst := 5\<rparr>" and
    ?s' = "quiet_signal\<lparr>as_query_burst := 5, as_exfiltration_hint := True, as_ip_drift := True\<rparr>"
  have "at_least_as_bad ?s ?s'"
    by (simp add: at_least_as_bad_def quiet_signal_def posture_fails_def)
  from risk_is_monotone [OF this] show ?thesis
    by (simp add: assess_action points_of_def quiet_signal_def posture_fails_def for_score_def)
qed

text \<open>A posture is reported compliant exactly when there is no reason against it.\<close>

lemma posture_report_consistent:
  "pr_compliant (collect_posture device profile) \<longleftrightarrow> pr_reasons (collect_posture device profile) = []"
  by (auto simp: collect_posture_def Let_def compliant_def posture_reasons_def)

lemma step_up_keeps_challenge:
  "ch_dev_only_code ch = None \<Longrightarrow> ch_reason ch = Some reason \<Longrightarrow>
    as_mfa_challenge (from_mfa_challenge ch reason) = ch"
  by (simp add: as_mfa_challenge_def from_mfa_challenge_def)

subsection \<open>Drift and attestation\<close>

text \<open>A key that the runtime has lost is not drift.\<close>

lemma drift_iff:
  "d \<in> set (detect_config_drift baseline runtime) \<longleftrightarrow>
    (cf_key d, cf_expected d) \<in> set baseline \<and> map_of runtime (cf_key d) = Some (cf_actual d)
    \<and> cf_actual d \<noteq> cf_expected d"
  by (cases d) (force simp: detect_config_drift_def List.map_filter_def split: option.splits if_splits)

lemma missing_keys_are_not_drift: "detect_config_drift baseline [] = []"
  by (induction baseline) (simp_all add: detect_config_drift_def List.map_filter_simps)

lemma enforce_secure_workload_Inr:
  "enforce_secure_workload env post reg workload = Inr a \<longleftrightarrow>
    tee_attest env post (fst reg) workload = Inr a \<and> ta_secure a
    \<and> (snd reg = [] \<or> ta_measurement a \<in> set (snd reg))"
  by (auto simp: enforce_secure_workload_def res_bind_eq_Inr)

lemma mock_attestation_always_passes:
  "enforce_secure_workload env post (MockTee name, []) workload =
    Inr \<lparr>ta_provider = name, ta_workload = workload,
         ta_measurement = ae_hex env (ae_sha256 env (as_bytes workload)), ta_secure = True\<rparr>"
  by (simp add: enforce_secure_workload_def mock_tee_attest_def)

end
