(* ===== verification/Integrations.thy ===== *)
theory Integrations
  imports ByteText
begin

text \<open>
  Machine-to-machine access of \<open>sdqp-system-security\<close>, \<open>transport.rs\<close>: API keys with their scopes
  and addresses, the limiter with a fixed window, and the state of a credential that is rotated.
  The clock, identifiers, SHA-256 and hexadecimal are arguments; a panic is \<open>None\<close>.
\<close>

subsection \<open>API keys\<close>

record api_key_record =
  ak_key_id :: string
  ak_secret :: string
  ak_scopes :: "string list"
  ak_allowed_ips :: "string list"

record rate_limit_policy =
  rl_max_requests :: nat
  rl_window_secs :: nat

definition rate_limit_policy_default :: rate_limit_policy where
  "rate_limit_policy_default = \<lparr>rl_max_requests = 60, rl_window_secs = 60\<rparr>"

record integration_config =
  ic_api_keys :: "api_key_record list"
  ic_ip_allowlist :: "string list"
  ic_required_subjects :: "string list"
  ic_rate_limit :: rate_limit_policy

record integration_request =
  ir_client_ip :: string
  ir_api_key :: "string option"
  ir_mtls_subject :: "string option"

record authorized_integration =
  ai_key_id :: string
  ai_client_ip :: string
  ai_mtls_subject :: "string option"

datatype integration_error =
    MissingApiKey | InvalidApiKey | ScopeDenied | IpDenied | MissingMtlsSubject
  | UnauthorizedMtlsSubject | RateLimited

definition api_key_record_of :: "integration_config \<Rightarrow> string \<Rightarrow> api_key_record option" where
  "api_key_record_of cfg key_id = find (\<lambda>k. ak_key_id k = key_id) (ic_api_keys cfg)"

definition upsert_api_key :: "integration_config \<Rightarrow> api_key_record \<Rightarrow> integration_config" where
  "upsert_api_key cfg r =
     (let same = (\<lambda>k. ak_key_id k = ak_key_id r) in
      cfg\<lparr>ic_api_keys :=
        (if list_ex same (ic_api_keys cfg) then update_first same (\<lambda>_. r) (ic_api_keys cfg)
         else ic_api_keys cfg @ [r])\<rparr>)"

definition authorize_ip :: "integration_config \<Rightarrow> string \<Rightarrow> integration_error + unit" where
  "authorize_ip cfg ip =
     (if ic_ip_allowlist cfg = [] \<or> ip \<in> set (ic_ip_allowlist cfg) then Inr () else Inl IpDenied)"

definition authorize_api_key ::
  "integration_config \<Rightarrow> string \<Rightarrow> string \<Rightarrow> string option \<Rightarrow> integration_error + api_key_record" where
  "authorize_api_key cfg scope ip key =
     res_bind (res_of_option MissingApiKey key) (\<lambda>secret.
     res_bind (res_of_option InvalidApiKey (find (\<lambda>k. ak_secret k = secret) (ic_api_keys cfg))) (\<lambda>k.
       if ak_scopes k \<noteq> [] \<and> scope \<notin> set (ak_scopes k) then Inl ScopeDenied
       else if ak_allowed_ips k \<noteq> [] \<and> ip \<notin> set (ak_allowed_ips k) then Inl IpDenied
       else Inr k))"

definition authorize_mtls :: "integration_config \<Rightarrow> string option \<Rightarrow> integration_error + unit" where
  "authorize_mtls cfg subject =
     res_bind (res_of_option MissingMtlsSubject subject) (\<lambda>s.
       if ic_required_subjects cfg = [] \<or> s \<in> set (ic_required_subjects cfg) then Inr ()
       else Inl UnauthorizedMtlsSubject)"

definition integration_authorize ::
  "integration_config \<Rightarrow> string \<Rightarrow> bool \<Rightarrow> integration_request \<Rightarrow> integration_error + authorized_integration" where
  "integration_authorize cfg scope require_mtls rq =
     res_bind (authorize_ip cfg (ir_client_ip rq)) (\<lambda>_.
     res_bind (authorize_api_key cfg scope (ir_client_ip rq) (ir_api_key rq)) (\<lambda>k.
     res_bind (if require_mtls then authorize_mtls cfg (ir_mtls_subject rq) else Inr ()) (\<lambda>_.
       Inr \<lparr>ai_key_id = ak_key_id k, ai_client_ip = ir_client_ip rq, ai_mtls_subject = ir_mtls_subject rq\<rparr>)))"

subsection \<open>The limiter\<close>

record rate_window =
  rw_started_at :: time
  rw_count :: nat

type_synonym rate_windows = "(string \<times> rate_window) list"

text \<open>\<open>window_secs as i64\<close>, and \<open>Duration::seconds\<close>, which panics beyond \<open>i64::MAX\<close> milliseconds.\<close>

definition as_i64 :: "nat \<Rightarrow> int" where
  "as_i64 n = (if n < 2 ^ 63 then int n else int n - 2 ^ 64)"

definition duration_seconds :: "int \<Rightarrow> time option" where
  "duration_seconds s = (if \<bar>s\<bar> \<le> (2 ^ 63 - 1) div 1000 then Some (seconds_ns s) else None)"

definition rate_check ::
  "rate_limit_policy \<Rightarrow> time \<Rightarrow> rate_windows \<Rightarrow> string \<Rightarrow> (rate_windows \<times> (integration_error + unit)) option" where
  "rate_check policy now ws key =
     (case duration_seconds (as_i64 (rl_window_secs policy)) of
        None \<Rightarrow> None
      | Some window \<Rightarrow>
          let w = option_or (map_of ws key) \<lparr>rw_started_at = now, rw_count = 0\<rparr>;
              w = (if window \<le> now - rw_started_at w then \<lparr>rw_started_at = now, rw_count = 0\<rparr> else w) in
          if rl_max_requests policy \<le> rw_count w
          then Some (AList.update key w ws, Inl RateLimited)
          else Some (AList.update key (w\<lparr>rw_count := rw_count w + 1\<rparr>) ws, Inr ()))"

subsection \<open>Credentials that are rotated\<close>

datatype credential_kind =
    IntegrationApiKey | ScimBearerToken | OidcClientSecret | SamlCertificate | MtlsCertificateMetadata

fun credential_kind_str :: "credential_kind \<Rightarrow> string" where
  "credential_kind_str IntegrationApiKey = ''integration_api_key''"
| "credential_kind_str ScimBearerToken = ''scim_bearer_token''"
| "credential_kind_str OidcClientSecret = ''oidc_client_secret''"
| "credential_kind_str SamlCertificate = ''saml_certificate''"
| "credential_kind_str MtlsCertificateMetadata = ''mtls_certificate_metadata''"

datatype credential_status =
    CredActive | CredDue | CredRotating | CredRotated | CredFailedRetryable
  | CredManualIntervention | CredExternallyManaged | CredDisabled

fun credential_status_str :: "credential_status \<Rightarrow> string" where
  "credential_status_str CredActive = ''active''"
| "credential_status_str CredDue = ''due''"
| "credential_status_str CredRotating = ''rotating''"
| "credential_status_str CredRotated = ''rotated''"
| "credential_status_str CredFailedRetryable = ''failed_retryable''"
| "credential_status_str CredManualIntervention = ''manual_intervention_required''"
| "credential_status_str CredExternallyManaged = ''externally_managed''"
| "credential_status_str CredDisabled = ''disabled''"

record credential_policy =
  cp_credential_id :: string
  cp_kind :: credential_kind
  cp_enabled :: bool
  cp_interval_secs :: int
  cp_retry_backoff_secs :: int
  cp_max_attempts :: nat
  cp_manual_after_attempts :: nat
  cp_repo_local_automation :: bool

definition integration_key_policy :: "string \<Rightarrow> int \<Rightarrow> int \<Rightarrow> nat \<Rightarrow> nat \<Rightarrow> credential_policy" where
  "integration_key_policy key_id interval backoff attempts manual =
     \<lparr>cp_credential_id = key_id, cp_kind = IntegrationApiKey, cp_enabled = True, cp_interval_secs = interval,
      cp_retry_backoff_secs = backoff, cp_max_attempts = attempts, cp_manual_after_attempts = manual,
      cp_repo_local_automation = True\<rparr>"

definition externally_managed_policy ::
  "string \<Rightarrow> credential_kind \<Rightarrow> int \<Rightarrow> int \<Rightarrow> nat \<Rightarrow> nat \<Rightarrow> credential_policy" where
  "externally_managed_policy cid kind interval backoff attempts manual =
     \<lparr>cp_credential_id = cid, cp_kind = kind, cp_enabled = True, cp_interval_secs = interval,
      cp_retry_backoff_secs = backoff, cp_max_attempts = attempts, cp_manual_after_attempts = manual,
      cp_repo_local_automation = False\<rparr>"

definition next_due_after :: "credential_policy \<Rightarrow> time \<Rightarrow> time" where
  "next_due_after p t = t + seconds_ns (max (cp_interval_secs p) 1)"

definition retry_due_after :: "credential_policy \<Rightarrow> time \<Rightarrow> time" where
  "retry_due_after p t = t + seconds_ns (max (cp_retry_backoff_secs p) 1)"

record credential_state =
  cs_credential_id :: string
  cs_kind :: credential_kind
  cs_status :: credential_status
  cs_last_rotated_at :: "time option"
  cs_next_due_at :: time
  cs_last_attempt_at :: "time option"
  cs_attempts :: nat
  cs_active_version :: "string option"
  cs_last_error :: "string option"
  cs_manual_reason :: "string option"
  cs_updated_at :: time

definition credential_new_due :: "credential_policy \<Rightarrow> time \<Rightarrow> credential_state" where
  "credential_new_due p now =
     \<lparr>cs_credential_id = cp_credential_id p, cs_kind = cp_kind p,
      cs_status = (if cp_enabled p then CredDue else CredDisabled), cs_last_rotated_at = None,
      cs_next_due_at = now, cs_last_attempt_at = None, cs_attempts = 0, cs_active_version = None,
      cs_last_error = None, cs_manual_reason = None, cs_updated_at = now\<rparr>"

definition refresh_due_status :: "time \<Rightarrow> credential_state \<Rightarrow> credential_state" where
  "refresh_due_status now s =
     (if cs_status s \<in> {CredActive, CredRotated} \<and> cs_next_due_at s \<le> now
      then s\<lparr>cs_status := CredDue, cs_updated_at := now\<rparr> else s)"

definition credential_is_due :: "credential_policy \<Rightarrow> time \<Rightarrow> credential_state \<Rightarrow> bool" where
  "credential_is_due p now s =
     (if \<not> cp_enabled p then False
      else (case cs_status s of
              CredDue \<Rightarrow> True
            | CredActive \<Rightarrow> cs_next_due_at s \<le> now
            | CredRotated \<Rightarrow> cs_next_due_at s \<le> now
            | CredFailedRetryable \<Rightarrow>
                (case cs_last_attempt_at s of None \<Rightarrow> True | Some t \<Rightarrow> retry_due_after p t \<le> now)
            | _ \<Rightarrow> False))"

definition start_attempt :: "time \<Rightarrow> credential_state \<Rightarrow> credential_state" where
  "start_attempt now s =
     s\<lparr>cs_status := CredRotating, cs_last_attempt_at := Some now,
       cs_attempts := min (cs_attempts s + 1) (2 ^ 32 - 1), cs_updated_at := now\<rparr>"

definition mark_success :: "credential_policy \<Rightarrow> time \<Rightarrow> string \<Rightarrow> credential_state \<Rightarrow> credential_state" where
  "mark_success p now version s =
     s\<lparr>cs_status := CredActive, cs_last_rotated_at := Some now, cs_next_due_at := next_due_after p now,
       cs_active_version := Some version, cs_last_error := None, cs_manual_reason := None,
       cs_attempts := 0, cs_updated_at := now\<rparr>"

definition mark_failure :: "credential_policy \<Rightarrow> time \<Rightarrow> string \<Rightarrow> credential_state \<Rightarrow> credential_state" where
  "mark_failure p now err s =
     (let s = s\<lparr>cs_last_error := Some err, cs_updated_at := now\<rparr> in
      if max (cp_manual_after_attempts p) 1 \<le> cs_attempts s \<or> max (cp_max_attempts p) 1 \<le> cs_attempts s
      then s\<lparr>cs_status := CredManualIntervention, cs_manual_reason := Some err\<rparr>
      else s\<lparr>cs_status := CredFailedRetryable, cs_next_due_at := retry_due_after p now\<rparr>)"

definition mark_externally_managed :: "time \<Rightarrow> string \<Rightarrow> credential_state \<Rightarrow> credential_state" where
  "mark_externally_managed now reason s =
     s\<lparr>cs_status := CredExternallyManaged, cs_last_attempt_at := Some now, cs_last_error := Some reason,
       cs_manual_reason := Some reason, cs_updated_at := now\<rparr>"

record generated_secret =
  gs_version :: string
  gs_secret :: string

definition generate_integration_secret ::
  "(byte list \<Rightarrow> byte list) \<Rightarrow> (byte list \<Rightarrow> string) \<Rightarrow> string \<Rightarrow> string \<Rightarrow> string \<Rightarrow> generated_secret" where
  "generate_integration_secret sha hex_encode ulid key_id now_rfc3339 =
     (let digest = sha (as_bytes key_id @ as_bytes now_rfc3339 @ as_bytes ulid);
          safe = to_ascii_lowercase (take 12 (filter is_ascii_alphanumeric key_id)) in
      \<lparr>gs_version = ulid, gs_secret = ''sdqp_'' @ safe @ ''_'' @ hex_encode (take 24 digest)\<rparr>)"

subsection \<open>Who is let in\<close>

lemma res_of_option_eq_Inr: "res_of_option e x = Inr a \<longleftrightarrow> x = Some a"
  by (cases x) auto

lemma integration_authorize_Inr:
  "integration_authorize cfg scope require_mtls rq = Inr a \<longleftrightarrow>
    (\<exists>secret k. ir_api_key rq = Some secret \<and> find (\<lambda>k. ak_secret k = secret) (ic_api_keys cfg) = Some k
      \<and> (ic_ip_allowlist cfg = [] \<or> ir_client_ip rq \<in> set (ic_ip_allowlist cfg))
      \<and> (ak_scopes k = [] \<or> scope \<in> set (ak_scopes k))
      \<and> (ak_allowed_ips k = [] \<or> ir_client_ip rq \<in> set (ak_allowed_ips k))
      \<and> (require_mtls \<longrightarrow> (\<exists>s. ir_mtls_subject rq = Some s \<and>
           (ic_required_subjects cfg = [] \<or> s \<in> set (ic_required_subjects cfg))))
      \<and> a = \<lparr>ai_key_id = ak_key_id k, ai_client_ip = ir_client_ip rq, ai_mtls_subject = ir_mtls_subject rq\<rparr>)"
  by (auto simp: integration_authorize_def authorize_ip_def authorize_api_key_def authorize_mtls_def
      res_bind_eq_Inr res_of_option_eq_Inr split: if_splits)

text \<open>A key without scopes has every scope.\<close>

lemma unscoped_key_has_every_scope:
  assumes "integration_authorize cfg scope False rq = Inr a"
    and "find (\<lambda>k. Some (ak_secret k) = ir_api_key rq) (ic_api_keys cfg) = Some k" "ak_scopes k = []"
  shows "integration_authorize cfg other False rq = Inr a"
proof -
  have "(\<lambda>k. Some (ak_secret k) = Some secret) = (\<lambda>k. ak_secret k = secret)" for secret
    by auto
  with assms show ?thesis by (auto simp: integration_authorize_Inr)
qed

subsection \<open>The window\<close>

fun admitted ::
  "rate_limit_policy \<Rightarrow> string \<Rightarrow> rate_windows \<Rightarrow> (time \<times> string) list \<Rightarrow> nat option" where
  "admitted policy key ws [] = Some 0"
| "admitted policy key ws ((t, k) # calls) =
     (case rate_check policy t ws k of
        None \<Rightarrow> None
      | Some (ws', r) \<Rightarrow>
          map_option (\<lambda>n. (if k = key \<and> r = Inr () then 1 else 0) + n) (admitted policy key ws' calls))"

definition window_of :: "rate_windows \<Rightarrow> time \<Rightarrow> time \<Rightarrow> string \<Rightarrow> rate_window" where
  "window_of ws window now key =
     (let w = option_or (map_of ws key) \<lparr>rw_started_at = now, rw_count = 0\<rparr> in
      if window \<le> now - rw_started_at w then \<lparr>rw_started_at = now, rw_count = 0\<rparr> else w)"

lemma rate_check_step:
  assumes "duration_seconds (as_i64 (rl_window_secs policy)) = Some window"
  shows "rate_check policy now ws key =
    (let w = window_of ws window now key in
     if rw_count w < rl_max_requests policy
     then Some (AList.update key (w\<lparr>rw_count := rw_count w + 1\<rparr>) ws, Inr ())
     else Some (AList.update key w ws, Inl RateLimited))"
  using assms by (simp add: rate_check_def window_of_def Let_def not_less)

lemma admitted_in_open_window:
  assumes "duration_seconds (as_i64 (rl_window_secs policy)) = Some window" "0 < window"
    and "\<forall>c \<in> set calls. fst c < until" "map_of ws key = Some w" "until \<le> rw_started_at w + window"
  shows "\<exists>n. admitted policy key ws calls = Some n \<and> n \<le> rl_max_requests policy - rw_count w"
  using assms(3-)
proof (induction calls arbitrary: ws w)
  case (Cons c calls)
  obtain t k where c: "c = (t, k)" by (cases c)
  show ?case
  proof (cases "k = key")
    case True
    have "window_of ws window t key = w"
      using Cons.prems c by (simp add: window_of_def option_or_def Let_def)
    note step = rate_check_step [OF assms(1), of t ws key, unfolded this Let_def]
    show ?thesis
    proof (cases "rw_count w < rl_max_requests policy")
      case True
      obtain n where "admitted policy key (AList.update key (w\<lparr>rw_count := rw_count w + 1\<rparr>) ws) calls = Some n"
        "n \<le> rl_max_requests policy - (rw_count w + 1)"
        using Cons.IH [of "AList.update key (w\<lparr>rw_count := rw_count w + 1\<rparr>) ws" "w\<lparr>rw_count := rw_count w + 1\<rparr>"]
          Cons.prems by (auto simp: update_conv)
      with True show ?thesis by (simp add: c \<open>k = key\<close> step)
    next
      case False
      obtain n where "admitted policy key (AList.update key w ws) calls = Some n"
        "n \<le> rl_max_requests policy - rw_count w"
        using Cons.IH [of "AList.update key w ws" w] Cons.prems by (auto simp: update_conv)
      with False show ?thesis by (simp add: c \<open>k = key\<close> step)
    qed
  next
    case False
    obtain ws' r where step: "rate_check policy t ws k = Some (ws', r)" "map_of ws' key = map_of ws key"
      using rate_check_step [OF assms(1), of t ws k] False by (auto simp: Let_def update_conv split: if_splits)
    obtain n where "admitted policy key ws' calls = Some n" "n \<le> rl_max_requests policy - rw_count w"
      using Cons.IH [of ws' w] Cons.prems step by auto
    with False show ?thesis by (simp add: c step)
  qed
qed simp

lemma admitted_spans_two_windows:
  assumes "duration_seconds (as_i64 (rl_window_secs policy)) = Some window" "0 < window"
    and "\<forall>c \<in> set calls. start \<le> fst c \<and> fst c < start + window"
  shows "\<exists>n. admitted policy key ws calls = Some n \<and>
    n \<le> (rl_max_requests policy - (case map_of ws key of None \<Rightarrow> 0 | Some w \<Rightarrow> rw_count w)) + rl_max_requests policy"
  using assms(3)
proof (induction calls arbitrary: ws)
  case (Cons c calls)
  obtain t k where c: "c = (t, k)" by (cases c)
  let ?m = "rl_max_requests policy"
  have time: "start \<le> t" and rest: "\<forall>c \<in> set calls. start \<le> fst c \<and> fst c < start + window"
    using Cons.prems by (simp_all add: c)
  have later: "\<forall>c \<in> set calls. fst c < t + window" using rest time by force
  note step = rate_check_step [OF assms(1), of t ws k]
  show ?case
  proof (cases "k = key")
    case False
    obtain ws' r where check: "rate_check policy t ws k = Some (ws', r)" "map_of ws' key = map_of ws key"
      using step False by (auto simp: Let_def update_conv split: if_splits)
    obtain n where "admitted policy key ws' calls = Some n"
      "n \<le> (?m - (case map_of ws key of None \<Rightarrow> 0 | Some w \<Rightarrow> rw_count w)) + ?m"
      using Cons.IH [OF rest, of ws'] check by auto
    with False show ?thesis by (simp add: c check)
  next
    case True
    let ?w = "window_of ws window t key"
    let ?w1 = "if rw_count ?w < ?m then ?w\<lparr>rw_count := rw_count ?w + 1\<rparr> else ?w"
    let ?ws = "AList.update key ?w1 ws"
    have check: "rate_check policy t ws key = Some (?ws, if rw_count ?w < ?m then Inr () else Inl RateLimited)"
      using step True by (simp add: Let_def)
    have now: "map_of ?ws key = Some ?w1" by (simp add: update_conv)
    show ?thesis
    proof (cases "rw_started_at ?w = t \<and> rw_count ?w = 0")
      case fresh: True
      then have open_until: "t + window \<le> rw_started_at ?w1 + window" by simp
      obtain n where "admitted policy key ?ws calls = Some n" "n \<le> ?m - rw_count ?w1"
        using admitted_in_open_window [OF assms(1,2) later now open_until] by blast
      with fresh show ?thesis by (auto simp: c check True)
    next
      case False
      then have w: "map_of ws key = Some ?w"
        by (auto simp: window_of_def option_or_def Let_def split: option.splits if_splits)
      obtain n where "admitted policy key ?ws calls = Some n" "n \<le> (?m - rw_count ?w1) + ?m"
        using Cons.IH [OF rest, of ?ws] now by auto
      then show ?thesis using w by (auto simp: c check True)
    qed
  qed
qed simp

text \<open>
  For calls whose times fall within less than one window, whatever happened before, the limiter
  admits at most twice the configured number for an identifier, and it does not panic.
\<close>

lemma fixed_window_bound:
  assumes "duration_seconds (as_i64 (rl_window_secs policy)) = Some window" "0 < window"
    and "\<forall>c \<in> set calls. start \<le> fst c \<and> fst c < start + window"
  shows "\<exists>n. admitted policy key ws calls = Some n \<and> n \<le> 2 * rl_max_requests policy"
proof -
  obtain n where "admitted policy key ws calls = Some n"
    "n \<le> (rl_max_requests policy - (case map_of ws key of None \<Rightarrow> 0 | Some w \<Rightarrow> rw_count w)) + rl_max_requests policy"
    using admitted_spans_two_windows [OF assms] by blast
  then show ?thesis by (intro exI [of _ n]) linarith
qed

text \<open>The bound is not slack: a burst across the end of a window passes three calls of two per minute.\<close>

definition burst :: "(time \<times> string) list" where
  "burst = [(seconds_ns 59, ''k''), (seconds_ns 60, ''k''), (seconds_ns 61, ''k'')]"

lemma burst_passes_window:
  "admitted \<lparr>rl_max_requests = 2, rl_window_secs = 60\<rparr> ''k''
     [(''k'', \<lparr>rw_started_at = 0, rw_count = 1\<rparr>)] burst = Some 3"
  by (simp add: burst_def rate_check_def duration_seconds_def as_i64_def seconds_ns_def option_or_def Let_def)

theorem fixed_window_bound_witness:
  "\<exists>n. admitted \<lparr>rl_max_requests = 2, rl_window_secs = 60\<rparr> ''k'' [] burst = Some n \<and> n \<le> 4"
proof -
  have "duration_seconds (as_i64 60) = Some (seconds_ns 60)"
    by (simp add: duration_seconds_def as_i64_def)
  then show ?thesis
    using fixed_window_bound [of "\<lparr>rl_max_requests = 2, rl_window_secs = 60\<rparr>" "seconds_ns 60" burst
        "seconds_ns 59" "''k''" "[]"]
    by (simp add: burst_def seconds_ns_def)
qed

subsection \<open>Attempts\<close>

lemma rotating_is_never_due: "cs_status s = CredRotating \<Longrightarrow> \<not> credential_is_due p now s"
  by (simp add: credential_is_due_def)

text \<open>The attempts after which a person has to step in.\<close>

definition attempt_limit :: "credential_policy \<Rightarrow> nat" where
  "attempt_limit p = min (max (cp_manual_after_attempts p) 1) (max (cp_max_attempts p) 1)"

definition credential_ok :: "credential_policy \<Rightarrow> credential_state \<Rightarrow> bool" where
  "credential_ok p s =
     (cs_attempts s \<le> attempt_limit p \<and>
      (cs_status s \<in> {CredDue, CredActive, CredRotated} \<longrightarrow> cs_attempts s = 0) \<and>
      (cs_status s = CredFailedRetryable \<longrightarrow>
         cs_attempts s < attempt_limit p \<and> cs_last_error s \<noteq> None \<and> cs_last_attempt_at s \<noteq> None) \<and>
      (cs_status s = CredManualIntervention \<longrightarrow> cs_manual_reason s \<noteq> None))"

lemma attempt_limit_pos: "0 < attempt_limit p"
  by (simp add: attempt_limit_def less_max_iff_disj)

lemma credential_ok_new: "credential_ok p (credential_new_due p now)"
  by (simp add: credential_ok_def credential_new_due_def attempt_limit_pos)

lemma credential_ok_refresh: "credential_ok p s \<Longrightarrow> credential_ok p (refresh_due_status now s)"
  by (auto simp: credential_ok_def refresh_due_status_def)

lemma credential_ok_start:
  assumes "credential_ok p s" "credential_is_due p now s"
  shows "credential_ok p (start_attempt now s)"
proof -
  have "cs_attempts s < attempt_limit p"
    using assms attempt_limit_pos [of p]
    by (auto simp: credential_ok_def credential_is_due_def split: if_splits credential_status.splits)
  then show ?thesis by (simp add: credential_ok_def start_attempt_def)
qed

lemma credential_ok_success: "credential_ok p (mark_success p now v s)"
  by (simp add: credential_ok_def mark_success_def)

lemma credential_ok_failure:
  assumes "credential_ok p s" "cs_last_attempt_at s \<noteq> None"
  shows "credential_ok p (mark_failure p now e s)"
  using assms by (auto simp: credential_ok_def mark_failure_def attempt_limit_def Let_def)

lemma credential_ok_external: "credential_ok p s \<Longrightarrow> credential_ok p (mark_externally_managed now e s)"
  by (auto simp: credential_ok_def mark_externally_managed_def)

end
