(* ===== verification/HttpRequest.thy ===== *)
theory HttpRequest
  imports Authentication
begin

text \<open>
  How the API server reads a request, \<open>apps/sdqp-api/src/lib.rs\<close>: headers, bearer tokens, the
  query string of an upgraded connection, and the error answers.  Header names are lower case, as
  the HTTP library keeps them; a name that is repeated is read at its first value.
\<close>

record http_headers =
  hh_values :: "(string \<times> string) list"

record api_request =
  ap_headers :: http_headers
  ap_path :: string
  ap_query :: "string option"

text \<open>\<open>HeaderValue::to_str\<close> fails outside visible ASCII and tab.\<close>

definition header_text :: "string \<Rightarrow> string option" where
  "header_text v =
     (if list_all (\<lambda>c. (32 \<le> code_of c \<and> code_of c < 127) \<or> code_of c = 9) v then Some v else None)"

definition parse_header :: "http_headers \<Rightarrow> string \<Rightarrow> string option" where
  "parse_header h name = Option.bind (map_of (hh_values h) name) header_text"

definition extract_ip_address :: "http_headers \<Rightarrow> string" where
  "extract_ip_address h = option_or (parse_header h ''x-forwarded-for'') ''127.0.0.1''"

definition extract_bearer_token :: "http_headers \<Rightarrow> string option" where
  "extract_bearer_token h =
     Option.bind (parse_header h ''authorization'') (\<lambda>v. strip_prefix v ''Bearer '')"

definition is_websocket_upgrade :: "http_headers \<Rightarrow> bool" where
  "is_websocket_upgrade h =
     ((case parse_header h ''upgrade'' of None \<Rightarrow> False | Some v \<Rightarrow> eq_ignore_ascii_case v ''websocket'')
      \<or> map_of (hh_values h) ''sec-websocket-key'' \<noteq> None)"

text \<open>\<open>pair.splitn(2, '=')\<close>: the key, and the rest after the first sign or nothing.\<close>

definition query_pair :: "string \<Rightarrow> string \<times> string" where
  "query_pair pair = (case split_once (CHR ''='') pair of None \<Rightarrow> (pair, []) | Some kv \<Rightarrow> kv)"

definition parse_query_param :: "string option \<Rightarrow> string \<Rightarrow> string option" where
  "parse_query_param query target =
     Option.bind query (\<lambda>q. find_map (\<lambda>pair.
       let (k, v) = query_pair pair in if k \<noteq> target then None else Some v) (split_on (CHR ''&'') q))"

definition extract_request_access_token :: "api_request \<Rightarrow> string option" where
  "extract_request_access_token r =
     (case extract_bearer_token (ap_headers r) of
        Some t \<Rightarrow> Some t
      | None \<Rightarrow> if is_websocket_upgrade (ap_headers r) then parse_query_param (ap_query r) ''access_token'' else None)"

definition parse_scoped_request_value :: "api_request \<Rightarrow> string \<Rightarrow> string \<Rightarrow> string option" where
  "parse_scoped_request_value r header_name query_name =
     (case parse_header (ap_headers r) header_name of
        Some t \<Rightarrow> Some t
      | None \<Rightarrow> if is_websocket_upgrade (ap_headers r) then parse_query_param (ap_query r) query_name else None)"

text \<open>
  What a client is told of a challenge; the request options of WebAuthn have the fields of the
  library's.
\<close>

record mfa_challenge_response =
  mr_challenge_id :: string
  mr_method :: string
  mr_reason :: "string option"
  mr_expires_at :: time
  mr_webauthn_request :: "webauthn_options option"

text \<open>An error answer: its status, its text, and whether it asks for a second factor, and for which.\<close>

record api_error =
  ae_status :: nat
  ae_error :: string
  ae_step_up_required :: "bool option"
  ae_step_up_challenge :: "mfa_challenge_response option"

definition json_error :: "nat \<Rightarrow> string \<Rightarrow> api_error" where
  "json_error status message =
     \<lparr>ae_status = status, ae_error = message, ae_step_up_required = None, ae_step_up_challenge = None\<rparr>"

end
