(* ===== verification/IntegrationGate.thy ===== *)
theory IntegrationGate
  imports Integrations HttpRequest AuditChain
begin

text \<open>
  How the API server uses the integration policy, \<open>apps/sdqp-api/src/lib.rs\<close>: the middleware in
  front of the provisioning endpoints and the rotation of API keys.  The outcome of saving a key is
  an argument; an audit event is what the handler passes to the trail, without the actor and the
  tenant, which are the same for all events of a run, and its checkpoint is left out.
\<close>

subsection \<open>The middleware\<close>

fun integration_error_text :: "integration_error \<Rightarrow> string" where
  "integration_error_text MissingApiKey = ''integration api key is missing''"
| "integration_error_text InvalidApiKey = ''integration api key is invalid''"
| "integration_error_text ScopeDenied = ''integration scope is not allowed''"
| "integration_error_text IpDenied = ''integration client ip is not allowed''"
| "integration_error_text MissingMtlsSubject = ''mTLS client certificate subject is missing''"
| "integration_error_text UnauthorizedMtlsSubject = ''mTLS client certificate subject is not allowed''"
| "integration_error_text RateLimited = ''integration rate limit exceeded''"

definition integration_error_response :: "integration_error \<Rightarrow> api_error" where
  "integration_error_response e =
     json_error (if e = MissingApiKey \<or> e = InvalidApiKey then 401 else if e = RateLimited then 429 else 403)
       (integration_error_text e)"

definition required_scope :: "string \<Rightarrow> string \<times> bool" where
  "required_scope path =
     (if starts_with path ''/integrations/hr'' then (''hr.events'', True)
      else if starts_with path ''/integrations/audit/permission-transitions''
      then (''audit.permission_lifecycle'', False)
      else (''scim.sync'', False))"

definition integration_context :: "http_headers \<Rightarrow> integration_request" where
  "integration_context h =
     \<lparr>ir_client_ip = extract_ip_address h,
      ir_api_key = (case parse_header h ''x-api-key'' of
          Some k \<Rightarrow> Some k | None \<Rightarrow> parse_header h ''x-sdqp-api-key''),
      ir_mtls_subject = parse_header h ''x-client-cert-subject''\<rparr>"

definition rate_key :: "string \<Rightarrow> authorized_integration \<Rightarrow> string" where
  "rate_key scope a = scope @ '':'' @ ai_key_id a @ '':'' @ ai_client_ip a"

text \<open>The limiter's policy is its own, taken when the server starts.\<close>

definition integration_middleware ::
  "integration_config \<Rightarrow> rate_limit_policy \<Rightarrow> time \<Rightarrow> rate_windows \<Rightarrow> api_request
     \<Rightarrow> (rate_windows \<times> (api_error + authorized_integration)) option" where
  "integration_middleware cfg policy now ws r =
     (let (scope, require_mtls) = required_scope (ap_path r) in
      case integration_authorize cfg scope require_mtls (integration_context (ap_headers r)) of
        Inl e \<Rightarrow> Some (ws, Inl (integration_error_response e))
      | Inr a \<Rightarrow>
          (case rate_check policy now ws (rate_key scope a) of
             None \<Rightarrow> None
           | Some (ws', Inl e) \<Rightarrow> Some (ws', Inl (integration_error_response e))
           | Some (ws', Inr _) \<Rightarrow> Some (ws', Inr a)))"

subsection \<open>Rotation\<close>

record credential_settings =
  rs_enabled :: bool
  rs_interval_secs :: int
  rs_retry_backoff_secs :: int
  rs_max_attempts :: nat
  rs_manual_after_attempts :: nat

record rotation_audit =
  re_resource :: string
  re_action :: string
  re_fields :: "(string \<times> context_value) list"
  re_result :: action_result

record rotation_world =
  rn_config :: integration_config
  rn_states :: "(string \<times> credential_state) list"
  rn_audit :: "rotation_audit list"

record credential_attempt =
  ar_credential_id :: string
  ar_kind :: string
  ar_status :: string
  ar_rotated :: bool
  ar_repo_local_automation :: bool
  ar_retryable :: bool
  ar_manual_required :: bool
  ar_new_version :: "string option"
  ar_new_secret :: "string option"
  ar_next_due_at :: time
  ar_error :: "string option"

text \<open>What a cycle draws from outside: new secrets, and the outcome of saving a key, if there is a store.\<close>

record rotation_source =
  ro_generate :: "string \<Rightarrow> generated_secret"
  ro_save_key :: "api_key_record \<Rightarrow> string option"

definition build_rotation_policies :: "credential_settings \<Rightarrow> integration_config \<Rightarrow> credential_policy list" where
  "build_rotation_policies st cfg =
     (if \<not> rs_enabled st then []
      else map (\<lambda>k. integration_key_policy (ak_key_id k) (rs_interval_secs st) (rs_retry_backoff_secs st)
        (rs_max_attempts st) (rs_manual_after_attempts st)) (ic_api_keys cfg))"

definition ensure_state ::
  "time \<Rightarrow> credential_policy \<Rightarrow> (string \<times> credential_state) list \<Rightarrow> (string \<times> credential_state) list" where
  "ensure_state now p states =
     (let k = cp_credential_id p; s = option_or (map_of states k) (credential_new_due p now) in
      AList.update k (refresh_due_status now s) states)"

definition persist_state :: "credential_state \<Rightarrow> rotation_world \<Rightarrow> rotation_world" where
  "persist_state s w = w\<lparr>rn_states := AList.update (cs_credential_id s) s (rn_states w)\<rparr>"

definition attempt_response_of ::
  "credential_state \<Rightarrow> credential_policy \<Rightarrow> bool \<Rightarrow> string option \<Rightarrow> string option \<Rightarrow> string option
     \<Rightarrow> credential_attempt" where
  "attempt_response_of s p rotated version secret err =
     \<lparr>ar_credential_id = cs_credential_id s, ar_kind = credential_kind_str (cs_kind s),
      ar_status = credential_status_str (cs_status s), ar_rotated = rotated,
      ar_repo_local_automation = cp_repo_local_automation p,
      ar_retryable = (cs_status s = CredFailedRetryable),
      ar_manual_required = (cs_status s \<in> {CredManualIntervention, CredExternallyManaged}),
      ar_new_version = version, ar_new_secret = secret, ar_next_due_at = cs_next_due_at s, ar_error = err\<rparr>"

definition finish_unrotated ::
  "credential_policy \<Rightarrow> credential_state \<Rightarrow> rotation_world \<Rightarrow> rotation_world \<times> credential_attempt" where
  "finish_unrotated p s w =
     (persist_state s w, attempt_response_of s p False None None (cs_last_error s))"

definition rotate_api_key ::
  "rotation_source \<Rightarrow> credential_policy \<Rightarrow> time \<Rightarrow> credential_state \<Rightarrow> rotation_world
     \<Rightarrow> rotation_world \<times> credential_attempt" where
  "rotate_api_key src p now s w =
     (case api_key_record_of (rn_config w) (cp_credential_id p) of
        None \<Rightarrow> finish_unrotated p (mark_failure p now ''integration api key not found'' s) w
      | Some r \<Rightarrow>
          let g = ro_generate src (cp_credential_id p); r' = r\<lparr>ak_secret := gs_secret g\<rparr> in
          (case ro_save_key src r' of
             Some err \<Rightarrow> finish_unrotated p (mark_failure p now (''failed to persist rotated api key: '' @ err) s) w
           | None \<Rightarrow>
               let w = w\<lparr>rn_config := upsert_api_key (rn_config w) r'\<rparr>;
                   s = mark_success p now (gs_version g) s in
               (persist_state s w,
                attempt_response_of s p True (Some (gs_version g)) (Some (gs_secret g)) None)))"

definition rotate_single_credential ::
  "rotation_source \<Rightarrow> credential_policy \<Rightarrow> time \<Rightarrow> credential_state \<Rightarrow> rotation_world
     \<Rightarrow> rotation_world \<times> credential_attempt" where
  "rotate_single_credential src p now s w =
     (let s = start_attempt now s; w = persist_state s w in
      if \<not> cp_repo_local_automation p
      then finish_unrotated p
        (mark_externally_managed now ''credential requires external IdP or certificate authority rotation'' s) w
      else if cp_kind p = IntegrationApiKey then rotate_api_key src p now s w
      else finish_unrotated p
        (mark_externally_managed now ''credential kind is modeled but not repo-locally rotatable'' s) w)"

definition rotation_audit_of :: "credential_attempt \<Rightarrow> rotation_audit" where
  "rotation_audit_of r =
     \<lparr>re_resource = ''credential-rotation/'' @ ar_credential_id r,
      re_action = ''credential rotation '' @ ar_status r @ '' for '' @ ar_credential_id r,
      re_fields = context_build [(''credential_id'', CvText (ar_credential_id r)), (''credential_kind'', CvText (ar_kind r)),
        (''status'', CvText (ar_status r)), (''repo_local_automation'', CvBool (ar_repo_local_automation r)),
        (''rotated'', CvBool (ar_rotated r)), (''retryable'', CvBool (ar_retryable r)),
        (''manual_intervention_required'', CvBool (ar_manual_required r)),
        (''new_version'', CvText (option_or (ar_new_version r) ''none''))],
      re_result = (if ar_rotated r then ResSuccess
        else if ar_retryable r \<or> ar_manual_required r then ResFailure else ResDenied)\<rparr>"

definition nothing_due_audit :: "bool \<Rightarrow> nat \<Rightarrow> rotation_audit" where
  "nothing_due_audit force skipped =
     \<lparr>re_resource = ''credential-rotation'', re_action = ''credential rotation run found no due credentials'',
      re_fields = context_build [(''force'', CvBool force), (''skipped'', CvInteger (int skipped))], re_result = ResSuccess\<rparr>"

record credential_run_request =
  rr_force :: bool
  rr_credential_id :: "string option"

text \<open>The state of the loop: the world, the responses so far and the number skipped.\<close>

definition rotation_cycle_step ::
  "rotation_source \<Rightarrow> time \<Rightarrow> credential_run_request \<Rightarrow> rotation_world \<times> credential_attempt list \<times> nat
     \<Rightarrow> credential_policy \<Rightarrow> rotation_world \<times> credential_attempt list \<times> nat" where
  "rotation_cycle_step src now rq acc p =
     (case acc of (w, results, skipped) \<Rightarrow>
        if (case rr_credential_id rq of None \<Rightarrow> False | Some c \<Rightarrow> c \<noteq> cp_credential_id p) then acc
        else
          let s = option_or (map_of (rn_states w) (cp_credential_id p)) (credential_new_due p now) in
          if \<not> rr_force rq \<and> \<not> credential_is_due p now s then (w, results, skipped + 1)
          else
            let (w', response) = rotate_single_credential src p now s w in
            (w'\<lparr>rn_audit := rn_audit w' @ [rotation_audit_of response]\<rparr>, results @ [response], skipped))"

record rotation_report =
  rp_evaluated :: nat
  rp_rotated :: nat
  rp_failed :: nat
  rp_manual :: nat
  rp_skipped :: nat
  rp_results :: "credential_attempt list"

definition credential_rotation_cycle ::
  "credential_settings \<Rightarrow> rotation_source \<Rightarrow> time \<Rightarrow> credential_run_request \<Rightarrow> bool \<Rightarrow> rotation_world
     \<Rightarrow> rotation_world \<times> rotation_report" where
  "credential_rotation_cycle st src now rq emit_noop_audit w =
     (let policies = build_rotation_policies st (rn_config w);
          w = w\<lparr>rn_states := foldl (\<lambda>m p. ensure_state now p m) (rn_states w) policies\<rparr>;
          (w, results, skipped) = foldl (rotation_cycle_step src now rq) (w, [], 0) policies;
          w = (if results = [] \<and> emit_noop_audit
               then w\<lparr>rn_audit := rn_audit w @ [nothing_due_audit (rr_force rq) skipped]\<rparr> else w) in
      (w, \<lparr>rp_evaluated = length results, rp_rotated = length (filter ar_rotated results),
           rp_failed = length (filter ar_retryable results),
           rp_manual = length (filter ar_manual_required results), rp_skipped = skipped,
           rp_results = results\<rparr>))"

text \<open>The background job runs an unforced cycle for every credential and drops the report.\<close>

definition rotation_job_tick ::
  "credential_settings \<Rightarrow> rotation_source \<Rightarrow> time \<Rightarrow> rotation_world \<Rightarrow> rotation_world" where
  "rotation_job_tick st src now w =
     (if \<not> rs_enabled st then w
      else fst (credential_rotation_cycle st src now \<lparr>rr_force = False, rr_credential_id = None\<rparr> False w))"

subsection \<open>Who passes the middleware\<close>

lemma rate_check_admits:
  assumes "rate_check policy now ws key = Some (ws', Inr ())"
  shows "\<exists>w. map_of ws' key = Some w \<and> 0 < rw_count w \<and> rw_count w \<le> rl_max_requests policy"
  using assms by (auto simp: rate_check_def Let_def update_conv split: option.splits if_splits)

text \<open>
  A request passes only with a key of the configuration that has the scope of the path, from an
  address both lists allow, with a client certificate on the path of the HR system, and within the
  limit of its key and address.
\<close>

lemma integration_middleware_admits:
  assumes "integration_middleware cfg policy now ws r = Some (ws', Inr a)"
    and "required_scope (ap_path r) = (scope, require_mtls)"
  shows "\<exists>k w. k \<in> set (ic_api_keys cfg) \<and> ir_api_key (integration_context (ap_headers r)) = Some (ak_secret k)
    \<and> ai_key_id a = ak_key_id k \<and> (ak_scopes k = [] \<or> scope \<in> set (ak_scopes k))
    \<and> (ak_allowed_ips k = [] \<or> extract_ip_address (ap_headers r) \<in> set (ak_allowed_ips k))
    \<and> (ic_ip_allowlist cfg = [] \<or> extract_ip_address (ap_headers r) \<in> set (ic_ip_allowlist cfg))
    \<and> (require_mtls \<longrightarrow> parse_header (ap_headers r) ''x-client-cert-subject'' \<noteq> None)
    \<and> map_of ws' (rate_key scope a) = Some w \<and> rw_count w \<le> rl_max_requests policy"
proof -
  let ?rq = "integration_context (ap_headers r)"
  have auth: "integration_authorize cfg scope require_mtls ?rq = Inr a"
    and rate: "rate_check policy now ws (rate_key scope a) = Some (ws', Inr ())"
    using assms by (auto simp: integration_middleware_def split: sum.splits option.splits)
  have ctx: "ir_client_ip ?rq = extract_ip_address (ap_headers r)"
    "ir_mtls_subject ?rq = parse_header (ap_headers r) ''x-client-cert-subject''"
    by (simp_all add: integration_context_def)
  from auth obtain secret k where "ir_api_key ?rq = Some secret"
    "find (\<lambda>k. ak_secret k = secret) (ic_api_keys cfg) = Some k" and rest:
    "ic_ip_allowlist cfg = [] \<or> ir_client_ip ?rq \<in> set (ic_ip_allowlist cfg)"
    "ak_scopes k = [] \<or> scope \<in> set (ak_scopes k)"
    "ak_allowed_ips k = [] \<or> ir_client_ip ?rq \<in> set (ak_allowed_ips k)"
    "require_mtls \<longrightarrow> (\<exists>s. ir_mtls_subject ?rq = Some s)" "ai_key_id a = ak_key_id k"
    unfolding integration_authorize_Inr by auto
  moreover from rate_check_admits [OF rate] obtain w where
    "map_of ws' (rate_key scope a) = Some w" "rw_count w \<le> rl_max_requests policy" by blast
  ultimately show ?thesis
    unfolding ctx by (intro exI [of _ k] exI [of _ w]) (auto dest: find_Some_mem)
qed

text \<open>The address is what the caller puts in a header, so a list of addresses does not bind it.\<close>

lemma caller_chooses_address:
  assumes "list_all (\<lambda>c. 32 \<le> code_of c \<and> code_of c < 127) ip"
  shows "extract_ip_address (h\<lparr>hh_values := (''x-forwarded-for'', ip) # hh_values h\<rparr>) = ip"
  using assms by (auto simp: extract_ip_address_def parse_header_def header_text_def option_or_def list_all_iff)

subsection \<open>What rotation changes\<close>

lemma find_secret_unique:
  "distinct (map ak_secret ks) \<Longrightarrow> k \<in> set ks \<Longrightarrow> find (\<lambda>x. ak_secret x = ak_secret k) ks = Some k"
  by (induction ks) (auto simp: image_iff)

lemma find_secret_None: "find (\<lambda>x. ak_secret x = t) ks = None \<longleftrightarrow> t \<notin> ak_secret ` set ks"
  by (auto simp: find_None_iff)

text \<open>Replacing the secret of the first key of a name.\<close>

lemma replace_secret:
  assumes "find (\<lambda>k. ak_key_id k = c) ks = Some r" "distinct (map ak_secret ks)" "t \<notin> ak_secret ` set ks"
  shows "find (\<lambda>k. ak_secret k = u) (update_first (\<lambda>k. ak_key_id k = c) (\<lambda>_. r\<lparr>ak_secret := t\<rparr>) ks) =
    (if u = ak_secret r then None else if u = t then Some (r\<lparr>ak_secret := t\<rparr>)
     else find (\<lambda>k. ak_secret k = u) ks)"
  using assms
proof (induction ks)
  case (Cons k ks)
  show ?case
  proof (cases "ak_key_id k = c")
    case True
    with Cons.prems have r: "r = k" by simp
    have "find (\<lambda>k. ak_secret k = ak_secret r) ks = None" "find (\<lambda>k. ak_secret k = t) ks = None"
      using Cons.prems r by (auto simp: find_secret_None)
    with True r Cons.prems show ?thesis by auto
  next
    case False
    with Cons.prems have "find (\<lambda>k. ak_key_id k = c) ks = Some r" by simp
    moreover from this have "r \<in> set ks" using find_Some_mem by metis
    ultimately show ?thesis using Cons False by auto
  qed
qed simp

lemma find_id_list_ex: "find (\<lambda>k. ak_key_id k = c) ks = Some r \<Longrightarrow> list_ex (\<lambda>k. ak_key_id k = c) ks \<and> ak_key_id r = c"
  by (induction ks) (auto split: if_splits)

lemma rotate_api_key_rotated:
  assumes "rotate_api_key src p now s w = (w', resp)" "ar_rotated resp"
  obtains r where "api_key_record_of (rn_config w) (cp_credential_id p) = Some r"
    "rn_config w' = upsert_api_key (rn_config w) (r\<lparr>ak_secret := gs_secret (ro_generate src (cp_credential_id p))\<rparr>)"
    "ar_new_secret resp = Some (gs_secret (ro_generate src (cp_credential_id p)))"
proof (cases "api_key_record_of (rn_config w) (cp_credential_id p)")
  case None
  with assms show ?thesis
    by (auto simp: rotate_api_key_def finish_unrotated_def attempt_response_of_def)
next
  case (Some r)
  with assms show ?thesis
    by (intro that [of r])
      (auto simp: rotate_api_key_def finish_unrotated_def attempt_response_of_def persist_state_def Let_def
         split: option.splits)
qed

text \<open>
  A rotation that reports success leaves the old secret refused, gives the new secret the
  scopes and addresses of the old one, and changes nothing for any other secret, provided the
  secrets in force are distinct and the new one is not among them.
\<close>

lemma rotated_key_replaces_old:
  assumes "rotate_api_key src p now s w = (w', resp)" "ar_rotated resp" "ar_new_secret resp = Some new"
    and "api_key_record_of (rn_config w) (cp_credential_id p) = Some r"
    and "distinct (map ak_secret (ic_api_keys (rn_config w)))" "new \<notin> ak_secret ` set (ic_api_keys (rn_config w))"
  shows "authorize_api_key (rn_config w') scope ip (Some (ak_secret r)) = Inl InvalidApiKey
    \<and> authorize_api_key (rn_config w') scope ip (Some new) =
        map_sum id (\<lambda>k. k\<lparr>ak_secret := new\<rparr>) (authorize_api_key (rn_config w) scope ip (Some (ak_secret r)))
    \<and> (other = ak_secret r \<or> other = new
       \<or> authorize_api_key (rn_config w') scope ip (Some other) = authorize_api_key (rn_config w) scope ip (Some other))"
proof -
  let ?cfg = "rn_config w" and ?c = "cp_credential_id p"
  obtain r' where "api_key_record_of ?cfg ?c = Some r'"
    "rn_config w' = upsert_api_key ?cfg (r'\<lparr>ak_secret := gs_secret (ro_generate src ?c)\<rparr>)"
    "ar_new_secret resp = Some (gs_secret (ro_generate src ?c))"
    using rotate_api_key_rotated [OF assms(1,2)] .
  with assms(3,4) have cfg': "rn_config w' = upsert_api_key ?cfg (r\<lparr>ak_secret := new\<rparr>)" by simp
  have found: "find (\<lambda>k. ak_key_id k = ?c) (ic_api_keys ?cfg) = Some r"
    using assms(4) by (simp add: api_key_record_of_def)
  then have keys: "ic_api_keys (rn_config w') =
      update_first (\<lambda>k. ak_key_id k = ?c) (\<lambda>_. r\<lparr>ak_secret := new\<rparr>) (ic_api_keys ?cfg)"
    using find_id_list_ex [OF found] by (simp add: cfg' upsert_api_key_def Let_def)
  note find = replace_secret [OF found assms(5,6), folded keys]
  have r: "r \<in> set (ic_api_keys ?cfg)" using found find_Some_mem by metis
  then have "new \<noteq> ak_secret r" using assms(6) by auto
  with find find_secret_unique [OF assms(5) r] show ?thesis
    by (auto simp: authorize_api_key_def)
qed

subsection \<open>How often a rotation is tried\<close>

definition key_policy :: "credential_settings \<Rightarrow> string \<Rightarrow> credential_policy" where
  "key_policy st k = integration_key_policy k (rs_interval_secs st) (rs_retry_backoff_secs st)
     (rs_max_attempts st) (rs_manual_after_attempts st)"

definition states_ok :: "credential_settings \<Rightarrow> (string \<times> credential_state) list \<Rightarrow> bool" where
  "states_ok st states =
     (\<forall>k s. map_of states k = Some s \<longrightarrow> cs_credential_id s = k \<and> credential_ok (key_policy st k) s)"

lemma key_policy_fields [simp]:
  "cp_credential_id (key_policy st k) = k" "cp_repo_local_automation (key_policy st k)"
  "cp_kind (key_policy st k) = IntegrationApiKey"
  by (simp_all add: key_policy_def integration_key_policy_def)

lemma policies_of_keys:
  "p \<in> set (build_rotation_policies st cfg) \<Longrightarrow> p = key_policy st (cp_credential_id p)"
  by (auto simp: build_rotation_policies_def key_policy_def integration_key_policy_def split: if_splits)

lemma states_ok_update:
  "states_ok st states \<Longrightarrow> credential_ok (key_policy st (cs_credential_id s)) s \<Longrightarrow>
    states_ok st (AList.update (cs_credential_id s) s states)"
  by (auto simp: states_ok_def update_conv)

lemma new_due_id [simp]: "cs_credential_id (credential_new_due p now) = cp_credential_id p"
  by (simp add: credential_new_due_def)

lemma operations_keep_id [simp]:
  "cs_credential_id (refresh_due_status now s) = cs_credential_id s"
  "cs_credential_id (start_attempt now s) = cs_credential_id s"
  "cs_credential_id (mark_success p now v s) = cs_credential_id s"
  "cs_credential_id (mark_failure p now e s) = cs_credential_id s"
  by (simp_all add: refresh_due_status_def start_attempt_def mark_success_def mark_failure_def Let_def)

lemma stored_state_ok:
  assumes "states_ok st states"
  shows "credential_ok (key_policy st k) (option_or (map_of states k) (credential_new_due (key_policy st k) now))
    \<and> cs_credential_id (option_or (map_of states k) (credential_new_due (key_policy st k) now)) = k"
  using assms by (auto simp: states_ok_def option_or_def credential_ok_new split: option.splits)

lemma ensure_state_ok:
  assumes "states_ok st states" "p = key_policy st (cp_credential_id p)"
  shows "states_ok st (ensure_state now p states)"
proof -
  let ?k = "cp_credential_id p"
  let ?s = "refresh_due_status now (option_or (map_of states ?k) (credential_new_due p now))"
  have "credential_ok (key_policy st ?k) ?s" "cs_credential_id ?s = ?k"
    using stored_state_ok [OF assms(1), of ?k now] assms(2) by (auto intro: credential_ok_refresh)
  with states_ok_update [OF assms(1), of ?s] show ?thesis
    by (simp add: ensure_state_def Let_def)
qed

lemma ensure_states_ok:
  "states_ok st states \<Longrightarrow> \<forall>p \<in> set ps. p = key_policy st (cp_credential_id p) \<Longrightarrow>
    states_ok st (foldl (\<lambda>m p. ensure_state now p m) states ps)"
  by (induction ps arbitrary: states) (auto intro: ensure_state_ok)

lemma rotate_single_ok:
  assumes "states_ok st (rn_states w)" "credential_ok (key_policy st k) s" "cs_credential_id s = k"
    and "credential_is_due (key_policy st k) now s"
  shows "states_ok st (rn_states (fst (rotate_single_credential src (key_policy st k) now s w)))"
proof -
  let ?p = "key_policy st k" and ?s = "start_attempt now s"
  have s: "credential_ok ?p ?s" "cs_credential_id ?s = k" "cs_last_attempt_at ?s \<noteq> None"
    using credential_ok_start [OF assms(2,4)] assms(3) by (simp_all add: start_attempt_def)
  have w: "states_ok st (rn_states (persist_state ?s w))"
    using states_ok_update [OF assms(1), of ?s] s by (simp add: persist_state_def)
  have fail: "states_ok st (rn_states (fst (finish_unrotated ?p (mark_failure ?p now e ?s) w')))"
    if "states_ok st (rn_states w')" for e w'
    using states_ok_update [OF that, of "mark_failure ?p now e ?s"] credential_ok_failure [OF s(1,3)] s(2)
    by (simp add: finish_unrotated_def persist_state_def)
  have success: "states_ok st (rn_states (persist_state (mark_success ?p now v ?s) w'))"
    if "states_ok st (rn_states w')" for v w'
    using states_ok_update [OF that, of "mark_success ?p now v ?s"] credential_ok_success s(2)
    by (simp add: persist_state_def)
  show ?thesis
    using w by (auto simp: rotate_single_credential_def rotate_api_key_def Let_def
        split: option.splits intro!: fail success)
qed

lemma cycle_step_ok:
  assumes "states_ok st (rn_states (fst acc))" "p = key_policy st (cp_credential_id p)" "\<not> rr_force rq"
  shows "states_ok st (rn_states (fst (rotation_cycle_step src now rq acc p)))"
proof -
  obtain w results skipped where acc: "acc = (w, results, skipped)" by (cases acc)
  let ?k = "cp_credential_id p"
  let ?s = "option_or (map_of (rn_states w) ?k) (credential_new_due p now)"
  have s: "credential_ok (key_policy st ?k) ?s" "cs_credential_id ?s = ?k"
    using stored_state_ok [of st "rn_states w" ?k now] assms(1,2) by (simp_all add: acc)
  have "states_ok st (rn_states (fst (rotate_single_credential src p now ?s w)))"
    if "credential_is_due p now ?s"
    using rotate_single_ok [of st w ?k ?s now src] assms that s by (simp add: acc)
  then show ?thesis
    using assms by (auto simp: rotation_cycle_step_def acc Let_def split: option.splits prod.splits)
qed

lemma cycle_steps_ok:
  "states_ok st (rn_states (fst acc)) \<Longrightarrow> \<forall>p \<in> set ps. p = key_policy st (cp_credential_id p) \<Longrightarrow>
    \<not> rr_force rq \<Longrightarrow> states_ok st (rn_states (fst (foldl (rotation_cycle_step src now rq) acc ps)))"
proof (induction ps arbitrary: acc)
  case (Cons p ps)
  then have "states_ok st (rn_states (fst (rotation_cycle_step src now rq acc p)))"
    by (intro cycle_step_ok) simp_all
  with Cons show ?case by simp
qed simp

lemma rotation_job_tick_ok:
  assumes "states_ok st (rn_states w)"
  shows "states_ok st (rn_states (rotation_job_tick st src now w))"
proof -
  let ?ps = "build_rotation_policies st (rn_config w)"
  let ?w = "w\<lparr>rn_states := foldl (\<lambda>m p. ensure_state now p m) (rn_states w) ?ps\<rparr>"
  have ps: "\<forall>p \<in> set ?ps. p = key_policy st (cp_credential_id p)" using policies_of_keys by blast
  have "states_ok st (rn_states ?w)" using ensure_states_ok [OF assms ps] by simp
  then have "states_ok st (rn_states (fst (foldl (rotation_cycle_step src now
      \<lparr>rr_force = False, rr_credential_id = None\<rparr>) (?w, [], 0) ?ps)))"
    using cycle_steps_ok [OF _ ps, of "(?w, [], 0)"] by simp
  then show ?thesis
    using assms by (auto simp: rotation_job_tick_def credential_rotation_cycle_def Let_def split: prod.splits)
qed

fun job_run :: "credential_settings \<Rightarrow> (rotation_source \<times> time) list \<Rightarrow> rotation_world \<Rightarrow> rotation_world" where
  "job_run st [] w = w"
| "job_run st ((src, now) # ticks) w = job_run st ticks (rotation_job_tick st src now w)"

lemma job_run_ok: "states_ok st (rn_states w) \<Longrightarrow> states_ok st (rn_states (job_run st ticks w))"
  by (induction st ticks w rule: job_run.induct) (simp_all add: rotation_job_tick_ok)

text \<open>
  However often the background job runs, and whatever fails, it never tries a credential more
  often in a row than the policy's limit; one it may still retry is below the limit and has its
  error recorded, and one it has given up on says why.
\<close>

lemma rotation_attempts_bounded:
  assumes "map_of (rn_states (job_run st ticks \<lparr>rn_config = cfg, rn_states = [], rn_audit = []\<rparr>)) k = Some s"
  shows "cs_attempts s \<le> attempt_limit (key_policy st k) \<and>
    (cs_status s = CredFailedRetryable \<longrightarrow>
       cs_attempts s < attempt_limit (key_policy st k) \<and> cs_last_error s \<noteq> None) \<and>
    (cs_status s = CredManualIntervention \<longrightarrow> cs_manual_reason s \<noteq> None)"
proof -
  have "states_ok st (rn_states (job_run st ticks \<lparr>rn_config = cfg, rn_states = [], rn_audit = []\<rparr>))"
    by (rule job_run_ok) (simp add: states_ok_def)
  with assms show ?thesis by (auto simp: states_ok_def credential_ok_def)
qed

subsection \<open>Concrete runs\<close>

definition sample_key :: api_key_record where
  "sample_key = \<lparr>ak_key_id = ''scim'', ak_secret = ''old'', ak_scopes = [''scim.sync''], ak_allowed_ips = []\<rparr>"

definition sample_world :: rotation_world where
  "sample_world = \<lparr>rn_config = \<lparr>ic_api_keys = [sample_key], ic_ip_allowlist = [], ic_required_subjects = [],
     ic_rate_limit = rate_limit_policy_default\<rparr>, rn_states = [], rn_audit = []\<rparr>"

definition sample_settings :: credential_settings where
  "sample_settings = \<lparr>rs_enabled = True, rs_interval_secs = 90, rs_retry_backoff_secs = 10, rs_max_attempts = 2,
     rs_manual_after_attempts = 2\<rparr>"

definition good_source :: rotation_source where
  "good_source = \<lparr>ro_generate = (\<lambda>_. \<lparr>gs_version = ''v2'', gs_secret = ''new''\<rparr>), ro_save_key = (\<lambda>_. None)\<rparr>"

definition failing_source :: rotation_source where
  "failing_source = good_source\<lparr>ro_save_key := (\<lambda>_. Some ''disk full'')\<rparr>"

lemmas rotation_run_defs = rotation_job_tick_def credential_rotation_cycle_def build_rotation_policies_def
  ensure_state_def rotation_cycle_step_def rotate_single_credential_def rotate_api_key_def api_key_record_of_def
  upsert_api_key_def finish_unrotated_def persist_state_def attempt_response_of_def credential_is_due_def
  credential_new_due_def refresh_due_status_def start_attempt_def mark_success_def mark_failure_def
  integration_key_policy_def retry_due_after_def seconds_ns_def option_or_def Let_def

text \<open>
  The first tick of the job finds every configured key without a state, hence due, and replaces its
  secret; the tick returns nothing, so nobody learns the new one.
\<close>

lemma first_tick_replaces_keys:
  "ic_api_keys (rn_config (rotation_job_tick sample_settings good_source 0 sample_world)) =
    [sample_key\<lparr>ak_secret := ''new''\<rparr>]"
  by (simp add: rotation_run_defs sample_settings_def good_source_def sample_world_def sample_key_def)

lemma failing_job_stops:
  "map_option (\<lambda>s. (cs_status s, cs_attempts s)) (map_of (rn_states (job_run sample_settings
     [(failing_source, 0), (failing_source, seconds_ns 60), (failing_source, seconds_ns 120)] sample_world)) ''scim'')
   = Some (CredManualIntervention, 2)"
  by (simp add: rotation_run_defs sample_settings_def failing_source_def good_source_def sample_world_def sample_key_def)

theorem rotation_attempts_bounded_witness:
  "\<exists>s. map_of (rn_states (job_run sample_settings [(failing_source, 0)] sample_world)) ''scim'' = Some s
    \<and> cs_attempts s \<le> 2"
proof -
  obtain s where s: "map_of (rn_states (job_run sample_settings [(failing_source, 0)] sample_world)) ''scim'' = Some s"
    by (simp add: rotation_run_defs sample_settings_def failing_source_def good_source_def sample_world_def
        sample_key_def)
  have limit: "attempt_limit (key_policy sample_settings ''scim'') = 2"
    by (simp add: attempt_limit_def key_policy_def integration_key_policy_def sample_settings_def)
  from rotation_attempts_bounded [OF s [unfolded sample_world_def]] s show ?thesis
    by (intro exI [of _ s]) (simp add: limit)
qed

theorem rotated_key_replaces_old_witness:
  "let p = key_policy sample_settings ''scim''; (w', resp) = rotate_api_key good_source p 0
       (start_attempt 0 (credential_new_due p 0)) sample_world in
   authorize_api_key (rn_config w') ''scim.sync'' ''10.0.0.1'' (Some ''old'') = Inl InvalidApiKey
   \<and> authorize_api_key (rn_config w') ''scim.sync'' ''10.0.0.1'' (Some ''new'') = Inr (sample_key\<lparr>ak_secret := ''new''\<rparr>)"
proof -
  let ?p = "key_policy sample_settings ''scim''" and ?s = "start_attempt 0 (credential_new_due (key_policy sample_settings ''scim'') 0)"
  obtain w' resp where run: "rotate_api_key good_source ?p 0 ?s sample_world = (w', resp)" by fastforce
  have found: "api_key_record_of (rn_config sample_world) (cp_credential_id ?p) = Some sample_key"
    by (simp add: api_key_record_of_def sample_world_def sample_key_def)
  have resp: "ar_rotated resp" "ar_new_secret resp = Some ''new''"
    using run found by (auto simp: rotate_api_key_def good_source_def attempt_response_of_def Let_def)
  have keys: "distinct (map ak_secret (ic_api_keys (rn_config sample_world)))"
    "''new'' \<notin> ak_secret ` set (ic_api_keys (rn_config sample_world))"
    by (simp_all add: sample_world_def sample_key_def)
  have old: "authorize_api_key (rn_config sample_world) ''scim.sync'' ''10.0.0.1'' (Some ''old'') = Inr sample_key"
    by (simp add: authorize_api_key_def sample_world_def sample_key_def)
  show ?thesis
    using rotated_key_replaces_old [OF run resp found keys, of "''scim.sync''" "''10.0.0.1''"] old
    by (simp add: run sample_key_def)
qed

end
