(* ===== verification/SingleSignOn.thy ===== *)
theory SingleSignOn
  imports Authentication
begin

text \<open>
  Single sign-on of \<open>sdqp-system-security\<close>, \<open>auth/sso.rs\<close>: the mock adapter, the OIDC code flow
  and the SAML artifact exchange.  The HTTP client, with the JSON bodies it parses, and the URL
  library are arguments.
\<close>

datatype sso_protocol = Oidc | Saml

record sso_initiation =
  sx_protocol :: sso_protocol
  sx_authorization_url :: string
  sx_relay_state :: string
  sx_mock_code :: string

record sso_claims =
  sl_subject :: string
  sl_username :: string
  sl_email :: string
  sl_display_name :: string
  sl_groups :: "string list"
  sl_auth_source :: trusted_source

record oidc_config =
  od_provider :: string
  od_issuer_url :: string
  od_client_id :: string
  od_client_secret :: string
  od_authorize_url :: string
  od_token_url :: string
  od_userinfo_url :: string

record saml_config =
  sa_provider :: string
  sa_issuer_url :: string
  sa_entity_id :: string
  sa_audience :: string
  sa_sso_url :: string
  sa_exchange_url :: string

datatype sso_error =
    SsoUnknownProvider string | SsoConfiguration string | SsoProviderProtocol string
  | SsoRequest string | InvalidCallbackCode

definition relay_state_for :: "string \<Rightarrow> string" where
  "relay_state_for hint = ''relay-'' @ hint"

fun protocol_label :: "sso_protocol \<Rightarrow> string" where
  "protocol_label Oidc = ''oidc''"
| "protocol_label Saml = ''saml''"

subsection \<open>The mock adapter\<close>

record mock_sso =
  mk_issuer_url :: string
  mk_client_id :: string

definition mock_start_auth :: "mock_sso \<Rightarrow> sso_protocol \<Rightarrow> string \<Rightarrow> string \<Rightarrow> sso_initiation" where
  "mock_start_auth m proto hint redirect =
     (let relay = relay_state_for hint; name = protocol_label proto in
      \<lparr>sx_protocol = proto,
       sx_authorization_url = trim_end_matches (CHR ''/'') (mk_issuer_url m) @ ''/authorize?client_id='' @ mk_client_id m
         @ ''&redirect_uri='' @ redirect @ ''&protocol='' @ name @ ''&login_hint='' @ hint @ ''&state='' @ relay,
       sx_relay_state = relay, sx_mock_code = ''mock:'' @ name @ '':'' @ hint\<rparr>)"

definition to_ascii_uppercase :: "string \<Rightarrow> string" where
  "to_ascii_uppercase s =
     map (\<lambda>c. if 97 \<le> code_of c \<and> code_of c \<le> 122 then char_of (code_of c - 32) else c) s"

fun protocol_debug :: "sso_protocol \<Rightarrow> string" where
  "protocol_debug Oidc = ''Oidc''"
| "protocol_debug Saml = ''Saml''"

definition mock_exchange_code :: "sso_protocol \<Rightarrow> string \<Rightarrow> sso_claims option" where
  "mock_exchange_code proto code =
     Option.bind (strip_prefix code (''mock:'' @ protocol_label proto @ '':'')) (\<lambda>hint.
       let (groups, src) = (case proto of
             Oidc \<Rightarrow> ([''scim:analysts'', ''scim:project-alpha''], OidcSource)
           | Saml \<Rightarrow> ([''scim:admins'', ''scim:project-alpha''], SamlSource)) in
       Some \<lparr>sl_subject = to_ascii_lowercase (protocol_debug proto @ ''-subject-'' @ hint),
             sl_username = hint, sl_email = hint @ ''@example.internal'',
             sl_display_name = to_ascii_uppercase (replace_char (CHR ''-'') '' '' hint),
             sl_groups = groups, sl_auth_source = src\<rparr>)"

subsection \<open>The library of the adapters\<close>

text \<open>An HTTP reply: a transport error, or the status, its text, and the body or the parse error.\<close>

type_synonym 'a http_reply = "string + (nat \<times> string \<times> (string + 'a))"

record oidc_token_request =
  ot_grant_type :: string
  ot_code :: string
  ot_client_id :: string
  ot_client_secret :: string
  ot_redirect_uri :: string

record oidc_userinfo =
  ou_sub :: string
  ou_preferred_username :: "string option"
  ou_username :: "string option"
  ou_email :: "string option"
  ou_name :: "string option"
  ou_display_name :: "string option"
  ou_groups :: "string list"

record saml_request =
  sq_artifact :: string
  sq_entity_id :: string
  sq_audience :: string
  sq_redirect_uri :: string

record saml_response =
  sp_issuer :: string
  sp_audience :: string
  sp_subject :: string
  sp_username :: string
  sp_email :: string
  sp_display_name :: string
  sp_groups :: "string list"

record sso_env =
  se_url_with_pairs :: "string \<Rightarrow> (string \<times> string) list \<Rightarrow> string + string"
  se_post_token :: "string \<Rightarrow> oidc_token_request \<Rightarrow> string http_reply"
  se_get_userinfo :: "string \<Rightarrow> string \<Rightarrow> oidc_userinfo http_reply"
  se_post_saml :: "string \<Rightarrow> saml_request \<Rightarrow> saml_response http_reply"

definition sso_reply :: "string \<Rightarrow> 'a http_reply \<Rightarrow> sso_error + 'a" where
  "sso_reply what r =
     (case r of
        Inl e \<Rightarrow> Inl (SsoRequest e)
      | Inr (status, status_text, body) \<Rightarrow>
          if status < 200 \<or> 299 < status then Inl (SsoRequest (what @ '' failed with status '' @ status_text))
          else (case body of Inl e \<Rightarrow> Inl (SsoProviderProtocol e) | Inr a \<Rightarrow> Inr a))"

definition sso_required :: "string \<Rightarrow> string \<Rightarrow> sso_error + unit" where
  "sso_required label v =
     (if trim v = [] then Inl (SsoConfiguration (label @ '' must not be empty'')) else Inr ())"

subsection \<open>OIDC\<close>

definition oidc_from_config :: "oidc_config \<Rightarrow> sso_error + oidc_config" where
  "oidc_from_config c =
     res_bind (sso_required ''oidc.authorize_url'' (od_authorize_url c)) (\<lambda>_.
     res_bind (sso_required ''oidc.token_url'' (od_token_url c)) (\<lambda>_.
     res_bind (sso_required ''oidc.userinfo_url'' (od_userinfo_url c)) (\<lambda>_.
     res_bind (sso_required ''oidc.client_id'' (od_client_id c)) (\<lambda>_.
     res_bind (sso_required ''oidc.client_secret'' (od_client_secret c)) (\<lambda>_. Inr c)))))"

definition oidc_start_auth :: "sso_env \<Rightarrow> oidc_config \<Rightarrow> string \<Rightarrow> string \<Rightarrow> sso_error + sso_initiation" where
  "oidc_start_auth env c hint redirect =
     (let relay = relay_state_for hint in
      case se_url_with_pairs env (od_authorize_url c)
          [(''client_id'', od_client_id c), (''redirect_uri'', redirect), (''response_type'', ''code''),
           (''scope'', ''openid profile email groups''), (''login_hint'', hint), (''state'', relay)] of
        Inl e \<Rightarrow> Inl (SsoConfiguration (''invalid oidc authorize url: '' @ e))
      | Inr url \<Rightarrow> Inr \<lparr>sx_protocol = Oidc, sx_authorization_url = url, sx_relay_state = relay, sx_mock_code = []\<rparr>)"

definition into_claims :: "oidc_userinfo \<Rightarrow> sso_error + sso_claims" where
  "into_claims u =
     res_bind (res_of_option (SsoProviderProtocol ''oidc userinfo missing username'')
        (or_else (or_else (ou_preferred_username u) (ou_username u))
           (map_option (\<lambda>e. hd (split_on (CHR ''@'') e)) (ou_email u)))) (\<lambda>username.
       Inr \<lparr>sl_subject = ou_sub u, sl_username = username,
            sl_email = option_or (ou_email u) (username @ ''@example.internal''),
            sl_display_name = option_or (or_else (ou_display_name u) (ou_name u)) username,
            sl_groups = ou_groups u, sl_auth_source = OidcSource\<rparr>)"

definition oidc_exchange_code :: "sso_env \<Rightarrow> oidc_config \<Rightarrow> string \<Rightarrow> string \<Rightarrow> sso_error + sso_claims" where
  "oidc_exchange_code env c code redirect =
     (if trim code = [] then Inl InvalidCallbackCode
      else
        res_bind (sso_reply ''oidc token exchange'' (se_post_token env (od_token_url c)
            \<lparr>ot_grant_type = ''authorization_code'', ot_code = code, ot_client_id = od_client_id c,
             ot_client_secret = od_client_secret c, ot_redirect_uri = redirect\<rparr>)) (\<lambda>token.
        if trim token = [] then Inl (SsoProviderProtocol ''oidc token response missing access token'')
        else res_bind (sso_reply ''oidc userinfo'' (se_get_userinfo env (od_userinfo_url c) token)) into_claims))"

subsection \<open>SAML\<close>

definition saml_from_config :: "saml_config \<Rightarrow> sso_error + saml_config" where
  "saml_from_config c =
     res_bind (sso_required ''saml.sso_url'' (sa_sso_url c)) (\<lambda>_.
     res_bind (sso_required ''saml.exchange_url'' (sa_exchange_url c)) (\<lambda>_.
     res_bind (sso_required ''saml.entity_id'' (sa_entity_id c)) (\<lambda>_.
     res_bind (sso_required ''saml.audience'' (sa_audience c)) (\<lambda>_.
     res_bind (sso_required ''saml.issuer_url'' (sa_issuer_url c)) (\<lambda>_. Inr c)))))"

definition saml_start_auth :: "sso_env \<Rightarrow> saml_config \<Rightarrow> string \<Rightarrow> string \<Rightarrow> sso_error + sso_initiation" where
  "saml_start_auth env c hint redirect =
     (let relay = relay_state_for hint in
      case se_url_with_pairs env (sa_sso_url c)
          [(''entity_id'', sa_entity_id c), (''audience'', sa_audience c), (''login_hint'', hint),
           (''redirect_uri'', redirect), (''relay_state'', relay)] of
        Inl e \<Rightarrow> Inl (SsoConfiguration (''invalid saml sso url: '' @ e))
      | Inr url \<Rightarrow> Inr \<lparr>sx_protocol = Saml, sx_authorization_url = url, sx_relay_state = relay, sx_mock_code = []\<rparr>)"

definition saml_exchange_code :: "sso_env \<Rightarrow> saml_config \<Rightarrow> string \<Rightarrow> string \<Rightarrow> sso_error + sso_claims" where
  "saml_exchange_code env c code redirect =
     (if trim code = [] then Inl InvalidCallbackCode
      else
        res_bind (sso_reply ''saml exchange'' (se_post_saml env (sa_exchange_url c)
            \<lparr>sq_artifact = code, sq_entity_id = sa_entity_id c, sq_audience = sa_audience c,
             sq_redirect_uri = redirect\<rparr>)) (\<lambda>a.
        if sp_issuer a \<noteq> sa_issuer_url c
        then Inl (SsoProviderProtocol (''unexpected saml issuer '' @ sp_issuer a))
        else if sp_audience a \<noteq> sa_audience c
        then Inl (SsoProviderProtocol (''unexpected saml audience '' @ sp_audience a))
        else Inr \<lparr>sl_subject = sp_subject a, sl_username = sp_username a, sl_email = sp_email a,
                  sl_display_name = sp_display_name a, sl_groups = sp_groups a, sl_auth_source = SamlSource\<rparr>))"

subsection \<open>The registry\<close>

datatype sso_entry = MockSso mock_sso | OidcSso oidc_config | SamlSso saml_config

record sso_registry =
  sg_oidc :: sso_entry
  sg_saml :: sso_entry

definition sso_registry_from_configs :: "oidc_config \<Rightarrow> saml_config \<Rightarrow> sso_error + sso_registry" where
  "sso_registry_from_configs oc sc =
     (let op = to_ascii_lowercase (trim (od_provider oc)); sp = to_ascii_lowercase (trim (sa_provider sc)) in
      res_bind
        (if op = ''mock'' then Inr (MockSso \<lparr>mk_issuer_url = od_issuer_url oc, mk_client_id = od_client_id oc\<rparr>)
         else if op = ''oidc'' then res_bind (oidc_from_config oc) (\<lambda>c. Inr (OidcSso c))
         else Inl (SsoUnknownProvider op)) (\<lambda>oidc.
      res_bind
        (if sp = ''mock'' then Inr (MockSso \<lparr>mk_issuer_url = sa_issuer_url sc, mk_client_id = sa_entity_id sc\<rparr>)
         else if sp = ''saml'' then res_bind (saml_from_config sc) (\<lambda>c. Inr (SamlSso c))
         else Inl (SsoUnknownProvider sp)) (\<lambda>saml.
      Inr \<lparr>sg_oidc = oidc, sg_saml = saml\<rparr>)))"

definition sso_provider :: "sso_registry \<Rightarrow> sso_protocol \<Rightarrow> sso_entry" where
  "sso_provider reg proto = (case proto of Oidc \<Rightarrow> sg_oidc reg | Saml \<Rightarrow> sg_saml reg)"

definition sso_start_auth ::
  "sso_env \<Rightarrow> sso_registry \<Rightarrow> sso_protocol \<Rightarrow> string \<Rightarrow> string \<Rightarrow> sso_error + sso_initiation" where
  "sso_start_auth env reg proto hint redirect =
     (case sso_provider reg proto of
        MockSso m \<Rightarrow> Inr (mock_start_auth m proto hint redirect)
      | OidcSso c \<Rightarrow> oidc_start_auth env c hint redirect
      | SamlSso c \<Rightarrow> saml_start_auth env c hint redirect)"

definition sso_exchange_code ::
  "sso_env \<Rightarrow> sso_registry \<Rightarrow> sso_protocol \<Rightarrow> string \<Rightarrow> string \<Rightarrow> sso_error + sso_claims" where
  "sso_exchange_code env reg proto code redirect =
     (case sso_provider reg proto of
        MockSso m \<Rightarrow> res_of_option InvalidCallbackCode (mock_exchange_code proto code)
      | OidcSso c \<Rightarrow> oidc_exchange_code env c code redirect
      | SamlSso c \<Rightarrow> saml_exchange_code env c code redirect)"

subsection \<open>What an exchange vouches for\<close>

lemma sso_required_Inr: "sso_required label v = Inr u \<longleftrightarrow> trim v \<noteq> []"
  by (simp add: sso_required_def)

text \<open>A registry holds only adapters whose endpoints and credentials are set.\<close>

lemma registry_is_configured:
  assumes "sso_registry_from_configs oc sc = Inr reg"
  shows "(sg_oidc reg = OidcSso c \<longrightarrow> trim (od_token_url c) \<noteq> [] \<and> trim (od_client_secret c) \<noteq> [])
    \<and> (sg_saml reg = SamlSso s \<longrightarrow> trim (sa_issuer_url s) \<noteq> [] \<and> trim (sa_audience s) \<noteq> [])"
  using assms
  by (auto simp: sso_registry_from_configs_def oidc_from_config_def saml_from_config_def res_bind_eq_Inr
      sso_required_Inr Let_def split: if_splits)

text \<open>SAML claims are those of an assertion for the configured audience, from the configured issuer.\<close>

lemma saml_claims_vouched:
  assumes "saml_exchange_code env c code redirect = Inr claims"
  shows "\<exists>status text a. se_post_saml env (sa_exchange_url c)
      \<lparr>sq_artifact = code, sq_entity_id = sa_entity_id c, sq_audience = sa_audience c, sq_redirect_uri = redirect\<rparr>
      = Inr (status, text, Inr a)
    \<and> 200 \<le> status \<and> status < 300 \<and> sp_issuer a = sa_issuer_url c \<and> sp_audience a = sa_audience c
    \<and> sl_subject claims = sp_subject a \<and> sl_groups claims = sp_groups a \<and> sl_auth_source claims = SamlSource"
  using assms
  by (auto simp: saml_exchange_code_def sso_reply_def res_bind_eq_Inr not_less
      split: if_splits sum.splits)

text \<open>The mock turns any name in the code into an account, on the SAML side one of an administrator.\<close>

lemma mock_code_names_any_user:
  "\<exists>c. mock_exchange_code Saml (''mock:saml:'' @ name) = Some c \<and> sl_username c = name
     \<and> sl_groups c = [''scim:admins'', ''scim:project-alpha'']"
proof -
  have "strip_prefix (''mock:saml:'' @ name) (''mock:'' @ protocol_label Saml @ '':'') = Some name"
    using strip_prefix_append [of "''mock:saml:''" name] by simp
  then show ?thesis by (simp add: mock_exchange_code_def)
qed

end
