(* ===== verification/ScimSync.thy ===== *)
theory ScimSync
  imports JsonValue
begin

text \<open>
  Provisioning from an identity provider, \<open>sdqp-system-security\<close>, \<open>auth/scim.rs\<close>: the directory
  kept by the server, the patches on it, the plan that brings it in line with the provider's
  snapshot, and the client that pulls the snapshot page by page.  The HTTP client and the JSON text
  are arguments.  A \<open>HashMap\<close> is an association list, a \<open>BTreeSet\<close> a sorted list.
\<close>

subsection \<open>Users, groups and patches\<close>

record scim_user =
  us_external_id :: string
  us_tenant_id :: string
  us_user_name :: string
  us_display_name :: string
  us_email :: string
  us_active :: bool
  us_groups :: "string list"

record scim_group =
  gr_external_id :: string
  gr_tenant_id :: string
  gr_display_name :: string
  gr_active :: bool
  gr_members :: "string list"

record user_changes =
  uc_user_name :: "string option"
  uc_display_name :: "string option"
  uc_email :: "string option"
  uc_active :: "bool option"
  uc_groups :: "string list option"

datatype scim_user_patch =
    UserUpsert scim_user
  | UserPatch string user_changes
  | UserDisable string
  | UserDelete string

datatype scim_group_patch =
    GroupUpsert scim_group
  | GroupPatch string "string option" "bool option"
  | GroupPatchMembers string "string list" "string list"
  | GroupDisable string
  | GroupDelete string

record scim_summary =
  sm_users_changed :: nat
  sm_users_disabled :: nat
  sm_groups_changed :: nat
  sm_groups_disabled :: nat
  sm_memberships_changed :: nat

definition summary_zero :: scim_summary where
  "summary_zero = \<lparr>sm_users_changed = 0, sm_users_disabled = 0, sm_groups_changed = 0,
     sm_groups_disabled = 0, sm_memberships_changed = 0\<rparr>"

definition summary_merge :: "scim_summary \<Rightarrow> scim_summary \<Rightarrow> scim_summary" where
  "summary_merge a b =
     \<lparr>sm_users_changed = sm_users_changed a + sm_users_changed b,
      sm_users_disabled = sm_users_disabled a + sm_users_disabled b,
      sm_groups_changed = sm_groups_changed a + sm_groups_changed b,
      sm_groups_disabled = sm_groups_disabled a + sm_groups_disabled b,
      sm_memberships_changed = sm_memberships_changed a + sm_memberships_changed b\<rparr>"

datatype scim_error =
    ScimInvalidToken | ScimUnknownProvider string | ScimUnsupportedProvider string
  | ScimConfiguration string | ScimRequest string | ScimStatus nat string | ScimParse string
  | ScimNotFound string

subsection \<open>Canonical lists\<close>

definition canonical_vec :: "string list \<Rightarrow> string list" where
  "canonical_vec vs = bts_of (filter (\<lambda>v. v \<noteq> []) (map trim vs))"

definition symmetric_diff_count :: "string list \<Rightarrow> string list \<Rightarrow> nat" where
  "symmetric_diff_count l r =
     (let l = bts_of l; r = bts_of r in
      length (filter (\<lambda>x. x \<notin> set r) l) + length (filter (\<lambda>x. x \<notin> set l) r))"

subsection \<open>The directory\<close>

type_synonym scim_users = "(string \<times> scim_user) list"
type_synonym scim_groups = "(string \<times> scim_group) list"

record scim_identity =
  si_users :: scim_users
  si_groups :: scim_groups

definition scim_identity_new :: "scim_user list \<Rightarrow> scim_group list \<Rightarrow> scim_identity" where
  "scim_identity_new us gs =
     \<lparr>si_users = foldl (\<lambda>m u. AList.update (us_external_id u) u m) [] us,
      si_groups = foldl (\<lambda>m g. AList.update (gr_external_id g) g m) [] gs\<rparr>"

definition change_user :: "user_changes \<Rightarrow> scim_user \<Rightarrow> scim_user" where
  "change_user c u =
     u\<lparr>us_user_name := option_or (uc_user_name c) (us_user_name u),
       us_display_name := option_or (uc_display_name c) (us_display_name u),
       us_email := option_or (uc_email c) (us_email u),
       us_active := option_or (uc_active c) (us_active u),
       us_groups := (case uc_groups c of None \<Rightarrow> us_groups u | Some gs \<Rightarrow> canonical_vec gs)\<rparr>"

fun apply_user_patch :: "scim_user_patch \<Rightarrow> scim_users \<Rightarrow> scim_error + (scim_summary \<times> scim_users)" where
  "apply_user_patch (UserUpsert u) m =
     Inr (summary_zero\<lparr>sm_users_changed := 1\<rparr>, AList.update (us_external_id u) u m)"
| "apply_user_patch (UserPatch i c) m =
     (case map_of m i of
        None \<Rightarrow> Inl (ScimNotFound i)
      | Some u \<Rightarrow> Inr
          (summary_zero\<lparr>sm_users_changed := 1,
             sm_users_disabled := (if uc_active c = Some False then 1 else 0),
             sm_memberships_changed := (if uc_groups c = None then 0 else 1)\<rparr>,
           AList.update i (change_user c u) m))"
| "apply_user_patch (UserDisable i) m =
     (case map_of m i of
        None \<Rightarrow> Inl (ScimNotFound i)
      | Some u \<Rightarrow> Inr (summary_zero\<lparr>sm_users_disabled := 1\<rparr>, AList.update i (u\<lparr>us_active := False\<rparr>) m))"
| "apply_user_patch (UserDelete i) m =
     (case map_of m i of
        None \<Rightarrow> Inl (ScimNotFound i)
      | Some u \<Rightarrow> Inr (summary_zero\<lparr>sm_users_changed := 1\<rparr>, AList.delete i m))"

text \<open>Insertions and removals of members, counting those that change the set.\<close>

fun add_members :: "string list \<Rightarrow> string list \<times> nat \<Rightarrow> string list \<times> nat" where
  "add_members [] (s, n) = (s, n)"
| "add_members (x # xs) (s, n) =
     (if x \<in> set s then add_members xs (s, n) else add_members xs (bts_insert x s, n + 1))"

fun remove_members :: "string list \<Rightarrow> string list \<times> nat \<Rightarrow> string list \<times> nat" where
  "remove_members [] (s, n) = (s, n)"
| "remove_members (x # xs) (s, n) =
     (if x \<in> set s then remove_members xs (remove1 x s, n + 1) else remove_members xs (s, n))"

fun apply_group_patch :: "scim_group_patch \<Rightarrow> scim_groups \<Rightarrow> scim_error + (scim_summary \<times> scim_groups)" where
  "apply_group_patch (GroupUpsert g) m =
     (let g = g\<lparr>gr_members := canonical_vec (gr_members g)\<rparr>;
          existing = (case map_of m (gr_external_id g) of None \<Rightarrow> [] | Some h \<Rightarrow> gr_members h) in
      Inr (summary_zero\<lparr>sm_groups_changed := 1,
             sm_memberships_changed := symmetric_diff_count existing (gr_members g)\<rparr>,
           AList.update (gr_external_id g) g m))"
| "apply_group_patch (GroupPatch i name active) m =
     (case map_of m i of
        None \<Rightarrow> Inl (ScimNotFound i)
      | Some g \<Rightarrow> Inr
          (summary_zero\<lparr>sm_groups_changed := 1, sm_groups_disabled := (if active = Some False then 1 else 0)\<rparr>,
           AList.update i (g\<lparr>gr_display_name := option_or name (gr_display_name g),
             gr_active := option_or active (gr_active g)\<rparr>) m))"
| "apply_group_patch (GroupPatchMembers i adds removes) m =
     (case map_of m i of
        None \<Rightarrow> Inl (ScimNotFound i)
      | Some g \<Rightarrow>
          let (members, changed) = remove_members removes (add_members adds (bts_of (gr_members g), 0)) in
          Inr (summary_zero\<lparr>sm_groups_changed := 1, sm_memberships_changed := changed\<rparr>,
               AList.update i (g\<lparr>gr_members := members\<rparr>) m))"
| "apply_group_patch (GroupDisable i) m =
     (case map_of m i of
        None \<Rightarrow> Inl (ScimNotFound i)
      | Some g \<Rightarrow> Inr (summary_zero\<lparr>sm_groups_disabled := 1\<rparr>, AList.update i (g\<lparr>gr_active := False\<rparr>) m))"
| "apply_group_patch (GroupDelete i) m =
     (case map_of m i of
        None \<Rightarrow> Inl (ScimNotFound i)
      | Some g \<Rightarrow> Inr (summary_zero\<lparr>sm_groups_changed := 1\<rparr>, AList.delete i m))"

subsection \<open>The plan\<close>

record lifecycle_policy =
  lc_disable_missing_users :: bool
  lc_disable_missing_groups :: bool
  lc_delete_missing_users :: bool
  lc_delete_missing_groups :: bool

record scim_cursor =
  sr_provider :: string
  sr_base_url :: string
  sr_last_success_at :: time
  sr_users_total :: nat
  sr_groups_total :: nat
  sr_pages_fetched :: nat
  sr_last_user_start_index :: nat
  sr_last_group_start_index :: nat

record scim_snapshot =
  ss_users :: "scim_user list"
  ss_groups :: "scim_group list"
  ss_cursor :: scim_cursor

datatype membership_change_kind = MemberAdd | MemberRemove

record membership_change =
  mc_group :: string
  mc_user :: string
  mc_change :: membership_change_kind

record scim_plan =
  sp_user_patches :: "scim_user_patch list"
  sp_group_patches :: "scim_group_patch list"
  sp_membership_changes :: "membership_change list"
  sp_summary :: scim_summary
  sp_cursor :: scim_cursor

definition canonical_group_map :: "scim_group list \<Rightarrow> scim_groups" where
  "canonical_group_map gs =
     foldl (\<lambda>m g. AList.update (gr_external_id g) (g\<lparr>gr_members := canonical_vec (gr_members g)\<rparr>) m) [] gs"

definition canonical_user_map :: "scim_user list \<Rightarrow> scim_users" where
  "canonical_user_map us =
     foldl (\<lambda>m u. AList.update (us_external_id u) (u\<lparr>us_groups := canonical_vec (us_groups u)\<rparr>) m) [] us"

text \<open>The groups of each user, by the members of the groups.\<close>

definition groups_by_user :: "scim_group list \<Rightarrow> (string \<times> string list) list" where
  "groups_by_user gs =
     foldl (\<lambda>ix g. foldl (\<lambda>ix member.
         AList.update member (bts_insert (gr_external_id g) (option_or (map_of ix member) [])) ix) ix (gr_members g))
       [] gs"

text \<open>An entry is taken out when its user is met, so a second user of one identifier gets none.\<close>

fun add_memberships :: "(string \<times> string list) list \<Rightarrow> scim_user list \<Rightarrow> scim_user list" where
  "add_memberships ix [] = []"
| "add_memberships ix (u # us) =
     u\<lparr>us_groups := bts_of (us_groups u @ option_or (map_of ix (us_external_id u)) [])\<rparr>
     # add_memberships (AList.delete (us_external_id u) ix) us"

definition with_group_memberships :: "scim_user list \<Rightarrow> scim_group list \<Rightarrow> scim_user list" where
  "with_group_memberships us gs = add_memberships (groups_by_user gs) us"

definition membership_diff :: "scim_group \<Rightarrow> scim_group \<Rightarrow> membership_change list" where
  "membership_diff current desired =
     (let cur = bts_of (gr_members current); des = bts_of (gr_members desired);
          change = (\<lambda>kind m. \<lparr>mc_group = gr_external_id desired, mc_user = m, mc_change = kind\<rparr>) in
      map (change MemberAdd) (filter (\<lambda>m. m \<notin> set cur) des)
      @ map (change MemberRemove) (filter (\<lambda>m. m \<notin> set des) cur))"

definition plan_desired_group :: "scim_groups \<Rightarrow> scim_plan \<Rightarrow> scim_group \<Rightarrow> scim_plan" where
  "plan_desired_group current p d =
     (case map_of current (gr_external_id d) of
        Some c \<Rightarrow>
          let changes = membership_diff c d;
              p = p\<lparr>sp_membership_changes := sp_membership_changes p @ changes,
                    sp_summary := (sp_summary p)
                      \<lparr>sm_memberships_changed := sm_memberships_changed (sp_summary p) + length changes\<rparr>\<rparr> in
          if c \<noteq> d
          then p\<lparr>sp_group_patches := sp_group_patches p @ [GroupUpsert d],
                 sp_summary := (sp_summary p)\<lparr>sm_groups_changed := sm_groups_changed (sp_summary p) + 1\<rparr>\<rparr>
          else p
      | None \<Rightarrow>
          p\<lparr>sp_membership_changes := sp_membership_changes p
              @ map (\<lambda>m. \<lparr>mc_group = gr_external_id d, mc_user = m, mc_change = MemberAdd\<rparr>) (gr_members d),
            sp_group_patches := sp_group_patches p @ [GroupUpsert d],
            sp_summary := (sp_summary p)
              \<lparr>sm_memberships_changed := sm_memberships_changed (sp_summary p) + length (gr_members d),
               sm_groups_changed := sm_groups_changed (sp_summary p) + 1\<rparr>\<rparr>)"

definition plan_missing_group :: "lifecycle_policy \<Rightarrow> scim_groups \<Rightarrow> scim_plan \<Rightarrow> scim_group \<Rightarrow> scim_plan" where
  "plan_missing_group policy desired p c =
     (if map_of desired (gr_external_id c) \<noteq> None then p
      else if lc_delete_missing_groups policy then
        p\<lparr>sp_group_patches := sp_group_patches p @ [GroupDelete (gr_external_id c)],
          sp_summary := (sp_summary p)\<lparr>sm_groups_changed := sm_groups_changed (sp_summary p) + 1\<rparr>\<rparr>
      else if lc_disable_missing_groups policy \<and> gr_active c then
        p\<lparr>sp_group_patches := sp_group_patches p @ [GroupDisable (gr_external_id c)],
          sp_summary := (sp_summary p)\<lparr>sm_groups_disabled := sm_groups_disabled (sp_summary p) + 1\<rparr>\<rparr>
      else p)"

definition plan_desired_user :: "scim_users \<Rightarrow> scim_plan \<Rightarrow> scim_user \<Rightarrow> scim_plan" where
  "plan_desired_user current p d =
     (if map_of current (us_external_id d) = Some d then p
      else
        p\<lparr>sp_user_patches := sp_user_patches p @ [UserUpsert d],
          sp_summary := (if us_active d
            then (sp_summary p)\<lparr>sm_users_changed := sm_users_changed (sp_summary p) + 1\<rparr>
            else (sp_summary p)\<lparr>sm_users_disabled := sm_users_disabled (sp_summary p) + 1\<rparr>)\<rparr>)"

definition plan_missing_user :: "lifecycle_policy \<Rightarrow> scim_users \<Rightarrow> scim_plan \<Rightarrow> scim_user \<Rightarrow> scim_plan" where
  "plan_missing_user policy desired p c =
     (if map_of desired (us_external_id c) \<noteq> None then p
      else if lc_delete_missing_users policy then
        p\<lparr>sp_user_patches := sp_user_patches p @ [UserDelete (us_external_id c)],
          sp_summary := (sp_summary p)\<lparr>sm_users_changed := sm_users_changed (sp_summary p) + 1\<rparr>\<rparr>
      else if lc_disable_missing_users policy \<and> us_active c then
        p\<lparr>sp_user_patches := sp_user_patches p @ [UserDisable (us_external_id c)],
          sp_summary := (sp_summary p)\<lparr>sm_users_disabled := sm_users_disabled (sp_summary p) + 1\<rparr>\<rparr>
      else p)"

definition build_scim_sync_plan ::
  "scim_user list \<Rightarrow> scim_group list \<Rightarrow> scim_snapshot \<Rightarrow> lifecycle_policy \<Rightarrow> scim_plan" where
  "build_scim_sync_plan us gs snapshot policy =
     (let cur_groups = canonical_group_map gs;
          des_groups = canonical_group_map (ss_groups snapshot);
          cur_users = canonical_user_map (with_group_memberships us (map snd cur_groups));
          des_users = canonical_user_map (with_group_memberships (ss_users snapshot) (map snd des_groups));
          p = \<lparr>sp_user_patches = [], sp_group_patches = [], sp_membership_changes = [],
               sp_summary = summary_zero, sp_cursor = ss_cursor snapshot\<rparr>;
          p = foldl (plan_desired_group cur_groups) p (map snd des_groups);
          p = foldl (plan_missing_group policy des_groups) p (map snd cur_groups);
          p = foldl (plan_desired_user cur_users) p (map snd des_users) in
      foldl (plan_missing_user policy des_users) p (map snd cur_users))"

subsection \<open>Maps that are keyed by a field\<close>

definition keyed_by :: "('v \<Rightarrow> string) \<Rightarrow> (string \<times> 'v) list \<Rightarrow> bool" where
  "keyed_by key m = (distinct (map fst m) \<and> list_all (\<lambda>(i, v). key v = i) m)"

lemma set_update_subset: "set (AList.update k v m) \<subseteq> insert (k, v) (set m)"
  by (induction m) auto

lemma keyed_by_update: "keyed_by key m \<Longrightarrow> keyed_by key (AList.update (key v) v m)"
  using set_update_subset [of "key v" v m] by (auto simp: keyed_by_def distinct_update list_all_iff)

lemma keyed_by_fold:
  assumes "\<And>x. key (f x) = k x"
  shows "keyed_by key m \<Longrightarrow> keyed_by key (foldl (\<lambda>m x. AList.update (k x) (f x) m) m xs)"
proof (induction xs arbitrary: m)
  case (Cons x xs)
  then show ?case using keyed_by_update [of key m "f x"] by (simp add: assms)
qed simp

lemma keyed_by_values: "keyed_by key m \<Longrightarrow> map key (map snd m) = map fst m"
  by (induction m) (auto simp: keyed_by_def)

lemma keyed_by_mem: "keyed_by key m \<Longrightarrow> v \<in> set (map snd m) \<longleftrightarrow> map_of m (key v) = Some v"
  by (auto simp: keyed_by_def list_all_iff dest: map_of_SomeD) force

lemma keyed_by_get: "keyed_by key m \<Longrightarrow> map_of m i = Some v \<Longrightarrow> key v = i"
  by (auto simp: keyed_by_def list_all_iff dest!: map_of_SomeD)

lemma keyed_by_dom: "keyed_by key m \<Longrightarrow> map_of m i = None \<longleftrightarrow> i \<notin> key ` set (map snd m)"
  using keyed_by_values [of key m] by (metis image_set map_of_eq_None_iff)

text \<open>Collecting into a map: the last value of a key wins.\<close>

lemma map_of_fold_update:
  "map_of (foldl (\<lambda>m x. AList.update (k x) (f x) m) m xs) i =
    (case find (\<lambda>x. k x = i) (rev xs) of None \<Rightarrow> map_of m i | Some x \<Rightarrow> Some (f x))"
proof (induction xs rule: rev_induct)
  case (snoc x xs)
  then show ?case by (simp add: update_conv)
qed simp

lemma find_distinct_key:
  "distinct (map k xs) \<Longrightarrow> x \<in> set xs \<Longrightarrow> find (\<lambda>y. k y = k x) xs = Some x"
  by (induction xs) (auto simp: image_iff)

lemma collect_keyed:
  assumes "keyed_by key m" "\<And>v. k (g v) = key v"
  shows "map_of (foldl (\<lambda>m x. AList.update (k x) (f x) m) [] (map g (map snd m))) i = map_option (f \<circ> g) (map_of m i)"
proof -
  let ?xs = "map g (map snd m)"
  have keys: "map k ?xs = map fst m" using keyed_by_values [OF assms(1)] by (simp add: comp_def assms(2))
  have "map k (rev ?xs) = rev (map fst m)" by (metis keys rev_map)
  then have dist: "distinct (map k (rev ?xs))"
    using assms(1) by (simp only: keyed_by_def distinct_rev)
  show ?thesis
  proof (cases "map_of m i")
    case None
    then have "i \<notin> k ` set ?xs" using keys by (metis image_set map_of_eq_None_iff)
    then have "find (\<lambda>x. k x = i) (rev ?xs) = None" by (auto simp: find_None_iff)
    with None show ?thesis by (simp add: map_of_fold_update)
  next
    case (Some v)
    then have "g v \<in> set ?xs" "k (g v) = i"
      using keyed_by_get [OF assms(1) Some] assms(2) map_of_SomeD [OF Some] by force+
    with find_distinct_key [OF dist, of "g v"] have "find (\<lambda>x. k x = i) (rev ?xs) = Some (g v)" by simp
    with Some show ?thesis by (simp add: map_of_fold_update)
  qed
qed

lemma find_built:
  assumes "\<And>v. pk (f v) = key v"
  shows "keyed_by key m \<Longrightarrow> find (\<lambda>p. pk p = i) (map f (filter P (map snd m))) =
    (case map_of m i of None \<Rightarrow> None | Some v \<Rightarrow> if P v then Some (f v) else None)"
proof (induction m)
  case (Cons e m)
  obtain j v where e: "e = (j, v)" by (cases e)
  from Cons.prems have v: "key v = j" "j \<notin> fst ` set m" "keyed_by key m" by (auto simp: keyed_by_def e)
  have "map_of m j = None" using v(2) by (simp add: map_of_eq_None_iff)
  with Cons.IH [OF v(3)] v assms show ?case by (auto simp: e)
qed simp

lemma distinct_built:
  assumes "\<And>v. pk (f v) = key v"
  shows "keyed_by key m \<Longrightarrow> distinct (map pk (map f (filter P (map snd m))))"
proof -
  assume m: "keyed_by key m"
  have "map pk (map f (filter P (map snd m))) = map key (filter P (map snd m))"
    by (simp add: assms)
  moreover have "distinct (map key (map snd m))"
    using m unfolding keyed_by_values [OF m] by (simp add: keyed_by_def)
  ultimately show ?thesis by (metis distinct_map_filter)
qed

lemma built_cases:
  assumes "p \<in> set (map f (filter P xs) @ map g (filter Q ys))"
  obtains x where "x \<in> set xs" "p = f x" | y where "y \<in> set ys" "p = g y"
  using assms by auto

lemma find_append: "find P (xs @ ys) = (case find P xs of None \<Rightarrow> find P ys | Some x \<Rightarrow> Some x)"
  by (induction xs) auto

subsection \<open>Applying patches\<close>

text \<open>
  Patches that each read and write one key of a map: a list of them on different keys succeeds when
  each would alone, and changes each key as its patch does.
\<close>

fun apply_all ::
  "('p \<Rightarrow> 'm \<Rightarrow> 'e + ('s \<times> 'm)) \<Rightarrow> 'p list \<Rightarrow> 'm \<Rightarrow> 'e + 'm" where
  "apply_all f [] m = Inr m"
| "apply_all f (p # ps) m = res_bind (f p m) (\<lambda>(s, m). apply_all f ps m)"

locale keyed_patches =
  fixes patch_key :: "'p \<Rightarrow> string"
    and effect :: "'p \<Rightarrow> 'v option \<Rightarrow> 'v option"
    and applies :: "'p \<Rightarrow> 'v option \<Rightarrow> bool"
    and apply_patch :: "'p \<Rightarrow> (string \<times> 'v) list \<Rightarrow> 'e + ('s \<times> (string \<times> 'v) list)"
  assumes patch_step: "applies p (map_of m (patch_key p)) \<Longrightarrow>
    \<exists>s m'. apply_patch p m = Inr (s, m') \<and>
      map_of m' = (map_of m)(patch_key p := effect p (map_of m (patch_key p)))"
begin

lemma patches_apply:
  assumes "distinct (map patch_key ps)" "\<And>p. p \<in> set ps \<Longrightarrow> applies p (map_of m (patch_key p))"
  shows "\<exists>m'. apply_all apply_patch ps m = Inr m' \<and>
    (\<forall>i. map_of m' i = (case find (\<lambda>p. patch_key p = i) ps of None \<Rightarrow> map_of m i | Some p \<Rightarrow> effect p (map_of m i)))"
  using assms
proof (induction ps arbitrary: m)
  case (Cons p ps)
  obtain s m1 where m1: "apply_patch p m = Inr (s, m1)"
    "map_of m1 = (map_of m)(patch_key p := effect p (map_of m (patch_key p)))"
    using patch_step [of p m] Cons.prems(2) by auto
  have "applies q (map_of m1 (patch_key q))" if "q \<in> set ps" for q
    using Cons.prems that by (auto simp: m1(2) image_iff)
  then obtain m' where m': "apply_all apply_patch ps m1 = Inr m'"
    "\<And>i. map_of m' i = (case find (\<lambda>p. patch_key p = i) ps of None \<Rightarrow> map_of m1 i | Some p \<Rightarrow> effect p (map_of m1 i))"
    using Cons.IH [of m1] Cons.prems(1) by auto
  have "map_of m' i = (case find (\<lambda>p. patch_key p = i) (p # ps) of None \<Rightarrow> map_of m i | Some p \<Rightarrow> effect p (map_of m i))" for i
  proof (cases "patch_key p = i")
    case True
    then have "find (\<lambda>p. patch_key p = i) ps = None"
      using Cons.prems(1) by (auto simp: find_None_iff) (metis image_eqI)
    with True show ?thesis by (simp add: m'(2) m1(2))
  next
    case False
    then show ?thesis by (simp add: m'(2) m1(2) split: option.split)
  qed
  with m1 m' show ?case by simp
qed simp

text \<open>
  A plan with one patch for each desired value that differs from the current one and one for some
  current values that are not desired.
\<close>

lemma plan_applies:
  assumes des: "keyed_by key des" and cur: "keyed_by key cur"
    and keys: "\<And>v. patch_key (up v) = key v" "\<And>v. patch_key (ret v) = key v"
    and ok: "\<And>v x. applies (up v) x" "\<And>v x. x \<noteq> None \<Longrightarrow> applies (ret v) x"
    and known: "\<And>i. map_of cur i \<noteq> None \<Longrightarrow> map_of m i \<noteq> None"
    and ps: "ps = map up (filter (\<lambda>d. map_of cur (key d) \<noteq> Some d) (map snd des))
      @ map ret (filter (\<lambda>c. map_of des (key c) = None \<and> Q c) (map snd cur))"
  shows "\<exists>m'. apply_all apply_patch ps m = Inr m' \<and> (\<forall>i. map_of m' i =
    (case map_of des i of
       Some d \<Rightarrow> if map_of cur i = Some d then map_of m i else effect (up d) (map_of m i)
     | None \<Rightarrow> (case map_of cur i of
         Some c \<Rightarrow> if Q c then effect (ret c) (map_of m i) else map_of m i
       | None \<Rightarrow> map_of m i)))"
proof -
  let ?P = "\<lambda>d. map_of cur (key d) \<noteq> Some d" and ?R = "\<lambda>c. map_of des (key c) = None \<and> Q c"
  have "key d \<noteq> key c" if "d \<in> set (map snd des)" "?R c" for c d
    using that keyed_by_mem [OF des, of d] by auto
  then have dist: "distinct (map patch_key ps)"
    using distinct_built [of patch_key up key, OF keys(1) des, of ?P]
      distinct_built [of patch_key ret key, OF keys(2) cur, of ?R]
    unfolding ps map_append distinct_append by (auto simp: keys)
  have app: "applies p (map_of m (patch_key p))" if "p \<in> set ps" for p
  proof -
    have "map_of m (key c) \<noteq> None" if "c \<in> set (map snd cur)" for c
      using keyed_by_mem [OF cur, of c] that known by auto
    with that [unfolded ps] show ?thesis by (elim built_cases) (simp_all add: ok keys)
  qed
  obtain m' where run: "apply_all apply_patch ps m = Inr m'"
    and m': "\<And>i. map_of m' i = (case find (\<lambda>p. patch_key p = i) ps of
        None \<Rightarrow> map_of m i | Some p \<Rightarrow> effect p (map_of m i))"
    using patches_apply [OF dist app] by blast
  have "map_of m' i = (case map_of des i of
       Some d \<Rightarrow> if map_of cur i = Some d then map_of m i else effect (up d) (map_of m i)
     | None \<Rightarrow> (case map_of cur i of
         Some c \<Rightarrow> if Q c then effect (ret c) (map_of m i) else map_of m i
       | None \<Rightarrow> map_of m i))" for i
  proof -
    note found = find_built [of patch_key up key, OF keys(1) des, of i ?P]
      find_built [of patch_key ret key, OF keys(2) cur, of i ?R]
    have ids: "map_of des i = Some d \<Longrightarrow> key d = i" "map_of cur i = Some c \<Longrightarrow> key c = i" for c d
      using keyed_by_get [OF des] keyed_by_get [OF cur] by blast+
    show ?thesis
      unfolding m' [of i] ps find_append found
      by (cases "map_of des i"; cases "map_of cur i") (simp_all add: ids)
  qed
  with run show ?thesis by blast
qed

end

fun user_patch_key :: "scim_user_patch \<Rightarrow> string" where
  "user_patch_key (UserUpsert u) = us_external_id u"
| "user_patch_key (UserPatch i c) = i"
| "user_patch_key (UserDisable i) = i"
| "user_patch_key (UserDelete i) = i"

fun user_patch_effect :: "scim_user_patch \<Rightarrow> scim_user option \<Rightarrow> scim_user option" where
  "user_patch_effect (UserUpsert u) x = Some u"
| "user_patch_effect (UserPatch i c) x = map_option (change_user c) x"
| "user_patch_effect (UserDisable i) x = map_option (\<lambda>u. u\<lparr>us_active := False\<rparr>) x"
| "user_patch_effect (UserDelete i) x = None"

fun user_patch_applies :: "scim_user_patch \<Rightarrow> scim_user option \<Rightarrow> bool" where
  "user_patch_applies (UserUpsert u) x = True"
| "user_patch_applies _ x = (x \<noteq> None)"

fun group_patch_key :: "scim_group_patch \<Rightarrow> string" where
  "group_patch_key (GroupUpsert g) = gr_external_id g"
| "group_patch_key (GroupPatch i n a) = i"
| "group_patch_key (GroupPatchMembers i a r) = i"
| "group_patch_key (GroupDisable i) = i"
| "group_patch_key (GroupDelete i) = i"

definition canonical_group :: "scim_group \<Rightarrow> scim_group" where
  "canonical_group g = g\<lparr>gr_members := canonical_vec (gr_members g)\<rparr>"

fun group_patch_effect :: "scim_group_patch \<Rightarrow> scim_group option \<Rightarrow> scim_group option" where
  "group_patch_effect (GroupUpsert g) x = Some (canonical_group g)"
| "group_patch_effect (GroupPatch i n a) x =
     map_option (\<lambda>g. g\<lparr>gr_display_name := option_or n (gr_display_name g), gr_active := option_or a (gr_active g)\<rparr>) x"
| "group_patch_effect (GroupPatchMembers i adds removes) x =
     map_option (\<lambda>g. g\<lparr>gr_members :=
       fst (remove_members removes (add_members adds (bts_of (gr_members g), 0)))\<rparr>) x"
| "group_patch_effect (GroupDisable i) x = map_option (\<lambda>g. g\<lparr>gr_active := False\<rparr>) x"
| "group_patch_effect (GroupDelete i) x = None"

fun group_patch_applies :: "scim_group_patch \<Rightarrow> scim_group option \<Rightarrow> bool" where
  "group_patch_applies (GroupUpsert u) x = True"
| "group_patch_applies _ x = (x \<noteq> None)"

interpretation user_patches: keyed_patches user_patch_key user_patch_effect user_patch_applies apply_user_patch
proof
  fix p and m :: scim_users
  assume "user_patch_applies p (map_of m (user_patch_key p))"
  then show "\<exists>s m'. apply_user_patch p m = Inr (s, m') \<and>
      map_of m' = (map_of m)(user_patch_key p := user_patch_effect p (map_of m (user_patch_key p)))"
    by (cases p) (auto simp: update_conv' delete_conv')
qed

interpretation group_patches: keyed_patches group_patch_key group_patch_effect group_patch_applies apply_group_patch
proof
  fix p and m :: scim_groups
  assume "group_patch_applies p (map_of m (group_patch_key p))"
  then show "\<exists>s m'. apply_group_patch p m = Inr (s, m') \<and>
      map_of m' = (map_of m)(group_patch_key p := group_patch_effect p (map_of m (group_patch_key p)))"
    by (cases p) (auto simp: update_conv' delete_conv' canonical_group_def Let_def split: prod.split)
qed

subsection \<open>What the plan contains\<close>

definition group_upserts :: "scim_groups \<Rightarrow> scim_group list \<Rightarrow> scim_group_patch list" where
  "group_upserts current ds = map GroupUpsert (filter (\<lambda>d. map_of current (gr_external_id d) \<noteq> Some d) ds)"

definition missing_groups :: "lifecycle_policy \<Rightarrow> scim_groups \<Rightarrow> scim_group list \<Rightarrow> scim_group_patch list" where
  "missing_groups policy desired cs =
     map (\<lambda>c. if lc_delete_missing_groups policy then GroupDelete (gr_external_id c) else GroupDisable (gr_external_id c))
       (filter (\<lambda>c. map_of desired (gr_external_id c) = None \<and>
          (lc_delete_missing_groups policy \<or> (lc_disable_missing_groups policy \<and> gr_active c))) cs)"

definition user_upserts :: "scim_users \<Rightarrow> scim_user list \<Rightarrow> scim_user_patch list" where
  "user_upserts current ds = map UserUpsert (filter (\<lambda>d. map_of current (us_external_id d) \<noteq> Some d) ds)"

definition missing_users :: "lifecycle_policy \<Rightarrow> scim_users \<Rightarrow> scim_user list \<Rightarrow> scim_user_patch list" where
  "missing_users policy desired cs =
     map (\<lambda>c. if lc_delete_missing_users policy then UserDelete (us_external_id c) else UserDisable (us_external_id c))
       (filter (\<lambda>c. map_of desired (us_external_id c) = None \<and>
          (lc_delete_missing_users policy \<or> (lc_disable_missing_users policy \<and> us_active c))) cs)"

lemma plan_desired_groups:
  "sp_group_patches (foldl (plan_desired_group cur) p ds) = sp_group_patches p @ group_upserts cur ds"
  "sp_user_patches (foldl (plan_desired_group cur) p ds) = sp_user_patches p"
  by (induction ds arbitrary: p)
    (auto simp: plan_desired_group_def group_upserts_def Let_def split: option.splits)

lemma plan_missing_groups:
  "sp_group_patches (foldl (plan_missing_group policy des) p cs) = sp_group_patches p @ missing_groups policy des cs"
  "sp_user_patches (foldl (plan_missing_group policy des) p cs) = sp_user_patches p"
  by (induction cs arbitrary: p) (auto simp: plan_missing_group_def missing_groups_def)

lemma plan_desired_users:
  "sp_user_patches (foldl (plan_desired_user cur) p ds) = sp_user_patches p @ user_upserts cur ds"
  "sp_group_patches (foldl (plan_desired_user cur) p ds) = sp_group_patches p"
  by (induction ds arbitrary: p) (auto simp: plan_desired_user_def user_upserts_def)

lemma plan_missing_users:
  "sp_user_patches (foldl (plan_missing_user policy des) p cs) = sp_user_patches p @ missing_users policy des cs"
  "sp_group_patches (foldl (plan_missing_user policy des) p cs) = sp_group_patches p"
  by (induction cs arbitrary: p) (auto simp: plan_missing_user_def missing_users_def)

lemma plan_cursor:
  "sp_cursor (foldl (plan_desired_group cg) p gs) = sp_cursor p"
  "sp_cursor (foldl (plan_missing_group policy cg) p gs) = sp_cursor p"
  "sp_cursor (foldl (plan_desired_user cu) p us) = sp_cursor p"
  "sp_cursor (foldl (plan_missing_user policy cu) p us) = sp_cursor p"
     apply (induction gs arbitrary: p; auto simp: plan_desired_group_def Let_def split: option.splits)
    apply (induction gs arbitrary: p; auto simp: plan_missing_group_def)
   apply (induction us arbitrary: p; auto simp: plan_desired_user_def)
  apply (induction us arbitrary: p; auto simp: plan_missing_user_def)
  done

definition desired_groups :: "scim_snapshot \<Rightarrow> scim_groups" where
  "desired_groups snapshot = canonical_group_map (ss_groups snapshot)"

definition desired_users :: "scim_snapshot \<Rightarrow> scim_users" where
  "desired_users snapshot =
     canonical_user_map (with_group_memberships (ss_users snapshot) (map snd (desired_groups snapshot)))"

definition current_users :: "scim_user list \<Rightarrow> scim_group list \<Rightarrow> scim_users" where
  "current_users us gs = canonical_user_map (with_group_memberships us (map snd (canonical_group_map gs)))"

lemma build_scim_sync_plan_patches:
  fixes us gs snapshot policy
  defines "plan \<equiv> build_scim_sync_plan us gs snapshot policy"
  shows "sp_group_patches plan =
      group_upserts (canonical_group_map gs) (map snd (desired_groups snapshot))
      @ missing_groups policy (desired_groups snapshot) (map snd (canonical_group_map gs))"
    and "sp_user_patches plan =
      user_upserts (current_users us gs) (map snd (desired_users snapshot))
      @ missing_users policy (desired_users snapshot) (map snd (current_users us gs))"
    and "sp_cursor plan = ss_cursor snapshot"
proof -
  show "sp_group_patches plan =
      group_upserts (canonical_group_map gs) (map snd (desired_groups snapshot))
      @ missing_groups policy (desired_groups snapshot) (map snd (canonical_group_map gs))"
    and "sp_user_patches plan =
      user_upserts (current_users us gs) (map snd (desired_users snapshot))
      @ missing_users policy (desired_users snapshot) (map snd (current_users us gs))"
    and "sp_cursor plan = ss_cursor snapshot"
    by (simp_all add: plan_def build_scim_sync_plan_def Let_def plan_desired_groups plan_missing_groups
        plan_desired_users plan_missing_users desired_groups_def desired_users_def current_users_def
        plan_cursor)
qed

lemma canonical_vec_idem [simp]: "canonical_vec (canonical_vec vs) = canonical_vec vs"
proof -
  have "map trim (filter (\<lambda>v. v \<noteq> []) (map trim vs)) = filter (\<lambda>v. v \<noteq> []) (map trim vs)"
    by (induction vs) auto
  then have "set (filter (\<lambda>v. v \<noteq> []) (map trim (canonical_vec vs))) = set (filter (\<lambda>v. v \<noteq> []) (map trim vs))"
    by (auto simp: canonical_vec_def image_iff)
  then show ?thesis by (metis bts_of_cong canonical_vec_def)
qed

lemma canonical_group_idem [simp]: "canonical_group (canonical_group g) = canonical_group g"
  by (simp add: canonical_group_def)

lemma canonical_group_id [simp]: "gr_external_id (canonical_group g) = gr_external_id g"
  by (simp add: canonical_group_def)

lemma group_map_keyed: "keyed_by gr_external_id (canonical_group_map gs)"
  unfolding canonical_group_map_def by (rule keyed_by_fold) (simp_all add: keyed_by_def)

lemma user_map_keyed: "keyed_by us_external_id (canonical_user_map us)"
  unfolding canonical_user_map_def by (rule keyed_by_fold) (simp_all add: keyed_by_def)

lemma group_map_canonical: "map_of (canonical_group_map gs) i = Some g \<Longrightarrow> canonical_group g = g"
  by (auto simp: canonical_group_map_def map_of_fold_update canonical_group_def split: option.splits)

lemma current_group_map:
  "keyed_by gr_external_id m \<Longrightarrow> map_of (canonical_group_map (map snd m)) i = map_option canonical_group (map_of m i)"
  using collect_keyed [of gr_external_id m gr_external_id "\<lambda>g. g" canonical_group i]
  by (simp add: canonical_group_map_def canonical_group_def [abs_def] comp_def)

text \<open>Memberships only touch the list of groups.\<close>

definition same_but_groups :: "scim_user \<Rightarrow> scim_user \<Rightarrow> bool" where
  "same_but_groups u v = (v\<lparr>us_groups := us_groups u\<rparr> = u)"

lemma same_but_groups_id: "same_but_groups u v \<Longrightarrow> us_external_id u = us_external_id v \<and> us_active u = us_active v"
  by (cases u, cases v) (simp add: same_but_groups_def)

lemma add_memberships_shape: "list_all2 same_but_groups us (add_memberships ix us)"
  by (induction us arbitrary: ix) (auto simp: same_but_groups_def)

lemma find_related:
  "list_all2 R xs ys \<Longrightarrow> (\<And>x y. R x y \<Longrightarrow> P x = Q y) \<Longrightarrow> rel_option R (find P xs) (find Q ys)"
  by (induction xs ys rule: list_all2_induct) auto

lemma user_map_shape:
  "rel_option same_but_groups (find (\<lambda>u. us_external_id u = i) (rev us))
     (map_of (canonical_user_map (with_group_memberships us gs)) i)"
proof -
  have "list_all2 same_but_groups (rev us) (rev (with_group_memberships us gs))"
    by (simp add: with_group_memberships_def add_memberships_shape)
  then have "rel_option same_but_groups (find (\<lambda>u. us_external_id u = i) (rev us))
      (find (\<lambda>u. us_external_id u = i) (rev (with_group_memberships us gs)))"
    by (rule find_related) (simp add: same_but_groups_id)
  then show ?thesis
    by (auto simp: canonical_user_map_def map_of_fold_update same_but_groups_def option.rel_sel split: option.splits)
qed

lemma find_keyed:
  assumes "keyed_by key m"
  shows "find (\<lambda>v. key v = i) (rev (map snd m)) = map_of m i"
  using collect_keyed [OF assms, of key "\<lambda>v. v" "\<lambda>v. v" i]
  by (simp add: map_of_fold_update comp_def option.map_ident split: option.splits)

lemma current_user_map:
  "keyed_by us_external_id m \<Longrightarrow> rel_option same_but_groups (map_of m i) (map_of (current_users (map snd m) gs) i)"
  using user_map_shape [of i "map snd m"] find_keyed [of us_external_id m i] by (simp add: current_users_def)

text \<open>What a sync makes of an entry that the provider does not list.\<close>

definition retired_group :: "lifecycle_policy \<Rightarrow> scim_group option \<Rightarrow> scim_group option" where
  "retired_group policy g =
     (if lc_delete_missing_groups policy then None
      else if lc_disable_missing_groups policy then map_option (\<lambda>g. g\<lparr>gr_active := False\<rparr>) g else g)"

definition retired_user :: "lifecycle_policy \<Rightarrow> scim_user option \<Rightarrow> scim_user option" where
  "retired_user policy u =
     (if lc_delete_missing_users policy then None
      else if lc_disable_missing_users policy then map_option (\<lambda>u. u\<lparr>us_active := False\<rparr>) u else u)"

lemma group_patches_converge:
  assumes gs: "keyed_by gr_external_id gs" and plan: "plan = build_scim_sync_plan us (map snd gs) snapshot policy"
  shows "\<exists>gs'. apply_all apply_group_patch (sp_group_patches plan) gs = Inr gs' \<and>
    (\<forall>i. case map_of (desired_groups snapshot) i of
       Some d \<Rightarrow> map_option canonical_group (map_of gs' i) = Some d
     | None \<Rightarrow> map_of gs' i = retired_group policy (map_of gs i))"
proof -
  let ?cg = "canonical_group_map (map snd gs)" and ?dg = "desired_groups snapshot"
  let ?retire = "\<lambda>c. if lc_delete_missing_groups policy then GroupDelete (gr_external_id c)
      else GroupDisable (gr_external_id c)"
  let ?Q = "\<lambda>c. lc_delete_missing_groups policy \<or> (lc_disable_missing_groups policy \<and> gr_active c)"
  have current: "map_of ?cg i = map_option canonical_group (map_of gs i)" for i
    by (rule current_group_map [OF gs])
  have "\<exists>gs'. apply_all apply_group_patch (sp_group_patches plan) gs = Inr gs' \<and> (\<forall>i. map_of gs' i =
    (case map_of ?dg i of
       Some d \<Rightarrow> if map_of ?cg i = Some d then map_of gs i else group_patch_effect (GroupUpsert d) (map_of gs i)
     | None \<Rightarrow> (case map_of ?cg i of
         Some c \<Rightarrow> if ?Q c then group_patch_effect (?retire c) (map_of gs i) else map_of gs i
       | None \<Rightarrow> map_of gs i)))"
    by (rule group_patches.plan_applies [where key = gr_external_id])
      (auto simp: desired_groups_def group_map_keyed current plan build_scim_sync_plan_patches
        group_upserts_def missing_groups_def)
  then obtain gs' where run: "apply_all apply_group_patch (sp_group_patches plan) gs = Inr gs'"
    and gs': "\<And>i. map_of gs' i = (case map_of ?dg i of
       Some d \<Rightarrow> if map_of ?cg i = Some d then map_of gs i else group_patch_effect (GroupUpsert d) (map_of gs i)
     | None \<Rightarrow> (case map_of ?cg i of
         Some c \<Rightarrow> if ?Q c then group_patch_effect (?retire c) (map_of gs i) else map_of gs i
       | None \<Rightarrow> map_of gs i))"
    by blast
  have "case map_of ?dg i of
       Some d \<Rightarrow> map_option canonical_group (map_of gs' i) = Some d
     | None \<Rightarrow> map_of gs' i = retired_group policy (map_of gs i)" for i
  proof (cases "map_of ?dg i")
    case None
    then show ?thesis
      unfolding gs' [of i] current
      by (cases "map_of gs i") (auto simp: retired_group_def canonical_group_def)
  next
    case (Some d)
    have "canonical_group d = d" using group_map_canonical Some by (auto simp: desired_groups_def)
    with Some show ?thesis unfolding gs' [of i] current by simp
  qed
  with run show ?thesis by blast
qed

lemma user_patches_converge:
  assumes us: "keyed_by us_external_id us" and plan: "plan = build_scim_sync_plan (map snd us) gs snapshot policy"
  shows "\<exists>us'. apply_all apply_user_patch (sp_user_patches plan) us = Inr us' \<and>
    (\<forall>i. case map_of (desired_users snapshot) i of
       Some d \<Rightarrow> rel_option same_but_groups (map_of us' i) (Some d)
     | None \<Rightarrow> map_of us' i = retired_user policy (map_of us i))"
proof -
  let ?cu = "current_users (map snd us) gs" and ?du = "desired_users snapshot"
  let ?retire = "\<lambda>c. if lc_delete_missing_users policy then UserDelete (us_external_id c)
      else UserDisable (us_external_id c)"
  let ?Q = "\<lambda>c. lc_delete_missing_users policy \<or> (lc_disable_missing_users policy \<and> us_active c)"
  have current: "rel_option same_but_groups (map_of us i) (map_of ?cu i)" for i
    by (rule current_user_map [OF us])
  have known: "map_of ?cu i \<noteq> None \<Longrightarrow> map_of us i \<noteq> None" for i
    using current [of i] by (auto simp: option.rel_sel)
  have "\<exists>us'. apply_all apply_user_patch (sp_user_patches plan) us = Inr us' \<and> (\<forall>i. map_of us' i =
    (case map_of ?du i of
       Some d \<Rightarrow> if map_of ?cu i = Some d then map_of us i else user_patch_effect (UserUpsert d) (map_of us i)
     | None \<Rightarrow> (case map_of ?cu i of
         Some c \<Rightarrow> if ?Q c then user_patch_effect (?retire c) (map_of us i) else map_of us i
       | None \<Rightarrow> map_of us i)))"
    by (rule user_patches.plan_applies [where key = us_external_id])
      (use known in \<open>auto simp: desired_users_def current_users_def user_map_keyed plan
        build_scim_sync_plan_patches user_upserts_def missing_users_def\<close>)
  then obtain us' where run: "apply_all apply_user_patch (sp_user_patches plan) us = Inr us'"
    and us': "\<And>i. map_of us' i = (case map_of ?du i of
       Some d \<Rightarrow> if map_of ?cu i = Some d then map_of us i else user_patch_effect (UserUpsert d) (map_of us i)
     | None \<Rightarrow> (case map_of ?cu i of
         Some c \<Rightarrow> if ?Q c then user_patch_effect (?retire c) (map_of us i) else map_of us i
       | None \<Rightarrow> map_of us i))"
    by blast
  have "case map_of ?du i of
       Some d \<Rightarrow> rel_option same_but_groups (map_of us' i) (Some d)
     | None \<Rightarrow> map_of us' i = retired_user policy (map_of us i)" for i
  proof (cases "map_of ?du i")
    case None
    then show ?thesis
      using current [of i] same_but_groups_id unfolding us' [of i]
      by (cases "map_of us i"; cases "map_of ?cu i") (auto simp: retired_user_def)
  next
    case (Some d)
    then show ?thesis
      using current [of i] unfolding us' [of i] by (auto simp: same_but_groups_def)
  qed
  with run show ?thesis by blast
qed

text \<open>
  What the provider lists under an identifier, which is its last entry, and when a group is the one
  that is listed: everything agrees, the members as the set of their trimmed names that are not blank.
\<close>

definition listed_group :: "scim_snapshot \<Rightarrow> string \<Rightarrow> scim_group option" where
  "listed_group snapshot i = find (\<lambda>g. gr_external_id g = i) (rev (ss_groups snapshot))"

definition listed_user :: "scim_snapshot \<Rightarrow> string \<Rightarrow> scim_user option" where
  "listed_user snapshot i = find (\<lambda>u. us_external_id u = i) (rev (ss_users snapshot))"

definition member_names :: "scim_group \<Rightarrow> string set" where
  "member_names g = trim ` set (gr_members g) - {[]}"

definition same_group :: "scim_group \<Rightarrow> scim_group \<Rightarrow> bool" where
  "same_group g h = (g\<lparr>gr_members := gr_members h\<rparr> = h \<and> member_names g = member_names h)"

lemma set_canonical_vec: "set (canonical_vec vs) = trim ` set vs - {[]}"
  by (auto simp: canonical_vec_def)

lemma canonical_same_group: "canonical_group g = canonical_group h \<Longrightarrow> same_group g h"
  using set_canonical_vec [of "gr_members g"] set_canonical_vec [of "gr_members h"]
  by (cases g, cases h) (simp add: canonical_group_def same_group_def member_names_def)

lemma desired_group_listed:
  "map_of (desired_groups snapshot) i = map_option canonical_group (listed_group snapshot i)"
  by (auto simp: desired_groups_def canonical_group_map_def listed_group_def map_of_fold_update canonical_group_def
      split: option.splits)

lemma desired_user_listed:
  "rel_option same_but_groups (listed_user snapshot i) (map_of (desired_users snapshot) i)"
  by (simp add: listed_user_def desired_users_def user_map_shape)

lemma same_but_groups_trans: "same_but_groups u v \<Longrightarrow> same_but_groups w v \<Longrightarrow> same_but_groups u w"
  by (cases u, cases v, cases w) (simp add: same_but_groups_def)

text \<open>
  C27. Applying the plan made from the current directory, patch by patch as the library does, never
  fails.  Then every group the provider lists is in the directory with everything the provider says
  of it, its members up to order, repetition, white space and blanks; every user it lists is there with everything it
  says except the user's own list of groups; and a group or user that it does not list is deleted,
  disabled or left alone as the policy says.  Of several entries with one identifier the last counts.
  The API server applies the patches to its accounts with code of its own, which may fail.
\<close>

theorem scim_sync_converges:
  assumes "keyed_by us_external_id us" "keyed_by gr_external_id gs"
    and "plan = build_scim_sync_plan (map snd us) (map snd gs) snapshot policy"
  shows "\<exists>us' gs'. apply_all apply_group_patch (sp_group_patches plan) gs = Inr gs' \<and>
    apply_all apply_user_patch (sp_user_patches plan) us = Inr us' \<and>
    (\<forall>i. case listed_group snapshot i of
       Some d \<Rightarrow> rel_option same_group (map_of gs' i) (Some d)
     | None \<Rightarrow> map_of gs' i = retired_group policy (map_of gs i)) \<and>
    (\<forall>i. case listed_user snapshot i of
       Some d \<Rightarrow> rel_option same_but_groups (map_of us' i) (Some d)
     | None \<Rightarrow> map_of us' i = retired_user policy (map_of us i))"
proof -
  obtain gs' where gs': "apply_all apply_group_patch (sp_group_patches plan) gs = Inr gs'"
    "\<And>i. case map_of (desired_groups snapshot) i of
       Some d \<Rightarrow> map_option canonical_group (map_of gs' i) = Some d
     | None \<Rightarrow> map_of gs' i = retired_group policy (map_of gs i)"
    using group_patches_converge [OF assms(2,3)] by blast
  obtain us' where us': "apply_all apply_user_patch (sp_user_patches plan) us = Inr us'"
    "\<And>i. case map_of (desired_users snapshot) i of
       Some d \<Rightarrow> rel_option same_but_groups (map_of us' i) (Some d)
     | None \<Rightarrow> map_of us' i = retired_user policy (map_of us i)"
    using user_patches_converge [OF assms(1,3)] by blast
  have "case listed_group snapshot i of
       Some d \<Rightarrow> rel_option same_group (map_of gs' i) (Some d)
     | None \<Rightarrow> map_of gs' i = retired_group policy (map_of gs i)" for i
    using gs'(2) [of i] unfolding desired_group_listed
    by (cases "listed_group snapshot i") (auto intro: canonical_same_group)
  moreover have "case listed_user snapshot i of
       Some d \<Rightarrow> rel_option same_but_groups (map_of us' i) (Some d)
     | None \<Rightarrow> map_of us' i = retired_user policy (map_of us i)" for i
    using us'(2) [of i] desired_user_listed [of snapshot i]
    by (cases "listed_user snapshot i") (auto simp: option_rel_Some1 option_rel_Some2, metis same_but_groups_trans)
  ultimately show ?thesis using gs'(1) us'(1) by blast
qed

text \<open>After a sync that disables, whoever is active is listed as active by the provider.\<close>

lemma sync_deprovisions:
  assumes us: "keyed_by us_external_id us" and plan: "plan = build_scim_sync_plan (map snd us) gs snapshot policy"
    and run: "apply_all apply_user_patch (sp_user_patches plan) us = Inr us'"
    and policy: "lc_disable_missing_users policy \<or> lc_delete_missing_users policy"
    and u: "map_of us' i = Some u" "us_active u"
  shows "\<exists>d. map_of (desired_users snapshot) i = Some d \<and> us_active d"
proof -
  obtain us2 where us2: "apply_all apply_user_patch (sp_user_patches plan) us = Inr us2"
    and shape: "\<And>i. case map_of (desired_users snapshot) i of
       Some d \<Rightarrow> rel_option same_but_groups (map_of us2 i) (Some d)
     | None \<Rightarrow> map_of us2 i = retired_user policy (map_of us i)"
    using user_patches_converge [OF us plan] by blast
  with run have "us2 = us'" by simp
  with shape [of i] policy u show ?thesis
    using same_but_groups_id
    by (cases "map_of us i") (auto simp: retired_user_def split: option.splits if_splits)
qed

subsection \<open>A group that stays disabled\<close>

definition sample_scim_user :: scim_user where
  "sample_scim_user = \<lparr>us_external_id = ''u1'', us_tenant_id = ''t'', us_user_name = ''ann'', us_display_name = ''Ann'',
     us_email = ''ann@x'', us_active = True, us_groups = []\<rparr>"

definition sample_scim_group :: scim_group where
  "sample_scim_group = \<lparr>gr_external_id = ''g1'', gr_tenant_id = ''t'', gr_display_name = ''G'', gr_active = True,
     gr_members = [''u1'']\<rparr>"

definition sample_scim_snapshot :: scim_snapshot where
  "sample_scim_snapshot = \<lparr>ss_users = [sample_scim_user], ss_groups = [],
     ss_cursor = \<lparr>sr_provider = ''okta'', sr_base_url = ''https://idp'', sr_last_success_at = 0, sr_users_total = 1,
       sr_groups_total = 0, sr_pages_fetched = 2, sr_last_user_start_index = 1, sr_last_group_start_index = 1\<rparr>\<rparr>"

definition disable_policy :: lifecycle_policy where
  "disable_policy = \<lparr>lc_disable_missing_users = True, lc_disable_missing_groups = True,
     lc_delete_missing_users = False, lc_delete_missing_groups = False\<rparr>"

text \<open>
  A group the provider dropped is disabled and keeps its members, which count as memberships the
  next time, so each further sync writes its members again.
\<close>

lemma disabled_group_never_settles:
  "sp_user_patches (build_scim_sync_plan [sample_scim_user] [sample_scim_group\<lparr>gr_active := False\<rparr>]
     sample_scim_snapshot disable_policy) = [UserUpsert sample_scim_user]"
  by code_simp

theorem scim_sync_converges_witness:
  "\<exists>us' gs'. let plan = build_scim_sync_plan [sample_scim_user] [sample_scim_group] sample_scim_snapshot disable_policy in
     apply_all apply_group_patch (sp_group_patches plan) [(''g1'', sample_scim_group)] = Inr gs' \<and>
     apply_all apply_user_patch (sp_user_patches plan) [(''u1'', sample_scim_user)] = Inr us' \<and>
     map_of gs' ''g1'' = Some (sample_scim_group\<lparr>gr_active := False\<rparr>)"
proof -
  let ?us = "[(''u1'', sample_scim_user)]" and ?gs = "[(''g1'', sample_scim_group)]"
  have keyed: "keyed_by us_external_id ?us" "keyed_by gr_external_id ?gs"
    by (simp_all add: keyed_by_def sample_scim_user_def sample_scim_group_def)
  have missing: "listed_group sample_scim_snapshot ''g1'' = None"
    by (simp add: listed_group_def sample_scim_snapshot_def)
  obtain us' gs' where "apply_all apply_group_patch (sp_group_patches (build_scim_sync_plan (map snd ?us) (map snd ?gs)
        sample_scim_snapshot disable_policy)) ?gs = Inr gs'"
    "apply_all apply_user_patch (sp_user_patches (build_scim_sync_plan (map snd ?us) (map snd ?gs)
        sample_scim_snapshot disable_policy)) ?us = Inr us'"
    "case listed_group sample_scim_snapshot ''g1'' of
       Some d \<Rightarrow> rel_option same_group (map_of gs' ''g1'') (Some d)
     | None \<Rightarrow> map_of gs' ''g1'' = retired_group disable_policy (map_of ?gs ''g1'')"
    using scim_sync_converges [OF keyed refl, of sample_scim_snapshot disable_policy] by blast
  then show ?thesis
    by (intro exI [of _ us'] exI [of _ gs']) (simp add: Let_def missing retired_group_def disable_policy_def)
qed

end
