(* ===== verification/ScimClient.thy ===== *)
theory ScimClient
  imports ScimSync
begin

text \<open>
  The client of \<open>auth/scim.rs\<close>: providers, one page of a resource with its retries, the parsing of
  users and groups, and the loop that pulls all pages.  A reply may depend on how many requests went
  before, so the client is given a function of that number.  Index arithmetic wraps at \<open>usize\<close>.
\<close>

record scim_sync_config =
  sy_provider :: string
  sy_base_url :: string
  sy_token :: string
  sy_tenant_id :: string
  sy_page_size :: nat
  sy_timeout_ms :: nat
  sy_retry_attempts :: nat
  sy_retry_backoff_ms :: nat
  sy_lifecycle :: lifecycle_policy

record scim_provider_config =
  pv_provider :: string
  pv_base_url :: string
  pv_token :: string

definition sync_config_from_provider :: "scim_provider_config \<Rightarrow> string \<Rightarrow> scim_sync_config" where
  "sync_config_from_provider c tenant =
     \<lparr>sy_provider = pv_provider c, sy_base_url = pv_base_url c, sy_token = pv_token c, sy_tenant_id = tenant,
      sy_page_size = 100, sy_timeout_ms = 5000, sy_retry_attempts = 2, sy_retry_backoff_ms = 250,
      sy_lifecycle = \<lparr>lc_disable_missing_users = True, lc_disable_missing_groups = True,
        lc_delete_missing_users = False, lc_delete_missing_groups = False\<rparr>\<rparr>"

record page_request =
  pq_start_index :: nat
  pq_count :: nat

record 'r resource_page =
  rg_resources :: "'r list"
  rg_total_results :: nat
  rg_start_index :: nat
  rg_items_per_page :: nat

definition next_start_index :: "'r resource_page \<Rightarrow> nat option" where
  "next_start_index p =
     (let nxt = (rg_start_index p + rg_items_per_page p) mod (usize_max + 1) in
      if 0 < rg_items_per_page p \<and> nxt \<le> rg_total_results p then Some nxt else None)"

subsection \<open>Resources\<close>

record list_response =
  lr_total_results :: "nat option"
  lr_start_index :: "nat option"
  lr_items_per_page :: "nat option"
  lr_resources :: "json list"

definition string_field :: "json \<Rightarrow> string \<Rightarrow> string option" where
  "string_field v field = Option.bind (json_get field v) json_str"

definition resource_external_id :: "json \<Rightarrow> scim_error + string" where
  "resource_external_id v =
     (case or_else (string_field v ''externalId'') (string_field v ''id'') of
        None \<Rightarrow> Inl (ScimParse ''SCIM resource missing externalId/id'')
      | Some i \<Rightarrow> if trim i = [] then Inl (ScimParse ''SCIM resource missing externalId/id'') else Inr i)"

definition is_primary :: "json \<Rightarrow> bool" where
  "is_primary email = option_or (Option.bind (json_get ''primary'' email) json_bool) False"

definition parse_email :: "json \<Rightarrow> string option" where
  "parse_email v =
     Option.bind (Option.bind (json_get ''emails'' v) json_array) (\<lambda>emails.
       Option.bind (or_else (find is_primary emails) (case emails of [] \<Rightarrow> None | e # es \<Rightarrow> Some e)) (\<lambda>e.
         Option.bind (json_get ''value'' e) json_str))"

definition parse_ref_values :: "json option \<Rightarrow> string list" where
  "parse_ref_values v =
     canonical_vec (List.map_filter (\<lambda>item.
         Option.bind (or_else (json_get ''value'' item) (json_get ''display'' item)) json_str)
       (option_or (Option.bind v json_array) []))"

definition is_active :: "json \<Rightarrow> bool" where
  "is_active v = option_or (Option.bind (json_get ''active'' v) json_bool) True"

definition parse_user :: "string \<Rightarrow> json \<Rightarrow> scim_error + scim_user" where
  "parse_user tenant v =
     res_bind (resource_external_id v) (\<lambda>external_id.
       let user_name = option_or (or_else (string_field v ''userName'') (string_field v ''username'')) external_id in
       Inr \<lparr>us_external_id = external_id, us_tenant_id = tenant, us_user_name = user_name,
            us_display_name = option_or (string_field v ''displayName'') user_name,
            us_email = option_or (parse_email v) (user_name @ ''@unknown.invalid''),
            us_active = is_active v, us_groups = parse_ref_values (json_get ''groups'' v)\<rparr>)"

definition parse_group :: "string \<Rightarrow> json \<Rightarrow> scim_error + scim_group" where
  "parse_group tenant v =
     res_bind (resource_external_id v) (\<lambda>external_id.
       Inr \<lparr>gr_external_id = external_id, gr_tenant_id = tenant,
            gr_display_name = option_or (string_field v ''displayName'') external_id,
            gr_active = is_active v, gr_members = parse_ref_values (json_get ''members'' v)\<rparr>)"

subsection \<open>One page\<close>

datatype scim_reply = SendFailed string | BodyFailed string | Replied nat string

record scim_env =
  sv_get :: "nat \<Rightarrow> string \<Rightarrow> string \<Rightarrow> page_request \<Rightarrow> scim_reply"
  sv_parse :: "string \<Rightarrow> string + list_response"
  sv_url_error :: "string \<Rightarrow> string option"
  sv_client_error :: "nat \<Rightarrow> string option"
  sv_now :: time

fun fetch_attempts ::
  "scim_env \<Rightarrow> string \<Rightarrow> string \<Rightarrow> string \<Rightarrow> page_request \<Rightarrow> nat \<Rightarrow> nat \<Rightarrow> scim_error option
     \<Rightarrow> nat \<times> (scim_error + list_response)" where
  "fetch_attempts env url token resource rq 0 sent last_error =
     (sent, Inl (option_or last_error (ScimRequest ''SCIM request failed without response'')))"
| "fetch_attempts env url token resource rq (Suc n) sent last_error =
     (case sv_get env sent url token rq of
        SendFailed e \<Rightarrow> fetch_attempts env url token resource rq n (sent + 1) (Some (ScimRequest e))
      | BodyFailed e \<Rightarrow> (sent + 1, Inl (ScimRequest (''failed reading response: '' @ e)))
      | Replied status body \<Rightarrow>
          if status = 401 \<or> status = 403 then (sent + 1, Inl ScimInvalidToken)
          else if 200 \<le> status \<and> status < 300 then
            (sent + 1, (case sv_parse env body of
               Inl e \<Rightarrow> Inl (ScimParse (''invalid SCIM ListResponse from '' @ resource @ '': '' @ e))
             | Inr r \<Rightarrow> Inr r))
          else if status = 429 \<or> (500 \<le> status \<and> status < 600) then
            fetch_attempts env url token resource rq n (sent + 1) (Some (ScimStatus status body))
          else (sent + 1, Inl (ScimStatus status body)))"

definition fetch_json_page ::
  "scim_env \<Rightarrow> scim_sync_config \<Rightarrow> string \<Rightarrow> page_request \<Rightarrow> nat \<Rightarrow> nat \<times> (scim_error + list_response)" where
  "fetch_json_page env cfg resource rq sent =
     fetch_attempts env
       (trim_end_matches (CHR ''/'') (sy_base_url cfg) @ ''/'' @ trim_start_matches (CHR ''/'') resource)
       (sy_token cfg) resource rq (max (sy_retry_attempts cfg) 1) sent None"

definition read_page_of ::
  "(json \<Rightarrow> scim_error + 'r) \<Rightarrow> page_request \<Rightarrow> list_response \<Rightarrow> scim_error + 'r resource_page" where
  "read_page_of parse rq r =
     res_bind (res_map_list parse (lr_resources r)) (\<lambda>resources.
       Inr \<lparr>rg_resources = resources, rg_total_results = option_or (lr_total_results r) 0,
            rg_start_index = option_or (lr_start_index r) (pq_start_index rq),
            rg_items_per_page = option_or (lr_items_per_page r) (pq_count rq)\<rparr>)"

subsection \<open>Providers\<close>

datatype scim_directory = MockScim string | BearerScim string | HttpScim scim_sync_config

definition bearer_from_config :: "scim_provider_config \<Rightarrow> scim_error + scim_directory" where
  "bearer_from_config c =
     (if trim (pv_base_url c) = [] then Inl (ScimConfiguration ''scim.base_url must not be empty'')
      else if trim (pv_token c) = [] then Inl (ScimConfiguration ''scim.token must not be empty'')
      else Inr (BearerScim (pv_token c)))"

definition http_from_config :: "scim_env \<Rightarrow> scim_sync_config \<Rightarrow> scim_error + scim_directory" where
  "http_from_config env c =
     (if trim (sy_base_url c) = [] then Inl (ScimConfiguration ''scim.base_url must not be empty'')
      else if trim (sy_token c) = [] then Inl (ScimConfiguration ''scim.token must not be empty'')
      else if sy_page_size c = 0 then Inl (ScimConfiguration ''scim.page_size must be greater than zero'')
      else (case sv_url_error env (sy_base_url c) of
              Some e \<Rightarrow> Inl (ScimConfiguration (''invalid scim.base_url: '' @ e))
            | None \<Rightarrow>
                (case sv_client_error env (max (sy_timeout_ms c) 1) of
                   Some e \<Rightarrow> Inl (ScimRequest e)
                 | None \<Rightarrow> Inr (HttpScim c))))"

definition scim_registry :: "scim_env \<Rightarrow> scim_sync_config \<Rightarrow> scim_error + (scim_directory \<times> scim_sync_config)" where
  "scim_registry env c =
     (let p = to_ascii_lowercase (trim (sy_provider c)) in
      res_bind
        (if p = ''mock'' then Inr (MockScim (sy_token c))
         else if p = ''bearer'' then bearer_from_config
           \<lparr>pv_provider = sy_provider c, pv_base_url = sy_base_url c, pv_token = sy_token c\<rparr>
         else if p \<in> {''scim20'', ''scim2'', ''generic-scim'', ''okta'', ''entra'', ''azure-ad''}
         then http_from_config env c
         else Inl (ScimUnknownProvider p))
        (\<lambda>d. Inr (d, c)))"

fun scim_provider_name :: "scim_directory \<Rightarrow> string" where
  "scim_provider_name (MockScim t) = ''mock''"
| "scim_provider_name (BearerScim t) = ''bearer''"
| "scim_provider_name (HttpScim c) = sy_provider c"

fun scim_token :: "scim_directory \<Rightarrow> string" where
  "scim_token (MockScim t) = t"
| "scim_token (BearerScim t) = t"
| "scim_token (HttpScim c) = sy_token c"

definition scim_authorize :: "scim_directory \<Rightarrow> string \<Rightarrow> scim_error + unit" where
  "scim_authorize d token = (if token = scim_token d then Inr () else Inl ScimInvalidToken)"

fun users_page ::
  "scim_env \<Rightarrow> scim_directory \<Rightarrow> page_request \<Rightarrow> nat \<Rightarrow> nat \<times> (scim_error + scim_user resource_page)" where
  "users_page env (MockScim t) rq sent = (sent, Inl (ScimUnsupportedProvider ''mock''))"
| "users_page env (BearerScim t) rq sent = (sent, Inl (ScimUnsupportedProvider ''bearer''))"
| "users_page env (HttpScim c) rq sent =
     map_prod id (\<lambda>r. res_bind r (read_page_of (parse_user (sy_tenant_id c)) rq)) (fetch_json_page env c ''Users'' rq sent)"

fun groups_page ::
  "scim_env \<Rightarrow> scim_directory \<Rightarrow> page_request \<Rightarrow> nat \<Rightarrow> nat \<times> (scim_error + scim_group resource_page)" where
  "groups_page env (MockScim t) rq sent = (sent, Inl (ScimUnsupportedProvider ''mock''))"
| "groups_page env (BearerScim t) rq sent = (sent, Inl (ScimUnsupportedProvider ''bearer''))"
| "groups_page env (HttpScim c) rq sent =
     map_prod id (\<lambda>r. res_bind r (read_page_of (parse_group (sy_tenant_id c)) rq)) (fetch_json_page env c ''Groups'' rq sent)"

subsection \<open>All pages\<close>

text \<open>
  The loop over pages: from the number of requests sent and the next index, with what was read and
  the start of each page so far.  It ends when a page names no next index, which is the provider's
  choice, so not ending is \<open>None\<close>.
\<close>

partial_function (option) pull_pages ::
  "(page_request \<Rightarrow> nat \<Rightarrow> nat \<times> ('e + 'r resource_page)) \<Rightarrow> nat \<Rightarrow> nat \<Rightarrow> nat \<Rightarrow> 'r list \<Rightarrow> nat list
     \<Rightarrow> (nat \<times> ('e + 'r list \<times> nat list)) option" where
  "pull_pages page n sent start got starts =
     (case page \<lparr>pq_start_index = start, pq_count = n\<rparr> sent of
        (sent', Inl e) \<Rightarrow> Some (sent', Inl e)
      | (sent', Inr p) \<Rightarrow>
          (case next_start_index p of
             None \<Rightarrow> Some (sent', Inr (got @ rg_resources p, starts @ [rg_start_index p]))
           | Some nxt \<Rightarrow> pull_pages page n sent' nxt (got @ rg_resources p) (starts @ [rg_start_index p])))"

definition pull_snapshot ::
  "scim_env \<Rightarrow> scim_directory \<times> scim_sync_config \<Rightarrow> (scim_error + scim_snapshot) option" where
  "pull_snapshot env reg =
     (let (d, c) = reg; n = max (sy_page_size c) 1 in
      Option.bind (pull_pages (users_page env d) n 0 1 [] []) (\<lambda>(sent, us).
        (case us of
           Inl e \<Rightarrow> Some (Inl e)
         | Inr (users, user_starts) \<Rightarrow>
             Option.bind (pull_pages (groups_page env d) n sent 1 [] []) (\<lambda>(sent, gs).
               (case gs of
                  Inl e \<Rightarrow> Some (Inl e)
                | Inr (groups, group_starts) \<Rightarrow> Some (Inr
                    \<lparr>ss_users = users, ss_groups = groups,
                     ss_cursor = \<lparr>sr_provider = sy_provider c, sr_base_url = sy_base_url c,
                       sr_last_success_at = sv_now env, sr_users_total = length users,
                       sr_groups_total = length groups,
                       sr_pages_fetched = length user_starts + length group_starts,
                       sr_last_user_start_index = last (1 # user_starts),
                       sr_last_group_start_index = last (1 # group_starts)\<rparr>\<rparr>))))))"

subsection \<open>When the loop ends\<close>

text \<open>A provider that pages through a list of resources, as RFC 7644 describes it.\<close>

definition honest_pages ::
  "(page_request \<Rightarrow> nat \<Rightarrow> nat \<times> ('e + 'r resource_page)) \<Rightarrow> nat \<Rightarrow> 'r list \<Rightarrow> bool" where
  "honest_pages page n all =
     (\<forall>start sent. 1 \<le> start \<longrightarrow> (\<exists>sent' items.
        page \<lparr>pq_start_index = start, pq_count = n\<rparr> sent =
          (sent', Inr \<lparr>rg_resources = take n (drop (start - 1) all), rg_total_results = length all,
             rg_start_index = start, rg_items_per_page = items\<rparr>)
        \<and> (items = n \<or> items = length (take n (drop (start - 1) all)))))"

lemma honest_pull:
  assumes "honest_pages page n all" "0 < n" "length all + n < usize_max" "k \<le> length all"
  shows "\<exists>sent' starts'. pull_pages page n sent (k + 1) got starts = Some (sent', Inr (got @ drop k all, starts'))"
  using assms(4)
proof (induction "length all - k" arbitrary: k sent got starts rule: less_induct)
  case less
  obtain sent' items where page: "page \<lparr>pq_start_index = k + 1, pq_count = n\<rparr> sent =
      (sent', Inr \<lparr>rg_resources = take n (drop k all), rg_total_results = length all,
         rg_start_index = k + 1, rg_items_per_page = items\<rparr>)"
    and items: "items = n \<or> items = length (take n (drop k all))"
    using assms(1) unfolding honest_pages_def by (metis add_diff_cancel_right' le_add2)
  let ?p = "\<lparr>rg_resources = take n (drop k all), rg_total_results = length all,
      rg_start_index = k + 1, rg_items_per_page = items\<rparr>"
  have "k + 1 + items < usize_max + 1"
    using items less.prems assms(3) by auto
  then have nxt: "next_start_index ?p = (if 0 < items \<and> k + items < length all then Some (k + 1 + items) else None)"
    by (simp add: next_start_index_def)
  have step: "pull_pages page n sent (k + 1) got starts =
      (if 0 < items \<and> k + items < length all
       then pull_pages page n sent' (k + 1 + items) (got @ take n (drop k all)) (starts @ [k + 1])
       else Some (sent', Inr (got @ take n (drop k all), starts @ [k + 1])))"
    by (subst pull_pages.simps) (simp add: page [simplified] nxt [simplified])
  show ?case
  proof (cases "0 < items \<and> k + items < length all")
    case True
    then have i: "items = n" using items by auto
    have rest: "drop k all = take n (drop k all) @ drop (k + n) all"
      by (metis add.commute append_take_drop_id drop_drop)
    have dec: "length all - (k + n) < length all - k" using True i assms(2) by linarith
    obtain s2 starts2 where "pull_pages page n sent' (k + n + 1) (got @ take n (drop k all)) (starts @ [k + 1])
        = Some (s2, Inr ((got @ take n (drop k all)) @ drop (k + n) all, starts2))"
      using less.hyps [OF dec, of sent' "got @ take n (drop k all)" "starts @ [k + 1]"] True i by auto
    moreover have "k + 1 + items = k + n + 1" using i by simp
    ultimately show ?thesis unfolding step using True rest by (metis append.assoc)
  next
    case False
    then have "take n (drop k all) = drop k all"
      using items less.prems assms(2) by (auto simp: min_def split: if_splits)
    then show ?thesis unfolding step using False by auto
  qed
qed

text \<open>
  C28. Against a provider that pages honestly through its users and its groups, pulling a snapshot
  ends and returns exactly those users and groups, in order.
\<close>

theorem pull_snapshot_complete:
  assumes "honest_pages (users_page env d) n users" "honest_pages (groups_page env d) n groups"
    and "n = max (sy_page_size c) 1" "length users + n < usize_max" "length groups + n < usize_max"
  shows "\<exists>snapshot. pull_snapshot env (d, c) = Some (Inr snapshot) \<and>
    ss_users snapshot = users \<and> ss_groups snapshot = groups \<and>
    sr_users_total (ss_cursor snapshot) = length users \<and> sr_groups_total (ss_cursor snapshot) = length groups"
proof -
  have n: "0 < n" using assms(3) by simp
  obtain s1 us where us: "pull_pages (users_page env d) n 0 1 [] [] = Some (s1, Inr (users, us))"
    using honest_pull [OF assms(1) n assms(4), of 0 0 "[]" "[]"] by auto
  obtain s2 gs where gs: "pull_pages (groups_page env d) n s1 1 [] [] = Some (s2, Inr (groups, gs))"
    using honest_pull [OF assms(2) n assms(5), of 0 s1 "[]" "[]"] by auto
  show ?thesis by (simp add: pull_snapshot_def Let_def assms(3) [symmetric, simplified] us [simplified] gs [simplified])
qed

text \<open>The loop follows whatever index the provider sends, so one that repeats itself is never left.\<close>

definition stuck_page :: "page_request \<Rightarrow> nat \<Rightarrow> nat \<times> (scim_error + 'r resource_page)" where
  "stuck_page rq sent =
     (sent + 1, Inr \<lparr>rg_resources = [], rg_total_results = 2, rg_start_index = 1, rg_items_per_page = 1\<rparr>)"

lemma stuck_provider_never_ends: "pull_pages stuck_page n sent start got starts = None"
proof -
  have "page \<noteq> stuck_page"
    if run: "pull_pages page n sent start got starts = Some r"
    for page :: "page_request \<Rightarrow> nat \<Rightarrow> nat \<times> (scim_error + 'r resource_page)" and n sent start got starts r
  proof (rule pull_pages.raw_induct [OF _ run])
    fix rec and page :: "page_request \<Rightarrow> nat \<Rightarrow> nat \<times> (scim_error + 'r resource_page)"
      and n sent start got starts r
    assume IH: "\<And>page n sent start got starts r. rec page n sent start got starts = Some r \<Longrightarrow> page \<noteq> stuck_page"
      and run: "(case page \<lparr>pq_start_index = start, pq_count = n\<rparr> sent of
        (sent', Inl e) \<Rightarrow> Some (sent', Inl e)
      | (sent', Inr p) \<Rightarrow>
          (case next_start_index p of
             None \<Rightarrow> Some (sent', Inr (got @ rg_resources p, starts @ [rg_start_index p]))
           | Some nxt \<Rightarrow> rec page n sent' nxt (got @ rg_resources p) (starts @ [rg_start_index p]))) = Some r"
    show "page \<noteq> stuck_page"
    proof
      assume page: "page = stuck_page"
      have "next_start_index \<lparr>rg_resources = [] :: 'r list, rg_total_results = 2, rg_start_index = 1,
          rg_items_per_page = 1\<rparr> = Some 2"
        by (simp add: next_start_index_def usize_max_def)
      with run have "rec stuck_page n (sent + 1) 2 (got @ []) (starts @ [1]) = Some r"
        unfolding page stuck_page_def by simp
      with IH show False by blast
    qed
  qed
  then show ?thesis by (meson not_Some_eq)
qed

subsection \<open>A concrete provider\<close>

definition sample_resource :: json where
  "sample_resource = JObject [(''id'', JString ''u1''), (''userName'', JString ''ann'')]"

definition sample_scim_config :: scim_sync_config where
  "sample_scim_config = (sync_config_from_provider
     \<lparr>pv_provider = ''okta'', pv_base_url = ''https://idp/'', pv_token = ''t''\<rparr> ''tenant'')\<lparr>sy_page_size := 1\<rparr>"

text \<open>One user and no group; every first request of a page is refused with 503.\<close>

definition sample_scim_env :: scim_env where
  "sample_scim_env =
     \<lparr>sv_get = (\<lambda>sent url token rq.
        if even sent then Replied 503 ''busy''
        else Replied 200
          (if url \<noteq> ''https://idp/Users'' then ''none'' else if pq_start_index rq = 1 then ''one'' else ''end'')),
      sv_parse = (\<lambda>b. Inr \<lparr>lr_total_results = Some (if b = ''none'' then 0 else 1), lr_start_index = None,
        lr_items_per_page = None, lr_resources = (if b = ''one'' then [sample_resource] else [])\<rparr>),
      sv_url_error = (\<lambda>_. None), sv_client_error = (\<lambda>_. None), sv_now = 0\<rparr>"

definition sample_parsed_user :: scim_user where
  "sample_parsed_user = \<lparr>us_external_id = ''u1'', us_tenant_id = ''tenant'', us_user_name = ''ann'',
     us_display_name = ''ann'', us_email = ''ann@unknown.invalid'', us_active = True, us_groups = []\<rparr>"

lemma sample_parse: "parse_user ''tenant'' sample_resource = Inr sample_parsed_user"
  by (simp add: parse_user_def sample_resource_def resource_external_id_def string_field_def or_else_def
      parse_email_def is_active_def parse_ref_values_def canonical_vec_def bts_of_def option_or_def
      sample_parsed_user_def trim_empty_iff is_ws_def code_of_def Let_def List.map_filter_def)

lemma sample_urls:
  "trim_end_matches (CHR ''/'') ''https://idp/'' @ ''/'' @ trim_start_matches (CHR ''/'') ''Users'' = ''https://idp/Users''"
  "trim_end_matches (CHR ''/'') ''https://idp/'' @ ''/'' @ trim_start_matches (CHR ''/'') ''Groups'' = ''https://idp/Groups''"
  by code_simp+

text \<open>Each page costs one refused request when the number sent so far is even.\<close>

lemma sample_fetch:
  "fetch_json_page sample_scim_env sample_scim_config ''Users'' rq sent =
    (if even sent then sent + 2 else sent + 1, Inr \<lparr>lr_total_results = Some 1,
       lr_start_index = None, lr_items_per_page = None,
       lr_resources = (if pq_start_index rq = 1 then [sample_resource] else [])\<rparr>)"
  "fetch_json_page sample_scim_env sample_scim_config ''Groups'' rq sent =
    (if even sent then sent + 2 else sent + 1, Inr \<lparr>lr_total_results = Some 0,
       lr_start_index = None, lr_items_per_page = None, lr_resources = []\<rparr>)"
proof -
  have retries: "max (sy_retry_attempts sample_scim_config) 1 = Suc (Suc 0)"
    by (simp add: sample_scim_config_def sync_config_from_provider_def)
  have base: "sy_base_url sample_scim_config = ''https://idp/''"
    by (simp add: sample_scim_config_def sync_config_from_provider_def)
  show "fetch_json_page sample_scim_env sample_scim_config ''Users'' rq sent =
    (if even sent then sent + 2 else sent + 1, Inr \<lparr>lr_total_results = Some 1,
       lr_start_index = None, lr_items_per_page = None,
       lr_resources = (if pq_start_index rq = 1 then [sample_resource] else [])\<rparr>)"
    unfolding fetch_json_page_def retries base sample_urls by (simp add: sample_scim_env_def)
  show "fetch_json_page sample_scim_env sample_scim_config ''Groups'' rq sent =
    (if even sent then sent + 2 else sent + 1, Inr \<lparr>lr_total_results = Some 0,
       lr_start_index = None, lr_items_per_page = None, lr_resources = []\<rparr>)"
    unfolding fetch_json_page_def retries base sample_urls by (simp add: sample_scim_env_def)
qed

theorem pull_snapshot_complete_witness:
  "\<exists>snapshot. pull_snapshot sample_scim_env (HttpScim sample_scim_config, sample_scim_config) = Some (Inr snapshot) \<and>
     ss_users snapshot = [sample_parsed_user] \<and> ss_groups snapshot = []"
proof -
  let ?env = sample_scim_env and ?c = sample_scim_config
  have tenant: "sy_tenant_id ?c = ''tenant''" and size: "sy_page_size ?c = 1"
    by (simp_all add: sample_scim_config_def sync_config_from_provider_def)
  have users: "honest_pages (users_page ?env (HttpScim ?c)) 1 [sample_parsed_user]"
    by (auto simp: honest_pages_def sample_fetch read_page_of_def option_or_def tenant sample_parse take_Cons'
        drop_Cons')
  have groups: "honest_pages (groups_page ?env (HttpScim ?c)) 1 []"
    by (auto simp: honest_pages_def sample_fetch read_page_of_def option_or_def)
  show ?thesis
    using pull_snapshot_complete [OF users groups, of ?c] by (auto simp: size usize_max_def)
qed

end
