(* ===== verification/ApiState.thy ===== *)
theory ApiState
  imports HttpRequest AccessPolicy SingleSignOn ScimClient TenantIsolation AuditChain
begin

text \<open>
  The state of the API server that its authentication and provisioning handlers share,
  \<open>apps/sdqp-api/src/lib.rs\<close>: accounts, groups, projects, pending and active sessions and what was
  handed to the audit trail.  A handler runs as one step from a state to a state and a reply.

  A map of the code is a list of entries in the order in which it is iterated.  What a handler
  draws from outside is its \<open>api_io\<close>, two readings of the clock and fresh identifiers; the outcome
  of the n-th write to storage is a function of n, constantly true without a store.  A panic leaves
  the state as it is; where the code holds a lock at that moment every later handler panics too,
  and the model allows more.
\<close>

subsection \<open>State\<close>

record user_account =
  ua_username :: string
  ua_display_name :: string
  ua_email :: string
  ua_password :: string
  ua_user_id :: string
  ua_tenant_id :: string
  ua_external_id :: "string option"
  ua_active :: bool
  ua_auth_source :: trusted_source
  ua_roles :: "role list"
  ua_mfa_method :: mfa_method
  ua_mfa_registration :: "mfa_registration option"

record pending_session =
  ps_account :: user_account
  ps_binding :: session_binding
  ps_challenge :: mfa_challenge
  ps_auth_source :: trusted_source

record active_session =
  an_claims :: session_claims
  an_refresh_token :: string
  an_previous_fingerprint :: "string option"
  an_roles :: "role list"
  an_mfa_method :: mfa_method
  an_auth_source :: trusted_source
  an_risk_score :: int
  an_device_posture :: "posture_report option"
  an_revoked :: bool
  an_step_up_required :: bool
  an_step_up_challenge :: "step_up_challenge option"

record audit_entry =
  en_actor :: actor_info
  en_action :: action_type
  en_target :: target_ref
  en_context :: string
  en_fields :: context_fields
  en_result :: action_result

record api_state =
  st_users :: "(string \<times> user_account) list"
  st_scim_groups :: scim_groups
  st_projects :: "(string \<times> project_context) list"
  st_pending :: "(string \<times> pending_session) list"
  st_active :: "(string \<times> active_session) list"
  st_scim_cursor :: "scim_cursor option"
  st_audit :: "audit_entry list"
  st_saves :: nat

record api_env =
  av_auth :: auth_env
  av_mfa :: mfa_config
  av_sso_env :: sso_env
  av_sso :: sso_registry
  av_redirect_url :: string
  av_scim_env :: scim_env
  av_scim :: "scim_directory \<times> scim_sync_config"
  av_bucket :: string
  av_saved :: "nat \<Rightarrow> bool"

record api_io =
  io_now :: time
  io_later :: time
  io_ulid :: string
  io_ulid2 :: string
  io_token :: string

datatype 'a reply = Panic | Refused api_error | Done 'a

definition api_token_secret :: string where
  "api_token_secret = ''sdqp-phase1-dev-secret''"

definition persist :: "api_env \<Rightarrow> api_state \<Rightarrow> api_state \<times> bool" where
  "persist env st = (st\<lparr>st_saves := st_saves st + 1\<rparr>, av_saved env (st_saves st))"

definition persist_or :: "api_env \<Rightarrow> string \<Rightarrow> api_state \<Rightarrow> (api_state \<Rightarrow> api_state \<times> 'a reply) \<Rightarrow> api_state \<times> 'a reply" where
  "persist_or env message st k =
     (let (st, ok) = persist env st in if ok then k st else (st, Refused (json_error 500 message)))"

subsection \<open>Lookups\<close>

definition lookup_user_by_username :: "api_state \<Rightarrow> string \<Rightarrow> user_account option" where
  "lookup_user_by_username st name = map_of (st_users st) name"

definition lookup_user_by_user_id :: "api_state \<Rightarrow> string \<Rightarrow> user_account option" where
  "lookup_user_by_user_id st i = map_option snd (find (\<lambda>e. ua_user_id (snd e) = i) (st_users st))"

text \<open>The session that holds a refresh token and is not revoked.\<close>

definition session_with_token :: "api_state \<Rightarrow> string \<Rightarrow> (string \<times> active_session) option" where
  "session_with_token st token =
     find (\<lambda>e. an_refresh_token (snd e) = token \<and> \<not> an_revoked (snd e)) (st_active st)"

definition put_session :: "string \<Rightarrow> active_session \<Rightarrow> api_state \<Rightarrow> api_state" where
  "put_session sid a st = st\<lparr>st_active := AList.update sid a (st_active st)\<rparr>"

definition revoke_sessions_for_user :: "string \<Rightarrow> api_state \<Rightarrow> api_state" where
  "revoke_sessions_for_user uid st =
     st\<lparr>st_active := map (\<lambda>(k, a). (k, if sc_user_id (an_claims a) = uid then a\<lparr>an_revoked := True\<rparr> else a))
       (st_active st)\<rparr>"

subsection \<open>Audit events\<close>

record authenticated_session =
  au_claims :: session_claims
  au_roles :: "role list"

definition audit_append :: "audit_entry \<Rightarrow> api_state \<Rightarrow> api_state" where
  "audit_append e st = st\<lparr>st_audit := st_audit st @ [e]\<rparr>"

definition append_login_audit :: "string \<Rightarrow> string \<Rightarrow> action_result \<Rightarrow> string \<Rightarrow> api_state \<Rightarrow> api_state" where
  "append_login_audit user tenant result why =
     audit_append \<lparr>en_actor = \<lparr>ac_user_id = user, ac_session_id = ''pre-auth'', ac_ip_address = ''127.0.0.1''\<rparr>,
       en_action = ActLogin,
       en_target = \<lparr>tg_tenant_id = tenant, tg_project_id = None, tg_resource_id = ''auth/login''\<rparr>,
       en_context = why, en_fields = [], en_result = result\<rparr>"

definition session_actor :: "session_claims \<Rightarrow> actor_info" where
  "session_actor c =
     \<lparr>ac_user_id = sc_user_id c, ac_session_id = sc_session_id c, ac_ip_address = sb_ip_address (sc_binding c)\<rparr>"

definition request_entry ::
  "authenticated_session option \<Rightarrow> string option \<Rightarrow> action_type \<Rightarrow> action_result \<Rightarrow> string \<Rightarrow> string
     \<Rightarrow> audit_entry" where
  "request_entry session project action result resource why =
     \<lparr>en_actor = (case session of
         Some s \<Rightarrow> session_actor (au_claims s)
       | None \<Rightarrow> \<lparr>ac_user_id = ''anonymous'', ac_session_id = ''anonymous'', ac_ip_address = ''127.0.0.1''\<rparr>),
      en_action = action,
      en_target = \<lparr>tg_tenant_id = (case session of Some s \<Rightarrow> sc_tenant_id (au_claims s) | None \<Rightarrow> ''unknown''),
        tg_project_id = project, tg_resource_id = resource\<rparr>,
      en_context = why, en_fields = [], en_result = result\<rparr>"

definition append_request_audit ::
  "authenticated_session option \<Rightarrow> string option \<Rightarrow> action_type \<Rightarrow> action_result \<Rightarrow> string \<Rightarrow> string
     \<Rightarrow> api_state \<Rightarrow> api_state" where
  "append_request_audit session project action result resource why =
     audit_append (request_entry session project action result resource why)"

subsection \<open>Answers about challenges\<close>

fun mfa_method_label :: "mfa_method \<Rightarrow> string" where
  "mfa_method_label Totp = ''totp''"
| "mfa_method_label WebAuthn = ''webauthn''"
| "mfa_method_label Biometric = ''biometric''"

definition mfa_challenge_response_of :: "mfa_challenge \<Rightarrow> mfa_challenge_response" where
  "mfa_challenge_response_of ch =
     \<lparr>mr_challenge_id = ch_challenge_id ch, mr_method = mfa_method_label (ch_method ch), mr_reason = ch_reason ch,
      mr_expires_at = ch_expires_at ch,
      mr_webauthn_request = (case ch_payload ch of Some (WebAuthnPayload w) \<Rightarrow> Some w | _ \<Rightarrow> None)\<rparr>"

definition step_up_challenge_response :: "step_up_challenge \<Rightarrow> mfa_challenge_response" where
  "step_up_challenge_response ch = mfa_challenge_response_of (as_mfa_challenge ch)"

definition json_step_up_required :: "step_up_challenge option \<Rightarrow> api_error" where
  "json_step_up_required ch =
     \<lparr>ae_status = 401, ae_error = ''step-up authentication required'', ae_step_up_required = Some True,
      ae_step_up_challenge = map_option step_up_challenge_response ch\<rparr>"

end
