(* ===== verification/ApiDirectory.thy ===== *)
theory ApiDirectory
  imports ApiState
begin

text \<open>
  The directory of accounts in the API server, \<open>apps/sdqp-api/src/lib.rs\<close>: how accounts are made
  from claims and from the provisioning interface, how patches change the directory and the
  sessions, and the synchronisation with a provider, which applies the plan of \<open>ScimSync\<close>.
\<close>

subsection \<open>Roles and accounts\<close>

definition roles_step :: "role list \<Rightarrow> string \<Rightarrow> role list" where
  "roles_step roles grp =
     (let g = to_ascii_lowercase grp in
      if str_contains g ''admin'' \<and> SystemAdmin \<notin> set roles then roles @ [SystemAdmin]
      else if str_contains g ''project-admin'' \<and> ProjectAdmin \<notin> set roles then roles @ [ProjectAdmin]
      else if str_contains g ''owner'' \<and> DataOwner \<notin> set roles then roles @ [DataOwner]
      else if str_contains g ''auditor'' \<and> Auditor \<notin> set roles then roles @ [Auditor]
      else if str_contains g ''approver'' \<and> Approver \<notin> set roles then roles @ [Approver]
      else if str_contains g ''analyst'' \<and> Analyst \<notin> set roles then roles @ [Analyst]
      else roles)"

definition roles_from_group_ids :: "string list \<Rightarrow> role list" where
  "roles_from_group_ids groups =
     (let roles = foldl roles_step [] groups in if roles = [] then [Analyst] else roles)"

definition mfa_method_for_roles :: "role list \<Rightarrow> mfa_method" where
  "mfa_method_for_roles roles =
     (if list_ex (\<lambda>r. r \<in> {SystemAdmin, ProjectAdmin, DataOwner, Auditor, Approver}) roles
      then WebAuthn else Totp)"

text \<open>An account that has no second factor gets one derived from its names; \<open>None\<close> is a panic.\<close>

definition bootstrap_user_account :: "api_env \<Rightarrow> user_account \<Rightarrow> user_account option" where
  "bootstrap_user_account env a =
     (if ua_mfa_registration a \<noteq> None then Some a
      else map_option (\<lambda>r. a\<lparr>ua_mfa_registration := Some r\<rparr>)
        (bootstrap_registration (av_auth env) (av_mfa env) (ua_tenant_id a) (ua_user_id a) (ua_username a)
          (ua_mfa_method a)))"

definition account_from_sso_claims :: "api_env \<Rightarrow> sso_claims \<Rightarrow> user_account option" where
  "account_from_sso_claims env c =
     (let roles = roles_from_group_ids (sl_groups c) in
      bootstrap_user_account env
        \<lparr>ua_username = sl_username c, ua_display_name = sl_display_name c, ua_email = sl_email c,
         ua_password = ''__sso_only__'', ua_user_id = ''user-'' @ sl_username c, ua_tenant_id = ''tenant-alpha'',
         ua_external_id = Some (sl_subject c), ua_active = True, ua_auth_source = sl_auth_source c,
         ua_roles = roles, ua_mfa_method = mfa_method_for_roles roles, ua_mfa_registration = None\<rparr>)"

definition account_from_scim_user :: "api_env \<Rightarrow> scim_user \<Rightarrow> user_account option" where
  "account_from_scim_user env u =
     (let roles = roles_from_group_ids (us_groups u) in
      bootstrap_user_account env
        \<lparr>ua_username = us_user_name u, ua_display_name = us_display_name u, ua_email = us_email u,
         ua_password = ''__scim_managed__'', ua_user_id = ''user-'' @ us_user_name u, ua_tenant_id = us_tenant_id u,
         ua_external_id = Some (us_external_id u), ua_active = us_active u, ua_auth_source = ScimSource,
         ua_roles = roles, ua_mfa_method = mfa_method_for_roles roles, ua_mfa_registration = None\<rparr>)"

fun hydrate_user_directory :: "api_env \<Rightarrow> (string \<times> user_account) list \<Rightarrow> (string \<times> user_account) list option" where
  "hydrate_user_directory env [] = Some []"
| "hydrate_user_directory env ((k, a) # us) =
     Option.bind (bootstrap_user_account env a) (\<lambda>a.
       map_option (\<lambda>us. (k, a) # us) (hydrate_user_directory env us))"

subsection \<open>Changes of accounts\<close>

definition account_with_external_id :: "api_state \<Rightarrow> string \<Rightarrow> (string \<times> user_account) option" where
  "account_with_external_id st i = find (\<lambda>e. ua_external_id (snd e) = Some i) (st_users st)"

definition revoke_if_inactive :: "user_account \<Rightarrow> api_state \<Rightarrow> api_state" where
  "revoke_if_inactive a st = (if ua_active a then st else revoke_sessions_for_user (ua_user_id a) st)"

definition upsert_user_account :: "api_env \<Rightarrow> user_account \<Rightarrow> api_state \<Rightarrow> api_state \<times> unit reply" where
  "upsert_user_account env a st =
     (let previous = Option.bind (ua_external_id a) (account_with_external_id st);
          st = (case previous of None \<Rightarrow> st | Some (k, _) \<Rightarrow> st\<lparr>st_users := AList.delete k (st_users st)\<rparr>);
          a = (case previous of None \<Rightarrow> a
               | Some (_, p) \<Rightarrow> a\<lparr>ua_user_id := ua_user_id p, ua_mfa_registration := ua_mfa_registration p\<rparr>) in
      case bootstrap_user_account env a of
        None \<Rightarrow> (st, Panic)
      | Some a \<Rightarrow>
          persist_or env ''failed to persist user account''
            (revoke_if_inactive a (st\<lparr>st_users := AList.update (ua_username a) a (st_users st)\<rparr>))
            (\<lambda>st. (st, Done ())))"

definition patched_account :: "user_changes \<Rightarrow> user_account \<Rightarrow> user_account" where
  "patched_account c a =
     (let a = a\<lparr>ua_username := option_or (uc_user_name c) (ua_username a),
                ua_display_name := option_or (uc_display_name c) (ua_display_name a),
                ua_email := option_or (uc_email c) (ua_email a),
                ua_active := option_or (uc_active c) (ua_active a)\<rparr> in
      case uc_groups c of None \<Rightarrow> a
      | Some gs \<Rightarrow> a\<lparr>ua_roles := roles_from_group_ids gs,
                     ua_mfa_method := mfa_method_for_roles (roles_from_group_ids gs)\<rparr>)"

definition patch_user_by_external_id ::
  "string \<Rightarrow> user_changes \<Rightarrow> api_state \<Rightarrow> (api_state \<times> user_account) option" where
  "patch_user_by_external_id i c st =
     map_option (\<lambda>(k, a).
       let a' = patched_account c a in
       (revoke_if_inactive a' (st\<lparr>st_users := AList.update (ua_username a') a' (AList.delete k (st_users st))\<rparr>), a'))
       (account_with_external_id st i)"

definition disable_user_by_external_id :: "string \<Rightarrow> api_state \<Rightarrow> (api_state \<times> user_account) option" where
  "disable_user_by_external_id i st =
     map_option (\<lambda>(k, a).
       let a' = a\<lparr>ua_active := False\<rparr> in
       (revoke_sessions_for_user (ua_user_id a') (st\<lparr>st_users := AList.update k a' (st_users st)\<rparr>), a'))
       (account_with_external_id st i)"

definition remove_user_by_external_id :: "string \<Rightarrow> api_state \<Rightarrow> (api_state \<times> user_account) option" where
  "remove_user_by_external_id i st =
     map_option (\<lambda>(k, a).
       (revoke_sessions_for_user (ua_user_id a) (st\<lparr>st_users := AList.delete k (st_users st)\<rparr>), a))
       (account_with_external_id st i)"

subsection \<open>The provisioning interface\<close>

definition scim_user_not_found :: api_error where
  "scim_user_not_found = json_error 404 ''scim user not found''"

fun apply_scim_user_patch ::
  "api_env \<Rightarrow> scim_user_patch \<Rightarrow> api_state \<Rightarrow> api_state \<times> scim_summary reply" where
  "apply_scim_user_patch env (UserUpsert u) st =
     (case account_from_scim_user env u of
        None \<Rightarrow> (st, Panic)
      | Some a \<Rightarrow>
          (case upsert_user_account env a st of
             (st, Panic) \<Rightarrow> (st, Panic)
           | (st, Refused e) \<Rightarrow> (st, Refused e)
           | (st, Done _) \<Rightarrow> (st, Done (summary_zero\<lparr>sm_users_changed := 1,
               sm_users_disabled := (if us_active u then 0 else 1),
               sm_memberships_changed := length (us_groups u)\<rparr>))))"
| "apply_scim_user_patch env (UserPatch i c) st =
     (case patch_user_by_external_id i c st of
        None \<Rightarrow> (st, Refused scim_user_not_found)
      | Some (st, a) \<Rightarrow>
          persist_or env ''failed to persist scim user'' st (\<lambda>st. (st, Done (summary_zero\<lparr>sm_users_changed := 1,
            sm_users_disabled := (if ua_active a then 0 else 1)\<rparr>))))"
| "apply_scim_user_patch env (UserDisable i) st =
     (case disable_user_by_external_id i st of
        None \<Rightarrow> (st, Refused scim_user_not_found)
      | Some (st, a) \<Rightarrow>
          persist_or env ''failed to persist scim user'' st (\<lambda>st. (st, Done (summary_zero\<lparr>sm_users_disabled := 1\<rparr>))))"
| "apply_scim_user_patch env (UserDelete i) st =
     (case remove_user_by_external_id i st of
        None \<Rightarrow> (st, Refused scim_user_not_found)
      | Some (st, a) \<Rightarrow>
          persist_or env ''failed to delete scim user'' st (\<lambda>st. (st, Done (summary_zero\<lparr>sm_users_changed := 1\<rparr>))))"

text \<open>A group that is changed in place, saved, and counted in a summary.\<close>

definition change_scim_group ::
  "api_env \<Rightarrow> string \<Rightarrow> (scim_group \<Rightarrow> scim_group \<times> scim_summary) \<Rightarrow> api_state \<Rightarrow> api_state \<times> scim_summary reply" where
  "change_scim_group env i f st =
     (case map_of (st_scim_groups st) i of
        None \<Rightarrow> (st, Refused (json_error 404 ''scim group not found''))
      | Some g \<Rightarrow>
          let (g', summary) = f g in
          persist_or env ''failed to persist scim group''
            (st\<lparr>st_scim_groups := AList.update i g' (st_scim_groups st)\<rparr>) (\<lambda>st. (st, Done summary)))"

definition membership_diff_count :: "string list \<Rightarrow> string list \<Rightarrow> nat" where
  "membership_diff_count l r =
     (let l = bts_of l; r = bts_of r in
      length (filter (\<lambda>x. x \<notin> set r) l) + length (filter (\<lambda>x. x \<notin> set l) r))"

fun apply_scim_group_patch ::
  "api_env \<Rightarrow> scim_group_patch \<Rightarrow> api_state \<Rightarrow> api_state \<times> scim_summary reply" where
  "apply_scim_group_patch env (GroupUpsert g) st =
     (let g = g\<lparr>gr_members := bts_of (gr_members g)\<rparr>;
          previous = (case map_of (st_scim_groups st) (gr_external_id g) of None \<Rightarrow> [] | Some h \<Rightarrow> gr_members h);
          changed = (if previous = [] then length (gr_members g)
                     else membership_diff_count previous (gr_members g)) in
      persist_or env ''failed to persist scim group''
        (st\<lparr>st_scim_groups := AList.update (gr_external_id g) g (st_scim_groups st)\<rparr>)
        (\<lambda>st. (st, Done (summary_zero\<lparr>sm_groups_changed := 1, sm_memberships_changed := changed\<rparr>))))"
| "apply_scim_group_patch env (GroupPatch i name active) st =
     change_scim_group env i (\<lambda>g.
       let g = g\<lparr>gr_display_name := option_or name (gr_display_name g), gr_active := option_or active (gr_active g)\<rparr> in
       (g, summary_zero\<lparr>sm_groups_changed := 1, sm_groups_disabled := (if gr_active g then 0 else 1)\<rparr>)) st"
| "apply_scim_group_patch env (GroupPatchMembers i adds removes) st =
     change_scim_group env i (\<lambda>g.
       let (members, changed) = remove_members removes (add_members adds (bts_of (gr_members g), 0)) in
       (g\<lparr>gr_members := members\<rparr>,
        summary_zero\<lparr>sm_groups_changed := 1, sm_memberships_changed := changed\<rparr>)) st"
| "apply_scim_group_patch env (GroupDisable i) st =
     change_scim_group env i (\<lambda>g. (g\<lparr>gr_active := False\<rparr>, summary_zero\<lparr>sm_groups_disabled := 1\<rparr>)) st"
| "apply_scim_group_patch env (GroupDelete i) st =
     (case map_of (st_scim_groups st) i of
        None \<Rightarrow> (st, Refused (json_error 404 ''scim group not found''))
      | Some g \<Rightarrow>
          persist_or env ''failed to delete scim group''
            (st\<lparr>st_scim_groups := AList.delete i (st_scim_groups st)\<rparr>)
            (\<lambda>st. (st, Done (summary_zero\<lparr>sm_groups_changed := 1\<rparr>))))"

text \<open>The patches of a plan one after another, until one is refused.\<close>

fun apply_patches ::
  "('p \<Rightarrow> api_state \<Rightarrow> api_state \<times> scim_summary reply) \<Rightarrow> 'p list \<Rightarrow> api_state \<Rightarrow> api_state \<times> unit reply" where
  "apply_patches f [] st = (st, Done ())"
| "apply_patches f (p # ps) st =
     (case f p st of
        (st, Panic) \<Rightarrow> (st, Panic)
      | (st, Refused e) \<Rightarrow> (st, Refused e)
      | (st, Done _) \<Rightarrow> apply_patches f ps st)"

definition apply_scim_sync_plan :: "api_env \<Rightarrow> scim_plan \<Rightarrow> api_state \<Rightarrow> api_state \<times> unit reply" where
  "apply_scim_sync_plan env plan st =
     (case apply_patches (apply_scim_group_patch env) (sp_group_patches plan) st of
        (st, Done _) \<Rightarrow>
          (case apply_patches (apply_scim_user_patch env) (sp_user_patches plan) st of
             (st, Done _) \<Rightarrow>
               persist_or env ''failed to persist scim sync cursor''
                 (st\<lparr>st_scim_cursor := Some (sp_cursor plan)\<rparr>) (\<lambda>st. (st, Done ()))
           | r \<Rightarrow> r)
      | r \<Rightarrow> r)"

definition authorize_scim_request :: "api_env \<Rightarrow> http_headers \<Rightarrow> bool" where
  "authorize_scim_request env h =
     (case or_else (extract_bearer_token h) (parse_header h ''x-scim-token'') of
        None \<Rightarrow> False
      | Some t \<Rightarrow> scim_authorize (fst (av_scim env)) t = Inr ())"

definition scim_user_sync_handler ::
  "api_env \<Rightarrow> http_headers \<Rightarrow> scim_user_patch \<Rightarrow> api_state \<Rightarrow> api_state \<times> scim_summary reply" where
  "scim_user_sync_handler env h p st =
     (if \<not> authorize_scim_request env h then (st, Refused (json_error 401 ''invalid scim token''))
      else apply_scim_user_patch env p st)"

definition scim_group_sync_handler ::
  "api_env \<Rightarrow> http_headers \<Rightarrow> scim_group_patch \<Rightarrow> api_state \<Rightarrow> api_state \<times> scim_summary reply" where
  "scim_group_sync_handler env h p st =
     (if \<not> authorize_scim_request env h then (st, Refused (json_error 401 ''invalid scim token''))
      else apply_scim_group_patch env p st)"

subsection \<open>Synchronisation with a provider\<close>

record scim_sync_request =
  sk_dry_run :: bool
  sk_disable_missing_users :: "bool option"
  sk_disable_missing_groups :: "bool option"
  sk_delete_missing_users :: "bool option"
  sk_delete_missing_groups :: "bool option"

record scim_sync_response =
  sj_provider :: string
  sj_dry_run :: bool
  sj_summary :: scim_summary
  sj_cursor :: scim_cursor
  sj_user_patches :: nat
  sj_group_patches :: nat
  sj_membership_changes :: "membership_change list"

definition scim_lifecycle_policy :: "scim_sync_config \<Rightarrow> scim_sync_request \<Rightarrow> lifecycle_policy" where
  "scim_lifecycle_policy c rq =
     \<lparr>lc_disable_missing_users = option_or (sk_disable_missing_users rq) (lc_disable_missing_users (sy_lifecycle c)),
      lc_disable_missing_groups = option_or (sk_disable_missing_groups rq) (lc_disable_missing_groups (sy_lifecycle c)),
      lc_delete_missing_users = option_or (sk_delete_missing_users rq) (lc_delete_missing_users (sy_lifecycle c)),
      lc_delete_missing_groups = option_or (sk_delete_missing_groups rq) (lc_delete_missing_groups (sy_lifecycle c))\<rparr>"

definition scim_groups_from_state :: "api_state \<Rightarrow> scim_group list" where
  "scim_groups_from_state st = map snd (st_scim_groups st)"

text \<open>The groups of each member; an entry is used up by the first account with the identifier.\<close>

definition memberships_of :: "scim_group list \<Rightarrow> (string \<times> string list) list" where
  "memberships_of groups =
     foldl (\<lambda>m g. foldl (\<lambda>m member. AList.map_default member [gr_external_id g] (\<lambda>gs. gs @ [gr_external_id g]) m)
       m (gr_members g)) [] (filter gr_active groups)"

fun scim_users_of :: "(string \<times> string list) list \<Rightarrow> user_account list \<Rightarrow> scim_user list" where
  "scim_users_of m [] = []"
| "scim_users_of m (a # as) =
     (case (ua_auth_source a = ScimSource, ua_external_id a) of
        (True, Some i) \<Rightarrow>
          \<lparr>us_external_id = i, us_tenant_id = ua_tenant_id a, us_user_name = ua_username a,
           us_display_name = ua_display_name a, us_email = ua_email a, us_active = ua_active a,
           us_groups = bts_of (option_or (map_of m i) [])\<rparr> # scim_users_of (AList.delete i m) as
      | _ \<Rightarrow> scim_users_of m as)"

definition scim_users_from_state :: "api_state \<Rightarrow> scim_user list" where
  "scim_users_from_state st =
     scim_users_of (memberships_of (scim_groups_from_state st)) (map snd (st_users st))"

fun scim_error_text :: "scim_error \<Rightarrow> string" where
  "scim_error_text ScimInvalidToken = ''scim token is invalid''"
| "scim_error_text (ScimUnknownProvider p) = ''unknown scim provider: '' @ p"
| "scim_error_text (ScimUnsupportedProvider p) =
     ''scim provider does not implement resource synchronization: '' @ p"
| "scim_error_text (ScimConfiguration e) = ''scim provider configuration error: '' @ e"
| "scim_error_text (ScimRequest e) = ''scim provider request error: '' @ e"
| "scim_error_text (ScimStatus s b) = ''scim provider returned status '' @ show_nat s @ '': '' @ b"
| "scim_error_text (ScimParse e) = ''scim provider payload parse error: '' @ e"
| "scim_error_text (ScimNotFound i) = ''scim identity not found: '' @ i"

fun scim_sync_error_response :: "scim_error \<Rightarrow> api_error" where
  "scim_sync_error_response ScimInvalidToken = json_error 502 ''scim provider rejected configured token''"
| "scim_sync_error_response (ScimUnknownProvider p) = json_error 400 (scim_error_text (ScimUnknownProvider p))"
| "scim_sync_error_response (ScimUnsupportedProvider p) =
     json_error 400 (scim_error_text (ScimUnsupportedProvider p))"
| "scim_sync_error_response (ScimConfiguration e) = json_error 500 (scim_error_text (ScimConfiguration e))"
| "scim_sync_error_response (ScimStatus s b) = json_error 502 (scim_error_text (ScimStatus s b))"
| "scim_sync_error_response (ScimRequest e) = json_error 502 (scim_error_text (ScimRequest e))"
| "scim_sync_error_response (ScimParse e) = json_error 502 (scim_error_text (ScimParse e))"
| "scim_sync_error_response (ScimNotFound i) = json_error 404 (scim_error_text (ScimNotFound i))"

text \<open>\<open>None\<close> when the provider never ends its pages.\<close>

definition scim_provider_sync_handler ::
  "api_env \<Rightarrow> http_headers \<Rightarrow> scim_sync_request \<Rightarrow> api_state \<Rightarrow> (api_state \<times> scim_sync_response reply) option" where
  "scim_provider_sync_handler env h rq st =
     (if \<not> authorize_scim_request env h then Some (st, Refused (json_error 401 ''invalid scim token''))
      else
        map_option (\<lambda>pulled. case pulled of
            Inl e \<Rightarrow> (st, Refused (scim_sync_error_response e))
          | Inr snapshot \<Rightarrow>
              let plan = build_scim_sync_plan (scim_users_from_state st) (scim_groups_from_state st) snapshot
                    (scim_lifecycle_policy (snd (av_scim env)) rq);
                  response = \<lparr>sj_provider = scim_provider_name (fst (av_scim env)), sj_dry_run = sk_dry_run rq,
                    sj_summary = sp_summary plan, sj_cursor = sp_cursor plan,
                    sj_user_patches = length (sp_user_patches plan),
                    sj_group_patches = length (sp_group_patches plan),
                    sj_membership_changes = sp_membership_changes plan\<rparr> in
              if sk_dry_run rq then (st, Done response)
              else (case apply_scim_sync_plan env plan st of
                  (st, Done _) \<Rightarrow> (st, Done response)
                | (st, Refused e) \<Rightarrow> (st, Refused e)
                | (st, Panic) \<Rightarrow> (st, Panic)))
          (pull_snapshot (av_scim_env env) (av_scim env)))"

end
