(* ===== verification/ApiSessions.thy ===== *)
theory ApiSessions
  imports ApiDirectory
begin

text \<open>
  Sessions in the API server, \<open>apps/sdqp-api/src/lib.rs\<close>: login by password and by single
  sign-on, the second factor, refresh, step-up, device posture and logout, and the middlewares that
  turn a request into an authenticated session of a tenant and a project.

  The handlers and the provisioning interface are the operations of a system.  Over all of its runs
  a session is traced back to the login and the second factor that opened it, and revocation is
  final.
\<close>

subsection \<open>Login\<close>

record login_request =
  lq_username :: string
  lq_password :: string
  lq_device_fingerprint :: string

record login_response =
  ls_pending_session_id :: string
  ls_mfa_required :: bool
  ls_method :: string
  ls_challenge_id :: "string option"
  ls_challenge :: "mfa_challenge_response option"
  ls_auth_source :: "string option"

text \<open>The part that the two ways to log in share: the challenge and the pending session.\<close>

definition open_pending_session ::
  "api_env \<Rightarrow> api_io \<Rightarrow> user_account \<Rightarrow> session_binding \<Rightarrow> trusted_source \<Rightarrow> string \<Rightarrow> string \<Rightarrow> string \<Rightarrow> string
     \<Rightarrow> api_state \<Rightarrow> api_state \<times> login_response reply" where
  "open_pending_session env io a binding src reason persist_error why label st =
     (case ua_mfa_registration a of
        None \<Rightarrow> (st, Refused (json_error 500 ''missing mfa registration''))
      | Some r \<Rightarrow>
          let ch = begin_challenge (av_auth env) (av_mfa env) (io_ulid2 io) (io_now io) r (Some reason);
              p = \<lparr>ps_account = a, ps_binding = binding, ps_challenge = ch, ps_auth_source = src\<rparr> in
          persist_or env persist_error
            (st\<lparr>st_pending := AList.update (io_ulid io) p (st_pending st)\<rparr>)
            (\<lambda>st. (append_login_audit (ua_user_id a) (ua_tenant_id a) ResSuccess why st,
                   Done \<lparr>ls_pending_session_id = io_ulid io, ls_mfa_required = True,
                     ls_method = mfa_method_label (ua_mfa_method a), ls_challenge_id = Some (ch_challenge_id ch),
                     ls_challenge = Some (mfa_challenge_response_of ch), ls_auth_source = Some label\<rparr>)))"

definition login_handler ::
  "api_env \<Rightarrow> api_io \<Rightarrow> http_headers \<Rightarrow> login_request \<Rightarrow> api_state \<Rightarrow> api_state \<times> login_response reply" where
  "login_handler env io h rq st =
     (case lookup_user_by_username st (lq_username rq) of
        None \<Rightarrow>
          (append_login_audit ''anonymous'' ''anonymous'' ResDenied ''unknown user'' st,
           Refused (json_error 401 ''invalid credentials''))
      | Some a \<Rightarrow>
          let deny = (\<lambda>why status message.
                (append_login_audit (ua_user_id a) (ua_tenant_id a) ResDenied why st,
                 Refused (json_error status message))) in
          if \<not> ua_active a then deny ''inactive account'' 403 ''account disabled''
          else if ua_auth_source a \<noteq> LocalPassword
          then deny ''account requires sso login'' 403 ''account requires sso login''
          else if ua_password a \<noteq> lq_password rq then deny ''invalid password'' 401 ''invalid credentials''
          else if enforce_separation_of_duties (ua_roles a) \<noteq> Inr ()
          then deny ''role combination violates separation of duties'' 403
            ''role combination violates separation of duties''
          else open_pending_session env io a
            \<lparr>sb_ip_address = extract_ip_address h, sb_device_fingerprint = lq_device_fingerprint rq\<rparr> LocalPassword
            ''login authentication'' ''failed to persist pending session'' ''login initiated via local password''
            ''local_password'' st)"

subsection \<open>Single sign-on\<close>

definition parse_sso_protocol :: "string \<Rightarrow> sso_protocol option" where
  "parse_sso_protocol v =
     (let v = to_ascii_lowercase v in
      if v = ''oidc'' then Some Oidc else if v = ''saml'' then Some Saml else None)"

fun sso_error_response :: "sso_error \<Rightarrow> bool \<Rightarrow> api_error" where
  "sso_error_response InvalidCallbackCode is_callback = json_error 401 ''invalid sso callback code''"
| "sso_error_response (SsoConfiguration e) is_callback = json_error 500 ''invalid sso provider configuration''"
| "sso_error_response e is_callback =
     json_error 502 (if is_callback then ''sso provider exchange failed'' else ''sso provider initiation failed'')"

record sso_start_request =
  xr_protocol :: string
  xr_login_hint :: string

record sso_start_response =
  xs_authorization_url :: string
  xs_relay_state :: string
  xs_mock_code :: string

definition sso_start_handler :: "api_env \<Rightarrow> sso_start_request \<Rightarrow> sso_start_response reply" where
  "sso_start_handler env rq =
     (case parse_sso_protocol (xr_protocol rq) of
        None \<Rightarrow> Refused (json_error 400 ''unsupported sso protocol'')
      | Some proto \<Rightarrow>
          (case sso_start_auth (av_sso_env env) (av_sso env) proto (xr_login_hint rq) (av_redirect_url env) of
             Inl e \<Rightarrow> Refused (sso_error_response e False)
           | Inr i \<Rightarrow> Done \<lparr>xs_authorization_url = sx_authorization_url i, xs_relay_state = sx_relay_state i,
               xs_mock_code = sx_mock_code i\<rparr>))"

record sso_callback_request =
  xc_protocol :: string
  xc_code :: string
  xc_device_fingerprint :: string

fun auth_source_debug :: "trusted_source \<Rightarrow> string" where
  "auth_source_debug LocalPassword = ''localpassword''"
| "auth_source_debug OidcSource = ''oidc''"
| "auth_source_debug SamlSource = ''saml''"
| "auth_source_debug ScimSource = ''scim''"

text \<open>The account that the claims name: the existing one of that name, or a new one.\<close>

definition account_for_claims :: "api_env \<Rightarrow> sso_claims \<Rightarrow> api_state \<Rightarrow> api_state \<times> user_account reply" where
  "account_for_claims env c st =
     (case lookup_user_by_username st (sl_username c) of
        Some a \<Rightarrow> (st, Done a)
      | None \<Rightarrow>
          (case account_from_sso_claims env c of
             None \<Rightarrow> (st, Panic)
           | Some a \<Rightarrow>
               (case upsert_user_account env a st of
                  (st, Panic) \<Rightarrow> (st, Panic)
                | (st, Refused e) \<Rightarrow> (st, Refused e)
                | (st, Done _) \<Rightarrow> (st, Done a))))"

definition sso_callback_handler ::
  "api_env \<Rightarrow> api_io \<Rightarrow> http_headers \<Rightarrow> sso_callback_request \<Rightarrow> api_state \<Rightarrow> api_state \<times> login_response reply" where
  "sso_callback_handler env io h rq st =
     (case parse_sso_protocol (xc_protocol rq) of
        None \<Rightarrow> (st, Refused (json_error 400 ''unsupported sso protocol''))
      | Some proto \<Rightarrow>
          (case sso_exchange_code (av_sso_env env) (av_sso env) proto (xc_code rq) (av_redirect_url env) of
             Inl e \<Rightarrow> (st, Refused (sso_error_response e True))
           | Inr c \<Rightarrow>
               (case account_for_claims env c st of
                  (st, Panic) \<Rightarrow> (st, Panic)
                | (st, Refused e) \<Rightarrow> (st, Refused e)
                | (st, Done a) \<Rightarrow>
                    if \<not> ua_active a then (st, Refused (json_error 403 ''account disabled''))
                    else open_pending_session env io a
                      \<lparr>sb_ip_address = extract_ip_address h, sb_device_fingerprint = xc_device_fingerprint rq\<rparr>
                      (sl_auth_source c) ''sso authentication'' ''failed to persist sso pending session''
                      (''sso callback initiated via '' @ xc_protocol rq) (auth_source_debug (sl_auth_source c)) st)))"

subsection \<open>The second factor\<close>

record mfa_verify_request =
  mq_pending_session_id :: string
  mq_code :: "string option"
  mq_assertion :: "webauthn_assertion option"

record token_pair =
  tp_access_token :: string
  tp_refresh_token :: string
  tp_session_id :: string

definition new_active_session :: "pending_session \<Rightarrow> session_claims \<Rightarrow> string \<Rightarrow> active_session" where
  "new_active_session p c refresh =
     \<lparr>an_claims = c, an_refresh_token = refresh, an_previous_fingerprint = None, an_roles = ua_roles (ps_account p),
      an_mfa_method = ua_mfa_method (ps_account p), an_auth_source = ps_auth_source p, an_risk_score = 0,
      an_device_posture = None, an_revoked = False, an_step_up_required = False, an_step_up_challenge = None\<rparr>"

definition open_session ::
  "api_env \<Rightarrow> api_io \<Rightarrow> pending_session \<Rightarrow> api_state \<Rightarrow> api_state \<times> token_pair reply" where
  "open_session env io p st =
     (case (id_new TenantId (ua_tenant_id (ps_account p)), id_new UserId (ua_user_id (ps_account p))) of
        (Inr t, Inr u) \<Rightarrow>
          let c = session_issue (io_ulid io) (io_later io) 15 (request_context_new (io_ulid2 io) (io_later io) t u)
                (ps_binding p) in
          (case issue_access_token (av_auth env) c api_token_secret of
             Inl _ \<Rightarrow> (st, Refused (json_error 500 ''failed to issue token''))
           | Inr token \<Rightarrow>
               persist_or env ''failed to persist active session''
                 (put_session (sc_session_id c) (new_active_session p c (io_token io)) st)
                 (\<lambda>st. (append_login_audit (ua_user_id (ps_account p)) (ua_tenant_id (ps_account p)) ResSuccess
                     ''mfa verified'' st,
                   Done \<lparr>tp_access_token = token, tp_refresh_token = io_token io, tp_session_id = sc_session_id c\<rparr>)))
      | _ \<Rightarrow> (st, Panic))"

definition mfa_verify_handler ::
  "api_env \<Rightarrow> api_io \<Rightarrow> mfa_verify_request \<Rightarrow> api_state \<Rightarrow> api_state \<times> token_pair reply" where
  "mfa_verify_handler env io rq st =
     (case map_of (st_pending st) (mq_pending_session_id rq) of
        None \<Rightarrow> (st, Refused (json_error 404 ''pending session not found''))
      | Some p \<Rightarrow>
          (case ua_mfa_registration (ps_account p) of
             None \<Rightarrow> (st, Refused (json_error 500 ''missing mfa registration''))
           | Some r \<Rightarrow>
               (case verify_challenge (av_auth env) (io_now io) r (ps_challenge p)
                    \<lparr>mv_code = mq_code rq, mv_assertion = mq_assertion rq\<rparr> of
                  None \<Rightarrow> (st, Panic)
                | Some (Inl _) \<Rightarrow> (st, Refused (json_error 401 ''invalid mfa proof''))
                | Some (Inr _) \<Rightarrow>
                    persist_or env ''failed to clear pending session''
                      (st\<lparr>st_pending := AList.delete (mq_pending_session_id rq) (st_pending st)\<rparr>)
                      (open_session env io p))))"

subsection \<open>Device posture\<close>

record device_posture_request =
  dq_refresh_token :: string
  dq_profile :: "string option"
  dq_ip_drift :: bool
  dq_impossible_travel :: bool
  dq_exfiltration_hint :: bool
  dq_query_burst :: "nat option"
  dq_denied_burst :: "nat option"
  dq_export_burst :: "nat option"

record device_posture_response =
  ds_risk_score :: int
  ds_action :: string
  ds_compliant :: bool
  ds_reasons :: "string list"
  ds_step_up_required :: bool
  ds_step_up_challenge :: "mfa_challenge_response option"
  ds_session_revoked :: bool

definition step_up_reason :: string where
  "step_up_reason = ''continuous risk assessment requires step-up''"

definition posture_assessment :: "device_posture_request \<Rightarrow> posture_report \<Rightarrow> risk_assessment" where
  "posture_assessment rq posture =
     assess \<lparr>as_query_burst = option_or (dq_query_burst rq) 0, as_denied_burst = option_or (dq_denied_burst rq) 0,
       as_export_burst = option_or (dq_export_burst rq) 0, as_ip_drift = dq_ip_drift rq,
       as_impossible_travel = dq_impossible_travel rq, as_exfiltration_hint = dq_exfiltration_hint rq,
       as_device_posture = Some posture\<rparr>"

text \<open>
  The session is changed in place, so a missing account leaves the new score behind although the
  result is \<open>None\<close>.
\<close>

definition apply_device_posture_assessment ::
  "api_env \<Rightarrow> api_io \<Rightarrow> device_posture_request \<Rightarrow> api_state
     \<Rightarrow> api_state \<times> (active_session \<times> risk_assessment) option" where
  "apply_device_posture_assessment env io rq st =
     (case session_with_token st (dq_refresh_token rq) of
        None \<Rightarrow> (st, None)
      | Some (sid, a) \<Rightarrow>
          let posture = collect_posture (sb_device_fingerprint (sc_binding (an_claims a))) (dq_profile rq);
              assessment = posture_assessment rq posture;
              a = a\<lparr>an_device_posture := Some posture, an_risk_score := rk_score (ra_score assessment)\<rparr>;
              keep = (\<lambda>a. (put_session sid a st, Some (a, assessment))) in
          (case rk_recommended_action (ra_score assessment) of
             AllowAccess \<Rightarrow> keep (a\<lparr>an_step_up_required := False, an_step_up_challenge := None\<rparr>)
           | StepUpAuth \<Rightarrow>
               (case Option.bind (lookup_user_by_user_id st (sc_user_id (an_claims a))) ua_mfa_registration of
                  None \<Rightarrow> (put_session sid a st, None)
                | Some r \<Rightarrow>
                    let ch = begin_challenge (av_auth env) (av_mfa env) (io_ulid io) (io_now io) r (Some step_up_reason) in
                    keep (a\<lparr>an_step_up_required := True,
                      an_step_up_challenge := Some (from_mfa_challenge ch step_up_reason)\<rparr>))
           | TerminateSession \<Rightarrow>
               keep (a\<lparr>an_revoked := True, an_step_up_required := False, an_step_up_challenge := None\<rparr>)))"

fun adaptive_label :: "adaptive_response \<Rightarrow> string" where
  "adaptive_label AllowAccess = ''allow''"
| "adaptive_label StepUpAuth = ''stepupauth''"
| "adaptive_label TerminateSession = ''terminatesession''"

definition device_posture_handler ::
  "api_env \<Rightarrow> api_io \<Rightarrow> device_posture_request \<Rightarrow> api_state \<Rightarrow> api_state \<times> device_posture_response reply" where
  "device_posture_handler env io rq st =
     (case apply_device_posture_assessment env io rq st of
        (st, None) \<Rightarrow> (st, Refused (json_error 401 ''refresh token not found''))
      | (st, Some (a, assessment)) \<Rightarrow>
          persist_or env ''failed to persist device posture state'' st
            (\<lambda>st. (st, Done
              \<lparr>ds_risk_score = rk_score (ra_score assessment),
               ds_action = adaptive_label (rk_recommended_action (ra_score assessment)),
               ds_compliant = (case an_device_posture a of None \<Rightarrow> True | Some p \<Rightarrow> pr_compliant p),
               ds_reasons = ra_reasons assessment, ds_step_up_required = an_step_up_required a,
               ds_step_up_challenge = map_option step_up_challenge_response (an_step_up_challenge a),
               ds_session_revoked = an_revoked a\<rparr>)))"

subsection \<open>Step-up, refresh and logout\<close>

record step_up_request =
  uq_refresh_token :: string
  uq_code :: "string option"
  uq_assertion :: "webauthn_assertion option"

text \<open>A new pair of tokens for a session: the old refresh token is kept as a fingerprint.\<close>

definition renewed :: "api_env \<Rightarrow> time \<Rightarrow> string \<Rightarrow> active_session \<Rightarrow> active_session" where
  "renewed env issued_at token a =
     a\<lparr>an_previous_fingerprint := Some (refresh_token_fingerprint (av_auth env) (an_refresh_token a)),
       an_refresh_token := token,
       an_claims := (an_claims a)\<lparr>sc_issued_at := issued_at, sc_expires_at := issued_at + minutes_ns 15\<rparr>\<rparr>"

text \<open>The session is stored before the access token is made, and saved after.\<close>

definition issue_pair ::
  "api_env \<Rightarrow> string \<Rightarrow> string \<Rightarrow> active_session \<Rightarrow> api_state \<Rightarrow> api_state \<times> token_pair reply" where
  "issue_pair env persist_error sid a st =
     (let st = put_session sid a st in
      case issue_access_token (av_auth env) (an_claims a) api_token_secret of
        Inl _ \<Rightarrow> (st, Refused (json_error 500 ''failed to issue token''))
      | Inr token \<Rightarrow>
          persist_or env persist_error st
            (\<lambda>st. (st, Done \<lparr>tp_access_token = token, tp_refresh_token = an_refresh_token a, tp_session_id = sid\<rparr>)))"

definition step_up_verify_handler ::
  "api_env \<Rightarrow> api_io \<Rightarrow> step_up_request \<Rightarrow> api_state \<Rightarrow> api_state \<times> token_pair reply" where
  "step_up_verify_handler env io rq st =
     (case session_with_token st (uq_refresh_token rq) of
        None \<Rightarrow> (st, Refused (json_error 401 ''refresh token not found''))
      | Some (sid, a) \<Rightarrow>
          if \<not> an_step_up_required a then (st, Refused (json_error 400 ''step-up not required''))
          else (case an_step_up_challenge a of
              None \<Rightarrow> (st, Refused (json_error 400 ''step-up challenge not found''))
            | Some ch \<Rightarrow>
                (case lookup_user_by_user_id st (sc_user_id (an_claims a)) of
                   None \<Rightarrow> (st, Refused (json_error 404 ''user account not found''))
                 | Some account \<Rightarrow>
                     (case ua_mfa_registration account of
                        None \<Rightarrow> (st, Refused (json_error 500 ''missing mfa registration''))
                      | Some r \<Rightarrow>
                          (case verify_challenge (av_auth env) (io_now io) r (as_mfa_challenge ch)
                               \<lparr>mv_code = uq_code rq, mv_assertion = uq_assertion rq\<rparr> of
                             None \<Rightarrow> (st, Panic)
                           | Some (Inl _) \<Rightarrow> (st, Refused (json_error 401 ''invalid step-up proof''))
                           | Some (Inr _) \<Rightarrow>
                               (case rotate_refresh_token (io_token io) (uq_refresh_token rq) (an_refresh_token a) of
                                  Inl _ \<Rightarrow> (st, Refused (json_error 401 ''step-up rotation failed''))
                                | Inr token \<Rightarrow>
                                    issue_pair env ''failed to persist step-up session'' sid
                                      ((renewed env (io_later io) token a)\<lparr>an_step_up_required := False,
                                         an_step_up_challenge := None,
                                         an_risk_score := min (an_risk_score a) 25\<rparr>) st))))))"

text \<open>The session whose previous refresh token has a fingerprint.\<close>

definition session_with_previous :: "api_state \<Rightarrow> string \<Rightarrow> (string \<times> active_session) option" where
  "session_with_previous st fingerprint =
     find (\<lambda>e. an_previous_fingerprint (snd e) = Some fingerprint \<and> \<not> an_revoked (snd e)) (st_active st)"

definition refresh_handler ::
  "api_env \<Rightarrow> api_io \<Rightarrow> string \<Rightarrow> api_state \<Rightarrow> api_state \<times> token_pair reply" where
  "refresh_handler env io presented st =
     (case session_with_previous st (refresh_token_fingerprint (av_auth env) presented) of
        Some (sid, a) \<Rightarrow>
          (fst (persist env (put_session sid (a\<lparr>an_revoked := True\<rparr>) st)),
           Refused (json_error 401 ''refresh token replay detected''))
      | None \<Rightarrow>
          (case session_with_token st presented of
             None \<Rightarrow> (st, Refused (json_error 401 ''refresh token not found''))
           | Some (sid, a) \<Rightarrow>
               if an_step_up_required a then (st, Refused (json_step_up_required (an_step_up_challenge a)))
               else (case rotate_refresh_token (io_token io) presented (an_refresh_token a) of
                   Inl _ \<Rightarrow> (st, Refused (json_error 401 ''refresh token rotation failed''))
                 | Inr token \<Rightarrow>
                     issue_pair env ''failed to persist refreshed session'' sid
                       (renewed env (io_now io) token a) st)))"

definition logout_handler :: "api_env \<Rightarrow> string \<Rightarrow> api_state \<Rightarrow> api_state \<times> unit reply" where
  "logout_handler env presented st =
     (case session_with_token st presented of
        None \<Rightarrow> (st, Refused (json_error 401 ''refresh token not found''))
      | Some (sid, a) \<Rightarrow>
          persist_or env ''failed to persist revoked session'' (put_session sid (a\<lparr>an_revoked := True\<rparr>) st)
            (\<lambda>st. (st, Done ())))"

subsection \<open>Requests\<close>

definition extract_authenticated_claims ::
  "api_env \<Rightarrow> time \<Rightarrow> api_state \<Rightarrow> api_request \<Rightarrow> api_error + authenticated_session" where
  "extract_authenticated_claims env now st r =
     (case extract_request_access_token r of
        None \<Rightarrow> Inl (json_error 401 ''missing bearer token'')
      | Some token \<Rightarrow>
          (case parse_access_token (av_auth env) token api_token_secret of
             Inl _ \<Rightarrow> Inl (json_error 401 ''invalid access token'')
           | Inr c \<Rightarrow>
               if is_expired_at c now then Inl (json_error 401 ''access token expired'')
               else (case map_of (st_active st) (sc_session_id c) of
                   None \<Rightarrow> Inl (json_error 401 ''session not found'')
                 | Some a \<Rightarrow>
                     if an_revoked a then Inl (json_error 401 ''session revoked'')
                     else if an_step_up_required a then Inl (json_step_up_required (an_step_up_challenge a))
                     else if \<not> is_bound_to c (extract_ip_address (ap_headers r))
                         (option_or (parse_header (ap_headers r) ''x-device-fingerprint'')
                            (sb_device_fingerprint (sc_binding c)))
                     then Inl (json_error 401 ''session binding mismatch'')
                     else Inr \<lparr>au_claims = c, au_roles = an_roles a\<rparr>)))"

definition tenant_context_middleware ::
  "api_env \<Rightarrow> api_io \<Rightarrow> api_request \<Rightarrow> api_state \<Rightarrow> api_state \<times> (request_context \<times> authenticated_session) reply" where
  "tenant_context_middleware env io r st =
     (case extract_authenticated_claims env (io_now io) st r of
        Inl e \<Rightarrow> (append_request_audit None None ActView ResDenied (ap_path r) ''authentication failed'' st, Refused e)
      | Inr s \<Rightarrow>
          (case parse_scoped_request_value r ''x-tenant-id'' ''tenant_id'' of
             Some tenant \<Rightarrow>
               if tenant = sc_tenant_id (au_claims s) then
                 (case (id_new TenantId tenant, id_new UserId (sc_user_id (au_claims s))) of
                    (Inr t, Inr u) \<Rightarrow> (st, Done (request_context_new (io_ulid io) (io_later io) t u, s))
                  | _ \<Rightarrow> (st, Panic))
               else (append_request_audit (Some s) None ActView ResDenied (ap_path r) ''tenant mismatch'' st,
                     Refused (json_error 403 ''tenant mismatch''))
           | None \<Rightarrow> (append_request_audit (Some s) None ActView ResDenied (ap_path r) ''tenant mismatch'' st,
                     Refused (json_error 403 ''tenant mismatch''))))"

fun isolation_context :: "isolation_error \<Rightarrow> string" where
  "isolation_context ProjectInvisible = ''project not visible''"
| "isolation_context ProjectUnavailable = ''project unavailable''"
| "isolation_context ScopeMismatch = ''project scope mismatch''"

fun isolation_response :: "isolation_error \<Rightarrow> api_error" where
  "isolation_response ScopeMismatch = json_error 403 ''project scope mismatch''"
| "isolation_response e = json_error 404 ''project not found''"

definition project_context_middleware ::
  "api_request \<Rightarrow> request_context \<Rightarrow> authenticated_session \<Rightarrow> api_state
     \<Rightarrow> api_state \<times> (request_context \<times> project_context) reply" where
  "project_context_middleware r rc s st =
     (case parse_scoped_request_value r ''x-project-id'' ''project_id'' of
        None \<Rightarrow> (st, Refused (json_error 400 ''missing x-project-id header''))
      | Some p \<Rightarrow>
          (case map_of (st_projects st) p of
             None \<Rightarrow> (append_request_audit (Some s) (Some p) ActView ResDenied (ap_path r) ''unknown project'' st,
                      Refused (json_error 404 ''project not found''))
           | Some project \<Rightarrow>
               (case id_new ProjectId p of
                  Inl _ \<Rightarrow> (st, Panic)
                | Inr pid \<Rightarrow>
                    let scoped = with_project rc pid in
                    (case assert_request_in_project scoped project of
                       Inl e \<Rightarrow> (append_request_audit (Some s) (Some p) ActView ResDenied (ap_path r)
                           (isolation_context e) st, Refused (isolation_response e))
                     | Inr _ \<Rightarrow> (st, Done (scoped, project))))))"

end
