(* ===== verification/ApiRuns.thy ===== *)
theory ApiRuns
  imports ApiSessions
begin

text \<open>
  Runs of the authentication and provisioning handlers of the API server.  An event is a handler
  with its input and the environment it meets, so that providers, storage and configuration may
  answer differently each time.  Two locales say what handlers do to sessions; every handler but
  those that log in interprets the stronger one.
\<close>

subsection \<open>Events\<close>

datatype api_op =
    OpLogin api_io http_headers login_request
  | OpSsoCallback api_io http_headers sso_callback_request
  | OpMfaVerify api_io mfa_verify_request
  | OpPosture api_io device_posture_request
  | OpStepUp api_io step_up_request
  | OpRefresh api_io string
  | OpLogout string
  | OpScimUser http_headers scim_user_patch
  | OpScimGroup http_headers scim_group_patch
  | OpScimSync http_headers scim_sync_request
  | OpRequest api_io api_request

fun api_step :: "api_env \<Rightarrow> api_op \<Rightarrow> api_state \<Rightarrow> api_state" where
  "api_step env (OpLogin io h rq) st = fst (login_handler env io h rq st)"
| "api_step env (OpSsoCallback io h rq) st = fst (sso_callback_handler env io h rq st)"
| "api_step env (OpMfaVerify io rq) st = fst (mfa_verify_handler env io rq st)"
| "api_step env (OpPosture io rq) st = fst (device_posture_handler env io rq st)"
| "api_step env (OpStepUp io rq) st = fst (step_up_verify_handler env io rq st)"
| "api_step env (OpRefresh io t) st = fst (refresh_handler env io t st)"
| "api_step env (OpLogout t) st = fst (logout_handler env t st)"
| "api_step env (OpScimUser h p) st = fst (scim_user_sync_handler env h p st)"
| "api_step env (OpScimGroup h p) st = fst (scim_group_sync_handler env h p st)"
| "api_step env (OpScimSync h rq) st =
     (case scim_provider_sync_handler env h rq st of None \<Rightarrow> st | Some r \<Rightarrow> fst r)"
| "api_step env (OpRequest io r) st = fst (tenant_context_middleware env io r st)"

type_synonym api_events = "(api_env \<times> api_op) list"

fun api_run :: "api_events \<Rightarrow> api_state \<Rightarrow> api_state" where
  "api_run [] st = st"
| "api_run ((env, op) # es) st = api_run es (api_step env op st)"

lemma api_run_append: "api_run (es @ es') st = api_run es' (api_run es st)"
  by (induction es st rule: api_run.induct) simp_all

text \<open>The identifiers under which events open sessions.\<close>

fun opens_session :: "api_op \<Rightarrow> string option" where
  "opens_session (OpMfaVerify io rq) = Some (io_ulid io)"
| "opens_session _ = None"

definition opened_ids :: "api_events \<Rightarrow> string set" where
  "opened_ids es = {i. \<exists>e \<in> set es. opens_session (snd e) = Some i}"

lemma opened_ids_simps [simp]:
  "opened_ids [] = {}"
  "i \<in> opened_ids (e # es) \<longleftrightarrow> opens_session (snd e) = Some i \<or> i \<in> opened_ids es"
  by (auto simp: opened_ids_def)

text \<open>The session whose refresh token an event presents in order to exchange it.\<close>

fun presented_token :: "api_op \<Rightarrow> string option" where
  "presented_token (OpStepUp io rq) = Some (uq_refresh_token rq)"
| "presented_token (OpRefresh io t) = Some t"
| "presented_token _ = None"

definition exchanging :: "api_op \<Rightarrow> api_state \<Rightarrow> string set" where
  "exchanging op st = {sid. \<exists>t a. presented_token op = Some t \<and> session_with_token st t = Some (sid, a)}"

subsection \<open>How sessions change\<close>

definition sessions_wf :: "api_state \<Rightarrow> bool" where
  "sessions_wf st = (distinct (map fst (st_active st)) \<and> distinct (map fst (st_pending st)))"

text \<open>
  A session keeps its user, its binding and its roles, and stays revoked; and it keeps its refresh
  token and the fingerprint of the one before, unless the step may exchange its token.
\<close>

definition session_evolves :: "bool \<Rightarrow> active_session \<Rightarrow> active_session \<Rightarrow> bool" where
  "session_evolves x a b =
     ((an_revoked a \<longrightarrow> an_revoked b) \<and> an_roles b = an_roles a
      \<and> (\<not> x \<longrightarrow> an_refresh_token b = an_refresh_token a
            \<and> an_previous_fingerprint b = an_previous_fingerprint a)
      \<and> sc_session_id (an_claims b) = sc_session_id (an_claims a)
      \<and> sc_user_id (an_claims b) = sc_user_id (an_claims a)
      \<and> sc_tenant_id (an_claims b) = sc_tenant_id (an_claims a)
      \<and> sc_binding (an_claims b) = sc_binding (an_claims a))"

definition sessions_evolve :: "string set \<Rightarrow> api_state \<Rightarrow> api_state \<Rightarrow> bool" where
  "sessions_evolve X st st' =
     (\<forall>sid. rel_option (session_evolves (sid \<in> X)) (map_of (st_active st) sid) (map_of (st_active st') sid))"

lemma session_evolves_refl [simp]: "session_evolves x a a"
  by (simp add: session_evolves_def)

lemma session_evolves_trans: "session_evolves x a b \<Longrightarrow> session_evolves x b c \<Longrightarrow> session_evolves x a c"
  by (simp add: session_evolves_def)

lemma sessions_evolve_refl [simp]: "sessions_evolve X st st"
  by (simp add: sessions_evolve_def option.rel_refl)

lemma rel_option_evolves_trans:
  "rel_option (session_evolves w) x y \<Longrightarrow> rel_option (session_evolves w) y z \<Longrightarrow> rel_option (session_evolves w) x z"
  by (cases x; cases y; cases z) (auto intro: session_evolves_trans)

lemma sessions_evolve_trans: "sessions_evolve X st st' \<Longrightarrow> sessions_evolve X st' st'' \<Longrightarrow> sessions_evolve X st st''"
  unfolding sessions_evolve_def by (blast intro: rel_option_evolves_trans)

lemma sessions_evolve_cong:
  "st_active st' = st_active st \<Longrightarrow> sessions_evolve X st st'"
  by (simp add: sessions_evolve_def option.rel_refl)

lemma find_distinct:
  assumes "find P m = Some (k, v)" "distinct (map fst m)"
  shows "map_of m k = Some v \<and> P (k, v)"
  using assms by (induction m) (force split: if_splits)+

lemma put_session_evolves:
  assumes "map_of (st_active st) sid = Some a" "session_evolves (sid \<in> X) a b"
  shows "sessions_evolve X st (put_session sid b st)"
  using assms by (auto simp: sessions_evolve_def put_session_def update_conv option.rel_refl)

lemma map_of_map_values: "map_of (map (\<lambda>(k, v). (k, f v)) m) k = map_option f (map_of m k)"
  by (induction m) auto

lemma map_of_revoked:
  "map_of (st_active (revoke_sessions_for_user uid st)) sid =
    map_option (\<lambda>a. if sc_user_id (an_claims a) = uid then a\<lparr>an_revoked := True\<rparr> else a) (map_of (st_active st) sid)"
  by (simp add: revoke_sessions_for_user_def map_of_map_values)

lemma revoke_evolves: "sessions_evolve X st (revoke_sessions_for_user uid st)"
  by (auto simp: sessions_evolve_def map_of_revoked session_evolves_def option.rel_map intro!: option.rel_refl)

text \<open>
  What every handler does to the sessions, and what those do that neither log in nor open a session.
\<close>

definition session_step :: "string set \<Rightarrow> api_state \<Rightarrow> api_state \<Rightarrow> bool" where
  "session_step X st st' = (sessions_wf st \<longrightarrow> sessions_wf st' \<and> sessions_evolve X st st')"

definition quiet_step :: "string set \<Rightarrow> api_state \<Rightarrow> api_state \<Rightarrow> bool" where
  "quiet_step X st st' = (session_step X st st' \<and> st_pending st' = st_pending st)"

lemma session_step_refl [simp]: "session_step X st st"
  by (simp add: session_step_def)

lemma quiet_step_refl [simp]: "quiet_step X st st"
  by (simp add: quiet_step_def)

lemma session_step_trans: "session_step X st st' \<Longrightarrow> session_step X st' st'' \<Longrightarrow> session_step X st st''"
  unfolding session_step_def by (blast intro: sessions_evolve_trans)

lemma quiet_step_trans: "quiet_step X st st' \<Longrightarrow> quiet_step X st' st'' \<Longrightarrow> quiet_step X st st''"
  unfolding quiet_step_def by (auto intro: session_step_trans)

lemma quiet_step_same:
  "st_active st' = st_active st \<Longrightarrow> st_pending st' = st_pending st \<Longrightarrow> quiet_step X st st'"
  by (simp add: quiet_step_def session_step_def sessions_wf_def sessions_evolve_cong)

lemma quiet_step_put:
  assumes "sessions_wf st \<Longrightarrow> map_of (st_active st) sid = Some a" "session_evolves (sid \<in> X) a b"
  shows "quiet_step X st (put_session sid b st)"
  using assms put_session_evolves [of st sid a X b]
  by (auto simp: quiet_step_def session_step_def sessions_wf_def put_session_def distinct_update)

lemma quiet_step_revoke: "quiet_step X st (revoke_sessions_for_user uid st)"
  by (simp add: quiet_step_def session_step_def revoke_evolves)
    (auto simp: sessions_wf_def revoke_sessions_for_user_def comp_def case_prod_beta)

lemma fst_persist_or:
  "fst (persist_or env m st k) =
    (if av_saved env (st_saves st) then fst (k (st\<lparr>st_saves := st_saves st + 1\<rparr>)) else st\<lparr>st_saves := st_saves st + 1\<rparr>)"
  by (simp add: persist_or_def persist_def)

lemma quiet_step_persist: "quiet_step X st st1 \<Longrightarrow> quiet_step X st (fst (persist env st1))"
  by (erule quiet_step_trans) (simp add: quiet_step_same persist_def)

lemma quiet_step_persist_or:
  assumes "quiet_step X st st1" "\<And>st2. quiet_step X st st2 \<Longrightarrow> quiet_step X st (fst (k st2))"
  shows "quiet_step X st (fst (persist_or env m st1 k))"
proof -
  have "quiet_step X st (st1\<lparr>st_saves := st_saves st1 + 1\<rparr>)"
    by (rule quiet_step_trans [OF assms(1)]) (simp add: quiet_step_same)
  with assms(2) show ?thesis by (simp add: fst_persist_or)
qed

lemma quiet_step_audit [intro]:
  "quiet_step X st st1 \<Longrightarrow> quiet_step X st (append_login_audit u t r w st1)"
  "quiet_step X st st1 \<Longrightarrow> quiet_step X st (append_request_audit s p ac r res w st1)"
  by (auto elim!: quiet_step_trans intro!: quiet_step_same
      simp: append_login_audit_def append_request_audit_def audit_append_def)

subsection \<open>Contracts\<close>

locale session_operation =
  fixes op :: "api_state \<Rightarrow> api_state" and exchanging :: "api_state \<Rightarrow> string set"
  assumes evolves: "session_step (exchanging st) st (op st)"
begin

lemma stays_wf: "sessions_wf st \<Longrightarrow> sessions_wf (op st)"
  using evolves by (simp add: session_step_def)

lemma stays_revoked:
  assumes "sessions_wf st" "map_of (st_active st) sid = Some a" "an_revoked a"
  shows "\<exists>b. map_of (st_active (op st)) sid = Some b \<and> an_revoked b"
proof -
  have "rel_option (session_evolves (sid \<in> exchanging st)) (Some a) (map_of (st_active (op st)) sid)"
    using evolves [of st] assms(1,2) by (metis session_step_def sessions_evolve_def)
  then show ?thesis using assms(3) by (auto simp: option_rel_Some1 session_evolves_def)
qed

lemma no_new_session:
  assumes "sessions_wf st" "map_of (st_active (op st)) sid = Some b"
  shows "\<exists>a. map_of (st_active st) sid = Some a \<and> session_evolves (sid \<in> exchanging st) a b"
proof -
  have "rel_option (session_evolves (sid \<in> exchanging st)) (map_of (st_active st) sid) (Some b)"
    using evolves [of st] assms by (metis session_step_def sessions_evolve_def)
  then show ?thesis by (auto simp: option_rel_Some2)
qed

lemma keeps_previous:
  assumes "sessions_wf st" "map_of (st_active st) sid = Some a" "sid \<notin> exchanging st"
  shows "\<exists>b. map_of (st_active (op st)) sid = Some b \<and> an_previous_fingerprint b = an_previous_fingerprint a"
proof -
  have "rel_option (session_evolves False) (Some a) (map_of (st_active (op st)) sid)"
    using evolves [of st] assms by (metis session_step_def sessions_evolve_def)
  then show ?thesis by (auto simp: option_rel_Some1 session_evolves_def)
qed

end

locale quiet_operation =
  fixes op :: "api_state \<Rightarrow> api_state" and exchanging :: "api_state \<Rightarrow> string set"
  assumes quiet: "quiet_step (exchanging st) st (op st)"
begin

lemma pending_kept: "st_pending (op st) = st_pending st"
  using quiet by (simp add: quiet_step_def)

end

sublocale quiet_operation \<subseteq> session_operation
  using quiet by unfold_locales (simp add: quiet_step_def)

subsection \<open>The handlers keep them\<close>

lemma find_holds: "find P m = Some x \<Longrightarrow> P x"
  by (induction m) (auto split: if_splits)

lemma session_with_token_found:
  assumes "session_with_token st t = Some (sid, a)"
  shows "an_refresh_token a = t" "\<not> an_revoked a" "sessions_wf st \<Longrightarrow> map_of (st_active st) sid = Some a"
  using assms find_distinct [OF assms [unfolded session_with_token_def]]
    find_holds [OF assms [unfolded session_with_token_def]]
  by (simp_all add: sessions_wf_def)

lemma session_with_previous_found:
  assumes "session_with_previous st f = Some (sid, a)"
  shows "an_previous_fingerprint a = Some f" "sessions_wf st \<Longrightarrow> map_of (st_active st) sid = Some a"
  using assms find_distinct [OF assms [unfolded session_with_previous_def]]
    find_holds [OF assms [unfolded session_with_previous_def]]
  by (simp_all add: sessions_wf_def)

lemma quiet_step_token:
  "session_with_token st t = Some (sid, a) \<Longrightarrow> session_evolves (sid \<in> X) a b \<Longrightarrow> quiet_step X st (put_session sid b st)"
  by (rule quiet_step_put) (auto dest: session_with_token_found(3))

lemma renewed_evolves [simp]: "session_evolves True a (renewed env t token a)"
  by (simp add: session_evolves_def renewed_def)

lemma quiet_issue_pair:
  "session_with_token st t = Some (sid, a) \<Longrightarrow> session_evolves (sid \<in> X) a b \<Longrightarrow>
    quiet_step X st (fst (issue_pair env m sid b st))"
  by (auto simp: issue_pair_def Let_def intro: quiet_step_token quiet_step_persist_or split: sum.splits)

lemma posture_quiet: "quiet_step X st (fst (apply_device_posture_assessment env io rq st))"
  by (auto simp: apply_device_posture_assessment_def Let_def session_evolves_def
      intro!: quiet_step_token split: option.splits adaptive_response.splits)

interpretation posture: quiet_operation "\<lambda>st. fst (device_posture_handler env io rq st)" "\<lambda>_. {}" for env io rq
proof
  fix st
  obtain st1 r where r: "apply_device_posture_assessment env io rq st = (st1, r)" by fastforce
  then have "quiet_step {} st st1" using posture_quiet [of "{}" st env io rq] by simp
  then show "quiet_step {} st (fst (device_posture_handler env io rq st))"
    by (auto simp: device_posture_handler_def r intro!: quiet_step_persist_or split: option.splits)
qed

interpretation step_up: quiet_operation "\<lambda>st. fst (step_up_verify_handler env io rq st)"
  "exchanging (OpStepUp io rq)" for env io rq
  by unfold_locales
    (auto simp: step_up_verify_handler_def session_evolves_def renewed_def exchanging_def intro!: quiet_issue_pair
      split: option.splits sum.splits)

interpretation refresh: quiet_operation "\<lambda>st. fst (refresh_handler env io t st)"
  "exchanging (OpRefresh io t)" for env io t
proof
  fix st
  have "quiet_step X st (put_session sid (a\<lparr>an_revoked := True\<rparr>) st)"
    if "session_with_previous st f = Some (sid, a)" for X f sid a
    by (rule quiet_step_put [where a = a]) (use session_with_previous_found [OF that] in \<open>auto simp: session_evolves_def\<close>)
  then show "quiet_step (exchanging (OpRefresh io t) st) st (fst (refresh_handler env io t st))"
    by (auto simp: refresh_handler_def exchanging_def intro!: quiet_issue_pair quiet_step_persist split: option.splits sum.splits)
qed

interpretation logout: quiet_operation "\<lambda>st. fst (logout_handler env t st)" "\<lambda>_. {}" for env t
  by unfold_locales
    (auto simp: logout_handler_def session_evolves_def intro!: quiet_step_persist_or quiet_step_token
      split: option.splits)

interpretation request: quiet_operation "\<lambda>st. fst (tenant_context_middleware env io r st)" "\<lambda>_. {}" for env io r
  by unfold_locales
    (auto simp: tenant_context_middleware_def split: sum.splits option.splits)

text \<open>The provisioning interface: a change of the directory leaves pending sessions alone.\<close>

lemma quiet_step_users:
  "quiet_step X st st1 \<Longrightarrow> quiet_step X st (st1\<lparr>st_users := us\<rparr>)"
  "quiet_step X st st1 \<Longrightarrow> quiet_step X st (st1\<lparr>st_scim_groups := gs\<rparr>)"
  "quiet_step X st st1 \<Longrightarrow> quiet_step X st (st1\<lparr>st_scim_cursor := c\<rparr>)"
  by (erule quiet_step_trans, simp add: quiet_step_same)+

lemma quiet_step_revoked: "quiet_step X st st1 \<Longrightarrow> quiet_step X st (revoke_sessions_for_user uid st1)"
  by (rule quiet_step_trans [OF _ quiet_step_revoke])

lemma quiet_step_inactive: "quiet_step X st st1 \<Longrightarrow> quiet_step X st (revoke_if_inactive a st1)"
  by (simp add: revoke_if_inactive_def quiet_step_revoked)

lemmas quiet_intros = quiet_step_users quiet_step_revoked quiet_step_inactive quiet_step_persist_or quiet_step_refl

lemma upsert_quiet: "quiet_step X st (fst (upsert_user_account env a st))"
  by (auto simp: upsert_user_account_def Let_def intro!: quiet_intros split: option.splits)

lemma user_patch_quiet: "quiet_step X st (fst (apply_scim_user_patch env p st))"
proof (cases p)
  case (UserUpsert u)
  show ?thesis
  proof (cases "account_from_scim_user env u")
    case (Some a)
    obtain st1 r where r: "upsert_user_account env a st = (st1, r)" by fastforce
    with upsert_quiet [of X st env a] show ?thesis by (cases r) (simp_all add: UserUpsert Some r)
  qed (simp add: UserUpsert)
qed (auto simp: patch_user_by_external_id_def disable_user_by_external_id_def remove_user_by_external_id_def Let_def
    intro!: quiet_intros split: option.splits)

lemma group_patch_quiet: "quiet_step X st (fst (apply_scim_group_patch env p st))"
  by (cases p) (auto simp: change_scim_group_def Let_def intro!: quiet_intros split: option.splits prod.splits)

lemma patches_quiet:
  assumes "\<And>p st. quiet_step X st (fst (f p st))"
  shows "quiet_step X st (fst (apply_patches f ps st))"
proof (induction ps arbitrary: st)
  case (Cons p ps)
  obtain st1 r where r: "f p st = (st1, r)" by fastforce
  with assms [of st p] Cons [of st1] show ?case
    by (cases r) (auto intro: quiet_step_trans)
qed simp

lemma sync_plan_quiet: "quiet_step X st (fst (apply_scim_sync_plan env plan st))"
proof -
  obtain st1 r1 where r1: "apply_patches (apply_scim_group_patch env) (sp_group_patches plan) st = (st1, r1)" by fastforce
  obtain st2 r2 where r2: "apply_patches (apply_scim_user_patch env) (sp_user_patches plan) st1 = (st2, r2)" by fastforce
  have "quiet_step X st st1" "quiet_step X st1 st2"
    using patches_quiet [of X "apply_scim_group_patch env" st "sp_group_patches plan", OF group_patch_quiet]
      patches_quiet [of X "apply_scim_user_patch env" st1 "sp_user_patches plan", OF user_patch_quiet] r1 r2 by simp_all
  then show ?thesis
    by (cases r1; cases r2) (auto simp: apply_scim_sync_plan_def r1 r2 intro!: quiet_intros intro: quiet_step_trans)
qed

interpretation scim_user: quiet_operation "\<lambda>st. fst (scim_user_sync_handler env h p st)" "\<lambda>_. {}" for env h p
  by unfold_locales (simp add: scim_user_sync_handler_def user_patch_quiet)

interpretation scim_group: quiet_operation "\<lambda>st. fst (scim_group_sync_handler env h p st)" "\<lambda>_. {}" for env h p
  by unfold_locales (simp add: scim_group_sync_handler_def group_patch_quiet)

text \<open>A synchronisation changes nothing or applies a plan.\<close>

lemma provider_sync_cases:
  assumes "scim_provider_sync_handler env h rq st = Some (st', r)"
  shows "st' = st \<or> (\<exists>plan r1. apply_scim_sync_plan env plan st = (st', r1))"
proof (cases "authorize_scim_request env h")
  case True
  then obtain pulled where pulled: "pull_snapshot (av_scim_env env) (av_scim env) = Some pulled"
    using assms by (auto simp: scim_provider_sync_handler_def)
  show ?thesis
  proof (cases pulled)
    case (Inl e)
    with assms True pulled show ?thesis by (simp add: scim_provider_sync_handler_def)
  next
    case (Inr snapshot)
    let ?plan = "build_scim_sync_plan (scim_users_from_state st) (scim_groups_from_state st) snapshot
      (scim_lifecycle_policy (snd (av_scim env)) rq)"
    obtain st1 r1 where r1: "apply_scim_sync_plan env ?plan st = (st1, r1)" by fastforce
    have "st' = st \<or> st' = st1"
      using assms by (cases r1) (auto simp: scim_provider_sync_handler_def True pulled Inr r1 Let_def split: if_splits)
    with r1 show ?thesis by blast
  qed
qed (use assms in \<open>simp add: scim_provider_sync_handler_def\<close>)

lemma provider_sync_quiet:
  "scim_provider_sync_handler env h rq st = Some (st', r) \<Longrightarrow> quiet_step X st st'"
  using provider_sync_cases [of env h rq st st' r] sync_plan_quiet [of X st env] by (metis fst_conv quiet_step_refl)

interpretation scim_sync: quiet_operation "api_step env (OpScimSync h rq)" "\<lambda>_. {}" for env h rq
  by unfold_locales (auto dest: provider_sync_quiet split: option.splits)

subsection \<open>Logging in\<close>

text \<open>A pending session comes from an account that was found, active and vouched for.\<close>

fun logs_in :: "api_env \<Rightarrow> api_op \<Rightarrow> api_state \<Rightarrow> pending_session \<Rightarrow> bool" where
  "logs_in env (OpLogin io h rq) st p =
     (let a = ps_account p in
      lookup_user_by_username st (lq_username rq) = Some a \<and> ua_active a \<and> ua_auth_source a = LocalPassword
      \<and> ua_password a = lq_password rq \<and> enforce_separation_of_duties (ua_roles a) = Inr ()
      \<and> ps_binding p = \<lparr>sb_ip_address = extract_ip_address h, sb_device_fingerprint = lq_device_fingerprint rq\<rparr>)"
| "logs_in env (OpSsoCallback io h rq) st p =
     (case parse_sso_protocol (xc_protocol rq) of
        None \<Rightarrow> False
      | Some proto \<Rightarrow>
          (case sso_exchange_code (av_sso_env env) (av_sso env) proto (xc_code rq) (av_redirect_url env) of
             Inl _ \<Rightarrow> False
           | Inr c \<Rightarrow>
               ua_active (ps_account p) \<and> ps_auth_source p = sl_auth_source c
               \<and> (lookup_user_by_username st (sl_username c) = Some (ps_account p)
                  \<or> lookup_user_by_username st (sl_username c) = None
                    \<and> account_from_sso_claims env c = Some (ps_account p))
               \<and> ps_binding p =
                   \<lparr>sb_ip_address = extract_ip_address h, sb_device_fingerprint = xc_device_fingerprint rq\<rparr>))"
| "logs_in env _ st p = False"

lemma audit_fields [simp]:
  "st_pending (append_login_audit u t r w st) = st_pending st"
  "st_active (append_login_audit u t r w st) = st_active st"
  by (simp_all add: append_login_audit_def audit_append_def)

lemma open_pending_effect:
  assumes "fst (open_pending_session env io a binding src reason m why label st) = st'"
  shows "st_active st' = st_active st
    \<and> (st_pending st' = st_pending st
       \<or> (\<exists>p. st_pending st' = AList.update (io_ulid io) p (st_pending st) \<and> ps_account p = a
              \<and> ps_binding p = binding \<and> ps_auth_source p = src))"
  using assms
  by (auto simp: open_pending_session_def Let_def fst_persist_or split: option.splits if_splits)

lemma session_step_pending:
  assumes "st_active st' = st_active st"
    and "st_pending st' = st_pending st \<or> (\<exists>p. st_pending st' = AList.update k p (st_pending st))"
  shows "session_step X st st'"
  using assms by (auto simp: session_step_def sessions_wf_def sessions_evolve_cong distinct_update)

lemma login_effect:
  assumes "fst (login_handler env io h rq st) = st'"
  shows "st_active st' = st_active st
    \<and> (st_pending st' = st_pending st
       \<or> (\<exists>p. st_pending st' = AList.update (io_ulid io) p (st_pending st) \<and> logs_in env (OpLogin io h rq) st p))"
proof (cases "st' = st \<or> st_active st' = st_active st \<and> st_pending st' = st_pending st")
  case False
  then obtain a where a: "lookup_user_by_username st (lq_username rq) = Some a" "ua_active a"
    "ua_auth_source a = LocalPassword" "ua_password a = lq_password rq"
    "enforce_separation_of_duties (ua_roles a) = Inr ()"
    and st': "fst (open_pending_session env io a
       \<lparr>sb_ip_address = extract_ip_address h, sb_device_fingerprint = lq_device_fingerprint rq\<rparr> LocalPassword
       ''login authentication'' ''failed to persist pending session'' ''login initiated via local password''
       ''local_password'' st) = st'"
    using assms by (auto simp: login_handler_def Let_def split: option.splits if_splits)
  from open_pending_effect [OF st'] a show ?thesis by (auto simp: Let_def)
qed auto

lemma account_for_claims_effect:
  assumes "account_for_claims env c st = (st1, r)"
  shows "quiet_step X st st1"
    and "r = Done a \<Longrightarrow> lookup_user_by_username st (sl_username c) = Some a
      \<or> lookup_user_by_username st (sl_username c) = None \<and> account_from_sso_claims env c = Some a"
proof -
  show "quiet_step X st st1"
  proof (cases "lookup_user_by_username st (sl_username c)")
    case None
    show ?thesis
    proof (cases "account_from_sso_claims env c")
      case (Some a)
      obtain st2 r2 where r2: "upsert_user_account env a st = (st2, r2)" by fastforce
      with upsert_quiet [of X st env a] assms None Some show ?thesis
        by (cases r2) (auto simp: account_for_claims_def)
    qed (use assms None in \<open>simp add: account_for_claims_def\<close>)
  qed (use assms in \<open>simp add: account_for_claims_def\<close>)
  show "r = Done a \<Longrightarrow> lookup_user_by_username st (sl_username c) = Some a
      \<or> lookup_user_by_username st (sl_username c) = None \<and> account_from_sso_claims env c = Some a"
    using assms by (auto simp: account_for_claims_def split: option.splits prod.splits reply.splits)
qed

lemma quiet_active: "quiet_step X st st1 \<Longrightarrow> st_pending st1 = st_pending st"
  by (simp add: quiet_step_def)

lemma sso_effect:
  assumes "fst (sso_callback_handler env io h rq st) = st'"
  shows "session_step X st st'
    \<and> (st_pending st' = st_pending st
       \<or> (\<exists>p. st_pending st' = AList.update (io_ulid io) p (st_pending st)
              \<and> logs_in env (OpSsoCallback io h rq) st p))"
proof (cases "parse_sso_protocol (xc_protocol rq)")
  case (Some proto)
  show ?thesis
  proof (cases "sso_exchange_code (av_sso_env env) (av_sso env) proto (xc_code rq) (av_redirect_url env)")
    case (Inr c)
    obtain st1 r where r: "account_for_claims env c st = (st1, r)" by fastforce
    note effect = account_for_claims_effect [OF r]
    have quiet: "session_step X st st1" "st_pending st1 = st_pending st"
      using effect(1) by (simp_all add: quiet_step_def)
    show ?thesis
    proof (cases "\<exists>a. r = Done a \<and> ua_active a")
      case True
      then obtain a where a: "r = Done a" "ua_active a" by blast
      have open_: "fst (open_pending_session env io a
          \<lparr>sb_ip_address = extract_ip_address h, sb_device_fingerprint = xc_device_fingerprint rq\<rparr>
          (sl_auth_source c) ''sso authentication'' ''failed to persist sso pending session''
          (''sso callback initiated via '' @ xc_protocol rq) (auth_source_debug (sl_auth_source c)) st1) = st'"
        using assms by (simp add: sso_callback_handler_def Some Inr r a)
      note opened = open_pending_effect [OF open_]
      have "session_step X st1 st'"
        by (rule session_step_pending [where k = "io_ulid io"]) (use opened in auto)
      then have "session_step X st st'" by (rule session_step_trans [OF quiet(1)])
      moreover have "logs_in env (OpSsoCallback io h rq) st p"
        if "ps_account p = a" "ps_binding p = \<lparr>sb_ip_address = extract_ip_address h,
            sb_device_fingerprint = xc_device_fingerprint rq\<rparr>" "ps_auth_source p = sl_auth_source c" for p
        using effect(2) [OF a(1)] that a(2) by (simp add: Some Inr)
      ultimately show ?thesis using opened quiet(2) by auto
    next
      case False
      then have "st' = st1"
        using assms by (cases r) (auto simp: sso_callback_handler_def Some Inr r)
      with quiet show ?thesis by simp
    qed
  qed (use assms in \<open>simp add: sso_callback_handler_def Some\<close>)
qed (use assms in \<open>simp add: sso_callback_handler_def\<close>)

interpretation login: session_operation "\<lambda>st. fst (login_handler env io h rq st)" "\<lambda>_. {}" for env io h rq
proof
  fix st
  show "session_step {} st (fst (login_handler env io h rq st))"
    by (rule session_step_pending [where k = "io_ulid io"])
      (use login_effect [of env io h rq st, OF refl] in auto)
qed

interpretation sso_callback: session_operation "\<lambda>st. fst (sso_callback_handler env io h rq st)" "\<lambda>_. {}" for env io h rq
  by unfold_locales (use sso_effect in blast)

subsection \<open>The second factor opens a session\<close>

definition proves_factor :: "api_env \<Rightarrow> api_io \<Rightarrow> mfa_verify_request \<Rightarrow> pending_session \<Rightarrow> bool" where
  "proves_factor env io rq p =
     (case ua_mfa_registration (ps_account p) of
        None \<Rightarrow> False
      | Some r \<Rightarrow> verify_challenge (av_auth env) (io_now io) r (ps_challenge p)
          \<lparr>mv_code = mq_code rq, mv_assertion = mq_assertion rq\<rparr> = Some (Inr ()))"

lemma persist_or_active [simp]:
  assumes "\<And>st. st_active (fst (k st)) = st_active st"
  shows "st_active (fst (persist_or env m st k)) = st_active st"
  by (simp add: fst_persist_or assms)

lemma open_session_effect:
  assumes "fst (open_session env io p st) = st'"
  shows "st_pending st' = st_pending st
    \<and> (st_active st' = st_active st
       \<or> (\<exists>c. st_active st' = AList.update (io_ulid io) (new_active_session p c (io_token io)) (st_active st)
              \<and> sc_user_id c = ua_user_id (ps_account p) \<and> sc_session_id c = io_ulid io \<and> sc_binding c = ps_binding p))"
  using assms
  by (auto simp: open_session_def Let_def fst_persist_or put_session_def session_issue_def id_new_def
      request_context_new_def split: sum.splits if_splits)

lemma mfa_effect:
  assumes "fst (mfa_verify_handler env io rq st) = st'" "sessions_wf st"
  shows "sessions_wf st'
    \<and> (map_of (st_pending st') k = Some p \<longrightarrow> map_of (st_pending st) k = Some p)
    \<and> (st_active st' = st_active st
       \<or> (\<exists>p c. map_of (st_pending st) (mq_pending_session_id rq) = Some p \<and> proves_factor env io rq p
              \<and> st_active st' = AList.update (io_ulid io) (new_active_session p c (io_token io)) (st_active st)
              \<and> sc_user_id c = ua_user_id (ps_account p) \<and> sc_session_id c = io_ulid io \<and> sc_binding c = ps_binding p))"
proof (cases "st' = st")
  case False
  then obtain p where p: "map_of (st_pending st) (mq_pending_session_id rq) = Some p" "proves_factor env io rq p"
    and st': "fst (persist_or env ''failed to clear pending session''
       (st\<lparr>st_pending := AList.delete (mq_pending_session_id rq) (st_pending st)\<rparr>) (open_session env io p)) = st'"
    using assms(1)
    by (auto simp: mfa_verify_handler_def proves_factor_def split: option.splits sum.splits)
  show ?thesis
  proof (cases "av_saved env (st_saves st)")
    case True
    then have "fst (open_session env io p (st\<lparr>st_pending := AList.delete (mq_pending_session_id rq) (st_pending st),
        st_saves := Suc (st_saves st)\<rparr>)) = st'"
      using st' by (simp add: fst_persist_or)
    from open_session_effect [OF this] p assms(2) show ?thesis
      by (auto simp: sessions_wf_def distinct_update distinct_delete delete_conv' split: if_splits)
  next
    case fail: False
    with st' assms(2) show ?thesis
      by (auto simp: fst_persist_or sessions_wf_def distinct_delete delete_conv' split: if_splits)
  qed
qed (use assms in simp)

subsection \<open>Tracing a session back\<close>

definition pending_from :: "api_events \<Rightarrow> api_state \<Rightarrow> pending_session \<Rightarrow> bool" where
  "pending_from es st0 p =
     (\<exists>pre env op post. es = pre @ (env, op) # post \<and> logs_in env op (api_run pre st0) p)"

definition session_from :: "api_events \<Rightarrow> api_state \<Rightarrow> string \<Rightarrow> active_session \<Rightarrow> bool" where
  "session_from es st0 sid a =
     (\<exists>pre env io rq post p. es = pre @ (env, OpMfaVerify io rq) # post \<and> io_ulid io = sid
        \<and> pending_from pre st0 p \<and> proves_factor env io rq p \<and> an_roles a = ua_roles (ps_account p)
        \<and> sc_user_id (an_claims a) = ua_user_id (ps_account p) \<and> sc_binding (an_claims a) = ps_binding p)"

definition traced :: "api_events \<Rightarrow> api_state \<Rightarrow> api_state \<Rightarrow> bool" where
  "traced es st0 st =
     (sessions_wf st \<and> (\<forall>k p. map_of (st_pending st) k = Some p \<longrightarrow> pending_from es st0 p)
      \<and> (\<forall>sid a. map_of (st_active st) sid = Some a \<longrightarrow> session_from es st0 sid a))"

lemma pending_from_append: "pending_from es st0 p \<Longrightarrow> pending_from (es @ es') st0 p"
  unfolding pending_from_def by (metis append.assoc append_Cons)

lemma session_from_append: "session_from es st0 sid a \<Longrightarrow> session_from (es @ es') st0 sid a"
  unfolding session_from_def by (metis append.assoc append_Cons)

lemma session_from_evolves: "session_from es st0 sid a \<Longrightarrow> session_evolves x a b \<Longrightarrow> session_from es st0 sid b"
  unfolding session_from_def session_evolves_def by metis

lemma evolved_from:
  assumes "sessions_evolve X st st'" "map_of (st_active st') sid = Some b"
  shows "\<exists>a. map_of (st_active st) sid = Some a \<and> session_evolves (sid \<in> X) a b"
proof -
  have "rel_option (session_evolves (sid \<in> X)) (map_of (st_active st) sid) (Some b)"
    using assms by (metis sessions_evolve_def)
  then show ?thesis by (auto simp: option_rel_Some2)
qed

lemma traced_step:
  assumes "traced es st0 st" "session_step X st st'"
    and "\<And>k p. map_of (st_pending st') k = Some p \<Longrightarrow> map_of (st_pending st) k = Some p \<or> pending_from (es @ [e]) st0 p"
  shows "traced (es @ [e]) st0 st'"
  unfolding traced_def
proof (intro conjI allI impI)
  have wf: "sessions_wf st" using assms(1) by (simp add: traced_def)
  then show "sessions_wf st'" using assms(2) by (simp add: session_step_def)
  fix k p assume "map_of (st_pending st') k = Some p"
  then show "pending_from (es @ [e]) st0 p"
    using assms(1,3) pending_from_append unfolding traced_def by blast
next
  fix sid b assume b: "map_of (st_active st') sid = Some b"
  have "sessions_evolve X st st'" using assms(1,2) by (simp add: session_step_def traced_def)
  then obtain a where "map_of (st_active st) sid = Some a" "session_evolves (sid \<in> X) a b" using evolved_from b by blast
  with assms(1) show "session_from (es @ [e]) st0 sid b"
    unfolding traced_def by (blast intro: session_from_append session_from_evolves)
qed

lemma traced_quiet: "traced es st0 st \<Longrightarrow> quiet_step X st st' \<Longrightarrow> traced (es @ [e]) st0 st'"
  by (rule traced_step) (auto simp: quiet_step_def)

lemma pending_from_last: "logs_in env op (api_run es st0) p \<Longrightarrow> pending_from (es @ [(env, op)]) st0 p"
  unfolding pending_from_def by (intro exI [of _ es] exI [of _ env] exI [of _ op] exI [of _ "[]"]) simp

lemma traced_login:
  assumes "traced es st0 (api_run es st0)" "session_step X (api_run es st0) st'"
    and "st_pending st' = st_pending (api_run es st0)
      \<or> (\<exists>p. st_pending st' = AList.update i p (st_pending (api_run es st0)) \<and> logs_in env op (api_run es st0) p)"
  shows "traced (es @ [(env, op)]) st0 st'"
proof (rule traced_step [OF assms(1,2)])
  fix k p assume "map_of (st_pending st') k = Some p"
  then show "map_of (st_pending (api_run es st0)) k = Some p \<or> pending_from (es @ [(env, op)]) st0 p"
    using assms(3) by (auto simp: update_conv intro: pending_from_last split: if_splits)
qed

lemma traced_mfa:
  assumes "traced es st0 st" "fst (mfa_verify_handler env io rq st) = st'"
  shows "traced (es @ [(env, OpMfaVerify io rq)]) st0 st'"
  unfolding traced_def
proof (intro conjI allI impI)
  have wf: "sessions_wf st" using assms(1) by (simp add: traced_def)
  note effect = mfa_effect [OF assms(2) wf]
  show "sessions_wf st'" using effect by blast
  show "pending_from (es @ [(env, OpMfaVerify io rq)]) st0 p" if "map_of (st_pending st') k = Some p" for k p
    using that effect assms(1) pending_from_append unfolding traced_def by blast
  fix sid a assume a: "map_of (st_active st') sid = Some a"
  show "session_from (es @ [(env, OpMfaVerify io rq)]) st0 sid a"
  proof (cases "map_of (st_active st) sid = Some a")
    case True
    with assms(1) show ?thesis unfolding traced_def by (blast intro: session_from_append)
  next
    case False
    with a effect [THEN conjunct2, THEN conjunct2] obtain p c where p: "map_of (st_pending st) (mq_pending_session_id rq) = Some p"
      "proves_factor env io rq p" "sid = io_ulid io" "a = new_active_session p c (io_token io)"
      "sc_user_id c = ua_user_id (ps_account p)" "sc_binding c = ps_binding p"
      by (auto simp: update_conv split: if_splits)
    moreover have "pending_from es st0 p" using p(1) assms(1) unfolding traced_def by blast
    ultimately show ?thesis
      unfolding session_from_def by (intro exI [of _ es] exI [of _ env] exI [of _ io] exI [of _ rq] exI [of _ "[]"]
          exI [of _ p]) (simp add: new_active_session_def)
  qed
qed

lemma traced_run:
  assumes "st_pending st0 = []" "st_active st0 = []"
  shows "traced es st0 (api_run es st0)"
proof (induction es rule: rev_induct)
  case Nil
  show ?case using assms by (simp add: traced_def sessions_wf_def)
next
  case (snoc e es)
  obtain env op where e: "e = (env, op)" by (cases e)
  let ?st = "api_run es st0"
  have run: "api_run (es @ [e]) st0 = api_step env op ?st" by (simp add: api_run_append e)
  show ?case unfolding run unfolding e
  proof (cases op)
    case (OpLogin io h rq)
    show "traced (es @ [(env, op)]) st0 (api_step env op ?st)"
      unfolding OpLogin api_step.simps
      by (rule traced_login [where i = "io_ulid io", OF snoc login.evolves])
        (use login_effect [of env io h rq ?st, OF refl] in blast)
  next
    case (OpSsoCallback io h rq)
    show "traced (es @ [(env, op)]) st0 (api_step env op ?st)"
      unfolding OpSsoCallback api_step.simps
      by (rule traced_login [where i = "io_ulid io", OF snoc sso_callback.evolves])
        (use sso_effect [of env io h rq ?st, OF refl] in blast)
  next
    case (OpMfaVerify io rq)
    with traced_mfa [OF snoc refl, of env io rq]
    show "traced (es @ [(env, op)]) st0 (api_step env op ?st)" by simp
  next
    case (OpPosture io rq)
    show "traced (es @ [(env, op)]) st0 (api_step env op ?st)"
      unfolding OpPosture api_step.simps by (rule traced_quiet [OF snoc posture.quiet])
  next
    case (OpStepUp io rq)
    show "traced (es @ [(env, op)]) st0 (api_step env op ?st)"
      unfolding OpStepUp api_step.simps by (rule traced_quiet [OF snoc step_up.quiet])
  next
    case (OpRefresh io t)
    show "traced (es @ [(env, op)]) st0 (api_step env op ?st)"
      unfolding OpRefresh api_step.simps by (rule traced_quiet [OF snoc refresh.quiet])
  next
    case (OpLogout t)
    show "traced (es @ [(env, op)]) st0 (api_step env op ?st)"
      unfolding OpLogout api_step.simps by (rule traced_quiet [OF snoc logout.quiet])
  next
    case (OpScimUser h p)
    show "traced (es @ [(env, op)]) st0 (api_step env op ?st)"
      unfolding OpScimUser api_step.simps by (rule traced_quiet [OF snoc scim_user.quiet])
  next
    case (OpScimGroup h p)
    show "traced (es @ [(env, op)]) st0 (api_step env op ?st)"
      unfolding OpScimGroup api_step.simps by (rule traced_quiet [OF snoc scim_group.quiet])
  next
    case (OpScimSync h rq)
    show "traced (es @ [(env, op)]) st0 (api_step env op ?st)"
      unfolding OpScimSync by (rule traced_quiet [OF snoc scim_sync.quiet])
  next
    case (OpRequest io r)
    show "traced (es @ [(env, op)]) st0 (api_step env op ?st)"
      unfolding OpRequest api_step.simps by (rule traced_quiet [OF snoc request.quiet])
  qed
qed

lemma authenticated_Inr:
  assumes "extract_authenticated_claims env now st r = Inr s"
  shows "\<exists>token a. extract_request_access_token r = Some token
    \<and> parse_access_token (av_auth env) token api_token_secret = Inr (au_claims s)
    \<and> now < sc_expires_at (au_claims s) \<and> map_of (st_active st) (sc_session_id (au_claims s)) = Some a
    \<and> \<not> an_revoked a \<and> \<not> an_step_up_required a \<and> au_roles s = an_roles a
    \<and> sb_ip_address (sc_binding (au_claims s)) = extract_ip_address (ap_headers r)"
  using assms
  by (auto simp: extract_authenticated_claims_def is_expired_at_def is_bound_to_def
      split: option.splits sum.splits if_splits)

text \<open>
  C4. Whatever the handlers did before, a request that is authenticated carries a token that is
  signed and not expired, for a session that is neither revoked nor waiting for a second factor;
  that session was opened by an earlier proof of the second factor of an account, for which a still
  earlier login had checked the password or the identity provider had vouched, the account being
  active then; and the request runs with the roles that account had.
\<close>

theorem authenticated_request_traced:
  assumes "st_pending st0 = []" "st_active st0 = []"
    and "extract_authenticated_claims env now (api_run es st0) r = Inr s"
  shows "\<exists>token a. extract_request_access_token r = Some token
    \<and> parse_access_token (av_auth env) token api_token_secret = Inr (au_claims s) \<and> now < sc_expires_at (au_claims s)
    \<and> map_of (st_active (api_run es st0)) (sc_session_id (au_claims s)) = Some a
    \<and> \<not> an_revoked a \<and> \<not> an_step_up_required a \<and> au_roles s = an_roles a
    \<and> session_from es st0 (sc_session_id (au_claims s)) a"
  using authenticated_Inr [OF assms(3)] traced_run [OF assms(1,2), of es] unfolding traced_def by blast

subsection \<open>Revocation\<close>

lemma api_step_wf: "sessions_wf st \<Longrightarrow> sessions_wf (api_step env op st)"
  using login.stays_wf sso_callback.stays_wf mfa_effect [OF refl] posture.stays_wf step_up.stays_wf refresh.stays_wf
    logout.stays_wf scim_user.stays_wf scim_group.stays_wf scim_sync.stays_wf request.stays_wf
  by (cases op) (simp_all only: api_step.simps(1-9,11))

lemma api_step_revoked:
  assumes "sessions_wf st" "map_of (st_active st) sid = Some a" "an_revoked a" "opens_session op \<noteq> Some sid"
  shows "\<exists>b. map_of (st_active (api_step env op st)) sid = Some b \<and> an_revoked b"
proof (cases op)
  case (OpMfaVerify io rq)
  have other: "sid \<noteq> io_ulid io" using assms(4) OpMfaVerify by auto
  have "map_of (st_active (fst (mfa_verify_handler env io rq st))) sid = map_of (st_active st) sid"
    using mfa_effect [of env io rq st, OF refl assms(1), THEN conjunct2, THEN conjunct2] other by (auto simp: update_conv)
  with assms(2,3) OpMfaVerify show ?thesis by simp
qed (use login.stays_revoked [OF assms(1-3)] sso_callback.stays_revoked [OF assms(1-3)]
    posture.stays_revoked [OF assms(1-3)] step_up.stays_revoked [OF assms(1-3)] refresh.stays_revoked [OF assms(1-3)]
    logout.stays_revoked [OF assms(1-3)] scim_user.stays_revoked [OF assms(1-3)]
    scim_group.stays_revoked [OF assms(1-3)] scim_sync.stays_revoked [OF assms(1-3)]
    request.stays_revoked [OF assms(1-3)] in \<open>simp_all only: api_step.simps(1-9,11)\<close>)

lemma api_run_revoked:
  "sessions_wf st \<Longrightarrow> map_of (st_active st) sid = Some a \<Longrightarrow> an_revoked a \<Longrightarrow> sid \<notin> opened_ids es \<Longrightarrow>
    \<exists>b. map_of (st_active (api_run es st)) sid = Some b \<and> an_revoked b"
proof (induction es st arbitrary: a rule: api_run.induct)
  case (2 env op es st)
  then obtain b where "map_of (st_active (api_step env op st)) sid = Some b" "an_revoked b"
    using api_step_revoked [OF 2(2,3,4), of op env] by auto
  with 2 api_step_wf [OF 2(2)] show ?case by simp
qed auto

lemma revoked_session_refused:
  "map_of (st_active st) sid = Some a \<Longrightarrow> an_revoked a \<Longrightarrow>
    extract_authenticated_claims env now st r = Inr s \<Longrightarrow> sc_session_id (au_claims s) \<noteq> sid"
  using authenticated_Inr by fastforce

text \<open>
  C6. A session that is revoked stays revoked whatever the handlers do afterwards, as long as no
  new session is opened under its identifier, and no request is ever authenticated for it.
\<close>

theorem revocation_is_final:
  assumes "sessions_wf st" "map_of (st_active st) sid = Some a" "an_revoked a" "sid \<notin> opened_ids es"
  shows "(\<exists>b. map_of (st_active (api_run es st)) sid = Some b \<and> an_revoked b)
    \<and> \<not> (\<exists>env now r s. extract_authenticated_claims env now (api_run es st) r = Inr s \<and> sc_session_id (au_claims s) = sid)"
  using api_run_revoked [OF assms] revoked_session_refused by blast

subsection \<open>Leaving\<close>

text \<open>The external identifier that a patch makes inactive or removes.\<close>

fun deactivated_id :: "scim_user_patch \<Rightarrow> string option" where
  "deactivated_id (UserUpsert u) = (if us_active u then None else Some (us_external_id u))"
| "deactivated_id (UserPatch i c) = (if uc_active c = Some False then Some i else None)"
| "deactivated_id (UserDisable i) = Some i"
| "deactivated_id (UserDelete i) = Some i"

lemma revoked_for_user:
  assumes "map_of (st_active (revoke_sessions_for_user uid st)) sid = Some b" "sc_user_id (an_claims b) = uid"
  shows "an_revoked b"
proof -
  obtain a where b: "b = (if sc_user_id (an_claims a) = uid then a\<lparr>an_revoked := True\<rparr> else a)"
    using assms(1) unfolding map_of_revoked by blast
  show ?thesis
  proof (cases "sc_user_id (an_claims a) = uid")
    case True
    then show ?thesis unfolding b by simp
  qed (use assms(2) b in simp)
qed

lemma active_after_persist:
  assumes "persist_or env m st (\<lambda>st. (st, r)) = (st', r')"
  shows "st_active st' = st_active st"
proof -
  have "st' = fst (persist_or env m st (\<lambda>st. (st, r)))" using assms by simp
  then show ?thesis by (simp add: fst_persist_or)
qed

lemma upsert_inactive_revokes:
  assumes "upsert_user_account env a st = (st', r)" "r \<noteq> Panic" "\<not> ua_active a"
    and "ua_external_id a = Some i" "account_with_external_id st i = Some (k, p)"
  shows "\<exists>st1. st_active st' = st_active (revoke_sessions_for_user (ua_user_id p) st1)"
proof -
  let ?a = "a\<lparr>ua_user_id := ua_user_id p, ua_mfa_registration := ua_mfa_registration p\<rparr>"
  obtain b where b: "bootstrap_user_account env ?a = Some b"
    using assms by (auto simp: upsert_user_account_def Let_def split: option.splits)
  then have fields: "ua_user_id b = ua_user_id p" "\<not> ua_active b"
    using assms(3) by (auto simp: bootstrap_user_account_def split: if_splits)
  have "persist_or env ''failed to persist user account''
      (revoke_if_inactive b (st\<lparr>st_users := AList.update (ua_username b) b (AList.delete k (st_users st))\<rparr>))
      (\<lambda>st. (st, Done ())) = (st', r)"
    using assms(1,4,5) b by (simp add: upsert_user_account_def Let_def)
  from active_after_persist [OF this] fields show ?thesis
    by (auto simp: revoke_if_inactive_def)
qed

lemma deactivation_revokes:
  assumes "deactivated_id p = Some i" "account_with_external_id st i = Some (k, a)"
    and "apply_scim_user_patch env p st = (st', r)" "r \<noteq> Panic"
  shows "\<exists>st1. st_active st' = st_active (revoke_sessions_for_user (ua_user_id a) st1)"
proof (cases p)
  case (UserUpsert u)
  then have u: "\<not> us_active u" "us_external_id u = i" using assms(1) by (auto split: if_splits)
  obtain b where b: "account_from_scim_user env u = Some b"
    using assms(3,4) UserUpsert by (auto split: option.splits)
  then have fields: "\<not> ua_active b" "ua_external_id b = Some i"
    using u by (auto simp: account_from_scim_user_def bootstrap_user_account_def Let_def)
  obtain st2 r2 where up: "upsert_user_account env b st = (st2, r2)" by fastforce
  then have "st' = st2" "r2 \<noteq> Panic"
    using assms(3,4) UserUpsert b by (auto split: reply.splits)
  with upsert_inactive_revokes [OF up _ fields assms(2)] show ?thesis by simp
next
  case (UserPatch j c)
  then have j: "uc_active c = Some False" "j = i" using assms(1) by (auto split: if_splits)
  let ?a = "patched_account c a"
  have fields: "\<not> ua_active ?a" "ua_user_id ?a = ua_user_id a"
    using j by (auto simp: patched_account_def Let_def option_or_def split: option.splits)
  have "st_active st' = st_active (revoke_if_inactive ?a
      (st\<lparr>st_users := AList.update (ua_username ?a) ?a (AList.delete k (st_users st))\<rparr>))"
    using assms(2,3) UserPatch j by (auto simp: patch_user_by_external_id_def Let_def dest!: active_after_persist)
  then show ?thesis using fields by (auto simp: revoke_if_inactive_def)
next
  case (UserDisable j)
  with assms(1-3) show ?thesis
    by (auto simp: disable_user_by_external_id_def Let_def dest!: active_after_persist)
next
  case (UserDelete j)
  with assms(1-3) show ?thesis
    by (auto simp: remove_user_by_external_id_def Let_def dest!: active_after_persist)
qed

text \<open>
  C5. When provisioning disables, deletes or deactivates an account, even if saving that fails, none
  of the sessions its user had authenticates a request in any later run of the handlers of this
  server process.  This is about the sessions in memory only: the revocation is not written to
  storage, so a server that is started again loads the sessions as they were stored.
\<close>

theorem deprovisioned_user_is_out:
  assumes "sessions_wf st" "deactivated_id p = Some i" "account_with_external_id st i = Some (k, a)"
    and "apply_scim_user_patch env p st = (st', result)" "result \<noteq> Panic"
    and "map_of (st_active st) sid = Some b" "sc_user_id (an_claims b) = ua_user_id a" "sid \<notin> opened_ids es"
  shows "\<not> (\<exists>env now r s. extract_authenticated_claims env now (api_run es st') r = Inr s
    \<and> sc_session_id (au_claims s) = sid)"
proof -
  have quiet: "quiet_step {} st st'" using user_patch_quiet [of "{}" st env p] assms(4) by simp
  then have wf: "sessions_wf st'" and "sessions_evolve {} st st'"
    using assms(1) by (simp_all add: quiet_step_def session_step_def)
  then have "rel_option (session_evolves (sid \<in> {})) (map_of (st_active st) sid) (map_of (st_active st') sid)"
    unfolding sessions_evolve_def by blast
  then obtain b' where b': "map_of (st_active st') sid = Some b'" "sc_user_id (an_claims b') = ua_user_id a"
    using assms(6,7) by (auto simp: option_rel_Some1 session_evolves_def)
  obtain st1 where "st_active st' = st_active (revoke_sessions_for_user (ua_user_id a) st1)"
    using deactivation_revokes [OF assms(2,3,4,5)] by blast
  then have "an_revoked b'" using revoked_for_user [of "ua_user_id a" st1 sid b'] b' by simp
  with api_run_revoked [OF wf b'(1) _ assms(8)] revoked_session_refused show ?thesis by blast
qed

text \<open>A login that is still pending is not touched: the second factor is checked without the directory.\<close>

lemma second_factor_ignores_directory:
  "st_active (fst (mfa_verify_handler env io rq (st\<lparr>st_users := us\<rparr>))) = st_active (fst (mfa_verify_handler env io rq st))"
  by (simp add: mfa_verify_handler_def open_session_def fst_persist_or put_session_def Let_def
      split: option.splits sum.splits)

subsection \<open>Replay of refresh tokens\<close>









text \<open>A token that was exchanged twice ago is merely unknown: its second use ends nothing.\<close>

lemma older_token_is_not_detected:
  assumes "session_with_previous st (refresh_token_fingerprint (av_auth env) t) = None" "session_with_token st t = None"
  shows "refresh_handler env io t st = (st, Refused (json_error 401 ''refresh token not found''))"
  using assms by (simp add: refresh_handler_def)

subsection \<open>Step-up\<close>

text \<open>
  While a session waits for a second factor no request passes for it; but its holder may answer by
  reporting a healthy device instead.
\<close>

lemma step_up_blocks_requests:
  "map_of (st_active st) sid = Some a \<Longrightarrow> an_step_up_required a \<Longrightarrow>
    extract_authenticated_claims env now st r = Inr s \<Longrightarrow> sc_session_id (au_claims s) \<noteq> sid"
  using authenticated_Inr by fastforce

lemma posture_clears_step_up:
  assumes "session_with_token st t = Some (sid, a)"
  shows "\<exists>b. map_of (st_active (fst (device_posture_handler env io
      \<lparr>dq_refresh_token = t, dq_profile = Some ''trusted'', dq_ip_drift = False, dq_impossible_travel = False,
       dq_exfiltration_hint = False, dq_query_burst = None, dq_denied_burst = None, dq_export_burst = None\<rparr> st))) sid
      = Some b \<and> \<not> an_step_up_required b \<and> \<not> an_revoked b"
  using session_with_token_found(2) [OF assms]
  by (simp add: device_posture_handler_def apply_device_posture_assessment_def assms posture_assessment_def
      assess_def tallied_def tally_def posture_fails_def collect_posture_def collected_posture_def compliant_def
      for_score_def option_or_def Let_def fst_persist_or put_session_def update_conv)

subsection \<open>A concrete server\<close>

definition api_auth :: auth_env where
  "api_auth = sample_auth_env\<lparr>ae_hmac_sha1 := (\<lambda>k m. replicate 20 0)\<rparr>"

definition sample_account :: user_account where
  "sample_account = \<lparr>ua_username = ''ann'', ua_display_name = ''Ann'', ua_email = ''ann@acme'', ua_password = ''pw'',
     ua_user_id = ''ann'', ua_tenant_id = ''acme'', ua_external_id = Some ''x-1'', ua_active = True,
     ua_auth_source = LocalPassword, ua_roles = [Analyst], ua_mfa_method = Totp,
     ua_mfa_registration = Some (TotpReg \<lparr>tr_account_name = ''ann'', tr_secret_hex = [], tr_digits = 6,
       tr_period_secs = 30, tr_allowed_drift_steps = 0\<rparr>)\<rparr>"

definition sample_api_state :: api_state where
  "sample_api_state = \<lparr>st_users = [(''ann'', sample_account)], st_scim_groups = [], st_projects = [], st_pending = [],
     st_active = [], st_scim_cursor = None, st_audit = [], st_saves = 0\<rparr>"

definition sample_api_env :: api_env where
  "sample_api_env = \<lparr>av_auth = api_auth, av_mfa = mfa_config_default,
     av_sso_env = \<lparr>se_url_with_pairs = (\<lambda>u _. Inr u), se_post_token = (\<lambda>_ _. Inl ''down''),
       se_get_userinfo = (\<lambda>_ _. Inl ''down''), se_post_saml = (\<lambda>_ _. Inl ''down'')\<rparr>,
     av_sso = (let m = MockSso \<lparr>mk_issuer_url = ''https://idp'', mk_client_id = ''sdqp''\<rparr> in \<lparr>sg_oidc = m, sg_saml = m\<rparr>),
     av_redirect_url = ''https://app'', av_scim_env = sample_scim_env, av_scim = (HttpScim sample_scim_config, sample_scim_config),
     av_bucket = ''bucket'', av_saved = (\<lambda>_. True)\<rparr>"

definition stub_io :: "string \<Rightarrow> api_io" where
  "stub_io ulid = \<lparr>io_now = 0, io_later = 0, io_ulid = ulid, io_ulid2 = ''c-1'', io_token = ''r-'' @ ulid\<rparr>"

definition sample_headers :: http_headers where
  "sample_headers = \<lparr>hh_values = [(''x-forwarded-for'', ''10.0.0.1'')]\<rparr>"

definition sample_events :: api_events where
  "sample_events =
     [(sample_api_env, OpLogin (stub_io ''p-1'') sample_headers
         \<lparr>lq_username = ''ann'', lq_password = ''pw'', lq_device_fingerprint = ''laptop''\<rparr>),
      (sample_api_env, OpMfaVerify (stub_io ''s-1'')
         \<lparr>mq_pending_session_id = ''p-1'', mq_code = Some ''000000'', mq_assertion = None\<rparr>)]"

definition sample_session :: active_session where
  "sample_session = \<lparr>an_claims = sample_claims, an_refresh_token = ''r-s-1'', an_previous_fingerprint = None,
     an_roles = [Analyst], an_mfa_method = Totp, an_auth_source = LocalPassword, an_risk_score = 0,
     an_device_posture = None, an_revoked = False, an_step_up_required = False, an_step_up_challenge = None\<rparr>"

lemma sample_fields [simp]:
  "av_auth sample_api_env = api_auth" "av_mfa sample_api_env = mfa_config_default" "av_saved sample_api_env n"
  "ae_claims_json api_auth sample_claims = Some [1]" "ae_unhex api_auth [] = Some []"
  "ae_hmac_sha1 api_auth k m = replicate 20 0"
  by (simp_all add: sample_api_env_def api_auth_def sample_auth_env_def)

lemma zero_code: "generate_totp_code api_auth [] ts 30 6 = Some ''000000''"
proof -
  have mac: "truncate_mac (replicate 20 0) = 0" by (simp add: truncate_mac_def)
  have modulus: "otp_modulus 6 = 1000000" by (simp add: otp_modulus_def)
  have digits: "show_nat 0 = ''0''" by code_simp
  have code: "otp_text 6 0 = ''000000''"
    by (simp add: otp_text_def digits) (simp add: numeral_eq_Suc)
  show ?thesis by (simp add: generate_totp_code_def Let_def mac modulus code)
qed

lemma api_codec_ok: "token_codec_ok api_auth"
  by (simp add: token_codec_ok_def api_auth_def sample_auth_env_def sample_decode_encode sample_encode_no_dot)

definition bearer_request :: "string \<Rightarrow> api_request" where
  "bearer_request t =
     \<lparr>ap_headers = \<lparr>hh_values = [(''x-forwarded-for'', ''10.0.0.1''), (''authorization'', ''Bearer '' @ t)]\<rparr>,
      ap_path = ''/v1/projects'', ap_query = None\<rparr>"

lemma sample_token:
  "\<exists>t. issue_access_token api_auth sample_claims api_token_secret = Inr t
    \<and> parse_access_token api_auth t api_token_secret = Inr sample_claims \<and> header_text (''Bearer '' @ t) = Some (''Bearer '' @ t)"
proof -
  let ?h = "sample_encode (as_bytes jwt_header)"
  let ?t = "?h @ ''.'' @ sample_encode [1] @ ''.'' @ sign_token api_auth (?h @ ''.'' @ sample_encode [1]) api_token_secret"
  have enc: "ae_encode api_auth b = sample_encode b" for b by (simp add: api_auth_def sample_auth_env_def)
  have "parse_access_token api_auth ?t api_token_secret = Inr sample_claims"
    using signed_token_parses [OF api_codec_ok, of sample_claims "[1]" ?h api_token_secret]
    by (simp add: enc sample_encode_no_dot)
  moreover have "issue_access_token api_auth sample_claims api_token_secret = Inr ?t"
    by (simp add: issue_access_token_def Let_def enc)
  moreover have "header_text (''Bearer '' @ ?t) = Some (''Bearer '' @ ?t)"
  proof -
    have "32 \<le> code_of c \<and> code_of c < 127" if "c \<in> set (sample_encode b)" for c b
      using sample_encode_letters [OF that] sample_encode_visible [OF that] by simp
    then show ?thesis by (auto simp: header_text_def list_all_iff sign_token_def enc code_of_def)
  qed
  ultimately show ?thesis by blast
qed

lemma bearer_request_passes:
  assumes "map_of (st_active st) ''s-1'' = Some sample_session"
  shows "\<exists>t. extract_authenticated_claims sample_api_env 0 st (bearer_request t)
    = Inr \<lparr>au_claims = sample_claims, au_roles = [Analyst]\<rparr>"
proof -
  obtain t where t: "parse_access_token api_auth t api_token_secret = Inr sample_claims"
    "header_text (''Bearer '' @ t) = Some (''Bearer '' @ t)" using sample_token by blast
  have ip: "extract_ip_address (ap_headers (bearer_request t)) = ''10.0.0.1''"
    by (simp add: bearer_request_def extract_ip_address_def parse_header_def header_text_def code_of_def option_or_def)
  have device: "parse_header (ap_headers (bearer_request t)) ''x-device-fingerprint'' = None"
    by (simp add: bearer_request_def parse_header_def)
  have token: "extract_request_access_token (bearer_request t) = Some t"
    using t(2) by (simp add: bearer_request_def extract_request_access_token_def extract_bearer_token_def
        parse_header_def strip_prefix_def starts_with_def)
  have "sc_session_id sample_claims = ''s-1''" "\<not> is_expired_at sample_claims 0"
    "is_bound_to sample_claims ''10.0.0.1'' (sb_device_fingerprint (sc_binding sample_claims))"
    by (simp_all add: sample_claims_def is_expired_at_def is_bound_to_def minutes_ns_def)
  then show ?thesis
    using assms t(1)
    by (intro exI [of _ t]) (simp add: extract_authenticated_claims_def token ip device option_or_def sample_session_def)
qed

lemma sample_run: "st_active (api_run sample_events sample_api_state) = [(''s-1'', sample_session)]"
proof -
  let ?op1 = "snd (sample_events ! 0)" and ?op2 = "snd (sample_events ! 1)"
  define st1 where "st1 = api_step sample_api_env ?op1 sample_api_state"
  let ?ch = "begin_challenge api_auth mfa_config_default ''c-1'' 0
    (TotpReg (case ua_mfa_registration sample_account of Some (TotpReg t) \<Rightarrow> t)) (Some ''login authentication'')"
  have st1: "st_pending st1 = [(''p-1'', \<lparr>ps_account = sample_account,
      ps_binding = \<lparr>sb_ip_address = ''10.0.0.1'', sb_device_fingerprint = ''laptop''\<rparr>, ps_challenge = ?ch,
      ps_auth_source = LocalPassword\<rparr>)]" "st_active st1 = []"
    by (simp_all add: st1_def sample_events_def login_handler_def lookup_user_by_username_def sample_api_state_def
        sample_account_def enforce_separation_of_duties_def has_data_access_def open_pending_session_def Let_def
        persist_or_def persist_def stub_io_def extract_ip_address_def sample_headers_def parse_header_def
        header_text_def code_of_def option_or_def)
  have factor: "verify_challenge api_auth 0 (TotpReg (case ua_mfa_registration sample_account of Some (TotpReg t) \<Rightarrow> t)) ?ch
      \<lparr>mv_code = Some ''000000'', mv_assertion = None\<rparr> = Some (Inr ())"
    by (simp add: verify_challenge_def begin_challenge_def Let_def sample_account_def verify_totp_def zero_code
        timestamp_def mfa_config_default_def seconds_ns_def)
  obtain t where t: "issue_access_token api_auth sample_claims api_token_secret = Inr t" using sample_token by blast
  have claims: "session_issue ''s-1'' 0 15 (request_context_new i 0 (TenantId ''acme'') (UserId ''ann''))
      \<lparr>sb_ip_address = ''10.0.0.1'', sb_device_fingerprint = ''laptop''\<rparr> = sample_claims" for i
    by (simp add: session_issue_def request_context_new_def sample_claims_def)
  have ids: "id_new TenantId ''acme'' = Inr (TenantId ''acme'')" "id_new UserId ''ann'' = Inr (UserId ''ann'')"
    by (simp_all add: id_new_def trim_empty_iff is_ws_def code_of_def)
  have sample_id: "sc_session_id sample_claims = ''s-1''" by (simp add: sample_claims_def)
  have "st_active (api_step sample_api_env ?op2 st1) = [(''s-1'', sample_session)]"
    using factor t claims ids sample_id
    by (simp add: sample_events_def mfa_verify_handler_def st1 stub_io_def sample_account_def open_session_def
        persist_or_def persist_def put_session_def Let_def new_active_session_def sample_session_def)
  then show ?thesis by (simp add: st1_def sample_events_def)
qed

theorem authenticated_request_traced_witness:
  "\<exists>t. extract_authenticated_claims sample_api_env 0 (api_run sample_events sample_api_state) (bearer_request t)
      = Inr \<lparr>au_claims = sample_claims, au_roles = [Analyst]\<rparr>
    \<and> session_from sample_events sample_api_state ''s-1'' sample_session"
proof -
  let ?st = "api_run sample_events sample_api_state"
  have empty: "st_pending sample_api_state = []" "st_active sample_api_state = []"
    by (simp_all add: sample_api_state_def)
  have found: "map_of (st_active ?st) ''s-1'' = Some sample_session" by (simp add: sample_run)
  obtain t where t: "extract_authenticated_claims sample_api_env 0 ?st (bearer_request t)
      = Inr \<lparr>au_claims = sample_claims, au_roles = [Analyst]\<rparr>" using bearer_request_passes [OF found] by blast
  have "sc_session_id sample_claims = ''s-1''" by (simp add: sample_claims_def)
  with authenticated_request_traced [OF empty t] found t show ?thesis by auto
qed

definition live_state :: api_state where
  "live_state = sample_api_state\<lparr>st_active := [(''s-1'', sample_session)]\<rparr>"

definition revoked_state :: api_state where
  "revoked_state = sample_api_state\<lparr>st_active := [(''s-1'', sample_session\<lparr>an_revoked := True\<rparr>)]\<rparr>"

lemma sample_wf: "sessions_wf live_state" "sessions_wf revoked_state"
  by (simp_all add: sessions_wf_def live_state_def revoked_state_def sample_api_state_def)

theorem revocation_is_final_witness:
  "\<not> (\<exists>env now r s. extract_authenticated_claims env now
      (api_run [(sample_api_env, OpRefresh (stub_io ''x'') ''r-s-1'')] revoked_state) r = Inr s
    \<and> sc_session_id (au_claims s) = ''s-1'')"
proof -
  have "map_of (st_active revoked_state) ''s-1'' = Some (sample_session\<lparr>an_revoked := True\<rparr>)"
    by (simp add: revoked_state_def)
  from revocation_is_final [OF sample_wf(2) this, of "[(sample_api_env, OpRefresh (stub_io ''x'') ''r-s-1'')]"]
  show ?thesis by auto
qed

text \<open>The user's own session passes before the account is disabled, and never after.\<close>

theorem deprovisioned_user_is_out_witness:
  "(\<exists>t. extract_authenticated_claims sample_api_env 0 live_state (bearer_request t)
      = Inr \<lparr>au_claims = sample_claims, au_roles = [Analyst]\<rparr>)
    \<and> \<not> (\<exists>env now r s. extract_authenticated_claims env now
        (api_run [] (fst (apply_scim_user_patch sample_api_env (UserDisable ''x-1'') live_state))) r = Inr s
      \<and> sc_session_id (au_claims s) = ''s-1'')"
proof (intro conjI)
  have found: "map_of (st_active live_state) ''s-1'' = Some sample_session" by (simp add: live_state_def)
  then show "\<exists>t. extract_authenticated_claims sample_api_env 0 live_state (bearer_request t)
      = Inr \<lparr>au_claims = sample_claims, au_roles = [Analyst]\<rparr>" by (rule bearer_request_passes)
  obtain st' r where r: "apply_scim_user_patch sample_api_env (UserDisable ''x-1'') live_state = (st', r)" by fastforce
  have account: "account_with_external_id live_state ''x-1'' = Some (''ann'', sample_account)"
    by (simp add: account_with_external_id_def live_state_def sample_api_state_def sample_account_def)
  then have "r \<noteq> Panic"
    using r by (auto simp: disable_user_by_external_id_def Let_def persist_or_def persist_def)
  moreover have "sc_user_id (an_claims sample_session) = ua_user_id sample_account"
    by (simp add: sample_session_def sample_claims_def sample_account_def)
  ultimately show "\<not> (\<exists>env now r s. extract_authenticated_claims env now
        (api_run [] (fst (apply_scim_user_patch sample_api_env (UserDisable ''x-1'') live_state))) r = Inr s
      \<and> sc_session_id (au_claims s) = ''s-1'')"
    using deprovisioned_user_is_out [OF sample_wf(1) _ account r _ found, where es = "[]"] r by simp
qed


end
