(* ===== verification/ApiAccounts.thy ===== *)
theory ApiAccounts
  imports ApiRuns
begin

text \<open>
  The directory of accounts over the runs of \<open>ApiRuns\<close>: it stays keyed by user name, with a second
  factor for every account and at most one account per external identifier.  The lemmas at the end
  say what provisioning does to accounts that the directory already has.
\<close>

subsection \<open>A well-formed directory\<close>

definition accounts_ok :: "(string \<times> user_account) list \<Rightarrow> bool" where
  "accounts_ok us =
     (distinct (map fst us)
      \<and> (\<forall>k a. map_of us k = Some a \<longrightarrow> ua_username a = k \<and> ua_mfa_registration a \<noteq> None)
      \<and> (\<forall>k l a b. map_of us k = Some a \<and> map_of us l = Some b \<and> ua_external_id a = ua_external_id b
           \<and> ua_external_id a \<noteq> None \<longrightarrow> k = l))"

lemma accounts_ok_key: "accounts_ok us \<Longrightarrow> map_of us k = Some a \<Longrightarrow> ua_username a = k \<and> ua_mfa_registration a \<noteq> None"
  by (simp add: accounts_ok_def)

lemma accounts_ok_external:
  "accounts_ok us \<Longrightarrow> map_of us k = Some a \<Longrightarrow> map_of us l = Some b \<Longrightarrow> ua_external_id a = Some i \<Longrightarrow>
    ua_external_id b = Some i \<Longrightarrow> k = l"
  unfolding accounts_ok_def by (metis option.distinct(1))

lemma accounts_ok_sub:
  assumes "accounts_ok us" "distinct (map fst us')" "\<And>l a. map_of us' l = Some a \<Longrightarrow> map_of us l = Some a"
  shows "accounts_ok us'"
  using assms(1) unfolding accounts_ok_def
proof (elim conjE, intro conjI allI impI)
  fix k a assume "\<forall>k a. map_of us k = Some a \<longrightarrow> ua_username a = k \<and> ua_mfa_registration a \<noteq> None"
    and "map_of us' k = Some a"
  then show "ua_username a = k" "ua_mfa_registration a \<noteq> None" using assms(3) by blast+
next
  fix k l a b
  assume "map_of us' k = Some a \<and> map_of us' l = Some b \<and> ua_external_id a = ua_external_id b \<and> ua_external_id a \<noteq> None"
  then show "k = l" using assms(3) accounts_ok_external [OF assms(1)] by (metis option.exhaust)
qed (rule assms(2))

lemma accounts_ok_delete:
  assumes "accounts_ok us"
  shows "accounts_ok (AList.delete k us)"
proof (rule accounts_ok_sub [OF assms])
  show "distinct (map fst (AList.delete k us))" using assms by (simp add: accounts_ok_def distinct_delete)
  show "map_of us l = Some a" if "map_of (AList.delete k us) l = Some a" for l a
    using that by (cases "l = k") (simp_all only: delete_conv' fun_upd_apply simp_thms if_True if_False option.distinct)
qed

lemma accounts_ok_update:
  assumes "accounts_ok us" "ua_username a = k" "ua_mfa_registration a \<noteq> None"
    and "\<And>l b i. map_of us l = Some b \<Longrightarrow> ua_external_id b = Some i \<Longrightarrow> ua_external_id a = Some i \<Longrightarrow> l = k"
  shows "accounts_ok (AList.update k a us)"
proof -
  have cases: "l = k \<and> b = a \<or> map_of us l = Some b" if "map_of (AList.update k a us) l = Some b" for l b
    using that by (auto simp: update_conv split: if_splits)
  show ?thesis
    unfolding accounts_ok_def
  proof (intro conjI allI impI)
    show "distinct (map fst (AList.update k a us))" using assms(1) by (simp add: accounts_ok_def distinct_update)
    show "ua_username b = l" "ua_mfa_registration b \<noteq> None" if "map_of (AList.update k a us) l = Some b" for l b
      using cases [OF that] assms(1-3) by (auto dest: accounts_ok_key)
    fix l m b c
    assume "map_of (AList.update k a us) l = Some b \<and> map_of (AList.update k a us) m = Some c
      \<and> ua_external_id b = ua_external_id c \<and> ua_external_id b \<noteq> None"
    then show "l = m"
      using cases [of l b] cases [of m c] assms(4) accounts_ok_external [OF assms(1)]
      by (metis option.exhaust)
  qed
qed

lemma account_with_external_found:
  assumes "accounts_ok (st_users st)" "account_with_external_id st i = Some (k, a)"
  shows "map_of (st_users st) k = Some a" "ua_external_id a = Some i" "ua_username a = k" "ua_mfa_registration a \<noteq> None"
proof -
  have "find (\<lambda>e. ua_external_id (snd e) = Some i) (st_users st) = Some (k, a)"
    using assms(2) by (simp add: account_with_external_id_def)
  with assms(1) find_distinct find_holds have "map_of (st_users st) k = Some a \<and> ua_external_id a = Some i"
    by (fastforce simp: accounts_ok_def)
  then show "map_of (st_users st) k = Some a" "ua_external_id a = Some i" by simp_all
  with assms(1) show "ua_username a = k" "ua_mfa_registration a \<noteq> None" by (auto dest: accounts_ok_key)
qed

lemma account_without_external:
  assumes "account_with_external_id st i = None" "map_of (st_users st) l = Some b"
  shows "ua_external_id b \<noteq> Some i"
  using assms map_of_SomeD [OF assms(2)] by (force simp: account_with_external_id_def find_None_iff)

text \<open>Without the account that held an identifier, nobody holds it.\<close>

lemma deleted_external:
  assumes "accounts_ok (st_users st)" "account_with_external_id st i = Some (k, a)"
    and "map_of (AList.delete k (st_users st)) l = Some b"
  shows "ua_external_id b \<noteq> Some i"
  using account_with_external_found(1,2) [OF assms(1,2)] assms accounts_ok_external [OF assms(1)]
  by (auto simp: delete_conv' split: if_splits)

subsection \<open>Every handler keeps it\<close>

lemma users_after_persist:
  assumes "persist_or env m st (\<lambda>st. (st, r)) = (st', r')"
  shows "st_users st' = st_users st"
proof -
  have "st' = fst (persist_or env m st (\<lambda>st. (st, r)))" using assms by simp
  then show ?thesis by (simp add: fst_persist_or)
qed

lemma revoke_users [simp]:
  "st_users (revoke_sessions_for_user uid st) = st_users st" "st_users (revoke_if_inactive a st) = st_users st"
  by (simp_all add: revoke_sessions_for_user_def revoke_if_inactive_def)

lemma upsert_accounts_ok:
  assumes "accounts_ok (st_users st)"
  shows "accounts_ok (st_users (fst (upsert_user_account env a st)))"
proof -
  let ?prev = "Option.bind (ua_external_id a) (account_with_external_id st)"
  let ?us = "case ?prev of None \<Rightarrow> st_users st | Some (k, _) \<Rightarrow> AList.delete k (st_users st)"
  have base: "accounts_ok ?us"
    using assms by (auto intro: accounts_ok_delete split: option.splits)
  have fresh: "ua_external_id b \<noteq> Some i"
    if "map_of ?us l = Some b" "ua_external_id a = Some i" for l b i
    using that account_without_external [of st i l b] deleted_external [OF assms, of i _ _ l b]
    by (auto split: option.splits)
  have boot: "ua_username b = ua_username c \<and> ua_external_id b = ua_external_id c \<and> ua_mfa_registration b \<noteq> None"
    if "bootstrap_user_account env c = Some b" for b c
    using that by (auto simp: bootstrap_user_account_def split: if_splits)
  have "accounts_ok (AList.update (ua_username b) b ?us)"
    if "ua_username b = ua_username a" "ua_external_id b = ua_external_id a" "ua_mfa_registration b \<noteq> None" for b
    by (rule accounts_ok_update [OF base refl]) (use that fresh in auto)
  with base boot show ?thesis
    by (auto simp: upsert_user_account_def Let_def fst_persist_or split: option.splits)
qed

lemma patched_account_fields [simp]:
  "ua_external_id (patched_account c a) = ua_external_id a"
  "ua_mfa_registration (patched_account c a) = ua_mfa_registration a"
  by (simp_all add: patched_account_def Let_def split: option.splits)

lemma replaced_accounts_ok:
  assumes "accounts_ok (st_users st)" "account_with_external_id st i = Some (k, a)"
    and "ua_external_id b = ua_external_id a" "ua_mfa_registration b = ua_mfa_registration a"
  shows "accounts_ok (AList.update (ua_username b) b (AList.delete k (st_users st)))"
proof (rule accounts_ok_update [OF accounts_ok_delete [OF assms(1)] refl])
  note found = account_with_external_found [OF assms(1,2)]
  show "ua_mfa_registration b \<noteq> None" using assms(4) found(4) by simp
  show "l = ua_username b"
    if "map_of (AList.delete k (st_users st)) l = Some c" "ua_external_id c = Some j" "ua_external_id b = Some j" for l c j
    using deleted_external [OF assms(1,2) that(1)] that(2,3) assms(3) found(2) by simp
qed

lemma disabled_accounts_ok:
  assumes "accounts_ok (st_users st)" "account_with_external_id st i = Some (k, a)"
  shows "accounts_ok (AList.update k (a\<lparr>ua_active := False\<rparr>) (st_users st))"
proof (rule accounts_ok_update [OF assms(1)])
  note found = account_with_external_found [OF assms]
  show "ua_username (a\<lparr>ua_active := False\<rparr>) = k" "ua_mfa_registration (a\<lparr>ua_active := False\<rparr>) \<noteq> None"
    using found by simp_all
  show "l = k" if "map_of (st_users st) l = Some b" "ua_external_id b = Some j"
    "ua_external_id (a\<lparr>ua_active := False\<rparr>) = Some j" for l b j
    using accounts_ok_external [OF assms(1) that(1) found(1) that(2)] that(3) by simp
qed

lemma user_patch_accounts_ok:
  assumes "accounts_ok (st_users st)" "apply_scim_user_patch env p st = (st', r)"
  shows "accounts_ok (st_users st')"
proof (cases p)
  case (UserUpsert u)
  show ?thesis
  proof (cases "account_from_scim_user env u")
    case (Some a)
    obtain st1 r1 where r: "upsert_user_account env a st = (st1, r1)" by fastforce
    with upsert_accounts_ok [OF assms(1), of env a] assms(2) show ?thesis
      by (cases r1) (simp_all add: UserUpsert Some)
  qed (use assms UserUpsert in simp)
next
  case (UserPatch i c)
  with assms show ?thesis
    by (auto simp: patch_user_by_external_id_def Let_def replaced_accounts_ok dest!: users_after_persist
        split: option.splits)
next
  case (UserDisable i)
  with assms show ?thesis
    by (auto simp: disable_user_by_external_id_def Let_def disabled_accounts_ok dest!: users_after_persist
        split: option.splits)
next
  case (UserDelete i)
  with assms show ?thesis
    by (auto simp: remove_user_by_external_id_def accounts_ok_delete dest!: users_after_persist split: option.splits)
qed

lemma group_patch_users:
  "apply_scim_group_patch env p st = (st', r) \<Longrightarrow> st_users st' = st_users st"
  by (cases p)
    (auto simp: change_scim_group_def Let_def dest!: users_after_persist split: option.splits prod.splits)

lemma patches_keep:
  assumes "\<And>p st st' r. P (st_users st) \<Longrightarrow> f p st = (st', r) \<Longrightarrow> P (st_users st')"
  shows "P (st_users st) \<Longrightarrow> apply_patches f ps st = (st', r) \<Longrightarrow> P (st_users st')"
proof (induction ps arbitrary: st)
  case (Cons p ps)
  obtain st1 r1 where r1: "f p st = (st1, r1)" by fastforce
  with assms [OF Cons.prems(1)] have "P (st_users st1)" by blast
  with Cons r1 show ?case by (cases r1) auto
qed simp

lemma sync_plan_accounts_ok:
  assumes "accounts_ok (st_users st)" "apply_scim_sync_plan env plan st = (st', r)"
  shows "accounts_ok (st_users st')"
proof -
  obtain st1 r1 where r1: "apply_patches (apply_scim_group_patch env) (sp_group_patches plan) st = (st1, r1)" by fastforce
  obtain st2 r2 where r2: "apply_patches (apply_scim_user_patch env) (sp_user_patches plan) st1 = (st2, r2)" by fastforce
  have ok1: "accounts_ok (st_users st1)"
    by (rule patches_keep [where P = accounts_ok, OF _ assms(1) r1]) (metis group_patch_users)
  have ok2: "accounts_ok (st_users st2)"
    by (rule patches_keep [where P = accounts_ok, OF _ ok1 r2]) (rule user_patch_accounts_ok)
  show ?thesis
    using assms(2) ok1 ok2 by (cases r1; cases r2) (auto simp: apply_scim_sync_plan_def r1 r2 dest!: users_after_persist)
qed

lemma provider_sync_accounts_ok:
  "accounts_ok (st_users st) \<Longrightarrow> scim_provider_sync_handler env h rq st = Some (st', r) \<Longrightarrow> accounts_ok (st_users st')"
  using provider_sync_cases [of env h rq st st' r] sync_plan_accounts_ok by blast

lemma audit_users [simp]:
  "st_users (append_login_audit u t r w st) = st_users st"
  "st_users (append_request_audit s p ac r res w st) = st_users st"
  by (simp_all add: append_login_audit_def append_request_audit_def audit_append_def)

lemma put_session_users [simp]: "st_users (put_session sid a st) = st_users st"
  by (simp add: put_session_def)

lemma issue_pair_users [simp]: "st_users (fst (issue_pair env m sid a st)) = st_users st"
  by (simp add: issue_pair_def Let_def fst_persist_or split: sum.splits)

lemma open_pending_users [simp]:
  "st_users (fst (open_pending_session env io a binding src reason m why label st)) = st_users st"
  by (simp add: open_pending_session_def Let_def fst_persist_or split: option.splits)

lemma open_session_users [simp]: "st_users (fst (open_session env io p st)) = st_users st"
  by (simp add: open_session_def Let_def fst_persist_or split: sum.splits)

lemma posture_users:
  "apply_device_posture_assessment env io rq st = (st', r) \<Longrightarrow> st_users st' = st_users st"
  by (auto simp: apply_device_posture_assessment_def Let_def split: option.splits adaptive_response.splits)

lemma session_handlers_keep_users:
  "st_users (fst (login_handler env io h lrq st)) = st_users st"
  "st_users (fst (mfa_verify_handler env io mrq st)) = st_users st"
  "st_users (fst (device_posture_handler env io drq st)) = st_users st"
  "st_users (fst (step_up_verify_handler env io urq st)) = st_users st"
  "st_users (fst (refresh_handler env io t st)) = st_users st"
  "st_users (fst (logout_handler env t st)) = st_users st"
  "st_users (fst (tenant_context_middleware env io r st)) = st_users st"
  by (auto simp: login_handler_def mfa_verify_handler_def device_posture_handler_def step_up_verify_handler_def
      refresh_handler_def logout_handler_def tenant_context_middleware_def persist_def fst_persist_or Let_def
      dest: posture_users split: option.splits sum.splits prod.splits)

lemma sso_accounts_ok:
  assumes "accounts_ok (st_users st)"
  shows "accounts_ok (st_users (fst (sso_callback_handler env io h rq st)))"
proof (cases "parse_sso_protocol (xc_protocol rq)")
  case (Some proto)
  show ?thesis
  proof (cases "sso_exchange_code (av_sso_env env) (av_sso env) proto (xc_code rq) (av_redirect_url env)")
    case (Inr c)
    obtain st1 r where r: "account_for_claims env c st = (st1, r)" by fastforce
    have "accounts_ok (st_users st1)"
    proof (cases "lookup_user_by_username st (sl_username c)")
      case None
      show ?thesis
      proof (cases "account_from_sso_claims env c")
        case (Some a)
        obtain st2 r2 where "upsert_user_account env a st = (st2, r2)" by fastforce
        with upsert_accounts_ok [OF assms, of env a] r None Some show ?thesis
          by (cases r2) (auto simp: account_for_claims_def)
      qed (use assms r None in \<open>simp add: account_for_claims_def\<close>)
    qed (use assms r in \<open>simp add: account_for_claims_def\<close>)
    then show ?thesis by (cases r) (simp_all add: sso_callback_handler_def Some Inr r)
  qed (use assms in \<open>simp add: sso_callback_handler_def Some\<close>)
qed (use assms in \<open>simp add: sso_callback_handler_def\<close>)

lemma scim_handlers_accounts_ok:
  assumes "accounts_ok (st_users st)"
  shows "accounts_ok (st_users (fst (scim_user_sync_handler env h p st)))"
    "accounts_ok (st_users (fst (scim_group_sync_handler env h g st)))"
proof -
  obtain st1 r1 where p: "apply_scim_user_patch env p st = (st1, r1)" by fastforce
  obtain st2 r2 where g: "apply_scim_group_patch env g st = (st2, r2)" by fastforce
  show "accounts_ok (st_users (fst (scim_user_sync_handler env h p st)))"
    using assms user_patch_accounts_ok [OF assms p] by (simp add: scim_user_sync_handler_def p)
  show "accounts_ok (st_users (fst (scim_group_sync_handler env h g st)))"
    using assms group_patch_users [OF g] by (simp add: scim_group_sync_handler_def g)
qed

lemma api_step_accounts_ok: "accounts_ok (st_users st) \<Longrightarrow> accounts_ok (st_users (api_step env op st))"
  by (cases op)
    (auto simp: session_handlers_keep_users scim_handlers_accounts_ok sso_accounts_ok
      dest: provider_sync_accounts_ok split: option.splits)

text \<open>
  C8. Whatever logins, callbacks and provisioning do, successful or not, the directory stays a map
  from user names to accounts of those names, each with a second factor and no two with the same
  external identifier.
\<close>

theorem accounts_stay_well_formed:
  "accounts_ok (st_users st) \<Longrightarrow> accounts_ok (st_users (api_run es st))"
  by (induction es st rule: api_run.induct) (simp_all add: api_step_accounts_ok)

theorem accounts_stay_well_formed_witness: "accounts_ok (st_users (api_run sample_events sample_api_state))"
proof -
  have "accounts_ok (st_users sample_api_state)"
    by (auto simp: accounts_ok_def sample_api_state_def sample_account_def split: if_splits)
  then show ?thesis by (rule accounts_stay_well_formed)
qed

lemma hydrate_registers:
  "hydrate_user_directory env us = Some us' \<Longrightarrow>
    map fst us' = map fst us \<and> list_all (\<lambda>e. ua_mfa_registration (snd e) \<noteq> None) us'"
  by (induction us arbitrary: us')
    (auto simp: bootstrap_user_account_def split: if_splits Option.bind_splits)

subsection \<open>Provisioning and existing accounts\<close>

text \<open>
  A new role changes the method an account is meant to use but not its second factor: a user who
  becomes an administrator goes on with one-time codes.
\<close>

lemma promoted_account_keeps_factor:
  assumes "account_with_external_id st i = Some (k, p)" "ua_external_id a = Some i" "ua_mfa_registration p = Some r"
  shows "\<exists>b. lookup_user_by_username (fst (upsert_user_account env a st)) (ua_username a) = Some b
    \<and> ua_mfa_registration b = Some r \<and> ua_mfa_method b = ua_mfa_method a \<and> ua_roles b = ua_roles a"
  using assms
  by (simp add: upsert_user_account_def bootstrap_user_account_def lookup_user_by_username_def Let_def fst_persist_or
      update_conv)

text \<open>Provisioning a user replaces the account that has the name, whoever made it.\<close>

lemma provisioning_replaces_account:
  assumes "account_with_external_id st (us_external_id u) = None" "account_from_scim_user env u = Some a"
  shows "lookup_user_by_username (fst (apply_scim_user_patch env (UserUpsert u) st)) (us_user_name u) = Some a"
proof -
  have a: "ua_username a = us_user_name u" "ua_external_id a = Some (us_external_id u)" "ua_mfa_registration a \<noteq> None"
    using assms(2) by (auto simp: account_from_scim_user_def bootstrap_user_account_def Let_def)
  obtain st1 r where r: "upsert_user_account env a st = (st1, r)" by fastforce
  then have "st1 = fst (upsert_user_account env a st)" by simp
  then have "map_of (st_users st1) (us_user_name u) = Some a"
    using assms(1) a by (simp add: upsert_user_account_def bootstrap_user_account_def Let_def fst_persist_or update_conv)
  with r assms(2) show ?thesis by (cases r) (simp_all add: lookup_user_by_username_def)
qed

text \<open>A group of project administrators makes system administrators.\<close>

lemma contains_project_admin:
  assumes "str_contains g ''project-admin''"
  shows "str_contains g ''admin''"
proof -
  obtain a b where "g = a @ ''project-admin'' @ b" using str_contains_split [OF assms] by blast
  then have "g = (a @ ''project-'') @ ''admin'' @ b" by simp
  then show ?thesis by (simp only: str_contains_infix)
qed

lemma roles_step_admin:
  "(ProjectAdmin \<in> set roles \<longrightarrow> SystemAdmin \<in> set roles) \<Longrightarrow>
    ProjectAdmin \<in> set (roles_step roles g) \<longrightarrow> SystemAdmin \<in> set (roles_step roles g)"
  using contains_project_admin by (auto simp: roles_step_def Let_def)

lemma project_admins_are_system_admins:
  "ProjectAdmin \<in> set (roles_from_group_ids groups) \<Longrightarrow> SystemAdmin \<in> set (roles_from_group_ids groups)"
proof -
  have "ProjectAdmin \<in> set (foldl roles_step rs gs) \<longrightarrow> SystemAdmin \<in> set (foldl roles_step rs gs)"
    if "ProjectAdmin \<in> set rs \<longrightarrow> SystemAdmin \<in> set rs" for rs gs
    using that by (induction gs arbitrary: rs) (simp_all add: roles_step_admin)
  from this [of "[]" groups]
  show "ProjectAdmin \<in> set (roles_from_group_ids groups) \<Longrightarrow> SystemAdmin \<in> set (roles_from_group_ids groups)"
    by (auto simp: roles_from_group_ids_def Let_def split: if_splits)
qed

end
