(* ===== verification/UebaRules.thy ===== *)
theory UebaRules
  imports Complex_Main AccessPolicy AuditChain
begin

text \<open>
  The rules of behaviour analytics, \<open>sdqp-ueba\<close>: mitigation, thresholds, patterns, the versions of
  a rule and their lifecycle.  An \<open>f64\<close> is a rational number, or \<open>None\<close> where it is not finite;
  its rounding errors are left out.  A version is a \<open>u32\<close>, a count a \<open>usize\<close>, both natural numbers
  with the saturation written out.
\<close>

subsection \<open>Rules and mitigation\<close>

datatype ueba_rule =
    HighFrequencyQuery | ExportSpike | UnauthorizedQueryBurst | AfterHoursAccess
  | HiddenChannelDns | HiddenChannelHttp

fun ueba_rule_id :: "ueba_rule \<Rightarrow> string" where
  "ueba_rule_id HighFrequencyQuery = ''high_frequency_query''"
| "ueba_rule_id ExportSpike = ''export_spike''"
| "ueba_rule_id UnauthorizedQueryBurst = ''unauthorized_query_burst''"
| "ueba_rule_id AfterHoursAccess = ''after_hours_access''"
| "ueba_rule_id HiddenChannelDns = ''hidden_channel_dns''"
| "ueba_rule_id HiddenChannelHttp = ''hidden_channel_http''"

datatype mitigation_action = Observe | StepUp | SuspendPermissions | Terminate

fun mitigation_severity :: "mitigation_action \<Rightarrow> nat" where
  "mitigation_severity Observe = 0"
| "mitigation_severity StepUp = 1"
| "mitigation_severity SuspendPermissions = 2"
| "mitigation_severity Terminate = 3"

definition mitigation_from_score :: "int \<Rightarrow> mitigation_action" where
  "mitigation_from_score score =
     (case for_score score of
        AllowAccess \<Rightarrow> Observe
      | StepUpAuth \<Rightarrow> StepUp
      | TerminateSession \<Rightarrow> if score < 85 then SuspendPermissions else Terminate)"

datatype ueba_rule_status = UebaDraft | UebaActive | UebaDisabled | UebaRetired

definition is_enabled :: "ueba_rule_status \<Rightarrow> bool" where
  "is_enabled s = (s = UebaActive)"

datatype rule_lifecycle_state =
    NoVersions | DraftOnly | StateActive | StateDisabled | StateRetired | ConflictingActiveVersions

datatype rule_lifecycle_action = ActCreateDraft | ActActivate | ActDisable | ActEnable | ActRetire

record rule_state_snapshot =
  rs_rule_id :: string
  rs_rule :: ueba_rule
  rs_latest_version :: "nat option"
  rs_active_version :: "nat option"
  rs_draft_versions :: "nat list"
  rs_disabled_versions :: "nat list"
  rs_retired_versions :: "nat list"
  rs_lifecycle_state :: rule_lifecycle_state

record rule_transition =
  rt_rule_id :: string
  rt_action :: rule_lifecycle_action
  rt_version :: nat
  rt_previous_status :: "ueba_rule_status option"
  rt_next_status :: ueba_rule_status
  rt_active_version_after :: "nat option"
  rt_retired_versions :: "nat list"

subsection \<open>Thresholds and patterns\<close>

type_synonym f64 = "rat option"

definition finite_non_negative :: "f64 \<Rightarrow> f64" where
  "finite_non_negative v = (case v of None \<Rightarrow> None | Some x \<Rightarrow> if 0 \<le> x then Some x else None)"

text \<open>\<open>f64::round\<close>, half away from zero, and to two decimals.\<close>

definition round_away :: "rat \<Rightarrow> int" where
  "round_away x = (if 0 \<le> x then \<lfloor>x + 1/2\<rfloor> else - \<lfloor>1/2 - x\<rfloor>)"

definition round_ratio :: "rat \<Rightarrow> rat" where
  "round_ratio x = of_int (round_away (x * 100)) / 100"

record rule_thresholds =
  th_min_events :: nat
  th_baseline_multiplier :: f64
  th_baseline_offset :: nat
  th_risk_score :: nat
  th_business_hours_start :: "nat option"
  th_business_hours_end :: "nat option"

text \<open>The cast to \<open>usize\<close> saturates, the sum wraps around.\<close>

definition alert_threshold :: "rule_thresholds \<Rightarrow> nat \<Rightarrow> nat" where
  "alert_threshold t baseline =
     (let m = option_or (finite_non_negative (th_baseline_multiplier t)) 1 in
      (min usize_max (nat \<lceil>of_nat baseline * m\<rceil>) + th_baseline_offset t) mod Suc usize_max)"

record rule_pattern =
  rp_any_terms :: "string list"
  rp_all_terms :: "string list"

definition matches_context :: "rule_pattern \<Rightarrow> string \<Rightarrow> bool" where
  "matches_context p context =
     (let context = to_ascii_lowercase context in
      list_all (\<lambda>t. str_contains context (to_ascii_lowercase t)) (rp_all_terms p)
      \<and> (rp_any_terms p = [] \<or> list_ex (\<lambda>t. str_contains context (to_ascii_lowercase t)) (rp_any_terms p)))"

record rule_tuning =
  tu_thresholds :: rule_thresholds
  tu_action_override :: "mitigation_action option"
  tu_pattern :: "rule_pattern option"

record ueba_version =
  rv_version :: nat
  rv_status :: ueba_rule_status
  rv_tuning :: rule_tuning

record rule_definition =
  rd_rule_id :: string
  rd_rule :: ueba_rule
  rd_name :: string
  rd_description :: string
  rd_versions :: "ueba_version list"

datatype rule_error = RuleNotFound | VersionNotFound | InvalidLifecycleTransition

subsection \<open>The default rules\<close>

definition default_rule_definition :: "ueba_rule \<Rightarrow> string \<Rightarrow> string \<Rightarrow> rule_tuning \<Rightarrow> rule_definition" where
  "default_rule_definition r name description t =
     \<lparr>rd_rule_id = ueba_rule_id r, rd_rule = r, rd_name = name, rd_description = description,
      rd_versions = [\<lparr>rv_version = 1, rv_status = UebaActive, rv_tuning = t\<rparr>]\<rparr>"

definition fixed_tuning ::
  "nat \<Rightarrow> rat \<Rightarrow> nat \<Rightarrow> nat \<Rightarrow> (nat \<times> nat) option \<Rightarrow> rule_pattern option \<Rightarrow> rule_tuning" where
  "fixed_tuning least multiplier offset score hours p =
     \<lparr>tu_thresholds = \<lparr>th_min_events = least, th_baseline_multiplier = Some multiplier, th_baseline_offset = offset,
        th_risk_score = score, th_business_hours_start = map_option fst hours,
        th_business_hours_end = map_option snd hours\<rparr>,
      tu_action_override = None, tu_pattern = p\<rparr>"

definition default_rule_set :: "rule_definition list" where
  "default_rule_set =
     [default_rule_definition HighFrequencyQuery ''High frequency query''
        ''Detects successful query volume above a user's calibrated query baseline.''
        (fixed_tuning 5 2 0 58 None None),
      default_rule_definition ExportSpike ''Export spike''
        ''Detects successful export volume above a user's calibrated export baseline.''
        (fixed_tuning 3 1 1 92 None None),
      default_rule_definition UnauthorizedQueryBurst ''Unauthorized query burst''
        ''Detects repeated denied query attempts by the same user.''
        (fixed_tuning 2 0 0 78 None None),
      default_rule_definition AfterHoursAccess ''After-hours access''
        ''Detects successful view activity outside the governed UTC business-hours window.''
        (fixed_tuning 1 0 0 44 (Some (6, 22)) None),
      default_rule_definition HiddenChannelDns ''Hidden channel DNS''
        ''Detects DNS-like covert-channel indicators in audit context.''
        (fixed_tuning 1 0 0 90 None
          (Some \<lparr>rp_any_terms = [''dns://'', '' txt '', ''base32''], rp_all_terms = []\<rparr>)),
      default_rule_definition HiddenChannelHttp ''Hidden channel HTTP''
        ''Detects HTTP-like covert-channel indicators in audit context.''
        (fixed_tuning 1 0 0 88 None
          (Some \<lparr>rp_any_terms = [''beacon'', ''pixel'', ''chunk=''], rp_all_terms = [''http'']\<rparr>))]"

subsection \<open>Versions\<close>

definition find_rule :: "rule_definition list \<Rightarrow> string \<Rightarrow> rule_definition option" where
  "find_rule rules i = find (\<lambda>d. rd_rule_id d = i) rules"

definition find_rule_version :: "rule_definition list \<Rightarrow> string \<Rightarrow> nat \<Rightarrow> ueba_version option" where
  "find_rule_version rules i v =
     Option.bind (find_rule rules i) (\<lambda>d. find (\<lambda>rv. rv_version rv = v) (rd_versions d))"

definition find_active_rule_version :: "rule_definition list \<Rightarrow> string \<Rightarrow> ueba_version option" where
  "find_active_rule_version rules i =
     Option.bind (find_rule rules i) (\<lambda>d. find (\<lambda>rv. is_enabled (rv_status rv)) (rd_versions d))"

definition latest_version :: "rule_definition \<Rightarrow> nat option" where
  "latest_version d =
     (if rd_versions d = [] then None else Some (foldr max (map rv_version (rd_versions d)) 0))"

definition version_max :: nat where
  "version_max = 2 ^ 32 - 1"

definition next_rule_version :: "rule_definition \<Rightarrow> nat" where
  "next_rule_version d = min version_max (Suc (option_or (latest_version d) 0))"

definition versions_with :: "ueba_rule_status \<Rightarrow> rule_definition \<Rightarrow> nat list" where
  "versions_with s d = map rv_version (filter (\<lambda>rv. rv_status rv = s) (rd_versions d))"

definition snapshot_of_rule :: "rule_definition \<Rightarrow> rule_state_snapshot" where
  "snapshot_of_rule d =
     (let active = versions_with UebaActive d in
      \<lparr>rs_rule_id = rd_rule_id d, rs_rule = rd_rule d, rs_latest_version = latest_version d,
       rs_active_version = (case active of [] \<Rightarrow> None | v # _ \<Rightarrow> Some v),
       rs_draft_versions = versions_with UebaDraft d, rs_disabled_versions = versions_with UebaDisabled d,
       rs_retired_versions = versions_with UebaRetired d,
       rs_lifecycle_state =
         (if rd_versions d = [] then NoVersions
          else if 1 < length active then ConflictingActiveVersions
          else if length active = 1 then StateActive
          else if versions_with UebaDisabled d \<noteq> [] then StateDisabled
          else if versions_with UebaDraft d \<noteq> [] then DraftOnly
          else StateRetired)\<rparr>)"

definition summarize_rule_states :: "rule_definition list \<Rightarrow> rule_state_snapshot list" where
  "summarize_rule_states rules = map snapshot_of_rule rules"

subsection \<open>Lifecycle\<close>

definition valid_status_transition :: "ueba_rule_status \<Rightarrow> ueba_rule_status \<Rightarrow> bool" where
  "valid_status_transition previous new =
     (\<not> (previous = UebaRetired \<and> (new = UebaActive \<or> new = UebaDisabled)))"

definition create_rule_draft ::
  "rule_definition list \<Rightarrow> string \<Rightarrow> rule_tuning \<Rightarrow> rule_error + rule_definition list" where
  "create_rule_draft rules i t =
     (case find_rule rules i of
        None \<Rightarrow> Inl RuleNotFound
      | Some d \<Rightarrow> Inr (update_first (\<lambda>d. rd_rule_id d = i)
          (\<lambda>d. d\<lparr>rd_versions := rd_versions d @
             [\<lparr>rv_version = next_rule_version d, rv_status = UebaDraft, rv_tuning = t\<rparr>]\<rparr>) rules))"

text \<open>The versions after one gets a status: a version that is enabled retires the others.\<close>

definition restatus :: "nat \<Rightarrow> ueba_rule_status \<Rightarrow> ueba_version \<Rightarrow> ueba_version" where
  "restatus v s rv =
     (if rv_version rv = v then rv\<lparr>rv_status := s\<rparr>
      else if is_enabled s \<and> is_enabled (rv_status rv) then rv\<lparr>rv_status := UebaRetired\<rparr>
      else rv)"

definition set_rule_version_status_with_transition ::
  "rule_definition list \<Rightarrow> string \<Rightarrow> nat \<Rightarrow> ueba_rule_status \<Rightarrow> rule_lifecycle_action
     \<Rightarrow> rule_error + (rule_definition list \<times> rule_transition)" where
  "set_rule_version_status_with_transition rules i v s action =
     (case find_rule rules i of
        None \<Rightarrow> Inl RuleNotFound
      | Some d \<Rightarrow>
          (case find (\<lambda>rv. rv_version rv = v) (rd_versions d) of
             None \<Rightarrow> Inl VersionNotFound
           | Some rv \<Rightarrow>
               if \<not> valid_status_transition (rv_status rv) s then Inl InvalidLifecycleTransition
               else
                 let d' = d\<lparr>rd_versions := map (restatus v s) (rd_versions d)\<rparr>;
                     retired = map rv_version (filter (\<lambda>other. rv_version other \<noteq> v \<and> is_enabled s
                       \<and> is_enabled (rv_status other)) (rd_versions d)) in
                 Inr (update_first (\<lambda>d. rd_rule_id d = i) (\<lambda>_. d') rules,
                   \<lparr>rt_rule_id = i, rt_action = action, rt_version = v, rt_previous_status = Some (rv_status rv),
                    rt_next_status = s, rt_active_version_after = rs_active_version (snapshot_of_rule d'),
                    rt_retired_versions = retired\<rparr>)))"

definition set_rule_version_status ::
  "rule_definition list \<Rightarrow> string \<Rightarrow> nat \<Rightarrow> ueba_rule_status \<Rightarrow> rule_error + rule_definition list" where
  "set_rule_version_status rules i v s =
     map_sum id fst (set_rule_version_status_with_transition rules i v s ActActivate)"

definition activate_rule_version :: "rule_definition list \<Rightarrow> string \<Rightarrow> nat \<Rightarrow> rule_error + rule_definition list" where
  "activate_rule_version rules i v = set_rule_version_status rules i v UebaActive"

definition retire_rule_version :: "rule_definition list \<Rightarrow> string \<Rightarrow> nat \<Rightarrow> rule_error + rule_definition list" where
  "retire_rule_version rules i v = set_rule_version_status rules i v UebaRetired"

definition disable_rule_version :: "rule_definition list \<Rightarrow> string \<Rightarrow> nat \<Rightarrow> rule_error + rule_definition list" where
  "disable_rule_version rules i v = set_rule_version_status rules i v UebaDisabled"

definition enable_rule_version :: "rule_definition list \<Rightarrow> string \<Rightarrow> nat \<Rightarrow> rule_error + rule_definition list" where
  "enable_rule_version rules i v = set_rule_version_status rules i v UebaActive"

definition activate_rule_version_with_transition ::
  "rule_definition list \<Rightarrow> string \<Rightarrow> nat \<Rightarrow> rule_error + (rule_definition list \<times> rule_transition)" where
  "activate_rule_version_with_transition rules i v =
     set_rule_version_status_with_transition rules i v UebaActive ActActivate"

definition retire_rule_version_with_transition ::
  "rule_definition list \<Rightarrow> string \<Rightarrow> nat \<Rightarrow> rule_error + (rule_definition list \<times> rule_transition)" where
  "retire_rule_version_with_transition rules i v =
     set_rule_version_status_with_transition rules i v UebaRetired ActRetire"

definition disable_rule_version_with_transition ::
  "rule_definition list \<Rightarrow> string \<Rightarrow> nat \<Rightarrow> rule_error + (rule_definition list \<times> rule_transition)" where
  "disable_rule_version_with_transition rules i v =
     set_rule_version_status_with_transition rules i v UebaDisabled ActDisable"

definition enable_rule_version_with_transition ::
  "rule_definition list \<Rightarrow> string \<Rightarrow> nat \<Rightarrow> rule_error + (rule_definition list \<times> rule_transition)" where
  "enable_rule_version_with_transition rules i v =
     set_rule_version_status_with_transition rules i v UebaActive ActEnable"

definition tune_rule_version ::
  "rule_definition list \<Rightarrow> string \<Rightarrow> nat \<Rightarrow> rule_tuning \<Rightarrow> rule_error + rule_definition list" where
  "tune_rule_version rules i source t =
     (case find_rule_version rules i source of
        None \<Rightarrow> Inl VersionNotFound
      | Some _ \<Rightarrow> create_rule_draft rules i t)"

text \<open>What \<open>apply_tuning_proposal\<close> reads of a proposal: the rule, its base version and the tuning.\<close>

definition apply_tuning ::
  "rule_definition list \<Rightarrow> string \<Rightarrow> nat \<Rightarrow> rule_tuning \<Rightarrow> rule_error + rule_definition list" where
  "apply_tuning rules i base t =
     (case find_rule rules i of
        None \<Rightarrow> Inl RuleNotFound
      | Some d \<Rightarrow>
          if \<not> list_ex (\<lambda>rv. rv_version rv = base) (rd_versions d) then Inl VersionNotFound
          else res_bind (create_rule_draft rules i t) (\<lambda>drafted.
            activate_rule_version drafted i (next_rule_version d)))"

definition active_rule_versions :: "rule_definition list \<Rightarrow> (rule_definition \<times> ueba_version) list" where
  "active_rule_versions rules =
     concat (map (\<lambda>d. map (Pair d) (filter (\<lambda>rv. is_enabled (rv_status rv)) (rd_versions d))) rules)"

subsection \<open>Runs of rule management\<close>

datatype rule_op =
    RuDraft string rule_tuning | RuActivate string nat | RuRetire string nat | RuDisable string nat
  | RuEnable string nat | RuTune string nat rule_tuning | RuApply string nat rule_tuning

fun rule_result :: "rule_op \<Rightarrow> rule_definition list \<Rightarrow> rule_error + rule_definition list" where
  "rule_result (RuDraft i t) rules = create_rule_draft rules i t"
| "rule_result (RuActivate i v) rules = activate_rule_version rules i v"
| "rule_result (RuRetire i v) rules = retire_rule_version rules i v"
| "rule_result (RuDisable i v) rules = disable_rule_version rules i v"
| "rule_result (RuEnable i v) rules = enable_rule_version rules i v"
| "rule_result (RuTune i v t) rules = tune_rule_version rules i v t"
| "rule_result (RuApply i v t) rules = apply_tuning rules i v t"

fun rule_run :: "rule_op list \<Rightarrow> rule_definition list \<Rightarrow> rule_definition list" where
  "rule_run [] rules = rules"
| "rule_run (op # ops) rules = rule_run ops (case rule_result op rules of Inl _ \<Rightarrow> rules | Inr rules' \<Rightarrow> rules')"

text \<open>
  A rule whose versions have different numbers up to \<open>n\<close>, of which at most one is active; and how a
  rule changes: versions are added, keep number and tuning, and stay retired.
\<close>

definition rule_ok :: "nat \<Rightarrow> rule_definition \<Rightarrow> bool" where
  "rule_ok n d =
     (distinct (map rv_version (rd_versions d)) \<and> list_all (\<lambda>rv. rv_version rv \<le> n) (rd_versions d)
      \<and> length (versions_with UebaActive d) \<le> 1 \<and> rd_versions d \<noteq> [])"

definition version_evolves :: "ueba_version \<Rightarrow> ueba_version \<Rightarrow> bool" where
  "version_evolves a b =
     (rv_version b = rv_version a \<and> rv_tuning b = rv_tuning a
      \<and> (rv_status a = UebaRetired \<longrightarrow> rv_status b = UebaRetired))"

definition rule_evolves :: "rule_definition \<Rightarrow> rule_definition \<Rightarrow> bool" where
  "rule_evolves d e =
     (rd_rule_id e = rd_rule_id d \<and> rd_rule e = rd_rule d \<and> rd_name e = rd_name d
      \<and> rd_description e = rd_description d
      \<and> (\<exists>old new. rd_versions e = old @ new \<and> list_all2 version_evolves (rd_versions d) old))"

lemma version_evolves_refl [simp]: "version_evolves a a"
  by (simp add: version_evolves_def)

lemma version_evolves_trans: "version_evolves a b \<Longrightarrow> version_evolves b c \<Longrightarrow> version_evolves a c"
  by (simp add: version_evolves_def)

lemma rule_evolvesI:
  assumes "list_all2 version_evolves (rd_versions d) vs"
  shows "rule_evolves d (d\<lparr>rd_versions := vs @ new\<rparr>)"
  using assms by (auto simp: rule_evolves_def)

lemma rule_evolves_refl [simp]: "rule_evolves d d"
  using rule_evolvesI [of d "rd_versions d" "[]"] by (simp add: list_all2_refl)

lemma rule_evolves_trans:
  assumes "rule_evolves d e" "rule_evolves e f"
  shows "rule_evolves d f"
proof -
  obtain old new where e: "rd_versions e = old @ new" "list_all2 version_evolves (rd_versions d) old"
    using assms(1) by (auto simp: rule_evolves_def)
  obtain old' new' where f: "rd_versions f = old' @ new'" "list_all2 version_evolves (rd_versions e) old'"
    using assms(2) by (auto simp: rule_evolves_def)
  obtain a b where "old' = a @ b" "list_all2 version_evolves old a"
    using f(2) unfolding e(1) list_all2_append1 by auto
  moreover have "list_all2 version_evolves (rd_versions d) a"
    by (rule list_all2_trans [OF version_evolves_trans e(2) calculation(2)])
  ultimately show ?thesis using assms f(1) by (auto simp: rule_evolves_def)
qed

lemma list_all2_update_first:
  assumes "\<And>x. R x x" "\<And>x. find p xs = Some x \<Longrightarrow> R x (f x)"
  shows "list_all2 R xs (update_first p f xs)"
  using assms(2) by (induction xs) (auto simp: assms(1) list_all2_refl)

lemma list_all_update_first:
  assumes "list_all P xs" "\<And>x. P x \<Longrightarrow> Q x" "\<And>x. find p xs = Some x \<Longrightarrow> P x \<Longrightarrow> Q (f x)"
  shows "list_all Q (update_first p f xs)"
  using assms(1,3) by (induction xs) (auto simp: assms(2) list_all_iff)

lemma foldr_max_ge: "(v :: nat) \<in> set vs \<Longrightarrow> v \<le> foldr max vs 0"
  by (induction vs) auto

lemma foldr_max_le: "(\<And>v. v \<in> set vs \<Longrightarrow> (v :: nat) \<le> n) \<Longrightarrow> foldr max vs 0 \<le> n"
  by (induction vs) auto

lemma next_version_fresh:
  assumes "rule_ok n d" "n < version_max"
  shows "next_rule_version d \<le> Suc n" "v \<in> set (map rv_version (rd_versions d)) \<Longrightarrow> v < next_rule_version d"
proof -
  let ?m = "foldr max (map rv_version (rd_versions d)) 0"
  have m: "?m \<le> n" using assms(1) by (intro foldr_max_le) (auto simp: rule_ok_def list_all_iff)
  have "option_or (latest_version d) 0 = ?m" using assms(1) by (simp add: latest_version_def option_or_def rule_ok_def)
  then have "next_rule_version d = Suc ?m" using m assms(2) by (simp add: next_rule_version_def)
  with m foldr_max_ge [of v "map rv_version (rd_versions d)"]
  show "next_rule_version d \<le> Suc n" "v \<in> set (map rv_version (rd_versions d)) \<Longrightarrow> v < next_rule_version d"
    by auto
qed

lemma draft_ok:
  assumes "rule_ok n d" "n < version_max"
  shows "rule_ok (Suc n) (d\<lparr>rd_versions := rd_versions d @ [\<lparr>rv_version = next_rule_version d, rv_status = UebaDraft, rv_tuning = t\<rparr>]\<rparr>)"
  using next_version_fresh [OF assms] assms(1)
  by (auto simp: rule_ok_def list_all_iff versions_with_def intro: le_SucI)

lemma active_after_restatus:
  "filter (\<lambda>rv. rv_status rv = UebaActive) (map (restatus v UebaActive) vs)
    = map (\<lambda>rv. rv\<lparr>rv_status := UebaActive\<rparr>) (filter (\<lambda>rv. rv_version rv = v) vs)"
  by (induction vs) (auto simp: restatus_def is_enabled_def)

lemma restatus_version [simp]: "rv_version (restatus v s rv) = rv_version rv" "rv_tuning (restatus v s rv) = rv_tuning rv"
  by (simp_all add: restatus_def)

lemma filter_version_le: "distinct (map rv_version vs) \<Longrightarrow> length (filter (\<lambda>rv. rv_version rv = v) vs) \<le> 1"
proof (induction vs)
  case (Cons a vs)
  then show ?case by (auto simp: filter_empty_conv image_iff)
qed simp

lemma restatus_ok:
  assumes "rule_ok n d" "find (\<lambda>rv. rv_version rv = v) (rd_versions d) = Some rv" "s \<noteq> UebaDraft"
  shows "rule_ok n (d\<lparr>rd_versions := map (restatus v s) (rd_versions d)\<rparr>)"
proof -
  have dist: "distinct (map rv_version (rd_versions d))" using assms(1) by (simp add: rule_ok_def)
  have active: "length (filter (\<lambda>rv. rv_status rv = UebaActive) (map (restatus v s) (rd_versions d))) \<le> 1"
  proof (cases "s = UebaActive")
    case True
    with filter_version_le [OF dist] show ?thesis by (simp add: active_after_restatus)
  next
    case False
    have less: "length (filter (\<lambda>rv. rv_status rv = UebaActive) (map (restatus v s) vs))
      \<le> length (filter (\<lambda>rv. rv_status rv = UebaActive) vs)" for vs
      using False by (induction vs) (auto simp: restatus_def is_enabled_def)
    from le_trans [OF less [of "rd_versions d"]] assms(1) show ?thesis by (simp add: rule_ok_def versions_with_def)
  qed
  with assms(1) show ?thesis by (simp add: rule_ok_def list_all_iff versions_with_def comp_def)
qed

lemma restatus_evolves:
  assumes "rule_ok n d" "find (\<lambda>rv. rv_version rv = v) (rd_versions d) = Some rv"
    and "valid_status_transition (rv_status rv) s" "s \<noteq> UebaDraft"
  shows "rule_evolves d (d\<lparr>rd_versions := map (restatus v s) (rd_versions d)\<rparr>)"
proof -
  have rv: "rv \<in> set (rd_versions d)" "rv_version rv = v" using assms(2) by (auto simp: find_Some_iff)
  have "version_evolves a (restatus v s a)" if "a \<in> set (rd_versions d)" for a
  proof (cases "rv_version a = v")
    case True
    have "inj_on rv_version (set (rd_versions d))" using assms(1) by (simp add: rule_ok_def distinct_map)
    then have "a = rv" using True rv that by (auto dest: inj_onD)
    then show ?thesis using assms(3,4) by (cases s) (auto simp: version_evolves_def restatus_def valid_status_transition_def)
  next
    case False
    then show ?thesis by (auto simp: version_evolves_def restatus_def)
  qed
  then have "list_all2 version_evolves (rd_versions d) (map (restatus v s) (rd_versions d))"
    by (simp add: list.rel_map list_all2_same)
  from rule_evolvesI [OF this, of "[]"] show ?thesis by simp
qed

definition rules_ok :: "nat \<Rightarrow> rule_definition list \<Rightarrow> bool" where
  "rules_ok n rules = list_all (rule_ok n) rules"

lemma rule_ok_mono: "rule_ok m d \<Longrightarrow> m \<le> n \<Longrightarrow> rule_ok n d"
  by (auto simp: rule_ok_def list_all_iff)

text \<open>One operation adds at most one version and keeps the rules.\<close>

definition rules_step :: "nat \<Rightarrow> rule_definition list \<Rightarrow> rule_definition list \<Rightarrow> bool" where
  "rules_step n rules rules' = (rules_ok (Suc n) rules' \<and> list_all2 rule_evolves rules rules')"

lemma rules_step_refl: "rules_ok n rules \<Longrightarrow> rules_step n rules rules"
  by (auto simp: rules_step_def rules_ok_def list_all_iff list_all2_refl intro: rule_ok_mono)

lemma draft_step:
  assumes "rules_ok n rules" "n < version_max" "create_rule_draft rules i t = Inr rules'"
  shows "rules_step n rules rules'"
proof -
  let ?f = "\<lambda>d. d\<lparr>rd_versions := rd_versions d @ [\<lparr>rv_version = next_rule_version d, rv_status = UebaDraft, rv_tuning = t\<rparr>]\<rparr>"
  have rules': "rules' = update_first (\<lambda>d. rd_rule_id d = i) ?f rules"
    using assms(3) by (simp add: create_rule_draft_def split: option.splits)
  have "rule_evolves d (?f d)" for d by (rule rule_evolvesI) (simp add: list_all2_refl)
  then have "list_all2 rule_evolves rules rules'" unfolding rules' by (rule list_all2_update_first [OF rule_evolves_refl])
  moreover have "rules_ok (Suc n) rules'"
    unfolding rules' rules_ok_def
    by (rule list_all_update_first [OF assms(1) [unfolded rules_ok_def]]) (auto intro: rule_ok_mono draft_ok [OF _ assms(2)])
  ultimately show ?thesis by (simp add: rules_step_def)
qed

lemma status_result:
  assumes "set_rule_version_status rules i v s = Inr rules'"
  obtains d rv where "find_rule rules i = Some d" "find (\<lambda>rv. rv_version rv = v) (rd_versions d) = Some rv"
    "valid_status_transition (rv_status rv) s"
    "rules' = update_first (\<lambda>d. rd_rule_id d = i) (\<lambda>_. d\<lparr>rd_versions := map (restatus v s) (rd_versions d)\<rparr>) rules"
  using assms
  by (auto simp: set_rule_version_status_def set_rule_version_status_with_transition_def Let_def
      split: option.splits if_splits)

lemma status_step:
  assumes "rules_ok n rules" "s \<noteq> UebaDraft" "set_rule_version_status rules i v s = Inr rules'"
  shows "rules_ok n rules' \<and> list_all2 rule_evolves rules rules'"
proof -
  obtain d rv where d: "find_rule rules i = Some d" "find (\<lambda>rv. rv_version rv = v) (rd_versions d) = Some rv"
    "valid_status_transition (rv_status rv) s"
    and rules': "rules' = update_first (\<lambda>d. rd_rule_id d = i)
      (\<lambda>_. d\<lparr>rd_versions := map (restatus v s) (rd_versions d)\<rparr>) rules"
    using status_result [OF assms(3)] .
  have "d \<in> set rules" using d(1) by (auto simp: find_rule_def find_Some_iff)
  then have ok: "rule_ok n d" using assms(1) by (simp add: rules_ok_def list_all_iff)
  have "list_all2 rule_evolves rules rules'"
    unfolding rules'
    by (rule list_all2_update_first)
      (use d restatus_evolves [OF ok d(2,3) assms(2)] in \<open>auto simp: find_rule_def\<close>)
  moreover have "rules_ok n rules'"
    unfolding rules' rules_ok_def
    by (rule list_all_update_first [OF assms(1) [unfolded rules_ok_def]])
      (use restatus_ok [OF ok d(2) assms(2)] in auto)
  ultimately show ?thesis by simp
qed

lemma rules_evolve_trans:
  "list_all2 rule_evolves a b \<Longrightarrow> list_all2 rule_evolves b c \<Longrightarrow> list_all2 rule_evolves a c"
  by (rule list_all2_trans [OF rule_evolves_trans])

lemma status_rules_step:
  "rules_ok n rules \<Longrightarrow> s \<noteq> UebaDraft \<Longrightarrow> set_rule_version_status rules i v s = Inr rules' \<Longrightarrow> rules_step n rules rules'"
  using status_step [of n rules s i v rules'] rules_step_refl [of n rules']
  by (auto simp: rules_step_def)

lemma apply_tuning_step:
  assumes "rules_ok n rules" "n < version_max" "apply_tuning rules i base t = Inr rules'"
  shows "rules_step n rules rules'"
proof -
  obtain d drafted where drafted: "create_rule_draft rules i t = Inr drafted"
    "set_rule_version_status drafted i (next_rule_version d) UebaActive = Inr rules'"
    using assms(3) by (auto simp: apply_tuning_def res_bind_eq_Inr activate_rule_version_def split: option.splits if_splits)
  from draft_step [OF assms(1,2) drafted(1)]
  have "rules_ok (Suc n) drafted" "list_all2 rule_evolves rules drafted" by (simp_all add: rules_step_def)
  with status_step [OF _ _ drafted(2), of "Suc n"] show ?thesis by (auto simp: rules_step_def intro: rules_evolve_trans)
qed

lemma rule_result_step:
  assumes "rules_ok n rules" "n < version_max" "rule_result op rules = Inr rules'"
  shows "rules_step n rules rules'"
  using assms(3)
  by (cases op)
    (auto simp: activate_rule_version_def retire_rule_version_def disable_rule_version_def enable_rule_version_def
      tune_rule_version_def intro: draft_step [OF assms(1,2)] apply_tuning_step [OF assms(1,2)]
      status_rules_step [OF assms(1)] split: option.splits)

lemma rule_run_ok:
  assumes "rules_ok n rules" "n + length ops \<le> version_max"
  shows "rules_ok (n + length ops) (rule_run ops rules) \<and> list_all2 rule_evolves rules (rule_run ops rules)"
  using assms
proof (induction ops arbitrary: n rules)
  case (Cons op ops)
  let ?rules = "case rule_result op rules of Inl _ \<Rightarrow> rules | Inr rules' \<Rightarrow> rules'"
  have "rules_step n rules ?rules"
    using Cons.prems rule_result_step [OF Cons.prems(1), of op] rules_step_refl [OF Cons.prems(1)]
    by (auto split: sum.splits)
  then have step: "rules_ok (Suc n) ?rules" "list_all2 rule_evolves rules ?rules" by (simp_all add: rules_step_def)
  from Cons.IH [OF step(1)] Cons.prems(2) step(2) show ?case by (auto intro: rules_evolve_trans)
qed (simp add: list_all2_refl)

lemma rule_run_append: "rule_run (ops @ ops') rules = rule_run ops' (rule_run ops rules)"
  by (induction ops arbitrary: rules) simp_all

lemma default_rules_ok: "rules_ok 1 default_rule_set"
  by (simp add: rules_ok_def default_rule_set_def rule_ok_def default_rule_definition_def versions_with_def)

lemma ok_state: "rule_ok n d \<Longrightarrow> rs_lifecycle_state (snapshot_of_rule d) \<notin> {NoVersions, ConflictingActiveVersions}"
  by (auto simp: rule_ok_def snapshot_of_rule_def Let_def)

text \<open>
  C29. From the default rules, whatever is drafted, activated, disabled, enabled, retired, tuned or
  applied (fewer than 2^32 times), every rule has at least one version and at most one active
  version, none being possible, so that no rule is reported as conflicting or without versions; and
  versions are only added: each keeps its number and tuning, and a retired one stays retired.
\<close>

theorem one_active_version:
  assumes "length (ops @ ops') < version_max"
  shows "list_all (\<lambda>d. rd_versions d \<noteq> [] \<and> length (filter (\<lambda>rv. rv_status rv = UebaActive) (rd_versions d)) \<le> 1)
      (rule_run ops default_rule_set)
    \<and> list_all (\<lambda>s. rs_lifecycle_state s \<notin> {NoVersions, ConflictingActiveVersions})
      (summarize_rule_states (rule_run ops default_rule_set))
    \<and> list_all2 rule_evolves (rule_run ops default_rule_set) (rule_run (ops @ ops') default_rule_set)"
proof -
  have first: "rules_ok (1 + length ops) (rule_run ops default_rule_set)"
    using rule_run_ok [OF default_rules_ok, of ops] assms by simp
  then have evolves: "list_all2 rule_evolves (rule_run ops default_rule_set) (rule_run ops' (rule_run ops default_rule_set))"
    using rule_run_ok [OF first, of ops'] assms by simp
  have ok: "rule_ok (1 + length ops) d" if "d \<in> set (rule_run ops default_rule_set)" for d
    using first that by (simp add: rules_ok_def list_all_iff)
  have "list_all (\<lambda>d. rd_versions d \<noteq> [] \<and> length (filter (\<lambda>rv. rv_status rv = UebaActive) (rd_versions d)) \<le> 1)
      (rule_run ops default_rule_set)"
    using ok by (auto simp: list_all_iff rule_ok_def versions_with_def)
  moreover have "list_all (\<lambda>s. rs_lifecycle_state s \<notin> {NoVersions, ConflictingActiveVersions})
      (summarize_rule_states (rule_run ops default_rule_set))"
    using ok ok_state by (fastforce simp: summarize_rule_states_def list_all_iff)
  ultimately show ?thesis using evolves by (simp only: rule_run_append)
qed

lemma one_active_example_length: "length ([RuDraft i t, RuEnable i 2] @ [RuRetire i 2]) < version_max"
  by (simp add: version_max_def)

theorem one_active_version_witness:
  "list_all2 rule_evolves
    (rule_run [RuDraft ''export_spike'' (fixed_tuning 9 1 1 95 None None), RuEnable ''export_spike'' 2] default_rule_set)
    (rule_run ([RuDraft ''export_spike'' (fixed_tuning 9 1 1 95 None None), RuEnable ''export_spike'' 2]
      @ [RuRetire ''export_spike'' 2]) default_rule_set)"
  by (rule conjunct2 [OF conjunct2 [OF one_active_version [OF one_active_example_length]]])

text \<open>Activating a version retires the one it replaces, which no operation brings back.\<close>

lemma retired_is_not_activated:
  assumes "find_rule_version rules i v = Some rv" "rv_status rv = UebaRetired"
  shows "activate_rule_version rules i v = Inl InvalidLifecycleTransition"
    "enable_rule_version rules i v = Inl InvalidLifecycleTransition"
  using assms
  by (auto simp: find_rule_version_def activate_rule_version_def enable_rule_version_def set_rule_version_status_def
      set_rule_version_status_with_transition_def valid_status_transition_def bind_eq_Some_conv)

lemma applied_tuning_is_active:
  assumes "rules_ok n rules" "n < version_max" "apply_tuning rules i base t = Inr rules'" "find_rule rules i = Some d"
  shows "\<exists>rv. find_active_rule_version rules' i = Some rv \<and> rv_version rv = next_rule_version d \<and> rv_tuning rv = t"
proof -
  let ?v = "next_rule_version d"
  let ?d = "d\<lparr>rd_versions := rd_versions d @ [\<lparr>rv_version = ?v, rv_status = UebaDraft, rv_tuning = t\<rparr>]\<rparr>"
  have d: "rd_rule_id d = i" "d \<in> set rules" using assms(4) by (auto simp: find_rule_def find_Some_iff)
  have found: "find_rule (update_first (\<lambda>d. rd_rule_id d = i) f rules) i = Some (f d)" if "rd_rule_id (f d) = i" for f
    using assms(4) that unfolding find_rule_def by (induction rules) (auto split: if_splits)
  obtain drafted where drafted: "create_rule_draft rules i t = Inr drafted"
    "set_rule_version_status drafted i ?v UebaActive = Inr rules'"
    using assms(3,4) by (auto simp: apply_tuning_def res_bind_eq_Inr activate_rule_version_def split: if_splits)
  have "find_rule drafted i = Some ?d"
    using drafted(1) assms(4) d(1)
      found [of "\<lambda>d. d\<lparr>rd_versions := rd_versions d @
        [\<lparr>rv_version = next_rule_version d, rv_status = UebaDraft, rv_tuning = t\<rparr>]\<rparr>"]
    by (simp add: create_rule_draft_def)
  moreover have fresh: "rv_version rv < ?v" if "rv \<in> set (rd_versions d)" for rv
    using next_version_fresh(2) [of n d "rv_version rv"] assms(1,2) d(2) that by (auto simp: rules_ok_def list_all_iff)
  obtain d0 where d0: "find_rule drafted i = Some d0"
    "rules' = update_first (\<lambda>d. rd_rule_id d = i) (\<lambda>_. d0\<lparr>rd_versions := map (restatus ?v UebaActive) (rd_versions d0)\<rparr>) drafted"
    using status_result [OF drafted(2)] by metis
  ultimately have rules': "rules' = update_first (\<lambda>d. rd_rule_id d = i)
      (\<lambda>_. ?d\<lparr>rd_versions := map (restatus ?v UebaActive) (rd_versions ?d)\<rparr>) drafted" by simp
  have "find_rule rules' i = Some (?d\<lparr>rd_versions := map (restatus ?v UebaActive) (rd_versions ?d)\<rparr>)"
    using \<open>find_rule drafted i = Some ?d\<close> d(1) unfolding rules' find_rule_def
    by (induction drafted) (auto split: if_splits)
  moreover have "find (\<lambda>rv. is_enabled (rv_status rv)) (map (restatus ?v UebaActive) vs @ [x]) = Some x"
    if "\<forall>rv \<in> set vs. rv_version rv < ?v" "rv_status x = UebaActive" for vs x
    using that by (induction vs) (auto simp: restatus_def is_enabled_def)
  ultimately show ?thesis using fresh by (simp add: find_active_rule_version_def restatus_def)
qed

end
