(* ===== verification/UebaReplay.thy ===== *)
theory UebaReplay
  imports UebaRules "HOL-Library.Multiset"
begin

text \<open>
  Behaviour analytics over audit events, \<open>sdqp-ueba\<close>: baselines, alerts, the replay of rules and the
  proposals and calibration made from it.  A hash map is a list of pairs in the order in which its
  keys came.  The code walks through the users in an arbitrary order, another one each time, so the
  evaluation and the replay take the order of their walk as an argument.  The identifiers of alerts are drawn at random, so they are an argument.
\<close>

subsection \<open>Baselines\<close>

record user_baseline =
  ub_query_count :: nat
  ub_export_count :: nat
  ub_denied_count :: nat

definition no_baseline :: user_baseline where
  "no_baseline = \<lparr>ub_query_count = 0, ub_export_count = 0, ub_denied_count = 0\<rparr>"

definition update_activity_counts :: "audit_event \<Rightarrow> user_baseline \<Rightarrow> user_baseline" where
  "update_activity_counts e b =
     (if ev_action e = ActQuery \<and> ev_result e = ResSuccess then b\<lparr>ub_query_count := ub_query_count b + 1\<rparr>
      else if ev_action e = ActExport \<and> ev_result e = ResSuccess then b\<lparr>ub_export_count := ub_export_count b + 1\<rparr>
      else if ev_result e = ResDenied then b\<lparr>ub_denied_count := ub_denied_count b + 1\<rparr>
      else b)"

definition normalize_baseline :: "user_baseline \<Rightarrow> user_baseline" where
  "normalize_baseline b =
     \<lparr>ub_query_count = max 1 (ub_query_count b div 2), ub_export_count = ub_export_count b div 2,
      ub_denied_count = ub_denied_count b div 2\<rparr>"

definition event_user :: "audit_event \<Rightarrow> string" where
  "event_user e = ac_user_id (ev_actor e)"

text \<open>\<open>entry(key).or_default()\<close>, updated in place.\<close>

definition entry_update :: "'k \<Rightarrow> 'v \<Rightarrow> ('v \<Rightarrow> 'v) \<Rightarrow> ('k \<times> 'v) list \<Rightarrow> ('k \<times> 'v) list" where
  "entry_update k d f m = AList.update k (f (option_or (map_of m k) d)) m"

definition build_user_baselines :: "audit_event list \<Rightarrow> (string \<times> user_baseline) list" where
  "build_user_baselines events =
     map (\<lambda>(u, b). (u, normalize_baseline b))
       (foldl (\<lambda>m e. entry_update (event_user e) no_baseline (update_activity_counts e) m) [] events)"

record entity_key =
  ek_entity_type :: string
  ek_entity_id :: string

record entity_baseline = user_baseline +
  eb_distinct_users :: nat

definition normalize_entity_baseline :: "user_baseline \<Rightarrow> nat \<Rightarrow> entity_baseline" where
  "normalize_entity_baseline b users =
     (let n = normalize_baseline b in
      \<lparr>ub_query_count = ub_query_count n, ub_export_count = ub_export_count n, ub_denied_count = ub_denied_count n,
       eb_distinct_users = max users 1\<rparr>)"

text \<open>One event under a key: its counts and its user.\<close>

type_synonym 'k activity = "('k \<times> user_baseline) list \<times> ('k \<times> string list) list"

definition record_activity :: "audit_event \<Rightarrow> 'k activity \<Rightarrow> 'k \<Rightarrow> 'k activity" where
  "record_activity e s k =
     (entry_update k no_baseline (update_activity_counts e) (fst s),
      entry_update k [] (\<lambda>us. push_unique us (event_user e)) (snd s))"

definition finish_activity :: "'k activity \<Rightarrow> ('k \<times> entity_baseline) list" where
  "finish_activity s =
     map (\<lambda>(k, b). (k, normalize_entity_baseline b
       (case map_of (snd s) k of None \<Rightarrow> 0 | Some us \<Rightarrow> length us))) (fst s)"

definition build_role_baselines ::
  "audit_event list \<Rightarrow> (string \<times> string list) list \<Rightarrow> (string \<times> entity_baseline) list" where
  "build_role_baselines events roles_by_user =
     finish_activity (foldl (\<lambda>s e.
       case map_of roles_by_user (event_user e) of
         None \<Rightarrow> s
       | Some roles \<Rightarrow> foldl (record_activity e) s roles) ([], []) events)"

definition entity_of :: "audit_event \<Rightarrow> entity_key" where
  "entity_of e =
     (case tg_project_id (ev_target e) of
        Some p \<Rightarrow> \<lparr>ek_entity_type = ''project'', ek_entity_id = p\<rparr>
      | None \<Rightarrow> \<lparr>ek_entity_type = ''resource'', ek_entity_id = tg_resource_id (ev_target e)\<rparr>)"

definition build_entity_baselines :: "audit_event list \<Rightarrow> (entity_key \<times> entity_baseline) list" where
  "build_entity_baselines events =
     finish_activity (foldl (\<lambda>s e. record_activity e s (entity_of e)) ([], []) events)"

subsection \<open>Alerts\<close>

record ueba_alert =
  al_alert_id :: string
  al_user_id :: string
  al_tenant_id :: string
  al_project_id :: "string option"
  al_rule :: ueba_rule
  al_risk_score :: nat
  al_action :: mitigation_action
  al_evidence :: string

definition events_by_user :: "audit_event list \<Rightarrow> (string \<times> audit_event list) list" where
  "events_by_user events = foldl (\<lambda>m e. entry_update (event_user e) [] (\<lambda>es. es @ [e]) m) [] events"

text \<open>The order in which one iteration over a hash map meets its entries.\<close>

type_synonym visit = "(string \<times> audit_event list) list \<Rightarrow> (string \<times> audit_event list) list"

definition visits_all :: "visit \<Rightarrow> bool" where
  "visits_all visit = (\<forall>m. mset (visit m) = mset m)"

definition last_tenant :: "audit_event list \<Rightarrow> string" where
  "last_tenant es = (if es = [] then ''unknown'' else tg_tenant_id (ev_target (last es)))"

definition last_project :: "audit_event list \<Rightarrow> string option" where
  "last_project es = (if es = [] then None else tg_project_id (ev_target (last es)))"

definition build_alert_with_action ::
  "string \<Rightarrow> audit_event list \<Rightarrow> ueba_rule \<Rightarrow> nat \<Rightarrow> mitigation_action \<Rightarrow> string \<Rightarrow> ueba_alert" where
  "build_alert_with_action u es r score action evidence =
     \<lparr>al_alert_id = [], al_user_id = u, al_tenant_id = last_tenant es, al_project_id = last_project es, al_rule = r,
      al_risk_score = score, al_action = action, al_evidence = evidence\<rparr>"

definition build_alert :: "string \<Rightarrow> audit_event list \<Rightarrow> ueba_rule \<Rightarrow> nat \<Rightarrow> string \<Rightarrow> ueba_alert" where
  "build_alert u es r score evidence =
     build_alert_with_action u es r score (mitigation_from_score (int score)) evidence"

text \<open>The identifiers, in the order in which the alerts are made.\<close>

definition name_alerts :: "(nat \<Rightarrow> string) \<Rightarrow> ueba_alert list \<Rightarrow> ueba_alert list" where
  "name_alerts ulid as = map (\<lambda>(k, a). a\<lparr>al_alert_id := ulid k\<rparr>) (enumerate 0 as)"

definition event_hour :: "audit_event \<Rightarrow> nat" where
  "event_hour e = nat (ev_timestamp e div 3600000000000 mod 24)"

definition count_events :: "action_type \<Rightarrow> action_result \<Rightarrow> audit_event list \<Rightarrow> nat" where
  "count_events a r es = length (filter (\<lambda>e. ev_action e = a \<and> ev_result e = r) es)"

definition dns_pattern :: "string \<Rightarrow> bool" where
  "dns_pattern context =
     (let c = to_ascii_lowercase context in
      str_contains c ''dns://'' \<or> str_contains c '' txt '' \<or> str_contains c ''base32'')"

definition http_pattern :: "string \<Rightarrow> bool" where
  "http_pattern context =
     (let c = to_ascii_lowercase context in
      (str_contains c ''http://'' \<or> str_contains c ''https://'')
      \<and> (str_contains c ''beacon'' \<or> str_contains c ''pixel'' \<or> str_contains c ''chunk=''))"

definition user_alerts :: "(string \<times> user_baseline) list \<Rightarrow> string \<times> audit_event list \<Rightarrow> ueba_alert list" where
  "user_alerts baselines = (\<lambda>(u, es).
     let b = option_or (map_of baselines u) no_baseline;
         queries = count_events ActQuery ResSuccess es;
         exports = count_events ActExport ResSuccess es;
         denied = count_events ActQuery ResDenied es in
     (if 5 \<le> queries \<and> min usize_max (ub_query_count b * 2) < queries
      then [build_alert u es HighFrequencyQuery 58
        (''query count '' @ show_nat queries @ '' exceeds baseline '' @ show_nat (ub_query_count b))] else [])
     @ (if 3 \<le> exports \<and> min usize_max (ub_export_count b + 1) < exports
        then [build_alert u es ExportSpike 92
          (''export count '' @ show_nat exports @ '' exceeds baseline '' @ show_nat (ub_export_count b))] else [])
     @ (if 2 \<le> denied
        then [build_alert u es UnauthorizedQueryBurst 78 (show_nat denied @ '' denied query attempts detected'')] else [])
     @ (if list_ex (\<lambda>e. ev_action e = ActView \<and> ev_result e = ResSuccess
            \<and> \<not> (6 \<le> event_hour e \<and> event_hour e < 22)) es
        then [build_alert u es AfterHoursAccess 44 ''after-hours audit activity detected''] else [])
     @ (if list_ex (\<lambda>e. dns_pattern (ev_context e)) es
        then [build_alert u es HiddenChannelDns 90 ''suspicious dns covert-channel pattern detected''] else [])
     @ (if list_ex (\<lambda>e. http_pattern (ev_context e)) es
        then [build_alert u es HiddenChannelHttp 88 ''suspicious http covert-channel pattern detected''] else []))"

definition evaluate_alerts ::
  "visit \<Rightarrow> (nat \<Rightarrow> string) \<Rightarrow> audit_event list \<Rightarrow> (string \<times> user_baseline) list \<Rightarrow> ueba_alert list" where
  "evaluate_alerts visit ulid events baselines =
     name_alerts ulid (concat (map (user_alerts baselines) (visit (events_by_user events))))"

subsection \<open>What a rule observes\<close>

definition is_inside_business_hours :: "nat \<Rightarrow> nat \<Rightarrow> nat \<Rightarrow> bool" where
  "is_inside_business_hours hour start stop =
     (if start = stop then True
      else if start < stop then start \<le> hour \<and> hour < stop
      else start \<le> hour \<or> hour < stop)"

definition is_outside_business_hours :: "audit_event \<Rightarrow> rule_thresholds \<Rightarrow> bool" where
  "is_outside_business_hours e t =
     (\<not> is_inside_business_hours (event_hour e) (min (option_or (th_business_hours_start t) 6) 23)
        (min (option_or (th_business_hours_end t) 22) 24))"

definition rule_observed_count :: "ueba_rule \<Rightarrow> rule_tuning \<Rightarrow> audit_event list \<Rightarrow> nat" where
  "rule_observed_count r t es =
     (case r of
        HighFrequencyQuery \<Rightarrow> count_events ActQuery ResSuccess es
      | ExportSpike \<Rightarrow> count_events ActExport ResSuccess es
      | UnauthorizedQueryBurst \<Rightarrow> count_events ActQuery ResDenied es
      | AfterHoursAccess \<Rightarrow> length (filter (\<lambda>e. ev_action e = ActView \<and> ev_result e = ResSuccess
          \<and> is_outside_business_hours e (tu_thresholds t)) es)
      | _ \<Rightarrow> (case tu_pattern t of
            None \<Rightarrow> 0
          | Some p \<Rightarrow> length (filter (\<lambda>e. matches_context p (ev_context e)) es)))"

definition baseline_count_for_rule :: "ueba_rule \<Rightarrow> user_baseline \<Rightarrow> nat" where
  "baseline_count_for_rule r b =
     (case r of
        HighFrequencyQuery \<Rightarrow> ub_query_count b
      | ExportSpike \<Rightarrow> ub_export_count b
      | UnauthorizedQueryBurst \<Rightarrow> ub_denied_count b
      | _ \<Rightarrow> 0)"

subsection \<open>Replay\<close>

record replay_hit =
  rh_rule_id :: string
  rh_version :: nat
  rh_rule :: ueba_rule
  rh_user_id :: string
  rh_tenant_id :: string
  rh_project_id :: "string option"
  rh_observed_count :: nat
  rh_baseline_count :: nat
  rh_threshold_count :: nat
  rh_risk_score :: nat
  rh_action :: mitigation_action
  rh_evidence :: string

record rule_accumulator =
  ra_users_evaluated :: nat
  ra_hit_count :: nat
  ra_min_observed :: nat
  ra_max_observed :: nat
  ra_total_observed :: nat
  ra_max_risk_score :: nat
  ra_strongest_action :: "mitigation_action option"

definition accumulator_new :: rule_accumulator where
  "accumulator_new =
     \<lparr>ra_users_evaluated = 0, ra_hit_count = 0, ra_min_observed = usize_max, ra_max_observed = 0,
      ra_total_observed = 0, ra_max_risk_score = 0, ra_strongest_action = None\<rparr>"

definition record_observation :: "nat \<Rightarrow> rule_accumulator \<Rightarrow> rule_accumulator" where
  "record_observation n a =
     a\<lparr>ra_users_evaluated := ra_users_evaluated a + 1, ra_min_observed := min (ra_min_observed a) n,
       ra_max_observed := max (ra_max_observed a) n, ra_total_observed := min usize_max (ra_total_observed a + n)\<rparr>"

definition record_hit :: "nat \<Rightarrow> mitigation_action \<Rightarrow> rule_accumulator \<Rightarrow> rule_accumulator" where
  "record_hit score action a =
     a\<lparr>ra_hit_count := ra_hit_count a + 1, ra_max_risk_score := max (ra_max_risk_score a) score,
       ra_strongest_action :=
         (case ra_strongest_action a of
            None \<Rightarrow> Some action
          | Some current \<Rightarrow> if mitigation_severity current < mitigation_severity action then Some action else Some current)\<rparr>"

record replay_rule_summary =
  rr_rule_id :: string
  rr_version :: nat
  rr_rule :: ueba_rule
  rr_users_evaluated :: nat
  rr_hit_count :: nat
  rr_alert_count :: nat
  rr_min_observed_count :: nat
  rr_max_observed_count :: nat
  rr_average_observed_count :: rat
  rr_max_risk_score :: nat
  rr_strongest_action :: "mitigation_action option"

definition accumulator_finish :: "string \<times> nat \<Rightarrow> ueba_rule \<times> rule_accumulator \<Rightarrow> replay_rule_summary" where
  "accumulator_finish = (\<lambda>(i, v) (r, a).
     \<lparr>rr_rule_id = i, rr_version = v, rr_rule = r, rr_users_evaluated = ra_users_evaluated a,
      rr_hit_count = ra_hit_count a, rr_alert_count = ra_hit_count a,
      rr_min_observed_count = (if ra_users_evaluated a = 0 then 0 else ra_min_observed a),
      rr_max_observed_count = ra_max_observed a,
      rr_average_observed_count =
        (if ra_users_evaluated a = 0 then 0
         else round_ratio (of_nat (ra_total_observed a) / of_nat (ra_users_evaluated a))),
      rr_max_risk_score = ra_max_risk_score a, rr_strongest_action = ra_strongest_action a\<rparr>)"

record replay_summary =
  ry_event_count :: nat
  ry_users_evaluated :: nat
  ry_rules_evaluated :: nat
  ry_hit_count :: nat
  ry_alert_count :: nat
  ry_rule_summaries :: "replay_rule_summary list"
  ry_hits :: "replay_hit list"
  ry_alerts :: "ueba_alert list"

text \<open>The hit of a user under a version, if any.\<close>

definition version_fires :: "rule_definition \<times> ueba_version \<Rightarrow> user_baseline \<Rightarrow> audit_event list \<Rightarrow> bool" where
  "version_fires = (\<lambda>(d, v) b es.
     let n = rule_observed_count (rd_rule d) (rv_tuning v) es;
         t = tu_thresholds (rv_tuning v) in
     th_min_events t \<le> n \<and> alert_threshold t (baseline_count_for_rule (rd_rule d) b) < n)"

definition replay_hit_of ::
  "(string \<times> user_baseline) list \<Rightarrow> string \<times> audit_event list \<Rightarrow> rule_definition \<times> ueba_version \<Rightarrow> replay_hit option" where
  "replay_hit_of baselines = (\<lambda>(u, es) (d, v).
     let b = option_or (map_of baselines u) no_baseline;
         n = rule_observed_count (rd_rule d) (rv_tuning v) es;
         t = tu_thresholds (rv_tuning v);
         base = baseline_count_for_rule (rd_rule d) b;
         threshold = alert_threshold t base;
         score = min (th_risk_score t) 100;
         action = option_or (tu_action_override (rv_tuning v)) (mitigation_from_score (int score)) in
     if \<not> version_fires (d, v) b es then None
     else Some \<lparr>rh_rule_id = rd_rule_id d, rh_version = rv_version v, rh_rule = rd_rule d, rh_user_id = u,
       rh_tenant_id = last_tenant es, rh_project_id = last_project es, rh_observed_count = n,
       rh_baseline_count = base, rh_threshold_count = threshold, rh_risk_score = score, rh_action = action,
       rh_evidence = ''rule '' @ rd_rule_id d @ '' v'' @ show_nat (rv_version v) @ '' observed '' @ show_nat n
         @ '' events over threshold '' @ show_nat threshold @ '' with baseline '' @ show_nat base\<rparr>)"

definition alert_of_hit :: "replay_hit \<Rightarrow> ueba_alert" where
  "alert_of_hit h =
     \<lparr>al_alert_id = [], al_user_id = rh_user_id h, al_tenant_id = rh_tenant_id h, al_project_id = rh_project_id h,
      al_rule = rh_rule h, al_risk_score = rh_risk_score h, al_action = rh_action h, al_evidence = rh_evidence h\<rparr>"

type_synonym accumulators = "((string \<times> nat) \<times> (ueba_rule \<times> rule_accumulator)) list"

definition version_key :: "rule_definition \<times> ueba_version \<Rightarrow> string \<times> nat" where
  "version_key = (\<lambda>(d, v). (rd_rule_id d, rv_version v))"

definition replay_step ::
  "(string \<times> user_baseline) list \<Rightarrow> string \<times> audit_event list \<Rightarrow> replay_hit list \<times> accumulators
     \<Rightarrow> rule_definition \<times> ueba_version \<Rightarrow> replay_hit list \<times> accumulators" where
  "replay_step baselines ue s dv =
     (let n = rule_observed_count (rd_rule (fst dv)) (rv_tuning (snd dv)) (snd ue);
          accs = entry_update (version_key dv) (rd_rule (fst dv), accumulator_new)
            (\<lambda>(r, a). (r, record_observation n a)) (snd s) in
      case replay_hit_of baselines ue dv of
        None \<Rightarrow> (fst s, accs)
      | Some h \<Rightarrow>
          (fst s @ [h],
           entry_update (version_key dv) (rd_rule (fst dv), accumulator_new)
             (\<lambda>(r, a). (r, record_hit (rh_risk_score h) (rh_action h) a)) accs))"

definition replay_ueba_rules ::
  "visit \<Rightarrow> (nat \<Rightarrow> string) \<Rightarrow> audit_event list \<Rightarrow> (string \<times> user_baseline) list \<Rightarrow> rule_definition list \<Rightarrow> replay_summary" where
  "replay_ueba_rules visit ulid events baselines rules =
     (let users = events_by_user events;
          active = active_rule_versions rules;
          (hits, accs) = foldl (\<lambda>s ue. foldl (replay_step baselines ue) s active) ([], []) (visit users);
          accs = foldl (\<lambda>m dv. entry_update (version_key dv) (rd_rule (fst dv), accumulator_new) id m) accs active in
      \<lparr>ry_event_count = length events, ry_users_evaluated = length users, ry_rules_evaluated = length active,
       ry_hit_count = length hits, ry_alert_count = length hits,
       ry_rule_summaries = map (\<lambda>(k, a). accumulator_finish k a) accs, ry_hits = hits,
       ry_alerts = name_alerts ulid (map alert_of_hit hits)\<rparr>)"

end
