(* ===== verification/UebaTuning.thy ===== *)
theory UebaTuning
  imports UebaReplay
begin

text \<open>
  Proposals and calibration of behaviour analytics, \<open>sdqp-ueba\<close>, and what holds of the alerts and
  the replay: they agree on the default rules up to one pattern, a stricter tuning fires less, and
  a calibration stays within its bounds.  The natural logarithm and the rendering of a time are
  arguments.
\<close>

subsection \<open>Proposals\<close>

record tuning_objective =
  to_target_alert_volume :: "nat option"
  to_target_precision :: "f64 option"

record tuning_proposal =
  tp_rule_id :: string
  tp_base_version :: nat
  tp_observed_alerts :: nat
  tp_estimated_precision :: rat
  tp_target_alert_volume :: "nat option"
  tp_target_precision :: "f64 option"
  tp_proposed_tuning :: rule_tuning
  tp_rationale :: string

definition estimated_precision :: "replay_hit list \<Rightarrow> rat" where
  "estimated_precision hits =
     (if hits = [] then 1
      else round_ratio (of_nat (length (filter (\<lambda>h. 80 \<le> rh_risk_score h \<or> 2 \<le> mitigation_severity (rh_action h)) hits))
        / of_nat (length hits)))"

definition make_tuning_stricter :: "nat \<Rightarrow> rule_tuning \<Rightarrow> rule_tuning" where
  "make_tuning_stricter pressure t =
     (let p = max 1 (min 10 pressure); th = tu_thresholds t;
          m = option_or (finite_non_negative (th_baseline_multiplier th)) 1 in
      t\<lparr>tu_thresholds := th\<lparr>th_min_events := min usize_max (th_min_events th + p),
          th_baseline_offset := min usize_max (th_baseline_offset th + p),
          th_baseline_multiplier := Some (round_ratio (min 10 (m * (1 + of_nat p * (15 / 100))))),
          th_risk_score := min 100 (th_risk_score th + 5)\<rparr>\<rparr>)"

definition make_tuning_looser :: "rule_tuning \<Rightarrow> rule_tuning" where
  "make_tuning_looser t =
     (let th = tu_thresholds t; m = option_or (finite_non_negative (th_baseline_multiplier th)) 1 in
      t\<lparr>tu_thresholds := th\<lparr>th_min_events := max 1 (th_min_events th - 1),
          th_baseline_offset := th_baseline_offset th - 1,
          th_baseline_multiplier := Some (round_ratio (max 0 (m * (90 / 100))))\<rparr>\<rparr>)"

text \<open>What the objective says of one active version: \<open>None\<close> if it is met.\<close>

definition propose_version ::
  "replay_summary \<Rightarrow> tuning_objective \<Rightarrow> rule_definition \<times> ueba_version \<Rightarrow> tuning_proposal option" where
  "propose_version replay obj = (\<lambda>(d, v).
     let hits = filter (\<lambda>h. rh_rule_id h = rd_rule_id d) (ry_hits replay);
         n = length hits;
         precision = estimated_precision hits;
         high = (case to_target_alert_volume obj of None \<Rightarrow> False | Some target \<Rightarrow> target < n);
         low = (case to_target_alert_volume obj of None \<Rightarrow> False | Some target \<Rightarrow> n < target);
         imprecise = (case Option.bind (to_target_precision obj) id of
           None \<Rightarrow> False | Some target \<Rightarrow> precision < max 0 (min 1 target));
         pressure = (case to_target_alert_volume obj of None \<Rightarrow> 1 | Some target \<Rightarrow> max 1 (n - target)) in
     if \<not> high \<and> \<not> low \<and> \<not> imprecise then None
     else Some \<lparr>tp_rule_id = rd_rule_id d, tp_base_version = rv_version v, tp_observed_alerts = n,
       tp_estimated_precision = precision, tp_target_alert_volume = to_target_alert_volume obj,
       tp_target_precision = to_target_precision obj,
       tp_proposed_tuning = (if high \<or> imprecise then make_tuning_stricter pressure (rv_tuning v)
         else make_tuning_looser (rv_tuning v)),
       tp_rationale = join ''; ''
         (if high \<or> imprecise
          then (if high then [''replay alert volume exceeded target''] else [])
            @ (if imprecise then [''estimated precision was below target''] else [])
          else [''replay alert volume was below target''])\<rparr>)"

definition propose_rule_tuning ::
  "replay_summary \<Rightarrow> rule_definition list \<Rightarrow> tuning_objective \<Rightarrow> tuning_proposal list" where
  "propose_rule_tuning replay rules obj =
     (if to_target_alert_volume obj = None \<and> Option.bind (to_target_precision obj) id = None then []
      else List.map_filter (propose_version replay obj) (active_rule_versions rules))"

definition apply_tuning_proposal ::
  "rule_definition list \<Rightarrow> tuning_proposal \<Rightarrow> rule_error + rule_definition list" where
  "apply_tuning_proposal rules p = apply_tuning rules (tp_rule_id p) (tp_base_version p) (tp_proposed_tuning p)"

subsection \<open>Calibration\<close>

datatype calibration_status = CalReady | CalSparse | CalInsufficientSamples

record calibration_quality =
  cq_sample_factor :: rat
  cq_user_factor :: rat
  cq_window_factor :: rat
  cq_score :: rat
  cq_status :: calibration_status

record calibration_window =
  cw_start :: "string option"
  cw_end :: "string option"
  cw_duration_hours :: nat

record rule_recommendation =
  rc_rule_id :: string
  rc_rule :: ueba_rule
  rc_sample_p50 :: nat
  rc_sample_p95 :: nat
  rc_observed_users :: nat
  rc_recommended_thresholds :: rule_thresholds
  rc_recommended_action :: mitigation_action
  rc_recommended_tuning :: rule_tuning

record calibration_result =
  ca_model_version :: string
  ca_sample_count :: nat
  ca_distinct_users :: nat
  ca_window :: calibration_window
  ca_baseline_snapshot :: "(string \<times> user_baseline) list"
  ca_quality :: calibration_quality
  ca_recommendations :: "rule_recommendation list"
  ca_quality_score :: rat
  ca_status :: calibration_status

text \<open>\<open>min_by_key\<close> keeps the first of equal keys, \<open>max_by_key\<close> the last.\<close>

definition millis_of :: "audit_event \<Rightarrow> int" where
  "millis_of e = ev_timestamp e div 1000000"

definition calibration_window_of :: "(time \<Rightarrow> string) \<Rightarrow> audit_event list \<Rightarrow> calibration_window" where
  "calibration_window_of rfc3339 events =
     (case events of
        [] \<Rightarrow> \<lparr>cw_start = None, cw_end = None, cw_duration_hours = 0\<rparr>
      | e # es \<Rightarrow>
          let first = foldl (\<lambda>a b. if millis_of b < millis_of a then b else a) e es;
              last' = foldl (\<lambda>a b. if millis_of a \<le> millis_of b then b else a) e es;
              seconds = max 0 (ev_timestamp last' div 1000000000 - ev_timestamp first div 1000000000) in
          \<lparr>cw_start = Some (rfc3339 (ev_timestamp first)), cw_end = Some (rfc3339 (ev_timestamp last')),
           cw_duration_hours = nat (seconds div 3600)\<rparr>)"

definition percentile_nearest :: "nat list \<Rightarrow> rat \<Rightarrow> nat" where
  "percentile_nearest values p =
     (if values = [] then 0
      else sort values ! nat (round_away (of_nat (length values - 1) * max 0 (min 1 p))))"

definition calibrated_risk_score :: "(rat \<Rightarrow> rat) \<Rightarrow> nat \<Rightarrow> nat \<Rightarrow> nat \<Rightarrow> nat" where
  "calibrated_risk_score ln_of p95 observed distinct_users =
     (if p95 = 0 \<or> observed = 0 then 35
      else
        let rarity = 1 - max 0 (min 1 (of_nat observed / of_nat distinct_users));
            volume = min 1 (ln_of (of_nat p95 + 1) / 4) in
        nat (max 1 (min 100 (round_away (40 + rarity * 35 + volume * 25)))))"

definition calibrated_multiplier :: "nat \<Rightarrow> nat \<Rightarrow> nat \<Rightarrow> nat \<Rightarrow> rat" where
  "calibrated_multiplier p50 p95 observed distinct_users =
     (let m = (if 0 < p50 then of_nat (max p95 p50) / of_nat p50
               else if 0 < p95 then 1 + of_nat observed / of_nat distinct_users else 1) in
      round_ratio (max 1 (min 6 m)))"

definition recommend ::
  "(rat \<Rightarrow> rat) \<Rightarrow> (string \<times> audit_event list) list \<Rightarrow> nat \<Rightarrow> rule_definition \<Rightarrow> rule_recommendation option" where
  "recommend ln_of users distinct_users d =
     (case find (\<lambda>rv. is_enabled (rv_status rv)) (rd_versions d) of
        None \<Rightarrow> None
      | Some rv \<Rightarrow>
          let counts = map (\<lambda>(u, es). rule_observed_count (rd_rule d) (rv_tuning rv) es) users;
              counts = (if counts = [] then [0] else counts);
              p50 = percentile_nearest counts (50 / 100);
              p75 = percentile_nearest counts (75 / 100);
              p95 = percentile_nearest counts (95 / 100);
              observed = length (filter (\<lambda>n. 0 < n) counts);
              score = calibrated_risk_score ln_of p95 observed (max distinct_users 1);
              action = mitigation_from_score (int score);
              th = (tu_thresholds (rv_tuning rv))\<lparr>th_min_events := max (max p95 (p50 + 1)) 1,
                th_baseline_offset := p75 - p50,
                th_baseline_multiplier := Some (calibrated_multiplier p50 p95 observed (max distinct_users 1)),
                th_risk_score := score\<rparr> in
          Some \<lparr>rc_rule_id = rd_rule_id d, rc_rule = rd_rule d, rc_sample_p50 = p50, rc_sample_p95 = p95,
            rc_observed_users = observed, rc_recommended_thresholds = th, rc_recommended_action = action,
            rc_recommended_tuning = (rv_tuning rv)\<lparr>tu_thresholds := th, tu_action_override := Some action\<rparr>\<rparr>)"

definition calibrate_ueba_rules ::
  "(rat \<Rightarrow> rat) \<Rightarrow> (time \<Rightarrow> string) \<Rightarrow> audit_event list \<Rightarrow> calibration_result" where
  "calibrate_ueba_rules ln_of rfc3339 events =
     (let users = events_by_user events;
          n = length events; distinct_users = length users;
          window = calibration_window_of rfc3339 events;
          window_factor = (if 24 \<le> cw_duration_hours window then 1 else of_nat (cw_duration_hours window) / 24);
          sample_factor = min 1 (of_nat n / 50);
          user_factor = min 1 (of_nat distinct_users / 5);
          score = round_ratio (sample_factor * (45 / 100) + user_factor * (35 / 100) + window_factor * (20 / 100));
          status = (if n < 10 \<or> distinct_users < 2 then CalInsufficientSamples
            else if score < 45 / 100 then CalSparse else CalReady) in
      \<lparr>ca_model_version = ''ueba-statistical-calibration-v1'', ca_sample_count = n, ca_distinct_users = distinct_users,
       ca_window = window, ca_baseline_snapshot = build_user_baselines events,
       ca_quality = \<lparr>cq_sample_factor = round_ratio sample_factor, cq_user_factor = round_ratio user_factor,
         cq_window_factor = round_ratio window_factor, cq_score = score, cq_status = status\<rparr>,
       ca_recommendations = List.map_filter (recommend ln_of users distinct_users) default_rule_set,
       ca_quality_score = score, ca_status = status\<rparr>)"

subsection \<open>Rounding\<close>

lemma round_away_mono: "x \<le> y \<Longrightarrow> round_away x \<le> round_away y"
proof -
  assume xy: "x \<le> y"
  have neg: "round_away x \<le> 0" if "x < 0" for x :: rat
    using that floor_mono [of 0 "1/2 - x"] by (simp add: round_away_def)
  have pos: "0 \<le> round_away y" if "0 \<le> y" for y :: rat
    using that floor_mono [of 0 "y + 1/2"] by (simp add: round_away_def)
  consider "0 \<le> x" | "x < 0" "0 \<le> y" | "y < 0" using xy by linarith
  then show ?thesis
  proof cases
    case 1
    with xy show ?thesis by (simp add: round_away_def floor_mono)
  next
    case 2
    from order_trans [OF neg [OF 2(1)] pos [OF 2(2)]] show ?thesis .
  next
    case 3
    have "\<lfloor>1/2 - y\<rfloor> \<le> \<lfloor>1/2 - x\<rfloor>" using xy by (intro floor_mono) simp
    with 3 xy show ?thesis by (simp add: round_away_def)
  qed
qed

lemma round_away_nat [simp]: "round_away (of_nat n) = int n"
proof -
  have "\<lfloor>of_nat n + 1/2 :: rat\<rfloor> = int n" by (rule floor_unique) simp_all
  then show ?thesis by (simp add: round_away_def)
qed

lemma round_ratio_mono: "x \<le> y \<Longrightarrow> round_ratio x \<le> round_ratio y"
  using round_away_mono [of "x * 100" "y * 100"] by (simp add: round_ratio_def divide_right_mono)

lemma round_ratio_cents: "round_ratio (of_nat k / 100) = of_nat k / 100"
  using round_away_nat [of k] by (simp add: round_ratio_def)

lemma round_ratio_bounds:
  assumes "of_nat a / 100 \<le> x" "x \<le> of_nat b / 100"
  shows "of_nat a / 100 \<le> round_ratio x" "round_ratio x \<le> of_nat b / 100"
  using round_ratio_mono [OF assms(1)] round_ratio_mono [OF assms(2)] by (simp_all add: round_ratio_cents)

subsection \<open>Events by user\<close>

lemma map_of_entry_update: "map_of (entry_update k d f m) = (map_of m)(k \<mapsto> f (option_or (map_of m k) d))"
  by (simp add: entry_update_def update_conv')

lemma distinct_entry_update: "distinct (map fst m) \<Longrightarrow> distinct (map fst (entry_update k d f m))"
  by (simp add: entry_update_def distinct_update)

text \<open>A table that is built from the events holds for each key what a fold over its events gives.\<close>

lemma map_of_table:
  "map_of (foldl (\<lambda>m e. entry_update (key e) d (f e) m) [] es) k =
    (if filter (\<lambda>e. key e = k) es = [] then None else Some (foldl (\<lambda>v e. f e v) d (filter (\<lambda>e. key e = k) es)))"
  by (induction es rule: rev_induct) (auto simp: map_of_entry_update option_or_def)

lemma distinct_table: "distinct (map fst (foldl (\<lambda>m e. entry_update (key e) d (f e) m) [] es))"
  by (induction es rule: rev_induct) (simp_all add: distinct_entry_update)

lemma foldl_snoc: "foldl (\<lambda>v e. v @ [e]) xs es = xs @ es"
  by (induction es arbitrary: xs) simp_all

lemma map_of_events_by_user:
  "map_of (events_by_user events) u =
    (let es = filter (\<lambda>e. event_user e = u) events in if es = [] then None else Some es)"
  by (simp add: events_by_user_def map_of_table foldl_snoc Let_def)

lemma distinct_events_by_user: "distinct (map fst (events_by_user events))"
  by (simp add: events_by_user_def distinct_table)

lemma events_by_user_mem: "(u, es) \<in> set (events_by_user events) \<Longrightarrow> es = filter (\<lambda>e. event_user e = u) events \<and> es \<noteq> []"
proof -
  assume "(u, es) \<in> set (events_by_user events)"
  then have "map_of (events_by_user events) u = Some es" by (rule map_of_is_SomeI [OF distinct_events_by_user])
  then show ?thesis by (simp add: map_of_events_by_user Let_def split: if_splits)
qed

definition activity_of :: "audit_event list \<Rightarrow> user_baseline" where
  "activity_of es =
     \<lparr>ub_query_count = count_events ActQuery ResSuccess es, ub_export_count = count_events ActExport ResSuccess es,
      ub_denied_count = length (filter (\<lambda>e. ev_result e = ResDenied) es)\<rparr>"

lemma activity_fold: "foldl (\<lambda>b e. update_activity_counts e b) no_baseline es = activity_of es"
  by (induction es rule: rev_induct)
    (auto simp: activity_of_def no_baseline_def count_events_def update_activity_counts_def)

text \<open>A baseline is half the activity of a user, with at least one query.\<close>

lemma map_of_user_baselines:
  "map_of (build_user_baselines events) u =
    (let es = filter (\<lambda>e. event_user e = u) events in
     if es = [] then None else Some (normalize_baseline (activity_of es)))"
proof -
  have map: "map_of (map (\<lambda>(u, b). (u, f b)) m) u = map_option f (map_of m u)" for f :: "user_baseline \<Rightarrow> user_baseline" and m
    by (induction m) auto
  show ?thesis by (simp add: build_user_baselines_def map map_of_table activity_fold Let_def)
qed

lemma baseline_bounds:
  assumes "length events \<le> usize_max" "b = option_or (map_of (build_user_baselines events) u) no_baseline"
  shows "ub_query_count b * 2 \<le> usize_max" "ub_export_count b + 1 \<le> usize_max" "ub_denied_count b \<le> usize_max"
proof -
  let ?es = "filter (\<lambda>e. event_user e = u) events"
  have le: "length (filter P ?es) \<le> usize_max" for P
    using le_trans [OF length_filter_le [of P ?es] le_trans [OF length_filter_le assms(1)]] .
  have two: "2 \<le> usize_max" by (simp add: usize_max_def)
  have "ub_query_count b * 2 \<le> usize_max \<and> ub_export_count b + 1 \<le> usize_max \<and> ub_denied_count b \<le> usize_max"
    using le [of "\<lambda>e. ev_action e = ActQuery \<and> ev_result e = ResSuccess"]
      le [of "\<lambda>e. ev_action e = ActExport \<and> ev_result e = ResSuccess"] le [of "\<lambda>e. ev_result e = ResDenied"] two
    by (auto simp: assms(2) map_of_user_baselines Let_def option_or_def no_baseline_def normalize_baseline_def
        activity_of_def count_events_def)
  then show "ub_query_count b * 2 \<le> usize_max" "ub_export_count b + 1 \<le> usize_max" "ub_denied_count b \<le> usize_max"
    by simp_all
qed

subsection \<open>The replay of the default rules agrees with the alerts\<close>

lemma threshold_whole:
  assumes "th_baseline_multiplier t = Some (of_nat m)" "n * m + th_baseline_offset t \<le> usize_max"
  shows "alert_threshold t n = n * m + th_baseline_offset t"
proof -
  have "nat \<lceil>of_nat n * of_nat m :: rat\<rceil> = n * m" by (simp only: of_nat_mult [symmetric] ceiling_of_nat nat_int)
  with assms show ?thesis
    by (simp add: alert_threshold_def finite_non_negative_def option_or_def Let_def)
qed

lemma replay_step_hits:
  "fst (replay_step bs ue s dv) = fst s @ (case replay_hit_of bs ue dv of None \<Rightarrow> [] | Some h \<Rightarrow> [h])"
  by (simp add: replay_step_def Let_def split: option.splits)

lemma replay_user_hits:
  "fst (foldl (replay_step bs ue) s dvs) = fst s @ List.map_filter (replay_hit_of bs ue) dvs"
  by (induction dvs arbitrary: s) (auto simp: replay_step_hits List.map_filter_def split: option.splits)

lemma replay_all_hits:
  "fst (foldl (\<lambda>s ue. foldl (replay_step bs ue) s dvs) s ues)
    = fst s @ concat (map (\<lambda>ue. List.map_filter (replay_hit_of bs ue) dvs) ues)"
  by (induction ues arbitrary: s) (simp_all add: replay_user_hits)

lemma replay_hits:
  "ry_hits (replay_ueba_rules visit ulid events bs rules)
    = concat (map (\<lambda>ue. List.map_filter (replay_hit_of bs ue) (active_rule_versions rules))
        (visit (events_by_user events)))"
  using replay_all_hits [of bs "active_rule_versions rules" "([], [])" "visit (events_by_user events)"]
  by (simp add: replay_ueba_rules_def Let_def case_prod_beta)

lemma replay_alerts:
  "ry_alerts (replay_ueba_rules visit ulid events bs rules)
    = name_alerts ulid (map alert_of_hit (ry_hits (replay_ueba_rules visit ulid events bs rules)))"
  by (simp add: replay_ueba_rules_def Let_def split: prod.splits)

text \<open>What an alert says, but for its identifier and its text.\<close>

definition alert_key ::
  "ueba_alert \<Rightarrow> string \<times> string \<times> string option \<times> ueba_rule \<times> nat \<times> mitigation_action" where
  "alert_key a = (al_user_id a, al_tenant_id a, al_project_id a, al_rule a, al_risk_score a, al_action a)"

definition key_rule :: "string \<times> string \<times> string option \<times> ueba_rule \<times> nat \<times> mitigation_action \<Rightarrow> ueba_rule" where
  "key_rule = (\<lambda>(_, _, _, r, _). r)"

lemma named_keys: "map alert_key (name_alerts ulid as) = map alert_key as"
proof -
  have "map alert_key (map (\<lambda>(k, a). a\<lparr>al_alert_id := ulid k\<rparr>) (enumerate n as)) = map alert_key as" for n
    by (induction as arbitrary: n) (simp_all add: alert_key_def)
  then show ?thesis by (simp only: name_alerts_def)
qed

lemma default_active:
  "active_rule_versions default_rule_set = map (\<lambda>d. (d, hd (rd_versions d))) default_rule_set"
  by (simp add: active_rule_versions_def default_rule_set_def default_rule_definition_def is_enabled_def)

definition user_key :: "string \<times> audit_event list \<Rightarrow> ueba_rule \<Rightarrow> nat
    \<Rightarrow> string \<times> string \<times> string option \<times> ueba_rule \<times> nat \<times> mitigation_action" where
  "user_key = (\<lambda>(u, es) r score. (u, last_tenant es, last_project es, r, score, mitigation_from_score (int score)))"

lemma hit_key:
  assumes "tu_action_override (rv_tuning v) = None" "th_risk_score (tu_thresholds (rv_tuning v)) \<le> 100"
  shows "map_option (\<lambda>h. alert_key (alert_of_hit h)) (replay_hit_of bs (u, es) (d, v)) =
    (if version_fires (d, v) (option_or (map_of bs u) no_baseline) es
     then Some (user_key (u, es) (rd_rule d) (th_risk_score (tu_thresholds (rv_tuning v)))) else None)"
  using assms by (simp add: replay_hit_of_def alert_key_def alert_of_hit_def user_key_def Let_def option_or_def min_def)

definition untuned :: "rule_definition \<times> ueba_version \<Rightarrow> bool" where
  "untuned = (\<lambda>(d, v). tu_action_override (rv_tuning v) = None \<and> th_risk_score (tu_thresholds (rv_tuning v)) \<le> 100)"

definition fired_key ::
  "user_baseline \<Rightarrow> string \<times> audit_event list \<Rightarrow> rule_definition \<times> ueba_version
     \<Rightarrow> (string \<times> string \<times> string option \<times> ueba_rule \<times> nat \<times> mitigation_action) list" where
  "fired_key b ue = (\<lambda>(d, v). if version_fires (d, v) b (snd ue)
     then [user_key ue (rd_rule d) (th_risk_score (tu_thresholds (rv_tuning v)))] else [])"

lemma hit_keys:
  assumes "list_all untuned dvs"
  shows "map (\<lambda>h. alert_key (alert_of_hit h)) (List.map_filter (replay_hit_of bs (u, es)) dvs) =
    concat (map (fired_key (option_or (map_of bs u) no_baseline) (u, es)) dvs)"
  using assms
proof (induction dvs)
  case (Cons dv dvs)
  obtain d v where dv: "dv = (d, v)" by fastforce
  have split: "map g (List.map_filter f (x # xs)) = (case map_option g (f x) of None \<Rightarrow> [] | Some y \<Rightarrow> [y])
      @ map g (List.map_filter f xs)" for f :: "'x \<Rightarrow> 'y option" and g :: "'y \<Rightarrow> 'z" and x xs
    by (cases "f x") (simp_all add: List.map_filter_def)
  from Cons show ?case by (simp only: dv split) (simp add: hit_key untuned_def fired_key_def)
qed (simp add: List.map_filter_def)

lemma length_filter_pos:
  "Suc 0 \<le> length (filter P xs) \<and> filter P xs \<noteq> [] \<longleftrightarrow> list_ex P xs"
  by (induction xs) auto

lemma http_terms: "http_pattern context \<Longrightarrow> matches_context
    \<lparr>rp_any_terms = [''beacon'', ''pixel'', ''chunk=''], rp_all_terms = [''http'']\<rparr> context"
  using str_contains_append [of "to_ascii_lowercase context" "''http''" "''://''"]
    str_contains_append [of "to_ascii_lowercase context" "''http''" "''s://''"]
  by (auto simp: http_pattern_def matches_context_def Let_def to_ascii_lowercase_def to_ascii_lowercase_char_def
      code_of_def)

lemma dns_terms: "matches_context
    \<lparr>rp_any_terms = [''dns://'', '' txt '', ''base32''], rp_all_terms = []\<rparr> context = dns_pattern context"
  by (simp add: dns_pattern_def matches_context_def Let_def to_ascii_lowercase_def to_ascii_lowercase_char_def
      code_of_def)

lemma default_hits:
  assumes "length past \<le> usize_max" "bs = build_user_baselines past"
  shows "map (\<lambda>h. alert_key (alert_of_hit h)) (List.map_filter (replay_hit_of bs (u, es)) (active_rule_versions default_rule_set))
    = (let b = option_or (map_of bs u) no_baseline in
       (if 5 \<le> count_events ActQuery ResSuccess es \<and> ub_query_count b * 2 < count_events ActQuery ResSuccess es
        then [user_key (u, es) HighFrequencyQuery 58] else [])
       @ (if 3 \<le> count_events ActExport ResSuccess es \<and> ub_export_count b + 1 < count_events ActExport ResSuccess es
          then [user_key (u, es) ExportSpike 92] else [])
       @ (if 2 \<le> count_events ActQuery ResDenied es then [user_key (u, es) UnauthorizedQueryBurst 78] else [])
       @ (if list_ex (\<lambda>e. ev_action e = ActView \<and> ev_result e = ResSuccess
            \<and> \<not> (6 \<le> event_hour e \<and> event_hour e < 22)) es then [user_key (u, es) AfterHoursAccess 44] else [])
       @ (if list_ex (\<lambda>e. dns_pattern (ev_context e)) es then [user_key (u, es) HiddenChannelDns 90] else [])
       @ (if list_ex (\<lambda>e. matches_context
            \<lparr>rp_any_terms = [''beacon'', ''pixel'', ''chunk=''], rp_all_terms = [''http'']\<rparr> (ev_context e)) es
          then [user_key (u, es) HiddenChannelHttp 88] else []))"
proof -
  let ?b = "option_or (map_of bs u) no_baseline"
  note bounds = baseline_bounds [OF assms(1), of ?b u, unfolded assms(2) [symmetric], OF refl]
  have outside: "is_outside_business_hours e (tu_thresholds (fixed_tuning a m x y (Some (6, 22)) p))
      = (\<not> (6 \<le> event_hour e \<and> event_hour e < 22))" for e a m x y p
    by (simp add: is_outside_business_hours_def is_inside_business_hours_def fixed_tuning_def option_or_def)
  have fields [simp]: "th_min_events (tu_thresholds (fixed_tuning a m x y h p)) = a"
    "th_risk_score (tu_thresholds (fixed_tuning a m x y h p)) = y" "tu_pattern (fixed_tuning a m x y h p) = p"
    "tu_action_override (fixed_tuning a m x y h p) = None" for a m x y h p
    by (simp_all add: fixed_tuning_def)
  have threshold: "alert_threshold (tu_thresholds (fixed_tuning a (of_nat m) x y h p)) n = n * m + x"
    if "n * m + x \<le> usize_max" for a m x y h p n
    using threshold_whole [of "tu_thresholds (fixed_tuning a (of_nat m) x y h p)" m n] that by (simp add: fixed_tuning_def)
  have thresholds: "alert_threshold (tu_thresholds (fixed_tuning a 2 0 y h p)) (ub_query_count ?b) = ub_query_count ?b * 2"
    "alert_threshold (tu_thresholds (fixed_tuning a 1 (Suc 0) y h p)) (ub_export_count ?b) = Suc (ub_export_count ?b)"
    "alert_threshold (tu_thresholds (fixed_tuning a 0 0 y h p)) n = 0" for a y h p n
    using threshold [of _ 2 0 a y h p] threshold [of _ 1 1 a y h p] threshold [of n 0 0 a y h p] bounds by simp_all
  have two: "2 \<le> n \<and> 0 < n \<longleftrightarrow> 2 \<le> n" for n :: nat by auto
  have untuned: "untuned (default_rule_definition r n x (fixed_tuning a m o' y h p),
      hd (rd_versions (default_rule_definition r n x (fixed_tuning a m o' y h p)))) = (y \<le> 100)" for r n x a m o' y h p
    by (simp add: untuned_def default_rule_definition_def)
  have plain: "list_all untuned (active_rule_versions default_rule_set)"
    unfolding default_active by (simp add: default_rule_set_def untuned)
  have fired: "fired_key b (u, es) (default_rule_definition r n x t, hd (rd_versions (default_rule_definition r n x t)))
      = (if th_min_events (tu_thresholds t) \<le> rule_observed_count r t es
           \<and> alert_threshold (tu_thresholds t) (baseline_count_for_rule r b) < rule_observed_count r t es
         then [user_key (u, es) r (th_risk_score (tu_thresholds t))] else [])" for b r n x t
    by (simp add: fired_key_def version_fires_def default_rule_definition_def Let_def)
  note observed = rule_observed_count_def baseline_count_for_rule_def thresholds two outside length_filter_pos dns_terms
  have fired_keys:
    "fired_key ?b (u, es) (default_rule_definition HighFrequencyQuery n x (fixed_tuning 5 2 0 58 None None),
        hd (rd_versions (default_rule_definition HighFrequencyQuery n x (fixed_tuning 5 2 0 58 None None))))
      = (if 5 \<le> count_events ActQuery ResSuccess es \<and> ub_query_count ?b * 2 < count_events ActQuery ResSuccess es
         then [user_key (u, es) HighFrequencyQuery 58] else [])"
    "fired_key ?b (u, es) (default_rule_definition ExportSpike n x (fixed_tuning 3 1 1 92 None None),
        hd (rd_versions (default_rule_definition ExportSpike n x (fixed_tuning 3 1 1 92 None None))))
      = (if 3 \<le> count_events ActExport ResSuccess es \<and> ub_export_count ?b + 1 < count_events ActExport ResSuccess es
         then [user_key (u, es) ExportSpike 92] else [])"
    "fired_key ?b (u, es) (default_rule_definition UnauthorizedQueryBurst n x (fixed_tuning 2 0 0 78 None None),
        hd (rd_versions (default_rule_definition UnauthorizedQueryBurst n x (fixed_tuning 2 0 0 78 None None))))
      = (if 2 \<le> count_events ActQuery ResDenied es then [user_key (u, es) UnauthorizedQueryBurst 78] else [])"
    "fired_key ?b (u, es) (default_rule_definition AfterHoursAccess n x (fixed_tuning 1 0 0 44 (Some (6, 22)) None),
        hd (rd_versions (default_rule_definition AfterHoursAccess n x (fixed_tuning 1 0 0 44 (Some (6, 22)) None))))
      = (if list_ex (\<lambda>e. ev_action e = ActView \<and> ev_result e = ResSuccess
           \<and> \<not> (6 \<le> event_hour e \<and> event_hour e < 22)) es then [user_key (u, es) AfterHoursAccess 44] else [])"
    for n x by (simp_all add: fired observed)
  have channel_keys:
    "fired_key ?b (u, es) (default_rule_definition HiddenChannelDns n x (fixed_tuning 1 0 0 90 None (Some p)),
        hd (rd_versions (default_rule_definition HiddenChannelDns n x (fixed_tuning 1 0 0 90 None (Some p)))))
      = (if list_ex (\<lambda>e. matches_context p (ev_context e)) es then [user_key (u, es) HiddenChannelDns 90] else [])"
    "fired_key ?b (u, es) (default_rule_definition HiddenChannelHttp n x (fixed_tuning 1 0 0 88 None (Some p)),
        hd (rd_versions (default_rule_definition HiddenChannelHttp n x (fixed_tuning 1 0 0 88 None (Some p)))))
      = (if list_ex (\<lambda>e. matches_context p (ev_context e)) es then [user_key (u, es) HiddenChannelHttp 88] else [])"
    for n x p by (simp_all add: fired observed)
  show ?thesis
    unfolding hit_keys [OF plain] unfolding default_active
    unfolding default_rule_set_def list.map concat.simps fired_keys channel_keys dns_terms Let_def append_Nil2 ..
qed

lemma user_alert_keys:
  assumes "length past \<le> usize_max" "bs = build_user_baselines past"
  shows "map alert_key (user_alerts bs (u, es))
    = (let b = option_or (map_of bs u) no_baseline in
       (if 5 \<le> count_events ActQuery ResSuccess es \<and> ub_query_count b * 2 < count_events ActQuery ResSuccess es
        then [user_key (u, es) HighFrequencyQuery 58] else [])
       @ (if 3 \<le> count_events ActExport ResSuccess es \<and> ub_export_count b + 1 < count_events ActExport ResSuccess es
          then [user_key (u, es) ExportSpike 92] else [])
       @ (if 2 \<le> count_events ActQuery ResDenied es then [user_key (u, es) UnauthorizedQueryBurst 78] else [])
       @ (if list_ex (\<lambda>e. ev_action e = ActView \<and> ev_result e = ResSuccess
            \<and> \<not> (6 \<le> event_hour e \<and> event_hour e < 22)) es then [user_key (u, es) AfterHoursAccess 44] else [])
       @ (if list_ex (\<lambda>e. dns_pattern (ev_context e)) es then [user_key (u, es) HiddenChannelDns 90] else [])
       @ (if list_ex (\<lambda>e. http_pattern (ev_context e)) es then [user_key (u, es) HiddenChannelHttp 88] else []))"
proof -
  have key: "alert_key (build_alert u es r n t) = user_key (u, es) r n" for r n t
    by (simp add: build_alert_def build_alert_with_action_def alert_key_def user_key_def)
  note bounds = baseline_bounds [OF assms(1), of "option_or (map_of bs u) no_baseline" u, unfolded assms(2) [symmetric], OF refl]
  then show ?thesis by (simp add: user_alerts_def Let_def key min_absorb2)
qed

lemma keys_agree:
  assumes "length past \<le> usize_max" "bs = build_user_baselines past"
  defines "hits \<equiv> \<lambda>ue. map (\<lambda>h. alert_key (alert_of_hit h))
      (List.map_filter (replay_hit_of bs ue) (active_rule_versions default_rule_set))"
  shows "filter (\<lambda>k. key_rule k \<noteq> HiddenChannelHttp) (hits ue)
      = filter (\<lambda>k. key_rule k \<noteq> HiddenChannelHttp) (map alert_key (user_alerts bs ue))"
    and "set (map alert_key (user_alerts bs ue)) \<subseteq> set (hits ue)"
proof -
  obtain u es where ue: "ue = (u, es)" by fastforce
  have rule: "key_rule (user_key (u, es) r n) = r" for r n by (simp add: key_rule_def user_key_def)
  have http: "list_ex (\<lambda>e. matches_context
            \<lparr>rp_any_terms = [''beacon'', ''pixel'', ''chunk=''], rp_all_terms = [''http'']\<rparr> (ev_context e)) es"
    if "list_ex (\<lambda>e. http_pattern (ev_context e)) es"
    using that http_terms by (auto simp: list_ex_iff)
  show "filter (\<lambda>k. key_rule k \<noteq> HiddenChannelHttp) (hits ue)
      = filter (\<lambda>k. key_rule k \<noteq> HiddenChannelHttp) (map alert_key (user_alerts bs ue))"
    unfolding hits_def ue default_hits [OF assms(1,2)] user_alert_keys [OF assms(1,2)] Let_def
    by (simp only: filter_append if_distrib [of "filter P" for P] filter.simps rule ueba_rule.distinct simp_thms if_True if_False)
      (simp add: rule)
  show "set (map alert_key (user_alerts bs ue)) \<subseteq> set (hits ue)"
    unfolding hits_def ue default_hits [OF assms(1,2)] user_alert_keys [OF assms(1,2)] Let_def set_append
    by (intro Un_mono) (use http in auto)
qed

text \<open>The entries of a user, in whatever order the users are visited.\<close>

lemma visited_user:
  assumes "visits_all visit" "distinct (map fst m)"
  shows "map_of (visit m) = map_of m" "distinct (map fst (visit m))"
proof -
  have same: "mset (visit m) = mset m" using assms(1) by (simp add: visits_all_def)
  then have "mset (map fst (visit m)) = mset (map fst m)" by simp
  then show keys: "distinct (map fst (visit m))"
    using assms(2) by (metis mset_eq_imp_distinct_iff)
  have "set (visit m) = set m" using same by (rule mset_eq_setD)
  then have "map_of (visit m) k = Some v \<longleftrightarrow> map_of m k = Some v" for k v
    by (simp add: map_of_eq_Some_iff [OF keys] map_of_eq_Some_iff [OF assms(2)])
  then show "map_of (visit m) = map_of m" by (intro ext) (metis not_Some_eq)
qed

lemma filter_one_user:
  assumes "distinct (map fst m)" "\<And>ue k. k \<in> set (f ue) \<Longrightarrow> fst k = fst ue"
  shows "filter (\<lambda>k. fst k = u \<and> P k) (concat (map f m))
    = (case map_of m u of None \<Rightarrow> [] | Some es \<Rightarrow> filter P (f (u, es)))"
  using assms(1)
proof (induction m)
  case (Cons e m)
  have own: "filter (\<lambda>k. fst k = u \<and> P k) (f e) = (if fst e = u then filter P (f e) else [])"
    using assms(2) [of _ e] by (auto simp: filter_empty_conv intro!: filter_cong)
  show ?case
  proof (cases "fst e = u")
    case True
    with Cons have "map_of m u = None" by (auto simp: map_of_eq_None_iff)
    with Cons own True show ?thesis by (cases e) simp
  qed (use Cons own in \<open>cases e; simp\<close>)
qed simp

lemma user_of_alert: "k \<in> set (map alert_key (user_alerts bs ue)) \<Longrightarrow> fst k = fst ue"
  by (cases ue) (auto simp: user_alerts_def Let_def alert_key_def build_alert_def build_alert_with_action_def
      split: if_splits)

lemma user_of_hit:
  "k \<in> set (map (\<lambda>h. alert_key (alert_of_hit h)) (List.map_filter (replay_hit_of bs ue) vs)) \<Longrightarrow> fst k = fst ue"
  by (cases ue) (auto simp: List.map_filter_def replay_hit_of_def Let_def alert_key_def alert_of_hit_def split: if_splits)

text \<open>
  C30. On any events, against baselines made of any events, and in whatever order each of the two
  visits the users, replaying the default rules raises for every user the alerts that the direct
  evaluation raises for that user, in the same order, for the same tenant, project and rule with
  the same score and action, except for the rule of the HTTP channel, where it raises at least those.
\<close>

theorem replay_agrees_with_alerts:
  assumes "length past \<le> usize_max" "visits_all visit" "visits_all visit'"
  shows "filter (\<lambda>k. fst k = user \<and> key_rule k \<noteq> HiddenChannelHttp)
      (map alert_key (ry_alerts (replay_ueba_rules visit ids events (build_user_baselines past) default_rule_set)))
    = filter (\<lambda>k. fst k = user \<and> key_rule k \<noteq> HiddenChannelHttp)
      (map alert_key (evaluate_alerts visit' ids' events (build_user_baselines past)))
    \<and> set (map alert_key (evaluate_alerts visit' ids' events (build_user_baselines past)))
      \<subseteq> set (map alert_key (ry_alerts (replay_ueba_rules visit ids events (build_user_baselines past) default_rule_set)))"
proof -
  let ?bs = "build_user_baselines past" and ?m = "events_by_user events"
  let ?hits = "\<lambda>ue. map (\<lambda>h. alert_key (alert_of_hit h))
      (List.map_filter (replay_hit_of ?bs ue) (active_rule_versions default_rule_set))"
  let ?direct = "\<lambda>ue. map alert_key (user_alerts ?bs ue)"
  have replay: "map alert_key (ry_alerts (replay_ueba_rules visit ids events ?bs default_rule_set))
      = concat (map ?hits (visit ?m))"
    by (simp only: replay_alerts named_keys replay_hits map_concat list.map_comp comp_def)
  have direct: "map alert_key (evaluate_alerts visit' ids' events ?bs) = concat (map ?direct (visit' ?m))"
    by (simp only: evaluate_alerts_def named_keys map_concat list.map_comp comp_def)
  note agree = keys_agree [OF assms(1) refl]
  note left = visited_user [OF assms(2) distinct_events_by_user, of events]
  note right = visited_user [OF assms(3) distinct_events_by_user, of events]
  have "set (visit ?m) = set (visit' ?m)" using assms(2,3) by (metis visits_all_def mset_eq_setD)
  then have "set (concat (map ?direct (visit' ?m))) \<subseteq> set (concat (map ?hits (visit ?m)))"
    unfolding set_concat set_map using agree(2) by blast
  moreover have "filter (\<lambda>k. fst k = user \<and> key_rule k \<noteq> HiddenChannelHttp) (concat (map ?hits (visit ?m)))
      = filter (\<lambda>k. fst k = user \<and> key_rule k \<noteq> HiddenChannelHttp) (concat (map ?direct (visit' ?m)))"
    using filter_one_user [OF left(2), of ?hits user "\<lambda>k. key_rule k \<noteq> HiddenChannelHttp", OF user_of_hit]
      filter_one_user [OF right(2), of ?direct user "\<lambda>k. key_rule k \<noteq> HiddenChannelHttp", OF user_of_alert]
    by (simp only: left(1) right(1) agree(1))
  ultimately show ?thesis unfolding replay direct by blast
qed

definition denied_query :: audit_event where
  "denied_query =
     \<lparr>ev_event_id = ''e-1'', ev_timestamp = 0,
      ev_actor = \<lparr>ac_user_id = ''ann'', ac_session_id = ''s-1'', ac_ip_address = ''10.0.0.1''\<rparr>,
      ev_action = ActQuery, ev_target = \<lparr>tg_tenant_id = ''acme'', tg_project_id = None, tg_resource_id = ''r''\<rparr>,
      ev_context = ''query'', ev_context_fields = [], ev_result = ResDenied, ev_data_fingerprint = None,
      ev_prev_hash = [], ev_event_hash = []\<rparr>"

lemma denied_alerts:
  "map alert_key (evaluate_alerts id ids [denied_query, denied_query] (build_user_baselines []))
    = [(''ann'', ''acme'', None, UnauthorizedQueryBurst, 78, SuspendPermissions)]"
proof -
  have quiet: "\<not> dns_pattern ''query''" "\<not> http_pattern ''query''" by code_simp+
  have users: "events_by_user [denied_query, denied_query] = [(''ann'', [denied_query, denied_query])]"
    by (simp add: events_by_user_def entry_update_def event_user_def denied_query_def option_or_def)
  have "map alert_key (user_alerts (build_user_baselines []) (''ann'', [denied_query, denied_query]))
    = [(''ann'', ''acme'', None, UnauthorizedQueryBurst, 78, SuspendPermissions)]"
    using quiet
    by (simp add: user_alerts_def Let_def count_events_def denied_query_def alert_key_def build_alert_def
        build_alert_with_action_def last_tenant_def last_project_def mitigation_from_score_def for_score_def)
  then show ?thesis by (simp add: evaluate_alerts_def named_keys users)
qed

theorem replay_agrees_with_alerts_witness:
  "filter (\<lambda>k. fst k = ''ann'' \<and> key_rule k \<noteq> HiddenChannelHttp) (map alert_key (ry_alerts
      (replay_ueba_rules rev (\<lambda>_. []) [denied_query, denied_query] (build_user_baselines []) default_rule_set)))
    = [(''ann'', ''acme'', None, UnauthorizedQueryBurst, 78, SuspendPermissions)]"
proof -
  have "length ([] :: audit_event list) \<le> usize_max" "visits_all rev" "visits_all id"
    by (simp_all add: visits_all_def)
  from conjunct1 [OF replay_agrees_with_alerts [OF this], of "''ann''" "\<lambda>_. []" "[denied_query, denied_query]" "\<lambda>_. []"]
  show ?thesis by (simp add: denied_alerts key_rule_def)
qed

text \<open>The pattern of the HTTP rule does not need the scheme that the direct evaluation asks for.\<close>

lemma http_patterns_differ:
  "matches_context \<lparr>rp_any_terms = [''beacon'', ''pixel'', ''chunk=''], rp_all_terms = [''http'']\<rparr> ''http beacon''"
  "\<not> http_pattern ''http beacon''"
  by code_simp+

subsection \<open>Tuning\<close>

lemma threshold_mono:
  assumes "th_baseline_multiplier s = Some x" "th_baseline_multiplier t = Some y" "0 \<le> x" "x \<le> y" "y \<le> 10"
    and "th_baseline_offset s \<le> th_baseline_offset t" "10 * b + th_baseline_offset t \<le> usize_max"
  shows "alert_threshold s b \<le> alert_threshold t b"
proof -
  have le: "\<lceil>of_nat b * x\<rceil> \<le> \<lceil>of_nat b * y\<rceil>" by (intro ceiling_mono mult_left_mono assms(4)) simp
  have "of_nat b * y \<le> of_nat b * 10" by (intro mult_left_mono assms(5)) simp
  then have ten: "\<lceil>of_nat b * y\<rceil> \<le> int (10 * b)" by (intro ceiling_le) (simp add: mult.commute)
  let ?m = "\<lambda>z. min usize_max (nat \<lceil>of_nat b * z\<rceil>)"
  have "nat \<lceil>of_nat b * y\<rceil> \<le> 10 * b" using ten by linarith
  then have bound: "?m y + th_baseline_offset t \<le> usize_max" using assms(7) by (simp add: min_def)
  have less: "?m x + th_baseline_offset s \<le> ?m y + th_baseline_offset t"
    using nat_mono [OF le] assms(6) by (intro add_mono min.mono) simp_all
  have "alert_threshold s b = ?m x + th_baseline_offset s" "alert_threshold t b = ?m y + th_baseline_offset t"
    using bound less assms(1-4) by (simp_all add: alert_threshold_def finite_non_negative_def option_or_def Let_def)
  with less show ?thesis by simp
qed

lemma observed_tuned [simp]:
  "rule_observed_count r (make_tuning_stricter p t) es = rule_observed_count r t es"
  "rule_observed_count r (make_tuning_looser t) es = rule_observed_count r t es"
  by (cases r; simp add: rule_observed_count_def make_tuning_stricter_def make_tuning_looser_def
      is_outside_business_hours_def Let_def)+

text \<open>
  C31. For a baseline multiplier that is a whole number of hundredths and at most ten (which is what
  the code's own tunings store, while a draft may hold any number) and counts far from overflow, a tuning that was made stricter fires only where the tuning fires, and one that was made
  looser fires wherever it does.
\<close>

theorem stricter_fires_less:
  assumes "th_baseline_multiplier (tu_thresholds t) = Some (of_nat k / 100)" "k \<le> 1000"
    and "th_min_events (tu_thresholds t) \<le> usize_max"
    and "10 * baseline_count_for_rule (rd_rule d) b + th_baseline_offset (tu_thresholds t) + 10 \<le> usize_max"
  shows "(version_fires (d, v\<lparr>rv_tuning := make_tuning_stricter p t\<rparr>) b es \<longrightarrow> version_fires (d, v\<lparr>rv_tuning := t\<rparr>) b es)
    \<and> (version_fires (d, v\<lparr>rv_tuning := t\<rparr>) b es \<longrightarrow> version_fires (d, v\<lparr>rv_tuning := make_tuning_looser t\<rparr>) b es)"
proof -
  let ?th = "tu_thresholds t" and ?c = "of_nat k / 100 :: rat" and ?n = "baseline_count_for_rule (rd_rule d) b"
  let ?q = "max 1 (min 10 p)"
  have c: "0 \<le> ?c" "?c \<le> 10" using assms(2) by simp_all
  have q: "1 \<le> ?q" "?q \<le> 10" by simp_all
  have "?c \<le> ?c * (1 + of_nat ?q * (15 / 100))" by (simp add: algebra_simps)
  then have up: "of_nat k / 100 \<le> min 10 (?c * (1 + of_nat ?q * (15 / 100)))" "min 10 (?c * (1 + of_nat ?q * (15 / 100))) \<le> of_nat 1000 / 100"
    using c by simp_all
  have down: "of_nat 0 / 100 \<le> max 0 (?c * (90 / 100))" "max 0 (?c * (90 / 100)) \<le> of_nat k / 100" by simp_all
  let ?s = "tu_thresholds (make_tuning_stricter p t)"
  have offset: "th_baseline_offset ?th \<le> th_baseline_offset ?s" "th_baseline_offset ?s \<le> th_baseline_offset ?th + 10"
    using assms(4) by (auto simp: make_tuning_stricter_def Let_def)
  then have room: "10 * ?n + th_baseline_offset ?s \<le> usize_max" using assms(4) by linarith
  have multiplier: "th_baseline_multiplier ?s = Some (round_ratio (min 10 (?c * (1 + of_nat ?q * (15 / 100)))))"
    using assms(1) by (simp add: make_tuning_stricter_def finite_non_negative_def option_or_def Let_def)
  have stricter: "alert_threshold ?th ?n \<le> alert_threshold (tu_thresholds (make_tuning_stricter p t)) ?n"
    by (rule threshold_mono [OF assms(1) multiplier c(1) round_ratio_bounds(1) [OF up]
          order_trans [OF round_ratio_bounds(2) [OF up]] offset(1) room]) simp
  have looser: "alert_threshold (tu_thresholds (make_tuning_looser t)) ?n \<le> alert_threshold ?th ?n"
    by (rule threshold_mono [OF _ assms(1) order_trans [OF _ round_ratio_bounds(1) [OF down]] round_ratio_bounds(2) [OF down] c(2)])
      (use assms in \<open>simp_all add: make_tuning_looser_def finite_non_negative_def option_or_def Let_def\<close>)
  have events: "th_min_events ?th \<le> th_min_events (tu_thresholds (make_tuning_stricter p t))"
    using assms(3) by (simp add: make_tuning_stricter_def Let_def)
  have fewer: "th_min_events (tu_thresholds (make_tuning_looser t)) \<le> n" if "th_min_events ?th \<le> n" "m < n" for m n
    using that by (simp add: make_tuning_looser_def Let_def)
  show ?thesis
    using stricter looser events fewer by (auto simp: version_fires_def Let_def)
qed

definition cautious :: rule_tuning where
  "cautious = fixed_tuning 3 1 1 92 None None"

definition done_export :: audit_event where
  "done_export = denied_query\<lparr>ev_action := ActExport, ev_result := ResSuccess\<rparr>"

definition cautious_version :: ueba_version where
  "cautious_version = \<lparr>rv_version = 1, rv_status = UebaActive, rv_tuning = cautious\<rparr>"

theorem stricter_fires_less_witness:
  "version_fires (default_rule_definition ExportSpike [] [] cautious,
      cautious_version\<lparr>rv_tuning := make_tuning_looser cautious\<rparr>) no_baseline [done_export, done_export, done_export]"
proof -
  have room: "th_baseline_multiplier (tu_thresholds cautious) = Some (of_nat 100 / 100)" "(100 :: nat) \<le> 1000"
    "th_min_events (tu_thresholds cautious) \<le> usize_max"
    "10 * baseline_count_for_rule (rd_rule (default_rule_definition ExportSpike [] [] cautious)) no_baseline
      + th_baseline_offset (tu_thresholds cautious) + 10 \<le> usize_max"
    by (simp_all add: cautious_def fixed_tuning_def baseline_count_for_rule_def default_rule_definition_def
        no_baseline_def usize_max_def)
  have "alert_threshold (tu_thresholds cautious) 0 = 1"
    using threshold_whole [of "tu_thresholds cautious" 1 0] by (simp add: cautious_def fixed_tuning_def usize_max_def)
  then have fires: "version_fires (default_rule_definition ExportSpike [] [] cautious,
      cautious_version\<lparr>rv_tuning := cautious\<rparr>) no_baseline [done_export, done_export, done_export]"
    by (simp add: version_fires_def Let_def default_rule_definition_def baseline_count_for_rule_def no_baseline_def
        rule_observed_count_def count_events_def done_export_def) (simp add: cautious_def fixed_tuning_def)
  show ?thesis by (rule mp [OF conjunct2 [OF stricter_fires_less [OF room]] fires])
qed

text \<open>A multiplier above ten is cut down to ten when the tuning is made stricter.\<close>

lemma stricter_may_loosen:
  "th_baseline_multiplier (tu_thresholds t) = Some 12 \<Longrightarrow>
    th_baseline_multiplier (tu_thresholds (make_tuning_stricter p t)) = Some 10"
proof -
  assume m: "th_baseline_multiplier (tu_thresholds t) = Some 12"
  let ?q = "of_nat (max 1 (min 10 p)) :: rat"
  have "0 \<le> ?q" by simp
  then have "min 10 (12 * (1 + ?q * (15 / 100))) = 10" by (intro min_absorb1) simp
  moreover have "round_ratio 10 = 10" using round_ratio_cents [of 1000] by simp
  ultimately show ?thesis
    using m by (simp add: make_tuning_stricter_def finite_non_negative_def option_or_def Let_def)
qed

subsection \<open>Calibration\<close>

lemma percentile_index:
  assumes "values \<noteq> []" "0 \<le> p" "p \<le> 1"
  shows "nat (round_away (of_nat (length values - 1) * max 0 (min 1 p))) < length values"
proof -
  have "of_nat (length values - 1) * max 0 (min 1 p) \<le> of_nat (length values - 1) * (1 :: rat)"
    using assms by (intro mult_left_mono) simp_all
  from round_away_mono [OF this] have "round_away (of_nat (length values - 1) * max 0 (min 1 p)) \<le> int (length values - 1)"
    by simp
  with assms(1) show ?thesis by (cases "values") auto
qed

lemma percentile_mem:
  assumes "values \<noteq> []" "0 \<le> p" "p \<le> 1"
  shows "percentile_nearest values p \<in> set values"
proof -
  have "sort values ! nat (round_away (of_nat (length values - 1) * max 0 (min 1 p))) \<in> set (sort values)"
    by (rule nth_mem) (simp only: length_sort percentile_index [OF assms])
  then show ?thesis unfolding percentile_nearest_def if_not_P [OF assms(1)] set_sort .
qed

lemma percentile_mono:
  assumes "values \<noteq> []" "0 \<le> p" "p \<le> q" "q \<le> 1"
  shows "percentile_nearest values p \<le> percentile_nearest values q"
proof -
  have "of_nat (length values - 1) * max 0 (min 1 p) \<le> of_nat (length values - 1) * max 0 (min 1 q)"
    using assms(3) by (intro mult_left_mono max.mono min.mono) simp_all
  note le = nat_mono [OF round_away_mono [OF this]]
  have "0 \<le> q" using assms(2,3) by simp
  note index = percentile_index [OF assms(1) this assms(4)]
  show ?thesis
    unfolding percentile_nearest_def if_not_P [OF assms(1)]
    by (rule sorted_nth_mono [OF sorted_sort le]) (simp only: length_sort index)
qed

lemma observed_le: "rule_observed_count r t es \<le> length es"
  by (cases r; cases "tu_pattern t") (simp_all add: rule_observed_count_def count_events_def)

definition recommendation_ok :: "nat \<Rightarrow> rule_recommendation \<Rightarrow> bool" where
  "recommendation_ok n r =
     (let th = rc_recommended_thresholds r in
      rc_sample_p50 r \<le> rc_sample_p95 r \<and> rc_sample_p95 r \<le> n
      \<and> rc_sample_p50 r < th_min_events th \<and> rc_sample_p95 r \<le> th_min_events th
      \<and> 1 \<le> th_risk_score th \<and> th_risk_score th \<le> 100
      \<and> (case th_baseline_multiplier th of None \<Rightarrow> False | Some m \<Rightarrow> 1 \<le> m \<and> m \<le> 6)
      \<and> tu_thresholds (rc_recommended_tuning r) = th
      \<and> tu_action_override (rc_recommended_tuning r) = Some (mitigation_from_score (int (th_risk_score th))))"

lemma multiplier_bounds: "1 \<le> calibrated_multiplier a b x y" "calibrated_multiplier a b x y \<le> 6"
proof -
  let ?m = "max 1 (min 6 (if 0 < a then of_nat (max b a) / of_nat a
    else if 0 < b then 1 + of_nat x / of_nat y else 1)) :: rat"
  have "of_nat 100 / 100 \<le> ?m" "?m \<le> of_nat 600 / 100" by simp_all
  from round_ratio_bounds [OF this] show "1 \<le> calibrated_multiplier a b x y" "calibrated_multiplier a b x y \<le> 6"
    by (simp_all add: calibrated_multiplier_def Let_def)
qed

lemma score_bounds: "1 \<le> calibrated_risk_score ln_of a b c" "calibrated_risk_score ln_of a b c \<le> 100"
proof -
  have "1 \<le> nat (max 1 (min 100 x)) \<and> nat (max 1 (min 100 x)) \<le> 100" for x :: int by linarith
  then show "1 \<le> calibrated_risk_score ln_of a b c" "calibrated_risk_score ln_of a b c \<le> 100"
    by (simp_all only: calibrated_risk_score_def Let_def split: if_split) simp_all
qed

lemma recommend_ok:
  assumes "recommend ln_of users m d = Some r" "\<And>u es. (u, es) \<in> set users \<Longrightarrow> length es \<le> n"
  shows "recommendation_ok n r"
proof -
  obtain rv where rv: "find (\<lambda>rv. is_enabled (rv_status rv)) (rd_versions d) = Some rv"
    using assms(1) by (auto simp: recommend_def split: option.splits)
  let ?f = "\<lambda>(u, es). rule_observed_count (rd_rule d) (rv_tuning rv) es"
  let ?counts = "if map ?f users = [] then [0] else map ?f users"
  have le: "c \<le> n" if "c \<in> set ?counts" for c
    using that assms(2) le_trans [OF observed_le] by (auto split: if_splits)
  have ne: "?counts \<noteq> []" by simp
  have p: "percentile_nearest ?counts (50 / 100) \<le> percentile_nearest ?counts (95 / 100)"
    by (rule percentile_mono [OF ne]) simp_all
  have top: "percentile_nearest ?counts (95 / 100) \<le> n" by (intro le percentile_mem ne) simp_all
  let ?score = "calibrated_risk_score ln_of (percentile_nearest ?counts (95 / 100))
    (length (filter (\<lambda>n. 0 < n) ?counts)) (max m 1)"
  have r: "rc_sample_p50 r = percentile_nearest ?counts (50 / 100)" "rc_sample_p95 r = percentile_nearest ?counts (95 / 100)"
    "th_min_events (rc_recommended_thresholds r)
      = max (max (percentile_nearest ?counts (95 / 100)) (percentile_nearest ?counts (50 / 100) + 1)) 1"
    "th_risk_score (rc_recommended_thresholds r) = ?score"
    "\<exists>a b x y. th_baseline_multiplier (rc_recommended_thresholds r) = Some (calibrated_multiplier a b x y)"
    "tu_thresholds (rc_recommended_tuning r) = rc_recommended_thresholds r"
    "tu_action_override (rc_recommended_tuning r) = Some (mitigation_from_score (int ?score))"
    using assms(1) [unfolded recommend_def rv option.case Let_def] by force+
  from r(5) obtain a b x y
    where multiplier: "th_baseline_multiplier (rc_recommended_thresholds r) = Some (calibrated_multiplier a b x y)" by blast
  show ?thesis
    unfolding recommendation_ok_def Let_def r(1-4,6,7) multiplier option.case
    using p top multiplier_bounds [of a b x y] score_bounds by simp
qed

text \<open>
  Whatever the events, and whatever the logarithm returns, each recommendation of a calibration
  asks for more events than the median and at least as many as the upper percentile, which some user
  has, scores between 1 and 100 with the action of that score, and multiplies a baseline by one to
  six.
\<close>

lemma calibration_within_bounds:
  "list_all (recommendation_ok (length events)) (ca_recommendations (calibrate_ueba_rules ln_of rfc3339 events))"
proof -
  have users: "length es \<le> length events" if "(u, es) \<in> set (events_by_user events)" for u es
    using events_by_user_mem [OF that] by simp
  have "list_all P (List.map_filter f xs)" if "\<And>x y. f x = Some y \<Longrightarrow> P y" for P f and xs :: "rule_definition list"
    using that by (induction xs) (auto simp: List.map_filter_def)
  from this [of "recommend ln_of (events_by_user events) (length (events_by_user events))" "recommendation_ok (length events)"
      default_rule_set] recommend_ok users
  show ?thesis by (simp add: calibrate_ueba_rules_def Let_def)
qed

end
