(* ===== verification/Spec2Isabelle.thy ===== *)
theory Spec2Isabelle
  imports QueryGuard GrantLifecycle TenantIsolation ApprovalEngine AuditRetention SchedulerRuns KeyRotation DataView McpGateway AccessPolicy IntegrationGate ApiAccounts UebaTuning
begin

text \<open>
  SDQP, a platform on which users query sensitive data under grants that an approval process
  issues.  This development models the core of it, the crates that decide who may see which
  row and column, and proves what they promise.

  How the parts interact.  A user applies for a grant; the approval engine walks the request
  through the steps of a flow, asking the organisation directory for approvers who are
  available; an approved request becomes a grant in the permission registry, which the
  lifecycle scheduler later suspends, revokes or expires when the directory, the project or an
  audit changes.  A query merges the user's active grants into one, the guard turns the merged
  grant into conditions of a unified query, the planner pushes the conditions a source can
  evaluate and evaluates all of them again on the rows that come back, and every decision is
  appended to a hash-chained audit trail, which is archived and purged under a retention
  policy.

  Theories and the code they model (paths under \<open>src/crates\<close>).
  \<^item> \<open>SdqpPrelude\<close>, \<open>RustStrings\<close>: the parts of Rust's standard library the code uses: results,
    ordered maps, indexing that panics, trimming, splitting, joining, decimal numbers.
  \<^item> \<open>StateMachines\<close>: the contract of a lifecycle with a table of allowed moves, interpreted on
    the project lifecycle and on controlled deletion.
  \<^item> \<open>CoreModel\<close>: \<open>sdqp-core\<close>, identifiers, conditions, pagination and the scope key.
  \<^item> \<open>Permission\<close>, \<open>QueryGuard\<close>: \<open>sdqp-permission-engine\<close>, \<open>model.rs\<close>, \<open>merge.rs\<close>, \<open>guard.rs\<close>.
    The merge of fields is characterised as deny-wins over the grants that went in, that of
    windows as intersection, that of conditions as union of the rows admitted, for conditions
    whose signatures can be read back.
  \<^item> \<open>GrantLifecycle\<close>: \<open>lifecycle.rs\<close>, \<open>service.rs\<close>.  The scheduler's verdict equals a decision
    table; the bulk operations of the registry share the locale \<open>grant_sweep\<close>; its runs are a
    step relation on which closed grants stay closed.
  \<^item> \<open>LikeMatcher\<close>, \<open>QueryPlan\<close>: \<open>sdqp-datasource-adapter\<close>, \<open>traits.rs\<close> and the filter closure of
    \<open>adapters.rs\<close>.  The dynamic programme for \<open>LIKE\<close> decides the language of the pattern;
    planning, pushdown, widening of the projection and the residual filter together refine
    the direct evaluation of the query on the table.
  \<^item> \<open>SqlText\<close>, \<open>HiveText\<close>, \<open>SourceAdapters\<close>: \<open>adapters.rs\<close>, the SQL text of a query, the command
    and the output of the Hive client, the adapters and the registry that chooses one.  The
    statements are read back by lexers written for the purpose: for Postgres values always stay
    literals, for Hive, whose literals have backslash escapes, when they hold no quote and no
    backslash.  Rows of the Hive client are read back unless they hold a line feed or the text it
    prints after a query.
  \<^item> \<open>CircuitTask\<close>, \<open>AdapterScheduler\<close>, \<open>SchedulerRuns\<close>: \<open>circuit.rs\<close>, \<open>task.rs\<close>, \<open>scheduler.rs\<close>.
    Each operation of the scheduler is a sequence of critical sections; a step relation
    interleaves those of any number of queries with the management operations, and an
    invariant ties its counters and permits to the program counters.
  \<^item> \<open>TenantIsolation\<close>: \<open>sdqp-tenant-isolation\<close>, contexts, object-store namespaces, the request
    guard and the project lifecycle.
  \<^item> \<open>OrgDirectory\<close>: \<open>sdqp-hr-integration\<close>, the directory, HR events, the sync orchestrator, the
    listener and the routing of a request to an approver.
  \<^item> \<open>ApprovalEngine\<close>: \<open>sdqp-approval-engine\<close>, completely.  The locale \<open>approver_source\<close> is what
    the engine needs of the directory, and the directory interprets it; the locale
    \<open>instance_operation\<close> is what every operation keeps of an instance, and each operation
    interprets it.
  \<^item> \<open>AuditChain\<close>, \<open>AuditRetention\<close>: \<open>sdqp-audit\<close>, events and their hash, the chain, signers and
    checkpoints, the trail with its archive boundary and replica, retention, archive plans and
    the controlled deletion flow.  Two chains that verify and end in the same hash agree on
    all the hash covers; the lemmas also say what it does not cover.

  \<^item> \<open>KeyServices\<close>, \<open>Envelope\<close>, \<open>SnapshotStore\<close>: \<open>sdqp-encryption\<close>, the key services and their
    registry, the envelope ciphers, the snapshot store, the object stores and the rotation
    policy.  A payload can be read after any sequence of re-wraps under configurations of the
    same key metadata that use the built-in key services (not the transit engine of Vault).
  \<^item> \<open>KeyRotation\<close>: the rotation of snapshot keys in \<open>apps/sdqp-api/src/phase8.rs\<close>, over the store
    and the table of snapshots.  With the built-in key services a cycle keeps every row and record
    and all data readable; the lemmas also say which snapshots no cycle reaches.
  \<^item> \<open>Classification\<close>: \<open>sdqp-data-classification\<close>, rules, detection in samples, escalation,
    confirmation, the catalogue and masking.
  \<^item> \<open>DataView\<close>: \<open>sdqp-data-view\<close>, what a user sees of a snapshot: profiles, masked tables, pages,
    pivots and drill-down.  The code builds a plan for the query engine; the plans of pages are
    given the meaning their operators have, in which rows have no order but the one of a sort, and
    the engine is asked to follow it for columns whose names it takes as they are.
  \<^item> \<open>McpRateLimit\<close>, \<open>McpGateway\<close>: \<open>sdqp-mcp-gateway\<close>, the token buckets with what they let
    through in any window, and the registry, authentication, tools and watermark of agents.

  \<^item> \<open>ByteText\<close>, \<open>JsonValue\<close>, \<open>HttpRequest\<close>: text as bytes, JSON values, and how the API server reads
    headers and query parameters.
  \<^item> \<open>Authentication\<close>: \<open>sdqp-system-security/auth\<close>, \<open>session.rs\<close> and \<open>mfa.rs\<close>, access tokens,
    one-time codes and WebAuthn assertions.  The codes are compared with RFC 4226 and the signed
    message with WebAuthn, both written down here independently of the code (\<open>hotp\<close>,
    \<open>webauthn_proof\<close>), over the library's digest and signature check.
  \<^item> \<open>SingleSignOn\<close>, \<open>ScimSync\<close>, \<open>ScimClient\<close>: \<open>sso.rs\<close> and \<open>scim.rs\<close>, the adapters for identity
    providers, the plan that brings the directory to the provider's state, and the client that
    pulls the pages.  Patches of users and of groups share the locale \<open>keyed_patches\<close>.  The loop
    over pages ends only if the provider lets it, so it is a partial function.
  \<^item> \<open>AccessPolicy\<close>, \<open>Integrations\<close>: device posture, risk, separation of duties, drift of the
    configuration, covert channels and attestation, and \<open>transport.rs\<close>, the keys, limits and
    credentials of integrations.
  \<^item> \<open>IntegrationGate\<close>: in \<open>apps/sdqp-api/src/lib.rs\<close> the middleware in front of the integration
    endpoints and the job that rotates their keys.
  \<^item> \<open>ApiState\<close>, \<open>ApiDirectory\<close>, \<open>ApiSessions\<close>: the rest of that file as far as accounts and sessions
    go: login, single sign-on, second factor, device posture, step-up, refresh, logout, the SCIM
    handlers and the middlewares that authenticate a request and place it in a tenant and a
    project.
  \<^item> \<open>ApiRuns\<close>, \<open>ApiAccounts\<close>: runs of these handlers in any order, with providers and storage that
    answer as they like.  Each handler interprets the locale \<open>session_operation\<close>, and those that
    do not log in \<open>quiet_operation\<close>; with them a session is traced back to what opened it,
    revocation is final, a spent refresh token is remembered until the next exchange, and the
    directory stays well formed.  Runs are those of one server process: what a restart loads from
    storage is not in them.
  \<^item> \<open>UebaRules\<close>, \<open>UebaReplay\<close>, \<open>UebaTuning\<close>: \<open>sdqp-ueba\<close>, the rules of behaviour analytics
    with their versions, baselines and alerts, the replay of rules over past events, and the
    tuning made from it.  The replay of the default rules is compared with the direct evaluation, user
    by user: the order in which either visits the users is an argument.

  State.  A Rust struct is a record of the same fields, with a prefix per struct; an operation
  on \<open>&mut self\<close> returns the new record, and its result where it has one; a handler that fails
  after it changed something returns both.  An index out of range is an error of its own where
  the code can reach it.

  Parameters.  Code that is not in the repository is an argument: the comparison of decimal
  floats \<open>fcmp\<close>, the source behind an adapter, the provider behind an HR connector, SHA-256,
  HMAC, hexadecimal and JSON text, RFC 3339 rendering, and the identifiers drawn at random
  (ULID), base64, the authenticated cipher, elliptic-curve signatures, HTTP and the clients of
  Vault and S3.  Where a theorem needs something of a parameter, it is a named hypothesis and a
  witness shows it with a concrete function.

  Concurrency.  A critical section of the scheduler is atomic, since it runs under one lock.  The
  snapshot of the circuit breaker that a section uses was taken under another lock before it,
  so a step may use any snapshot.  Two things are asked of the callers, who are outside the
  model: a task identifier is submitted once, and an adapter is registered while it is idle.
  A handler of the API server is atomic in its model, although the code gives up its locks while
  it saves; what a save finds in storage is left out, but it may fail at any time, and a panic
  leaves the state as it was at its start.  Where the code searches a hash map, whose order is
  not defined, the model takes the first match in a list.

  Bounds.  The manager hops of the approver route are limited by \<open>max_manager_hops\<close>, which is
  also its termination measure.  Counts of rows and events are natural numbers; where the code
  parses a \<open>usize\<close> or an \<open>i128\<close> the overflow of the type is written out, and a 64-bit context
  value is a word.  Times are integers in nanoseconds; chrono's own range is not modelled.
  Strings are lists of code points up to U+00FF.

  Not modelled: the HTTP handlers of \<open>apps\<close> other than those named above, the connectors' provider formats, storage,
  configuration, the frontend, audit forwarding, evidence and the other crates named in the manifest; they are left to later work or
  are input and output.
\<close>

section \<open>From grants to rows\<close>

text \<open>The merge of the sample grants, asked for the names in its region.\<close>

definition sample_merged :: permission_grant where
  "sample_merged = the (merge_grants sample_grants)"

definition sample_guarded :: unified_query where
  "sample_guarded = projr (apply_grant_to_query sample_merged [FieldSelector ''name''])"

text \<open>
  What a user gets to see, for any source: every row handed back is the projection of a row the
  source returned and some active grant admits.
\<close>

lemma guarded_query_end_to_end:
  assumes "merge_grants gs = Some m"
    and "apply_grant_to_query m requested = Inr q"
    and "execute_planned_query fcmp caps adapter q = Inr res"
    and "r \<in> set (qr_rows res)"
  shows "(\<exists>upstream_query upstream row. adapter upstream_query = Inr upstream \<and>
            row \<in> set (qr_rows upstream) \<and> r = project_result_row row requested \<and>
            (\<exists>g \<in> set (active_grants gs). row_in_grant fcmp g row))
    \<and> map fqr_field r = map fs_str requested
    \<and> (\<forall>f \<in> set requested. \<exists>g \<in> set (active_grants gs). field_authorized g (fs_str f))
    \<and> (2 \<le> length (active_grants gs) \<longrightarrow>
         (\<forall>f \<in> set requested. \<forall>g \<in> set (active_grants gs). \<not> field_denied g (fs_str f)))"
proof -
  obtain eq up where up: "adapter eq = Inr up" and res: "res = finalize_query_result fcmp q up"
    using execute_planned_query_Inr [OF assms(3)] by blast
  obtain row where row: "row \<in> set (qr_rows up)" "row_matches_query_filters fcmp row q"
      and r: "r = project_result_row row requested"
    using finalize_rows_sound [of r fcmp q up] assms(4) guarded_query_fields [OF assms(2)]
    unfolding res by auto
  have admitted: "\<exists>g \<in> set (active_grants gs). row_in_grant fcmp g row"
    using merged_rows_sound [OF assms(1)] row(2) guarded_query_rows [OF assms(2)] by blast
  have auth: "\<forall>f \<in> set requested. field_authorized m (fs_str f)"
    using assms(2) by (simp add: apply_grant_to_query_Inr)
  have "\<forall>f \<in> set requested. \<exists>g \<in> set (active_grants gs). field_authorized g (fs_str f)"
    using auth merge_authorized_sound [OF assms(1)] by blast
  moreover have "2 \<le> length (active_grants gs) \<longrightarrow>
      (\<forall>f \<in> set requested. \<forall>g \<in> set (active_grants gs). \<not> field_denied g (fs_str f))"
    using auth merge_many_authorized [OF _ assms(1)] by blast
  ultimately show ?thesis
    using up row(1) r admitted project_result_row_fields by blast
qed

text \<open>The same through the registry, which chooses the adapter by the configuration.\<close>

lemma answered_Inr: "answered adapter q = Inr res \<longleftrightarrow> adapter q = Some (Inr res)"
  by (auto simp: answered_def split: option.splits)

definition sample_rest_env :: source_env where
  "sample_rest_env = sample_source_env\<lparr>se_http := (\<lambda>_. Inr
     [map_of [(''name'', ''Ann''), (''region'', ''us'')], map_of [(''name'', ''Bo''), (''region'', ''cn'')]])\<rparr>"

definition sample_rest_registry :: adapter_registry where
  "sample_rest_registry = registry_from_configs
     [\<lparr>dc_data_source_id = ''hr'', dc_source_type = Rest, dc_connection_uri = ''https://hr'',
       dc_adapter_config = JNull\<rparr>]"

text \<open>
  C1. End to end: what a user gets to see.  Whatever the sources return, every row handed back
  by a query that went through the merge of the user's grants, the guard, the adapter registry
  and the filter closure is the projection of a row that an adapter returned and some active
  grant admits; it has exactly the requested columns; every requested field is authorised by
  some active grant, and with two or more active grants none of them denies it.
\<close>

theorem guarded_registry_query:
  assumes "merge_grants gs = Some m"
    and "apply_grant_to_query m requested = Inr q"
    and "registry_execute_query fcmp env reg sid st q = Some (Inr res)"
    and "r \<in> set (qr_rows res)"
  shows "(\<exists>ad upstream_query upstream row. adapter_execute env ad upstream_query = Some (Inr upstream) \<and>
            row \<in> set (qr_rows upstream) \<and> r = project_result_row row requested \<and>
            (\<exists>g \<in> set (active_grants gs). row_in_grant fcmp g row))
    \<and> map fqr_field r = map fs_str requested
    \<and> (\<forall>f \<in> set requested. \<exists>g \<in> set (active_grants gs). field_authorized g (fs_str f))
    \<and> (2 \<le> length (active_grants gs) \<longrightarrow>
         (\<forall>f \<in> set requested. \<forall>g \<in> set (active_grants gs). \<not> field_denied g (fs_str f)))"
proof -
  obtain ad where "execute_planned_query fcmp (registry_capabilities reg sid st)
      (answered (adapter_execute env ad)) q = Inr res"
    using registry_execute_Some [OF assms(3)] by auto
  from guarded_query_end_to_end [OF assms(1,2) this assms(4)] show ?thesis
    unfolding answered_Inr by blast
qed

lemma guarded_registry_query_witness:
  "qr_rows (projr (the (registry_execute_query no_floats sample_rest_env sample_rest_registry ''hr'' Rest
     sample_guarded))) \<noteq> [] \<and>
   list_all (\<lambda>r. map fqr_field r = [''name''])
     (qr_rows (projr (the (registry_execute_query no_floats sample_rest_env sample_rest_registry ''hr'' Rest
        sample_guarded))))"
proof -
  let ?run = "registry_execute_query no_floats sample_rest_env sample_rest_registry ''hr'' Rest sample_guarded"
  have merged: "merge_grants sample_grants = Some sample_merged"
    using sample_merges by (auto simp: sample_merged_def)
  have "\<not> isl (apply_grant_to_query sample_merged [FieldSelector ''name''])"
    unfolding sample_merged_def by code_simp
  then have guarded: "apply_grant_to_query sample_merged [FieldSelector ''name''] = Inr sample_guarded"
    by (simp add: sample_guarded_def sum.collapse(2))
  have "\<not> Option.is_none ?run" "\<not> isl (the ?run)" and rows: "qr_rows (projr (the ?run)) \<noteq> []"
    unfolding sample_guarded_def sample_merged_def by code_simp+
  then have run: "?run = Some (Inr (projr (the ?run)))"
    by (simp add: Option.is_none_def sum.collapse(2))
  have "map fqr_field r = [''name'']" if "r \<in> set (qr_rows (projr (the ?run)))" for r
    using guarded_registry_query [OF merged guarded run that] by simp
  with rows show ?thesis by (simp add: list_all_iff)
qed

end
